(* ===== verification/Prelude.thy ===== *)
theory Prelude
  imports Main "HOL-Library.Sublist"
begin

text \<open>
  Vocabulary shared by every component: Go strings (byte lists) with the functions of the
  standard packages \<open>strings\<close>, \<open>strconv\<close> and \<open>net/textproto\<close> that the sources call, the
  wrap-around of \<open>int64\<close>, and results that may be an error or a panic.  The lemmas are the
  facts about these that more than one component uses; they are simp rules or members of the
  collections below.
\<close>

named_theorems str_simps \<open>facts that evaluate the string functions\<close>

section \<open>Results\<close>

text \<open>A Go call that may panic: a normal return or the panic.\<close>

datatype 'a go = Return 'a | Panic

fun go_bind :: "'a go \<Rightarrow> ('a \<Rightarrow> 'b go) \<Rightarrow> 'b go" where
  "go_bind (Return x) f = f x"
| "go_bind Panic f = Panic"

lemma go_bind_eq_Return: "go_bind m f = Return y \<longleftrightarrow> (\<exists>x. m = Return x \<and> f x = Return y)"
  by (cases m) auto

lemma go_bind_neq_Panic: "go_bind m f \<noteq> Panic \<longleftrightarrow> (\<exists>x. m = Return x \<and> f x \<noteq> Panic)"
  by (cases m) auto

section \<open>Machine integers\<close>

text \<open>\<open>int64\<close> and Go's \<open>int\<close> on the 64-bit targets: two's complement, wrapping silently.\<close>

definition i64_max :: int where
  "i64_max = 9223372036854775807"

definition i64_min :: int where
  "i64_min = -9223372036854775808"

definition i64 :: "int \<Rightarrow> int" where
  "i64 x = (x + 9223372036854775808) mod 18446744073709551616 - 9223372036854775808"

lemma i64_id: "i64_min \<le> x \<Longrightarrow> x \<le> i64_max \<Longrightarrow> i64 x = x"
  by (simp add: i64_def i64_min_def i64_max_def)

lemma i64_range: "i64_min \<le> i64 x \<and> i64 x \<le> i64_max"
proof -
  have "0 \<le> (x + 9223372036854775808) mod 18446744073709551616"
    and "(x + 9223372036854775808) mod 18446744073709551616 < (18446744073709551616::int)"
    by simp_all
  then show ?thesis unfolding i64_def i64_min_def i64_max_def by linarith
qed

section \<open>Strings\<close>

text \<open>\<open>strings.HasPrefix\<close>, \<open>HasSuffix\<close>, \<open>TrimPrefix\<close>, \<open>TrimSuffix\<close>, \<open>CutPrefix\<close>.\<close>

definition has_prefix :: "string \<Rightarrow> string \<Rightarrow> bool" where
  "has_prefix s p \<longleftrightarrow> take (length p) s = p"

definition has_suffix :: "string \<Rightarrow> string \<Rightarrow> bool" where
  "has_suffix s p \<longleftrightarrow> has_prefix (rev s) (rev p)"

definition trim_prefix :: "string \<Rightarrow> string \<Rightarrow> string" where
  "trim_prefix s p = (if has_prefix s p then drop (length p) s else s)"

definition trim_suffix :: "string \<Rightarrow> string \<Rightarrow> string" where
  "trim_suffix s p = (if has_suffix s p then take (length s - length p) s else s)"

definition cut_prefix :: "string \<Rightarrow> string \<Rightarrow> string \<times> bool" where
  "cut_prefix s p = (if has_prefix s p then (drop (length p) s, True) else (s, False))"

lemma has_prefix_prefix: "has_prefix s p \<longleftrightarrow> prefix p s"
  by (metis has_prefix_def append_eq_conv_conj prefix_def)

lemma has_prefix_append [simp]: "has_prefix (p @ s) p"
  by (simp add: has_prefix_def)

lemma has_prefix_D: "has_prefix s p \<Longrightarrow> s = p @ drop (length p) s"
  by (metis has_prefix_def append_take_drop_id)

lemma has_suffix_suffix: "has_suffix s p \<longleftrightarrow> suffix p s"
  by (simp add: has_suffix_def has_prefix_prefix suffix_to_prefix)

text \<open>\<open>strings.IndexByte\<close>, \<open>LastIndexByte\<close>, \<open>Index\<close>, \<open>LastIndex\<close> (\<open>None\<close> for Go's -1),
  \<open>Contains\<close> and \<open>Count\<close> of a byte.\<close>

fun index_byte :: "string \<Rightarrow> char \<Rightarrow> nat option" where
  "index_byte [] c = None"
| "index_byte (x # xs) c = (if x = c then Some 0 else map_option Suc (index_byte xs c))"

fun last_index_byte :: "string \<Rightarrow> char \<Rightarrow> nat option" where
  "last_index_byte [] c = None"
| "last_index_byte (x # xs) c =
     (case last_index_byte xs c of
        Some i \<Rightarrow> Some (Suc i)
      | None \<Rightarrow> if x = c then Some 0 else None)"

fun index_str :: "string \<Rightarrow> string \<Rightarrow> nat option" where
  "index_str [] p = (if p = [] then Some 0 else None)"
| "index_str (x # xs) p =
     (if has_prefix (x # xs) p then Some 0 else map_option Suc (index_str xs p))"

fun last_index_str :: "string \<Rightarrow> string \<Rightarrow> nat option" where
  "last_index_str [] p = (if p = [] then Some 0 else None)"
| "last_index_str (x # xs) p =
     (case last_index_str xs p of
        Some i \<Rightarrow> Some (Suc i)
      | None \<Rightarrow> if has_prefix (x # xs) p then Some 0 else None)"

definition contains_str :: "string \<Rightarrow> string \<Rightarrow> bool" where
  "contains_str s p \<longleftrightarrow> index_str s p \<noteq> None"

definition count_byte :: "string \<Rightarrow> char \<Rightarrow> nat" where
  "count_byte s c = length (filter (\<lambda>x. x = c) s)"

text \<open>\<open>strings.Split\<close> on a one-byte separator (at least one element), \<open>Join\<close>,
  \<open>Cut\<close>, \<open>ReplaceAll\<close> of one byte.\<close>

fun split_on :: "char \<Rightarrow> string \<Rightarrow> string list" where
  "split_on c [] = [[]]"
| "split_on c (x # xs) =
     (if x = c then [] # split_on c xs
      else (case split_on c xs of [] \<Rightarrow> [[x]] | y # ys \<Rightarrow> (x # y) # ys))"

fun join_with :: "string \<Rightarrow> string list \<Rightarrow> string" where
  "join_with sep [] = []"
| "join_with sep [s] = s"
| "join_with sep (s # t # ss) = s @ sep @ join_with sep (t # ss)"

definition cut_byte :: "string \<Rightarrow> char \<Rightarrow> string \<times> string \<times> bool" where
  "cut_byte s c = (case index_byte s c of
      None \<Rightarrow> (s, [], False)
    | Some i \<Rightarrow> (take i s, drop (Suc i) s, True))"

definition replace_byte :: "char \<Rightarrow> string \<Rightarrow> string \<Rightarrow> string" where
  "replace_byte c d s = concat (map (\<lambda>x. if x = c then d else [x]) s)"

text \<open>Byte ranges and the ASCII part of \<open>strings.ToLower\<close>.\<close>

definition byte :: "char \<Rightarrow> nat" where
  "byte c = of_char c"

definition is_digit :: "char \<Rightarrow> bool" where
  "is_digit c \<longleftrightarrow> 48 \<le> byte c \<and> byte c \<le> 57"

text \<open>\<open>textproto.TrimString\<close>: blanks, tabs, line feeds and carriage returns at both ends.\<close>

definition is_ascii_space :: "char \<Rightarrow> bool" where
  "is_ascii_space c \<longleftrightarrow> byte c = 32 \<or> byte c = 9 \<or> byte c = 10 \<or> byte c = 13"

definition trim_string :: "string \<Rightarrow> string" where
  "trim_string s = rev (dropWhile is_ascii_space (rev (dropWhile is_ascii_space s)))"

text \<open>
  \<open>strings.TrimSpace\<close>: the encodings of the code points with the Unicode property
  \<open>White_Space\<close> at both ends.
\<close>

definition space_seqs :: "nat list list" where
  "space_seqs =
     [[9], [10], [11], [12], [13], [32], [194, 133], [194, 160], [225, 154, 128],
      [226, 128, 128], [226, 128, 129], [226, 128, 130], [226, 128, 131], [226, 128, 132],
      [226, 128, 133], [226, 128, 134], [226, 128, 135], [226, 128, 136], [226, 128, 137],
      [226, 128, 138], [226, 128, 168], [226, 128, 169], [226, 128, 175], [226, 129, 159],
      [227, 128, 128]]"

definition space_at :: "nat list list \<Rightarrow> string \<Rightarrow> nat list option" where
  "space_at seqs s = find (\<lambda>q. map byte (take (length q) s) = q) seqs"

fun strip_spaces :: "nat list list \<Rightarrow> string \<Rightarrow> string" where
  "strip_spaces seqs [] = []"
| "strip_spaces seqs (x # xs) =
     (case space_at seqs (x # xs) of
        None \<Rightarrow> x # xs
      | Some q \<Rightarrow> strip_spaces seqs (drop (length q - 1) xs))"

definition trim_space :: "string \<Rightarrow> string" where
  "trim_space s =
     rev (strip_spaces (map rev space_seqs) (rev (strip_spaces space_seqs s)))"

section \<open>Facts about splitting and joining\<close>

lemma space_at_None:
  assumes "list_all (\<lambda>q. q \<noteq> [] \<and> hd q \<noteq> byte c) qs"
  shows "space_at qs (c # s) = None"
proof -
  have "map byte (take (length q) (c # s)) \<noteq> q" if "q \<in> set qs" for q
    using assms that by (cases q) (auto simp: list_all_iff)
  then show ?thesis by (auto simp: space_at_def find_None_iff)
qed

lemma strip_spaces_id: "s = [] \<or> space_at qs s = None \<Longrightarrow> strip_spaces qs s = s"
  by (cases s) auto

lemma split_on_nonempty [simp]: "split_on c s \<noteq> []"
  by (induction s) (auto split: list.splits)

lemma split_on_free: "x \<in> set (split_on c s) \<Longrightarrow> c \<notin> set x"
  by (induction s arbitrary: x) (auto split: list.splits if_splits)

lemma split_on_no_sep [simp]: "c \<notin> set s \<Longrightarrow> split_on c s = [s]"
  by (induction s) auto

lemma split_on_append:
  "split_on c (a @ c # b) = split_on c a @ split_on c b"
proof (induction a)
  case Nil
  then show ?case by simp
next
  case (Cons x a)
  then show ?case
    by (cases "split_on c a") (auto split: list.splits)
qed

lemma join_with_Cons: "join_with sep (x # xs) = (if xs = [] then x else x @ sep @ join_with sep xs)"
  by (cases xs) auto

lemma join_split [simp]: "join_with [c] (split_on c s) = s"
proof (induction s)
  case Nil
  then show ?case by simp
next
  case (Cons x s)
  then show ?case
    by (cases "split_on c s") (auto simp: join_with_Cons)
qed

lemma split_join:
  "ss \<noteq> [] \<Longrightarrow> \<forall>x \<in> set ss. c \<notin> set x \<Longrightarrow> split_on c (join_with [c] ss) = ss"
proof (induction ss)
  case Nil
  then show ?case by simp
next
  case (Cons x ss)
  then show ?case
    by (cases ss) (auto simp: split_on_append)
qed

lemma join_with_append:
  "xs \<noteq> [] \<Longrightarrow> ys \<noteq> [] \<Longrightarrow> join_with sep (xs @ ys) = join_with sep xs @ sep @ join_with sep ys"
  by (induction xs) (auto simp: join_with_Cons)

lemma count_byte_append [simp]: "count_byte (a @ b) c = count_byte a c + count_byte b c"
  by (simp add: count_byte_def)

lemma count_byte_Nil [simp]: "count_byte [] c = 0"
  by (simp add: count_byte_def)

lemma count_byte_Cons [simp]: "count_byte (x # s) c = (if x = c then Suc (count_byte s c) else count_byte s c)"
  by (simp add: count_byte_def)

lemma count_byte_zero: "c \<notin> set s \<Longrightarrow> count_byte s c = 0"
  by (induction s) auto

lemma index_byte_None: "index_byte s c = None \<longleftrightarrow> c \<notin> set s"
  by (induction s) auto

lemma index_byte_Some:
  "index_byte s c = Some i \<Longrightarrow> i < length s \<and> s ! i = c \<and> c \<notin> set (take i s)"
  by (induction s arbitrary: i) (auto split: if_splits)

lemma last_index_byte_None: "last_index_byte s c = None \<longleftrightarrow> c \<notin> set s"
  by (induction s) (auto split: option.splits)

lemma last_index_byte_append [simp]:
  "c \<notin> set b \<Longrightarrow> last_index_byte (a @ c # b) c = Some (length a)"
  by (induction a) (auto split: option.splits simp: last_index_byte_None [THEN iffD2])

lemma index_byte_append [simp]: "c \<notin> set a \<Longrightarrow> index_byte (a @ c # b) c = Some (length a)"
  by (induction a) auto

lemma cut_byte_append: "c \<notin> set a \<Longrightarrow> cut_byte (a @ c # b) c = (a, b, True)"
  by (simp add: cut_byte_def)

lemma index_str_single: "index_str s [c] = index_byte s c"
  by (induction s) (auto simp: has_prefix_def)

lemma last_index_byte_Some:
  "last_index_byte s c = Some i \<Longrightarrow> i < length s \<and> s ! i = c \<and> c \<notin> set (drop (Suc i) s)"
  by (induction s arbitrary: i) (auto split: option.splits if_splits simp: last_index_byte_None)

section \<open>Tables\<close>

text \<open>Rows kept in the order of a key, and the replacement of the row with a given key.\<close>

lemma distinct_map_insort:
  "distinct (map f (insort_key k v us)) \<longleftrightarrow> f v \<notin> f ` set us \<and> distinct (map f us)"
  by (induction us) (auto simp: set_insort_key)

lemma distinct_map_replace:
  assumes "distinct (map g rs)" and "distinct (map f rs)" and "\<forall>r \<in> set rs. g r \<noteq> g s \<longrightarrow> f r \<noteq> f s"
  shows "distinct (map f (map (\<lambda>r. if g r = g s then s else r) rs))"
  using assms by (induction rs) (auto simp: image_iff)

end
