(* ===== verification/GoStrconv.thy ===== *)
theory GoStrconv
  imports Prelude
begin

text \<open>
  The functions of the Go standard package \<open>strconv\<close> that the sources call, for base 10 and
  64 bits: \<open>ParseInt\<close> with its left to right scan and its two kinds of error, \<open>FormatInt\<close> and
  \<open>FormatUint\<close>; and \<open>http.Header\<close> of \<open>net/http\<close> on canonical keys.
\<close>

section \<open>Parsing\<close>

datatype scan = ScanOk int | ScanSyntax | ScanRange

text \<open>\<open>ParseUint\<close>'s loop: a range error stops the scan at once, before later bytes are seen.\<close>

fun scan_uint :: "int \<Rightarrow> string \<Rightarrow> scan" where
  "scan_uint n [] = ScanOk n"
| "scan_uint n (c # cs) =
     (if \<not> is_digit c then ScanSyntax
      else if 18446744073709551615 < 10 * n + int (byte c - 48) then ScanRange
      else scan_uint (10 * n + int (byte c - 48)) cs)"

text \<open>The value and whether the error is nil.  On a range error the value is the clamped one.\<close>

definition parse_sign :: "string \<Rightarrow> bool \<times> string" where
  "parse_sign s = (case s of
      [] \<Rightarrow> (False, [])
    | c # cs \<Rightarrow> if c = CHR ''-'' then (True, cs) else if c = CHR ''+'' then (False, cs) else (False, s))"

definition ParseInt :: "string \<Rightarrow> int \<times> bool" where
  "ParseInt s =
     (let (neg, ds) = parse_sign s
      in if ds = [] then (0, False)
         else (case scan_uint 0 ds of
             ScanSyntax \<Rightarrow> (0, False)
           | ScanRange \<Rightarrow> (if neg then i64_min else i64_max, False)
           | ScanOk n \<Rightarrow>
               if \<not> neg \<and> 9223372036854775808 \<le> n then (i64_max, False)
               else if neg \<and> 9223372036854775808 < n then (i64_min, False)
               else (if neg then - n else n, True)))"

section \<open>Formatting\<close>

definition digit :: "nat \<Rightarrow> char" where
  "digit d = char_of (48 + d)"

fun show_nat :: "nat \<Rightarrow> string" where
  "show_nat n = (if n < 10 then [digit n] else show_nat (n div 10) @ [digit (n mod 10)])"

declare show_nat.simps [simp del]

definition show_int :: "int \<Rightarrow> string" where
  "show_int i = (if i < 0 then CHR ''-'' # show_nat (nat (- i)) else show_nat (nat i))"

section \<open>Round trip\<close>

lemma byte_digit [simp]: "d < 10 \<Longrightarrow> byte (digit d) = 48 + d"
  by (simp add: digit_def byte_def)

lemma is_digit_digit [simp]: "d < 10 \<Longrightarrow> is_digit (digit d)"
  by (simp add: is_digit_def)

lemma show_nat_nonempty [simp]: "show_nat n \<noteq> []"
  by (subst show_nat.simps) simp

lemma show_nat_digits: "c \<in> set (show_nat n) \<Longrightarrow> is_digit c"
proof (induction n rule: show_nat.induct)
  case (1 n)
  then show ?case by (subst (asm) (2) show_nat.simps) (auto split: if_splits)
qed

lemma scan_uint_append:
  "scan_uint m a = ScanOk k \<Longrightarrow> scan_uint m (a @ b) = scan_uint k b"
  by (induction a arbitrary: m) (auto split: if_splits)

lemma scan_show_nat:
  "int n \<le> 18446744073709551615 \<Longrightarrow> scan_uint 0 (show_nat n) = ScanOk (int n)"
proof (induction n rule: show_nat.induct)
  case (1 n)
  show ?case
  proof (cases "n < 10")
    case True
    then show ?thesis by (subst show_nat.simps) simp
  next
    case False
    with 1 have "scan_uint 0 (show_nat (n div 10)) = ScanOk (int (n div 10))" by simp
    moreover have "10 * int (n div 10) + int (n mod 10) = int n" by presburger
    ultimately show ?thesis
      using False "1.prems" by (subst show_nat.simps) (simp add: scan_uint_append)
  qed
qed

lemma parse_sign_show_nat: "parse_sign (show_nat n) = (False, show_nat n)"
proof (cases "show_nat n")
  case (Cons c cs)
  then have "is_digit c" using show_nat_digits [of c n] by simp
  with Cons show ?thesis by (auto simp: parse_sign_def is_digit_def byte_def)
qed simp

lemma ParseInt_show_int:
  assumes "i64_min \<le> i" and "i \<le> i64_max"
  shows "ParseInt (show_int i) = (i, True)"
proof (cases "i < 0")
  case True
  with assms show ?thesis
    by (simp add: ParseInt_def show_int_def parse_sign_def scan_show_nat i64_min_def nat_le_iff)
next
  case False
  with assms show ?thesis
    by (simp add: ParseInt_def show_int_def parse_sign_show_nat scan_show_nat i64_max_def nat_le_iff
        le_nat_iff)
qed

lemma show_nat_inj: "show_nat m = show_nat n \<Longrightarrow> int m \<le> 18446744073709551615 \<Longrightarrow>
  int n \<le> 18446744073709551615 \<Longrightarrow> m = n"
  using scan_show_nat by (metis scan.inject of_nat_eq_iff)

lemma scan_uint_nonneg: "0 \<le> n \<Longrightarrow> scan_uint n ds = ScanOk k \<Longrightarrow> 0 \<le> k"
proof (induction ds arbitrary: n)
  case (Cons c cs)
  from Cons.prems(2) have "scan_uint (10 * n + int (byte c - 48)) cs = ScanOk k"
    by (simp split: if_splits)
  moreover have "0 \<le> 10 * n + int (byte c - 48)" using Cons.prems(1) by simp
  ultimately show ?case using Cons.IH by blast
qed simp

lemma ParseInt_range: "ParseInt s = (i, ok) \<Longrightarrow> i64_min \<le> i \<and> i \<le> i64_max"
  using scan_uint_nonneg [of 0]
  by (fastforce simp: ParseInt_def i64_min_def i64_max_def split: prod.splits scan.splits if_splits)

text \<open>Numbers have no byte that the header syntaxes use as a separator.\<close>

lemma show_int_nonneg_digits: "0 \<le> i \<Longrightarrow> c \<in> set (show_int i) \<Longrightarrow> is_digit c"
  by (auto simp: show_int_def dest: show_nat_digits)

lemma show_int_nonempty [simp]: "show_int i \<noteq> []"
  by (simp add: show_int_def)

lemma trim_string_id:
  assumes "\<And>c. c \<in> set s \<Longrightarrow> \<not> is_ascii_space c"
  shows "trim_string s = s"
proof -
  have "dropWhile is_ascii_space t = t" if "set t \<subseteq> set s" for t
    using that assms by (cases t) (auto simp: dropWhile_eq_self_iff)
  then show ?thesis by (simp add: trim_string_def)
qed

lemma digit_not_space: "is_digit c \<Longrightarrow> \<not> is_ascii_space c"
  by (auto simp: is_digit_def is_ascii_space_def)

lemma trim_string_digits: "(\<And>c. c \<in> set s \<Longrightarrow> is_digit c) \<Longrightarrow> trim_string s = s"
  by (rule trim_string_id) (simp add: digit_not_space)

section \<open>HTTP headers\<close>

type_synonym header = "string \<Rightarrow> string list option"

definition hget :: "header \<Rightarrow> string \<Rightarrow> string" where
  "hget h k = (case h k of Some (v # vs) \<Rightarrow> v | _ \<Rightarrow> [])"

definition hset :: "header \<Rightarrow> string \<Rightarrow> string \<Rightarrow> header" where
  "hset h k v = h(k := Some [v])"

definition hdel :: "header \<Rightarrow> string \<Rightarrow> header" where
  "hdel h k = h(k := None)"

lemma hget_hset [simp]: "hget (hset h k v) k' = (if k' = k then v else hget h k')"
  by (simp add: hget_def hset_def)

lemma hget_hdel [simp]: "hget (hdel h k) k' = (if k' = k then [] else hget h k')"
  by (simp add: hget_def hdel_def)

end
