(* ===== verification/HttpRange.thy ===== *)
theory HttpRange
  imports GoStrconv
begin

text \<open>
  \<open>pkg/http_range/range.go\<close>: the \<open>Range\<close> request header and the \<open>Content-Range\<close> response
  header.  Numbers are \<open>int64\<close>: every \<open>+\<close> and \<open>-\<close> of the source is wrapped in \<open>i64\<close>, and the
  lemmas show where no wrap-around can happen.  Slice expressions that can be out of order
  are the panics of Go.
\<close>

record Range =
  Start :: int
  Length :: int

datatype range_error = ErrNoOverlap | ErrInvalid | ErrParse

definition ContentRange :: "Range \<Rightarrow> int \<Rightarrow> string" where
  "ContentRange r sz =
     ''bytes '' @ show_int (Start r) @ ''-'' @ show_int (i64 (i64 (Start r + Length r) - 1)) @
     ''/'' @ show_int sz"

text \<open>One element of the header, after trimming: \<open>None\<close> stands for \<open>noOverlap\<close>.\<close>

definition parse_range_elem :: "string \<Rightarrow> int \<Rightarrow> range_error + Range option" where
  "parse_range_elem ra sz =
     (case cut_byte ra (CHR ''-'') of (before, after, ok) \<Rightarrow>
      if \<not> ok then Inl ErrInvalid
      else let start = trim_string before; end = trim_string after in
        if start = [] then
          (if end = [] \<or> hd end = CHR ''-'' then Inl ErrInvalid
           else case ParseInt end of (i, ok) \<Rightarrow>
             if i < 0 \<or> \<not> ok then Inl ErrInvalid
             else let i = (if sz < i then sz else i); st = i64 (sz - i)
                  in Inr (Some \<lparr>Start = st, Length = i64 (sz - st)\<rparr>))
        else case ParseInt start of (i, ok) \<Rightarrow>
          if \<not> ok \<or> i < 0 then Inl ErrInvalid
          else if sz \<le> i then Inr None
          else if end = [] then Inr (Some \<lparr>Start = i, Length = i64 (sz - i)\<rparr>)
          else case ParseInt end of (j, ok) \<Rightarrow>
            if \<not> ok \<or> j < i then Inl ErrInvalid
            else let j = (if sz \<le> j then i64 (sz - 1) else j)
                 in Inr (Some \<lparr>Start = i, Length = i64 (i64 (j - i) + 1)\<rparr>))"

fun parse_range_loop :: "string list \<Rightarrow> int \<Rightarrow> Range list \<Rightarrow> bool \<Rightarrow> range_error + Range list" where
  "parse_range_loop [] sz ranges noOverlap =
     (if noOverlap \<and> ranges = [] then Inl ErrNoOverlap else Inr ranges)"
| "parse_range_loop (ra # ras) sz ranges noOverlap =
     (let ra = trim_string ra in
      if ra = [] then parse_range_loop ras sz ranges noOverlap
      else case parse_range_elem ra sz of
          Inl e \<Rightarrow> Inl e
        | Inr None \<Rightarrow> parse_range_loop ras sz ranges True
        | Inr (Some r) \<Rightarrow> parse_range_loop ras sz (ranges @ [r]) noOverlap)"

definition ParseRange :: "string \<Rightarrow> int \<Rightarrow> range_error + Range list" where
  "ParseRange s sz =
     (if s = [] then Inr []
      else if \<not> has_prefix s ''bytes='' then Inl ErrInvalid
      else parse_range_loop (split_on (CHR '','') (drop 6 s)) sz [] False)"

text \<open>A Go slice expression \<open>s[lo:hi]\<close>.\<close>

definition go_slice :: "string \<Rightarrow> nat \<Rightarrow> nat \<Rightarrow> string go" where
  "go_slice s lo hi =
     (if lo \<le> hi \<and> hi \<le> length s then Return (take (hi - lo) (drop lo s)) else Panic)"

definition ParseContentRange :: "string \<Rightarrow> (int \<times> int \<times> range_error option) go" where
  "ParseContentRange s =
     (if s = [] then Return (0, 0, Some ErrInvalid)
      else if \<not> has_prefix s ''bytes '' then Return (0, 0, Some ErrInvalid)
      else case (index_str s ''-'', index_str s ''/'') of
          (Some p1, Some p2) \<Rightarrow>
            go_bind (go_slice s 6 p1) (\<lambda>a.
            go_bind (go_slice s (p1 + 1) p2) (\<lambda>b.
              let (start, ok1) = ParseInt (trim_string a); (end, ok2) = ParseInt (trim_string b)
              in Return (start, end, if ok1 \<and> ok2 then None else Some ErrParse)))
        | _ \<Rightarrow> Return (0, 0, Some ErrInvalid))"

definition MimeHeader :: "Range \<Rightarrow> string \<Rightarrow> int \<Rightarrow> (string \<times> string) list" where
  "MimeHeader r contentType sz =
     [(''Content-Range'', ContentRange r sz), (''Content-Type'', contentType)]"

definition ApplyRangeToHttpHeader :: "Range \<Rightarrow> header \<Rightarrow> header" where
  "ApplyRangeToHttpHeader p headerRef =
     (if Start p = 0 \<and> Length p < 0 then hdel headerRef ''Range''
      else let end = (if 0 \<le> Length p then show_int (i64 (i64 (Start p + Length p) - 1)) else [])
           in hset headerRef ''Range'' (''bytes='' @ show_int (Start p) @ ''-'' @ end))"

section \<open>Well-formed ranges\<close>

definition range_ok :: "int \<Rightarrow> Range \<Rightarrow> bool" where
  "range_ok sz r \<longleftrightarrow> 0 \<le> Start r \<and> 0 \<le> Length r \<and> Start r + Length r \<le> sz"

lemma parse_range_elem_ok:
  assumes "0 \<le> sz" and "sz \<le> i64_max" and "parse_range_elem ra sz = Inr (Some r)"
  shows "range_ok sz r"
proof -
  have id: "i64 x = x" if "0 \<le> x" and "x \<le> sz" for x
    using that assms(2) by (intro i64_id) (auto simp: i64_min_def)
  show ?thesis
    using assms(1,3)
    by (auto simp: parse_range_elem_def range_ok_def Let_def id
        split: prod.splits if_splits)
qed

lemma parse_range_loop_ok:
  assumes "0 \<le> sz" and "sz \<le> i64_max"
  shows "parse_range_loop ras sz ranges no = Inr rs \<Longrightarrow> list_all (range_ok sz) ranges \<Longrightarrow>
    list_all (range_ok sz) rs"
  by (induction ras arbitrary: ranges no)
    (auto simp: Let_def split: if_splits sum.splits option.splits
      dest: parse_range_elem_ok [OF assms])

lemma sep_not_digit: "\<not> is_digit CHR ''-''" "\<not> is_digit CHR '',''" "\<not> is_digit CHR ''/''"
  by (simp_all add: is_digit_def byte_def)

lemma show_int_free:
  assumes "0 \<le> i" and "\<not> is_digit c" shows "c \<notin> set (show_int i)"
  using assms show_int_nonneg_digits by blast

lemmas show_int_seps = show_int_free [OF _ sep_not_digit(1)] show_int_free [OF _ sep_not_digit(2)]
  show_int_free [OF _ sep_not_digit(3)]

lemma trim_show_int: "0 \<le> i \<Longrightarrow> trim_string (show_int i) = show_int i"
  by (rule trim_string_digits) (rule show_int_nonneg_digits)

lemma ParseInt_nonneg: "0 \<le> i \<Longrightarrow> i \<le> i64_max \<Longrightarrow> ParseInt (show_int i) = (i, True)"
  by (rule ParseInt_show_int) (simp_all add: i64_min_def)

lemma i64_nonneg: "0 \<le> x \<Longrightarrow> x \<le> i64_max \<Longrightarrow> i64 x = x"
  by (rule i64_id) (simp_all add: i64_min_def)

text \<open>A header with one element made of two numbers.\<close>

lemma ParseRange_single:
  assumes "0 \<le> a" and "e = [] \<or> (\<exists>b. 0 \<le> b \<and> e = show_int b)"
  shows "ParseRange (''bytes='' @ show_int a @ ''-'' @ e) sz =
    (case parse_range_elem (show_int a @ ''-'' @ e) sz of
       Inl err \<Rightarrow> Inl err | Inr None \<Rightarrow> Inl ErrNoOverlap | Inr (Some r) \<Rightarrow> Inr [r])"
proof -
  let ?el = "show_int a @ ''-'' @ e"
  have nocomma: "CHR '','' \<notin> set ?el" using assms show_int_seps by auto
  have "\<not> is_ascii_space c" if "c \<in> set ?el" for c
  proof -
    have "is_digit c \<or> c = CHR ''-''" using that assms show_int_nonneg_digits by auto
    then show ?thesis by (auto simp: digit_not_space) (simp add: is_ascii_space_def byte_def)
  qed
  then have "trim_string ?el = ?el" by (rule trim_string_id)
  moreover have "split_on (CHR '','') ?el = [?el]" using nocomma by (rule split_on_no_sep)
  ultimately show ?thesis
    by (simp add: ParseRange_def has_prefix_def Let_def split: sum.splits option.splits)
qed

lemma parse_range_elem_show:
  assumes "0 \<le> a" and "a < sz" and "a \<le> b" and "b < sz" and "sz \<le> i64_max"
  shows "parse_range_elem (show_int a @ ''-'' @ show_int b) sz =
      Inr (Some \<lparr>Start = a, Length = b - a + 1\<rparr>)"
    and "parse_range_elem (show_int a @ ''-'' @ []) sz = Inr (Some \<lparr>Start = a, Length = sz - a\<rparr>)"
  using assms show_int_seps(1) [of a]
  by (simp_all add: parse_range_elem_def cut_byte_append trim_show_int ParseInt_nonneg i64_nonneg
      Let_def) (simp_all add: trim_string_def i64_nonneg)

section \<open>Correctness\<close>

lemma ParseRange_ok:
  assumes "0 \<le> sz" and "sz \<le> i64_max" and "ParseRange s sz = Inr ranges"
  shows "list_all (range_ok sz) ranges"
  using assms parse_range_loop_ok [OF assms(1,2)] by (auto simp: ParseRange_def split: if_splits)

text \<open>C36: Every range the parser returns lies inside the content: its start and length are not
  negative and its end does not pass the size, for every header text.  (The arithmetic of the
  source wraps at 64 bits; under the size bound it never does.)\<close>

theorem ParseRange_inside:
  assumes "0 \<le> sz" and "sz \<le> i64_max" and "ParseRange s sz = Inr ranges"
  shows "list_all (\<lambda>r. 0 \<le> Start r \<and> 0 \<le> Length r \<and> Start r + Length r \<le> sz) ranges"
  using ParseRange_ok [OF assms] by (simp add: list_all_iff range_ok_def)

theorem ParseRange_inside_witness:
  "list_all (\<lambda>r. 0 \<le> Start r \<and> 0 \<le> Length r \<and> Start r + Length r \<le> 10)
     [\<lparr>Start = 2, Length = 3\<rparr>, \<lparr>Start = 8, Length = 2\<rparr>]"
proof -
  have p: "ParseRange ''bytes=2-4, 8-99, 12-'' 10 =
      Inr [\<lparr>Start = 2, Length = 3\<rparr>, \<lparr>Start = 8, Length = 2\<rparr>]" by code_simp
  show ?thesis by (rule ParseRange_inside [OF _ _ p]) (simp_all add: i64_max_def)
qed

text \<open>The range header that the client side writes is read back by the server side as the
  same range, and an open-ended range as everything from its start.\<close>

theorem range_header_roundtrip:
  assumes "0 \<le> Start p" and "0 < Length p" and "Start p + Length p \<le> sz" and "sz \<le> i64_max"
  shows "ParseRange (hget (ApplyRangeToHttpHeader p h) ''Range'') sz = Inr [p] \<and>
    ParseRange (hget (ApplyRangeToHttpHeader (p\<lparr>Length := -1\<rparr>) h) ''Range'') sz =
      (if Start p = 0 then Inr [] else Inr [\<lparr>Start = Start p, Length = sz - Start p\<rparr>])"
proof -
  let ?e = "Start p + Length p - 1"
  have "i64 (Start p + Length p) = Start p + Length p" and "i64 (Start p + Length p - 1) = ?e"
    using assms by (simp_all add: i64_nonneg)
  then have "hget (ApplyRangeToHttpHeader p h) ''Range'' =
      ''bytes='' @ show_int (Start p) @ ''-'' @ show_int ?e"
    using assms by (simp add: ApplyRangeToHttpHeader_def Let_def)
  moreover have "ParseRange (''bytes='' @ show_int (Start p) @ ''-'' @ show_int ?e) sz = Inr [p]"
  proof -
    have "parse_range_elem (show_int (Start p) @ ''-'' @ show_int ?e) sz =
        Inr (Some \<lparr>Start = Start p, Length = ?e - Start p + 1\<rparr>)"
      using assms by (intro parse_range_elem_show) auto
    moreover have "\<lparr>Start = Start p, Length = ?e - Start p + 1\<rparr> = p" by simp
    moreover have "\<exists>b. 0 \<le> b \<and> show_int ?e = show_int b" using assms by (intro exI [of _ ?e]) simp
    ultimately show ?thesis using assms(1) by (subst ParseRange_single) simp_all
  qed
  moreover have "ParseRange (''bytes='' @ show_int (Start p) @ ''-'' @ []) sz =
      Inr [\<lparr>Start = Start p, Length = sz - Start p\<rparr>]"
    using assms by (subst ParseRange_single) (simp_all only: parse_range_elem_show(2) [of _ _ "Start p"], auto)
  moreover have "hget (ApplyRangeToHttpHeader (p\<lparr>Length := -1\<rparr>) h) ''Range'' =
      (if Start p = 0 then [] else ''bytes='' @ show_int (Start p) @ ''-'' @ [])"
    by (simp add: ApplyRangeToHttpHeader_def Let_def)
  moreover have "ParseRange [] sz = Inr []" by (simp add: ParseRange_def)
  ultimately show ?thesis by simp
qed

theorem range_header_roundtrip_witness:
  "ParseRange (hget (ApplyRangeToHttpHeader \<lparr>Start = 5, Length = 20\<rparr> (\<lambda>_. None)) ''Range'') 100 =
     Inr [\<lparr>Start = 5, Length = 20\<rparr>]"
  using range_header_roundtrip [of "\<lparr>Start = 5, Length = 20\<rparr>" 100 "\<lambda>_. None"]
  by (simp add: i64_max_def)

lemma bytes_prefix_index:
  assumes "has_prefix s ''bytes ''" and "c \<notin> set ''bytes ''" and "index_byte s c = Some i"
  shows "6 \<le> i"
proof -
  obtain t where "s = ''bytes '' @ t" using has_prefix_D [OF assms(1)] by blast
  with assms(2,3) show ?thesis by (cases "index_byte t c") auto
qed

text \<open>The content range a response announces is parsed back as its first and last byte.\<close>

theorem ContentRange_roundtrip:
  assumes "0 \<le> Start r" and "0 < Length r" and "Start r + Length r \<le> i64_max" and "0 \<le> sz"
  shows "ParseContentRange (ContentRange r sz) = Return (Start r, Start r + Length r - 1, None)"
proof -
  let ?a = "show_int (Start r)" and ?b = "show_int (Start r + Length r - 1)" and ?c = "show_int sz"
  have s: "ContentRange r sz = (''bytes '' @ ?a) @ CHR ''-'' # (?b @ CHR ''/'' # ?c)"
    using assms by (simp add: ContentRange_def i64_nonneg)
  have "index_byte (ContentRange r sz) CHR ''-'' = Some (length (''bytes '' @ ?a))"
    unfolding s using assms show_int_seps(1) [of "Start r"] by (intro index_byte_append) auto
  moreover have s2: "ContentRange r sz = (''bytes '' @ ?a @ ''-'' @ ?b) @ CHR ''/'' # ?c"
    unfolding s by simp
  have "index_byte (ContentRange r sz) CHR ''/'' = Some (length (''bytes '' @ ?a @ ''-'' @ ?b))"
    unfolding s2 using assms show_int_seps(3) by (intro index_byte_append) auto
  moreover have "go_slice (ContentRange r sz) 6 (length (''bytes '' @ ?a)) = Return ?a"
    unfolding s by (simp add: go_slice_def)
  moreover have "go_slice (ContentRange r sz) (length (''bytes '' @ ?a) + 1)
      (length (''bytes '' @ ?a @ ''-'' @ ?b)) = Return ?b"
    unfolding s by (simp add: go_slice_def)
  moreover have "has_prefix (ContentRange r sz) ''bytes ''" and "ContentRange r sz \<noteq> []"
    unfolding s by (simp_all add: has_prefix_def)
  ultimately show ?thesis
    using assms
    by (simp add: ParseContentRange_def index_str_single trim_show_int ParseInt_nonneg)
qed

theorem ContentRange_roundtrip_witness:
  "ParseContentRange (ContentRange \<lparr>Start = 10, Length = 5\<rparr> 100) = Return (10, 14, None)"
  using ContentRange_roundtrip [of "\<lparr>Start = 10, Length = 5\<rparr>" 100] by (simp add: i64_max_def)

text \<open>The parser of a response's content range panics exactly on the headers whose first
  slash stands before their first dash: the second slice expression is then out of order.  The
  header comes from a remote server, and no length check precedes the slice.\<close>

theorem ParseContentRange_panics:
  "ParseContentRange s = Panic \<longleftrightarrow>
    has_prefix s ''bytes '' \<and>
    (\<exists>i j. index_byte s CHR ''-'' = Some i \<and> index_byte s CHR ''/'' = Some j \<and> j < i)"
proof (cases "has_prefix s ''bytes ''")
  case False
  then show ?thesis by (simp add: ParseContentRange_def)
next
  case True
  then have ne: "s \<noteq> []" by (auto simp: has_prefix_def)
  show ?thesis
  proof (cases "index_byte s CHR ''-'' = None \<or> index_byte s CHR ''/'' = None")
    case none: True
    then show ?thesis
      using ne by (auto simp: ParseContentRange_def index_str_single split: option.splits)
  next
    case False
    then obtain i j where ij: "index_byte s CHR ''-'' = Some i" "index_byte s CHR ''/'' = Some j"
      by auto
    have "6 \<le> i" using bytes_prefix_index [OF True _ ij(1)] by simp
    moreover have "i \<noteq> j" using index_byte_Some [OF ij(1)] index_byte_Some [OF ij(2)] by auto
    moreover have "i < length s" and "j < length s"
      using index_byte_Some ij by blast+
    ultimately show ?thesis
      using ij ne True
      by (auto simp: ParseContentRange_def index_str_single go_slice_def split: prod.splits)
  qed
qed

end
