(* ===== verification/NetServe.thy ===== *)
theory NetServe
  imports HttpRange
begin

text \<open>
  \<open>internal/net/util.go\<close> and \<open>ServeHTTP\<close> of \<open>internal/net/serve.go\<close>: conditional requests and
  the service of whole, single-range and multi-range responses.  A request is its method and
  headers, a response its headers, the status of the first \<open>WriteHeader\<close> and the bytes
  written.  Parameters: \<open>parse_time\<close> for \<open>http.ParseTime\<close> and \<open>format_time\<close> for the date format
  (seconds since 1970), \<open>mime\<close> for the table of MIME types, \<open>rd\<close> for the reader the storage
  driver gives, and the two random boundaries of \<open>mime/multipart\<close>.
\<close>

record request =
  rmethod :: string
  rheader :: header

record response =
  wheader :: header
  status :: "int option"
  body :: string

definition new_response :: response where
  "new_response = \<lparr>wheader = (\<lambda>_. None), status = None, body = []\<rparr>"

definition WriteHeader :: "int \<Rightarrow> response \<Rightarrow> response" where
  "WriteHeader code w = (if status w = None then w\<lparr>status := Some code\<rparr> else w)"

definition wset :: "string \<Rightarrow> string \<Rightarrow> response \<Rightarrow> response" where
  "wset k v w = w\<lparr>wheader := hset (wheader w) k v\<rparr>"

definition wdel :: "string \<Rightarrow> response \<Rightarrow> response" where
  "wdel k w = w\<lparr>wheader := hdel (wheader w) k\<rparr>"

definition write_body :: "string \<Rightarrow> response \<Rightarrow> response" where
  "write_body p w = (WriteHeader 200 w)\<lparr>body := body w @ p\<rparr>"

definition http_error :: "string \<Rightarrow> int \<Rightarrow> response \<Rightarrow> response" where
  "http_error msg code w =
     write_body (msg @ [CHR 0x0A])
       (WriteHeader code
         (wset ''X-Content-Type-Options'' ''nosniff''
           (wset ''Content-Type'' ''text/plain; charset=utf-8'' (wdel ''Content-Length'' w))))"

section \<open>Entity tags\<close>

text \<open>The scan of the bytes after the opening quote: what precedes the closing quote and what
  follows it.\<close>

fun scan_quoted :: "string \<Rightarrow> (string \<times> string) option" where
  "scan_quoted [] = None"
| "scan_quoted (c # cs) =
     (if byte c = 33 \<or> 35 \<le> byte c \<and> byte c \<le> 126 \<or> 128 \<le> byte c
      then map_option (\<lambda>(a, b). (c # a, b)) (scan_quoted cs)
      else if c = CHR 0x22 then Some ([], cs)
      else None)"

definition scanETag :: "string \<Rightarrow> string \<times> string" where
  "scanETag s =
     (let s = trim_string s;
          start = (if has_prefix s ''W/'' then 2 else 0)
      in if length (drop start s) < 2 \<or> s ! start \<noteq> CHR 0x22 then ([], [])
         else (case scan_quoted (drop (start + 1) s) of
             None \<Rightarrow> ([], [])
           | Some (t, remain) \<Rightarrow> (take (start + 1) s @ t @ [CHR 0x22], remain)))"

definition etagStrongMatch :: "string \<Rightarrow> string \<Rightarrow> bool" where
  "etagStrongMatch a b \<longleftrightarrow> a = b \<and> a \<noteq> [] \<and> hd a = CHR 0x22"

definition etagWeakMatch :: "string \<Rightarrow> string \<Rightarrow> bool" where
  "etagWeakMatch a b \<longleftrightarrow> trim_prefix a ''W/'' = trim_prefix b ''W/''"

lemma scan_quoted_shorter: "scan_quoted s = Some (a, b) \<Longrightarrow> length b < length s"
  by (induction s arbitrary: a b) (auto split: if_splits)

lemma dropWhile_length: "length (dropWhile P xs) \<le> length xs"
  by (induction xs) auto

lemma trim_string_length: "length (trim_string s) \<le> length s"
  unfolding trim_string_def
  using dropWhile_length [of is_ascii_space s]
    dropWhile_length [of is_ascii_space "rev (dropWhile is_ascii_space s)"] by simp

lemma scanETag_shorter:
  assumes "scanETag s = (e, r)" and "e \<noteq> []" shows "length r < length s"
proof -
  obtain k t where "scan_quoted (drop k (trim_string s)) = Some (t, r)"
    using assms by (auto simp: scanETag_def Let_def split: if_splits option.splits prod.splits)
  from scan_quoted_shorter [OF this] have "length r < length (trim_string s)" by simp
  with trim_string_length [of s] show ?thesis by linarith
qed

text \<open>
  The loop that \<open>checkIfMatch\<close> and \<open>checkIfNoneMatch\<close> share: \<open>hit\<close> for a star or a tag that
  matches the response's, \<open>miss\<close> when the list ends or stops being a list of tags.
\<close>

datatype condResult = condNone | condTrue | condFalse

function etag_list ::
    "(string \<Rightarrow> string \<Rightarrow> bool) \<Rightarrow> condResult \<Rightarrow> condResult \<Rightarrow> string \<Rightarrow> string \<Rightarrow> condResult" where
  "etag_list eq hit miss cur buf =
     (let buf = trim_string buf in
      if buf = [] then miss
      else if hd buf = CHR '','' then etag_list eq hit miss cur (tl buf)
      else if hd buf = CHR ''*'' then hit
      else let (etag, remain) = scanETag buf in
        if etag = [] then miss
        else if eq etag cur then hit
        else etag_list eq hit miss cur remain)"
  by pat_completeness auto
termination
proof (relation "measure (\<lambda>(eq, hit, miss, cur, buf). length buf)", goal_cases)
  case (2 eq hit miss cur buf x)
  then have "0 < length (trim_string buf)" by simp
  then have "length (tl (trim_string buf)) < length buf"
    using trim_string_length [of buf] by (simp only: length_tl)
  with 2 show ?case by simp
next
  case (3 eq hit miss cur buf x xa etag remain)
  then have "scanETag (trim_string buf) = (etag, remain)" and "etag \<noteq> []" by simp_all
  then have "length remain < length (trim_string buf)" by (rule scanETag_shorter)
  with trim_string_length [of buf] show ?case by simp
qed simp

declare etag_list.simps [simp del]

section \<open>Conditional requests\<close>

text \<open>Times are nanoseconds since 1970; \<open>zero_time\<close> is Go's zero \<open>time.Time\<close>.\<close>

definition zero_time :: int where
  "zero_time = -62135596800000000000"

definition isZeroTime :: "int \<Rightarrow> bool" where
  "isZeroTime t \<longleftrightarrow> t = zero_time \<or> t = 0"

definition unix :: "int \<Rightarrow> int" where
  "unix t = t div 1000000000"

definition rdel :: "string \<Rightarrow> request \<Rightarrow> request" where
  "rdel k r = r\<lparr>rheader := hdel (rheader r) k\<rparr>"

definition is_get_or_head :: "request \<Rightarrow> bool" where
  "is_get_or_head r \<longleftrightarrow> rmethod r = ''GET'' \<or> rmethod r = ''HEAD''"

definition checkIfMatch :: "response \<Rightarrow> request \<Rightarrow> condResult \<times> request" where
  "checkIfMatch w r =
     (let im = hget (rheader r) ''If-Match'' in
      if im = [] then (condNone, r)
      else (etag_list etagStrongMatch condTrue condFalse (hget (wheader w) ''Etag'') im,
            rdel ''If-Match'' r))"

definition checkIfUnmodifiedSince ::
    "(string \<Rightarrow> int option) \<Rightarrow> request \<Rightarrow> int \<Rightarrow> condResult \<times> request" where
  "checkIfUnmodifiedSince parse_time r modtime =
     (let ius = hget (rheader r) ''If-Unmodified-Since'' in
      if ius = [] then (condNone, r)
      else let r = rdel ''If-Unmodified-Since'' r in
        if isZeroTime modtime then (condNone, r)
        else case parse_time ius of
            None \<Rightarrow> (condNone, r)
          | Some t \<Rightarrow> (if unix modtime \<le> t then condTrue else condFalse, r))"

definition checkIfNoneMatch :: "response \<Rightarrow> request \<Rightarrow> condResult \<times> request" where
  "checkIfNoneMatch w r =
     (let inm = hget (rheader r) ''If-None-Match'' in
      if inm = [] then (condNone, r)
      else (etag_list etagWeakMatch condFalse condTrue (hget (wheader w) ''Etag'') inm,
            rdel ''If-None-Match'' r))"

definition checkIfModifiedSince ::
    "(string \<Rightarrow> int option) \<Rightarrow> request \<Rightarrow> int \<Rightarrow> condResult \<times> request" where
  "checkIfModifiedSince parse_time r modtime =
     (if \<not> is_get_or_head r then (condNone, r)
      else let ims = hget (rheader r) ''If-Modified-Since'' in
        if ims = [] then (condNone, r)
        else let r = rdel ''If-Modified-Since'' r in
          if isZeroTime modtime then (condNone, r)
          else case parse_time ims of
              None \<Rightarrow> (condNone, r)
            | Some t \<Rightarrow> (if unix modtime \<le> t then condFalse else condTrue, r))"

definition checkIfRange ::
    "(string \<Rightarrow> int option) \<Rightarrow> response \<Rightarrow> request \<Rightarrow> int \<Rightarrow> condResult \<times> request" where
  "checkIfRange parse_time w r modtime =
     (if \<not> is_get_or_head r then (condNone, r)
      else let ir = hget (rheader r) ''If-Range'' in
        if ir = [] then (condNone, r)
        else let r = rdel ''If-Range'' r; etag = fst (scanETag ir) in
          if etag \<noteq> [] then
            (if etagStrongMatch etag (hget (wheader w) ''Etag'') then condTrue else condFalse, r)
          else if modtime = zero_time then (condFalse, r)
          else case parse_time ir of
              None \<Rightarrow> (condFalse, r)
            | Some t \<Rightarrow> (if t = unix modtime then condTrue else condFalse, r))"

definition setLastModified :: "(int \<Rightarrow> string) \<Rightarrow> int \<Rightarrow> response \<Rightarrow> response" where
  "setLastModified format_time modtime w =
     (if \<not> isZeroTime modtime then wset ''Last-Modified'' (format_time (unix modtime)) w else w)"

definition writeNotModified :: "response \<Rightarrow> response" where
  "writeNotModified w =
     (let w = wdel ''Content-Encoding'' (wdel ''Content-Length'' (wdel ''Content-Type'' w));
          w = (if hget (wheader w) ''Etag'' \<noteq> [] then wdel ''Last-Modified'' w else w)
      in WriteHeader 304 w)"

text \<open>\<open>checkPreconditions\<close>: whether the response is done, the range header to honour, and the
  response and request after it.\<close>

definition checkPreconditions ::
    "(string \<Rightarrow> int option) \<Rightarrow> response \<Rightarrow> request \<Rightarrow> int \<Rightarrow> bool \<times> string \<times> response \<times> request" where
  "checkPreconditions parse_time w r modtime =
     (let (ch, r) = checkIfMatch w r;
          (ch, r) = (if ch = condNone then checkIfUnmodifiedSince parse_time r modtime else (ch, r))
      in if ch = condFalse then (True, [], WriteHeader 412 w, r)
         else let (cn, r) = checkIfNoneMatch w r in
           if cn = condFalse then
             (if is_get_or_head r then (True, [], writeNotModified w, r)
              else (True, [], WriteHeader 412 w, r))
           else let (cm, r) = (if cn = condNone then checkIfModifiedSince parse_time r modtime
                               else (condNone, r)) in
             if cm = condFalse then (True, [], writeNotModified w, r)
             else let rangeHeader = hget (rheader r) ''Range'' in
               if rangeHeader = [] then (False, [], w, r)
               else let (cr, r) = checkIfRange parse_time w r modtime
                    in (False, if cr = condFalse then [] else rangeHeader, w, r))"

section \<open>Serving a file\<close>

definition sumRangesSize :: "Range list \<Rightarrow> int" where
  "sumRangesSize ranges = foldl (\<lambda>sz ra. i64 (sz + Length ra)) 0 ranges"

text \<open>The part headers that \<open>multipart.Writer\<close> writes, and its closing line.\<close>

definition part_header :: "string \<Rightarrow> bool \<Rightarrow> (string \<times> string) list \<Rightarrow> string" where
  "part_header boundary first hs =
     (if first then [] else [CHR 0x0D, CHR 0x0A]) @ ''--'' @ boundary @ [CHR 0x0D, CHR 0x0A] @
     concat (map (\<lambda>(k, v). k @ '': '' @ v @ [CHR 0x0D, CHR 0x0A]) hs) @ [CHR 0x0D, CHR 0x0A]"

definition mime_close :: "string \<Rightarrow> string" where
  "mime_close boundary =
     [CHR 0x0D, CHR 0x0A] @ ''--'' @ boundary @ ''--'' @ [CHR 0x0D, CHR 0x0A]"

fun mime_headers_size :: "string \<Rightarrow> bool \<Rightarrow> Range list \<Rightarrow> string \<Rightarrow> int \<Rightarrow> int" where
  "mime_headers_size b first [] ct sz = int (length (mime_close b))"
| "mime_headers_size b first (ra # ras) ct sz =
     int (length (part_header b first (MimeHeader ra ct sz))) + mime_headers_size b False ras ct sz"

text \<open>\<open>rangesMIMESize\<close>: the counting writer sees the headers and the closing line.\<close>

definition rangesMIMESize :: "string \<Rightarrow> Range list \<Rightarrow> string \<Rightarrow> int \<Rightarrow> int" where
  "rangesMIMESize b ranges ct sz =
     i64 (foldl (\<lambda>n ra. i64 (n + Length ra)) 0 ranges + mime_headers_size b True ranges ct sz)"

text \<open>
  A reader of the storage: an error with the HTTP status it may carry, or the bytes it yields
  before the end of the stream and whether the stream ends without a read error.
\<close>

type_synonym reader = "string \<times> bool"

datatype read_result = ReadFails string "int option" | Reads reader

text \<open>\<open>CopyWithBufferN\<close>: at most \<open>n\<close> bytes; success if exactly \<open>n\<close> were there.\<close>

definition CopyWithBufferN :: "reader \<Rightarrow> int \<Rightarrow> string \<times> bool" where
  "CopyWithBufferN rd n = (take (nat n) (fst rd), int (length (take (nat n) (fst rd))) = n)"

text \<open>The goroutine that writes the parts into the pipe: what the other end reads.\<close>

fun multipart_stream ::
    "string \<Rightarrow> bool \<Rightarrow> (Range \<Rightarrow> read_result) \<Rightarrow> Range list \<Rightarrow> string \<Rightarrow> int \<Rightarrow> reader" where
  "multipart_stream b first rd [] ct sz = (mime_close b, True)"
| "multipart_stream b first rd (ra # ras) ct sz =
     (let h = part_header b first (MimeHeader ra ct sz) in
      case rd ra of
        ReadFails msg code \<Rightarrow> (h, False)
      | Reads r \<Rightarrow>
          (let (p, ok) = CopyWithBufferN r (Length ra) in
           if \<not> ok then (h @ p, False)
           else let (q, ok) = multipart_stream b False rd ras ct sz in (h @ p @ q, ok)))"

datatype serve_error = CopyFailed

text \<open>What follows the choice of the ranges: the content, its size, the status code.\<close>

datatype plan = Refuse response | Send response reader int int

definition plan_ranges ::
    "(Range \<Rightarrow> read_result) \<Rightarrow> string \<Rightarrow> string \<Rightarrow> response \<Rightarrow> Range list \<Rightarrow> string \<Rightarrow> int \<Rightarrow> plan" where
  "plan_ranges rd b0 b w ranges ct sz =
     (let refuse = (\<lambda>msg code. Refuse (http_error msg (case code of Some c \<Rightarrow> c | None \<Rightarrow> 416) w)) in
      case ranges of
        [] \<Rightarrow> (case rd \<lparr>Start = 0, Length = -1\<rparr> of
            ReadFails msg code \<Rightarrow> refuse msg code
          | Reads r \<Rightarrow> Send w r sz 200)
      | [ra] \<Rightarrow> (case rd ra of
            ReadFails msg code \<Rightarrow> refuse msg code
          | Reads r \<Rightarrow> Send (wset ''Content-Range'' (ContentRange ra sz) w) r (Length ra) 206)
      | _ \<Rightarrow> Send (wset ''Content-Type'' (''multipart/byteranges; boundary='' @ b) w)
               (multipart_stream b True rd ranges ct sz) (rangesMIMESize b0 ranges ct sz) 206)"

definition send :: "request \<Rightarrow> response \<Rightarrow> reader \<Rightarrow> int \<Rightarrow> int \<Rightarrow> response \<times> serve_error option" where
  "send r w content sendSize code =
     (let w = wset ''Accept-Ranges'' ''bytes'' w;
          w = (if hget (wheader w) ''Content-Encoding'' = []
               then wset ''Content-Length'' (show_int sendSize) w else w);
          w = WriteHeader code w
      in if rmethod r \<noteq> ''HEAD''
         then (let (p, ok) = CopyWithBufferN content sendSize; w = write_body p w
               in (w, if ok then None else Some CopyFailed))
         else (w, None))"

text \<open>
  The content type: the one already set, or by the name.  \<open>mime\<close> is \<open>utils.GetMimeType\<close>.
\<close>

definition content_type :: "(string \<Rightarrow> string) \<Rightarrow> string \<Rightarrow> response \<Rightarrow> response \<times> string" where
  "content_type mime name w = (case wheader w ''Content-Type'' of
      None \<Rightarrow> (wset ''Content-Type'' (mime name) w, mime name)
    | Some [] \<Rightarrow> (w, [])
    | Some (c # cs) \<Rightarrow> (w, c))"

text \<open>
  Closing the reader and the logging are left out.  The error result is the one of a request
  whose context is not cancelled.
\<close>

definition ServeHTTP ::
    "(string \<Rightarrow> int option) \<Rightarrow> (int \<Rightarrow> string) \<Rightarrow> (string \<Rightarrow> string) \<Rightarrow> string \<Rightarrow> string \<Rightarrow>
     (Range \<Rightarrow> read_result) \<Rightarrow> response \<Rightarrow> request \<Rightarrow> string \<Rightarrow> int \<Rightarrow> int \<Rightarrow>
     response \<times> serve_error option" where
  "ServeHTTP parse_time format_time mime b0 b rd w r name modTime sz =
     (let w = setLastModified format_time modTime w;
          (done, rangeReq, w, r) = checkPreconditions parse_time w r modTime
      in if done then (w, None)
         else if sz < 0 then (http_error ''negative content size not supported'' 500 w, None)
         else let (w, ct) = content_type mime name w;
               parsed = (case ParseRange rangeReq sz of
                 Inr ranges \<Rightarrow> Inr ranges
               | Inl ErrNoOverlap \<Rightarrow>
                   if sz = 0 then Inr []
                   else Inl (''invalid range: failed to overlap'',
                             wset ''Content-Range'' (''bytes */'' @ show_int sz) w)
               | Inl _ \<Rightarrow> Inl (''invalid range'', w))
           in case parsed of
               Inl (msg, w) \<Rightarrow> (http_error msg 416 w, None)
             | Inr ranges \<Rightarrow>
                 let ranges = (if sz < sumRangesSize ranges then [] else ranges)
                 in case plan_ranges rd b0 b w ranges ct sz of
                     Refuse w \<Rightarrow> (w, None)
                   | Send w content sendSize code \<Rightarrow> send r w content sendSize code)"

section \<open>Lemmas\<close>

lemma hget_wset [simp]: "hget (wheader (wset k v w)) k' = (if k' = k then v else hget (wheader w) k')"
  by (simp add: wset_def)

lemma hget_wdel [simp]: "hget (wheader (wdel k w)) k' = (if k' = k then [] else hget (wheader w) k')"
  by (simp add: wdel_def)

lemma WriteHeader_simps [simp]:
  "wheader (WriteHeader c w) = wheader w" "body (WriteHeader c w) = body w"
  "status (WriteHeader c w) = (case status w of None \<Rightarrow> Some c | Some s \<Rightarrow> Some s)"
  by (auto simp: WriteHeader_def split: option.splits)

lemma wset_simps [simp]: "status (wset k v w) = status w" "body (wset k v w) = body w"
  "status (wdel k w) = status w" "body (wdel k w) = body w"
  by (simp_all add: wset_def wdel_def)

lemma write_body_simps [simp]:
  "wheader (write_body p w) = wheader w" "body (write_body p w) = body w @ p"
  "status (write_body p w) = (case status w of None \<Rightarrow> Some 200 | Some s \<Rightarrow> Some s)"
  by (auto simp: write_body_def split: option.splits)

text \<open>What the conditional headers can do: finish the response, or leave it alone.\<close>

lemma request_frame:
  "checkIfMatch w r = (c, r') \<Longrightarrow> rmethod r' = rmethod r \<and> hget (rheader r') ''Range'' = hget (rheader r) ''Range''"
  "checkIfUnmodifiedSince p r m = (c, r') \<Longrightarrow> rmethod r' = rmethod r \<and> hget (rheader r') ''Range'' = hget (rheader r) ''Range''"
  "checkIfNoneMatch w r = (c, r') \<Longrightarrow> rmethod r' = rmethod r \<and> hget (rheader r') ''Range'' = hget (rheader r) ''Range''"
  "checkIfModifiedSince p r m = (c, r') \<Longrightarrow> rmethod r' = rmethod r \<and> hget (rheader r') ''Range'' = hget (rheader r) ''Range''"
  "checkIfRange p w r m = (c, r') \<Longrightarrow> rmethod r' = rmethod r \<and> hget (rheader r') ''Range'' = hget (rheader r) ''Range''"
  by (auto simp: checkIfMatch_def checkIfUnmodifiedSince_def checkIfNoneMatch_def
      checkIfModifiedSince_def checkIfRange_def rdel_def Let_def split: if_splits option.splits)

lemma checkPreconditions_continue:
  assumes "checkPreconditions p w r m = (False, rr, w', r')"
  shows "w' = w \<and> rmethod r' = rmethod r \<and> (rr = [] \<or> rr = hget (rheader r) ''Range'')"
  using assms unfolding checkPreconditions_def Let_def
  by (auto split: if_splits prod.splits dest!: request_frame)

lemma checkPreconditions_done:
  assumes "checkPreconditions p w r m = (True, rr, w', r')" and "status w = None"
  shows "body w' = body w \<and> (status w' = Some 412 \<or> status w' = Some 304)"
  using assms unfolding checkPreconditions_def Let_def writeNotModified_def
  by (auto split: if_splits prod.splits)

lemma setLastModified_simps [simp]:
  "status (setLastModified f m w) = status w" "body (setLastModified f m w) = body w"
  "k \<noteq> ''Last-Modified'' \<Longrightarrow> hget (wheader (setLastModified f m w)) k = hget (wheader w) k"
  by (simp_all add: setLastModified_def)

text \<open>A driver whose readers serve the content.\<close>

definition reads_content :: "(Range \<Rightarrow> read_result) \<Rightarrow> string \<Rightarrow> bool" where
  "reads_content rd content \<longleftrightarrow>
     (\<forall>r. range_ok (int (length content)) r \<longrightarrow>
        rd r = Reads (take (nat (Length r)) (drop (nat (Start r)) content), True)) \<and>
     rd \<lparr>Start = 0, Length = -1\<rparr> = Reads (content, True)"

lemma CopyWithBufferN_exact: "int (length s) = n \<Longrightarrow> CopyWithBufferN (s, ok) n = (s, True)"
  by (auto simp: CopyWithBufferN_def)

lemma slice_length:
  "range_ok (int (length content)) r \<Longrightarrow>
    int (length (take (nat (Length r)) (drop (nat (Start r)) content))) = Length r"
  by (auto simp: range_ok_def min_def)

lemma multipart_stream_length:
  assumes "reads_content rd content"
  shows "list_all (range_ok (int (length content))) ranges \<Longrightarrow>
    \<exists>s. multipart_stream b first rd ranges ct sz = (s, True) \<and>
        int (length s) = sum_list (map Length ranges) + mime_headers_size b first ranges ct sz"
proof (induction ranges arbitrary: first)
  case (Cons ra ras)
  from Cons.prems have ra: "range_ok (int (length content)) ra" by simp
  obtain q where q: "multipart_stream b False rd ras ct sz = (q, True)"
    "int (length q) = sum_list (map Length ras) + mime_headers_size b False ras ct sz"
    using Cons by force
  let ?p = "take (nat (Length ra)) (drop (nat (Start ra)) content)"
  have "rd ra = Reads (?p, True)" using assms ra by (simp add: reads_content_def)
  moreover have p: "int (length ?p) = Length ra" by (rule slice_length [OF ra])
  moreover have "CopyWithBufferN (?p, True) (Length ra) = (?p, True)"
    by (rule CopyWithBufferN_exact [OF p])
  ultimately show ?case using q by (simp add: Let_def)
qed simp

lemma part_header_length: "length b0 = length b \<Longrightarrow>
    length (part_header b0 first hs) = length (part_header b first hs)"
  by (simp add: part_header_def)

lemma mime_headers_size_boundary: "length b0 = length b \<Longrightarrow>
    mime_headers_size b0 first ranges ct sz = mime_headers_size b first ranges ct sz"
  by (induction ranges arbitrary: first) (simp_all add: part_header_length [of b0 b] mime_close_def)

lemma mime_headers_size_nonneg: "0 \<le> mime_headers_size b first ranges ct sz"
  by (induction ranges arbitrary: first) (simp_all add: add_nonneg_nonneg)

lemma foldl_i64_sum:
  assumes "list_all (range_ok sz) ranges" and "0 \<le> k"
    and "k + sum_list (map Length ranges) \<le> i64_max"
  shows "foldl (\<lambda>n ra. i64 (n + Length ra)) k ranges = k + sum_list (map Length ranges)"
  using assms
proof (induction ranges arbitrary: k)
  case (Cons r rs)
  have "0 \<le> sum_list (map Length rs)"
    using Cons.prems(1) by (intro sum_list_nonneg) (auto simp: list_all_iff range_ok_def)
  moreover have "0 \<le> Length r" using Cons.prems(1) by (simp add: range_ok_def)
  ultimately have "i64 (k + Length r) = k + Length r"
    using Cons.prems by (intro i64_nonneg) auto
  then show ?case using Cons by (simp add: range_ok_def algebra_simps)
qed simp

text \<open>The size the header announces for a multi-range response, without wrap-around.\<close>

definition mime_total :: "string \<Rightarrow> Range list \<Rightarrow> string \<Rightarrow> int \<Rightarrow> int" where
  "mime_total b ranges ct sz = sum_list (map Length ranges) + mime_headers_size b True ranges ct sz"

lemma plan_ranges_length:
  assumes "reads_content rd content" and "sz = int (length content)" and "length b0 = length b"
    and "list_all (range_ok sz) ranges"
    and total: "1 < length ranges \<Longrightarrow> mime_total b ranges ct sz \<le> i64_max"
  shows "\<exists>w' s n code. plan_ranges rd b0 b w ranges ct sz = Send w' (s, True) n code \<and>
    int (length s) = n \<and> status w' = status w \<and> body w' = body w \<and>
    hget (wheader w') ''Content-Encoding'' = hget (wheader w) ''Content-Encoding''"
proof -
  consider (whole) "ranges = []" | (one) ra where "ranges = [ra]" | (many) r1 r2 rs where "ranges = r1 # r2 # rs"
    by (cases ranges rule: remdups_adj.cases) auto
  then show ?thesis
  proof cases
    case whole
    with assms show ?thesis by (simp add: plan_ranges_def reads_content_def)
  next
    case one
    with assms slice_length [of content ra] show ?thesis
      by (simp add: plan_ranges_def reads_content_def)
  next
    case many
    then have le: "mime_total b ranges ct sz \<le> i64_max" using total by simp
    have sum: "0 + sum_list (map Length ranges) \<le> i64_max"
      using le mime_headers_size_nonneg [of b True ranges ct sz] by (simp add: mime_total_def)
    have "0 \<le> sum_list (map Length ranges)"
      using assms(4) by (intro sum_list_nonneg) (auto simp: list_all_iff range_ok_def)
    then have "0 \<le> mime_total b ranges ct sz"
      using mime_headers_size_nonneg [of b True ranges ct sz] by (simp add: mime_total_def)
    then have "rangesMIMESize b0 ranges ct sz = mime_total b ranges ct sz"
      using foldl_i64_sum [OF assms(4) _ sum] assms(3) le mime_headers_size_boundary [OF assms(3)]
      by (simp add: rangesMIMESize_def mime_total_def i64_nonneg)
    moreover obtain s where "multipart_stream b True rd ranges ct sz = (s, True)"
      "int (length s) = mime_total b ranges ct sz"
      using multipart_stream_length [OF assms(1), of ranges b True ct sz] assms(2,4)
      by (auto simp: mime_total_def)
    ultimately show ?thesis using many by (simp add: plan_ranges_def)
  qed
qed

lemma send_length:
  assumes "int (length s) = n" and "status w = None" and "body w = []"
    and "hget (wheader w) ''Content-Encoding'' = []" and "rmethod r \<noteq> ''HEAD''"
  shows "snd (send r w (s, True) n code) = None"
    and "body (fst (send r w (s, True) n code)) = s"
    and "status (fst (send r w (s, True) n code)) = Some code"
    and "hget (wheader (fst (send r w (s, True) n code))) ''Content-Length'' = show_int n"
  using assms by (simp_all add: send_def Let_def CopyWithBufferN_exact)

lemma content_type_simps [simp]:
  "status (fst (content_type mime name w)) = status w"
  "body (fst (content_type mime name w)) = body w"
  "k \<noteq> ''Content-Type'' \<Longrightarrow> hget (wheader (fst (content_type mime name w))) k = hget (wheader w) k"
  by (simp_all add: content_type_def split: option.splits list.splits)

lemma content_type_setLastModified [simp]:
  "snd (content_type mime name (setLastModified f m w)) = snd (content_type mime name w)"
  by (simp add: content_type_def setLastModified_def wset_def hset_def split: option.splits list.splits)

lemma http_error_status: "status w = None \<Longrightarrow> status (http_error msg code w) = Some code"
  by (simp add: http_error_def)

text \<open>The two ways past the preconditions: the request is answered there, or it is planned.\<close>

lemma ServeHTTP_cases:
  assumes "ServeHTTP pt ft mime b0 b rd w r name m sz = (w', e)"
    and "status w = None" and "status w' = Some 200 \<or> status w' = Some 206" and "0 \<le> sz"
  obtains ranges w1 r' where
    "w1 = fst (content_type mime name (setLastModified ft m w))" and "rmethod r' = rmethod r"
    and "ranges = [] \<or> ParseRange (hget (rheader r) ''Range'') sz = Inr ranges"
    and "(w', e) = (case plan_ranges rd b0 b w1 ranges (snd (content_type mime name w)) sz of
            Refuse w \<Rightarrow> (w, None)
          | Send w content n code \<Rightarrow> send r' w content n code)"
proof -
  let ?w = "setLastModified ft m w"
  obtain d rr w2 r2 where pre: "checkPreconditions pt ?w r m = (d, rr, w2, r2)"
    by (metis prod_cases4)
  have nd: "\<not> d"
    using checkPreconditions_done [of pt ?w r m rr w2 r2] pre assms
    by (auto simp: ServeHTTP_def)
  with pre have c: "w2 = ?w" "rmethod r2 = rmethod r" "rr = [] \<or> rr = hget (rheader r) ''Range''"
    using checkPreconditions_continue [of pt ?w r m rr w2 r2] by auto
  obtain w1 ct where ct: "content_type mime name ?w = (w1, ct)" by fastforce
  then have w1: "w1 = fst (content_type mime name ?w)" and sn: "snd (content_type mime name w) = ct"
    using content_type_setLastModified [of mime name ft m w] by simp_all
  have st: "status w1 = None" using assms(2) w1 by simp
  show thesis
  proof (cases "ParseRange rr sz")
    case (Inl err)
    then have "rr \<noteq> []" by (auto simp: ParseRange_def)
    show thesis
    proof (cases "err = ErrNoOverlap \<and> sz = 0")
      case True
      then show thesis
        using that [OF w1 c(2), of "[]"] assms(1,4) pre nd c ct Inl sn
        by (simp add: ServeHTTP_def sumRangesSize_def Let_def)
    next
      case False
      then have "status w' = Some 416"
        using assms(1,4) pre nd c ct Inl st
        by (cases err) (auto simp: ServeHTTP_def http_error_status Let_def)
      with assms(3) show thesis by simp
    qed
  next
    case (Inr ranges)
    let ?rs = "if sz < sumRangesSize ranges then [] else ranges"
    have "?rs = [] \<or> ParseRange (hget (rheader r) ''Range'') sz = Inr ?rs"
      using Inr c(3) by (auto simp: ParseRange_def)
    then show thesis
      using that [OF w1 c(2), of ?rs] assms(1,4) pre nd c ct Inr sn
      by (simp add: ServeHTTP_def Let_def split del: if_split)
  qed
qed

section \<open>Correctness\<close>

text \<open>C35: A successful response announces exactly the bytes it sends: for a whole, a single-range
  and a multi-range response to a request other than HEAD, the \<open>Content-Length\<close> header is the length
  of the body, and the copy ends without error, provided that the driver's readers serve the
  content and the total of a multi-range response fits in 64 bits.  The size of a multi-range
  response is computed with another random boundary than the one sent; both have one length.\<close>

theorem ServeHTTP_content_length:
  assumes rd: "reads_content rd content" and sz: "sz = int (length content)"
    and b: "length b0 = length b"
    and w: "status w = None" "body w = []" "hget (wheader w) ''Content-Encoding'' = []"
    and r: "rmethod r \<noteq> ''HEAD''"
    and max: "sz \<le> i64_max"
    and total: "\<And>ranges. ParseRange (hget (rheader r) ''Range'') sz = Inr ranges \<Longrightarrow>
        mime_total b ranges (snd (content_type mime name w)) sz \<le> i64_max"
    and res: "ServeHTTP pt ft mime b0 b rd w r name m sz = (w', e)"
    and ok: "status w' = Some 200 \<or> status w' = Some 206"
  shows "e = None \<and> hget (wheader w') ''Content-Length'' = show_int (int (length (body w')))"
proof -
  have "0 \<le> sz" using sz by simp
  from ServeHTTP_cases [OF res w(1) ok this] obtain ranges w1 r' where
    w1: "w1 = fst (content_type mime name (setLastModified ft m w))" and r': "rmethod r' = rmethod r"
    and ranges: "ranges = [] \<or> ParseRange (hget (rheader r) ''Range'') sz = Inr ranges"
    and eq: "(w', e) = (case plan_ranges rd b0 b w1 ranges (snd (content_type mime name w)) sz of
            Refuse w \<Rightarrow> (w, None)
          | Send w content n code \<Rightarrow> send r' w content n code)" .
  have "list_all (range_ok sz) ranges"
    using ranges ParseRange_ok [OF \<open>0 \<le> sz\<close> max] by auto
  from plan_ranges_length [OF rd sz b this] total ranges obtain w2 s n code where
    p: "plan_ranges rd b0 b w1 ranges (snd (content_type mime name w)) sz = Send w2 (s, True) n code"
    "int (length s) = n" "status w2 = status w1" "body w2 = body w1"
    "hget (wheader w2) ''Content-Encoding'' = hget (wheader w1) ''Content-Encoding''"
    by fastforce
  have "(w', e) = send r' w2 (s, True) n code" using eq p(1) by simp
  moreover have "status w2 = None" and "body w2 = []" and "hget (wheader w2) ''Content-Encoding'' = []"
    using p w w1 by simp_all
  ultimately show ?thesis
    using send_length [of s n w2 r' code] p(2) r r' by (metis fst_conv snd_conv)
qed

text \<open>A concrete request for two ranges of ten bytes.\<close>

definition ten_bytes :: string where
  "ten_bytes = ''abcdefghij''"

definition ten_reader :: "Range \<Rightarrow> read_result" where
  "ten_reader r = (if Length r < 0 then Reads (ten_bytes, True)
     else Reads (take (nat (Length r)) (drop (nat (Start r)) ten_bytes), True))"

definition get_ranges :: "string \<Rightarrow> request" where
  "get_ranges v = \<lparr>rmethod = ''GET'', rheader = (\<lambda>_. None)(''Range'' := Some [v])\<rparr>"

lemma ten_reader_content: "reads_content ten_reader ten_bytes"
  by (auto simp: reads_content_def ten_reader_def range_ok_def)

theorem ServeHTTP_content_length_witness:
  "\<exists>w'. ServeHTTP (\<lambda>_. None) (\<lambda>_. []) (\<lambda>_. ''text/plain'') ''00'' ''11'' ten_reader new_response
      (get_ranges ''bytes=0-1,4-5'') ''f.txt'' 0 10 = (w', None) \<and>
    hget (wheader w') ''Content-Length'' = show_int (int (length (body w')))"
proof -
  let ?S = "ServeHTTP (\<lambda>_. None) (\<lambda>_. []) (\<lambda>_. ''text/plain'') ''00'' ''11'' ten_reader new_response
      (get_ranges ''bytes=0-1,4-5'') ''f.txt'' 0 10"
  have st: "status (fst ?S) = Some 206" by code_simp
  have pr: "ParseRange (hget (rheader (get_ranges ''bytes=0-1,4-5'')) ''Range'') 10 =
      Inr [\<lparr>Start = 0, Length = 2\<rparr>, \<lparr>Start = 4, Length = 2\<rparr>]" by code_simp
  have total: "mime_total ''11'' [\<lparr>Start = 0, Length = 2\<rparr>, \<lparr>Start = 4, Length = 2\<rparr>]
      (snd (content_type (\<lambda>_. ''text/plain'') ''f.txt'' new_response)) 10 \<le> i64_max" by code_simp
  obtain w' e where S: "?S = (w', e)" by fastforce
  have "e = None \<and> hget (wheader w') ''Content-Length'' = show_int (int (length (body w')))"
  proof (rule ServeHTTP_content_length [OF ten_reader_content _ _ _ _ _ _ _ _ S])
    show "status w' = Some 200 \<or> status w' = Some 206" using st S by simp
  qed (use pr total in \<open>auto simp: ten_bytes_def new_response_def hget_def get_ranges_def i64_max_def\<close>)
  with S show ?thesis by simp
qed

text \<open>A request without conditional headers.\<close>

definition unconditional :: "request \<Rightarrow> bool" where
  "unconditional r \<longleftrightarrow> list_all (\<lambda>k. hget (rheader r) k = [])
     [''If-Match'', ''If-None-Match'', ''If-Modified-Since'', ''If-Unmodified-Since'', ''If-Range'']"

lemma checkPreconditions_unconditional:
  "unconditional r \<Longrightarrow> checkPreconditions pt w r m = (False, hget (rheader r) ''Range'', w, r)"
  by (simp add: unconditional_def checkPreconditions_def checkIfMatch_def checkIfNoneMatch_def
      checkIfModifiedSince_def checkIfUnmodifiedSince_def checkIfRange_def Let_def)

text \<open>A request for one range gets status 206, exactly the requested slice of the content
  as the body, and the \<open>Content-Range\<close> header of that slice.\<close>

theorem ServeHTTP_single_range:
  assumes rd: "reads_content rd content" and sz: "sz = int (length content)" "sz \<le> i64_max"
    and w: "status w = None" "body w = []"
    and r: "rmethod r = ''GET''" "unconditional r"
    and range: "ParseRange (hget (rheader r) ''Range'') sz = Inr [ra]"
  shows "\<exists>w'. ServeHTTP pt ft mime b0 b rd w r name m sz = (w', None) \<and> status w' = Some 206 \<and>
    body w' = take (nat (Length ra)) (drop (nat (Start ra)) content) \<and>
    hget (wheader w') ''Content-Range'' = ContentRange ra sz"
proof -
  have ra: "range_ok sz ra"
    using ParseRange_ok [OF _ sz(2) range] sz(1) by simp
  then have sum: "sumRangesSize [ra] = Length ra"
    using sz by (simp add: sumRangesSize_def range_ok_def i64_nonneg)
  have le: "\<not> sz < Length ra" using ra by (simp add: range_ok_def)
  let ?p = "take (nat (Length ra)) (drop (nat (Start ra)) content)"
  have read: "rd ra = Reads (?p, True)" using rd ra sz(1) by (simp add: reads_content_def)
  have len: "int (length ?p) = Length ra" using slice_length ra sz(1) by blast
  obtain w1 ct where ct: "content_type mime name (setLastModified ft m w) = (w1, ct)" by fastforce
  then have w1: "status w1 = None" "body w1 = []"
    using w content_type_simps(1,2) [of mime name "setLastModified ft m w"] by simp_all
  have "ServeHTTP pt ft mime b0 b rd w r name m sz =
      send r (wset ''Content-Range'' (ContentRange ra sz) w1) (?p, True) (Length ra) 206"
    using sz(1) range sum le read ct
    by (simp add: ServeHTTP_def checkPreconditions_unconditional [OF r(2)] plan_ranges_def Let_def)
  then show ?thesis
    using r(1) w1 CopyWithBufferN_exact [OF len] by (simp add: send_def Let_def)
qed

theorem ServeHTTP_single_range_witness:
  "\<exists>w'. ServeHTTP (\<lambda>_. None) (\<lambda>_. []) (\<lambda>_. []) [] [] ten_reader new_response
      (get_ranges ''bytes=2-4'') ''f'' 0 10 = (w', None) \<and> status w' = Some 206 \<and> body w' = ''cde''"
proof -
  have "ParseRange (hget (rheader (get_ranges ''bytes=2-4'')) ''Range'') 10 =
      Inr [\<lparr>Start = 2, Length = 3\<rparr>]" by code_simp
  moreover have "unconditional (get_ranges ''bytes=2-4'')" by code_simp
  ultimately show ?thesis
    using ServeHTTP_single_range [OF ten_reader_content, of 10 new_response "get_ranges ''bytes=2-4''"
        "\<lparr>Start = 2, Length = 3\<rparr>"]
    by (simp add: ten_bytes_def i64_max_def new_response_def get_ranges_def) blast
qed

lemma scan_quoted_tag:
  "\<forall>c \<in> set q. byte c = 33 \<or> 35 \<le> byte c \<and> byte c \<le> 126 \<or> 128 \<le> byte c \<Longrightarrow>
    scan_quoted (q @ CHR 0x22 # rest) = Some (q, rest)"
  by (induction q) (auto simp: byte_def)

lemma etag_list_self:
  assumes "\<forall>c \<in> set q. byte c = 33 \<or> 35 \<le> byte c \<and> byte c \<le> 126 \<or> 128 \<le> byte c"
    and "eq (CHR 0x22 # q @ [CHR 0x22]) cur"
  shows "etag_list eq hit miss cur (CHR 0x22 # q @ [CHR 0x22]) = hit"
proof -
  let ?t = "CHR 0x22 # q @ [CHR 0x22]"
  have trim: "trim_string ?t = ?t"
    by (simp add: trim_string_def is_ascii_space_def byte_def)
  then have "scanETag ?t = (?t, [])"
    using scan_quoted_tag [OF assms(1), of "[]"] by (simp add: scanETag_def has_prefix_def Let_def)
  with trim assms(2) show ?thesis by (simp add: etag_list.simps [of eq hit miss cur ?t] Let_def)
qed

text \<open>A client that presents the current entity tag of the file in \<open>If-None-Match\<close> gets 304 and
  no body, without the representation headers, whatever its \<open>If-Modified-Since\<close> and \<open>Range\<close> headers
  say; and a client whose \<open>If-Match\<close> list does not have the tag gets 412 and no body.\<close>

theorem ServeHTTP_conditional:
  assumes w: "status w = None" "body w = []" "hget (wheader w) ''Etag'' = CHR 0x22 # q @ [CHR 0x22]"
    and q: "\<forall>c \<in> set q. byte c = 33 \<or> 35 \<le> byte c \<and> byte c \<le> 126 \<or> 128 \<le> byte c"
    and get: "rmethod r = ''GET''"
  shows "(hget (rheader r) ''If-Match'' = [] \<and> hget (rheader r) ''If-Unmodified-Since'' = [] \<and>
      hget (rheader r) ''If-None-Match'' = CHR 0x22 # q @ [CHR 0x22] \<longrightarrow>
      (\<exists>w'. ServeHTTP pt ft mime b0 b rd w r name m sz = (w', None) \<and> status w' = Some 304 \<and>
        body w' = [] \<and> hget (wheader w') ''Content-Type'' = [] \<and>
        hget (wheader w') ''Content-Length'' = [] \<and> hget (wheader w') ''Last-Modified'' = [])) \<and>
    (hget (rheader r) ''If-Match'' \<noteq> [] \<and>
      etag_list etagStrongMatch condTrue condFalse (CHR 0x22 # q @ [CHR 0x22])
        (hget (rheader r) ''If-Match'') = condFalse \<longrightarrow>
      (\<exists>w'. ServeHTTP pt ft mime b0 b rd w r name m sz = (w', None) \<and> status w' = Some 412 \<and>
        body w' = []))"
proof -
  let ?w = "setLastModified ft m w"
  have e: "hget (wheader ?w) ''Etag'' = CHR 0x22 # q @ [CHR 0x22]" using w(3) by simp
  have m: "rmethod (rdel k r) = rmethod r" for k by (simp add: rdel_def)
  show ?thesis
    using e w(1,2) get etag_list_self [OF q, of etagWeakMatch] m
    by (auto simp: ServeHTTP_def checkPreconditions_def checkIfMatch_def checkIfUnmodifiedSince_def
        checkIfNoneMatch_def is_get_or_head_def writeNotModified_def etagWeakMatch_def Let_def)
qed

theorem ServeHTTP_conditional_witness:
  "\<exists>w'. ServeHTTP (\<lambda>_. None) (\<lambda>_. []) (\<lambda>_. []) [] [] ten_reader
      (wset ''Etag'' [CHR 0x22, CHR ''v'', CHR 0x22] new_response)
      \<lparr>rmethod = ''GET'', rheader = (\<lambda>_. None)(''If-None-Match'' := Some [[CHR 0x22, CHR ''v'', CHR 0x22]])\<rparr>
      ''f'' 5 10 = (w', None) \<and> status w' = Some 304 \<and> body w' = []"
proof -
  let ?t = "[CHR 0x22, CHR ''v'', CHR 0x22]"
  let ?r = "\<lparr>rmethod = ''GET'', rheader = (\<lambda>_. None)(''If-None-Match'' := Some [?t])\<rparr>"
  have e: "hget (wheader (wset ''Etag'' ?t new_response)) ''Etag'' = CHR 0x22 # ''v'' @ [CHR 0x22]"
    by simp
  have st: "status (wset ''Etag'' ?t new_response) = None"
    and bd: "body (wset ''Etag'' ?t new_response) = []" by (simp_all add: new_response_def)
  have q: "\<forall>c \<in> set ''v''. byte c = 33 \<or> 35 \<le> byte c \<and> byte c \<le> 126 \<or> 128 \<le> byte c"
    by (simp add: byte_def)
  have get: "rmethod ?r = ''GET''" by simp
  have "hget (rheader ?r) ''If-Match'' = []" and "hget (rheader ?r) ''If-Unmodified-Since'' = []"
    and "hget (rheader ?r) ''If-None-Match'' = CHR 0x22 # ''v'' @ [CHR 0x22]"
    by (simp_all add: hget_def)
  then show ?thesis
    using ServeHTTP_conditional [OF st bd e q get, of "\<lambda>_. None" "\<lambda>_. []"
        "\<lambda>_. []" "[]" "[]" ten_reader "''f''" 5 10]
    by blast
qed

end
