(* ===== verification/ExpiryHeap.thy ===== *)
theory ExpiryHeap
  imports Prelude
begin

text \<open>
  \<open>server/webdav/lock.go\<close>, the nodes of the in-memory lock system and their queue by expiry
  (\<open>type byExpiry\<close>), with \<open>container/heap\<close> of the standard library, whose \<open>up\<close>, \<open>down\<close>,
  \<open>Push\<close> and \<open>Remove\<close> work through the type's \<open>Less\<close>, \<open>Swap\<close>, \<open>Push\<close> and \<open>Pop\<close>.  Nodes are
  shared by pointer, so a node is an address and the fields are in a store; the queue is
  the list of the addresses.  The locale states what a queue by expiry promises, and the
  interpretation at the end proves it of this heap.
\<close>

section \<open>Nodes\<close>

record LockDetails =
  Root :: string
  Duration :: int
  OwnerXML :: string
  ZeroDepth :: bool

record memLSNode =
  details :: LockDetails
  token :: string
  refCount :: int
  expiry :: int
  byExpiryIndex :: int
  held :: bool

type_synonym nodes = "nat \<Rightarrow> memLSNode"

type_synonym heap = "nat list \<times> nodes"

section \<open>The queue\<close>

definition heap_less :: "heap \<Rightarrow> nat \<Rightarrow> nat \<Rightarrow> bool" where
  "heap_less hp i j \<longleftrightarrow> expiry (snd hp (fst hp ! i)) < expiry (snd hp (fst hp ! j))"

definition set_index :: "nat \<Rightarrow> int \<Rightarrow> nodes \<Rightarrow> nodes" where
  "set_index a i ns = ns(a := (ns a)\<lparr>byExpiryIndex := i\<rparr>)"

definition heap_swap :: "heap \<Rightarrow> nat \<Rightarrow> nat \<Rightarrow> heap" where
  "heap_swap hp i j =
     (let h = (fst hp)[i := fst hp ! j, j := fst hp ! i]
      in (h, set_index (h ! j) (int j) (set_index (h ! i) (int i) (snd hp))))"

definition queue_push :: "heap \<Rightarrow> nat \<Rightarrow> heap" where
  "queue_push hp a = (fst hp @ [a], set_index a (int (length (fst hp))) (snd hp))"

definition queue_pop :: "heap \<Rightarrow> heap" where
  "queue_pop hp =
     (let i = length (fst hp) - 1
      in (take i (fst hp), set_index (fst hp ! i) (-1) (snd hp)))"

text \<open>The parent of a position; Go's truncating division makes it 0 for position 0, as here.\<close>

definition par :: "nat \<Rightarrow> nat" where
  "par i = (i - 1) div 2"

lemma par_less: "0 < m \<Longrightarrow> par m < m"
  unfolding par_def by linarith

lemma par_le: "par m \<le> m"
  unfolding par_def by linarith

lemma par_cases: "0 < m \<Longrightarrow> par m = i \<Longrightarrow> m = 2 * i + 1 \<or> m = 2 * i + 2"
  unfolding par_def by linarith

function heap_up :: "heap \<Rightarrow> nat \<Rightarrow> heap" where
  "heap_up hp j =
     (let i = par j
      in if i = j \<or> \<not> heap_less hp j i then hp else heap_up (heap_swap hp i j) i)"
  by pat_completeness auto
termination
  by (relation "measure snd") (auto intro: le_neq_implies_less par_le)

text \<open>The child of \<open>i\<close> that \<open>down\<close> compares with: the lesser one, the left one on a tie.\<close>

definition lesser_child :: "heap \<Rightarrow> nat \<Rightarrow> nat \<Rightarrow> nat" where
  "lesser_child hp i n =
     (let j1 = 2 * i + 1 in if j1 + 1 < n \<and> heap_less hp (j1 + 1) j1 then j1 + 1 else j1)"

lemma lesser_child_bounds:
  "2 * i + 1 < n \<Longrightarrow> i < lesser_child hp i n \<and> lesser_child hp i n < n"
  by (auto simp: lesser_child_def Let_def)

function heap_down :: "heap \<Rightarrow> nat \<Rightarrow> nat \<Rightarrow> heap \<times> nat" where
  "heap_down hp i n =
     (if n \<le> 2 * i + 1 then (hp, i)
      else if \<not> heap_less hp (lesser_child hp i n) i then (hp, i)
      else heap_down (heap_swap hp i (lesser_child hp i n)) (lesser_child hp i n) n)"
  by pat_completeness auto
termination
proof (relation "measure (\<lambda>(hp, i, n). n - i)", goal_cases)
  case (2 hp i n)
  then show ?case using lesser_child_bounds [of i n hp] by simp linarith
qed simp

declare heap_up.simps [simp del] heap_down.simps [simp del]

definition heap_push :: "nat \<Rightarrow> heap \<Rightarrow> heap" where
  "heap_push a hp = (let hp = queue_push hp a in heap_up hp (length (fst hp) - 1))"

definition heap_remove :: "heap \<Rightarrow> nat \<Rightarrow> heap" where
  "heap_remove hp i =
     (let n = length (fst hp) - 1;
          hp = (if n \<noteq> i then
                  let (hp', i') = heap_down (heap_swap hp i n) i n
                  in if \<not> i < i' then heap_up hp' i else hp'
                else hp)
      in queue_pop hp)"

section \<open>What the operations keep\<close>

text \<open>The stored indices are the positions, and the fields other than the index are kept.\<close>

definition idx_ok :: "heap \<Rightarrow> bool" where
  "idx_ok hp \<longleftrightarrow> distinct (fst hp) \<and>
     (\<forall>i < length (fst hp). byExpiryIndex (snd hp (fst hp ! i)) = int i) \<and>
     (\<forall>a. a \<notin> set (fst hp) \<longrightarrow> byExpiryIndex (snd hp a) = -1)"

definition same_nodes :: "nodes \<Rightarrow> nodes \<Rightarrow> bool" where
  "same_nodes ns ns' \<longleftrightarrow> (\<forall>a. ns' a = (ns a)\<lparr>byExpiryIndex := byExpiryIndex (ns' a)\<rparr>)"

lemma same_nodes_refl [simp]: "same_nodes ns ns"
  by (simp add: same_nodes_def)

lemma same_nodes_trans: "same_nodes a b \<Longrightarrow> same_nodes b c \<Longrightarrow> same_nodes a c"
  unfolding same_nodes_def by (metis memLSNode.update_convs(5) memLSNode.surjective)

lemma same_nodes_set_index [simp]: "same_nodes ns (set_index a i ns)"
  by (simp add: same_nodes_def set_index_def)

lemma same_nodes_fields:
  assumes "same_nodes ns ns'"
  shows "details (ns' a) = details (ns a)" "token (ns' a) = token (ns a)"
    "refCount (ns' a) = refCount (ns a)" "expiry (ns' a) = expiry (ns a)" "held (ns' a) = held (ns a)"
proof -
  from assms have "ns' a = (ns a)\<lparr>byExpiryIndex := byExpiryIndex (ns' a)\<rparr>"
    by (simp add: same_nodes_def)
  then obtain i where i: "ns' a = (ns a)\<lparr>byExpiryIndex := i\<rparr>" ..
  show "details (ns' a) = details (ns a)" "token (ns' a) = token (ns a)"
    "refCount (ns' a) = refCount (ns a)" "expiry (ns' a) = expiry (ns a)" "held (ns' a) = held (ns a)"
    by (simp_all add: i)
qed

lemma mset_swap_list: "i < length h \<Longrightarrow> j < length h \<Longrightarrow>
    set (h[i := h ! j, j := h ! i]) = set h \<and>
    (distinct h \<longrightarrow> distinct (h[i := h ! j, j := h ! i]))"
  by (simp add: set_swap distinct_swap)

text \<open>The list part of an operation, for the order lemmas.\<close>

definition swapl :: "nat list \<Rightarrow> nat \<Rightarrow> nat \<Rightarrow> nat list" where
  "swapl h i j = h[i := h ! j, j := h ! i]"

lemma fst_heap_swap [simp]: "fst (heap_swap hp i j) = swapl (fst hp) i j"
  by (simp add: heap_swap_def swapl_def Let_def)

lemma swapl_simps [simp]: "length (swapl h i j) = length h"
  by (simp add: swapl_def)

lemma swapl_nth: "i < length h \<Longrightarrow> j < length h \<Longrightarrow> k < length h \<Longrightarrow>
    swapl h i j ! k = (if k = j then h ! i else if k = i then h ! j else h ! k)"
  by (auto simp: swapl_def nth_list_update)

lemma set_swapl [simp]: "i < length h \<Longrightarrow> j < length h \<Longrightarrow> set (swapl h i j) = set h"
  by (simp add: swapl_def)

lemma distinct_swapl [simp]: "i < length h \<Longrightarrow> j < length h \<Longrightarrow> distinct (swapl h i j) = distinct h"
  by (simp add: swapl_def)

text \<open>A swap inside the heap keeps everything that does not speak of the order.\<close>

definition kept :: "heap \<Rightarrow> heap \<Rightarrow> bool" where
  "kept hp hp' \<longleftrightarrow> set (fst hp') = set (fst hp) \<and> length (fst hp') = length (fst hp) \<and>
     same_nodes (snd hp) (snd hp') \<and> (idx_ok hp \<longrightarrow> idx_ok hp')"

lemma kept_refl [simp]: "kept hp hp"
  by (simp add: kept_def)

lemma kept_trans: "kept a b \<Longrightarrow> kept b c \<Longrightarrow> kept a c"
  unfolding kept_def by (metis same_nodes_trans)

lemma heap_swap_kept:
  assumes "i < length (fst hp)" and "j < length (fst hp)"
  shows "kept hp (heap_swap hp i j)"
proof -
  obtain h ns where hp: "hp = (h, ns)" by fastforce
  let ?h = "swapl h i j"
  have sw: "heap_swap (h, ns) i j = (?h, set_index (?h ! j) (int j) (set_index (?h ! i) (int i) ns))"
    by (simp add: heap_swap_def swapl_def Let_def)
  have "idx_ok (heap_swap hp i j)" if ok: "idx_ok hp"
  proof -
    have d: "distinct h" using ok by (simp add: idx_ok_def hp)
    have ij: "i < length h" "j < length h" using assms hp by auto
    have "byExpiryIndex (set_index (?h ! j) (int j) (set_index (?h ! i) (int i) ns) (?h ! k)) = int k"
      if k: "k < length h" for k
    proof -
      have "?h ! k = ?h ! j \<longleftrightarrow> k = j" and "?h ! k = ?h ! i \<longleftrightarrow> k = i"
        using d ij k by (simp_all add: nth_eq_iff_index_eq)
      moreover have "k \<noteq> i \<Longrightarrow> k \<noteq> j \<Longrightarrow> byExpiryIndex (ns (?h ! k)) = int k"
        using ok ij k by (simp add: swapl_nth idx_ok_def hp)
      ultimately show ?thesis by (auto simp: set_index_def)
    qed
    moreover have "?h ! i \<in> set h" and "?h ! j \<in> set h"
      using ij by (simp_all add: swapl_nth)
    ultimately show ?thesis
      unfolding hp sw using ok ij d by (auto simp: idx_ok_def hp set_index_def)
  qed
  moreover have "same_nodes ns (set_index (?h ! j) (int j) (set_index (?h ! i) (int i) ns))"
    by (meson same_nodes_set_index same_nodes_trans)
  ultimately show ?thesis
    using assms unfolding hp by (simp add: kept_def) (simp add: sw)
qed

lemma heap_up_kept: "j < length (fst hp) \<Longrightarrow> kept hp (heap_up hp j)"
proof (induction hp j rule: heap_up.induct)
  case (1 hp j)
  let ?i = "par j"
  show ?case
  proof (cases "?i = j \<or> \<not> heap_less hp j ?i")
    case True
    then show ?thesis by (simp add: heap_up.simps [of hp j] Let_def)
  next
    case False
    have i: "?i < length (fst hp)" using "1.prems" par_le [of j] by linarith
    have "kept (heap_swap hp ?i j) (heap_up (heap_swap hp ?i j) ?i)"
      using "1.IH" [OF refl False] i by simp
    with heap_swap_kept [OF i "1.prems"] False show ?thesis
      by (simp add: heap_up.simps [of hp j] Let_def) (blast intro: kept_trans)
  qed
qed

lemma heap_down_kept:
  "i < length (fst hp) \<Longrightarrow> n \<le> length (fst hp) \<Longrightarrow> kept hp (fst (heap_down hp i n))"
proof (induction hp i n rule: heap_down.induct)
  case (1 hp i n)
  let ?j = "lesser_child hp i n"
  show ?case
  proof (cases "n \<le> 2 * i + 1 \<or> \<not> heap_less hp ?j i")
    case True
    then show ?thesis by (auto simp: heap_down.simps [of hp i n])
  next
    case False
    then have j: "?j < n" using lesser_child_bounds [of i n hp] by simp
    then have j': "?j < length (fst hp)" using "1.prems" by simp
    have "kept (heap_swap hp i ?j) (fst (heap_down (heap_swap hp i ?j) ?j n))"
      using "1.IH" False j' "1.prems" by simp
    moreover have "heap_down hp i n = heap_down (heap_swap hp i ?j) ?j n"
      using False by (simp add: heap_down.simps [of hp i n])
    ultimately show ?thesis using heap_swap_kept [OF "1.prems"(1) j'] kept_trans by metis
  qed
qed

section \<open>The order\<close>

definition ky :: "heap \<Rightarrow> nat \<Rightarrow> int" where
  "ky hp i = expiry (snd hp (fst hp ! i))"

lemma heap_less_ky: "heap_less hp i j \<longleftrightarrow> ky hp i < ky hp j"
  by (simp add: heap_less_def ky_def)

lemma ky_swap:
  assumes "i < length (fst hp)" and "j < length (fst hp)" and "k < length (fst hp)"
  shows "ky (heap_swap hp i j) k = (if k = j then ky hp i else if k = i then ky hp j else ky hp k)"
proof -
  have "same_nodes (snd hp) (snd (heap_swap hp i j))"
    using heap_swap_kept [OF assms(1,2)] by (simp add: kept_def)
  then show ?thesis using assms by (simp add: ky_def same_nodes_fields swapl_nth)
qed

text \<open>The first \<open>n\<close> positions are ordered; the same with one position that may be too small
  (\<open>swim\<close>), with one that may be too large (\<open>sink\<close>), or both (\<open>defect\<close>).\<close>

definition ordered :: "heap \<Rightarrow> nat \<Rightarrow> bool" where
  "ordered hp n \<longleftrightarrow> (\<forall>m. 0 < m \<and> m < n \<longrightarrow> ky hp (par m) \<le> ky hp m)"

definition above :: "heap \<Rightarrow> nat \<Rightarrow> nat \<Rightarrow> bool" where
  "above hp i n \<longleftrightarrow> (0 < i \<longrightarrow> (\<forall>c. 0 < c \<and> c < n \<and> par c = i \<longrightarrow> ky hp (par i) \<le> ky hp c))"

definition swim :: "heap \<Rightarrow> nat \<Rightarrow> nat \<Rightarrow> bool" where
  "swim hp i n \<longleftrightarrow> (\<forall>m. 0 < m \<and> m < n \<and> m \<noteq> i \<longrightarrow> ky hp (par m) \<le> ky hp m) \<and> above hp i n"

definition sink :: "heap \<Rightarrow> nat \<Rightarrow> nat \<Rightarrow> bool" where
  "sink hp i n \<longleftrightarrow> (\<forall>m. 0 < m \<and> m < n \<and> par m \<noteq> i \<longrightarrow> ky hp (par m) \<le> ky hp m) \<and> above hp i n"

definition defect :: "heap \<Rightarrow> nat \<Rightarrow> nat \<Rightarrow> bool" where
  "defect hp i n \<longleftrightarrow>
     (\<forall>m. 0 < m \<and> m < n \<and> m \<noteq> i \<and> par m \<noteq> i \<longrightarrow> ky hp (par m) \<le> ky hp m) \<and> above hp i n"

lemma swim_step:
  assumes sw: "swim hp j n" and j: "0 < j" "j < n" "n \<le> length (fst hp)" and lt: "ky hp j < ky hp (par j)"
  shows "swim (heap_swap hp (par j) j) (par j) n"
proof -
  let ?i = "par j"
  have i: "?i < j" using par_less [OF j(1)] .
  have k: "ky (heap_swap hp ?i j) m = (if m = j then ky hp ?i else if m = ?i then ky hp j else ky hp m)"
    if "m < n" for m
    using that i j by (intro ky_swap) auto
  have ord: "ky hp (par m) \<le> ky hp m" if "0 < m" "m < n" "m \<noteq> j" for m
    using sw that by (simp add: swim_def)
  have ch: "ky hp ?i \<le> ky hp c" if "0 < c" "c < n" "par c = j" for c
    using sw that j(1) by (auto simp: swim_def above_def)
  have "ky (heap_swap hp ?i j) (par m) \<le> ky (heap_swap hp ?i j) m"
    if m: "0 < m" "m < n" "m \<noteq> ?i" for m
  proof -
    have pm: "par m < n" using m par_less [of m] by linarith
    consider "m = j" | "m \<noteq> j" "par m = j" | "m \<noteq> j" "par m = ?i" | "m \<noteq> j" "par m \<noteq> j" "par m \<noteq> ?i"
      by blast
    then show ?thesis
    proof cases
      case 1
      then show ?thesis using k [of j] k [of ?i] i j lt by auto
    next
      case 2
      then show ?thesis using k [OF m(2)] k [OF pm] m ch by auto
    next
      case 3
      then show ?thesis using k [OF m(2)] k [OF pm] m ord [of m] i lt by auto
    next
      case 4
      then show ?thesis using k [OF m(2)] k [OF pm] m ord [of m] by auto
    qed
  qed
  moreover have "ky (heap_swap hp ?i j) (par ?i) \<le> ky (heap_swap hp ?i j) c"
    if c: "0 < ?i" "0 < c" "c < n" "par c = ?i" for c
  proof -
    have pi: "par ?i < ?i" using par_less [OF c(1)] .
    have kp: "ky (heap_swap hp ?i j) (par ?i) = ky hp (par ?i)"
      using k [of "par ?i"] pi i j by auto
    have "ky hp (par ?i) \<le> ky hp ?i" using ord [of ?i] c(1) i j by simp
    moreover have "c \<noteq> ?i" using c par_less [of c] by simp
    moreover have "c \<noteq> j \<Longrightarrow> ky hp ?i \<le> ky hp c" using ord [OF c(2,3)] c(4) by simp
    ultimately show ?thesis using kp k [OF c(3)] by (cases "c = j") auto
  qed
  ultimately show ?thesis unfolding swim_def above_def by blast
qed

lemma heap_up_ordered:
  "swim hp j n \<Longrightarrow> j < n \<Longrightarrow> n \<le> length (fst hp) \<Longrightarrow>
    ordered (heap_up hp j) n \<and> (\<forall>m \<ge> n. fst (heap_up hp j) ! m = fst hp ! m)"
proof (induction hp j rule: heap_up.induct)
  case (1 hp j)
  let ?i = "par j"
  show ?case
  proof (cases "?i = j \<or> \<not> heap_less hp j ?i")
    case True
    then have "0 < j \<Longrightarrow> ky hp ?i \<le> ky hp j" using par_less [of j] by (auto simp: heap_less_ky)
    then have "ordered hp n" using "1.prems"(1) by (auto simp: ordered_def swim_def)
    with True show ?thesis by (simp add: heap_up.simps [of hp j] Let_def)
  next
    case False
    then have j: "0 < j" using par_le [of j] by (cases j) auto
    have step: "swim (heap_swap hp ?i j) ?i n"
      using swim_step [OF "1.prems"(1) j "1.prems"(2,3)] False by (simp add: heap_less_ky)
    have up: "heap_up hp j = heap_up (heap_swap hp ?i j) ?i"
      using False by (simp add: heap_up.simps [of hp j] Let_def)
    have "ordered (heap_up (heap_swap hp ?i j) ?i) n \<and>
        (\<forall>m \<ge> n. fst (heap_up (heap_swap hp ?i j) ?i) ! m = fst (heap_swap hp ?i j) ! m)"
      using "1.IH" [OF refl False step] "1.prems" par_less [OF j] by simp
    moreover have "\<forall>m \<ge> n. fst (heap_swap hp ?i j) ! m = fst hp ! m"
      using "1.prems" par_less [OF j] by (auto simp: swapl_def)
    ultimately show ?thesis unfolding up by simp
  qed
qed

lemma sink_step:
  assumes df: "defect hp i n" and n: "n \<le> length (fst hp)" and ch: "2 * i + 1 < n"
    and lt: "ky hp (lesser_child hp i n) < ky hp i"
  shows "sink (heap_swap hp i (lesser_child hp i n)) (lesser_child hp i n) n"
proof -
  let ?j = "lesser_child hp i n"
  have j: "i < ?j" "?j < n" using lesser_child_bounds [OF ch, of hp] by simp_all
  have pj: "par ?j = i" by (simp add: lesser_child_def par_def Let_def)
  have least: "ky hp ?j \<le> ky hp c" if "0 < c" "c < n" "par c = i" for c
    using par_cases [OF that(1,3)] that(2)
    by (auto simp: lesser_child_def heap_less_ky Let_def)
  have k: "ky (heap_swap hp i ?j) m = (if m = ?j then ky hp i else if m = i then ky hp ?j else ky hp m)"
    if "m < n" for m
    using that j n by (intro ky_swap) auto
  have ord: "ky hp (par m) \<le> ky hp m" if "0 < m" "m < n" "m \<noteq> i" "par m \<noteq> i" for m
    using df that by (simp add: defect_def)
  have up: "ky hp (par i) \<le> ky hp c" if "0 < i" "0 < c" "c < n" "par c = i" for c
    using df that by (auto simp: defect_def above_def)
  have "ky (heap_swap hp i ?j) (par m) \<le> ky (heap_swap hp i ?j) m"
    if m: "0 < m" "m < n" "par m \<noteq> ?j" for m
  proof -
    have pm: "par m < n" "par m \<noteq> m" using m par_less [of m] by linarith+
    consider "m = ?j" | "m \<noteq> ?j" "par m = i" | "m = i" | "m \<noteq> ?j" "par m \<noteq> i" "m \<noteq> i" by blast
    then show ?thesis
    proof cases
      case 1
      then show ?thesis using k [OF m(2)] k [OF pm(1)] pj j lt by auto
    next
      case 2
      then show ?thesis using k [OF m(2)] k [OF pm(1)] least [of m] m j pm by auto
    next
      case 3
      then show ?thesis using k [OF m(2)] k [OF pm(1)] up [of ?j] j pj m pm by auto
    next
      case 4
      then show ?thesis using k [OF m(2)] k [OF pm(1)] ord [of m] m by auto
    qed
  qed
  moreover have "ky (heap_swap hp i ?j) (par ?j) \<le> ky (heap_swap hp i ?j) c"
    if c: "0 < c" "c < n" "par c = ?j" for c
  proof -
    have "c \<noteq> i" "c \<noteq> ?j" using c par_less [of c] j by auto
    moreover have "ky hp ?j \<le> ky hp c" using ord [of c] c j calculation(1) by auto
    ultimately show ?thesis using k [OF c(2)] k [of i] j pj by auto
  qed
  ultimately show ?thesis unfolding sink_def above_def by blast
qed

lemma sink_defect: "sink hp i n \<Longrightarrow> defect hp i n"
  by (auto simp: sink_def defect_def)

lemma no_sink_ordered:
  assumes "n \<le> 2 * i + 1 \<or> \<not> heap_less hp (lesser_child hp i n) i"
  shows "0 < m \<Longrightarrow> m < n \<Longrightarrow> par m = i \<Longrightarrow> ky hp i \<le> ky hp m"
  using assms par_cases [of m i]
  by (auto simp: lesser_child_def heap_less_ky Let_def split: if_splits)

lemma heap_down_ordered:
  "sink hp i n \<Longrightarrow> i < n \<Longrightarrow> n \<le> length (fst hp) \<Longrightarrow>
    ordered (fst (heap_down hp i n)) n \<and> (\<forall>m \<ge> n. fst (fst (heap_down hp i n)) ! m = fst hp ! m) \<and>
    i \<le> snd (heap_down hp i n)"
proof (induction hp i n rule: heap_down.induct)
  case (1 hp i n)
  let ?j = "lesser_child hp i n"
  show ?case
  proof (cases "n \<le> 2 * i + 1 \<or> \<not> heap_less hp ?j i")
    case True
    then have "ordered hp n"
      using "1.prems"(1) no_sink_ordered [OF True] by (auto simp: sink_def ordered_def)
    with True show ?thesis by (auto simp: heap_down.simps [of hp i n])
  next
    case False
    then have j: "i < ?j" "?j < n" using lesser_child_bounds [of i n hp] by simp_all
    have st: "sink (heap_swap hp i ?j) ?j n"
      using sink_step [OF sink_defect [OF "1.prems"(1)] "1.prems"(3)] False by (simp add: heap_less_ky)
    have down: "heap_down hp i n = heap_down (heap_swap hp i ?j) ?j n"
      using False by (simp add: heap_down.simps [of hp i n])
    moreover have "\<forall>m \<ge> n. fst (heap_swap hp i ?j) ! m = fst hp ! m"
      using j by (auto simp: swapl_def)
    ultimately show ?thesis using "1.IH" False st j "1.prems"(3) by simp
  qed
qed

text \<open>One repair of \<open>Remove\<close>: down, and up when the element did not move.\<close>

lemma repair_ordered:
  assumes df: "defect hp i n" and i: "i < n" "n \<le> length (fst hp)"
    and d: "heap_down hp i n = (hp', i')"
  shows "ordered (if \<not> i < i' then heap_up hp' i else hp') n \<and>
    (\<forall>m \<ge> n. fst (if \<not> i < i' then heap_up hp' i else hp') ! m = fst hp ! m)"
proof (cases "n \<le> 2 * i + 1 \<or> \<not> heap_less hp (lesser_child hp i n) i")
  case True
  then have "hp' = hp" "i' = i" using d by (auto simp: heap_down.simps [of hp i n] split: if_splits)
  moreover have "swim hp i n"
    using df no_sink_ordered [OF True] by (auto simp: swim_def defect_def)
  ultimately show ?thesis using heap_up_ordered i by simp
next
  case False
  let ?j = "lesser_child hp i n"
  have j: "i < ?j" "?j < n" using False lesser_child_bounds [of i n hp] by simp_all
  have st: "sink (heap_swap hp i ?j) ?j n"
    using sink_step [OF df i(2)] False by (simp add: heap_less_ky)
  have down: "heap_down hp i n = heap_down (heap_swap hp i ?j) ?j n"
    using False by (simp add: heap_down.simps [of hp i n])
  moreover have "\<forall>m \<ge> n. fst (heap_swap hp i ?j) ! m = fst hp ! m"
    using j by (auto simp: swapl_def)
  moreover obtain "fst (heap_down hp i n) = hp'" "snd (heap_down hp i n) = i'" using d by simp
  ultimately show ?thesis using heap_down_ordered [OF st j(2)] i(2) j by simp
qed

section \<open>Push and remove\<close>

definition heap_ok :: "heap \<Rightarrow> bool" where
  "heap_ok hp \<longleftrightarrow> idx_ok hp \<and> ordered hp (length (fst hp))"

lemma ordered_cong: "(\<And>m. m < n \<Longrightarrow> ky a m = ky b m) \<Longrightarrow> ordered a n = ordered b n"
  unfolding ordered_def by (metis less_trans par_less)

lemma ordered_swim:
  assumes "ordered hp n"
  shows "swim hp n (Suc n)"
proof -
  have "ky hp (par m) \<le> ky hp m" if "0 < m" "m < Suc n" "m \<noteq> n" for m
    using assms that by (simp add: ordered_def)
  moreover have "par c \<noteq> n" if "0 < c" "c < Suc n" for c
    using par_less [OF that(1)] that by linarith
  ultimately show ?thesis unfolding swim_def above_def by blast
qed

lemma heap_push_ok:
  assumes ok: "heap_ok hp" and new: "a \<notin> set (fst hp)"
  shows "heap_ok (heap_push a hp)" and "set (fst (heap_push a hp)) = insert a (set (fst hp))"
    and "same_nodes (snd hp) (snd (heap_push a hp))"
    and "length (fst (heap_push a hp)) = Suc (length (fst hp))"
proof -
  obtain h ns where hp: "hp = (h, ns)" by fastforce
  let ?q = "queue_push hp a" and ?n = "length h"
  have qe: "queue_push (h, ns) a = (h @ [a], set_index a (int ?n) ns)"
    by (simp add: queue_push_def)
  then have q: "fst ?q = h @ [a]" "snd ?q = set_index a (int ?n) ns" by (simp_all add: hp)
  have up: "heap_push a hp = heap_up ?q ?n" by (simp add: heap_push_def q Let_def)
  note up' = up [unfolded hp]
  have "idx_ok ?q"
    using ok new by (auto simp: heap_ok_def idx_ok_def hp qe nth_append set_index_def)
  moreover have k: "kept ?q (heap_up ?q ?n)" by (rule heap_up_kept) (simp add: q)
  moreover have "ky ?q m = ky hp m" if "m < ?n" for m
    using that by (simp add: ky_def qe hp nth_append set_index_def)
  then have "ordered ?q ?n" using ok ordered_cong [of ?n ?q hp] by (simp add: heap_ok_def hp)
  then have "swim ?q ?n (Suc ?n)" by (rule ordered_swim)
  then have "ordered (heap_up ?q ?n) (Suc ?n)"
    using heap_up_ordered [of ?q ?n "Suc ?n"] by (simp add: q)
  ultimately show "heap_ok (heap_push a hp)" and "set (fst (heap_push a hp)) = insert a (set (fst hp))"
    and "same_nodes (snd hp) (snd (heap_push a hp))"
    and "length (fst (heap_push a hp)) = Suc (length (fst hp))"
    using same_nodes_trans [OF same_nodes_set_index [of ns a "int ?n"]] q
    by (auto simp: up' heap_ok_def kept_def hp)
qed

lemma queue_pop_ok:
  assumes "idx_ok hp" and "fst hp \<noteq> []" and "ordered hp (length (fst hp) - 1)"
  shows "heap_ok (queue_pop hp)"
    and "set (fst (queue_pop hp)) = set (fst hp) - {fst hp ! (length (fst hp) - 1)}"
    and "same_nodes (snd hp) (snd (queue_pop hp))"
proof -
  obtain h ns where hp: "hp = (h, ns)" by fastforce
  from assms(2) obtain g x where h: "h = g @ [x]" by (cases h rule: rev_cases) (auto simp: hp)
  have pop: "queue_pop (g @ [x], ns) = (g, set_index x (-1) ns)" by (simp add: queue_pop_def Let_def)
  have d: "distinct h" using assms(1) by (simp add: idx_ok_def hp)
  have "byExpiryIndex (ns (g ! i)) = int i" if "i < length g" for i
    using assms(1) that by (auto simp: idx_ok_def hp h nth_append dest: spec [of _ i])
  then have "idx_ok (queue_pop hp)"
    using assms(1) d by (auto simp: idx_ok_def hp h pop set_index_def)
  moreover have "ky (queue_pop hp) m = ky hp m" if "m < length g" for m
    using that by (simp add: ky_def pop hp h nth_append set_index_def)
  then have "ordered (queue_pop hp) (length g)"
    using assms(3) ordered_cong [of "length g" "queue_pop hp" hp] by (simp add: hp h)
  ultimately show "heap_ok (queue_pop hp)" by (simp add: heap_ok_def hp h pop)
  show "set (fst (queue_pop hp)) = set (fst hp) - {fst hp ! (length (fst hp) - 1)}"
    using d by (auto simp: pop hp h)
  show "same_nodes (snd hp) (snd (queue_pop hp))" by (simp add: pop hp h)
qed

lemma heap_remove_ok:
  assumes ok: "heap_ok hp" and i: "i < length (fst hp)"
  shows "heap_ok (heap_remove hp i)" and "set (fst (heap_remove hp i)) = set (fst hp) - {fst hp ! i}"
    and "same_nodes (snd hp) (snd (heap_remove hp i))"
proof -
  let ?n = "length (fst hp) - 1"
  have "\<exists>hp'. heap_remove hp i = queue_pop hp' \<and> kept hp hp' \<and> ordered hp' ?n \<and> fst hp' ! ?n = fst hp ! i"
  proof (cases "?n = i")
    case True
    with ok show ?thesis by (intro exI [of _ hp]) (auto simp: heap_remove_def heap_ok_def ordered_def)
  next
    case False
    with i have n: "i < ?n" "?n < length (fst hp)" by linarith+
    let ?s = "heap_swap hp i ?n"
    obtain hp1 i1 where d: "heap_down ?s i ?n = (hp1, i1)" by fastforce
    let ?r = "if \<not> i < i1 then heap_up hp1 i else hp1"
    have ks: "kept hp ?s" using heap_swap_kept i n(2) by blast
    then have len: "length (fst ?s) = length (fst hp)" by (simp add: kept_def)
    have k: "ky ?s m = (if m = i then ky hp ?n else ky hp m)" if "m < ?n" for m
      using ky_swap [of i hp ?n m] that i n by auto
    have "defect ?s i ?n"
    proof -
      have ord: "0 < m \<Longrightarrow> m < ?n \<Longrightarrow> ky hp (par m) \<le> ky hp m" for m
        using ok by (simp add: heap_ok_def ordered_def)
      have "ky ?s (par m) \<le> ky ?s m" if "0 < m" "m < ?n" "m \<noteq> i" "par m \<noteq> i" for m
        using k [OF that(2)] k [of "par m"] par_less [OF that(1)] ord that by auto
      moreover have "ky ?s (par i) \<le> ky ?s c" if "0 < i" "0 < c" "c < ?n" "par c = i" for c
        using k [OF that(3)] k [of "par i"] par_less [OF that(1)] par_less [OF that(2)]
          ord [of i] ord [of c] that n by auto
      ultimately show ?thesis unfolding defect_def above_def by blast
    qed
    then have r: "ordered ?r ?n \<and> (\<forall>m \<ge> ?n. fst ?r ! m = fst ?s ! m)"
      using repair_ordered [OF _ n(1) _ d] len by simp
    have "kept ?s hp1"
      using heap_down_kept [of i ?s ?n] d len i by simp
    moreover have "kept hp1 (heap_up hp1 i)"
      using calculation(1) len i by (intro heap_up_kept) (simp add: kept_def)
    ultimately have "kept ?s ?r" using kept_trans by (auto split: if_splits)
    then have "kept hp ?r" using ks kept_trans by blast
    moreover have "fst ?r ! ?n = fst hp ! i" using r i n by (simp add: swapl_nth)
    moreover have "heap_remove hp i = queue_pop ?r"
      using False d by (simp add: heap_remove_def Let_def)
    ultimately show ?thesis using r by blast
  qed
  then obtain hp' where hp': "heap_remove hp i = queue_pop hp'" "kept hp hp'" "ordered hp' ?n"
    "fst hp' ! ?n = fst hp ! i" by blast
  from hp'(2) i ok have c: "idx_ok hp'" "fst hp' \<noteq> []" "length (fst hp') = length (fst hp)"
    by (auto simp: kept_def heap_ok_def)
  note pop = queue_pop_ok [OF c(1,2)]
  show "heap_ok (heap_remove hp i)" using pop(1) hp' c by simp
  show "set (fst (heap_remove hp i)) = set (fst hp) - {fst hp ! i}"
    using pop(2) hp' c by (simp add: kept_def)
  show "same_nodes (snd hp) (snd (heap_remove hp i))"
    using pop(3) hp' c same_nodes_trans by (metis kept_def)
qed

lemma ordered_head: "ordered hp n \<Longrightarrow> m < n \<Longrightarrow> ky hp 0 \<le> ky hp m"
proof (induction m rule: less_induct)
  case (less m)
  show ?case
  proof (cases "m = 0")
    case False
    then have "par m < m" by (simp add: par_less)
    with less have "ky hp 0 \<le> ky hp (par m)" by simp
    also have "\<dots> \<le> ky hp m" using less.prems False by (simp add: ordered_def)
    finally show ?thesis .
  qed simp
qed

section \<open>The contract of a queue by expiry\<close>

text \<open>
  What the lock system relies on: the members after a push and a removal, that the store
  keeps its fields (\<open>same\<close>, which keeps the keys), and that the first member expires first.  The consequence it uses is
  that a first member that has not expired means that no member has.
\<close>

locale expiry_queue =
  fixes inv :: "'q \<Rightarrow> bool" and members :: "'q \<Rightarrow> nat list" and key :: "'q \<Rightarrow> nat \<Rightarrow> int"
    and same :: "'q \<Rightarrow> 'q \<Rightarrow> bool"
    and push :: "nat \<Rightarrow> 'q \<Rightarrow> 'q" and removal :: "nat \<Rightarrow> 'q \<Rightarrow> 'q"
  assumes inv_push: "inv q \<Longrightarrow> a \<notin> set (members q) \<Longrightarrow> inv (push a q)"
    and set_push: "inv q \<Longrightarrow> a \<notin> set (members q) \<Longrightarrow> set (members (push a q)) = insert a (set (members q))"
    and same_push: "inv q \<Longrightarrow> a \<notin> set (members q) \<Longrightarrow> same q (push a q)"
    and inv_removal: "inv q \<Longrightarrow> a \<in> set (members q) \<Longrightarrow> inv (removal a q)"
    and set_removal: "inv q \<Longrightarrow> a \<in> set (members q) \<Longrightarrow> set (members (removal a q)) = set (members q) - {a}"
    and same_removal: "inv q \<Longrightarrow> a \<in> set (members q) \<Longrightarrow> same q (removal a q)"
    and same_key: "same q q' \<Longrightarrow> key q' = key q"
    and distinct_members: "inv q \<Longrightarrow> distinct (members q)"
    and head_first: "inv q \<Longrightarrow> a \<in> set (members q) \<Longrightarrow> key q (hd (members q)) \<le> key q a"
begin

lemma none_expired:
  assumes "inv q" and "members q = [] \<or> now < key q (hd (members q))" and "a \<in> set (members q)"
  shows "now < key q a"
  using assms head_first [OF assms(1,3)] by (auto intro: less_le_trans)

lemma removal_shorter:
  assumes "inv q" and "a \<in> set (members q)"
  shows "Suc (length (members (removal a q))) = length (members q)"
proof -
  have "length (members (removal a q)) = card (set (members q) - {a})"
    using assms distinct_card distinct_members inv_removal set_removal by metis
  also have "\<dots> = card (set (members q)) - 1" using assms(2) by (simp add: card_Diff_singleton)
  also have "card (set (members q)) = length (members q)"
    by (rule distinct_card [OF distinct_members [OF assms(1)]])
  finally show ?thesis using length_pos_if_in_set [OF assms(2)] by simp
qed

end

text \<open>Removal by the stored index, as every caller in the lock system does it.\<close>

definition heap_remove_node :: "nat \<Rightarrow> heap \<Rightarrow> heap" where
  "heap_remove_node a hp = heap_remove hp (nat (byExpiryIndex (snd hp a)))"

lemma idx_position:
  assumes "idx_ok hp" and "a \<in> set (fst hp)"
  shows "nat (byExpiryIndex (snd hp a)) < length (fst hp)"
    and "fst hp ! nat (byExpiryIndex (snd hp a)) = a"
  using assms by (auto simp: idx_ok_def in_set_conv_nth)

lemma idx_member: "idx_ok hp \<Longrightarrow> 0 \<le> byExpiryIndex (snd hp a) \<longleftrightarrow> a \<in> set (fst hp)"
  by (auto simp: idx_ok_def in_set_conv_nth)

definition expiries :: "heap \<Rightarrow> nat \<Rightarrow> int" where
  "expiries hp a = expiry (snd hp a)"

lemma same_nodes_expiries: "same_nodes (snd hp) (snd hp') \<Longrightarrow> expiries hp' = expiries hp"
  by (auto simp: expiries_def same_nodes_fields)

interpretation hq: expiry_queue heap_ok fst expiries "\<lambda>hp hp'. same_nodes (snd hp) (snd hp')"
  heap_push heap_remove_node
proof unfold_locales
  fix q :: heap and a
  assume ok: "heap_ok q" and new: "a \<notin> set (fst q)"
  show "heap_ok (heap_push a q)" and "set (fst (heap_push a q)) = insert a (set (fst q))"
    using heap_push_ok [OF ok new] by simp_all
  show "same_nodes (snd q) (snd (heap_push a q))" by (rule heap_push_ok(3) [OF ok new])
next
  fix q :: heap and a
  assume ok: "heap_ok q" and mem: "a \<in> set (fst q)"
  then have "idx_ok q" by (simp add: heap_ok_def)
  note pos = idx_position [OF this mem]
  show "heap_ok (heap_remove_node a q)" and "set (fst (heap_remove_node a q)) = set (fst q) - {a}"
    using heap_remove_ok [OF ok pos(1)] pos(2) by (simp_all add: heap_remove_node_def)
  show "same_nodes (snd q) (snd (heap_remove_node a q))"
    using heap_remove_ok(3) [OF ok pos(1)] by (simp add: heap_remove_node_def)
  obtain m where "m < length (fst q)" "fst q ! m = a" using mem by (auto simp: in_set_conv_nth)
  then show "expiries q (hd (fst q)) \<le> expiries q a"
    using ordered_head [of q "length (fst q)" m] ok
    by (cases "fst q") (auto simp: heap_ok_def expiries_def ky_def)
qed (simp_all add: heap_ok_def idx_ok_def same_nodes_expiries)

lemma heap_ok_cong:
  assumes "\<And>b. byExpiryIndex (ns' b) = byExpiryIndex (ns b)"
    and "\<And>b. b \<in> set h \<Longrightarrow> expiry (ns' b) = expiry (ns b)"
  shows "heap_ok (h, ns') = heap_ok (h, ns)"
proof -
  have "ordered (h, ns') (length h) = ordered (h, ns) (length h)"
    by (rule ordered_cong) (simp add: ky_def assms(2))
  then show ?thesis by (simp add: heap_ok_def idx_ok_def assms(1))
qed

end
