(* ===== verification/GoPath.thy ===== *)
theory GoPath
  imports Prelude
begin

text \<open>
  The functions of the Go standard package \<open>path\<close> that the sources call (\<open>Clean\<close>, \<open>Join\<close>,
  \<open>Split\<close>, \<open>Dir\<close>, \<open>Base\<close>, \<open>Ext\<close>), and the abstract view of a rooted path that the
  component proofs use: a rooted clean path is exactly \<open>abs_path cs\<close> for a list \<open>cs\<close> of
  names none of which is empty, \<open>.\<close>, \<open>..\<close> or has a slash.
\<close>

named_theorems path_simps \<open>the abstract view of rooted paths\<close>

abbreviation (input) slash :: char where
  "slash \<equiv> CHR ''/''"

section \<open>The package\<close>

text \<open>One element of \<open>path.Clean\<close>'s scan; \<open>st\<close> is the output so far, last element first.\<close>

definition clean_step :: "bool \<Rightarrow> string list \<Rightarrow> string \<Rightarrow> string list" where
  "clean_step rooted st c =
     (if c = [] \<or> c = ''.'' then st
      else if c = ''..'' then
        (case st of
           [] \<Rightarrow> if rooted then [] else [''..'']
         | t # ts \<Rightarrow> if t = ''..'' then ''..'' # st else ts)
      else c # st)"

definition clean_comps :: "bool \<Rightarrow> string list \<Rightarrow> string list" where
  "clean_comps rooted cs = rev (foldl (clean_step rooted) [] cs)"

definition path_clean :: "string \<Rightarrow> string" where
  "path_clean p =
     (if p = [] then ''.''
      else let rooted = (hd p = slash);
               body = join_with ''/'' (clean_comps rooted (split_on slash p))
           in if rooted then slash # body else if body = [] then ''.'' else body)"

definition path_join :: "string list \<Rightarrow> string" where
  "path_join es =
     (let ne = filter (\<lambda>e. e \<noteq> []) es
      in if ne = [] then [] else path_clean (join_with ''/'' ne))"

definition path_split :: "string \<Rightarrow> string \<times> string" where
  "path_split p = (case last_index_byte p slash of
      None \<Rightarrow> ([], p)
    | Some i \<Rightarrow> (take (Suc i) p, drop (Suc i) p))"

definition path_dir :: "string \<Rightarrow> string" where
  "path_dir p = path_clean (fst (path_split p))"

definition path_base :: "string \<Rightarrow> string" where
  "path_base p =
     (if p = [] then ''.''
      else let q = rev (dropWhile (\<lambda>c. c = slash) (rev p));
               b = snd (path_split q)
           in if b = [] then ''/'' else b)"

fun ext_scan :: "string \<Rightarrow> string \<Rightarrow> string" where
  "ext_scan acc [] = []"
| "ext_scan acc (c # cs) =
     (if c = slash then [] else if c = CHR ''.'' then c # acc else ext_scan (c # acc) cs)"

definition path_ext :: "string \<Rightarrow> string" where
  "path_ext p = ext_scan [] (rev p)"

section \<open>Rooted clean paths as lists of names\<close>

definition valid_comp :: "string \<Rightarrow> bool" where
  "valid_comp c \<longleftrightarrow> c \<noteq> [] \<and> c \<noteq> ''.'' \<and> c \<noteq> ''..'' \<and> slash \<notin> set c"

definition abs_path :: "string list \<Rightarrow> string" where
  "abs_path cs = slash # join_with ''/'' cs"

definition path_comps :: "string \<Rightarrow> string list" where
  "path_comps p = (if p = ''/'' then [] else split_on slash (tl p))"

definition canonical :: "string \<Rightarrow> bool" where
  "canonical p \<longleftrightarrow> p \<noteq> [] \<and> hd p = slash \<and> list_all valid_comp (path_comps p)"

lemma abs_path_Nil [simp]: "abs_path [] = ''/''"
  by (simp add: abs_path_def)

lemma valid_comps_no_slash: "list_all valid_comp cs \<Longrightarrow> \<forall>x \<in> set cs. slash \<notin> set x"
  by (auto simp: list_all_iff valid_comp_def)

lemma abs_path_root_iff:
  assumes "list_all valid_comp cs" shows "abs_path cs = ''/'' \<longleftrightarrow> cs = []"
  using assms by (cases cs) (auto simp: abs_path_def join_with_Cons valid_comp_def)

lemma path_comps_abs_path [simp]:
  assumes "list_all valid_comp cs" shows "path_comps (abs_path cs) = cs"
proof (cases "cs = []")
  case True
  then show ?thesis by (simp add: path_comps_def)
next
  case False
  then have "abs_path cs \<noteq> ''/''" using abs_path_root_iff [OF assms] by simp
  moreover have "split_on slash (join_with ''/'' cs) = cs"
    using split_join [OF False valid_comps_no_slash [OF assms]] .
  ultimately show ?thesis by (simp add: path_comps_def abs_path_def)
qed

lemma abs_path_path_comps:
  assumes "canonical p" shows "abs_path (path_comps p) = p"
proof -
  from assms obtain t where p: "p = slash # t" by (cases p) (auto simp: canonical_def)
  show ?thesis
  proof (cases "t = []")
    case True with p show ?thesis by (simp add: path_comps_def)
  next
    case False with p show ?thesis by (simp add: path_comps_def abs_path_def)
  qed
qed

lemma canonical_abs_path: "list_all valid_comp cs \<Longrightarrow> canonical (abs_path cs)"
  using path_comps_abs_path [of cs] by (simp add: canonical_def) (simp add: abs_path_def)

lemma canonical_iff: "canonical p \<longleftrightarrow> (\<exists>cs. list_all valid_comp cs \<and> p = abs_path cs)"
  by (metis abs_path_path_comps canonical_abs_path canonical_def)

lemma canonicalE:
  assumes "canonical p"
  obtains cs where "list_all valid_comp cs" and "p = abs_path cs" and "path_comps p = cs"
  using assms canonical_iff path_comps_abs_path by metis

lemma abs_path_inj:
  "list_all valid_comp as \<Longrightarrow> list_all valid_comp bs \<Longrightarrow> abs_path as = abs_path bs \<longleftrightarrow> as = bs"
  by (metis path_comps_abs_path)

section \<open>What \<open>Clean\<close> does to rooted paths\<close>

text \<open>
  The effect of a rooted scan on a stack (last name first): the specification the proofs
  rewrite with.
\<close>

definition walk :: "string list \<Rightarrow> string list \<Rightarrow> string list" where
  "walk st cs = foldl (clean_step True) st cs"

lemma walk_Nil [simp]: "walk st [] = st"
  by (simp add: walk_def)

lemma walk_Cons [simp]: "walk st (c # cs) = walk (clean_step True st c) cs"
  by (simp add: walk_def)

lemma walk_append [simp]: "walk st (xs @ ys) = walk (walk st xs) ys"
  by (simp add: walk_def)

lemma clean_step_valid:
  "list_all valid_comp st \<Longrightarrow> slash \<notin> set c \<Longrightarrow> list_all valid_comp (clean_step True st c)"
  by (auto simp: clean_step_def valid_comp_def split: list.splits)

lemma walk_valid:
  "list_all valid_comp st \<Longrightarrow> \<forall>c \<in> set cs. slash \<notin> set c \<Longrightarrow> list_all valid_comp (walk st cs)"
  by (induction cs arbitrary: st) (auto simp: clean_step_valid)

lemma walk_id:
  "list_all valid_comp cs \<Longrightarrow> walk st cs = rev cs @ st"
  by (induction cs arbitrary: st) (auto simp: clean_step_def valid_comp_def)

lemma walk_empty [simp]: "clean_step r st [] = st"
  by (simp add: clean_step_def)

definition resolve :: "string \<Rightarrow> string list" where
  "resolve p = rev (walk [] (split_on slash p))"

lemma list_all_rev [simp]: "list_all P (rev xs) = list_all P xs"
  by (auto simp: list_all_iff)

lemma resolve_valid [simp]: "list_all valid_comp (resolve p)"
  unfolding resolve_def by (simp add: walk_valid split_on_free)

lemma path_clean_rooted: "path_clean (slash # t) = abs_path (resolve (slash # t))"
  by (simp add: path_clean_def clean_comps_def abs_path_def resolve_def walk_def Let_def)

lemma resolve_slash_Cons [simp]: "resolve (slash # t) = resolve t"
  by (simp add: resolve_def)

lemma resolve_abs_path:
  assumes "list_all valid_comp cs" shows "resolve (abs_path cs) = cs"
proof (cases "cs = []")
  case True
  then show ?thesis by (simp add: resolve_def)
next
  case False
  then have "split_on slash (join_with ''/'' cs) = cs"
    using split_join valid_comps_no_slash [OF assms] by blast
  with assms show ?thesis by (simp add: abs_path_def resolve_def walk_id)
qed

lemma resolve_join: "resolve (a @ slash # b) = rev (walk (rev (resolve a)) (split_on slash b))"
  by (simp add: resolve_def split_on_append)

lemma path_clean_canonical [simp]: "canonical (path_clean (slash # t))"
  by (simp add: path_clean_rooted canonical_abs_path)

lemma path_comps_clean [simp]: "path_comps (path_clean (slash # t)) = resolve t"
  by (simp add: path_clean_rooted)

lemma path_clean_id: "canonical p \<Longrightarrow> path_clean p = p"
proof -
  assume c: "canonical p"
  then obtain cs where cs: "list_all valid_comp cs" "p = abs_path cs" by (rule canonicalE)
  then have "path_clean p = abs_path (resolve p)"
    using path_clean_rooted by (simp add: abs_path_def)
  with cs show ?thesis by (simp add: resolve_abs_path)
qed

lemma clean_valid_append:
  assumes "list_all valid_comp as" and "list_all valid_comp bs"
  shows "path_clean (abs_path as @ slash # join_with ''/'' bs) = abs_path (as @ bs)"
proof -
  have "resolve (abs_path as @ slash # join_with ''/'' bs) = as @ bs"
  proof (cases "bs = []")
    case True
    with assms show ?thesis by (simp add: resolve_join resolve_abs_path)
  next
    case False
    then have "split_on slash (join_with ''/'' bs) = bs"
      using split_join valid_comps_no_slash [OF assms(2)] by blast
    with assms show ?thesis by (simp add: resolve_join resolve_abs_path walk_id)
  qed
  then show ?thesis by (simp add: abs_path_def path_clean_rooted)
qed

text \<open>Joining two rooted clean paths concatenates their names.\<close>

lemma path_join_abs:
  assumes "list_all valid_comp as" and "list_all valid_comp bs"
  shows "path_join [abs_path as, abs_path bs] = abs_path (as @ bs)"
proof -
  have "path_join [abs_path as, abs_path bs]
      = path_clean (abs_path as @ slash # slash # join_with ''/'' bs)"
    by (simp add: path_join_def abs_path_def Let_def)
  also have "\<dots> = abs_path (resolve (abs_path as @ slash # slash # join_with ''/'' bs))"
    by (simp add: abs_path_def path_clean_rooted)
  also have "\<dots> = abs_path (resolve (abs_path as @ slash # join_with ''/'' bs))"
    by (simp add: resolve_join)
  also have "\<dots> = abs_path (as @ bs)"
    using clean_valid_append [OF assms] by (simp add: abs_path_def path_clean_rooted)
  finally show ?thesis .
qed

text \<open>Joining a name to a rooted clean path appends it.\<close>

lemma path_join_name:
  assumes "list_all valid_comp as" and "valid_comp c"
  shows "path_join [abs_path as, c] = abs_path (as @ [c])"
proof -
  have "path_join [abs_path as, c] = path_clean (abs_path as @ slash # c)"
    using assms by (simp add: path_join_def abs_path_def valid_comp_def Let_def)
  then show ?thesis using clean_valid_append [of as "[c]"] assms by simp
qed

lemma abs_path_snoc: "cs \<noteq> [] \<Longrightarrow> abs_path (cs @ [c]) = abs_path cs @ slash # c"
  by (simp add: abs_path_def join_with_append)

lemma path_split_snoc:
  assumes "list_all valid_comp cs" and "valid_comp c"
  shows "path_split (abs_path (cs @ [c])) =
    (if cs = [] then ''/'' else abs_path cs @ ''/'', c)"
proof (cases "cs = []")
  case True
  from assms(2) have "last_index_byte (slash # c) slash = Some 0"
    using last_index_byte_append [of slash c "[]"] by (simp add: valid_comp_def)
  with True show ?thesis by (simp add: path_split_def abs_path_def)
next
  case False
  from assms(2) have "last_index_byte (abs_path cs @ slash # c) slash = Some (length (abs_path cs))"
    by (simp add: valid_comp_def)
  with False show ?thesis by (simp add: path_split_def abs_path_snoc)
qed

lemma path_dir_snoc:
  assumes "list_all valid_comp cs" and "valid_comp c"
  shows "path_dir (abs_path (cs @ [c])) = abs_path cs"
proof (cases "cs = []")
  case True
  then show ?thesis
    using path_split_snoc [OF assms] path_clean_rooted [of "[]"]
    by (simp add: path_dir_def resolve_def)
next
  case False
  have "path_clean (abs_path cs @ slash # []) = abs_path cs"
    using clean_valid_append [OF assms(1), of "[]"] by simp
  with False show ?thesis using path_split_snoc [OF assms] by (simp add: path_dir_def)
qed

lemma path_dir_root [simp]: "path_dir ''/'' = ''/''"
  using path_clean_rooted [of "[]"] by (simp add: path_dir_def path_split_def resolve_def)

lemma path_base_snoc:
  assumes "list_all valid_comp cs" and "valid_comp c"
  shows "path_base (abs_path (cs @ [c])) = c"
proof -
  obtain r where r: "abs_path (cs @ [c]) = r @ c" and s: "path_split (abs_path (cs @ [c])) = (r, c)"
    using path_split_snoc [OF assms] abs_path_snoc [of cs c]
    by (cases "cs = []") (auto simp: abs_path_def)
  from assms(2) obtain d where d: "rev c = d # rev (butlast c)" "d \<noteq> slash" "c \<noteq> []"
    by (cases c rule: rev_cases) (auto simp: valid_comp_def)
  have "dropWhile (\<lambda>x. x = slash) (rev (r @ c)) = rev (r @ c)"
    unfolding rev_append d(1) using d(2) by simp
  with r s d(3) show ?thesis by (simp add: path_base_def Let_def abs_path_def)
qed

lemmas path_facts = canonical_abs_path path_join_abs path_join_name path_dir_snoc path_base_snoc

declare path_comps_abs_path [path_simps] path_comps_clean [path_simps]
  resolve_abs_path [path_simps] path_join_abs [path_simps] path_join_name [path_simps]
  path_dir_snoc [path_simps] path_base_snoc [path_simps]

end
