(* ===== verification/Paths.thy ===== *)
theory Paths
  imports GoPath
begin

text \<open>
  \<open>pkg/utils/path.go\<close> and \<open>pkg/utils/balance.go\<close>: normalisation of request paths, the
  sub-path test every permission check rests on, the join of a user's base path with a
  requested path, path hierarchies, mount path suffixes and URL encoding.  \<open>norm\<close> is the
  abstraction: the list of names a request path denotes.
\<close>

section \<open>The operations\<close>

datatype path_error = RelativePath

definition FixAndCleanPath :: "string \<Rightarrow> string" where
  "FixAndCleanPath path =
     (let path = replace_byte (CHR 0x5C) ''/'' path;
          path = (if \<not> has_prefix path ''/'' then ''/'' @ path else path)
      in path_clean path)"

definition PathAddSeparatorSuffix :: "string \<Rightarrow> string" where
  "PathAddSeparatorSuffix path =
     (if \<not> has_suffix path ''/'' then path @ ''/'' else path)"

definition PathEqual :: "string \<Rightarrow> string \<Rightarrow> bool" where
  "PathEqual path1 path2 \<longleftrightarrow> FixAndCleanPath path1 = FixAndCleanPath path2"

definition IsSubPath :: "string \<Rightarrow> string \<Rightarrow> bool" where
  "IsSubPath path subPath =
     (let path = FixAndCleanPath path; subPath = FixAndCleanPath subPath
      in path = subPath \<or> has_prefix subPath (PathAddSeparatorSuffix path))"

definition SourceExt :: "string \<Rightarrow> string" where
  "SourceExt path =
     (let ext = path_ext path
      in if 0 < length ext \<and> ext ! 0 = CHR ''.'' then drop 1 ext else ext)"

text \<open>\<open>strings.ToLower\<close> needs the Unicode tables; it is the parameter \<open>lower\<close>.\<close>

definition Ext :: "(string \<Rightarrow> string) \<Rightarrow> string \<Rightarrow> string" where
  "Ext lower path = lower (SourceExt path)"

text \<open>\<open>url.PathEscape\<close> of the standard library, byte by byte.\<close>

definition hex_digit :: "nat \<Rightarrow> char" where
  "hex_digit n = (''0123456789ABCDEF'' ! n)"

definition segment_safe :: "char \<Rightarrow> bool" where
  "segment_safe c \<longleftrightarrow>
     is_digit c \<or> (65 \<le> byte c \<and> byte c \<le> 90) \<or> (97 \<le> byte c \<and> byte c \<le> 122) \<or>
     c \<in> set ''-_.~$&+:=@''"

definition path_escape :: "string \<Rightarrow> string" where
  "path_escape s = concat (map (\<lambda>c. if segment_safe c then [c]
     else [CHR ''%'', hex_digit (byte c div 16), hex_digit (byte c mod 16)]) s)"

definition toReplace :: "(char \<times> string) list" where
  "toReplace =
     [(CHR ''%'', ''%25''), (CHR ''%'', ''%25''), (CHR ''?'', ''%3F''), (CHR ''#'', ''%23'')]"

definition EncodePath :: "string \<Rightarrow> bool list \<Rightarrow> string" where
  "EncodePath path all =
     join_with ''/'' (map (\<lambda>seg.
       if all \<noteq> [] \<and> hd all then path_escape seg
       else foldl (\<lambda>s r. replace_byte (fst r) (snd r) s) seg toReplace)
     (split_on slash path))"

definition JoinBasePath :: "string \<Rightarrow> string \<Rightarrow> path_error + string" where
  "JoinBasePath basePath reqPath =
     (let isRelativePath = contains_str reqPath ''..'';
          reqPath = FixAndCleanPath reqPath
      in if isRelativePath \<and> \<not> contains_str reqPath ''..'' then Inl RelativePath
         else Inr (path_join [FixAndCleanPath basePath, reqPath]))"

definition IsBalance :: "string \<Rightarrow> bool" where
  "IsBalance str \<longleftrightarrow> contains_str str ''.balance''"

definition GetActualMountPath :: "string \<Rightarrow> string" where
  "GetActualMountPath mountPath = (case last_index_str mountPath ''.balance'' of
      Some bIndex \<Rightarrow> take bIndex mountPath
    | None \<Rightarrow> mountPath)"

definition GetFullPath :: "string \<Rightarrow> string \<Rightarrow> string" where
  "GetFullPath mountPath path = path_join [GetActualMountPath mountPath, path]"

text \<open>The loop of \<open>GetPathHierarchy\<close>: \<open>cur\<close> is the string builder, \<open>h\<close> the result so far.\<close>

fun hierarchy_loop :: "string list \<Rightarrow> string \<Rightarrow> string list \<Rightarrow> string list" where
  "hierarchy_loop [] cur h = h"
| "hierarchy_loop (part # parts) cur h =
     (if part = [] then hierarchy_loop parts cur h
      else let cur' = cur @ ''/'' @ part in hierarchy_loop parts cur' (h @ [cur']))"

definition GetPathHierarchy :: "string \<Rightarrow> string list" where
  "GetPathHierarchy path =
     (if path = [] \<or> path = ''/'' then [''/'']
      else let path = FixAndCleanPath path;
               path = (if \<not> has_prefix path ''/'' then ''/'' @ path else path)
           in hierarchy_loop (split_on slash path) [] [''/''])"

section \<open>The names a request path denotes\<close>

definition norm :: "string \<Rightarrow> string list" where
  "norm p = resolve (replace_byte (CHR 0x5C) ''/'' p)"

lemma norm_valid [simp]: "list_all valid_comp (norm p)"
  by (simp add: norm_def)

lemma FixAndCleanPath_norm [path_simps]: "FixAndCleanPath p = abs_path (norm p)"
proof -
  let ?q = "replace_byte (CHR 0x5C) ''/'' p"
  have "has_prefix ?q ''/'' \<Longrightarrow> \<exists>t. ?q = slash # t"
    by (cases ?q) (auto simp: has_prefix_def)
  then show ?thesis
    by (auto simp: FixAndCleanPath_def norm_def path_clean_rooted Let_def)
qed

lemma replace_backslash_free: "CHR 0x5C \<notin> set s \<Longrightarrow> replace_byte (CHR 0x5C) ''/'' s = s"
  by (induction s) (auto simp: replace_byte_def)

lemma norm_abs_path [path_simps]:
  assumes "list_all valid_comp cs" and "\<forall>c \<in> set cs. CHR 0x5C \<notin> set c"
  shows "norm (abs_path cs) = cs"
proof -
  have "CHR 0x5C \<notin> set (join_with ''/'' cs)"
    using assms(2) by (induction cs) (auto simp: join_with_Cons)
  then have "CHR 0x5C \<notin> set (abs_path cs)" by (simp add: abs_path_def)
  then show ?thesis
    by (simp add: norm_def replace_backslash_free resolve_abs_path [OF assms(1)])
qed

lemma walk_subset: "set (walk st cs) \<subseteq> set st \<union> set cs"
proof (induction cs arbitrary: st)
  case (Cons c cs)
  have "set (clean_step True st c) \<subseteq> insert c (set st)"
    by (auto simp: clean_step_def split: list.splits if_splits)
  with Cons [of "clean_step True st c"] show ?case by auto
qed simp

lemma split_on_set: "x \<in> set (split_on c s) \<Longrightarrow> set x \<subseteq> set s"
  by (induction s arbitrary: x) (fastforce split: list.splits if_splits)+

lemma norm_no_backslash: "c \<in> set (norm p) \<Longrightarrow> CHR 0x5C \<notin> set c"
proof -
  assume "c \<in> set (norm p)"
  then have "c \<in> set (split_on slash (replace_byte (CHR 0x5C) ''/'' p))"
    using walk_subset [of "[]"] by (auto simp: norm_def resolve_def)
  then have "set c \<subseteq> set (replace_byte (CHR 0x5C) ''/'' p)" by (rule split_on_set)
  moreover have "CHR 0x5C \<notin> set (replace_byte (CHR 0x5C) ''/'' p)"
    by (auto simp: replace_byte_def)
  ultimately show ?thesis by blast
qed

lemma norm_FixAndCleanPath [simp]: "norm (FixAndCleanPath p) = norm p"
  by (simp add: FixAndCleanPath_norm norm_abs_path norm_no_backslash)

lemma clean_twice [simp]: "FixAndCleanPath (FixAndCleanPath p) = FixAndCleanPath p"
  by (simp add: FixAndCleanPath_norm norm_abs_path norm_no_backslash)

lemma norm_root [simp]: "norm ''/'' = []"
  using norm_abs_path [of "[]"] by simp

lemma PathEqual_norm [path_simps]: "PathEqual p q \<longleftrightarrow> norm p = norm q"
  by (simp add: PathEqual_def FixAndCleanPath_norm abs_path_inj)

lemma PathAddSeparatorSuffix_abs:
  assumes "list_all valid_comp cs"
  shows "PathAddSeparatorSuffix (abs_path cs) = (if cs = [] then ''/'' else abs_path cs @ ''/'')"
proof (cases cs rule: rev_cases)
  case Nil
  then show ?thesis by (simp add: PathAddSeparatorSuffix_def has_suffix_def has_prefix_def)
next
  case (snoc bs b)
  with assms have b: "b \<noteq> []" "slash \<notin> set b" by (auto simp: valid_comp_def)
  obtain r where r: "abs_path cs = r @ b"
    using snoc abs_path_snoc [of bs b] by (cases "bs = []") (auto simp: abs_path_def)
  from b obtain d e where "rev b = d # e" "d \<noteq> slash"
    by (cases b rule: rev_cases) auto
  then have "\<not> has_suffix (abs_path cs) ''/''"
    by (simp add: has_suffix_def r has_prefix_def)
  with snoc show ?thesis by (simp add: PathAddSeparatorSuffix_def)
qed

text \<open>The prefix test on strings is the prefix order on lists of names.\<close>

lemma prefix_comps:
  assumes "as \<noteq> []" and "list_all valid_comp as" and "list_all valid_comp bs"
  shows "prefix (abs_path as @ ''/'') (abs_path bs) \<longleftrightarrow> strict_prefix as bs"
proof
  assume "strict_prefix as bs"
  then obtain c cs where "bs = as @ c # cs" by (auto elim: strict_prefixE')
  with assms(1) have "abs_path bs = abs_path as @ ''/'' @ join_with ''/'' (c # cs)"
    by (simp add: abs_path_def join_with_append)
  then show "prefix (abs_path as @ ''/'') (abs_path bs)" by (simp add: prefix_def)
next
  assume "prefix (abs_path as @ ''/'') (abs_path bs)"
  then obtain t where t: "abs_path bs = abs_path as @ slash # t" by (auto simp: prefix_def)
  then have eq: "join_with ''/'' bs = join_with ''/'' as @ slash # t" by (simp add: abs_path_def)
  have "split_on slash (join_with ''/'' as) = as"
    using split_join assms(1) valid_comps_no_slash [OF assms(2)] by blast
  moreover have "bs \<noteq> []" using eq by auto
  then have "split_on slash (join_with ''/'' bs) = bs"
    using split_join valid_comps_no_slash [OF assms(3)] by blast
  ultimately have "bs = as @ split_on slash t" using eq by (simp add: split_on_append)
  then show "strict_prefix as bs" by (simp add: strict_prefix_def)
qed

lemma IsSubPath_norm [path_simps]: "IsSubPath p q \<longleftrightarrow> prefix (norm p) (norm q)"
proof (cases "norm p = []")
  case True
  moreover have "PathAddSeparatorSuffix ''/'' = ''/''"
    using PathAddSeparatorSuffix_abs [of "[]"] by simp
  ultimately show ?thesis
    by (simp add: IsSubPath_def FixAndCleanPath_norm has_prefix_def abs_path_def Let_def)
next
  case False
  have "IsSubPath p q \<longleftrightarrow>
      norm p = norm q \<or> prefix (abs_path (norm p) @ ''/'') (abs_path (norm q))"
    using False by (simp add: IsSubPath_def FixAndCleanPath_norm PathAddSeparatorSuffix_abs
        has_prefix_prefix abs_path_inj)
  also have "\<dots> \<longleftrightarrow> norm p = norm q \<or> strict_prefix (norm p) (norm q)"
    using prefix_comps [OF False] by simp
  finally show ?thesis by (auto simp: strict_prefix_def)
qed

lemma JoinBasePath_norm:
  "JoinBasePath b r =
    (if contains_str r ''..'' \<and> \<not> contains_str (abs_path (norm r)) ''..'' then Inl RelativePath
     else Inr (abs_path (norm b @ norm r)))"
  by (simp add: JoinBasePath_def FixAndCleanPath_norm path_join_abs Let_def)

lemma norm_append_abs [path_simps]: "norm (abs_path (norm b @ norm r)) = norm b @ norm r"
  by (rule norm_abs_path) (auto simp: norm_no_backslash)

lemma hierarchy_loop_prefixes:
  assumes "list_all valid_comp bs"
  shows "hierarchy_loop bs (concat (map (\<lambda>c. slash # c) as)) h =
    h @ map (\<lambda>cs. concat (map (\<lambda>c. slash # c) (as @ cs))) (tl (prefixes bs))"
  using assms
proof (induction bs arbitrary: as h)
  case (Cons b bs)
  have "hierarchy_loop bs (concat (map (\<lambda>c. slash # c) (as @ [b])))
      (h @ [concat (map (\<lambda>c. slash # c) (as @ [b]))]) =
    h @ [concat (map (\<lambda>c. slash # c) (as @ [b]))] @
    map (\<lambda>cs. concat (map (\<lambda>c. slash # c) ((as @ [b]) @ cs))) (tl (prefixes bs))"
    using Cons.prems Cons.IH [of "as @ [b]"] by simp
  moreover obtain ps where "prefixes bs = [] # ps" by (cases bs) auto
  ultimately show ?case using Cons.prems by (simp add: valid_comp_def Let_def)
qed simp

lemma abs_path_concat: "cs \<noteq> [] \<Longrightarrow> abs_path cs = concat (map (\<lambda>c. slash # c) cs)"
proof (induction cs)
  case (Cons c cs)
  then show ?case by (cases cs) (auto simp: abs_path_def)
qed simp

lemma list_all_prefix: "prefix as bs \<Longrightarrow> list_all P bs \<Longrightarrow> list_all P as"
  by (auto simp: prefix_def)

lemma tl_prefixes_nonempty: "cs \<in> set (tl (prefixes bs)) \<Longrightarrow> cs \<noteq> []"
  by (cases bs) auto

lemma prefixes_hd_tl: "prefixes bs = [] # tl (prefixes bs)"
  by (cases bs) auto

section \<open>Correctness\<close>

text \<open>C34: A request path joined to a base path either is refused or lies inside the base:
  the result is a rooted path without empty, dot or dot-dot elements, below the base path, and
  it is exactly the names of the base followed by the names of the request.  No sequence of
  separators, backslashes or dots in the request leaves the tree of the user.\<close>

theorem JoinBasePath_confined:
  assumes "JoinBasePath basePath reqPath = Inr p"
  shows "canonical p \<and> IsSubPath basePath p \<and> norm p = norm basePath @ norm reqPath"
proof -
  from assms have p: "p = abs_path (norm basePath @ norm reqPath)"
    by (auto simp: JoinBasePath_norm split: if_splits)
  then show ?thesis by (simp add: canonical_abs_path path_simps)
qed

theorem JoinBasePath_confined_witness:
  "JoinBasePath ''/home/u'' ''docs//./a'' = Inr ''/home/u/docs/a'' \<and>
   IsSubPath ''/home/u'' ''/home/u/docs/a''"
proof -
  have j: "JoinBasePath ''/home/u'' ''docs//./a'' = Inr ''/home/u/docs/a''" by code_simp
  from JoinBasePath_confined [OF j] j show ?thesis by simp
qed

text \<open>The relative-path check is not what confines a request: a request that walks up
  with a dot-dot element is accepted whenever its cleaned form still contains two adjacent dots
  inside a name, although the error of the check says that relative paths are not allowed.\<close>

theorem JoinBasePath_relative_accepted:
  "JoinBasePath ''/u'' ''x/../../a..b'' = Inr ''/u/a..b'' \<and>
   JoinBasePath ''/u'' ''x/../../ab'' = Inl RelativePath"
  by code_simp

text \<open>The sub-path test on strings is the prefix order on the names the two paths
  denote, so \<open>/ab\<close> is not below \<open>/a\<close>, and the root is above every path.\<close>

theorem IsSubPath_prefix_order:
  "IsSubPath path subPath \<longleftrightarrow> prefix (norm path) (norm subPath)"
  by (rule IsSubPath_norm)

text \<open>Normalisation yields a rooted clean path and is idempotent, and it leaves a rooted
  clean path without backslashes alone.\<close>

theorem FixAndCleanPath_normal_form:
  "canonical (FixAndCleanPath p) \<and> FixAndCleanPath (FixAndCleanPath p) = FixAndCleanPath p \<and>
   (canonical p \<and> CHR 0x5C \<notin> set p \<longrightarrow> FixAndCleanPath p = p)"
proof -
  have "canonical p \<and> CHR 0x5C \<notin> set p \<Longrightarrow> FixAndCleanPath p = p"
    using path_clean_id [of p]
    by (cases p) (auto simp: FixAndCleanPath_def replace_backslash_free canonical_def has_prefix_def)
  then show ?thesis
    using norm_FixAndCleanPath [of p]
    by (auto simp: FixAndCleanPath_norm canonical_abs_path)
qed

theorem FixAndCleanPath_normal_form_witness: "FixAndCleanPath ''/a/b'' = ''/a/b''"
proof -
  have "canonical ''/a/b''" by code_simp
  then show ?thesis using FixAndCleanPath_normal_form [of "''/a/b''"] by simp
qed

text \<open>The hierarchy of a path is the list of its ancestors, from the root to the path
  itself, each exactly once.\<close>

theorem GetPathHierarchy_ancestors:
  "GetPathHierarchy path = map abs_path (prefixes (norm path)) \<and> distinct (GetPathHierarchy path)"
proof -
  have "GetPathHierarchy path = map abs_path (prefixes (norm path))"
  proof (cases "path = [] \<or> path = ''/''")
    case True
    then have "norm path = []" by (auto simp: norm_def resolve_def replace_byte_def)
    with True show ?thesis by (auto simp: GetPathHierarchy_def)
  next
    case False
    have "hierarchy_loop (split_on slash (abs_path (norm path))) [] [''/''] =
        hierarchy_loop (norm path) (concat (map (\<lambda>c. slash # c) [])) [''/'']"
      using split_join [of "norm path" slash] valid_comps_no_slash [OF norm_valid [of path]]
      by (cases "norm path = []") (auto simp: abs_path_def)
    also have "\<dots> = [''/''] @ map (\<lambda>cs. concat (map (\<lambda>c. slash # c) ([] @ cs))) (tl (prefixes (norm path)))"
      by (rule hierarchy_loop_prefixes) simp
    also have "\<dots> = map abs_path ([] # tl (prefixes (norm path)))"
      by (auto simp: abs_path_concat tl_prefixes_nonempty)
    also have "\<dots> = map abs_path (prefixes (norm path))"
      by (simp only: prefixes_hd_tl [symmetric])
    finally show ?thesis
      using False by (simp add: GetPathHierarchy_def FixAndCleanPath_norm Let_def has_prefix_def abs_path_def)
  qed
  moreover have "inj_on abs_path (set (prefixes (norm path)))"
  proof (rule inj_onI)
    fix xs ys
    assume "xs \<in> set (prefixes (norm path))" and "ys \<in> set (prefixes (norm path))"
      and eq: "abs_path xs = abs_path ys"
    then have "list_all valid_comp xs" and "list_all valid_comp ys"
      using list_all_prefix [OF _ norm_valid] by auto
    with eq show "xs = ys" using abs_path_inj by blast
  qed
  ultimately show ?thesis by (simp add: distinct_map distinct_prefixes)
qed

section \<open>URL encoding of paths\<close>

text \<open>\<open>url.PathUnescape\<close> of the standard library: a percent sign needs two hex digits.\<close>

definition hex_value :: "char \<Rightarrow> nat option" where
  "hex_value c =
     (if is_digit c then Some (byte c - 48)
      else if 65 \<le> byte c \<and> byte c \<le> 70 then Some (byte c - 55)
      else if 97 \<le> byte c \<and> byte c \<le> 102 then Some (byte c - 87)
      else None)"

fun path_unescape :: "string \<Rightarrow> string option" where
  "path_unescape [] = Some []"
| "path_unescape (c # cs) =
     (if c = CHR ''%'' then
        (case cs of
           a # b # rest \<Rightarrow>
             (case (hex_value a, hex_value b) of
                (Some x, Some y) \<Rightarrow> map_option (Cons (char_of (16 * x + y))) (path_unescape rest)
              | _ \<Rightarrow> None)
         | _ \<Rightarrow> None)
      else map_option (Cons c) (path_unescape cs))"

lemma hex_digit_facts:
  assumes "n < 16"
  shows "hex_value (hex_digit n) = Some n \<and> hex_digit n \<noteq> slash"
proof -
  from assms have "n \<in> set [0..<16]" by simp
  then show ?thesis
    by (simp add: upt_rec hex_digit_def hex_value_def is_digit_def byte_def) (elim disjE; simp)
qed

lemma path_unescape_escape: "path_unescape (path_escape s) = Some s"
proof (induction s)
  case (Cons c s)
  have b: "byte c < 256" by (simp add: byte_def)
  then have "byte c div 16 < 16" by simp
  with hex_digit_facts have "hex_value (hex_digit (byte c div 16)) = Some (byte c div 16)"
    and "hex_value (hex_digit (byte c mod 16)) = Some (byte c mod 16)" by simp_all
  moreover have "char_of (16 * (byte c div 16) + byte c mod 16) = c"
    by (simp add: byte_def)
  moreover have "segment_safe c \<Longrightarrow> c \<noteq> CHR ''%''"
    by (auto simp: segment_safe_def is_digit_def byte_def)
  ultimately show ?case using Cons by (simp add: path_escape_def)
qed (simp add: path_escape_def)

lemma path_escape_no_slash: "slash \<notin> set s \<Longrightarrow> slash \<notin> set (path_escape s)"
proof -
  have "slash \<noteq> hex_digit (byte c div 16) \<and> slash \<noteq> hex_digit (byte c mod 16)" for c
  proof -
    have "byte c < 256" by (simp add: byte_def)
    then have "byte c div 16 < 16" and "byte c mod 16 < 16" by simp_all
    then show ?thesis using hex_digit_facts by fastforce
  qed
  then show "slash \<notin> set s \<Longrightarrow> slash \<notin> set (path_escape s)"
    by (auto simp: path_escape_def split: if_splits)
qed

text \<open>With full encoding, unescaping every element of the encoded path gives back the
  elements of the path.\<close>

theorem EncodePath_all_roundtrip:
  "map path_unescape (split_on slash (EncodePath path [True])) = map Some (split_on slash path)"
proof -
  have "split_on slash (EncodePath path [True]) = map path_escape (split_on slash path)"
    unfolding EncodePath_def
    by (subst split_join) (auto simp: path_escape_no_slash split_on_free)
  then show ?thesis by (simp add: path_unescape_escape)
qed

text \<open>Without full encoding the percent sign is encoded twice, because the replacement table
  lists it twice: \<open>%\<close> becomes \<open>%2525\<close>, so the encoded path names another file after decoding.\<close>

theorem EncodePath_percent_twice:
  "EncodePath ''100%'' [] = ''100%2525'' \<and> path_unescape (EncodePath ''100%'' []) = Some ''100%25''"
  by code_simp

end
