(* ===== verification/Locks.thy ===== *)
theory Locks
  imports ExpiryHeap Paths GoStrconv "HOL-Library.Word"
begin

text \<open>
  \<open>server/webdav/lock.go\<close>: the in-memory WebDAV lock system.  The state is the \<open>memLS\<close>
  struct with a store for the nodes its maps, its queue and the callers point to; each
  operation is a function of the state that may panic.  Times and durations are integers of
  nanoseconds; a lock name is a rooted clean path, and the proofs read it as its list of
  names.  The operations hold the mutex from start to end, so a run of the system is a
  sequence of them: the relation \<open>ls_reach\<close> in \<open>LockSystem\<close>.
\<close>

section \<open>The state\<close>

record memLS =
  byName :: "string \<Rightarrow> nat option"
  byToken :: "string \<Rightarrow> nat option"
  gen :: "64 word"
  byExpiry :: "nat list"
  nodes :: nodes
  fresh :: nat

datatype lock_error = ErrConfirmationFailed | ErrForbidden | ErrLocked | ErrNoSuchLock | ErrInvalidTimeout

record Condition =
  Not :: bool
  Token :: string
  ETag :: string

definition new_node :: "string \<Rightarrow> memLSNode" where
  "new_node name =
     \<lparr>details = \<lparr>Root = name, Duration = 0, OwnerXML = [], ZeroDepth = False\<rparr>, token = [],
      refCount = 0, expiry = 0, byExpiryIndex = -1, held = False\<rparr>"

definition NewMemLS :: "64 word \<Rightarrow> memLS" where
  "NewMemLS unix = \<lparr>byName = (\<lambda>_. None), byToken = (\<lambda>_. None), gen = unix, byExpiry = [],
     nodes = (\<lambda>_. new_node []), fresh = 0\<rparr>"

abbreviation heap_of :: "memLS \<Rightarrow> heap" where
  "heap_of m \<equiv> (byExpiry m, nodes m)"

definition on_heap :: "(heap \<Rightarrow> heap) \<Rightarrow> memLS \<Rightarrow> memLS" where
  "on_heap f m = m\<lparr>byExpiry := fst (f (heap_of m)), nodes := snd (f (heap_of m))\<rparr>"

definition upd_node :: "nat \<Rightarrow> (memLSNode \<Rightarrow> memLSNode) \<Rightarrow> memLS \<Rightarrow> memLS" where
  "upd_node a f m = m\<lparr>nodes := (nodes m)(a := f (nodes m a))\<rparr>"

section \<open>Names\<close>

definition slashClean :: "string \<Rightarrow> string" where
  "slashClean name =
     path_clean (if name = [] \<or> hd name \<noteq> slash then slash # name else name)"

text \<open>The loop of \<open>walkToRoot\<close>; a name with no slash makes its slice expression panic.\<close>

function walkToRoot ::
  "(string \<Rightarrow> bool \<Rightarrow> 's \<Rightarrow> (bool \<times> 's) go) \<Rightarrow> string \<Rightarrow> bool \<Rightarrow> 's \<Rightarrow> (bool \<times> 's) go" where
  "walkToRoot f name first s =
     (case f name first s of
        Panic \<Rightarrow> Panic
      | Return (b, s') \<Rightarrow>
          if \<not> b then Return (False, s')
          else if name = ''/'' then Return (True, s')
          else (case last_index_byte name slash of
              None \<Rightarrow> Panic
            | Some i \<Rightarrow> walkToRoot f (if i = 0 then ''/'' else take i name) False s'))"
  by pat_completeness auto
termination
proof (relation "measure (\<lambda>(f, name, first, s). length name)", goal_cases)
  case (2 f name first s x b s' i)
  then have "i < length name" "name ! i = slash" by (auto dest: last_index_byte_Some)
  then show ?case using 2(4) by (cases name) (auto split: if_splits)
qed simp

declare walkToRoot.simps [simp del]

section \<open>The operations\<close>

definition nextToken :: "memLS \<Rightarrow> string \<times> memLS" where
  "nextToken m = (let g = gen m + 1 in (show_nat (unat g), m\<lparr>gen := g\<rparr>))"

definition remove_step :: "string \<Rightarrow> bool \<Rightarrow> memLS \<Rightarrow> (bool \<times> memLS) go" where
  "remove_step name0 first m =
     (case byName m name0 of
        None \<Rightarrow> Panic
      | Some x \<Rightarrow>
          let m = upd_node x (\<lambda>n. n\<lparr>refCount := refCount n - 1\<rparr>) m
          in Return (True,
               if refCount (nodes m x) = 0 then m\<lparr>byName := (byName m)(name0 := None)\<rparr> else m))"

definition remove :: "nat \<Rightarrow> memLS \<Rightarrow> memLS go" where
  "remove n m =
     (let m = m\<lparr>byToken := (byToken m)(token (nodes m n) := None)\<rparr>;
          m = upd_node n (\<lambda>x. x\<lparr>token := []\<rparr>) m
      in go_bind (walkToRoot remove_step (Root (details (nodes m n))) True m) (\<lambda>(_, m).
           Return (if 0 \<le> byExpiryIndex (nodes m n) then on_heap (heap_remove_node n) m else m)))"

text \<open>
  The collecting loop runs at most once per member of the queue; the fuel is the length of
  the queue plus one, and running out is shown not to happen.
\<close>

fun collect_loop :: "nat \<Rightarrow> int \<Rightarrow> memLS \<Rightarrow> memLS go" where
  "collect_loop 0 now m = Panic"
| "collect_loop (Suc k) now m =
     (case byExpiry m of
        [] \<Rightarrow> Return m
      | a # _ \<Rightarrow>
          if now < expiry (nodes m a) then Return m
          else go_bind (remove a m) (collect_loop k now))"

definition collectExpiredNodes :: "int \<Rightarrow> memLS \<Rightarrow> memLS go" where
  "collectExpiredNodes now m = collect_loop (Suc (length (byExpiry m))) now m"

fun lookup :: "memLS \<Rightarrow> string \<Rightarrow> Condition list \<Rightarrow> nat option" where
  "lookup m name [] = None"
| "lookup m name (c # cs) =
     (case byToken m (Token c) of
        None \<Rightarrow> lookup m name cs
      | Some a \<Rightarrow>
          let n = nodes m a
          in if held n then lookup m name cs
             else if name = Root (details n) then Some a
             else if ZeroDepth (details n) then lookup m name cs
             else if Root (details n) = ''/'' \<or> has_prefix name (Root (details n) @ ''/'') then Some a
             else lookup m name cs)"

definition hold :: "nat \<Rightarrow> memLS \<Rightarrow> memLS go" where
  "hold n m =
     (if held (nodes m n) then Panic
      else let m = upd_node n (\<lambda>x. x\<lparr>held := True\<rparr>) m
           in Return (if 0 \<le> Duration (details (nodes m n)) \<and> 0 \<le> byExpiryIndex (nodes m n)
                      then on_heap (heap_remove_node n) m else m))"

definition unhold :: "nat \<Rightarrow> memLS \<Rightarrow> memLS go" where
  "unhold n m =
     (if \<not> held (nodes m n) then Panic
      else let m = upd_node n (\<lambda>x. x\<lparr>held := False\<rparr>) m
           in Return (if 0 \<le> Duration (details (nodes m n)) then on_heap (heap_push n) m else m))"

definition hold_opt :: "nat option \<Rightarrow> memLS \<Rightarrow> memLS go" where
  "hold_opt n m = (case n of None \<Rightarrow> Return m | Some a \<Rightarrow> hold a m)"

definition unhold_opt :: "nat option \<Rightarrow> memLS \<Rightarrow> memLS go" where
  "unhold_opt n m = (case n of None \<Rightarrow> Return m | Some a \<Rightarrow> unhold a m)"

text \<open>\<open>Confirm\<close> returns the variables its release closure captures.\<close>

definition Confirm :: "int \<Rightarrow> string \<Rightarrow> string \<Rightarrow> Condition list \<Rightarrow> memLS
    \<Rightarrow> ((lock_error + (nat option \<times> nat option)) \<times> memLS) go" where
  "Confirm now name0 name1 conditions m =
     go_bind (collectExpiredNodes now m) (\<lambda>m.
       let n0 = (if name0 \<noteq> [] then lookup m (slashClean name0) conditions else None);
           n1 = (if name1 \<noteq> [] then lookup m (slashClean name1) conditions else None)
       in if name0 \<noteq> [] \<and> n0 = None then Return (Inl ErrConfirmationFailed, m)
          else if name1 \<noteq> [] \<and> n1 = None then Return (Inl ErrConfirmationFailed, m)
          else let n1 = (if n1 = n0 then None else n1)
               in go_bind (hold_opt n0 m) (\<lambda>m.
                    go_bind (hold_opt n1 m) (\<lambda>m. Return (Inr (n0, n1), m))))"

definition Release :: "nat option \<times> nat option \<Rightarrow> memLS \<Rightarrow> memLS go" where
  "Release r m = go_bind (unhold_opt (snd r) m) (unhold_opt (fst r))"

definition canCreate_step :: "bool \<Rightarrow> string \<Rightarrow> bool \<Rightarrow> memLS \<Rightarrow> (bool \<times> memLS) go" where
  "canCreate_step zeroDepth name0 first m =
     Return ((case byName m name0 of
        None \<Rightarrow> True
      | Some a \<Rightarrow>
          let n = nodes m a
          in if first then
               if token n \<noteq> [] then False else if \<not> zeroDepth then False else True
             else if token n \<noteq> [] \<and> \<not> ZeroDepth (details n) then False
             else True), m)"

definition canCreate :: "string \<Rightarrow> bool \<Rightarrow> memLS \<Rightarrow> bool go" where
  "canCreate name zeroDepth m =
     go_bind (walkToRoot (canCreate_step zeroDepth) name True m) (\<lambda>(b, _). Return b)"

definition create_step ::
  "string \<Rightarrow> bool \<Rightarrow> nat option \<times> memLS \<Rightarrow> (bool \<times> nat option \<times> memLS) go" where
  "create_step name0 first rm =
     (let (ret, m) = rm;
          (n, m) = (case byName m name0 of
              None \<Rightarrow> (fresh m,
                m\<lparr>nodes := (nodes m)(fresh m := new_node name0),
                  byName := (byName m)(name0 := Some (fresh m)), fresh := Suc (fresh m)\<rparr>)
            | Some a \<Rightarrow> (a, m));
          m = upd_node n (\<lambda>x. x\<lparr>refCount := refCount x + 1\<rparr>) m
      in Return (True, if first then Some n else ret, m))"

definition create :: "string \<Rightarrow> memLS \<Rightarrow> (nat option \<times> memLS) go" where
  "create name m =
     go_bind (walkToRoot create_step name True (None, m)) (\<lambda>(_, rm). Return rm)"

definition Create :: "int \<Rightarrow> LockDetails \<Rightarrow> memLS \<Rightarrow> ((lock_error + string) \<times> memLS) go" where
  "Create now d m =
     go_bind (collectExpiredNodes now m) (\<lambda>m.
       let d = d\<lparr>Root := slashClean (Root d)\<rparr>
       in go_bind (canCreate (Root d) (ZeroDepth d) m) (\<lambda>can.
            if \<not> can then Return (Inl ErrLocked, m)
            else go_bind (create (Root d) m) (\<lambda>(ret, m).
              case ret of
                None \<Rightarrow> Panic
              | Some n \<Rightarrow>
                  let (tok, m) = nextToken m;
                      m = upd_node n (\<lambda>x. x\<lparr>token := tok\<rparr>) m;
                      m = m\<lparr>byToken := (byToken m)(tok := Some n)\<rparr>;
                      m = upd_node n (\<lambda>x. x\<lparr>details := d\<rparr>) m;
                      m = (if 0 \<le> Duration (details (nodes m n)) then
                             on_heap (heap_push n)
                               (upd_node n (\<lambda>x. x\<lparr>expiry := now + Duration (details x)\<rparr>) m)
                           else m)
                  in Return (Inr (token (nodes m n)), m))))"

definition Refresh ::
  "int \<Rightarrow> string \<Rightarrow> int \<Rightarrow> memLS \<Rightarrow> ((lock_error + LockDetails) \<times> memLS) go" where
  "Refresh now tok duration m =
     go_bind (collectExpiredNodes now m) (\<lambda>m.
       case byToken m tok of
         None \<Rightarrow> Return (Inl ErrNoSuchLock, m)
       | Some n \<Rightarrow>
           if held (nodes m n) then Return (Inl ErrLocked, m)
           else
             let m = (if 0 \<le> byExpiryIndex (nodes m n) then on_heap (heap_remove_node n) m else m);
                 m = upd_node n (\<lambda>x. x\<lparr>details := (details x)\<lparr>Duration := duration\<rparr>\<rparr>) m;
                 m = (if 0 \<le> Duration (details (nodes m n)) then
                        on_heap (heap_push n)
                          (upd_node n (\<lambda>x. x\<lparr>expiry := now + Duration (details x)\<rparr>) m)
                      else m)
             in Return (Inr (details (nodes m n)), m))"

definition Unlock :: "int \<Rightarrow> string \<Rightarrow> memLS \<Rightarrow> (lock_error option \<times> memLS) go" where
  "Unlock now tok m =
     go_bind (collectExpiredNodes now m) (\<lambda>m.
       case byToken m tok of
         None \<Rightarrow> Return (Some ErrNoSuchLock, m)
       | Some n \<Rightarrow>
           if held (nodes m n) then Return (Some ErrLocked, m)
           else go_bind (remove n m) (\<lambda>m. Return (None, m)))"

section \<open>The Timeout header\<close>

definition infiniteTimeout :: int where
  "infiniteTimeout = -1"

definition parseTimeout :: "string \<Rightarrow> lock_error + int" where
  "parseTimeout s =
     (if s = [] then Inr infiniteTimeout
      else
        let s = (case index_byte s (CHR '','') of Some i \<Rightarrow> take i s | None \<Rightarrow> s);
            s = trim_space s
        in if s = ''Infinite'' then Inr infiniteTimeout
           else if \<not> has_prefix s ''Second-'' then Inl ErrInvalidTimeout
           else
             let s = drop 7 s
             in if s = [] \<or> \<not> is_digit (hd s) then Inl ErrInvalidTimeout
                else
                  let (n, ok) = ParseInt s
                  in if \<not> ok \<or> 4294967295 < n then Inl ErrInvalidTimeout
                     else Inr (i64 (n * 1000000000)))"

end
