(* ===== verification/LockInvariant.thy ===== *)
theory LockInvariant
  imports Locks
begin

text \<open>
  The invariant of the lock system and its preservation by the internal operations of
  \<open>server/webdav/lock.go\<close> (\<open>remove\<close>, \<open>create\<close>, \<open>hold\<close>, \<open>unhold\<close>, the heap updates).  The tree
  of names is read through \<open>cnt\<close>, the reference count stored for a name.
\<close>

section \<open>Walking to the root\<close>

definition ancestors :: "string list \<Rightarrow> string set" where
  "ancestors cs = abs_path ` {p. prefix p cs}"

lemma ancestors_Nil [simp]: "ancestors [] = {''/''}"
  by (auto simp: ancestors_def)

lemma ancestors_snoc: "ancestors (cs @ [c]) = insert (abs_path (cs @ [c])) (ancestors cs)"
  by (auto simp: ancestors_def)

lemma ancestors_self [simp]: "abs_path cs \<in> ancestors cs"
  by (simp add: ancestors_def)

lemma ancestors_iff:
  assumes "list_all valid_comp cs" and "list_all valid_comp p"
  shows "abs_path p \<in> ancestors cs \<longleftrightarrow> prefix p cs"
  using assms abs_path_inj list_all_prefix by (fastforce simp: ancestors_def image_iff)

lemma ancestors_fresh:
  assumes "list_all valid_comp (cs @ [c])"
  shows "abs_path (cs @ [c]) \<notin> ancestors cs"
  using ancestors_iff [of cs "cs @ [c]"] assms prefix_length_le by fastforce

lemma walkToRoot_root:
  "walkToRoot f ''/'' first s = go_bind (f ''/'' first s) (\<lambda>(b, s'). Return (b, s'))"
  by (subst walkToRoot.simps) (auto split: go.splits)

lemma walkToRoot_snoc:
  assumes "list_all valid_comp (cs @ [c])"
  shows "walkToRoot f (abs_path (cs @ [c])) first s =
    go_bind (f (abs_path (cs @ [c])) first s) (\<lambda>(b, s').
      if b then walkToRoot f (abs_path cs) False s' else Return (False, s'))"
proof -
  have c: "slash \<notin> set c" "abs_path (cs @ [c]) \<noteq> ''/''"
    using assms abs_path_root_iff [OF assms] by (auto simp: valid_comp_def)
  obtain p where p: "abs_path (cs @ [c]) = p @ slash # c"
    and q: "(if length p = 0 then ''/'' else p) = abs_path cs"
  proof (cases "cs = []")
    case True
    then show ?thesis using that [of "[]"] by (simp add: abs_path_def)
  next
    case False
    then show ?thesis using that [of "abs_path cs"] by (simp add: abs_path_snoc) (simp add: abs_path_def)
  qed
  show ?thesis
    using c p q by (subst walkToRoot.simps) (auto split: go.splits)
qed

section \<open>The counts of the names\<close>

definition cnt :: "memLS \<Rightarrow> string \<Rightarrow> int" where
  "cnt m nm = (case byName m nm of None \<Rightarrow> 0 | Some a \<Rightarrow> refCount (nodes m a))"

definition root_of :: "memLS \<Rightarrow> nat \<Rightarrow> string" where
  "root_of m a = Root (details (nodes m a))"

definition names_ok :: "memLS \<Rightarrow> bool" where
  "names_ok m \<longleftrightarrow> (\<forall>nm a. byName m nm = Some a \<longrightarrow>
     a < fresh m \<and> root_of m a = nm \<and> canonical nm \<and> 0 < refCount (nodes m a))"

text \<open>\<open>dropped A\<close>: one reference less for each name of \<open>A\<close>; \<open>grown A\<close>: one more.\<close>

definition dropped :: "string set \<Rightarrow> memLS \<Rightarrow> memLS \<Rightarrow> bool" where
  "dropped A m m' \<longleftrightarrow>
     (\<forall>nm. cnt m' nm = cnt m nm - (if nm \<in> A then 1 else 0)) \<and>
     (\<forall>nm. byName m' nm = (if cnt m' nm = 0 then None else byName m nm)) \<and>
     (\<forall>a. nodes m' a = (nodes m a)\<lparr>refCount := refCount (nodes m' a)\<rparr>) \<and>
     byToken m' = byToken m \<and> gen m' = gen m \<and> byExpiry m' = byExpiry m \<and> fresh m' = fresh m"

definition grown :: "string set \<Rightarrow> memLS \<Rightarrow> memLS \<Rightarrow> bool" where
  "grown A m m' \<longleftrightarrow>
     (\<forall>nm. cnt m' nm = cnt m nm + (if nm \<in> A then 1 else 0)) \<and>
     (\<forall>nm a. byName m nm = Some a \<longrightarrow> byName m' nm = Some a) \<and>
     (\<forall>a. token (nodes m' a) = token (nodes m a) \<and> held (nodes m' a) = held (nodes m a) \<and>
        byExpiryIndex (nodes m' a) = byExpiryIndex (nodes m a)) \<and>
     (\<forall>a < fresh m. details (nodes m' a) = details (nodes m a) \<and>
        expiry (nodes m' a) = expiry (nodes m a)) \<and>
     byToken m' = byToken m \<and> gen m' = gen m \<and> byExpiry m' = byExpiry m \<and> fresh m \<le> fresh m'"

definition blank_ok :: "memLS \<Rightarrow> bool" where
  "blank_ok m \<longleftrightarrow> (\<forall>a \<ge> fresh m. token (nodes m a) = [] \<and> \<not> held (nodes m a) \<and>
     byExpiryIndex (nodes m a) = -1)"

lemma names_ok_inj:
  "names_ok m \<Longrightarrow> byName m nm = Some a \<Longrightarrow> byName m nm' = Some a \<Longrightarrow> nm' = nm"
  unfolding names_ok_def by metis

lemma cnt_Some: "byName m nm = Some a \<Longrightarrow> cnt m nm = refCount (nodes m a)"
  by (simp add: cnt_def)

lemma names_ok_cnt: "names_ok m \<Longrightarrow> cnt m nm = 0 \<longleftrightarrow> byName m nm = None"
  unfolding names_ok_def cnt_def by (cases "byName m nm") (force split: option.splits)+

lemma cnt_nonneg: "names_ok m \<Longrightarrow> 0 \<le> cnt m nm"
  by (auto simp: names_ok_def cnt_def less_imp_le split: option.splits)

lemma dropped_trans:
  assumes "dropped A m m1" and "dropped B m1 m2" and "A \<inter> B = {}"
  shows "dropped (A \<union> B) m m2"
proof -
  have "byName m2 nm = (if cnt m2 nm = 0 then None else byName m nm)" for nm
  proof -
    have "cnt m2 nm = 0" if "byName m2 nm = None" using that by (simp add: cnt_def)
    then show ?thesis using assms(1,2) unfolding dropped_def by metis
  qed
  moreover have "cnt m2 nm = cnt m nm - (if nm \<in> A \<union> B then 1 else 0)" for nm
    using assms unfolding dropped_def by auto
  moreover have "nodes m2 a = (nodes m a)\<lparr>refCount := refCount (nodes m2 a)\<rparr>" for a
    using assms(1,2) unfolding dropped_def
    by (metis memLSNode.update_convs(3) memLSNode.surjective)
  moreover have "byToken m2 = byToken m \<and> gen m2 = gen m \<and> byExpiry m2 = byExpiry m \<and> fresh m2 = fresh m"
    using assms(1,2) unfolding dropped_def by simp
  ultimately show ?thesis unfolding dropped_def by blast
qed

lemma grown_trans:
  assumes "grown A m m1" and "grown B m1 m2" and "A \<inter> B = {}"
  shows "grown (A \<union> B) m m2"
  using assms unfolding grown_def by auto

lemma remove_step_dropped:
  assumes ok: "names_ok m" and pos: "0 < cnt m nm"
  shows "\<exists>m'. remove_step nm first m = Return (True, m') \<and> dropped {nm} m m' \<and> names_ok m'"
proof -
  from pos obtain a where a: "byName m nm = Some a" by (cases "byName m nm") (auto simp: cnt_def)
  let ?n = "(nodes m a)\<lparr>refCount := refCount (nodes m a) - 1\<rparr>"
  let ?m = "m\<lparr>nodes := (nodes m)(a := ?n)\<rparr>"
  let ?m' = "if refCount ?n = 0 then ?m\<lparr>byName := (byName m)(nm := None)\<rparr> else ?m"
  have r: "remove_step nm first m = Return (True, ?m')"
    by (simp add: remove_step_def a upd_node_def Let_def)
  have other: "b \<noteq> a" if "byName m x = Some b" "x \<noteq> nm" for x b
    using names_ok_inj [OF ok a] that by metis
  have bn: "byName ?m' x = (if x = nm \<and> refCount ?n = 0 then None else byName m x)" for x
    by simp
  have nd: "nodes ?m' = (nodes m)(a := ?n)" by simp
  have c: "cnt ?m' x = cnt m x - (if x \<in> {nm} then 1 else 0)" for x
    unfolding cnt_def bn nd using a other by (auto split: option.splits)
  have "byName ?m' x = (if cnt ?m' x = 0 then None else byName m x)" for x
    unfolding c bn using a names_ok_cnt [OF ok, of x] cnt_Some [OF a] by auto
  with c have "dropped {nm} m ?m'" unfolding dropped_def by (auto simp: nd)
  moreover have "names_ok ?m'"
  proof -
    have "x < fresh m \<and> root_of ?m' x = y \<and> canonical y \<and> 0 < refCount (nodes ?m' x)"
      if "byName ?m' y = Some x" for x y
    proof -
      from that have y: "byName m y = Some x" "y = nm \<Longrightarrow> refCount ?n \<noteq> 0"
        unfolding bn by (auto split: if_splits)
      then have "x < fresh m \<and> root_of m x = y \<and> canonical y \<and> 0 < refCount (nodes m x)"
        using ok unfolding names_ok_def by blast
      moreover have "x = a \<Longrightarrow> 1 < refCount (nodes m a)"
        using calculation y(2) other [OF y(1)] by force
      ultimately show ?thesis unfolding root_of_def nd by auto
    qed
    then show ?thesis unfolding names_ok_def by auto
  qed
  ultimately show ?thesis using r by blast
qed

lemma remove_walk:
  assumes "list_all valid_comp cs" and "names_ok m" and "\<And>nm. nm \<in> ancestors cs \<Longrightarrow> 0 < cnt m nm"
  shows "\<exists>m'. walkToRoot remove_step (abs_path cs) first m = Return (True, m') \<and>
    dropped (ancestors cs) m m' \<and> names_ok m'"
  using assms
proof (induction cs arbitrary: m first rule: rev_induct)
  case Nil
  then show ?case using remove_step_dropped [of m "''/''" first] by (auto simp: walkToRoot_root)
next
  case (snoc c cs)
  obtain m1 where m1: "remove_step (abs_path (cs @ [c])) first m = Return (True, m1)"
    "dropped {abs_path (cs @ [c])} m m1" "names_ok m1"
    using remove_step_dropped [OF snoc.prems(2) snoc.prems(3), of "abs_path (cs @ [c])" first] by auto
  note fr = ancestors_fresh [OF snoc.prems(1)]
  have "0 < cnt m1 nm" if "nm \<in> ancestors cs" for nm
    using snoc.prems(3) [of nm] that m1(2) fr by (auto simp: dropped_def ancestors_snoc)
  then obtain m2 where m2: "walkToRoot remove_step (abs_path cs) False m1 = Return (True, m2)"
    "dropped (ancestors cs) m1 m2" "names_ok m2"
    using snoc.IH [of m1 False] snoc.prems(1) m1(3) by auto
  have "dropped (ancestors (cs @ [c])) m m2"
    using dropped_trans [OF m1(2) m2(2)] fr by (simp add: ancestors_snoc)
  then show ?case using m1 m2 walkToRoot_snoc [OF snoc.prems(1), of remove_step first m] by simp
qed


lemma create_step_grown:
  assumes ok: "names_ok m" and bl: "blank_ok m" and nm: "canonical nm"
  shows "\<exists>m' n. create_step nm first (ret, m) = Return (True, if first then Some n else ret, m') \<and>
    grown {nm} m m' \<and> names_ok m' \<and> byName m' nm = Some n"
proof (cases "byName m nm")
  case None
  let ?a = "fresh m"
  let ?m' = "m\<lparr>byName := (byName m)(nm := Some ?a),
    nodes := (nodes m)(?a := (new_node nm)\<lparr>refCount := 1\<rparr>), fresh := Suc ?a\<rparr>"
  have r: "create_step nm first (ret, m) = Return (True, if first then Some ?a else ret, ?m')"
    by (simp add: create_step_def None upd_node_def Let_def new_node_def)
  have b: "token (nodes m ?a) = []" "\<not> held (nodes m ?a)" "byExpiryIndex (nodes m ?a) = -1"
    using bl by (simp_all add: blank_ok_def)
  have lt: "x < ?a" if "byName m y = Some x" for x y using ok that unfolding names_ok_def by blast
  have "cnt ?m' x = cnt m x + (if x \<in> {nm} then 1 else 0)" for x
    using lt None by (fastforce simp: cnt_def new_node_def split: option.splits)
  then have "grown {nm} m ?m'" using b None unfolding grown_def by (auto simp: new_node_def)
  moreover have "names_ok ?m'"
  proof -
    have "x < Suc ?a \<and> root_of ?m' x = y \<and> canonical y \<and> 0 < refCount (nodes ?m' x)"
      if "byName ?m' y = Some x" for x y
    proof -
      have "y \<noteq> nm \<Longrightarrow> byName m y = Some x" "y = nm \<Longrightarrow> x = ?a" using that by (auto split: if_splits)
      moreover have "root_of m x = y \<and> canonical y \<and> 0 < refCount (nodes m x)" if "byName m y = Some x"
        using ok that unfolding names_ok_def by blast
      ultimately show ?thesis
        using nm lt [of y x] by (cases "y = nm") (auto simp: root_of_def new_node_def)
    qed
    then show ?thesis unfolding names_ok_def by auto
  qed
  ultimately show ?thesis using r by fastforce
next
  case (Some a)
  let ?m' = "m\<lparr>nodes := (nodes m)(a := (nodes m a)\<lparr>refCount := refCount (nodes m a) + 1\<rparr>)\<rparr>"
  have r: "create_step nm first (ret, m) = Return (True, if first then Some a else ret, ?m')"
    by (simp add: create_step_def Some upd_node_def Let_def)
  have other: "b \<noteq> a" if "byName m x = Some b" "x \<noteq> nm" for x b
    using names_ok_inj [OF ok Some] that by metis
  have "cnt ?m' x = cnt m x + (if x \<in> {nm} then 1 else 0)" for x
    using Some other by (auto simp: cnt_def split: option.splits)
  then have "grown {nm} m ?m'" unfolding grown_def by auto
  moreover have "names_ok ?m'"
  proof -
    have "x < fresh m \<and> root_of ?m' x = y \<and> canonical y \<and> 0 < refCount (nodes ?m' x)"
      if "byName m y = Some x" for x y
    proof -
      have "x < fresh m \<and> root_of m x = y \<and> canonical y \<and> 0 < refCount (nodes m x)"
        using ok that unfolding names_ok_def by blast
      then show ?thesis by (auto simp: root_of_def)
    qed
    then show ?thesis unfolding names_ok_def by auto
  qed
  ultimately show ?thesis using r Some by fastforce
qed

lemma grown_blank: "grown A m m' \<Longrightarrow> blank_ok m \<Longrightarrow> blank_ok m'"
  unfolding grown_def blank_ok_def by auto

text \<open>After the first name the closure no longer sets the result.\<close>

lemma create_walk_rest:
  assumes "list_all valid_comp cs" and "names_ok m" and "blank_ok m"
  shows "\<exists>m'. walkToRoot create_step (abs_path cs) False (ret, m) = Return (True, ret, m') \<and>
    grown (ancestors cs) m m' \<and> names_ok m'"
  using assms
proof (induction cs arbitrary: m rule: rev_induct)
  case Nil
  then show ?case
    using create_step_grown [of m "''/''" False ret] canonical_abs_path [of "[]"]
    by (auto simp: walkToRoot_root)
next
  case (snoc c cs)
  obtain m1 where m1: "create_step (abs_path (cs @ [c])) False (ret, m) = Return (True, ret, m1)"
    "grown {abs_path (cs @ [c])} m m1" "names_ok m1"
    using create_step_grown [OF snoc.prems(2,3) canonical_abs_path [OF snoc.prems(1)], of False ret]
    by auto
  then obtain m2 where m2: "walkToRoot create_step (abs_path cs) False (ret, m1) = Return (True, ret, m2)"
    "grown (ancestors cs) m1 m2" "names_ok m2"
    using snoc.IH [of m1] snoc.prems grown_blank by auto
  have "grown (ancestors (cs @ [c])) m m2"
    using grown_trans [OF m1(2) m2(2)] ancestors_fresh [OF snoc.prems(1)] by (simp add: ancestors_snoc)
  then show ?case
    using m1 m2 walkToRoot_snoc [OF snoc.prems(1), of create_step False "(ret, m)"] by simp
qed

lemma create_walk:
  assumes cs: "list_all valid_comp cs" and ok: "names_ok m" and bl: "blank_ok m"
  shows "\<exists>m' n. create (abs_path cs) m = Return (Some n, m') \<and>
    grown (ancestors cs) m m' \<and> names_ok m' \<and> byName m' (abs_path cs) = Some n"
proof -
  obtain m1 n where m1: "create_step (abs_path cs) True (None, m) = Return (True, Some n, m1)"
    "grown {abs_path cs} m m1" "names_ok m1" "byName m1 (abs_path cs) = Some n"
    using create_step_grown [OF ok bl canonical_abs_path [OF cs], of True None] by auto
  show ?thesis
  proof (cases cs rule: rev_cases)
    case Nil
    with m1 show ?thesis by (auto simp: create_def walkToRoot_root)
  next
    case (snoc ds d)
    obtain m2 where m2: "walkToRoot create_step (abs_path ds) False (Some n, m1) = Return (True, Some n, m2)"
      "grown (ancestors ds) m1 m2" "names_ok m2"
      using create_walk_rest [of ds m1 "Some n"] cs snoc m1(3) grown_blank [OF m1(2) bl] by auto
    have "grown (ancestors cs) m m2"
      using grown_trans [OF m1(2) m2(2)] ancestors_fresh cs by (simp add: ancestors_snoc snoc)
    moreover have "byName m2 (abs_path cs) = Some n" using m1(4) m2(2) unfolding grown_def by blast
    moreover have "create (abs_path cs) m = Return (Some n, m2)"
      using m1(1) m2(1) cs walkToRoot_snoc [of ds d create_step True "(None, m)"]
      by (simp add: create_def snoc)
    ultimately show ?thesis using m2(3) by blast
  qed
qed

lemma canCreate_step_eq:
  "canCreate_step z nm first m = Return (fst_ok, m) \<longleftrightarrow>
     (fst_ok \<longleftrightarrow> (\<forall>a. byName m nm = Some a \<longrightarrow>
        (if first then token (nodes m a) = [] \<and> z
         else token (nodes m a) = [] \<or> ZeroDepth (details (nodes m a)))))"
  by (auto simp: canCreate_step_def Let_def split: option.splits)

text \<open>The names are passed if each of them passes.\<close>

definition passes :: "bool \<Rightarrow> memLS \<Rightarrow> bool \<Rightarrow> string \<Rightarrow> bool" where
  "passes z m first nm \<longleftrightarrow> (\<forall>a. byName m nm = Some a \<longrightarrow>
     (if first then token (nodes m a) = [] \<and> z
      else token (nodes m a) = [] \<or> ZeroDepth (details (nodes m a))))"

lemma canCreate_step_passes: "canCreate_step z nm first m = Return (passes z m first nm, m)"
  by (simp add: canCreate_step_eq passes_def)

lemma canCreate_walk_rest:
  assumes "list_all valid_comp cs"
  shows "walkToRoot (canCreate_step z) (abs_path cs) False m =
    Return (\<forall>nm \<in> ancestors cs. passes z m False nm, m)"
  using assms
proof (induction cs rule: rev_induct)
  case Nil
  then show ?case by (simp add: walkToRoot_root canCreate_step_passes)
next
  case (snoc c cs)
  then show ?case
    using walkToRoot_snoc [OF snoc.prems, of "canCreate_step z" False m]
    by (simp add: canCreate_step_passes [of z "abs_path (cs @ [c])"] ancestors_snoc)
qed

lemma canCreate_walk:
  assumes "list_all valid_comp cs"
  shows "canCreate (abs_path cs) z m = Return (passes z m True (abs_path cs) \<and>
    (\<forall>nm \<in> ancestors cs - {abs_path cs}. passes z m False nm))"
proof (cases cs rule: rev_cases)
  case Nil
  then show ?thesis by (simp add: canCreate_def walkToRoot_root canCreate_step_passes)
next
  case (snoc ds d)
  then have "ancestors cs - {abs_path cs} = ancestors ds"
    using ancestors_fresh [of ds d] assms by (auto simp: ancestors_snoc)
  then show ?thesis
    using walkToRoot_snoc [of ds d "canCreate_step z" True m] canCreate_walk_rest [of ds z m] assms
    by (simp add: canCreate_def snoc canCreate_step_passes [of z "abs_path (ds @ [d])"])
qed

end
