(* ===== verification/LockSystem.thy ===== *)
theory LockSystem
  imports LockInvariant
begin

text \<open>
  The contract of \<open>server/webdav/lock.go\<close>.  The invariant \<open>ls_ok\<close> ties the tree of names,
  the map of tokens and the queue to the set of locks; \<open>abs_locks\<close> is the abstract state, a
  finite map from tokens to locks, and each operation refines an operation on that map.
\<close>

section \<open>The invariant\<close>

definition locked :: "memLS \<Rightarrow> nat \<Rightarrow> bool" where
  "locked m a \<longleftrightarrow> token (nodes m a) \<noteq> []"

definition loc :: "memLS \<Rightarrow> nat \<Rightarrow> string list" where
  "loc m a = path_comps (root_of m a)"

definition locks_named :: "memLS \<Rightarrow> bool" where
  "locks_named m \<longleftrightarrow> (\<forall>a. locked m a \<longrightarrow> byName m (root_of m a) = Some a)"

definition tokens_ok :: "memLS \<Rightarrow> bool" where
  "tokens_ok m \<longleftrightarrow> (\<forall>t a. byToken m t = Some a \<longleftrightarrow> token (nodes m a) = t \<and> t \<noteq> [])"

definition under :: "memLS \<Rightarrow> string list \<Rightarrow> nat set" where
  "under m cs = {a. locked m a \<and> prefix cs (loc m a)}"

definition counts_ok :: "memLS \<Rightarrow> bool" where
  "counts_ok m \<longleftrightarrow>
     (\<forall>cs. list_all valid_comp cs \<longrightarrow> cnt m (abs_path cs) = int (card (under m cs)))"

definition queue_ok :: "memLS \<Rightarrow> bool" where
  "queue_ok m \<longleftrightarrow> heap_ok (heap_of m) \<and>
     set (byExpiry m) = {a. locked m a \<and> \<not> held (nodes m a) \<and> 0 \<le> Duration (details (nodes m a))}"

definition held_ok :: "memLS \<Rightarrow> bool" where
  "held_ok m \<longleftrightarrow> (\<forall>a. held (nodes m a) \<longrightarrow> locked m a)"

definition excl_ok :: "memLS \<Rightarrow> bool" where
  "excl_ok m \<longleftrightarrow> (\<forall>a b. locked m a \<and> locked m b \<and> a \<noteq> b \<and> prefix (loc m a) (loc m b) \<longrightarrow>
     ZeroDepth (details (nodes m a)))"

definition ls_ok :: "memLS \<Rightarrow> bool" where
  "ls_ok m \<longleftrightarrow> names_ok m \<and> locks_named m \<and> tokens_ok m \<and> counts_ok m \<and> queue_ok m \<and>
     held_ok m \<and> excl_ok m"

definition same_info :: "memLSNode \<Rightarrow> memLSNode \<Rightarrow> bool" where
  "same_info n n' \<longleftrightarrow> token n' = token n \<and> details n' = details n \<and> held n' = held n \<and> expiry n' = expiry n"

lemma same_info_refl [simp]: "same_info n n"
  by (simp add: same_info_def)

lemma same_info_trans: "same_info a b \<Longrightarrow> same_info b c \<Longrightarrow> same_info a c"
  by (simp add: same_info_def)

lemma same_nodes_info: "same_nodes ns ns' \<Longrightarrow> same_info (ns a) (ns' a)"
  by (simp add: same_info_def same_nodes_fields)

lemma locked_root:
  assumes "ls_ok m" and "locked m a"
  shows "canonical (root_of m a)" and "a < fresh m" and "list_all valid_comp (loc m a)"
    and "abs_path (loc m a) = root_of m a"
proof -
  have "byName m (root_of m a) = Some a" using assms by (simp add: ls_ok_def locks_named_def)
  moreover have "names_ok m" using assms(1) by (simp add: ls_ok_def)
  ultimately show c: "canonical (root_of m a)" and "a < fresh m" unfolding names_ok_def by blast+
  then show "list_all valid_comp (loc m a)" and "abs_path (loc m a) = root_of m a"
    by (simp_all add: loc_def canonical_def abs_path_path_comps)
qed

lemma loc_inj:
  assumes "ls_ok m" and "locked m a" and "locked m b" and "loc m a = loc m b"
  shows "a = b"
proof -
  have "root_of m a = root_of m b" using assms locked_root(4) by metis
  moreover have "locks_named m" using assms(1) by (simp add: ls_ok_def)
  ultimately show ?thesis using assms(2,3) unfolding locks_named_def by (metis option.inject)
qed

lemma finite_locked: "ls_ok m \<Longrightarrow> finite {a. locked m a}"
  by (rule finite_subset [of _ "{..<fresh m}"]) (auto simp: locked_root)

lemma finite_under: "ls_ok m \<Longrightarrow> finite (under m cs)"
  by (rule finite_subset [OF _ finite_locked]) (auto simp: under_def)

lemma ls_ok_blank: "ls_ok m \<Longrightarrow> blank_ok m"
proof -
  assume ok: "ls_ok m"
  have "\<not> locked m a" if "fresh m \<le> a" for a using locked_root(2) [OF ok, of a] that by auto
  moreover have "byExpiryIndex (nodes m a) = -1" if "fresh m \<le> a" for a
  proof -
    have "a \<notin> set (byExpiry m)" using ok calculation [OF that] by (simp add: ls_ok_def queue_ok_def)
    then show ?thesis using ok by (simp add: ls_ok_def queue_ok_def heap_ok_def idx_ok_def)
  qed
  ultimately show ?thesis using ok by (auto simp: blank_ok_def locked_def ls_ok_def held_ok_def)
qed

lemma queue_member:
  "queue_ok m \<Longrightarrow> 0 \<le> byExpiryIndex (nodes m a) \<longleftrightarrow>
     locked m a \<and> \<not> held (nodes m a) \<and> 0 \<le> Duration (details (nodes m a))"
  using idx_member [of "heap_of m" a] by (simp add: queue_ok_def heap_ok_def)

section \<open>The queue in the state\<close>

lemma on_heap_simps [simp]:
  "byName (on_heap f m) = byName m" "byToken (on_heap f m) = byToken m" "gen (on_heap f m) = gen m"
  "fresh (on_heap f m) = fresh m" "heap_of (on_heap f m) = f (heap_of m)"
  "byExpiry (on_heap f m) = fst (f (heap_of m))" "nodes (on_heap f m) = snd (f (heap_of m))"
  by (simp_all add: on_heap_def)

lemma dequeue:
  assumes ok: "heap_ok (heap_of m)"
    and m': "m' = (if 0 \<le> byExpiryIndex (nodes m a) then on_heap (heap_remove_node a) m else m)"
  shows "heap_ok (heap_of m')" "set (byExpiry m') = set (byExpiry m) - {a}"
    "same_nodes (nodes m) (nodes m')" "byName m' = byName m" "byToken m' = byToken m"
    "gen m' = gen m" "fresh m' = fresh m" "length (byExpiry m') \<le> length (byExpiry m)"
    "a \<in> set (byExpiry m) \<Longrightarrow> length (byExpiry m') < length (byExpiry m)"
proof -
  have mem: "0 \<le> byExpiryIndex (nodes m a) \<longleftrightarrow> a \<in> set (byExpiry m)"
    using idx_member [of "heap_of m" a] ok by (simp add: heap_ok_def)
  have "heap_ok (heap_of m') \<and> set (byExpiry m') = set (byExpiry m) - {a} \<and>
    same_nodes (nodes m) (nodes m') \<and> length (byExpiry m') \<le> length (byExpiry m) \<and>
    (a \<in> set (byExpiry m) \<longrightarrow> length (byExpiry m') < length (byExpiry m))"
  proof (cases "a \<in> set (byExpiry m)")
    case True
    then have a: "a \<in> set (fst (heap_of m))" by simp
    have "m' = on_heap (heap_remove_node a) m" using True by (simp add: m' mem)
    then show ?thesis
      using hq.inv_removal [OF ok a] hq.set_removal [OF ok a] hq.same_removal [OF ok a]
        hq.removal_shorter [OF ok a] by (simp add: prod.expand)
  next
    case False
    then show ?thesis using ok by (simp add: m' mem)
  qed
  then show "heap_ok (heap_of m')" "set (byExpiry m') = set (byExpiry m) - {a}"
    "same_nodes (nodes m) (nodes m')" "length (byExpiry m') \<le> length (byExpiry m)"
    "a \<in> set (byExpiry m) \<Longrightarrow> length (byExpiry m') < length (byExpiry m)" by blast+
qed (simp_all add: m')

lemma enqueue:
  assumes ok: "heap_ok (heap_of m)" and new: "a \<notin> set (byExpiry m)"
    and m': "m' = (if b then on_heap (heap_push a) m else m)"
  shows "heap_ok (heap_of m')" "set (byExpiry m') = (if b then insert a (set (byExpiry m)) else set (byExpiry m))"
    "same_nodes (nodes m) (nodes m')" "byName m' = byName m" "byToken m' = byToken m"
    "gen m' = gen m" "fresh m' = fresh m"
proof -
  have new': "a \<notin> set (fst (heap_of m))" using new by simp
  show "heap_ok (heap_of m')" using hq.inv_push [OF ok new'] ok by (simp add: m')
  show "set (byExpiry m') = (if b then insert a (set (byExpiry m)) else set (byExpiry m))"
    using hq.set_push [OF ok new'] by (simp add: m')
  show "same_nodes (nodes m) (nodes m')" using hq.same_push [OF ok new'] by (simp add: m')
qed (simp_all add: m')

section \<open>Removal\<close>

lemma cnt_cong:
  "byName m' = byName m \<Longrightarrow> (\<And>a. refCount (nodes m' a) = refCount (nodes m a)) \<Longrightarrow> cnt m' = cnt m"
  by (auto simp: cnt_def fun_eq_iff split: option.splits)

lemma names_ok_cong:
  assumes "byName m' = byName m" and "\<And>a. refCount (nodes m' a) = refCount (nodes m a)"
    and "\<And>a. root_of m' a = root_of m a" and "fresh m' = fresh m"
  shows "names_ok m' = names_ok m"
  unfolding names_ok_def assms ..

text \<open>
  The parts of the invariant that speak of the locks follow from the counts: this is how
  each operation that changes the set of locks re-establishes it.
\<close>

lemma locks_named_of_counts:
  assumes fin: "finite {b. locked m b}" and cnt: "counts_ok m"
    and nm: "\<And>b. locked m b \<Longrightarrow> canonical (root_of m b) \<and>
      (byName m (root_of m b) = None \<or> byName m (root_of m b) = Some b)"
  shows "locks_named m"
proof -
  have "byName m (root_of m b) = Some b" if b: "locked m b" for b
  proof -
    have v: "list_all valid_comp (loc m b)" "abs_path (loc m b) = root_of m b"
      using nm [OF b] by (simp_all add: loc_def canonical_def abs_path_path_comps)
    have "finite (under m (loc m b))" by (rule finite_subset [OF _ fin]) (auto simp: under_def)
    moreover have "b \<in> under m (loc m b)" using b by (simp add: under_def)
    ultimately have "card (under m (loc m b)) \<noteq> 0" by auto
    then have "cnt m (root_of m b) \<noteq> 0"
      using cnt v unfolding counts_ok_def by (metis of_nat_eq_0_iff)
    then show ?thesis using nm [OF b] by (auto simp: cnt_def)
  qed
  then show ?thesis by (simp add: locks_named_def)
qed

lemma remove_ok:
  assumes ok: "ls_ok m" and a: "locked m a" and h: "\<not> held (nodes m a)"
  shows "\<exists>m'. remove a m = Return m' \<and> ls_ok m' \<and>
    byToken m' = (byToken m)(token (nodes m a) := None) \<and> token (nodes m' a) = [] \<and>
    (\<forall>b. b \<noteq> a \<longrightarrow> same_info (nodes m b) (nodes m' b)) \<and> \<not> held (nodes m' a) \<and> gen m' = gen m \<and>
    (a \<in> set (byExpiry m) \<longrightarrow> length (byExpiry m') < length (byExpiry m))"
proof -
  define m1 where "m1 = upd_node a (\<lambda>x. x\<lparr>token := []\<rparr>)
    (m\<lparr>byToken := (byToken m)(token (nodes m a) := None)\<rparr>)"
  have m1: "byName m1 = byName m" "byToken m1 = (byToken m)(token (nodes m a) := None)"
    "gen m1 = gen m" "byExpiry m1 = byExpiry m" "fresh m1 = fresh m"
    "nodes m1 = (nodes m)(a := (nodes m a)\<lparr>token := []\<rparr>)"
    by (simp_all add: m1_def upd_node_def)
  note v = locked_root [OF ok a]
  have c1: "cnt m1 = cnt m" by (rule cnt_cong) (simp_all add: m1)
  have n1: "names_ok m1" using ok names_ok_cong [of m1 m] by (simp add: ls_ok_def m1 root_of_def)
  have pos: "0 < cnt m1 nm" if "nm \<in> ancestors (loc m a)" for nm
  proof -
    from that obtain p where p: "prefix p (loc m a)" "nm = abs_path p" by (auto simp: ancestors_def)
    then have "a \<in> under m p" using a by (simp add: under_def)
    then have "0 < card (under m p)" using finite_under [OF ok] card_gt_0_iff by blast
    moreover have "list_all valid_comp p" using p v(3) list_all_prefix by blast
    ultimately show ?thesis using ok p by (simp add: c1 ls_ok_def counts_ok_def)
  qed
  obtain m2 where w: "walkToRoot remove_step (root_of m a) True m1 = Return (True, m2)"
    and d: "dropped (ancestors (loc m a)) m1 m2" and n2: "names_ok m2"
    using remove_walk [OF v(3) n1 pos, of True] v(4) by auto
  define m3 where "m3 = (if 0 \<le> byExpiryIndex (nodes m2 a) then on_heap (heap_remove_node a) m2 else m2)"
  have nd2: "nodes m2 b = (nodes m1 b)\<lparr>refCount := refCount (nodes m2 b)\<rparr>" for b
    using d unfolding dropped_def by blast
  have f2: "token (nodes m2 b) = token (nodes m1 b)" "details (nodes m2 b) = details (nodes m1 b)"
    "held (nodes m2 b) = held (nodes m1 b)" "expiry (nodes m2 b) = expiry (nodes m1 b)"
    "byExpiryIndex (nodes m2 b) = byExpiryIndex (nodes m1 b)" for b
    by (subst nd2, simp)+
  have e2: "byExpiry m2 = byExpiry m" "gen m2 = gen m" "fresh m2 = fresh m"
    "byToken m2 = (byToken m)(token (nodes m a) := None)"
    using d by (simp_all add: dropped_def m1)
  have "heap_ok (heap_of m2) = heap_ok (heap_of m)"
    unfolding e2 by (rule heap_ok_cong) (simp_all add: f2 m1)
  then have hok: "heap_ok (heap_of m2)" using ok by (simp add: ls_ok_def queue_ok_def)
  note q = dequeue [OF hok m3_def]
  have i3: "same_info (nodes m b) (nodes m3 b)" if "b \<noteq> a" for b
    using that same_nodes_info [OF q(3), of b] by (simp add: same_info_def f2 m1)
  have a3: "token (nodes m3 a) = []" "\<not> held (nodes m3 a)" "details (nodes m3 a) = details (nodes m a)"
    using same_nodes_info [OF q(3), of a] h by (simp_all add: same_info_def f2 m1)
  have l3: "locked m3 b \<longleftrightarrow> b \<noteq> a \<and> locked m b" for b
    using i3 [of b] a3 by (cases "b = a") (auto simp: locked_def same_info_def)
  have r3: "root_of m3 b = root_of m b" "loc m3 b = loc m b" for b
    using i3 [of b] a3 by (cases "b = a"; auto simp: root_of_def loc_def same_info_def)+
  have n3: "names_ok m3"
    using n2 names_ok_cong [of m3 m2] by (simp add: q r3 same_nodes_fields [OF q(3)])
      (simp add: root_of_def f2 m1 r3 [unfolded root_of_def])
  have cn3: "cnt m3 = cnt m2" by (rule cnt_cong) (simp_all add: q same_nodes_fields [OF q(3)])
  have cn: "counts_ok m3"
  proof -
    have "cnt m3 (abs_path cs) = int (card (under m3 cs))" if cs: "list_all valid_comp cs" for cs
    proof -
      have u: "under m3 cs = (if prefix cs (loc m a) then under m cs - {a} else under m cs)"
        by (auto simp: under_def l3 r3)
      have "cnt m3 (abs_path cs) = cnt m (abs_path cs) - (if prefix cs (loc m a) then 1 else 0)"
        using d ancestors_iff [OF v(3) cs] by (simp add: cn3 dropped_def c1)
      also have "cnt m (abs_path cs) = int (card (under m cs))"
        using ok cs by (simp add: ls_ok_def counts_ok_def)
      also have "a \<in> under m cs" if "prefix cs (loc m a)" using a that by (simp add: under_def)
      then have "int (card (under m cs)) - (if prefix cs (loc m a) then 1 else 0) = int (card (under m3 cs))"
        using finite_under [OF ok, of cs] card_Suc_Diff1 [of "under m cs" a] by (auto simp: u)
      finally show ?thesis .
    qed
    then show ?thesis by (simp add: counts_ok_def)
  qed
  have fin: "finite {b. locked m3 b}" by (rule finite_subset [OF _ finite_locked [OF ok]]) (auto simp: l3)
  have "locks_named m3"
  proof (rule locks_named_of_counts [OF fin cn])
    fix b assume "locked m3 b"
    then have b: "locked m b" by (simp add: l3)
    have "byName m (root_of m b) = Some b" using ok b by (simp add: ls_ok_def locks_named_def)
    then show "canonical (root_of m3 b) \<and> (byName m3 (root_of m3 b) = None \<or> byName m3 (root_of m3 b) = Some b)"
      using d locked_root(1) [OF ok b] by (simp add: q r3 dropped_def m1)
  qed
  moreover have "tokens_ok m3"
  proof -
    have "byToken m3 t = Some b \<longleftrightarrow> token (nodes m3 b) = t \<and> t \<noteq> []" for t b
    proof -
      have iff: "byToken m t = Some b \<longleftrightarrow> token (nodes m b) = t \<and> t \<noteq> []" for t b
        using ok by (simp add: ls_ok_def tokens_ok_def)
      show ?thesis
      proof (cases "b = a")
        case True
        then show ?thesis using a3 iff [of t a] by (auto simp: q e2)
      next
        case False
        have "token (nodes m b) \<noteq> token (nodes m a)"
          using False iff [of "token (nodes m a)" a] iff [of "token (nodes m a)" b] a
          by (auto simp: locked_def)
        then show ?thesis using i3 [OF False] iff [of t b] by (auto simp: q e2 same_info_def)
      qed
    qed
    then show ?thesis by (simp add: tokens_ok_def)
  qed
  moreover have "queue_ok m3"
  proof -
    have "set (byExpiry m) = {b. locked m b \<and> \<not> held (nodes m b) \<and> 0 \<le> Duration (details (nodes m b))}"
      using ok by (simp add: ls_ok_def queue_ok_def)
    moreover have "held (nodes m3 b) = held (nodes m b) \<and> details (nodes m3 b) = details (nodes m b)" for b
      using i3 [of b] a3 h by (cases "b = a") (auto simp: same_info_def)
    ultimately show ?thesis using q(1,2) by (auto simp: queue_ok_def e2 l3)
  qed
  moreover have "held_ok m3"
  proof -
    have "locked m3 b" if "held (nodes m3 b)" for b
      using that i3 [of b] a3 ok by (cases "b = a") (auto simp: ls_ok_def held_ok_def l3 same_info_def)
    then show ?thesis by (simp add: held_ok_def)
  qed
  moreover have "excl_ok m3"
    unfolding excl_ok_def
  proof (intro allI impI)
    fix b c assume bc: "locked m3 b \<and> locked m3 c \<and> b \<noteq> c \<and> prefix (loc m3 b) (loc m3 c)"
    then have "ZeroDepth (details (nodes m b))" using ok by (auto simp: ls_ok_def excl_ok_def l3 r3)
    then show "ZeroDepth (details (nodes m3 b))" using bc i3 [of b] by (simp add: l3 same_info_def)
  qed
  ultimately have "ls_ok m3" using n3 cn by (simp add: ls_ok_def)
  moreover have "remove a m = Return m3"
  proof -
    have "Root (details (nodes m1 a)) = root_of m a" by (simp add: m1 root_of_def)
    then show ?thesis using w by (simp add: remove_def Let_def m3_def flip: m1_def)
  qed
  ultimately show ?thesis using a3 i3 q(5,6,9) by (auto simp: e2)
qed

end
