(* ===== verification/LockRefine.thy ===== *)
theory LockRefine
  imports LockSystem
begin

text \<open>
  The abstract lock system and the refinement of \<open>collectExpiredNodes\<close>, \<open>Create\<close>, \<open>Refresh\<close>,
  \<open>Unlock\<close>, \<open>Confirm\<close> and its release (\<open>server/webdav/lock.go\<close>): a finite map from tokens to
  locks, each with its details, its expiry (none for an infinite lock) and whether a
  confirmation holds it.
\<close>

section \<open>Abstract locks\<close>

record alock =
  a_details :: LockDetails
  a_until :: "int option"
  a_held :: bool

type_synonym alocks = "string \<Rightarrow> alock option"

definition alock_of :: "memLSNode \<Rightarrow> alock" where
  "alock_of n = \<lparr>a_details = details n,
     a_until = (if 0 \<le> Duration (details n) then Some (expiry n) else None), a_held = held n\<rparr>"

definition abs_locks :: "memLS \<Rightarrow> alocks" where
  "abs_locks m t = map_option (\<lambda>a. alock_of (nodes m a)) (byToken m t)"

definition expired :: "int \<Rightarrow> alock \<Rightarrow> bool" where
  "expired now l \<longleftrightarrow> \<not> a_held l \<and> (case a_until l of None \<Rightarrow> False | Some e \<Rightarrow> e \<le> now)"

definition purge :: "int \<Rightarrow> alocks \<Rightarrow> alocks" where
  "purge now A t = (case A t of None \<Rightarrow> None | Some l \<Rightarrow> if expired now l then None else Some l)"

definition conflict :: "LockDetails \<Rightarrow> LockDetails \<Rightarrow> bool" where
  "conflict d e \<longleftrightarrow>
     (let p = path_comps (Root d); q = path_comps (Root e)
      in p = q \<or> (strict_prefix p q \<and> \<not> ZeroDepth d) \<or> (strict_prefix q p \<and> \<not> ZeroDepth e))"

definition covers :: "LockDetails \<Rightarrow> string list \<Rightarrow> bool" where
  "covers d cs \<longleftrightarrow> path_comps (Root d) = cs \<or> (\<not> ZeroDepth d \<and> strict_prefix (path_comps (Root d)) cs)"

lemma alock_of_info: "same_info n n' \<Longrightarrow> alock_of n' = alock_of n"
  by (simp add: same_info_def alock_of_def)

lemma abs_locks_Some:
  assumes "ls_ok m"
  shows "abs_locks m t = Some l \<longleftrightarrow> (\<exists>a. locked m a \<and> token (nodes m a) = t \<and> l = alock_of (nodes m a))"
proof -
  have "byToken m t = Some a \<longleftrightarrow> token (nodes m a) = t \<and> t \<noteq> []" for a
    using assms by (simp add: ls_ok_def tokens_ok_def)
  then show ?thesis by (auto simp: abs_locks_def locked_def)
qed

lemma byToken_token: "ls_ok m \<Longrightarrow> locked m a \<Longrightarrow> byToken m (token (nodes m a)) = Some a"
  by (simp add: ls_ok_def tokens_ok_def locked_def)

lemma abs_locks_upd:
  assumes ok: "ls_ok m" and a: "locked m a"
    and tok: "byToken m' = byToken m" and oth: "\<And>b. b \<noteq> a \<Longrightarrow> same_info (nodes m b) (nodes m' b)"
  shows "abs_locks m' = (abs_locks m)(token (nodes m a) := Some (alock_of (nodes m' a)))"
proof
  fix t
  show "abs_locks m' t = ((abs_locks m)(token (nodes m a) := Some (alock_of (nodes m' a)))) t"
  proof (cases "byToken m t")
    case None
    then show ?thesis using byToken_token [OF ok a] by (auto simp: abs_locks_def tok)
  next
    case (Some b)
    then have b: "token (nodes m b) = t" using ok by (simp add: ls_ok_def tokens_ok_def)
    show ?thesis
      using Some b byToken_token [OF ok a] alock_of_info [OF oth, of b]
      by (cases "b = a") (auto simp: abs_locks_def tok)
  qed
qed

lemma abs_locks_remove:
  assumes ok: "ls_ok m" and a: "locked m a"
    and tok: "byToken m' = (byToken m)(token (nodes m a) := None)"
    and oth: "\<And>b. b \<noteq> a \<Longrightarrow> same_info (nodes m b) (nodes m' b)"
  shows "abs_locks m' = (abs_locks m)(token (nodes m a) := None)"
proof
  fix t
  show "abs_locks m' t = ((abs_locks m)(token (nodes m a) := None)) t"
  proof (cases "byToken m t")
    case (Some b)
    then have "token (nodes m b) = t" using ok by (simp add: ls_ok_def tokens_ok_def)
    then show ?thesis
      using Some alock_of_info [OF oth, of b] by (cases "b = a") (auto simp: abs_locks_def tok)
  qed (simp add: abs_locks_def tok)
qed

section \<open>Collecting expired locks\<close>

lemma purge_none:
  assumes ok: "ls_ok m" and none: "byExpiry m = [] \<or> now < expiry (nodes m (hd (byExpiry m)))"
  shows "purge now (abs_locks m) = abs_locks m"
proof
  fix t
  show "purge now (abs_locks m) t = abs_locks m t"
  proof (cases "abs_locks m t")
    case (Some l)
    then obtain a where a: "locked m a" "l = alock_of (nodes m a)" using abs_locks_Some [OF ok] by auto
    have "now < expiry (nodes m a)" if "\<not> held (nodes m a)" "0 \<le> Duration (details (nodes m a))"
    proof -
      have hok: "heap_ok (heap_of m)" and mem: "a \<in> set (fst (heap_of m))"
        using ok a(1) that by (simp_all add: ls_ok_def queue_ok_def)
      have "now < expiries (heap_of m) a"
        by (rule hq.none_expired [OF hok _ mem]) (use none in \<open>simp add: expiries_def\<close>)
      then show ?thesis by (simp add: expiries_def)
    qed
    then have "\<not> expired now l" using a(2) by (auto simp: expired_def alock_of_def)
    then show ?thesis using Some by (simp add: purge_def)
  qed (simp add: purge_def)
qed

lemma purge_remove:
  assumes "A t = Some l" and "expired now l"
  shows "purge now (A(t := None)) = purge now A"
  using assms by (auto simp: purge_def fun_eq_iff)

lemma collect_loop_ok:
  assumes "ls_ok m" and "length (byExpiry m) < k"
  shows "\<exists>m'. collect_loop k now m = Return m' \<and> ls_ok m' \<and>
    abs_locks m' = purge now (abs_locks m) \<and> gen m' = gen m \<and>
    (\<forall>a. held (nodes m' a) = held (nodes m a))"
  using assms
proof (induction k arbitrary: m)
  case (Suc k)
  note ok = Suc.prems(1)
  show ?case
  proof (cases "byExpiry m = [] \<or> now < expiry (nodes m (hd (byExpiry m)))")
    case True
    then have "collect_loop (Suc k) now m = Return m" by (auto split: list.splits)
    then show ?thesis using ok purge_none [OF ok True] by simp
  next
    case False
    then obtain a as where h: "byExpiry m = a # as" "expiry (nodes m a) \<le> now"
      by (cases "byExpiry m") auto
    then have a: "locked m a" "\<not> held (nodes m a)" "0 \<le> Duration (details (nodes m a))"
      using ok by (auto simp: ls_ok_def queue_ok_def)
    obtain m1 where m1: "remove a m = Return m1" "ls_ok m1"
      "byToken m1 = (byToken m)(token (nodes m a) := None)"
      "\<forall>b. b \<noteq> a \<longrightarrow> same_info (nodes m b) (nodes m1 b)" "\<not> held (nodes m1 a)" "gen m1 = gen m"
      "length (byExpiry m1) < length (byExpiry m)"
      using remove_ok [OF ok a(1,2)] h(1) by auto
    then obtain m2 where m2: "collect_loop k now m1 = Return m2" "ls_ok m2"
      "abs_locks m2 = purge now (abs_locks m1)" "gen m2 = gen m1"
      "\<forall>a. held (nodes m2 a) = held (nodes m1 a)"
      using Suc.IH [of m1] Suc.prems(2) by auto
    have "abs_locks m (token (nodes m a)) = Some (alock_of (nodes m a))"
      using abs_locks_Some [OF ok] a(1) by blast
    moreover have "expired now (alock_of (nodes m a))"
      using a h(2) by (simp add: expired_def alock_of_def)
    moreover have "abs_locks m1 = (abs_locks m)(token (nodes m a) := None)"
      using abs_locks_remove [OF ok a(1) m1(3)] m1(4) by blast
    ultimately have "purge now (abs_locks m1) = purge now (abs_locks m)" using purge_remove by metis
    moreover have "held (nodes m1 b) = held (nodes m b)" for b
      using m1(4,5) a(2) by (cases "b = a") (auto simp: same_info_def)
    moreover have "collect_loop (Suc k) now m = Return m2" using h m1(1) m2(1) by simp
    ultimately show ?thesis using m1 m2 by simp
  qed
qed simp

lemma collect_ok:
  assumes "ls_ok m"
  shows "\<exists>m'. collectExpiredNodes now m = Return m' \<and> ls_ok m' \<and>
    abs_locks m' = purge now (abs_locks m) \<and> gen m' = gen m \<and>
    (\<forall>a. held (nodes m' a) = held (nodes m a))"
  unfolding collectExpiredNodes_def using assms by (rule collect_loop_ok) simp

section \<open>Whether a lock can be created\<close>

lemma canCreate_ok:
  assumes ok: "ls_ok m" and d: "list_all valid_comp (path_comps (Root d))" "canonical (Root d)"
  shows "canCreate (Root d) (ZeroDepth d) m =
    Return (\<not> (\<exists>t l. abs_locks m t = Some l \<and> conflict (a_details l) d))"
proof -
  let ?cs = "path_comps (Root d)"
  have r: "Root d = abs_path ?cs" using abs_path_path_comps [OF d(2)] by simp
  have names: "names_ok m" using ok by (simp add: ls_ok_def)
  have named: "loc m a = p" if p: "list_all valid_comp p" "byName m (abs_path p) = Some a" for p a
  proof -
    have "root_of m a = abs_path p" using names p(2) unfolding names_ok_def by blast
    then show ?thesis using p(1) by (simp add: loc_def)
  qed
  have locked_named: "byName m (abs_path (loc m a)) = Some a" if "locked m a" for a
    using ok that locked_root(4) [OF ok that] by (simp add: ls_ok_def locks_named_def)
  have self: "passes (ZeroDepth d) m True (abs_path ?cs) \<longleftrightarrow>
      (\<forall>a. locked m a \<longrightarrow> loc m a \<noteq> ?cs \<and> (strict_prefix ?cs (loc m a) \<longrightarrow> ZeroDepth d))"
  proof (cases "byName m (abs_path ?cs)")
    case None
    have "under m ?cs = {}"
      using None ok d(1) finite_under [OF ok] by (auto simp: ls_ok_def counts_ok_def cnt_def)
    then show ?thesis using None by (auto simp: passes_def under_def strict_prefix_def)
  next
    case (Some a)
    then have "0 < cnt m (abs_path ?cs)" using names unfolding names_ok_def by (simp add: cnt_def)
    then have "card (under m ?cs) > 0" using ok d(1) by (simp add: ls_ok_def counts_ok_def)
    then obtain b where b: "locked m b" "prefix ?cs (loc m b)"
      using card_gt_0_iff [of "under m ?cs"] by (auto simp: under_def)
    have "locked m a \<longleftrightarrow> (\<exists>b. locked m b \<and> loc m b = ?cs)"
      using named [OF d(1) Some] locked_named Some by (metis option.inject)
    then show ?thesis using Some b by (auto simp: passes_def locked_def strict_prefix_def)
  qed
  have anc: "(\<forall>nm \<in> ancestors ?cs - {abs_path ?cs}. passes (ZeroDepth d) m False nm) \<longleftrightarrow>
      (\<forall>a. locked m a \<and> strict_prefix (loc m a) ?cs \<longrightarrow> ZeroDepth (details (nodes m a)))"
  proof (intro iffI allI impI ballI)
    fix a assume L: "\<forall>nm \<in> ancestors ?cs - {abs_path ?cs}. passes (ZeroDepth d) m False nm"
      and a: "locked m a \<and> strict_prefix (loc m a) ?cs"
    have "abs_path (loc m a) \<in> ancestors ?cs - {abs_path ?cs}"
      using a ancestors_iff [OF d(1)] locked_root(3) [OF ok] abs_path_inj d(1)
      by (auto simp: strict_prefix_def)
    then show "ZeroDepth (details (nodes m a))"
      using L locked_named a unfolding passes_def locked_def by fastforce
  next
    fix nm assume R: "\<forall>a. locked m a \<and> strict_prefix (loc m a) ?cs \<longrightarrow> ZeroDepth (details (nodes m a))"
      and nm: "nm \<in> ancestors ?cs - {abs_path ?cs}"
    then obtain p where p: "strict_prefix p ?cs" "nm = abs_path p"
      by (auto simp: ancestors_def strict_prefix_def)
    then have "list_all valid_comp p" using d(1) list_all_prefix by (auto simp: strict_prefix_def)
    then show "passes (ZeroDepth d) m False nm"
      using R p named by (auto simp: passes_def locked_def)
  qed
  have "(\<exists>t l. abs_locks m t = Some l \<and> conflict (a_details l) d) \<longleftrightarrow>
      (\<exists>a. locked m a \<and> conflict (details (nodes m a)) d)"
    unfolding abs_locks_Some [OF ok] by (metis alock.select_convs(1) alock_of_def)
  also have "\<dots> \<longleftrightarrow> \<not> ((\<forall>a. locked m a \<longrightarrow> loc m a \<noteq> ?cs \<and> (strict_prefix ?cs (loc m a) \<longrightarrow> ZeroDepth d)) \<and>
      (\<forall>a. locked m a \<and> strict_prefix (loc m a) ?cs \<longrightarrow> ZeroDepth (details (nodes m a))))"
    unfolding conflict_def Let_def loc_def root_of_def by metis
  finally have conf: "(\<exists>t l. abs_locks m t = Some l \<and> conflict (a_details l) d) \<longleftrightarrow> \<dots>" .
  have "canCreate (Root d) (ZeroDepth d) m = canCreate (abs_path ?cs) (ZeroDepth d) m"
    by (subst r) (rule refl)
  then show ?thesis
    unfolding canCreate_walk [OF d(1), of "ZeroDepth d" m] self anc conf not_not .
qed

end
