(* ===== verification/LockOps.thy ===== *)
theory LockOps
  imports LockRefine
begin

text \<open>
  Each operation of \<open>server/webdav/lock.go\<close> keeps the invariant and refines its abstract
  operation: the two lemmas on changing and adding a lock, then \<open>hold\<close>, \<open>unhold\<close>,
  \<open>lookup\<close> and the exported operations.
\<close>

section \<open>Changing a lock\<close>

lemma update_ok:
  assumes ok: "ls_ok m" and eq: "byName m' = byName m" "byToken m' = byToken m" "fresh m' = fresh m"
    and tok: "\<And>b. token (nodes m' b) = token (nodes m b)"
    and ref: "\<And>b. refCount (nodes m' b) = refCount (nodes m b)"
    and root: "\<And>b. root_of m' b = root_of m b"
    and zero: "\<And>b. ZeroDepth (details (nodes m' b)) = ZeroDepth (details (nodes m b))"
    and q: "queue_ok m'" and h: "held_ok m'"
  shows "ls_ok m'"
proof -
  have l: "locked m' = locked m" "loc m' = loc m" by (auto simp: locked_def loc_def tok root)
  have "names_ok m'" using ok names_ok_cong [of m' m] eq ref root by (simp add: ls_ok_def)
  moreover have "locks_named m'" using ok by (simp add: ls_ok_def locks_named_def l eq root)
  moreover have "tokens_ok m'" using ok by (simp add: ls_ok_def tokens_ok_def eq tok)
  moreover have "counts_ok m'"
    using ok cnt_cong [of m' m] eq ref by (simp add: ls_ok_def counts_ok_def under_def l)
  moreover have "excl_ok m'" using ok by (simp add: ls_ok_def excl_ok_def l zero)
  ultimately show ?thesis using q h by (simp add: ls_ok_def)
qed

lemma upd_node_simps [simp]:
  "byName (upd_node a f m) = byName m" "byToken (upd_node a f m) = byToken m"
  "gen (upd_node a f m) = gen m" "byExpiry (upd_node a f m) = byExpiry m"
  "fresh (upd_node a f m) = fresh m" "nodes (upd_node a f m) = (nodes m)(a := f (nodes m a))"
  by (simp_all add: upd_node_def)

lemma heap_ok_upd:
  assumes "\<And>n. byExpiryIndex (f n) = byExpiryIndex n" and "a \<in> set h \<Longrightarrow> expiry (f (ns a)) = expiry (ns a)"
  shows "heap_ok (h, ns(a := f (ns a))) = heap_ok (h, ns)"
  using assms by (intro heap_ok_cong) auto

lemma hold_ok:
  assumes ok: "ls_ok m" and a: "locked m a" and h: "\<not> held (nodes m a)"
  shows "\<exists>m'. hold a m = Return m' \<and> ls_ok m' \<and> byToken m' = byToken m \<and> gen m' = gen m \<and>
    (\<forall>b. b \<noteq> a \<longrightarrow> same_info (nodes m b) (nodes m' b)) \<and>
    same_info ((nodes m a)\<lparr>held := True\<rparr>) (nodes m' a)"
proof -
  define m1 where "m1 = upd_node a (\<lambda>x. x\<lparr>held := True\<rparr>) m"
  have m1: "byName m1 = byName m" "byToken m1 = byToken m" "gen m1 = gen m" "byExpiry m1 = byExpiry m"
    "fresh m1 = fresh m" "nodes m1 = (nodes m)(a := (nodes m a)\<lparr>held := True\<rparr>)"
    by (simp_all add: m1_def)
  have hok: "heap_ok (heap_of m1)"
    using ok heap_ok_upd [of "\<lambda>x. x\<lparr>held := True\<rparr>"] by (simp add: m1 ls_ok_def queue_ok_def)
  define m2 where "m2 = (if 0 \<le> byExpiryIndex (nodes m1 a) then on_heap (heap_remove_node a) m1 else m1)"
  note q = dequeue [OF hok m2_def]
  have f: "token (nodes m2 b) = token (nodes m b)" "details (nodes m2 b) = details (nodes m b)"
    "refCount (nodes m2 b) = refCount (nodes m b)" "expiry (nodes m2 b) = expiry (nodes m b)"
    "held (nodes m2 b) = (b = a \<or> held (nodes m b))" for b
    by (simp_all add: same_nodes_fields [OF q(3)] m1)
  have l: "locked m2 = locked m" by (auto simp: locked_def f)
  have "queue_ok m2"
    using q(1,2) ok by (auto simp: queue_ok_def ls_ok_def m1 f l)
  moreover have "held_ok m2" using ok a by (auto simp: held_ok_def ls_ok_def f l)
  ultimately have "ls_ok m2"
    using update_ok [OF ok, of m2] by (simp add: q m1 f root_of_def)
  moreover have "hold a m = Return m2"
    using h queue_member [of m a] ok by (simp add: hold_def Let_def m2_def ls_ok_def flip: m1_def)
      (simp add: m1)
  ultimately show ?thesis using q f by (auto simp: same_info_def m1)
qed

lemma unhold_ok:
  assumes ok: "ls_ok m" and h: "held (nodes m a)"
  shows "\<exists>m'. unhold a m = Return m' \<and> ls_ok m' \<and> byToken m' = byToken m \<and> gen m' = gen m \<and>
    (\<forall>b. b \<noteq> a \<longrightarrow> same_info (nodes m b) (nodes m' b)) \<and>
    same_info ((nodes m a)\<lparr>held := False\<rparr>) (nodes m' a)"
proof -
  have a: "locked m a" using ok h by (simp add: ls_ok_def held_ok_def)
  define m1 where "m1 = upd_node a (\<lambda>x. x\<lparr>held := False\<rparr>) m"
  have m1: "byName m1 = byName m" "byToken m1 = byToken m" "gen m1 = gen m" "byExpiry m1 = byExpiry m"
    "fresh m1 = fresh m" "nodes m1 = (nodes m)(a := (nodes m a)\<lparr>held := False\<rparr>)"
    by (simp_all add: m1_def)
  have hok: "heap_ok (heap_of m1)"
    using ok heap_ok_upd [of "\<lambda>x. x\<lparr>held := False\<rparr>"] by (simp add: m1 ls_ok_def queue_ok_def)
  have new: "a \<notin> set (byExpiry m1)" using ok h by (simp add: m1 ls_ok_def queue_ok_def)
  define m2 where "m2 = (if 0 \<le> Duration (details (nodes m1 a)) then on_heap (heap_push a) m1 else m1)"
  note q = enqueue [OF hok new m2_def]
  have f: "token (nodes m2 b) = token (nodes m b)" "details (nodes m2 b) = details (nodes m b)"
    "refCount (nodes m2 b) = refCount (nodes m b)" "expiry (nodes m2 b) = expiry (nodes m b)"
    "held (nodes m2 b) = (b \<noteq> a \<and> held (nodes m b))" for b
    by (simp_all add: same_nodes_fields [OF q(3)] m1)
  have l: "locked m2 = locked m" by (auto simp: locked_def f)
  have "queue_ok m2"
    using q(1,2) ok a by (auto simp: queue_ok_def ls_ok_def m1 f l)
  moreover have "held_ok m2" using ok by (auto simp: held_ok_def ls_ok_def f l)
  ultimately have "ls_ok m2"
    using update_ok [OF ok, of m2] by (simp add: q m1 f root_of_def)
  moreover have "unhold a m = Return m2"
    using h by (simp add: unhold_def Let_def m2_def flip: m1_def)
  ultimately show ?thesis using q f by (auto simp: same_info_def m1)
qed

section \<open>Adding a lock\<close>

lemma add_lock_ok:
  assumes ok: "ls_ok m" and names: "names_ok m'"
    and cs: "list_all valid_comp cs"
    and counts: "\<And>nm. cnt m' nm = cnt m nm + (if nm \<in> ancestors cs then 1 else 0)"
    and mono: "\<And>nm b. byName m nm = Some b \<Longrightarrow> byName m' nm = Some b"
    and n: "byName m' (abs_path cs) = Some n" "token (nodes m' n) = tok" "tok \<noteq> []"
      "root_of m' n = abs_path cs" "\<not> locked m n" "\<not> held (nodes m' n)"
    and tok: "byToken m' = (byToken m)(tok := Some n)" "byToken m tok = None"
    and oth: "\<And>b. b \<noteq> n \<Longrightarrow> token (nodes m' b) = token (nodes m b) \<and> held (nodes m' b) = held (nodes m b)"
    and inf: "\<And>b. locked m b \<Longrightarrow> details (nodes m' b) = details (nodes m b)"
    and q: "heap_ok (heap_of m')" "set (byExpiry m') =
      (if 0 \<le> Duration (details (nodes m' n)) then insert n (set (byExpiry m)) else set (byExpiry m))"
    and no: "\<And>b. locked m b \<Longrightarrow> loc m b \<noteq> cs \<and>
      (strict_prefix cs (loc m b) \<longrightarrow> ZeroDepth (details (nodes m' n))) \<and>
      (strict_prefix (loc m b) cs \<longrightarrow> ZeroDepth (details (nodes m b)))"
  shows "ls_ok m'"
proof -
  have l: "locked m' b \<longleftrightarrow> b = n \<or> locked m b" for b
    using oth [of b] n(2,3) by (cases "b = n") (auto simp: locked_def)
  have lo: "loc m' b = (if b = n then cs else loc m b)" if "locked m' b" for b
    using that inf [of b] n(4,5) cs by (auto simp: l loc_def root_of_def)
  have u: "under m' p = (if prefix p cs then insert n (under m p) else under m p)" for p
  proof -
    have "b \<in> under m' p \<longleftrightarrow> (b = n \<and> prefix p cs) \<or> b \<in> under m p" for b
      using lo [of b] n(5) by (cases "b = n") (auto simp: under_def l)
    then show ?thesis by auto
  qed
  have cn: "counts_ok m'"
  proof -
    have "cnt m' (abs_path p) = int (card (under m' p))" if p: "list_all valid_comp p" for p
    proof -
      have "n \<notin> under m p" using n(5) by (simp add: under_def)
      moreover have "cnt m (abs_path p) = int (card (under m p))"
        using ok p by (simp add: ls_ok_def counts_ok_def)
      ultimately show ?thesis
        using finite_under [OF ok, of p] ancestors_iff [OF cs p] by (simp add: counts u)
    qed
    then show ?thesis by (simp add: counts_ok_def)
  qed
  have "locks_named m'"
  proof -
    have "byName m' (root_of m' b) = Some b" if b: "locked m' b" for b
    proof (cases "b = n")
      case False
      then have b': "locked m b" using b by (simp add: l)
      then have "byName m (root_of m b) = Some b" using ok by (simp add: ls_ok_def locks_named_def)
      then show ?thesis using mono inf [OF b'] by (simp add: root_of_def)
    qed (simp add: n)
    then show ?thesis by (simp add: locks_named_def)
  qed
  moreover have "tokens_ok m'"
  proof -
    have iff: "byToken m t = Some b \<longleftrightarrow> token (nodes m b) = t \<and> t \<noteq> []" for t b
      using ok by (simp add: ls_ok_def tokens_ok_def)
    have "byToken m' t = Some b \<longleftrightarrow> token (nodes m' b) = t \<and> t \<noteq> []" for t b
    proof (cases "b = n")
      case True
      then show ?thesis using iff [of t n] n by (auto simp: tok locked_def)
    next
      case False
      then show ?thesis using iff [of t b] oth [OF False] tok by auto
    qed
    then show ?thesis by (simp add: tokens_ok_def)
  qed
  moreover have "queue_ok m'"
  proof -
    have "set (byExpiry m) = {b. locked m b \<and> \<not> held (nodes m b) \<and> 0 \<le> Duration (details (nodes m b))}"
      using ok by (simp add: ls_ok_def queue_ok_def)
    also have "\<dots> = {b. locked m b \<and> \<not> held (nodes m' b) \<and> 0 \<le> Duration (details (nodes m' b))}"
      using oth inf n(5) by metis
    finally show ?thesis using q n(6) by (auto simp: queue_ok_def l)
  qed
  moreover have "held_ok m'"
    using ok oth n(6) unfolding held_ok_def ls_ok_def l by metis
  moreover have "excl_ok m'"
    unfolding excl_ok_def
  proof (intro allI impI)
    fix b c assume bc: "locked m' b \<and> locked m' c \<and> b \<noteq> c \<and> prefix (loc m' b) (loc m' c)"
    then consider "b = n" "c \<noteq> n" "locked m c" "prefix cs (loc m c)"
      | "c = n" "b \<noteq> n" "locked m b" "prefix (loc m b) cs"
      | "b \<noteq> n" "c \<noteq> n" "locked m b" "locked m c" "prefix (loc m b) (loc m c)"
      using lo by (cases "b = n"; cases "c = n") (auto simp: l)
    then show "ZeroDepth (details (nodes m' b))"
    proof cases
      case 1 then show ?thesis using no [of c] by (auto simp: strict_prefix_def)
    next
      case 2 then show ?thesis using no [of b] inf [of b] by (auto simp: strict_prefix_def)
    next
      case 3 then show ?thesis using ok bc inf [of b] by (auto simp: ls_ok_def excl_ok_def)
    qed
  qed
  ultimately show ?thesis using names cn by (simp add: ls_ok_def)
qed

section \<open>Holding and releasing\<close>

definition set_held :: "bool \<Rightarrow> string set \<Rightarrow> alocks \<Rightarrow> alocks" where
  "set_held v T A t = map_option (\<lambda>l. if t \<in> T then l\<lparr>a_held := v\<rparr> else l) (A t)"

lemma set_held_empty [simp]: "set_held v {} A = A"
  by (simp add: set_held_def fun_eq_iff option.map_ident)

lemma set_held_Un: "set_held v T (set_held v U A) = set_held v (T \<union> U) A"
  by (auto simp: set_held_def fun_eq_iff option.map_comp o_def intro!: option.map_cong)

definition tokens_of :: "memLS \<Rightarrow> nat option \<Rightarrow> string set" where
  "tokens_of m n = (\<lambda>a. token (nodes m a)) ` set_option n"

lemma set_held_upd:
  assumes ok: "ls_ok m" and a: "locked m a" and tok: "byToken m' = byToken m"
    and oth: "\<And>b. b \<noteq> a \<Longrightarrow> same_info (nodes m b) (nodes m' b)"
    and self: "same_info ((nodes m a)\<lparr>held := v\<rparr>) (nodes m' a)"
  shows "abs_locks m' = set_held v {token (nodes m a)} (abs_locks m)"
proof -
  have "abs_locks m' = (abs_locks m)(token (nodes m a) := Some (alock_of (nodes m' a)))"
    using abs_locks_upd [OF ok a tok] oth by blast
  moreover have "alock_of (nodes m' a) = (alock_of (nodes m a))\<lparr>a_held := v\<rparr>"
    using self by (simp add: same_info_def alock_of_def)
  moreover have "abs_locks m (token (nodes m a)) = Some (alock_of (nodes m a))"
    using abs_locks_Some [OF ok] a by blast
  ultimately show ?thesis by (auto simp: set_held_def fun_eq_iff option.map_ident)
qed

text \<open>What an operation on held locks does, for an optional node.\<close>

lemma hold_opt_ok:
  assumes ok: "ls_ok m" and n: "\<And>a. n = Some a \<Longrightarrow> locked m a \<and> \<not> held (nodes m a)"
  shows "\<exists>m'. hold_opt n m = Return m' \<and> ls_ok m' \<and> byToken m' = byToken m \<and> gen m' = gen m \<and>
    abs_locks m' = set_held True (tokens_of m n) (abs_locks m) \<and>
    (\<forall>b. token (nodes m' b) = token (nodes m b)) \<and>
    (\<forall>b. held (nodes m' b) \<longleftrightarrow> b \<in> set_option n \<or> held (nodes m b))"
proof (cases n)
  case None
  then show ?thesis using ok by (simp add: hold_opt_def tokens_of_def)
next
  case (Some a)
  with n have a: "locked m a" "\<not> held (nodes m a)" by auto
  obtain m' where m': "hold a m = Return m'" "ls_ok m'" "byToken m' = byToken m" "gen m' = gen m"
    "\<forall>b. b \<noteq> a \<longrightarrow> same_info (nodes m b) (nodes m' b)"
    "same_info ((nodes m a)\<lparr>held := True\<rparr>) (nodes m' a)"
    using hold_ok [OF ok a] by blast
  have "abs_locks m' = set_held True {token (nodes m a)} (abs_locks m)"
    using set_held_upd [OF ok a(1) m'(3)] m'(5,6) by blast
  moreover have "token (nodes m' b) = token (nodes m b) \<and> held (nodes m' b) = (b = a \<or> held (nodes m b))" for b
    using m'(5,6) by (cases "b = a") (auto simp: same_info_def)
  ultimately show ?thesis using m' Some by (simp add: hold_opt_def tokens_of_def)
qed

lemma unhold_opt_ok:
  assumes ok: "ls_ok m" and n: "\<And>a. n = Some a \<Longrightarrow> held (nodes m a)"
  shows "\<exists>m'. unhold_opt n m = Return m' \<and> ls_ok m' \<and> byToken m' = byToken m \<and> gen m' = gen m \<and>
    abs_locks m' = set_held False (tokens_of m n) (abs_locks m) \<and>
    (\<forall>b. token (nodes m' b) = token (nodes m b)) \<and>
    (\<forall>b. held (nodes m' b) \<longleftrightarrow> b \<notin> set_option n \<and> held (nodes m b))"
proof (cases n)
  case None
  then show ?thesis using ok by (simp add: unhold_opt_def tokens_of_def)
next
  case (Some a)
  with n have a: "held (nodes m a)" by auto
  then have l: "locked m a" using ok by (simp add: ls_ok_def held_ok_def)
  obtain m' where m': "unhold a m = Return m'" "ls_ok m'" "byToken m' = byToken m" "gen m' = gen m"
    "\<forall>b. b \<noteq> a \<longrightarrow> same_info (nodes m b) (nodes m' b)"
    "same_info ((nodes m a)\<lparr>held := False\<rparr>) (nodes m' a)"
    using unhold_ok [OF ok a] by blast
  have "abs_locks m' = set_held False {token (nodes m a)} (abs_locks m)"
    using set_held_upd [OF ok l m'(3)] m'(5,6) by blast
  moreover have "token (nodes m' b) = token (nodes m b) \<and> held (nodes m' b) = (b \<noteq> a \<and> held (nodes m b))" for b
    using m'(5,6) by (cases "b = a") (auto simp: same_info_def)
  ultimately show ?thesis using m' Some by (simp add: unhold_opt_def tokens_of_def)
qed

section \<open>Looking up a claimed lock\<close>

fun spec_lookup :: "alocks \<Rightarrow> string list \<Rightarrow> Condition list \<Rightarrow> string option" where
  "spec_lookup A cs [] = None"
| "spec_lookup A cs (c # conds) =
     (case A (Token c) of
        None \<Rightarrow> spec_lookup A cs conds
      | Some l \<Rightarrow> if \<not> a_held l \<and> covers (a_details l) cs then Some (Token c)
                  else spec_lookup A cs conds)"

lemma covers_name:
  assumes ok: "ls_ok m" and a: "locked m a" and cs: "list_all valid_comp cs"
  shows "covers (details (nodes m a)) cs \<longleftrightarrow> abs_path cs = root_of m a \<or>
    (\<not> ZeroDepth (details (nodes m a)) \<and>
      (root_of m a = ''/'' \<or> has_prefix (abs_path cs) (root_of m a @ ''/'')))"
proof -
  note v = locked_root [OF ok a]
  have p: "path_comps (Root (details (nodes m a))) = loc m a" by (simp add: loc_def root_of_def)
  have root: "root_of m a = ''/'' \<longleftrightarrow> loc m a = []"
    using abs_path_root_iff [OF v(3)] v(4) by simp
  have eq: "abs_path cs = root_of m a \<longleftrightarrow> loc m a = cs"
    using abs_path_inj [OF cs v(3)] v(4) by auto
  have "loc m a \<noteq> [] \<Longrightarrow> has_prefix (abs_path cs) (root_of m a @ ''/'') \<longleftrightarrow> strict_prefix (loc m a) cs"
    using prefix_comps [OF _ v(3) cs] v(4) by (simp add: has_prefix_prefix)
  moreover have "strict_prefix [] cs \<longleftrightarrow> cs \<noteq> []" by (cases cs) auto
  ultimately show ?thesis unfolding covers_def p eq using root by auto
qed

lemma lookup_spec:
  assumes ok: "ls_ok m" and cs: "list_all valid_comp cs"
  shows "lookup m (abs_path cs) conds = Option.bind (spec_lookup (abs_locks m) cs conds) (byToken m)"
proof (induction conds)
  case (Cons c conds)
  show ?case
  proof (cases "byToken m (Token c)")
    case None
    then show ?thesis using Cons.IH by (simp add: abs_locks_def)
  next
    case (Some a)
    then have a: "locked m a" using ok by (auto simp: ls_ok_def tokens_ok_def locked_def)
    have A: "abs_locks m (Token c) = Some (alock_of (nodes m a))" using Some by (simp add: abs_locks_def)
    show ?thesis
      using Cons.IH Some A covers_name [OF ok a cs]
      by (auto simp: Let_def alock_of_def root_of_def)
  qed
qed simp

lemma spec_lookup_Some:
  "spec_lookup A cs conds = Some t \<Longrightarrow> \<exists>l. A t = Some l \<and> \<not> a_held l \<and> covers (a_details l) cs"
  by (induction conds) (auto split: option.splits if_splits)

lemma lookup_node:
  assumes ok: "ls_ok m" and cs: "list_all valid_comp cs"
    and t: "spec_lookup (abs_locks m) cs conds = Some t"
  shows "\<exists>a. lookup m (abs_path cs) conds = Some a \<and> locked m a \<and> \<not> held (nodes m a) \<and>
    token (nodes m a) = t"
proof -
  obtain l where l: "abs_locks m t = Some l" "\<not> a_held l" using spec_lookup_Some [OF t] by blast
  then obtain a where a: "locked m a" "token (nodes m a) = t" "l = alock_of (nodes m a)"
    using abs_locks_Some [OF ok] by blast
  then have "byToken m t = Some a" using byToken_token [OF ok] by blast
  then show ?thesis using lookup_spec [OF ok cs, of conds] t a l by (simp add: alock_of_def)
qed

end
