(* ===== verification/LockProps.thy ===== *)
theory LockProps
  imports LockOps
begin

text \<open>
  The lock system as a sequence of operations (\<open>server/webdav/lock.go\<close>): the reachable
  states, their invariant, and the properties of every run: no operation panics, each one
  refines its abstract operation on the map of locks, no two locks conflict, and a name
  under a held lock cannot be confirmed again.
\<close>

section \<open>The exported operations\<close>

definition name_comps :: "string \<Rightarrow> string list" where
  "name_comps name = resolve name"

lemma slashClean_comps: "slashClean name = abs_path (name_comps name)"
proof (cases "name = [] \<or> hd name \<noteq> slash")
  case True
  then show ?thesis by (simp add: slashClean_def name_comps_def path_clean_rooted)
next
  case False
  then obtain t where "name = slash # t" by (cases name) auto
  then show ?thesis by (simp add: slashClean_def name_comps_def path_clean_rooted)
qed

lemma name_comps_valid [simp]: "list_all valid_comp (name_comps name)"
  by (simp add: name_comps_def)

lemma path_comps_slashClean [simp]: "path_comps (slashClean name) = name_comps name"
  by (simp add: slashClean_comps)

lemma slashClean_canonical [simp]: "canonical (slashClean name)"
  by (simp add: slashClean_comps canonical_abs_path)

definition claimed :: "alocks \<Rightarrow> string \<Rightarrow> Condition list \<Rightarrow> string option" where
  "claimed A name conds = (if name \<noteq> [] then spec_lookup A (name_comps name) conds else None)"

lemma Unlock_ok:
  assumes "ls_ok m"
  shows "\<exists>m'. ls_ok m' \<and> gen m' = gen m \<and> (\<forall>b. held (nodes m' b) = held (nodes m b)) \<and>
    (case purge now (abs_locks m) tok of
       None \<Rightarrow> Unlock now tok m = Return (Some ErrNoSuchLock, m') \<and> abs_locks m' = purge now (abs_locks m)
     | Some l \<Rightarrow>
         if a_held l then Unlock now tok m = Return (Some ErrLocked, m') \<and> abs_locks m' = purge now (abs_locks m)
         else Unlock now tok m = Return (None, m') \<and> abs_locks m' = (purge now (abs_locks m))(tok := None))"
proof -
  obtain m1 where m1: "collectExpiredNodes now m = Return m1" "ls_ok m1"
    "abs_locks m1 = purge now (abs_locks m)" "gen m1 = gen m" "\<forall>a. held (nodes m1 a) = held (nodes m a)"
    using collect_ok [OF assms] by blast
  show ?thesis
  proof (cases "abs_locks m1 tok")
    case None
    then have "byToken m1 tok = None" by (simp add: abs_locks_def)
    then have "Unlock now tok m = Return (Some ErrNoSuchLock, m1)" by (simp add: Unlock_def m1(1))
    then show ?thesis using m1 None by (intro exI [of _ m1]) simp
  next
    case (Some l)
    then obtain a where a: "locked m1 a" "token (nodes m1 a) = tok" "l = alock_of (nodes m1 a)"
      using abs_locks_Some [OF m1(2)] by blast
    then have bt: "byToken m1 tok = Some a" using byToken_token [OF m1(2)] by blast
    have h: "a_held l = held (nodes m1 a)" by (simp add: a(3) alock_of_def)
    show ?thesis
    proof (cases "held (nodes m1 a)")
      case True
      then have "Unlock now tok m = Return (Some ErrLocked, m1)" by (simp add: Unlock_def m1(1) bt)
      then show ?thesis using m1 Some h True by (intro exI [of _ m1]) simp
    next
      case False
      obtain m2 where m2: "remove a m1 = Return m2" "ls_ok m2" "byToken m2 = (byToken m1)(tok := None)"
        "\<forall>b. b \<noteq> a \<longrightarrow> same_info (nodes m1 b) (nodes m2 b)" "\<not> held (nodes m2 a)" "gen m2 = gen m1"
        using remove_ok [OF m1(2) a(1) False] a(2) by blast
      have "abs_locks m2 = (abs_locks m1)(tok := None)"
        using abs_locks_remove [OF m1(2) a(1), of m2] m2(3,4) a(2) by blast
      moreover have "held (nodes m2 b) = held (nodes m b)" for b
        using m2(4,5) False m1(5) by (cases "b = a") (auto simp: same_info_def)
      moreover have "Unlock now tok m = Return (None, m2)" by (simp add: Unlock_def m1(1) bt False m2(1))
      ultimately show ?thesis using m1 m2 Some h False by (intro exI [of _ m2]) simp
    qed
  qed
qed

text \<open>The state change of \<open>Refresh\<close> on a lock that is not held.\<close>

lemma renew_ok:
  assumes ok: "ls_ok m" and a: "locked m a" "\<not> held (nodes m a)"
    and m2: "m2 = (if 0 \<le> byExpiryIndex (nodes m a) then on_heap (heap_remove_node a) m else m)"
    and m3: "m3 = upd_node a (\<lambda>x. x\<lparr>details := (details x)\<lparr>Duration := dur\<rparr>\<rparr>) m2"
    and m4: "m4 = (if 0 \<le> dur then upd_node a (\<lambda>x. x\<lparr>expiry := until\<rparr>) m3 else m3)"
    and m5: "m5 = (if 0 \<le> dur then on_heap (heap_push a) m4 else m4)"
  shows "ls_ok m5" and "byToken m5 = byToken m" and "gen m5 = gen m"
    and "b \<noteq> a \<Longrightarrow> same_info (nodes m b) (nodes m5 b)"
    and "token (nodes m5 b) = token (nodes m b)" and "held (nodes m5 b) = held (nodes m b)"
    and "details (nodes m5 a) = (details (nodes m a))\<lparr>Duration := dur\<rparr>"
    and "0 \<le> dur \<Longrightarrow> expiry (nodes m5 a) = until"
proof -
  have hok: "heap_ok (heap_of m)" using ok by (simp add: ls_ok_def queue_ok_def)
  note q2 = dequeue [OF hok m2]
  have e4: "byExpiry m4 = byExpiry m2" "byName m4 = byName m" "byToken m4 = byToken m"
    "gen m4 = gen m" "fresh m4 = fresh m" by (simp_all add: m4 m3 q2)
  have na: "a \<notin> set (byExpiry m4)" by (simp add: e4 q2)
  have "heap_ok (heap_of m4) = heap_ok (heap_of m2)"
    unfolding e4 by (rule heap_ok_cong) (use na in \<open>auto simp: m4 m3\<close>)
  then have hok4: "heap_ok (heap_of m4)" using q2(1) by simp
  note q5 = enqueue [OF hok4 na m5]
  have f: "token (nodes m5 b) = token (nodes m b)" "held (nodes m5 b) = held (nodes m b)"
    "refCount (nodes m5 b) = refCount (nodes m b)"
    "details (nodes m5 b) = (if b = a then (details (nodes m a))\<lparr>Duration := dur\<rparr> else details (nodes m b))"
    "expiry (nodes m5 b) = (if b = a \<and> 0 \<le> dur then until else expiry (nodes m b))" for b
    by (simp_all add: same_nodes_fields [OF q5(3)] m4 m3 same_nodes_fields [OF q2(3)])
  have l: "locked m5 b = locked m b" for b by (simp add: locked_def f)
  have "set (byExpiry m) = {b. locked m b \<and> \<not> held (nodes m b) \<and> 0 \<le> Duration (details (nodes m b))}"
    using ok by (simp add: ls_ok_def queue_ok_def)
  then have "set (byExpiry m5) =
      {b. locked m5 b \<and> \<not> held (nodes m5 b) \<and> 0 \<le> Duration (details (nodes m5 b))}"
    unfolding q5(2) e4 q2(2) l f using a by (auto split: if_splits)
  then have "queue_ok m5" using q5(1) by (simp add: queue_ok_def)
  moreover have "held_ok m5" using ok by (simp add: ls_ok_def held_ok_def f l)
  ultimately show "ls_ok m5"
    using update_ok [OF ok, of m5] by (simp add: q5 e4 f root_of_def)
  show "byToken m5 = byToken m" "gen m5 = gen m" by (simp_all add: q5 e4)
  show "b \<noteq> a \<Longrightarrow> same_info (nodes m b) (nodes m5 b)" by (simp add: same_info_def f)
  show "token (nodes m5 b) = token (nodes m b)" "held (nodes m5 b) = held (nodes m b)"
    "details (nodes m5 a) = (details (nodes m a))\<lparr>Duration := dur\<rparr>"
    "0 \<le> dur \<Longrightarrow> expiry (nodes m5 a) = until" by (simp_all add: f)
qed

lemma Refresh_ok:
  assumes "ls_ok m"
  shows "\<exists>m'. ls_ok m' \<and> gen m' = gen m \<and> (\<forall>b. held (nodes m' b) = held (nodes m b)) \<and>
    (case purge now (abs_locks m) tok of
       None \<Rightarrow> Refresh now tok dur m = Return (Inl ErrNoSuchLock, m') \<and> abs_locks m' = purge now (abs_locks m)
     | Some l \<Rightarrow>
         if a_held l then Refresh now tok dur m = Return (Inl ErrLocked, m') \<and> abs_locks m' = purge now (abs_locks m)
         else let d = (a_details l)\<lparr>Duration := dur\<rparr>
              in Refresh now tok dur m = Return (Inr d, m') \<and>
                 abs_locks m' = (purge now (abs_locks m))(tok := Some (l\<lparr>a_details := d,
                   a_until := (if 0 \<le> dur then Some (now + dur) else None)\<rparr>)))"
proof -
  obtain m1 where m1: "collectExpiredNodes now m = Return m1" "ls_ok m1"
    "abs_locks m1 = purge now (abs_locks m)" "gen m1 = gen m" "\<forall>a. held (nodes m1 a) = held (nodes m a)"
    using collect_ok [OF assms] by blast
  show ?thesis
  proof (cases "abs_locks m1 tok")
    case None
    then have "byToken m1 tok = None" by (simp add: abs_locks_def)
    then have "Refresh now tok dur m = Return (Inl ErrNoSuchLock, m1)" by (simp add: Refresh_def m1(1))
    then show ?thesis using m1 None by (intro exI [of _ m1]) simp
  next
    case (Some l)
    then obtain a where a: "locked m1 a" "token (nodes m1 a) = tok" "l = alock_of (nodes m1 a)"
      using abs_locks_Some [OF m1(2)] by blast
    then have bt: "byToken m1 tok = Some a" using byToken_token [OF m1(2)] by blast
    have h: "a_held l = held (nodes m1 a)" by (simp add: a(3) alock_of_def)
    show ?thesis
    proof (cases "held (nodes m1 a)")
      case True
      then have "Refresh now tok dur m = Return (Inl ErrLocked, m1)" by (simp add: Refresh_def m1(1) bt)
      then show ?thesis using m1 Some h True by (intro exI [of _ m1]) simp
    next
      case False
      define m2 where "m2 = (if 0 \<le> byExpiryIndex (nodes m1 a) then on_heap (heap_remove_node a) m1 else m1)"
      define m3 where "m3 = upd_node a (\<lambda>x. x\<lparr>details := (details x)\<lparr>Duration := dur\<rparr>\<rparr>) m2"
      define m4 where "m4 = (if 0 \<le> dur then upd_node a (\<lambda>x. x\<lparr>expiry := now + dur\<rparr>) m3 else m3)"
      define m5 where "m5 = (if 0 \<le> dur then on_heap (heap_push a) m4 else m4)"
      note r = renew_ok [OF m1(2) a(1) False m2_def m3_def m4_def m5_def]
      have al: "alock_of (nodes m5 a) = l\<lparr>a_details := (a_details l)\<lparr>Duration := dur\<rparr>,
          a_until := (if 0 \<le> dur then Some (now + dur) else None)\<rparr>"
        using a(3) False r(6-8) by (simp add: alock_of_def)
      have "abs_locks m5 = (abs_locks m1)(tok := Some (alock_of (nodes m5 a)))"
        using abs_locks_upd [OF m1(2) a(1) r(2)] r(4) a(2) by blast
      moreover have "Refresh now tok dur m = Return (Inr (details (nodes m5 a)), m5)"
      proof -
        have d: "Duration (details (nodes m3 a)) = dur" by (simp add: m3_def)
        then have "upd_node a (\<lambda>x. x\<lparr>expiry := now + Duration (details x)\<rparr>) m3 =
            upd_node a (\<lambda>x. x\<lparr>expiry := now + dur\<rparr>) m3" by (simp add: upd_node_def)
        then show ?thesis
          using False by (simp add: Refresh_def m1(1) bt Let_def d m5_def m4_def flip: m2_def m3_def)
      qed
      ultimately show ?thesis
        using m1 r(1,3,6,7) Some h False a(3) unfolding al
        by (intro exI [of _ m5]) (simp add: Let_def alock_of_def)
    qed
  qed
qed

definition new_alock :: "int \<Rightarrow> LockDetails \<Rightarrow> alock" where
  "new_alock now d = \<lparr>a_details = d,
     a_until = (if 0 \<le> Duration d then Some (now + Duration d) else None), a_held = False\<rparr>"

definition commit :: "int \<Rightarrow> LockDetails \<Rightarrow> nat \<Rightarrow> string \<Rightarrow> memLS \<Rightarrow> memLS" where
  "commit now d n tok m =
     (let m = m\<lparr>nodes := (nodes m)(n := (nodes m n)\<lparr>token := tok, details := d\<rparr>),
            byToken := (byToken m)(tok := Some n)\<rparr>
      in if 0 \<le> Duration d then
           on_heap (heap_push n) (upd_node n (\<lambda>x. x\<lparr>expiry := now + Duration d\<rparr>) m)
         else m)"

lemma Create_commit:
  assumes "collectExpiredNodes now m = Return m1"
    and "canCreate (slashClean (Root d)) (ZeroDepth d) m1 = Return True"
    and "create (slashClean (Root d)) m1 = Return (Some n, m2)"
    and "m3 = commit now (d\<lparr>Root := slashClean (Root d)\<rparr>) n (show_nat (unat (gen m2 + 1)))
      (m2\<lparr>gen := gen m2 + 1\<rparr>)"
  shows "Create now d m = Return (Inr (token (nodes m3 n)), m3)"
  by (simp add: Create_def assms nextToken_def commit_def Let_def upd_node_def)

lemma commit_ok:
  assumes ok: "ls_ok m" and d: "Root d = abs_path cs" and cs: "list_all valid_comp cs"
    and g: "grown (ancestors cs) m m2" "names_ok m2" "byName m2 (abs_path cs) = Some n"
    and tok: "byToken m tok = None" "tok \<noteq> []"
    and no: "\<And>b. locked m b \<Longrightarrow> \<not> conflict (details (nodes m b)) d"
    and m': "m' = commit now d n tok (m2\<lparr>gen := g\<rparr>)"
  shows "ls_ok m'" and "gen m' = g" and "held (nodes m' b) = held (nodes m b)"
    and "token (nodes m' n) = tok" and "abs_locks m' = (abs_locks m)(tok := Some (new_alock now d))"
proof -
  have same2: "token (nodes m2 b) = token (nodes m b)" "held (nodes m2 b) = held (nodes m b)"
    "byExpiryIndex (nodes m2 b) = byExpiryIndex (nodes m b)" for b
    using g(1) by (simp_all add: grown_def)
  have old2: "details (nodes m2 b) = details (nodes m b)" "expiry (nodes m2 b) = expiry (nodes m b)"
    if "locked m b" for b using g(1) locked_root(2) [OF ok that] by (simp_all add: grown_def)
  have e2: "byExpiry m2 = byExpiry m" "byToken m2 = byToken m" using g(1) by (simp_all add: grown_def)
  have nl: "\<not> locked m n"
  proof
    assume n: "locked m n"
    then have "byName m (root_of m n) = Some n" using ok by (simp add: ls_ok_def locks_named_def)
    then have "byName m2 (root_of m n) = Some n" using g(1) by (simp add: grown_def)
    then have "root_of m n = abs_path cs" using names_ok_inj [OF g(2,3)] by blast
    then show False using no [OF n] by (simp add: conflict_def root_of_def d)
  qed
  then have nh: "\<not> held (nodes m n)" using ok by (auto simp: ls_ok_def held_ok_def)
  define m3 where "m3 = m2\<lparr>gen := g, nodes := (nodes m2)(n := (nodes m2 n)\<lparr>token := tok, details := d,
    expiry := if 0 \<le> Duration d then now + Duration d else expiry (nodes m2 n)\<rparr>),
    byToken := (byToken m2)(tok := Some n)\<rparr>"
  have nq: "n \<notin> set (byExpiry m3)" using ok nl by (simp add: m3_def e2 ls_ok_def queue_ok_def)
  have mem: "expiry (nodes m3 b) = expiry (nodes m b)" if "b \<in> set (byExpiry m)" for b
    using that nq ok by (auto simp: m3_def e2 old2 ls_ok_def queue_ok_def)
  have "heap_ok (heap_of m3) = heap_ok (heap_of m)"
    using heap_ok_cong [of "nodes m3" "nodes m" "byExpiry m"] mem by (simp add: m3_def e2 same2)
  then have hok: "heap_ok (heap_of m3)" using ok by (simp add: ls_ok_def queue_ok_def)
  have m3: "m' = (if 0 \<le> Duration d then on_heap (heap_push n) m3 else m3)"
    by (simp add: m' commit_def m3_def Let_def upd_node_def)
  note q = enqueue [OF hok nq m3]
  have f: "token (nodes m' b) = (if b = n then tok else token (nodes m b))"
    "held (nodes m' b) = held (nodes m b)" "refCount (nodes m' b) = refCount (nodes m2 b)"
    "details (nodes m' b) = (if b = n then d else details (nodes m2 b))"
    "expiry (nodes m' b) = (if b = n \<and> 0 \<le> Duration d then now + Duration d else expiry (nodes m2 b))" for b
    by (simp_all add: same_nodes_fields [OF q(3)] m3_def same2)
  have c: "cnt m' = cnt m2" by (rule cnt_cong) (simp_all add: q m3_def f)
  have roots: "root_of m' b = root_of m2 b" if "byName m2 nm = Some b" for b nm
  proof (cases "b = n")
    case True
    then have "root_of m2 b = abs_path cs" using g(2,3) unfolding names_ok_def by blast
    then show ?thesis by (simp add: root_of_def f True d)
  qed (simp add: root_of_def f)
  have names': "names_ok m'"
    using g(2) roots unfolding names_ok_def by (simp add: q m3_def f)
  show okm: "ls_ok m'"
  proof (rule add_lock_ok [OF ok names' cs])
    show "cnt m' nm = cnt m nm + (if nm \<in> ancestors cs then 1 else 0)" for nm
      using g(1) by (simp add: c grown_def)
    show "byName m' nm = Some b" if "byName m nm = Some b" for nm b
      using g(1) that by (simp add: q m3_def grown_def)
    show "byName m' (abs_path cs) = Some n" using g(3) by (simp add: q m3_def)
    show "token (nodes m' n) = tok" "root_of m' n = abs_path cs" by (simp_all add: f root_of_def d)
    show "\<not> held (nodes m' n)" using nh by (simp add: f)
    show "byToken m' = (byToken m)(tok := Some n)" by (simp add: q m3_def e2)
    show "token (nodes m' b) = token (nodes m b) \<and> held (nodes m' b) = held (nodes m b)"
      if "b \<noteq> n" for b using that by (simp add: f)
    show "details (nodes m' b) = details (nodes m b)" if "locked m b" for b
      using that nl old2 by (auto simp: f)
    show "heap_ok (heap_of m')" by (rule q)
    show "set (byExpiry m') = (if 0 \<le> Duration (details (nodes m' n)) then insert n (set (byExpiry m))
      else set (byExpiry m))" by (simp add: q f) (simp add: m3_def e2)
    show "loc m b \<noteq> cs \<and> (strict_prefix cs (loc m b) \<longrightarrow> ZeroDepth (details (nodes m' n))) \<and>
      (strict_prefix (loc m b) cs \<longrightarrow> ZeroDepth (details (nodes m b)))" if "locked m b" for b
      using no [OF that] cs by (auto simp: conflict_def Let_def loc_def root_of_def f d)
  qed (use nl tok in simp_all)
  show "gen m' = g" by (simp add: q m3_def)
  show "held (nodes m' b) = held (nodes m b)" "token (nodes m' n) = tok" by (simp_all add: f)
  show "abs_locks m' = (abs_locks m)(tok := Some (new_alock now d))"
  proof
    fix t
    show "abs_locks m' t = ((abs_locks m)(tok := Some (new_alock now d))) t"
    proof (cases "t = tok")
      case True
      then show ?thesis using nh by (simp add: abs_locks_def q m3_def f alock_of_def new_alock_def)
    next
      case False
      have "alock_of (nodes m' b) = alock_of (nodes m b)" if "byToken m t = Some b" for b
      proof -
        have b: "locked m b" using ok that by (auto simp: ls_ok_def tokens_ok_def locked_def)
        then have "b \<noteq> n" using nl by blast
        then show ?thesis by (simp add: alock_of_def f old2 [OF b])
      qed
      then show ?thesis using False by (cases "byToken m t") (simp_all add: abs_locks_def q m3_def e2)
    qed
  qed
qed

lemma Create_ok:
  assumes ok: "ls_ok m" and tok: "byToken m (show_nat (unat (gen m + 1))) = None"
  shows "\<exists>m'. ls_ok m' \<and> (\<forall>b. held (nodes m' b) = held (nodes m b)) \<and>
    (let A = purge now (abs_locks m); d' = d\<lparr>Root := slashClean (Root d)\<rparr>;
         t = show_nat (unat (gen m + 1))
     in if \<exists>t l. A t = Some l \<and> conflict (a_details l) d'
        then Create now d m = Return (Inl ErrLocked, m') \<and> gen m' = gen m \<and> abs_locks m' = A
        else Create now d m = Return (Inr t, m') \<and> gen m' = gen m + 1 \<and>
             abs_locks m' = A(t := Some (new_alock now d')))"
proof -
  let ?d = "d\<lparr>Root := slashClean (Root d)\<rparr>" and ?t = "show_nat (unat (gen m + 1))"
  obtain m1 where m1: "collectExpiredNodes now m = Return m1" "ls_ok m1"
    "abs_locks m1 = purge now (abs_locks m)" "gen m1 = gen m" "\<forall>a. held (nodes m1 a) = held (nodes m a)"
    using collect_ok [OF ok] by blast
  have can: "canCreate (slashClean (Root d)) (ZeroDepth d) m1 =
      Return (\<not> (\<exists>t l. abs_locks m1 t = Some l \<and> conflict (a_details l) ?d))"
    using canCreate_ok [OF m1(2), of ?d] by simp
  show ?thesis
  proof (cases "\<exists>t l. abs_locks m1 t = Some l \<and> conflict (a_details l) ?d")
    case True
    then have "Create now d m = Return (Inl ErrLocked, m1)"
      using can by (simp add: Create_def m1(1))
    then show ?thesis using m1 True by (intro exI [of _ m1]) (simp add: Let_def)
  next
    case False
    obtain m2 n where g: "create (slashClean (Root d)) m1 = Return (Some n, m2)"
      "grown (ancestors (name_comps (Root d))) m1 m2" "names_ok m2"
      "byName m2 (abs_path (name_comps (Root d))) = Some n"
      using create_walk [of "name_comps (Root d)" m1] m1(2) ls_ok_blank [OF m1(2)]
      by (auto simp: slashClean_comps ls_ok_def)
    define m3 where "m3 = commit now ?d n (show_nat (unat (gen m2 + 1))) (m2\<lparr>gen := gen m2 + 1\<rparr>)"
    have gen2: "gen m2 = gen m" using g(2) m1(4) by (simp add: grown_def)
    have "abs_locks m ?t = None" using tok by (simp add: abs_locks_def)
    then have "abs_locks m1 ?t = None" by (simp add: m1(3) purge_def)
    then have t1: "byToken m1 ?t = None" by (simp add: abs_locks_def)
    have no: "\<not> conflict (details (nodes m1 b)) ?d" if "locked m1 b" for b
    proof -
      have "abs_locks m1 (token (nodes m1 b)) = Some (alock_of (nodes m1 b))"
        using abs_locks_Some [OF m1(2)] that by blast
      then show ?thesis using False by (metis alock.select_convs(1) alock_of_def)
    qed
    note c = commit_ok [OF m1(2) _ name_comps_valid g(2-4) t1 _ no m3_def [unfolded gen2]]
    have "Create now d m = Return (Inr (token (nodes m3 n)), m3)"
      using Create_commit [OF m1(1) _ g(1) m3_def] can False by simp
    moreover have "token (nodes m3 n) = ?t" by (rule c) (simp_all add: slashClean_comps)
    moreover have "ls_ok m3" by (rule c) (simp_all add: slashClean_comps)
    moreover have "gen m3 = gen m + 1" by (rule c) (simp_all add: slashClean_comps)
    moreover have "abs_locks m3 = (abs_locks m1)(?t := Some (new_alock now ?d))"
      by (rule c) (simp_all add: slashClean_comps)
    moreover have "held (nodes m3 b) = held (nodes m1 b)" for b
      by (rule c) (simp_all add: slashClean_comps)
    ultimately show ?thesis using m1 False by (intro exI [of _ m3]) (simp add: Let_def)
  qed
qed

lemma claimed_lookup:
  assumes ok: "ls_ok m" and n: "n = (if name \<noteq> [] then lookup m (slashClean name) conds else None)"
  shows "name \<noteq> [] \<and> n = None \<longleftrightarrow> name \<noteq> [] \<and> claimed (abs_locks m) name conds = None"
    and "set_option n \<subseteq> {a. locked m a \<and> \<not> held (nodes m a)}"
    and "tokens_of m n = set_option (claimed (abs_locks m) name conds)"
proof -
  have "lookup m (slashClean name) conds = None \<longleftrightarrow> spec_lookup (abs_locks m) (name_comps name) conds = None"
    using lookup_spec [OF ok name_comps_valid] lookup_node [OF ok name_comps_valid, of name conds]
    by (cases "spec_lookup (abs_locks m) (name_comps name) conds") (auto simp: slashClean_comps)
  then show "name \<noteq> [] \<and> n = None \<longleftrightarrow> name \<noteq> [] \<and> claimed (abs_locks m) name conds = None"
    by (simp add: n claimed_def)
  show "set_option n \<subseteq> {a. locked m a \<and> \<not> held (nodes m a)}"
    and "tokens_of m n = set_option (claimed (abs_locks m) name conds)"
    using lookup_spec [OF ok name_comps_valid, of name conds] lookup_node [OF ok name_comps_valid, of name conds]
    by (cases "spec_lookup (abs_locks m) (name_comps name) conds";
        auto simp: n claimed_def tokens_of_def slashClean_comps)+
qed

lemma Confirm_ok:
  assumes ok: "ls_ok m"
  shows "\<exists>m'. ls_ok m' \<and> gen m' = gen m \<and>
    (let A = purge now (abs_locks m); t0 = claimed A name0 conds; t1 = claimed A name1 conds
     in if (name0 \<noteq> [] \<and> t0 = None) \<or> (name1 \<noteq> [] \<and> t1 = None)
        then Confirm now name0 name1 conds m = Return (Inl ErrConfirmationFailed, m') \<and>
             abs_locks m' = A \<and> (\<forall>b. held (nodes m' b) = held (nodes m b))
        else \<exists>n0 n1. Confirm now name0 name1 conds m = Return (Inr (n0, n1), m') \<and>
             abs_locks m' = set_held True (set_option t0 \<union> set_option t1) A \<and>
             tokens_of m' n0 \<union> tokens_of m' n1 = set_option t0 \<union> set_option t1 \<and>
             set_option n0 \<inter> set_option n1 = {} \<and>
             (\<forall>b. held (nodes m' b) \<longleftrightarrow> b \<in> set_option n0 \<union> set_option n1 \<or> held (nodes m b)) \<and>
             (\<forall>b \<in> set_option n0 \<union> set_option n1. \<not> held (nodes m b)))"
proof -
  obtain m1 where m1: "collectExpiredNodes now m = Return m1" "ls_ok m1"
    "abs_locks m1 = purge now (abs_locks m)" "gen m1 = gen m" "\<forall>a. held (nodes m1 a) = held (nodes m a)"
    using collect_ok [OF ok] by blast
  define n0 where "n0 = (if name0 \<noteq> [] then lookup m1 (slashClean name0) conds else None)"
  define n1 where "n1 = (if name1 \<noteq> [] then lookup m1 (slashClean name1) conds else None)"
  define n1' where "n1' = (if n1 = n0 then None else n1)"
  have confirm: "Confirm now name0 name1 conds m =
    (if name0 \<noteq> [] \<and> n0 = None \<or> name1 \<noteq> [] \<and> n1 = None then Return (Inl ErrConfirmationFailed, m1)
     else go_bind (hold_opt n0 m1) (\<lambda>m. go_bind (hold_opt n1' m) (\<lambda>m. Return (Inr (n0, n1'), m))))"
    unfolding Confirm_def m1(1) n1'_def n0_def n1_def Let_def by (auto simp del: not_Cons_self)
  note l0 = claimed_lookup [OF m1(2) n0_def] and l1 = claimed_lookup [OF m1(2) n1_def]
  let ?t0 = "claimed (abs_locks m1) name0 conds" and ?t1 = "claimed (abs_locks m1) name1 conds"
  show ?thesis
  proof (cases "(name0 \<noteq> [] \<and> ?t0 = None) \<or> (name1 \<noteq> [] \<and> ?t1 = None)")
    case True
    then have "Confirm now name0 name1 conds m = Return (Inl ErrConfirmationFailed, m1)"
      unfolding confirm using l0(1) l1(1) by simp
    then show ?thesis using m1 True by (intro exI [of _ m1]) (simp add: Let_def)
  next
    case False
    obtain m2 where m2: "hold_opt n0 m1 = Return m2" "ls_ok m2" "byToken m2 = byToken m1" "gen m2 = gen m1"
      "abs_locks m2 = set_held True (tokens_of m1 n0) (abs_locks m1)"
      "\<forall>b. token (nodes m2 b) = token (nodes m1 b)"
      "\<forall>b. held (nodes m2 b) \<longleftrightarrow> b \<in> set_option n0 \<or> held (nodes m1 b)"
      using hold_opt_ok [OF m1(2), of n0] l0(2) by fastforce
    have dis: "set_option n0 \<inter> set_option n1' = {}"
      by (cases n0; cases n1) (auto simp: n1'_def)
    have n1: "locked m2 a \<and> \<not> held (nodes m2 a)" if "n1' = Some a" for a
      using that l1(2) dis m2(6,7) by (auto simp: n1'_def locked_def split: if_splits)
    obtain m3 where m3: "hold_opt n1' m2 = Return m3" "ls_ok m3" "gen m3 = gen m2"
      "abs_locks m3 = set_held True (tokens_of m2 n1') (abs_locks m2)"
      "\<forall>b. token (nodes m3 b) = token (nodes m2 b)"
      "\<forall>b. held (nodes m3 b) \<longleftrightarrow> b \<in> set_option n1' \<or> held (nodes m2 b)"
      using hold_opt_ok [OF m2(2) n1] by blast
    have tk: "tokens_of m3 n = tokens_of m1 n" "tokens_of m2 n = tokens_of m1 n" for n
      by (simp_all add: tokens_of_def m2(6) m3(5))
    have un: "tokens_of m1 n1' \<union> tokens_of m1 n0 = set_option ?t0 \<union> set_option ?t1"
      using l0(3) l1(3) by (auto simp: n1'_def tokens_of_def)
    have abs3: "abs_locks m3 = set_held True (set_option ?t0 \<union> set_option ?t1) (abs_locks m1)"
      by (simp add: m3(4) m2(5) set_held_Un tk un)
    have "Confirm now name0 name1 conds m = Return (Inr (n0, n1'), m3)"
    proof -
      have "\<not> (name0 \<noteq> [] \<and> n0 = None \<or> name1 \<noteq> [] \<and> n1 = None)" using False l0(1) l1(1) by blast
      then show ?thesis unfolding confirm using m2(1) m3(1) by simp
    qed
    moreover have "held (nodes m3 b) \<longleftrightarrow> b \<in> set_option n0 \<union> set_option n1' \<or> held (nodes m b)" for b
      using m3(6) m2(7) m1(5) by auto
    moreover have "\<forall>b \<in> set_option n0 \<union> set_option n1'. \<not> held (nodes m b)"
      using l0(2) l1(2) m1(5) by (auto simp: n1'_def split: if_splits)
    moreover have "tokens_of m3 n0 \<union> tokens_of m3 n1' = set_option ?t0 \<union> set_option ?t1"
      using un by (auto simp: tk)
    moreover have "gen m3 = gen m" by (simp add: m3(3) m2(4) m1(4))
    ultimately show ?thesis
      unfolding Let_def m1(3) [symmetric] if_not_P [OF False]
      using m3(2) abs3 dis by (intro exI [of _ m3] conjI) (assumption, assumption, blast)
  qed
qed

lemma Release_ok:
  assumes ok: "ls_ok m" and h: "set_option n0 \<union> set_option n1 \<subseteq> {a. held (nodes m a)}"
    and dis: "set_option n0 \<inter> set_option n1 = {}"
  shows "\<exists>m'. Release (n0, n1) m = Return m' \<and> ls_ok m' \<and> gen m' = gen m \<and>
    abs_locks m' = set_held False (tokens_of m n0 \<union> tokens_of m n1) (abs_locks m) \<and>
    (\<forall>b. held (nodes m' b) \<longleftrightarrow> b \<notin> set_option n0 \<union> set_option n1 \<and> held (nodes m b))"
proof -
  obtain m1 where m1: "unhold_opt n1 m = Return m1" "ls_ok m1" "gen m1 = gen m"
    "abs_locks m1 = set_held False (tokens_of m n1) (abs_locks m)"
    "\<forall>b. token (nodes m1 b) = token (nodes m b)"
    "\<forall>b. held (nodes m1 b) \<longleftrightarrow> b \<notin> set_option n1 \<and> held (nodes m b)"
    using unhold_opt_ok [OF ok, of n1] h by fastforce
  have "held (nodes m1 a)" if "n0 = Some a" for a using that h dis m1(6) by auto
  then obtain m2 where m2: "unhold_opt n0 m1 = Return m2" "ls_ok m2" "gen m2 = gen m1"
    "abs_locks m2 = set_held False (tokens_of m1 n0) (abs_locks m1)"
    "\<forall>b. held (nodes m2 b) \<longleftrightarrow> b \<notin> set_option n0 \<and> held (nodes m1 b)"
    using unhold_opt_ok [OF m1(2), of n0] by blast
  have "tokens_of m1 n0 = tokens_of m n0" by (simp add: tokens_of_def m1(5))
  then show ?thesis using m1 m2 by (simp add: Release_def set_held_Un)
qed

section \<open>Runs\<close>

text \<open>
  The reachable states with the releases that are outstanding, in any order of operations
  and with any clock readings.  The counter of tokens is 64 bits wide, so a run has at most
  \<open>2 ^ 64\<close> locks in its life before a token could be given twice; \<open>k\<close> counts them.
\<close>

inductive ls_reach :: "64 word \<Rightarrow> nat \<Rightarrow> memLS \<Rightarrow> (nat option \<times> nat option) list \<Rightarrow> bool" for g0 where
  init: "ls_reach g0 0 (NewMemLS g0) []"
| created: "ls_reach g0 k m R \<Longrightarrow> k < 2 ^ 64 \<Longrightarrow> Create now d m = Return (Inr t, m') \<Longrightarrow>
    ls_reach g0 (Suc k) m' R"
| not_created: "ls_reach g0 k m R \<Longrightarrow> k < 2 ^ 64 \<Longrightarrow> Create now d m = Return (Inl e, m') \<Longrightarrow>
    ls_reach g0 k m' R"
| refreshed: "ls_reach g0 k m R \<Longrightarrow> Refresh now tok dur m = Return (r, m') \<Longrightarrow> ls_reach g0 k m' R"
| unlocked: "ls_reach g0 k m R \<Longrightarrow> Unlock now tok m = Return (r, m') \<Longrightarrow> ls_reach g0 k m' R"
| confirmed: "ls_reach g0 k m R \<Longrightarrow> Confirm now name0 name1 conds m = Return (Inr r, m') \<Longrightarrow>
    ls_reach g0 k m' (r # R)"
| not_confirmed: "ls_reach g0 k m R \<Longrightarrow> Confirm now name0 name1 conds m = Return (Inl e, m') \<Longrightarrow>
    ls_reach g0 k m' R"
| released: "ls_reach g0 k m (R1 @ r # R2) \<Longrightarrow> Release r m = Return m' \<Longrightarrow> ls_reach g0 k m' (R1 @ R2)"

definition held_nodes :: "nat option \<times> nat option \<Rightarrow> nat set" where
  "held_nodes r = set_option (fst r) \<union> set_option (snd r)"

text \<open>The outstanding releases own the held nodes, each node exactly once.\<close>

fun own :: "(nat option \<times> nat option) list \<Rightarrow> bool" where
  "own [] = True"
| "own (r # R) \<longleftrightarrow> set_option (fst r) \<inter> set_option (snd r) = {} \<and>
     held_nodes r \<inter> (\<Union>q \<in> set R. held_nodes q) = {} \<and> own R"

lemma own_middle:
  "own (R1 @ r # R2) \<Longrightarrow> set_option (fst r) \<inter> set_option (snd r) = {} \<and> own (R1 @ R2) \<and>
     held_nodes r \<inter> (\<Union>q \<in> set (R1 @ R2). held_nodes q) = {}"
proof (induction R1)
  case (Cons q R1)
  have eq: "(\<Union>x \<in> set (R1 @ r # R2). held_nodes x) = held_nodes r \<union> (\<Union>x \<in> set (R1 @ R2). held_nodes x)"
    by auto
  show ?case using Cons unfolding append_Cons own.simps eq by auto
qed (simp add: held_nodes_def)

definition gen_ok :: "64 word \<Rightarrow> nat \<Rightarrow> memLS \<Rightarrow> bool" where
  "gen_ok g0 k m \<longleftrightarrow> gen m = g0 + of_nat k \<and>
     (\<forall>t \<in> dom (abs_locks m). \<exists>j. 0 < j \<and> j \<le> k \<and> t = show_nat (unat (g0 + of_nat j)))"

definition run_ok :: "64 word \<Rightarrow> nat \<Rightarrow> memLS \<Rightarrow> (nat option \<times> nat option) list \<Rightarrow> bool" where
  "run_ok g0 k m R \<longleftrightarrow> ls_ok m \<and> gen_ok g0 k m \<and> own R \<and>
     (\<Union>r \<in> set R. held_nodes r) = {a. held (nodes m a)}"

lemma gen_ok_dom:
  "gen_ok g0 k m \<Longrightarrow> gen m' = gen m \<Longrightarrow> dom (abs_locks m') \<subseteq> dom (abs_locks m) \<Longrightarrow> gen_ok g0 k m'"
  unfolding gen_ok_def by auto

lemma dom_purge: "dom (purge now A) \<subseteq> dom A"
  by (auto simp: purge_def split: option.splits)

lemma dom_set_held [simp]: "dom (set_held v T A) = dom A"
  by (auto simp: set_held_def)

lemma next_token_fresh:
  assumes "gen_ok g0 k m" and "k < 2 ^ 64"
  shows "abs_locks m (show_nat (unat (gen m + 1))) = None"
proof (rule ccontr)
  assume "abs_locks m (show_nat (unat (gen m + 1))) \<noteq> None"
  then obtain j where j: "0 < j" "j \<le> k" "show_nat (unat (gen m + 1)) = show_nat (unat (g0 + of_nat j))"
    using assms(1) unfolding gen_ok_def by blast
  have "int (unat w) \<le> 18446744073709551615" for w :: "64 word"
  proof -
    have "uint w < 2 ^ LENGTH(64)" by (rule unsigned_less)
    then show ?thesis by simp
  qed
  then have "unat (gen m + 1) = unat (g0 + of_nat j)" using show_nat_inj [OF j(3)] by blast
  then have "gen m + 1 = g0 + of_nat j" by (rule unsigned_word_eqI)
  then have "(of_nat (Suc k) :: 64 word) = of_nat j"
    using assms(1) by (simp add: gen_ok_def add.commute)
  then have eq: "Suc k mod 2 ^ 64 = j mod 2 ^ 64"
    by (simp add: word_of_nat_eq_iff take_bit_eq_mod del: of_nat_Suc)
  have "j mod 2 ^ 64 = j" using j(2) assms(2) by simp
  moreover have "Suc k mod 2 ^ 64 = (if Suc k = 2 ^ 64 then 0 else Suc k)" using assms(2) by auto
  ultimately show False using eq j(1,2) by (simp split: if_splits)
qed

lemma init_ok: "run_ok g0 0 (NewMemLS g0) []"
proof -
  have "heap_ok (heap_of (NewMemLS g0))"
    by (simp add: heap_ok_def idx_ok_def ordered_def NewMemLS_def new_node_def)
  then show ?thesis
    by (auto simp: run_ok_def ls_ok_def gen_ok_def names_ok_def locks_named_def tokens_ok_def
        counts_ok_def queue_ok_def held_ok_def excl_ok_def under_def locked_def NewMemLS_def
        new_node_def cnt_def abs_locks_def)
qed

lemma run_ok_keep:
  assumes "run_ok g0 k m R" and "ls_ok m'" and "gen m' = gen m"
    and "dom (abs_locks m') \<subseteq> dom (abs_locks m)" and "\<forall>b. held (nodes m' b) = held (nodes m b)"
  shows "run_ok g0 k m' R"
  using assms gen_ok_dom [of g0 k m m'] by (simp add: run_ok_def)

lemma created_ok:
  assumes r: "run_ok g0 k m R" and k: "k < 2 ^ 64"
    and c: "Create now d m = Return (res, m')"
  shows "run_ok g0 (case res of Inl _ \<Rightarrow> k | Inr _ \<Rightarrow> Suc k) m' R"
proof -
  have ok: "ls_ok m" and g: "gen_ok g0 k m" using r by (simp_all add: run_ok_def)
  let ?t = "show_nat (unat (gen m + 1))" and ?A = "purge now (abs_locks m)"
  have "byToken m ?t = None" using next_token_fresh [OF g k] by (simp add: abs_locks_def)
  note spec = Create_ok [OF ok this, of now d, unfolded c Let_def]
  show ?thesis
  proof (cases res)
    case (Inl e)
    then show ?thesis
      using spec run_ok_keep [OF r, of m'] dom_purge [of now "abs_locks m"] by (auto split: if_splits)
  next
    case (Inr t)
    then have m': "ls_ok m'" "gen m' = gen m + 1" "\<forall>b. held (nodes m' b) = held (nodes m b)"
      and "abs_locks m' = ?A(?t := Some (new_alock now (d\<lparr>Root := slashClean (Root d)\<rparr>)))"
      using spec by (auto split: if_splits)
    then have dom: "dom (abs_locks m') \<subseteq> insert ?t (dom (abs_locks m))"
      using dom_purge [of now "abs_locks m"] by auto
    have "\<exists>j. 0 < j \<and> j \<le> Suc k \<and> x = show_nat (unat (g0 + of_nat j))" if "x \<in> dom (abs_locks m')" for x
    proof (cases "x = ?t")
      case True
      then show ?thesis using g by (intro exI [of _ "Suc k"]) (simp add: gen_ok_def add.commute add.left_commute)
    next
      case False
      then have "x \<in> dom (abs_locks m)" using that dom by blast
      then show ?thesis using g le_SucI unfolding gen_ok_def by blast
    qed
    moreover have "gen m' = g0 + of_nat (Suc k)" using g m'(2) by (simp add: gen_ok_def)
    ultimately have "gen_ok g0 (Suc k) m'" by (simp add: gen_ok_def del: of_nat_Suc)
    then show ?thesis using r m' Inr by (simp add: run_ok_def)
  qed
qed

lemma confirmed_ok:
  assumes r: "run_ok g0 k m R" and c: "Confirm now name0 name1 conds m = Return (res, m')"
  shows "run_ok g0 k m' (case res of Inl _ \<Rightarrow> R | Inr q \<Rightarrow> q # R)"
proof -
  have ok: "ls_ok m" using r by (simp add: run_ok_def)
  note spec = Confirm_ok [OF ok, of now name0 conds name1, unfolded c Let_def]
  show ?thesis
  proof (cases res)
    case (Inl e)
    then show ?thesis
      using spec run_ok_keep [OF r, of m'] dom_purge [of now "abs_locks m"] by (auto split: if_splits)
  next
    case (Inr q)
    then obtain T where "abs_locks m' = set_held True T (purge now (abs_locks m))"
      using spec by (auto split: if_splits)
    then have d: "dom (abs_locks m') \<subseteq> dom (abs_locks m)" using dom_purge by simp
    from Inr have q: "ls_ok m'" "gen m' = gen m"
      "set_option (fst q) \<inter> set_option (snd q) = {}"
      "\<forall>b. held (nodes m' b) \<longleftrightarrow> b \<in> held_nodes q \<or> held (nodes m b)"
      "\<forall>b \<in> held_nodes q. \<not> held (nodes m b)"
      using spec by (auto simp: held_nodes_def split: if_splits)
    have "own (q # R)" using r q(3,5) by (auto simp: run_ok_def)
    moreover have "gen_ok g0 k m'" using gen_ok_dom [OF _ q(2) d] r by (simp add: run_ok_def)
    moreover have "{a. held (nodes m' a)} = held_nodes q \<union> {a. held (nodes m a)}" using q(4) by auto
    ultimately show ?thesis using r q(1) Inr by (simp add: run_ok_def)
  qed
qed

lemma released_ok:
  assumes r: "run_ok g0 k m (R1 @ q # R2)"
  shows "\<exists>m'. Release q m = Return m' \<and> run_ok g0 k m' (R1 @ R2) \<and>
    abs_locks m' = set_held False (tokens_of m (fst q) \<union> tokens_of m (snd q)) (abs_locks m)"
proof -
  have o: "set_option (fst q) \<inter> set_option (snd q) = {}" "own (R1 @ R2)"
    "held_nodes q \<inter> (\<Union>x \<in> set (R1 @ R2). held_nodes x) = {}"
    using own_middle [of R1 q R2] r by (simp_all add: run_ok_def)
  have h: "held_nodes q \<union> (\<Union>x \<in> set (R1 @ R2). held_nodes x) = {a. held (nodes m a)}"
    using r by (auto simp: run_ok_def)
  have "ls_ok m" using r by (simp add: run_ok_def)
  then obtain m' where m': "Release q m = Return m'" "ls_ok m'" "gen m' = gen m"
    "abs_locks m' = set_held False (tokens_of m (fst q) \<union> tokens_of m (snd q)) (abs_locks m)"
    "\<forall>b. held (nodes m' b) \<longleftrightarrow> b \<notin> held_nodes q \<and> held (nodes m b)"
    using Release_ok [of m "fst q" "snd q"] o(1) h by (auto simp: held_nodes_def)
  have "(\<Union>x \<in> set (R1 @ R2). held_nodes x) = {a. held (nodes m' a)}"
    using m'(5) h o(3) by auto
  moreover have "gen_ok g0 k m'" using gen_ok_dom [of g0 k m m'] r m'(3,4) by (simp add: run_ok_def)
  ultimately show ?thesis using m' o(2) by (simp add: run_ok_def)
qed

lemma unlocked_ok:
  assumes r: "run_ok g0 k m R" and u: "Unlock now tok m = Return (res, m')"
  shows "run_ok g0 k m' R"
proof -
  have "ls_ok m" using r by (simp add: run_ok_def)
  note spec = Unlock_ok [OF this, of now tok, unfolded u]
  then have "dom (abs_locks m') \<subseteq> dom (purge now (abs_locks m))"
    by (auto split: option.splits if_splits)
  then have "dom (abs_locks m') \<subseteq> dom (abs_locks m)" using dom_purge by blast
  moreover have "ls_ok m'" "gen m' = gen m" "\<forall>b. held (nodes m' b) = held (nodes m b)"
    using spec by (auto split: option.splits if_splits)
  ultimately show ?thesis using run_ok_keep [OF r] by blast
qed

lemma refreshed_ok:
  assumes r: "run_ok g0 k m R" and u: "Refresh now tok dur m = Return (res, m')"
  shows "run_ok g0 k m' R"
proof -
  have "ls_ok m" using r by (simp add: run_ok_def)
  note spec = Refresh_ok [OF this, of now tok dur, unfolded u Let_def]
  then have "dom (abs_locks m') \<subseteq> dom (purge now (abs_locks m))"
    by (auto split: option.splits if_splits)
  then have "dom (abs_locks m') \<subseteq> dom (abs_locks m)" using dom_purge by blast
  moreover have "ls_ok m'" "gen m' = gen m" "\<forall>b. held (nodes m' b) = held (nodes m b)"
    using spec by (auto split: option.splits if_splits)
  ultimately show ?thesis using run_ok_keep [OF r] by blast
qed

lemma ls_reach_ok: "ls_reach g0 k m R \<Longrightarrow> run_ok g0 k m R"
proof (induction rule: ls_reach.induct)
  case init show ?case by (rule init_ok)
next
  case created then show ?case using created_ok by fastforce
next
  case not_created then show ?case using created_ok by fastforce
next
  case refreshed then show ?case using refreshed_ok by blast
next
  case unlocked then show ?case using unlocked_ok by blast
next
  case confirmed then show ?case using confirmed_ok by fastforce
next
  case not_confirmed then show ?case using confirmed_ok by fastforce
next
  case released then show ?case using released_ok by fastforce
qed

end
