(* ===== verification/LockTheorems.thy ===== *)
theory LockTheorems
  imports LockProps
begin

text \<open>
  The properties of the lock system of \<open>server/webdav/lock.go\<close>, over every run of it, and of
  the \<open>Timeout\<close> header; each rests on the invariant of \<open>LockProps\<close>.  The three runs at the
  start (two locks, then a confirmation under the first) are the concrete inputs of the
  witnesses.
\<close>

section \<open>Three runs\<close>

definition demo_lock :: "string \<Rightarrow> LockDetails" where
  "demo_lock name = \<lparr>Root = name, Duration = 10, OwnerXML = [], ZeroDepth = False\<rparr>"

definition demo_cond :: "Condition list" where
  "demo_cond = [\<lparr>Not = False, Token = ''1'', ETag = []\<rparr>]"

lemma demo_tokens: "show_nat (unat ((0 :: 64 word) + 1)) = ''1''" "show_nat (unat ((1 :: 64 word) + 1)) = ''2''"
  by code_simp+

lemma demo_names: "slashClean ''/a'' = ''/a''" "slashClean ''/b/c'' = ''/b/c''"
  "name_comps ''/a'' = [''a'']" "name_comps ''/b/c'' = [''b'', ''c'']" "name_comps ''/a/x'' = [''a'', ''x'']"
  "path_comps ''/a'' = [''a'']" "path_comps ''/b/c'' = [''b'', ''c'']"
  by code_simp+

lemma demo_init: "ls_reach 0 0 (NewMemLS 0) [] \<and> abs_locks (NewMemLS 0) = (\<lambda>_. None) \<and> gen (NewMemLS 0) = 0"
  by (intro conjI ls_reach.init) (auto simp: abs_locks_def NewMemLS_def)

lemma Create_run:
  assumes r: "ls_reach g0 k m R" and k: "k < 2 ^ 64"
    and no: "\<And>t l. purge now (abs_locks m) t = Some l \<Longrightarrow> \<not> conflict (a_details l) (d\<lparr>Root := slashClean (Root d)\<rparr>)"
  shows "\<exists>m'. Create now d m = Return (Inr (show_nat (unat (gen m + 1))), m') \<and>
    ls_reach g0 (Suc k) m' R \<and> gen m' = gen m + 1 \<and>
    abs_locks m' = (purge now (abs_locks m))(show_nat (unat (gen m + 1)) :=
      Some (new_alock now (d\<lparr>Root := slashClean (Root d)\<rparr>)))"
proof -
  have ok: "ls_ok m" and g: "gen_ok g0 k m" using ls_reach_ok [OF r] by (simp_all add: run_ok_def)
  have "byToken m (show_nat (unat (gen m + 1))) = None"
    using next_token_fresh [OF g k] by (simp add: abs_locks_def)
  from Create_ok [OF ok this, of now d] show ?thesis
    using no ls_reach.created [OF r k, of now d] unfolding Let_def by (auto split: if_splits)
qed

lemma demo1: "\<exists>m. ls_reach 0 1 m [] \<and> gen m = 1 \<and> abs_locks m = [''1'' \<mapsto> new_alock 0 (demo_lock ''/a'')]"
proof -
  have "purge 0 (\<lambda>_. None) = (\<lambda>_. None)" by (simp add: purge_def fun_eq_iff)
  then show ?thesis
    using Create_run [of 0 0 "NewMemLS 0" "[]" 0 "demo_lock ''/a''"] demo_init demo_tokens(1)
    by (auto simp: demo_lock_def demo_names)
qed

lemma demo2: "\<exists>m. ls_reach 0 2 m [] \<and> abs_locks m = [''1'' \<mapsto> new_alock 0 (demo_lock ''/a''),
    ''2'' \<mapsto> new_alock 5 (demo_lock ''/b/c'')]"
proof -
  obtain m where m: "ls_reach 0 1 m []" "gen m = 1" "abs_locks m = [''1'' \<mapsto> new_alock 0 (demo_lock ''/a'')]"
    using demo1 by blast
  have p: "purge 5 (abs_locks m) = abs_locks m"
    by (auto simp: m(3) purge_def fun_eq_iff expired_def new_alock_def demo_lock_def)
  have no: "\<not> conflict (a_details l) ((demo_lock ''/b/c'')\<lparr>Root := slashClean (Root (demo_lock ''/b/c''))\<rparr>)"
    if "purge 5 (abs_locks m) t = Some l" for t l
  proof -
    have "l = new_alock 0 (demo_lock ''/a'')" using that [unfolded p] by (simp add: m(3) split: if_splits)
    then show ?thesis by (simp add: new_alock_def conflict_def demo_lock_def demo_names)
  qed
  have "(demo_lock ''/b/c'')\<lparr>Root := slashClean (Root (demo_lock ''/b/c''))\<rparr> = demo_lock ''/b/c''"
    by (simp add: demo_lock_def demo_names)
  note d = this
  have k: "(1 :: nat) < 2 ^ 64" by simp
  obtain m' where m': "ls_reach 0 (Suc 1) m' []" "abs_locks m' = (purge 5 (abs_locks m))
      (show_nat (unat (gen m + 1)) := Some (new_alock 5 ((demo_lock ''/b/c'')\<lparr>Root := slashClean (Root (demo_lock ''/b/c''))\<rparr>)))"
    using Create_run [OF m(1) k, of 5 "demo_lock ''/b/c''"] no by blast
  have "ls_reach 0 2 m' []" using m'(1) by (simp only: Suc_1)
  moreover have "abs_locks m' = [''1'' \<mapsto> new_alock 0 (demo_lock ''/a''), ''2'' \<mapsto> new_alock 5 (demo_lock ''/b/c'')]"
    using m'(2) unfolding p d unfolding m(2,3) demo_tokens .
  ultimately show ?thesis by blast
qed

lemma demo3: "\<exists>m R. ls_reach 0 2 m R \<and>
  abs_locks m ''1'' = Some ((new_alock 0 (demo_lock ''/a''))\<lparr>a_held := True\<rparr>)"
proof -
  obtain m where m: "ls_reach 0 2 m []" "abs_locks m = [''1'' \<mapsto> new_alock 0 (demo_lock ''/a''),
    ''2'' \<mapsto> new_alock 5 (demo_lock ''/b/c'')]" using demo2 by blast
  have ok: "ls_ok m" using ls_reach_ok [OF m(1)] by (simp add: run_ok_def)
  have t0: "claimed (purge 6 (abs_locks m)) ''/a/x'' demo_cond = Some ''1''"
    by (simp add: claimed_def demo_names demo_cond_def m(2) purge_def expired_def new_alock_def
        demo_lock_def covers_def)
  then have no: "\<not> ((''/a/x'' \<noteq> [] \<and> claimed (purge 6 (abs_locks m)) ''/a/x'' demo_cond = None) \<or>
      ([] \<noteq> [] \<and> claimed (purge 6 (abs_locks m)) [] demo_cond = None))" by simp
  obtain r m' where m': "Confirm 6 ''/a/x'' [] demo_cond m = Return (Inr r, m')"
    "abs_locks m' = set_held True (set_option (claimed (purge 6 (abs_locks m)) ''/a/x'' demo_cond) \<union>
      set_option (claimed (purge 6 (abs_locks m)) [] demo_cond)) (purge 6 (abs_locks m))"
    using Confirm_ok [OF ok, of 6 "''/a/x''" demo_cond "[]", unfolded Let_def if_not_P [OF no]] by blast
  have "abs_locks m' ''1'' = Some ((new_alock 0 (demo_lock ''/a''))\<lparr>a_held := True\<rparr>)"
    unfolding m'(2) t0 by (simp add: set_held_def m(2) purge_def expired_def new_alock_def demo_lock_def)
  then show ?thesis using ls_reach.confirmed [OF m(1) m'(1)] by blast
qed

section \<open>Properties of every run\<close>

text \<open>C30: In every reachable state no two locks conflict: their roots differ, and if one root is
  below the other then the upper lock has zero depth.
\<close>

theorem locks_never_conflict:
  assumes "ls_reach g0 k m R" and "abs_locks m t = Some l" and "abs_locks m t' = Some l'" and "t \<noteq> t'"
  shows "\<not> conflict (a_details l) (a_details l')"
proof -
  have ok: "ls_ok m" using ls_reach_ok [OF assms(1)] by (simp add: run_ok_def)
  obtain a b where a: "locked m a" "token (nodes m a) = t" "l = alock_of (nodes m a)"
    and b: "locked m b" "token (nodes m b) = t'" "l' = alock_of (nodes m b)"
    using assms(2,3) abs_locks_Some [OF ok] by metis
  then have ne: "a \<noteq> b" using assms(4) by blast
  have "loc m a \<noteq> loc m b" using loc_inj [OF ok a(1) b(1)] ne by blast
  moreover have "excl_ok m" using ok by (simp add: ls_ok_def)
  ultimately show ?thesis
    using a b ne unfolding excl_ok_def by (auto simp: conflict_def Let_def alock_of_def loc_def root_of_def strict_prefix_def)
qed

theorem locks_never_conflict_witness:
  "\<exists>m l l'. ls_reach 0 2 m [] \<and> abs_locks m ''1'' = Some l \<and> abs_locks m ''2'' = Some l' \<and>
    \<not> conflict (a_details l) (a_details l')"
proof -
  obtain m where m: "ls_reach 0 2 m []" "abs_locks m = [''1'' \<mapsto> new_alock 0 (demo_lock ''/a''),
    ''2'' \<mapsto> new_alock 5 (demo_lock ''/b/c'')]" using demo2 by blast
  then show ?thesis using locks_never_conflict [OF m(1), of "''1''" _ "''2''"] by auto
qed

text \<open>C31: \<open>Create\<close> first drops the expired locks, then refuses exactly when a remaining lock
  conflicts with the requested one, and otherwise adds the lock under a token that no lock
  has; it never panics.
\<close>

theorem Create_refines:
  assumes "ls_reach g0 k m R" and "k < 2 ^ 64"
  shows "\<exists>m' t. let A = purge now (abs_locks m); d' = d\<lparr>Root := slashClean (Root d)\<rparr>
    in if \<exists>t l. A t = Some l \<and> conflict (a_details l) d'
       then Create now d m = Return (Inl ErrLocked, m') \<and> abs_locks m' = A
       else Create now d m = Return (Inr t, m') \<and> abs_locks m t = None \<and>
            abs_locks m' = A(t := Some (new_alock now d'))"
proof -
  have ok: "ls_ok m" and g: "gen_ok g0 k m" using ls_reach_ok [OF assms(1)] by (simp_all add: run_ok_def)
  note fresh = next_token_fresh [OF g assms(2)]
  then have "byToken m (show_nat (unat (gen m + 1))) = None" by (simp add: abs_locks_def)
  from Create_ok [OF ok this, of now d] show ?thesis
    using fresh unfolding Let_def by metis
qed

theorem Create_refines_witness:
  "\<exists>m m'. ls_reach 0 2 m [] \<and> Create 5 (demo_lock ''/a'') m = Return (Inl ErrLocked, m')"
proof -
  obtain m where m: "ls_reach 0 2 m []" "abs_locks m = [''1'' \<mapsto> new_alock 0 (demo_lock ''/a''),
    ''2'' \<mapsto> new_alock 5 (demo_lock ''/b/c'')]" using demo2 by blast
  have "purge 5 (abs_locks m) ''1'' = Some (new_alock 0 (demo_lock ''/a''))"
    by (simp add: m(2) purge_def expired_def new_alock_def demo_lock_def)
  moreover have "conflict (a_details (new_alock 0 (demo_lock ''/a'')))
      ((demo_lock ''/a'')\<lparr>Root := slashClean (Root (demo_lock ''/a''))\<rparr>)"
    by (simp add: conflict_def new_alock_def demo_lock_def demo_names)
  ultimately have conf: "\<exists>t l. purge 5 (abs_locks m) t = Some l \<and> conflict (a_details l)
      ((demo_lock ''/a'')\<lparr>Root := slashClean (Root (demo_lock ''/a''))\<rparr>)" by blast
  have k: "(2 :: nat) < 2 ^ 64" by simp
  show ?thesis
    using Create_refines [OF m(1) k, of 5 "demo_lock ''/a''", unfolded Let_def if_P [OF conf]] m(1) by blast
qed

text \<open>C32: \<open>Confirm\<close> drops the expired locks and succeeds exactly when every non-empty name is
  covered by an unheld lock whose token is among the conditions; it then holds these locks
  and nothing else, and its release, which is then outstanding, never panics and gives back
  exactly these locks.
\<close>

theorem Confirm_refines:
  assumes "ls_reach g0 k m R"
  shows "\<exists>m'. let A = purge now (abs_locks m); t0 = claimed A name0 conds; t1 = claimed A name1 conds
    in if (name0 \<noteq> [] \<and> t0 = None) \<or> (name1 \<noteq> [] \<and> t1 = None)
       then Confirm now name0 name1 conds m = Return (Inl ErrConfirmationFailed, m') \<and> abs_locks m' = A
       else \<exists>r m''. Confirm now name0 name1 conds m = Return (Inr r, m') \<and>
            abs_locks m' = set_held True (set_option t0 \<union> set_option t1) A \<and>
            Release r m' = Return m'' \<and>
            abs_locks m'' = set_held False (set_option t0 \<union> set_option t1) (abs_locks m')"
proof -
  have run: "run_ok g0 k m R" by (rule ls_reach_ok [OF assms])
  then have "ls_ok m" by (simp add: run_ok_def)
  from Confirm_ok [OF this, of now name0 conds name1]
  obtain m' where m': "let A = purge now (abs_locks m); t0 = claimed A name0 conds; t1 = claimed A name1 conds
     in if (name0 \<noteq> [] \<and> t0 = None) \<or> (name1 \<noteq> [] \<and> t1 = None)
        then Confirm now name0 name1 conds m = Return (Inl ErrConfirmationFailed, m') \<and> abs_locks m' = A
        else \<exists>n0 n1. Confirm now name0 name1 conds m = Return (Inr (n0, n1), m') \<and>
             abs_locks m' = set_held True (set_option t0 \<union> set_option t1) A \<and>
             tokens_of m' n0 \<union> tokens_of m' n1 = set_option t0 \<union> set_option t1"
    unfolding Let_def by (auto split: if_splits)
  have "\<exists>m''. Release (n0, n1) m' = Return m'' \<and>
      abs_locks m'' = set_held False (tokens_of m' n0 \<union> tokens_of m' n1) (abs_locks m')"
    if "Confirm now name0 name1 conds m = Return (Inr (n0, n1), m')" for n0 n1
    using released_ok [of g0 k m' "[]" "(n0, n1)" R] confirmed_ok [OF run that] by auto
  then show ?thesis using m' unfolding Let_def by (metis (no_types, lifting))
qed

theorem Confirm_refines_witness:
  "\<exists>m m' r. ls_reach 0 2 m [] \<and> Confirm 6 ''/a/x'' [] demo_cond m = Return (Inr r, m')"
proof -
  obtain m where m: "ls_reach 0 2 m []" "abs_locks m = [''1'' \<mapsto> new_alock 0 (demo_lock ''/a''),
    ''2'' \<mapsto> new_alock 5 (demo_lock ''/b/c'')]" using demo2 by blast
  have "claimed (purge 6 (abs_locks m)) ''/a/x'' demo_cond = Some ''1''"
    by (simp add: claimed_def demo_names demo_cond_def m(2) purge_def expired_def new_alock_def
        demo_lock_def covers_def)
  then have "\<not> ((''/a/x'' \<noteq> [] \<and> claimed (purge 6 (abs_locks m)) ''/a/x'' demo_cond = None) \<or>
      ([] \<noteq> [] \<and> claimed (purge 6 (abs_locks m)) [] demo_cond = None))" by simp
  from Confirm_refines [OF m(1), of 6 "''/a/x''" demo_cond "[]", unfolded Let_def if_not_P [OF this]] m(1)
  show ?thesis by blast
qed

text \<open>C33: While a lock is held, no other request can confirm a name under it, whatever tokens it
  presents and whichever of the two names it is: a confirmation gives exclusive access.
\<close>

theorem Confirm_exclusive:
  assumes "ls_reach g0 k m R" and "abs_locks m t = Some l" and "a_held l"
    and "covers (a_details l) (name_comps name)" and "name \<noteq> []"
  shows "\<exists>m1 m2. Confirm now name name1 conds m = Return (Inl ErrConfirmationFailed, m1) \<and>
    Confirm now name0 name conds m = Return (Inl ErrConfirmationFailed, m2)"
proof -
  have ok: "ls_ok m" using ls_reach_ok [OF assms(1)] by (simp add: run_ok_def)
  obtain a where a: "locked m a" "token (nodes m a) = t" "l = alock_of (nodes m a)"
    using assms(2) abs_locks_Some [OF ok] by metis
  have "claimed (purge now (abs_locks m)) name conds = None"
  proof (rule ccontr)
    assume "claimed (purge now (abs_locks m)) name conds \<noteq> None"
    then obtain t' l' where l': "purge now (abs_locks m) t' = Some l'" "\<not> a_held l'"
      "covers (a_details l') (name_comps name)"
      using spec_lookup_Some assms(5) by (fastforce simp: claimed_def)
    then have "abs_locks m t' = Some l'" by (auto simp: purge_def split: option.splits if_splits)
    then obtain b where b: "locked m b" "l' = alock_of (nodes m b)"
      using abs_locks_Some [OF ok] by metis
    have ne: "a \<noteq> b" using a(3) b(2) assms(3) l'(2) by auto
    have cov: "loc m c = name_comps name \<or> (\<not> ZeroDepth (details (nodes m c)) \<and>
        strict_prefix (loc m c) (name_comps name))"
      if "covers (details (nodes m c)) (name_comps name)" for c
      using that by (simp add: covers_def loc_def root_of_def)
    have pc: "prefix (loc m c) (name_comps name)" if "covers (details (nodes m c)) (name_comps name)" for c
      using cov [OF that] by (auto simp: strict_prefix_def)
    have ca: "covers (details (nodes m a)) (name_comps name)" and cb: "covers (details (nodes m b)) (name_comps name)"
      using assms(4) l'(3) a(3) b(2) by (simp_all add: alock_of_def)
    have "excl_ok m" using ok by (simp add: ls_ok_def)
    moreover have "loc m a \<noteq> loc m b" using loc_inj [OF ok a(1) b(1)] ne by blast
    ultimately show False
      using prefix_same_cases [OF pc [OF ca] pc [OF cb]] cov [OF ca] cov [OF cb] a(1) b(1) ne
      unfolding excl_ok_def strict_prefix_def by (metis prefix_order.antisym)
  qed
  then show ?thesis
    using Confirm_ok [OF ok, of now name conds name1] Confirm_ok [OF ok, of now name0 conds name] assms(5)
    unfolding Let_def by auto
qed

theorem Confirm_exclusive_witness:
  "\<exists>m R m1. ls_reach 0 2 m R \<and>
    Confirm 7 ''/a/x'' [] demo_cond m = Return (Inl ErrConfirmationFailed, m1)"
proof -
  obtain m R where m: "ls_reach 0 2 m R"
    "abs_locks m ''1'' = Some ((new_alock 0 (demo_lock ''/a''))\<lparr>a_held := True\<rparr>)"
    using demo3 by blast
  have "covers (a_details ((new_alock 0 (demo_lock ''/a''))\<lparr>a_held := True\<rparr>)) (name_comps ''/a/x'')"
    by (simp add: covers_def new_alock_def demo_lock_def demo_names)
  from Confirm_exclusive [OF m _ this, of 7 "[]" demo_cond] m(1) show ?thesis by auto
qed

text \<open>\<open>Unlock\<close> and \<open>Refresh\<close> drop the expired locks, fail with \<open>ErrNoSuchLock\<close> when the token
  is of none that remains and with \<open>ErrLocked\<close> when its lock is held, and otherwise remove
  the lock, or change only its duration and expiry; they never panic.
\<close>

theorem Unlock_Refresh_refine:
  assumes "ls_reach g0 k m R"
  shows "\<exists>mu mr. case purge now (abs_locks m) tok of
      None \<Rightarrow> Unlock now tok m = Return (Some ErrNoSuchLock, mu) \<and>
        Refresh now tok dur m = Return (Inl ErrNoSuchLock, mr) \<and>
        abs_locks mu = purge now (abs_locks m) \<and> abs_locks mr = purge now (abs_locks m)
    | Some l \<Rightarrow>
        if a_held l then Unlock now tok m = Return (Some ErrLocked, mu) \<and>
          Refresh now tok dur m = Return (Inl ErrLocked, mr) \<and>
          abs_locks mu = purge now (abs_locks m) \<and> abs_locks mr = purge now (abs_locks m)
        else let d = (a_details l)\<lparr>Duration := dur\<rparr>
          in Unlock now tok m = Return (None, mu) \<and> Refresh now tok dur m = Return (Inr d, mr) \<and>
             abs_locks mu = (purge now (abs_locks m))(tok := None) \<and>
             abs_locks mr = (purge now (abs_locks m))(tok := Some (l\<lparr>a_details := d,
               a_until := (if 0 \<le> dur then Some (now + dur) else None)\<rparr>))"
proof -
  have ok: "ls_ok m" using ls_reach_ok [OF assms] by (simp add: run_ok_def)
  show ?thesis
    using Unlock_ok [OF ok, of now tok] Refresh_ok [OF ok, of now tok dur]
    by (auto simp: Let_def split: option.splits if_splits)
qed

theorem Unlock_Refresh_refine_witness:
  "\<exists>m m'. ls_reach 0 2 m [] \<and> Unlock 12 ''1'' m = Return (Some ErrNoSuchLock, m') \<and>
    map_option a_until (abs_locks m' ''2'') = Some (Some 15)"
proof -
  obtain m where m: "ls_reach 0 2 m []" "abs_locks m = [''1'' \<mapsto> new_alock 0 (demo_lock ''/a''),
    ''2'' \<mapsto> new_alock 5 (demo_lock ''/b/c'')]" using demo2 by blast
  have "purge 12 (abs_locks m) ''1'' = None"
    and two: "purge 12 (abs_locks m) ''2'' = Some (new_alock 5 (demo_lock ''/b/c''))"
    by (simp_all add: m(2) purge_def expired_def new_alock_def demo_lock_def)
  with Unlock_Refresh_refine [OF m(1), of 12 "''1''" 0] obtain m' where
    "Unlock 12 ''1'' m = Return (Some ErrNoSuchLock, m')" "abs_locks m' = purge 12 (abs_locks m)"
    by auto
  with m(1) two show ?thesis by (intro exI [of _ m] exI [of _ m']) (simp add: new_alock_def demo_lock_def)
qed

section \<open>The Timeout header\<close>

lemma digit_no_space_rev:
  assumes "is_digit c"
  shows "space_at (map rev space_seqs) (c # s) = None"
proof -
  have "48 \<le> byte c" "byte c \<le> 57" using assms by (simp_all add: is_digit_def)
  then show ?thesis by (intro space_at_None) (simp add: space_seqs_def)
qed

lemma scan_uint_prefix: "scan_uint m (a @ b) = ScanOk k \<Longrightarrow> \<exists>k'. scan_uint m a = ScanOk k'"
  by (induction a arbitrary: m) (auto split: if_splits)

lemma scan_show_nat_value: "scan_uint 0 (show_nat n) = ScanOk k \<Longrightarrow> k = int n"
proof (induction n arbitrary: k rule: show_nat.induct)
  case (1 n)
  show ?case
  proof (cases "n < 10")
    case True
    then have "show_nat n = [digit n]" by (subst show_nat.simps) simp
    then show ?thesis using "1.prems" True by (simp split: if_splits)
  next
    case False
    then have n: "show_nat n = show_nat (n div 10) @ [digit (n mod 10)]" by (subst show_nat.simps) simp
    obtain k' where k': "scan_uint 0 (show_nat (n div 10)) = ScanOk k'"
      using "1.prems" scan_uint_prefix unfolding n by blast
    then have "k' = int (n div 10)" using "1.IH" False by blast
    moreover have "scan_uint k' [digit (n mod 10)] = ScanOk k"
      using "1.prems" scan_uint_append [OF k'] unfolding n by simp
    ultimately have "k = 10 * int (n div 10) + int (n mod 10)" by (simp split: if_splits)
    then show ?thesis by presburger
  qed
qed

lemma parse_seconds:
  shows "(let (k, ok) = ParseInt (show_nat n) in \<not> ok \<or> 4294967295 < k) \<longleftrightarrow> 2 ^ 32 \<le> n"
  and "n < 2 ^ 32 \<Longrightarrow> ParseInt (show_nat n) = (int n, True)"
proof -
  show small: "n < 2 ^ 32 \<Longrightarrow> ParseInt (show_nat n) = (int n, True)"
    using ParseInt_show_int [of "int n"] by (simp add: show_int_def i64_min_def i64_max_def)
  show "(let (k, ok) = ParseInt (show_nat n) in \<not> ok \<or> 4294967295 < k) \<longleftrightarrow> 2 ^ 32 \<le> n"
  proof (cases "n < 2 ^ 32")
    case True
    then show ?thesis using small by auto
  next
    case False
    then show ?thesis
      using scan_show_nat_value [of n]
      by (auto simp: ParseInt_def parse_sign_show_nat split: scan.splits)
  qed
qed

lemma trim_seconds: "trim_space (''Second-'' @ show_nat n) = ''Second-'' @ show_nat n"
proof -
  obtain ds d where ds: "show_nat n = ds @ [d]" by (cases "show_nat n" rule: rev_cases) auto
  then have d: "is_digit d" using show_nat_digits [of d n] by simp
  have front: "space_at space_seqs (''Second-'' @ show_nat n) = None"
    by (simp add: space_at_def space_seqs_def byte_def)
  have "rev (''Second-'' @ show_nat n) = d # rev (''Second-'' @ ds)" by (simp add: ds)
  then show ?thesis
    unfolding trim_space_def strip_spaces_id [OF disjI2 [OF front]]
    using strip_spaces_id [OF disjI2 [OF digit_no_space_rev [OF d, of "rev (''Second-'' @ ds)"]]]
    by (metis rev_rev_ident)
qed

lemma parseTimeout_first:
  assumes "s \<noteq> []" and "(case index_byte s (CHR '','') of Some i \<Rightarrow> take i s | None \<Rightarrow> s) = t"
    and "trim_space t = ''Second-'' @ ds" and "ds \<noteq> []" and "is_digit (hd ds)"
  shows "parseTimeout s = (let (k, ok) = ParseInt ds
      in if \<not> ok \<or> 4294967295 < k then Inl ErrInvalidTimeout else Inr (i64 (k * 1000000000)))"
proof -
  have "has_prefix (''Second-'' @ ds) ''Second-''" "drop 7 (''Second-'' @ ds) = ds"
    "''Second-'' @ ds \<noteq> ''Infinite''" by (simp_all add: has_prefix_def)
  then show ?thesis unfolding parseTimeout_def assms(2) Let_def assms(3) using assms(1,4,5) by simp
qed

text \<open>The timeout of \<open>n\<close> seconds is read exactly, in nanoseconds and without wrap-around, up
  to \<open>2 ^ 32 - 1\<close> seconds, also when further alternatives follow the first; anything larger
  is an error.
\<close>

theorem parseTimeout_seconds:
  "parseTimeout (''Second-'' @ show_nat n @ (case others of None \<Rightarrow> [] | Some r \<Rightarrow> CHR '','' # r)) =
    (if n < 2 ^ 32 then Inr (int n * 1000000000) else Inl ErrInvalidTimeout)"
proof -
  let ?s = "''Second-'' @ show_nat n" and ?t = "case others of None \<Rightarrow> [] | Some r \<Rightarrow> CHR '','' # r"
  have dig: "is_digit c" if "c \<in> set (show_nat n)" for c using that by (rule show_nat_digits)
  have "CHR '','' \<notin> set (show_nat n)" using dig [of "CHR '',''"] by (auto simp: is_digit_def byte_def)
  then have nc: "CHR '','' \<notin> set ?s" by simp
  have cut: "(case index_byte (?s @ ?t) (CHR '','') of Some i \<Rightarrow> take i (?s @ ?t) | None \<Rightarrow> ?s @ ?t) = ?s"
  proof (cases others)
    case None
    then have "index_byte (?s @ ?t) (CHR '','') = None" using nc index_byte_None by fastforce
    then show ?thesis using None by simp
  next
    case (Some r)
    then have "index_byte (?s @ ?t) (CHR '','') = Some (length ?s)" using index_byte_append [OF nc, of r] by simp
    then show ?thesis by simp
  qed
  have hd: "is_digit (hd (show_nat n))" using dig by (simp add: hd_in_set)
  have parse: "parseTimeout (''Second-'' @ show_nat n @ ?t) = (let (k, ok) = ParseInt (show_nat n)
      in if \<not> ok \<or> 4294967295 < k then Inl ErrInvalidTimeout else Inr (i64 (k * 1000000000)))"
    using parseTimeout_first [OF _ cut trim_seconds _ hd] by simp
  show ?thesis
  proof (cases "n < 2 ^ 32")
    case True
    then show ?thesis
      unfolding parse parse_seconds(2) [OF True] using i64_id [of "int n * 1000000000"]
      by (simp add: i64_min_def i64_max_def)
  next
    case False
    then show ?thesis
      unfolding parse using parse_seconds(1) [of n] by (auto simp: Let_def split: prod.splits)
  qed
qed

end
