(* ===== verification/IfHeader.thy ===== *)
theory IfHeader
  imports Locks
begin

text \<open>
  \<open>server/webdav/if.go\<close>: the lexer and the parser of the \<open>If\<close> header, with its three loops as
  recursive functions whose termination rests on the lexer consuming a byte for each token.
  A failing parse is \<open>None\<close> (the code returns zero values and false).  The theorem: the parser
  inverts a printer of the RFC's grammar, for tagged and untagged lists.
\<close>

section \<open>The lexer\<close>

datatype token_type = TErr | TEof | TStr | TNot | TAngle | TSquare | TChar char

definition is_blank :: "char \<Rightarrow> bool" where
  "is_blank c \<longleftrightarrow> c = CHR 0x09 \<or> c = CHR '' ''"

definition is_delim :: "char \<Rightarrow> bool" where
  "is_delim c \<longleftrightarrow> is_blank c \<or> c \<in> {CHR ''('', CHR '')'', CHR ''<'', CHR ''>'', CHR ''['', CHR '']''}"

definition lex_if :: "string \<Rightarrow> token_type \<times> string \<times> string" where
  "lex_if s =
     (let s = dropWhile is_blank s
      in if s = [] then (TEof, [], [])
         else
           let tokenStr = takeWhile (\<lambda>c. \<not> is_delim c) s;
               remaining = dropWhile (\<lambda>c. \<not> is_delim c) s
           in if tokenStr \<noteq> [] then
                (if tokenStr = ''Not'' then (TNot, [], remaining) else (TStr, tokenStr, remaining))
              else if hd s = CHR ''<'' then
                (case index_byte s (CHR ''>'') of
                   None \<Rightarrow> (TErr, [], [])
                 | Some j \<Rightarrow> (TAngle, tl (take j s), drop (Suc j) s))
              else if hd s = CHR ''['' then
                (case index_byte s (CHR '']'') of
                   None \<Rightarrow> (TErr, [], [])
                 | Some j \<Rightarrow> (TSquare, tl (take j s), drop (Suc j) s))
              else (TChar (hd s), [], tl s))"

lemma lex_shorter:
  assumes "lex_if s = (ty, tok, rem)" and "ty \<noteq> TErr" and "ty \<noteq> TEof"
  shows "length rem < length s"
proof -
  let ?s = "dropWhile is_blank s"
  have le: "length ?s \<le> length s" by (rule length_dropWhile_le)
  have "?s \<noteq> []" using assms by (auto simp: lex_if_def Let_def split: if_splits)
  then have pos: "0 < length ?s" by (rule length_greater_0_conv [THEN iffD2])
  then have less: "length ?s - Suc k < length s" for k using le by linarith
  show ?thesis
  proof (cases "takeWhile (\<lambda>c. \<not> is_delim c) ?s = []")
    case True
    then show ?thesis
      using assms less less [of 0] by (auto simp: lex_if_def Let_def split: if_splits option.splits)
  next
    case False
    have "takeWhile (\<lambda>c. \<not> is_delim c) ?s @ dropWhile (\<lambda>c. \<not> is_delim c) ?s = ?s" by simp
    then have "length (dropWhile (\<lambda>c. \<not> is_delim c) ?s) < length ?s"
      using False by (metis length_append length_greater_0_conv less_add_same_cancel2)
    then show ?thesis
      using assms le False by (auto simp: lex_if_def Let_def split: if_splits)
  qed
qed

section \<open>The parser\<close>

record ifList =
  resourceTag :: string
  conditions :: "Condition list"

record ifHeader =
  lists :: "ifList list"

definition parseCondition :: "string \<Rightarrow> (Condition \<times> string) option" where
  "parseCondition s =
     (let (ty, tok, s) = lex_if s;
          neg = (ty = TNot);
          (ty, tok, s) = (if neg then lex_if s else (ty, tok, s))
      in if ty = TStr \<or> ty = TAngle then Some (\<lparr>Not = neg, Token = tok, ETag = []\<rparr>, s)
         else if ty = TSquare then Some (\<lparr>Not = neg, Token = [], ETag = tok\<rparr>, s)
         else None)"

lemma parseCondition_shorter: "parseCondition s = Some (c, rem) \<Longrightarrow> length rem < length s"
proof -
  assume p: "parseCondition s = Some (c, rem)"
  obtain ty tok s1 where l: "lex_if s = (ty, tok, s1)" by (cases "lex_if s") auto
  obtain ty' tok' s2 where l': "lex_if s1 = (ty', tok', s2)" by (cases "lex_if s1") auto
  show ?thesis
    using p l l' lex_shorter [OF l] lex_shorter [OF l']
    by (auto simp: parseCondition_def Let_def split: if_splits)
qed

function parse_conditions :: "string \<Rightarrow> Condition list \<Rightarrow> (Condition list \<times> string) option" where
  "parse_conditions s cs =
     (let (ty, _, remaining) = lex_if s
      in if ty = TChar (CHR '')'') then (if cs = [] then None else Some (cs, remaining))
         else (case parseCondition s of
             None \<Rightarrow> None
           | Some (c, remaining) \<Rightarrow> parse_conditions remaining (cs @ [c])))"
  by pat_completeness auto
termination
  by (relation "measure (\<lambda>(s, cs). length s)") (auto dest: parseCondition_shorter)

declare parse_conditions.simps [simp del]

definition parseList :: "string \<Rightarrow> (ifList \<times> string) option" where
  "parseList s =
     (let (ty, _, s) = lex_if s
      in if ty \<noteq> TChar (CHR ''('') then None
         else map_option (\<lambda>(cs, remaining). (\<lparr>resourceTag = [], conditions = cs\<rparr>, remaining))
                (parse_conditions s []))"

lemma parse_conditions_shorter:
  "parse_conditions s cs = Some (ds, rem) \<Longrightarrow> length rem < length s"
proof (induction s cs rule: parse_conditions.induct)
  case (1 s cs)
  obtain ty tok s1 where l: "lex_if s = (ty, tok, s1)" by (cases "lex_if s") auto
  show ?case
  proof (cases "ty = TChar (CHR '')'')")
    case True
    then show ?thesis
      using "1.prems" l lex_shorter [OF l] by (subst (asm) parse_conditions.simps) (auto split: if_splits)
  next
    case False
    then obtain c r where c: "parseCondition s = Some (c, r)" "parse_conditions r (cs @ [c]) = Some (ds, rem)"
      using "1.prems" l by (subst (asm) parse_conditions.simps) (auto split: option.splits)
    then show ?thesis
      using "1.IH" [OF l [symmetric] refl refl False c(1) refl c(2)] parseCondition_shorter [OF c(1)] by fastforce
  qed
qed

lemma parseList_shorter:
  assumes "parseList s = Some (l, rem)"
  shows "length rem < length s"
proof -
  obtain ty tok s1 where l: "lex_if s = (ty, tok, s1)" by (cases "lex_if s") auto
  have ty: "ty = TChar (CHR ''('')" using assms l by (auto simp: parseList_def split: if_splits)
  obtain cs where "parse_conditions s1 [] = Some (cs, rem)"
    using assms l ty by (auto simp: parseList_def)
  then show ?thesis using parse_conditions_shorter lex_shorter [OF l] ty by fastforce
qed

function parseNoTagLists :: "string \<Rightarrow> ifList list \<Rightarrow> ifHeader option" where
  "parseNoTagLists s ls =
     (case parseList s of
        None \<Rightarrow> None
      | Some (l, remaining) \<Rightarrow>
          if remaining = [] then Some \<lparr>lists = ls @ [l]\<rparr>
          else parseNoTagLists remaining (ls @ [l]))"
  by pat_completeness auto
termination
  by (relation "measure (\<lambda>(s, ls). length s)") (auto dest: parseList_shorter)

function parseTaggedLists ::
  "string \<Rightarrow> string \<Rightarrow> nat \<Rightarrow> bool \<Rightarrow> ifList list \<Rightarrow> ifHeader option" where
  "parseTaggedLists s tag n first ls =
     (let (ty, tokenStr, remaining) = lex_if s
      in if ty = TAngle then
           (if \<not> first \<and> n = 0 then None else parseTaggedLists remaining tokenStr 0 False ls)
         else if ty = TChar (CHR ''('') then
           (case parseList s of
              None \<Rightarrow> None
            | Some (l, remaining) \<Rightarrow>
                let ls = ls @ [l\<lparr>resourceTag := tag\<rparr>]
                in if remaining = [] then Some \<lparr>lists = ls\<rparr>
                   else parseTaggedLists remaining tag (n + 1) False ls)
         else None)"
  by pat_completeness auto
termination
proof (relation "measure (\<lambda>(s, tag, n, first, ls). length s)", goal_cases)
  case (2 s tag n first ls x ty y tok rem)
  then show ?case using lex_shorter [of s TAngle tok rem] by simp
next
  case (3 s tag n first ls x ty y tok rem a l r ls')
  then show ?case using parseList_shorter [of s l r] by simp
qed simp

declare parseNoTagLists.simps [simp del] parseTaggedLists.simps [simp del]

definition parseIfHeader :: "string \<Rightarrow> ifHeader option" where
  "parseIfHeader httpHeader =
     (let s = trim_space httpHeader; (ty, _, _) = lex_if s
      in if ty = TChar (CHR ''('') then parseNoTagLists s []
         else if ty = TAngle then parseTaggedLists s [] 0 True []
         else None)"

section \<open>Round trip\<close>

text \<open>A printer of the grammar of RFC 4918, section 10.4.2, for the headers a client can send.\<close>

definition cond_ok :: "Condition \<Rightarrow> bool" where
  "cond_ok c \<longleftrightarrow> (if ETag c = [] then CHR ''>'' \<notin> set (Token c)
     else Token c = [] \<and> CHR '']'' \<notin> set (ETag c))"

definition show_cond :: "Condition \<Rightarrow> string" where
  "show_cond c = (if Not c then ''Not '' else []) @
     (if ETag c = [] then ''<'' @ Token c @ ''>'' else ''['' @ ETag c @ '']'')"

definition show_list :: "ifList \<Rightarrow> string" where
  "show_list l = ''('' @ concat (map (\<lambda>c. '' '' @ show_cond c) (conditions l)) @ '')''"

definition list_ok :: "ifList \<Rightarrow> bool" where
  "list_ok l \<longleftrightarrow> conditions l \<noteq> [] \<and> list_all cond_ok (conditions l) \<and> CHR ''>'' \<notin> set (resourceTag l)"

definition show_untagged :: "ifList list \<Rightarrow> string" where
  "show_untagged ls = concat (map show_list ls)"

definition show_tagged :: "ifList list \<Rightarrow> string" where
  "show_tagged ls = concat (map (\<lambda>l. ''<'' @ resourceTag l @ ''>'' @ show_list l) ls)"

lemma lex_if_simps [simp]:
  "lex_if (CHR '' '' # s) = lex_if s"
  "lex_if (CHR ''('' # s) = (TChar (CHR ''(''), [], s)"
  "lex_if (CHR '')'' # s) = (TChar (CHR '')''), [], s)"
  "lex_if (CHR ''N'' # CHR ''o'' # CHR ''t'' # CHR '' '' # s) = (TNot, [], CHR '' '' # s)"
  by (simp_all add: lex_if_def Let_def is_delim_def is_blank_def)

lemma lex_if_angle: "CHR ''>'' \<notin> set t \<Longrightarrow> lex_if (CHR ''<'' # t @ CHR ''>'' # s) = (TAngle, t, s)"
  using index_byte_append [of "CHR ''>''" "CHR ''<'' # t" s]
  by (simp add: lex_if_def Let_def is_delim_def is_blank_def)

lemma lex_if_square: "CHR '']'' \<notin> set t \<Longrightarrow> lex_if (CHR ''['' # t @ CHR '']'' # s) = (TSquare, t, s)"
  using index_byte_append [of "CHR '']''" "CHR ''['' # t" s]
  by (simp add: lex_if_def Let_def is_delim_def is_blank_def)

lemma parse_show_cond:
  assumes "cond_ok c"
  shows "parseCondition (CHR '' '' # show_cond c @ s) = Some (c, s)"
  using assms by (cases "ETag c = []"; cases "Not c")
    (auto simp: cond_ok_def show_cond_def parseCondition_def lex_if_angle lex_if_square Let_def)

lemma show_cond_not_close: "cond_ok c \<Longrightarrow> fst (lex_if (show_cond c @ s)) \<noteq> TChar (CHR '')'')"
  by (cases "ETag c = []"; cases "Not c")
    (auto simp: cond_ok_def show_cond_def lex_if_angle lex_if_square)

lemma parse_show_conds:
  assumes "list_all cond_ok ds" and "cs @ ds \<noteq> []"
  shows "parse_conditions (concat (map (\<lambda>c. '' '' @ show_cond c) ds) @ CHR '')'' # s) cs = Some (cs @ ds, s)"
  using assms
proof (induction ds arbitrary: cs)
  case Nil
  then show ?case by (subst parse_conditions.simps) simp
next
  case (Cons d ds)
  let ?rest = "concat (map (\<lambda>c. '' '' @ show_cond c) ds) @ CHR '')'' # s"
  have d: "cond_ok d" using Cons.prems by simp
  have "fst (lex_if (show_cond d @ ?rest)) \<noteq> TChar (CHR '')'')" using show_cond_not_close [OF d] .
  moreover have "parseCondition (CHR '' '' # show_cond d @ ?rest) = Some (d, ?rest)"
    using parse_show_cond [OF d] .
  moreover have "parse_conditions ?rest (cs @ [d]) = Some ((cs @ [d]) @ ds, s)"
    using Cons.IH [of "cs @ [d]"] Cons.prems by simp
  ultimately show ?case
    by (subst parse_conditions.simps) (auto simp: Let_def split: prod.splits)
qed

lemma parse_show_list:
  assumes "list_ok l"
  shows "parseList (show_list l @ s) = Some (l\<lparr>resourceTag := []\<rparr>, s)"
  using assms parse_show_conds [of "conditions l" "[]" s]
  by (auto simp: list_ok_def parseList_def show_list_def)

lemma show_list_not_nil [simp]: "show_list l \<noteq> []"
  by (simp add: show_list_def)

lemma parse_show_untagged:
  assumes "list_all list_ok ls" and "list_all (\<lambda>l. resourceTag l = []) ls" and "ls \<noteq> []"
  shows "parseNoTagLists (show_untagged ls) as = Some \<lparr>lists = as @ ls\<rparr>"
  using assms
proof (induction ls arbitrary: as)
  case (Cons l ls)
  have l: "l\<lparr>resourceTag := []\<rparr> = l" using Cons.prems(2) by (cases l) simp
  have p: "parseList (show_list l @ show_untagged ls) = Some (l, show_untagged ls)"
    using parse_show_list [of l "show_untagged ls"] Cons.prems(1) l by simp
  show ?case
  proof (cases ls)
    case Nil
    then show ?thesis using p by (subst parseNoTagLists.simps) (simp add: show_untagged_def)
  next
    case (Cons k ks)
    have "parseNoTagLists (show_untagged ls) (as @ [l]) = Some \<lparr>lists = (as @ [l]) @ ls\<rparr>"
      using Cons.IH [of "as @ [l]"] Cons.prems Cons by simp
    moreover have "show_untagged ls \<noteq> []" using Cons by (simp add: show_untagged_def)
    ultimately show ?thesis
      using p by (subst parseNoTagLists.simps) (simp add: show_untagged_def [of "l # ls"] show_untagged_def [symmetric])
  qed
qed simp

lemma lex_show_list: "lex_if (show_list l @ s) = (TChar (CHR ''(''), [], tl (show_list l @ s))"
  by (simp add: show_list_def)

lemma parse_tagged_step:
  assumes "list_ok l" and "first \<or> n \<noteq> 0"
  shows "parseTaggedLists (''<'' @ resourceTag l @ ''>'' @ show_list l @ s) tag n first as =
    (if s = [] then Some \<lparr>lists = as @ [l]\<rparr>
     else parseTaggedLists s (resourceTag l) 1 False (as @ [l]))"
proof -
  have l: "lex_if (''<'' @ resourceTag l @ ''>'' @ show_list l @ s) = (TAngle, resourceTag l, show_list l @ s)"
    using lex_if_angle [of "resourceTag l" "show_list l @ s"] assms(1) by (simp add: list_ok_def)
  have "parseTaggedLists (''<'' @ resourceTag l @ ''>'' @ show_list l @ s) tag n first as =
      parseTaggedLists (show_list l @ s) (resourceTag l) 0 False as"
    using assms(2) by (subst parseTaggedLists.simps) (simp only: l, use assms(2) in auto)
  also have "\<dots> = (if s = [] then Some \<lparr>lists = as @ [l]\<rparr>
     else parseTaggedLists s (resourceTag l) 1 False (as @ [l]))"
    using parse_show_list [OF assms(1), of s]
    by (subst parseTaggedLists.simps) (simp add: lex_show_list Let_def)
  finally show ?thesis .
qed

lemma parse_show_tagged:
  assumes "list_all list_ok ls" and "ls \<noteq> []" and "first \<or> n \<noteq> 0"
  shows "parseTaggedLists (show_tagged ls) tag n first as = Some \<lparr>lists = as @ ls\<rparr>"
  using assms
proof (induction ls arbitrary: tag n first as)
  case (Cons l ls)
  have l: "list_ok l" using Cons.prems(1) by simp
  have split: "show_tagged (l # ls) = ''<'' @ resourceTag l @ ''>'' @ show_list l @ show_tagged ls"
    by (simp add: show_tagged_def)
  show ?case
  proof (cases ls)
    case Nil
    then show ?thesis
      unfolding split parse_tagged_step [OF l Cons.prems(3)] by (simp add: show_tagged_def)
  next
    case (Cons k ks)
    then have "show_tagged ls \<noteq> []" by (simp add: show_tagged_def)
    then show ?thesis
      unfolding split parse_tagged_step [OF l Cons.prems(3)]
      using Cons.IH [of False 1 "resourceTag l" "as @ [l]"] Cons.prems Cons by simp
  qed
qed simp

lemma trim_header:
  assumes "c = CHR ''('' \<or> c = CHR ''<''" and "s = c # a" and "s = b @ '')''"
  shows "trim_space s = s"
proof -
  have "space_at space_seqs s = None"
    unfolding assms(2) using assms(1) by (intro space_at_None) (auto simp: space_seqs_def byte_def)
  moreover have "space_at (map rev space_seqs) (rev s) = None"
    unfolding assms(3) rev_append by (simp, intro space_at_None) (simp add: space_seqs_def byte_def)
  ultimately show ?thesis by (simp add: trim_space_def strip_spaces_id)
qed

lemma show_untagged_ends: "ls \<noteq> [] \<Longrightarrow> \<exists>a b. show_untagged ls = CHR ''('' # a \<and> show_untagged ls = b @ '')''"
proof (induction ls rule: rev_induct)
  case (snoc l ls)
  then show ?case by (cases ls) (auto simp: show_untagged_def show_list_def)
qed simp

lemma show_tagged_ends: "ls \<noteq> [] \<Longrightarrow> \<exists>a b. show_tagged ls = CHR ''<'' # a \<and> show_tagged ls = b @ '')''"
proof (induction ls rule: rev_induct)
  case (snoc l ls)
  then show ?case by (cases ls) (auto simp: show_tagged_def show_list_def)
qed simp

definition untag :: "ifList \<Rightarrow> ifList" where
  "untag l = l\<lparr>resourceTag := []\<rparr>"

lemma show_untag: "show_untagged (map untag ls) = show_untagged ls"
proof -
  have "show_list (untag l) = show_list l" for l by (simp add: show_list_def untag_def)
  then show ?thesis by (simp add: show_untagged_def o_def)
qed

lemma parse_header_tagged:
  assumes "list_all list_ok ls" and "ls \<noteq> []"
  shows "parseIfHeader (show_tagged ls) = Some \<lparr>lists = ls\<rparr>"
proof -
  obtain a b where t: "show_tagged ls = CHR ''<'' # a" "show_tagged ls = b @ '')''"
    using show_tagged_ends [OF assms(2)] by blast
  obtain k ks where ls: "ls = k # ks" using assms(2) by (cases ls) auto
  have "lex_if (show_tagged ls) = (TAngle, resourceTag k, show_list k @ show_tagged ks)"
    using lex_if_angle [of "resourceTag k" "show_list k @ show_tagged ks"] assms(1)
    by (simp add: ls show_tagged_def list_ok_def)
  then show ?thesis
    unfolding parseIfHeader_def trim_header [OF disjI2 [OF refl] t] Let_def
    using parse_show_tagged [OF assms, of True 0 "[]" "[]"] by simp
qed

lemma parse_header_untagged:
  assumes "list_all list_ok ls" and "ls \<noteq> []"
  shows "parseIfHeader (show_untagged ls) = Some \<lparr>lists = map untag ls\<rparr>"
proof -
  obtain a b where t: "show_untagged ls = CHR ''('' # a" "show_untagged ls = b @ '')''"
    using show_untagged_ends [OF assms(2)] by blast
  then have "lex_if (show_untagged ls) = (TChar (CHR ''(''), [], a)" by simp
  moreover have "parseNoTagLists (show_untagged ls) [] = Some \<lparr>lists = map untag ls\<rparr>"
    using parse_show_untagged [of "map untag ls" "[]"] assms unfolding show_untag
    by (auto simp: list_all_iff list_ok_def untag_def)
  ultimately show ?thesis
    unfolding parseIfHeader_def trim_header [OF disjI1 [OF refl] t] Let_def by simp
qed

text \<open>C29: The \<open>If\<close> parser inverts the printer of the grammar: a header of tagged lists gives back
  its lists with their tags, conditions and negations, and one of untagged lists gives them
  back without tags.\<close>

theorem parseIfHeader_roundtrip:
  assumes "list_all list_ok ls" and "ls \<noteq> []"
  shows "parseIfHeader (show_tagged ls) = Some \<lparr>lists = ls\<rparr> \<and>
    parseIfHeader (show_untagged ls) = Some \<lparr>lists = map untag ls\<rparr>"
  using parse_header_tagged [OF assms] parse_header_untagged [OF assms] by simp

definition demo_if :: "ifList list" where
  "demo_if = [\<lparr>resourceTag = ''/a'', conditions =
      [\<lparr>Not = False, Token = ''1'', ETag = []\<rparr>, \<lparr>Not = True, Token = [], ETag = ''x y''\<rparr>]\<rparr>,
    \<lparr>resourceTag = ''/b'', conditions = [\<lparr>Not = True, Token = ''2'', ETag = []\<rparr>]\<rparr>]"

theorem parseIfHeader_roundtrip_witness:
  "parseIfHeader ''</a>( <1> Not [x y])</b>( Not <2>)'' = Some \<lparr>lists = demo_if\<rparr>"
proof -
  have "list_all list_ok demo_if" "demo_if \<noteq> []"
    by (simp_all add: demo_if_def list_ok_def cond_ok_def)
  note r = parseIfHeader_roundtrip [OF this]
  have "show_tagged demo_if = ''</a>( <1> Not [x y])</b>( Not <2>)''"
    by (simp add: demo_if_def show_tagged_def show_list_def show_cond_def)
  with r show ?thesis by simp
qed

end
