(* ===== verification/Metas.thy ===== *)
theory Metas
  imports Paths
begin

text \<open>
  \<open>internal/model/meta.go\<close>, \<open>internal/db/meta.go\<close> and \<open>internal/op/meta.go\<close>: the per-directory
  rules, their table and the cache in front of it.  The table is a list of rows by id with
  unique ids and paths, and a flag says that the database is unreachable.  The cache
  remembers rows and also the absence of a row; its entries can disappear at any time (the
  one-hour lifetime), which the relation \<open>meta_reach\<close> has as a step.
\<close>

section \<open>The table\<close>

record Meta =
  mid :: nat
  MetaPath :: string
  ReadUsers :: "nat list"
  ReadUsersSub :: bool
  WriteUsers :: "nat list"
  WriteUsersSub :: bool
  MetaPassword :: string
  PSub :: bool
  MetaWrite :: bool
  WSub :: bool
  Hide :: string
  HSub :: bool
  Readme :: string
  RSub :: bool
  Header :: string
  HeaderSub :: bool

datatype db_error = RecordNotFound | DbFailure

datatype meta_error = MetaNotFound | DbError db_error

record metaStore =
  rows :: "Meta list"
  down :: bool
  cache :: "string \<Rightarrow> Meta option option"

definition find_row :: "Meta list \<Rightarrow> string \<Rightarrow> Meta option" where
  "find_row ms path = find (\<lambda>m. MetaPath m = path) ms"

text \<open>A query by a struct leaves out zero fields, so the empty path selects any row.\<close>

definition db_GetMetaByPath :: "metaStore \<Rightarrow> string \<Rightarrow> db_error + Meta" where
  "db_GetMetaByPath st path =
     (if down st then Inl DbFailure
      else (case find (\<lambda>m. path = [] \<or> MetaPath m = path) (rows st) of
          None \<Rightarrow> Inl RecordNotFound
        | Some m \<Rightarrow> Inr m))"

definition db_GetMetaById :: "metaStore \<Rightarrow> nat \<Rightarrow> db_error + Meta" where
  "db_GetMetaById st i =
     (if down st then Inl DbFailure
      else (case find (\<lambda>m. mid m = i) (rows st) of None \<Rightarrow> Inl RecordNotFound | Some m \<Rightarrow> Inr m))"

text \<open>\<open>Create\<close> takes an id from the database (\<open>nid\<close>) when the row has none.\<close>

definition db_CreateMeta :: "nat \<Rightarrow> Meta \<Rightarrow> metaStore \<Rightarrow> db_error option \<times> metaStore" where
  "db_CreateMeta nid u st =
     (let u = (if mid u = 0 then u\<lparr>mid := nid\<rparr> else u)
      in if down st \<or> mid u \<in> mid ` set (rows st) \<or> MetaPath u \<in> MetaPath ` set (rows st)
         then (Some DbFailure, st)
         else (None, st\<lparr>rows := insort_key mid u (rows st)\<rparr>))"

text \<open>\<open>Save\<close> writes the whole row, and inserts it when no row has its id.\<close>

definition db_UpdateMeta :: "Meta \<Rightarrow> metaStore \<Rightarrow> db_error option \<times> metaStore" where
  "db_UpdateMeta u st =
     (if down st \<or> (\<exists>m \<in> set (rows st). mid m \<noteq> mid u \<and> MetaPath m = MetaPath u)
      then (Some DbFailure, st)
      else if mid u \<in> mid ` set (rows st)
        then (None, st\<lparr>rows := map (\<lambda>m. if mid m = mid u then u else m) (rows st)\<rparr>)
      else (None, st\<lparr>rows := insort_key mid u (rows st)\<rparr>))"

definition db_DeleteMetaById :: "nat \<Rightarrow> metaStore \<Rightarrow> db_error option \<times> metaStore" where
  "db_DeleteMetaById i st =
     (if down st then (Some DbFailure, st)
      else (None, st\<lparr>rows := filter (\<lambda>m. mid m \<noteq> i) (rows st)\<rparr>))"

definition db_GetMetas :: "nat \<Rightarrow> nat \<Rightarrow> metaStore \<Rightarrow> db_error + Meta list \<times> nat" where
  "db_GetMetas pageIndex pageSize st =
     (if down st then Inl DbFailure
      else Inr (take pageSize (drop ((pageIndex - 1) * pageSize) (rows st)), length (rows st)))"

section \<open>The operations\<close>

definition cache_set :: "string \<Rightarrow> Meta option \<Rightarrow> metaStore \<Rightarrow> metaStore" where
  "cache_set path v st = st\<lparr>cache := (cache st)(path := Some v)\<rparr>"

definition cache_del :: "string \<Rightarrow> metaStore \<Rightarrow> metaStore" where
  "cache_del path st = st\<lparr>cache := (cache st)(path := None)\<rparr>"

definition getMetaByPath :: "metaStore \<Rightarrow> string \<Rightarrow> (meta_error + Meta) \<times> metaStore" where
  "getMetaByPath st path =
     (case cache st path of
        Some None \<Rightarrow> (Inl MetaNotFound, st)
      | Some (Some m) \<Rightarrow> (Inr m, st)
      | None \<Rightarrow>
          (case db_GetMetaByPath st path of
             Inl e \<Rightarrow>
               if e = RecordNotFound then (Inl MetaNotFound, cache_set path None st)
               else (Inl (DbError e), st)
           | Inr m \<Rightarrow> (Inr m, cache_set path (Some m) st)))"

definition GetMetaByPath :: "metaStore \<Rightarrow> string \<Rightarrow> (meta_error + Meta) \<times> metaStore" where
  "GetMetaByPath st path = getMetaByPath st (FixAndCleanPath path)"

text \<open>The walk to the root ends for rooted paths only, so not ending is \<open>None\<close>.\<close>

partial_function (option) getNearestMeta ::
  "metaStore \<Rightarrow> string \<Rightarrow> ((meta_error + Meta) \<times> metaStore) option" where
  "getNearestMeta st path =
     (case getMetaByPath st path of
        (Inr m, st) \<Rightarrow> Some (Inr m, st)
      | (Inl e, st) \<Rightarrow>
          if e \<noteq> MetaNotFound then Some (Inl e, st)
          else if path = ''/'' then Some (Inl MetaNotFound, st)
          else getNearestMeta st (path_dir path))"

declare getNearestMeta.simps [code]

definition GetNearestMeta :: "metaStore \<Rightarrow> string \<Rightarrow> ((meta_error + Meta) \<times> metaStore) option" where
  "GetNearestMeta st path = getNearestMeta st (FixAndCleanPath path)"

definition DeleteMetaById :: "nat \<Rightarrow> metaStore \<Rightarrow> db_error option \<times> metaStore" where
  "DeleteMetaById i st =
     (case db_GetMetaById st i of
        Inl e \<Rightarrow> (Some e, st)
      | Inr old \<Rightarrow> db_DeleteMetaById i (cache_del (MetaPath old) st))"

definition UpdateMeta :: "Meta \<Rightarrow> metaStore \<Rightarrow> db_error option \<times> metaStore" where
  "UpdateMeta u st =
     (let u = u\<lparr>MetaPath := FixAndCleanPath (MetaPath u)\<rparr>
      in case db_GetMetaById st (mid u) of
           Inl e \<Rightarrow> (Some e, st)
         | Inr old \<Rightarrow> db_UpdateMeta u (cache_del (MetaPath u) (cache_del (MetaPath old) st)))"

definition CreateMeta :: "nat \<Rightarrow> Meta \<Rightarrow> metaStore \<Rightarrow> db_error option \<times> metaStore" where
  "CreateMeta nid u st =
     (let u = u\<lparr>MetaPath := FixAndCleanPath (MetaPath u)\<rparr>
      in db_CreateMeta nid u (cache_del (MetaPath u) st))"

definition GetMetas :: "nat \<Rightarrow> nat \<Rightarrow> metaStore \<Rightarrow> db_error + Meta list \<times> nat" where
  "GetMetas pageIndex pageSize st = db_GetMetas pageIndex pageSize st"

section \<open>Reachable stores\<close>

inductive meta_reach :: "metaStore \<Rightarrow> bool" where
  empty: "meta_reach \<lparr>rows = [], down = d, cache = (\<lambda>_. None)\<rparr>"
| outage: "meta_reach st \<Longrightarrow> meta_reach (st\<lparr>down := d\<rparr>)"
| expire: "meta_reach st \<Longrightarrow> meta_reach (cache_del path st)"
| lookup: "meta_reach st \<Longrightarrow> meta_reach (snd (GetMetaByPath st path))"
| create: "meta_reach st \<Longrightarrow> meta_reach (snd (CreateMeta nid u st))"
| update: "meta_reach st \<Longrightarrow> meta_reach (snd (UpdateMeta u st))"
| delete: "meta_reach st \<Longrightarrow> meta_reach (snd (DeleteMetaById i st))"

definition coherent :: "metaStore \<Rightarrow> bool" where
  "coherent st \<longleftrightarrow> (\<forall>path v. cache st path = Some v \<longrightarrow> v = find_row (rows st) path)"

definition meta_ok :: "metaStore \<Rightarrow> bool" where
  "meta_ok st \<longleftrightarrow> coherent st \<and> distinct (map MetaPath (rows st)) \<and> distinct (map mid (rows st)) \<and>
     list_all (\<lambda>m. canonical (MetaPath m) \<and> FixAndCleanPath (MetaPath m) = MetaPath m) (rows st)"

lemma find_row_Some: "distinct (map MetaPath ms) \<Longrightarrow> find_row ms p = Some m \<longleftrightarrow> m \<in> set ms \<and> MetaPath m = p"
  unfolding find_row_def by (induction ms) (auto simp: image_iff)

lemma find_row_None: "find_row ms p = None \<longleftrightarrow> p \<notin> MetaPath ` set ms"
  unfolding find_row_def by (auto simp: find_None_iff)

lemma coherent_del: "coherent st \<Longrightarrow> coherent (cache_del p st)"
  by (auto simp: coherent_def cache_del_def)

lemma rows_del [simp]: "rows (cache_del p st) = rows st" "down (cache_del p st) = down st"
  "rows (cache_set p v st) = rows st" "down (cache_set p v st) = down st"
  by (simp_all add: cache_del_def cache_set_def)

lemma norm_canonical: "canonical (FixAndCleanPath p) \<and> FixAndCleanPath (FixAndCleanPath p) = FixAndCleanPath p"
  by (simp add: FixAndCleanPath_norm canonical_abs_path) (metis FixAndCleanPath_norm norm_FixAndCleanPath)

lemma getMetaByPath_ok:
  assumes "coherent st" and "path \<noteq> []"
  shows "coherent (snd (getMetaByPath st path))" "rows (snd (getMetaByPath st path)) = rows st"
    "down (snd (getMetaByPath st path)) = down st"
    "fst (getMetaByPath st path) = (case find_row (rows st) path of None \<Rightarrow> Inl MetaNotFound | Some m \<Rightarrow> Inr m) \<or>
     (down st \<and> fst (getMetaByPath st path) = Inl (DbError DbFailure))"
proof -
  have "coherent (snd (getMetaByPath st path)) \<and> rows (snd (getMetaByPath st path)) = rows st \<and>
    down (snd (getMetaByPath st path)) = down st \<and>
    (fst (getMetaByPath st path) = (case find_row (rows st) path of None \<Rightarrow> Inl MetaNotFound | Some m \<Rightarrow> Inr m) \<or>
     (down st \<and> fst (getMetaByPath st path) = Inl (DbError DbFailure)))"
  proof (cases "cache st path")
    case None
    have f: "find (\<lambda>m. path = [] \<or> MetaPath m = path) (rows st) = find_row (rows st) path"
      using assms(2) by (simp add: find_row_def)
    have "coherent (cache_set path (find_row (rows st) path) st)"
      using assms(1) by (auto simp: coherent_def cache_set_def)
    then show ?thesis
      using assms(1) None
      by (auto simp: getMetaByPath_def db_GetMetaByPath_def f split: option.splits)
  next
    case (Some v)
    then have "v = find_row (rows st) path" using assms(1) by (simp add: coherent_def)
    then show ?thesis using Some assms(1) by (auto simp: getMetaByPath_def split: option.splits)
  qed
  then show "coherent (snd (getMetaByPath st path))" "rows (snd (getMetaByPath st path)) = rows st"
    "down (snd (getMetaByPath st path)) = down st"
    "fst (getMetaByPath st path) = (case find_row (rows st) path of None \<Rightarrow> Inl MetaNotFound | Some m \<Rightarrow> Inr m) \<or>
     (down st \<and> fst (getMetaByPath st path) = Inl (DbError DbFailure))" by blast+
qed

lemma find_row_cong:
  assumes "distinct (map MetaPath ms)" and "distinct (map MetaPath ms')"
    and "\<And>m. MetaPath m = p \<Longrightarrow> m \<in> set ms \<longleftrightarrow> m \<in> set ms'"
  shows "find_row ms p = find_row ms' p"
proof (cases "find_row ms p")
  case None
  then have "find_row ms' p = None" using assms(3) by (fastforce simp: find_row_None)
  with None show ?thesis by simp
next
  case (Some m)
  then have "find_row ms' p = Some m" using assms find_row_Some by metis
  with Some show ?thesis by simp
qed

text \<open>A change of the table that only touches the rows of uncached paths keeps the cache true.\<close>

lemma coherent_rows:
  assumes "coherent st" and "distinct (map MetaPath (rows st))" and "distinct (map MetaPath ms)"
    and "\<And>m. cache st (MetaPath m) \<noteq> None \<Longrightarrow> m \<in> set (rows st) \<longleftrightarrow> m \<in> set ms"
  shows "coherent (st\<lparr>rows := ms\<rparr>)"
proof -
  have "find_row (rows st) p = find_row ms p" if "cache st p \<noteq> None" for p
    by (rule find_row_cong [OF assms(2,3)]) (use assms(4) that in auto)
  then show ?thesis using assms(1) by (auto simp: coherent_def)
qed

lemma distinct_insort_map:
  "distinct (map f xs) \<Longrightarrow> f x \<notin> f ` set xs \<Longrightarrow> distinct (map f (insort_key k x xs))"
  by (induction xs) (auto simp: set_insort_key)

lemma find_id: "find (\<lambda>m. mid m = i) ms = Some m \<Longrightarrow> m \<in> set ms \<and> mid m = i"
  by (induction ms) (auto split: if_splits)

lemma create_meta_ok:
  assumes ok: "meta_ok st"
  shows "meta_ok (snd (CreateMeta nid u st))"
proof -
  let ?u = "u\<lparr>MetaPath := FixAndCleanPath (MetaPath u)\<rparr>"
  let ?st = "cache_del (MetaPath ?u) st"
  let ?v = "if mid ?u = 0 then ?u\<lparr>mid := nid\<rparr> else ?u"
  have ok': "meta_ok ?st" using ok coherent_del by (auto simp: meta_ok_def)
  show ?thesis
  proof (cases "down ?st \<or> mid ?v \<in> mid ` set (rows ?st) \<or> MetaPath ?v \<in> MetaPath ` set (rows ?st)")
    case True
    then show ?thesis using ok' by (simp add: CreateMeta_def db_CreateMeta_def Let_def)
  next
    case False
    let ?ms = "insort_key mid ?v (rows st)"
    have d: "distinct (map MetaPath ?ms)" "distinct (map mid ?ms)"
      using False ok by (auto intro!: distinct_insort_map simp: meta_ok_def)
    have p: "MetaPath ?v = MetaPath ?u" by simp
    have "coherent (?st\<lparr>rows := ?ms\<rparr>)"
    proof (rule coherent_rows)
      show "coherent ?st" using ok' by (simp add: meta_ok_def)
      show "m \<in> set (rows ?st) \<longleftrightarrow> m \<in> set ?ms" if "cache ?st (MetaPath m) \<noteq> None" for m
      proof -
        have "MetaPath m \<noteq> MetaPath ?v" using that p by (auto simp: cache_del_def)
        then show ?thesis by (auto simp: set_insort_key)
      qed
    qed (use d ok in \<open>auto simp: meta_ok_def\<close>)
    moreover have "canonical (MetaPath ?v) \<and> FixAndCleanPath (MetaPath ?v) = MetaPath ?v"
      using norm_canonical by simp
    ultimately have "meta_ok (?st\<lparr>rows := ?ms\<rparr>)"
      using d ok by (simp add: meta_ok_def list_all_iff set_insort_key)
    moreover have "snd (CreateMeta nid u st) = ?st\<lparr>rows := ?ms\<rparr>"
      using False unfolding CreateMeta_def db_CreateMeta_def Let_def by (simp add: rows_del)
    ultimately show ?thesis by (simp only:)
  qed
qed

lemma update_meta_ok:
  assumes ok: "meta_ok st"
  shows "meta_ok (snd (UpdateMeta u st))"
proof (cases "db_GetMetaById st (mid u)")
  case (Inl e)
  then show ?thesis using ok by (simp add: UpdateMeta_def Let_def)
next
  case (Inr old)
  let ?u = "u\<lparr>MetaPath := FixAndCleanPath (MetaPath u)\<rparr>"
  let ?st = "cache_del (MetaPath ?u) (cache_del (MetaPath old) st)"
  let ?ms = "map (\<lambda>m. if mid m = mid ?u then ?u else m) (rows st)"
  have ok': "meta_ok ?st" using ok coherent_del by (auto simp: meta_ok_def)
  have old: "old \<in> set (rows st)" "mid old = mid u"
    using Inr find_id [of "mid u" "rows st" old] by (auto simp: db_GetMetaById_def split: if_splits option.splits)
  have eq: "snd (UpdateMeta u st) = snd (db_UpdateMeta ?u ?st)"
    using Inr by (simp add: UpdateMeta_def Let_def)
  show ?thesis
  proof (cases "down ?st \<or> (\<exists>m \<in> set (rows ?st). mid m \<noteq> mid ?u \<and> MetaPath m = MetaPath ?u)")
    case True
    then have "snd (db_UpdateMeta ?u ?st) = ?st" unfolding db_UpdateMeta_def by (simp only: if_True snd_conv)
    then show ?thesis using ok' unfolding eq by (simp only:)
  next
    case False
    have ids: "\<And>m. m \<in> set (rows st) \<Longrightarrow> mid m = mid u \<Longrightarrow> m = old"
      using ok old by (auto simp: meta_ok_def distinct_map inj_on_def)
    have present: "mid ?u \<in> mid ` set (rows st)" using imageI [OF old(1), of mid] old(2) by (simp del: image_iff)
    have other: "MetaPath m \<noteq> MetaPath ?u" if "m \<in> set (rows st)" "mid m \<noteq> mid u" for m
      using False that by auto
    have "map mid ?ms = map mid (rows st)" by (induction "rows st") auto
    note eqm = this
    have d1: "distinct (map mid ?ms)" unfolding eqm using ok by (simp add: meta_ok_def)
    have d2: "distinct (map MetaPath ?ms)"
    proof -
      let ?f = "\<lambda>m. if mid m = mid ?u then ?u else m"
      have "inj_on MetaPath (set (rows st))" "distinct (rows st)"
        using ok by (auto simp: meta_ok_def distinct_map)
      then have "m = m'" if "m \<in> set (rows st)" "m' \<in> set (rows st)" "MetaPath (?f m) = MetaPath (?f m')" for m m'
        using that ids [OF that(1)] ids [OF that(2)] other [OF that(1)] other [OF that(2)]
        by (cases "mid m = mid u"; cases "mid m' = mid u") (auto dest: inj_onD)
      then have "inj_on (MetaPath \<circ> ?f) (set (rows st))" by (intro inj_onI) simp
      then show ?thesis using \<open>distinct (rows st)\<close> by (simp only: map_map distinct_map)
    qed
    have "coherent (?st\<lparr>rows := ?ms\<rparr>)"
    proof (rule coherent_rows)
      show "coherent ?st" using ok' by (simp add: meta_ok_def)
      show "m \<in> set (rows ?st) \<longleftrightarrow> m \<in> set ?ms" if "cache ?st (MetaPath m) \<noteq> None" for m
      proof -
        have "MetaPath m \<noteq> MetaPath ?u" "MetaPath m \<noteq> MetaPath old"
          using that by (auto simp: cache_del_def split: if_splits)
        then have "m \<noteq> ?u" "m \<in> set (rows st) \<Longrightarrow> mid m \<noteq> mid u" using ids by auto
        then show ?thesis by (auto simp: image_iff)
      qed
    qed (use d2 ok in \<open>auto simp: meta_ok_def\<close>)
    moreover have "canonical (MetaPath ?u) \<and> FixAndCleanPath (MetaPath ?u) = MetaPath ?u"
      using norm_canonical by simp
    ultimately have "meta_ok (?st\<lparr>rows := ?ms\<rparr>)"
      using d1 d2 ok unfolding meta_ok_def by (auto simp: list_all_iff)
    moreover have "snd (db_UpdateMeta ?u ?st) = ?st\<lparr>rows := ?ms\<rparr>"
      using False present unfolding db_UpdateMeta_def by (simp only: if_False if_True snd_conv rows_del)
    ultimately show ?thesis unfolding eq by (simp only:)
  qed
qed

lemma delete_meta_ok:
  assumes ok: "meta_ok st"
  shows "meta_ok (snd (DeleteMetaById i st))"
proof (cases "db_GetMetaById st i")
  case (Inl e)
  then show ?thesis using ok by (simp add: DeleteMetaById_def)
next
  case (Inr old)
  let ?st = "cache_del (MetaPath old) st" and ?ms = "filter (\<lambda>m. mid m \<noteq> i) (rows st)"
  have up: "\<not> down st" and old: "old \<in> set (rows st)" "mid old = i"
    using Inr find_id [of i "rows st" old] by (auto simp: db_GetMetaById_def split: if_splits option.splits)
  have "coherent (?st\<lparr>rows := ?ms\<rparr>)"
  proof (rule coherent_rows)
    show "coherent ?st" using ok coherent_del by (simp add: meta_ok_def)
    show "m \<in> set (rows ?st) \<longleftrightarrow> m \<in> set ?ms" if "cache ?st (MetaPath m) \<noteq> None" for m
    proof -
      have "m \<noteq> old" using that by (auto simp: cache_del_def split: if_splits)
      then show ?thesis using ok old by (auto simp: meta_ok_def distinct_map inj_on_def)
    qed
  qed (use ok in \<open>auto simp: meta_ok_def distinct_map intro: inj_on_subset\<close>)
  then have "meta_ok (?st\<lparr>rows := ?ms\<rparr>)"
    using ok by (auto simp: meta_ok_def distinct_map list_all_iff intro: inj_on_subset)
  then show ?thesis using Inr up by (simp add: DeleteMetaById_def db_DeleteMetaById_def)
qed

lemma meta_reach_ok: "meta_reach st \<Longrightarrow> meta_ok st"
proof (induction rule: meta_reach.induct)
  case (lookup st path)
  have "FixAndCleanPath path \<noteq> []" by (simp add: FixAndCleanPath_norm abs_path_def)
  then show ?case
    using lookup getMetaByPath_ok(1,2) by (simp add: meta_ok_def GetMetaByPath_def)
next
  case (expire st path)
  then show ?case using coherent_del by (auto simp: meta_ok_def)
qed (auto simp: meta_ok_def coherent_def create_meta_ok update_meta_ok delete_meta_ok
      create_meta_ok [unfolded meta_ok_def coherent_def] update_meta_ok [unfolded meta_ok_def coherent_def]
      delete_meta_ok [unfolded meta_ok_def coherent_def])

end
