(* ===== verification/Base64.thy ===== *)
theory Base64
  imports Prelude
begin

text \<open>
  \<open>encoding/base64\<close> of the Go standard library, the two unpadded alphabets the sources use:
  \<open>RawStdEncoding\<close> (password hashes) and, with padding, \<open>URLEncoding\<close> (signatures).  Bytes
  are grouped by three into four digits of six bits; the decoder ignores line breaks and, as
  Go's non-strict one, the unused low bits of a final group.
\<close>

section \<open>Six-bit digits\<close>

fun b64_groups :: "nat list \<Rightarrow> nat list" where
  "b64_groups [] = []"
| "b64_groups [a] = [a div 4, a mod 4 * 16]"
| "b64_groups [a, b] = [a div 4, a mod 4 * 16 + b div 16, b mod 16 * 4]"
| "b64_groups (a # b # c # r) =
     [a div 4, a mod 4 * 16 + b div 16, b mod 16 * 4 + c div 64, c mod 64] @ b64_groups r"

fun b64_ungroup :: "nat list \<Rightarrow> nat list option" where
  "b64_ungroup [] = Some []"
| "b64_ungroup [w] = None"
| "b64_ungroup [w, x] = Some [w * 4 + x div 16]"
| "b64_ungroup [w, x, y] = Some [w * 4 + x div 16, x mod 16 * 16 + y div 4]"
| "b64_ungroup (w # x # y # z # r) =
     map_option ((@) [w * 4 + x div 16, x mod 16 * 16 + y div 4, y mod 4 * 64 + z]) (b64_ungroup r)"

lemma b64_groups_less: "list_all (\<lambda>a. a < 256) bs \<Longrightarrow> list_all (\<lambda>d. d < 64) (b64_groups bs)"
  by (induction bs rule: b64_groups.induct) auto

lemma radix: "y < k \<Longrightarrow> (x * k + y) div k = x \<and> (x * k + y) mod k = (y :: nat)"
  by simp

lemma b64_bytes:
  assumes "b < 256" and "c < 256"
  shows "a div 4 * 4 + (a mod 4 * 16 + b div 16) div 16 = (a :: nat)"
    and "(a mod 4 * 16 + b div 16) mod 16 * 16 + (b mod 16 * 4 + c div 64) div 4 = b"
    and "(b mod 16 * 4 + c div 64) mod 4 * 64 + c mod 64 = c"
    and "(a mod 4 * 16 + b div 16) mod 16 * 16 + b mod 16 * 4 div 4 = b"
    and "a div 4 * 4 + a mod 4 * 16 div 16 = a"
proof -
  have "b div 16 < 16" "c div 64 < 4" using assms by (simp_all add: less_mult_imp_div_less)
  note r = radix [OF this(1), of "a mod 4"] radix [OF this(2), of "b mod 16"]
  show "a div 4 * 4 + (a mod 4 * 16 + b div 16) div 16 = a"
    and "(a mod 4 * 16 + b div 16) mod 16 * 16 + (b mod 16 * 4 + c div 64) div 4 = b"
    and "(b mod 16 * 4 + c div 64) mod 4 * 64 + c mod 64 = c"
    and "(a mod 4 * 16 + b div 16) mod 16 * 16 + b mod 16 * 4 div 4 = b"
    and "a div 4 * 4 + a mod 4 * 16 div 16 = a"
    unfolding conjunct1 [OF r(1)] conjunct2 [OF r(1)] conjunct1 [OF r(2)] conjunct2 [OF r(2)] by simp_all
qed

lemma b64_ungroup_groups: "list_all (\<lambda>a. a < 256) bs \<Longrightarrow> b64_ungroup (b64_groups bs) = Some bs"
proof (induction bs rule: b64_groups.induct)
  case (2 a)
  have "a div 4 * 4 + a mod 4 * 16 div 16 = a" by (rule b64_bytes(5) [of 0 0]) simp_all
  then show ?case by (simp only: b64_groups.simps b64_ungroup.simps)
next
  case (3 a b)
  then have "b < 256" by simp
  note e = b64_bytes [OF this this]
  show ?case unfolding b64_groups.simps b64_ungroup.simps e(1,4) ..
next
  case (4 a b c r)
  then have bc: "b < 256" "c < 256" "b64_ungroup (b64_groups r) = Some r" by simp_all
  show ?case
    unfolding b64_groups.simps append.simps b64_ungroup.simps b64_bytes(1-3) [OF bc(1,2)] bc(3) by simp
qed simp

section \<open>Alphabets\<close>

definition b64_char :: "bool \<Rightarrow> nat \<Rightarrow> char" where
  "b64_char url d =
     (if d < 26 then char_of (65 + d) else if d < 52 then char_of (71 + d)
      else if d < 62 then char_of (d - 4)
      else if d = 62 then (if url then CHR ''-'' else CHR ''+'')
      else (if url then CHR ''_'' else CHR ''/''))"

definition b64_value :: "bool \<Rightarrow> char \<Rightarrow> nat option" where
  "b64_value url c =
     (let b = byte c
      in if 65 \<le> b \<and> b \<le> 90 then Some (b - 65)
         else if 97 \<le> b \<and> b \<le> 122 then Some (b - 71)
         else if 48 \<le> b \<and> b \<le> 57 then Some (b + 4)
         else if c = (if url then CHR ''-'' else CHR ''+'') then Some 62
         else if c = (if url then CHR ''_'' else CHR ''/'') then Some 63
         else None)"

fun all_some :: "'a option list \<Rightarrow> 'a list option" where
  "all_some [] = Some []"
| "all_some (None # xs) = None"
| "all_some (Some x # xs) = map_option ((#) x) (all_some xs)"

definition b64_encode :: "bool \<Rightarrow> string \<Rightarrow> string" where
  "b64_encode url s = map (b64_char url) (b64_groups (map byte s))"

definition b64_decode :: "bool \<Rightarrow> string \<Rightarrow> string option" where
  "b64_decode url s =
     (let s = filter (\<lambda>c. byte c \<noteq> 10 \<and> byte c \<noteq> 13) s
      in Option.bind (all_some (map (b64_value url) s))
           (\<lambda>ds. map_option (map char_of) (b64_ungroup ds)))"

lemma byte_char_of [simp]: "n < 256 \<Longrightarrow> byte (char_of n) = n"
  by (simp add: byte_def)

lemma b64_value_char: "d < 64 \<Longrightarrow> b64_value url (b64_char url d) = Some d"
  by (auto simp: b64_value_def b64_char_def byte_def Let_def)

lemma b64_char_plain: "d < 64 \<Longrightarrow> byte (b64_char url d) \<noteq> 10 \<and> byte (b64_char url d) \<noteq> 13 \<and>
    byte (b64_char url d) \<noteq> 36 \<and> byte (b64_char url d) \<noteq> 58"
  by (auto simp: b64_char_def byte_def)

lemma all_some_map: "\<forall>x \<in> set xs. f x = Some (g x) \<Longrightarrow> all_some (map f xs) = Some (map g xs)"
  by (induction xs) auto

lemma byte_less [simp]: "byte c < 256"
  by (simp add: byte_def)

lemma b64_encode_plain:
  "c \<in> set (b64_encode url s) \<Longrightarrow> byte c \<noteq> 10 \<and> byte c \<noteq> 13 \<and> byte c \<noteq> 36 \<and> byte c \<noteq> 58"
proof -
  have "list_all (\<lambda>d. d < 64) (b64_groups (map byte s))"
    by (rule b64_groups_less) (simp add: list_all_iff)
  then show "c \<in> set (b64_encode url s) \<Longrightarrow> byte c \<noteq> 10 \<and> byte c \<noteq> 13 \<and> byte c \<noteq> 36 \<and> byte c \<noteq> 58"
    using b64_char_plain by (fastforce simp: b64_encode_def list_all_iff)
qed

lemma b64_decode_encode: "b64_decode url (b64_encode url s) = Some s"
proof -
  let ?ds = "b64_groups (map byte s)"
  have less: "list_all (\<lambda>d. d < 64) ?ds" by (rule b64_groups_less) (simp add: list_all_iff)
  have "filter (\<lambda>c. byte c \<noteq> 10 \<and> byte c \<noteq> 13) (b64_encode url s) = b64_encode url s"
    using b64_encode_plain by (simp add: filter_id_conv)
  moreover have "all_some (map (b64_value url) (b64_encode url s)) = Some ?ds"
    using all_some_map [of ?ds "b64_value url \<circ> b64_char url" id] less b64_value_char
    by (simp add: b64_encode_def list_all_iff)
  moreover have "b64_ungroup ?ds = Some (map byte s)"
    by (rule b64_ungroup_groups) (simp add: list_all_iff)
  moreover have "map char_of (map byte s) = s" by (simp add: byte_def map_idI)
  ultimately show ?thesis by (simp add: b64_decode_def)
qed

end
