(* ===== verification/Users.thy ===== *)
theory Users
  imports Paths Base64 GoStrconv "HOL-Library.Word"
begin

text \<open>
  \<open>internal/model/user.go\<close>: the user record, its permission bits, and the password hashes (the
  current format with a salted key derivation and the older salted digest).  SHA-256 and the
  key derivation function are the parameters \<open>sha256\<close> (hexadecimal digest) and \<open>idkey\<close>
  (password, salt); the random salt and the clock are arguments.
\<close>

section \<open>The user\<close>

definition GENERAL :: int where
  "GENERAL = 0"

definition ADMIN :: int where
  "ADMIN = 2"

record User =
  uid :: nat
  Username :: string
  PwdHash :: string
  PwdTS :: int
  Salt :: string
  Password :: string
  BasePath :: string
  Role :: int
  Disabled :: bool
  Permission :: "32 word"
  OtpSecret :: string
  SsoID :: string
  Authn :: string
  AllowLdap :: bool

definition IsAdmin :: "User \<Rightarrow> bool" where
  "IsAdmin u \<longleftrightarrow> Role u = ADMIN"

definition JoinPath :: "User \<Rightarrow> string \<Rightarrow> path_error + string" where
  "JoinPath u reqPath = JoinBasePath (BasePath u) reqPath"

section \<open>Permissions\<close>

text \<open>\<open>(permission >> k) & 1 == 1\<close> on \<open>int32\<close>, whose shift copies the sign bit.\<close>

definition perm_bit :: "nat \<Rightarrow> 32 word \<Rightarrow> bool" where
  "perm_bit k p \<longleftrightarrow> and (signed_drop_bit k p) 1 = 1"

definition CanSeeHides :: "User \<Rightarrow> bool" where
  "CanSeeHides u \<longleftrightarrow> and (Permission u) 1 = 1"

definition CanAccessWithoutPassword :: "User \<Rightarrow> bool" where
  "CanAccessWithoutPassword u = perm_bit 1 (Permission u)"

definition CanWriteContent :: "User \<Rightarrow> bool" where
  "CanWriteContent u = perm_bit 3 (Permission u)"

definition CanRename :: "User \<Rightarrow> bool" where
  "CanRename u = perm_bit 4 (Permission u)"

definition CanMove :: "User \<Rightarrow> bool" where
  "CanMove u = perm_bit 5 (Permission u)"

definition CanCopy :: "User \<Rightarrow> bool" where
  "CanCopy u = perm_bit 6 (Permission u)"

definition CanRemove :: "User \<Rightarrow> bool" where
  "CanRemove u = perm_bit 7 (Permission u)"

definition CanWebdavRead :: "User \<Rightarrow> bool" where
  "CanWebdavRead u = perm_bit 8 (Permission u)"

definition CanWebdavManage :: "User \<Rightarrow> bool" where
  "CanWebdavManage u = perm_bit 9 (Permission u)"

definition CanReadArchives :: "User \<Rightarrow> bool" where
  "CanReadArchives u = perm_bit 12 (Permission u)"

definition CanDecompress :: "User \<Rightarrow> bool" where
  "CanDecompress u = perm_bit 13 (Permission u)"

lemma and_one_word: "and w 1 = (1 :: 32 word) \<longleftrightarrow> bit w 0"
  by (simp add: and_one_eq bit_0 odd_iff_mod_2_eq_one)

lemma perm_bit_bit: "k < 32 \<Longrightarrow> perm_bit k p \<longleftrightarrow> bit p k"
  by (simp add: perm_bit_def and_one_word bit_signed_drop_bit_iff)

lemmas permission_bits =
  CanSeeHides_def CanAccessWithoutPassword_def CanWriteContent_def CanRename_def CanMove_def
  CanCopy_def CanRemove_def CanWebdavRead_def CanWebdavManage_def CanReadArchives_def CanDecompress_def

section \<open>Passwords\<close>

datatype user_error = EmptyUsername | EmptyPassword | WrongPassword | DeleteAdmin

definition static_hash_salt :: string where
  "static_hash_salt = ''https://github.com/alist-org/alist''"

definition argon2Prefix :: string where
  "argon2Prefix = ''$argon2id$v=19$m=19456,t=2,p=1$''"

definition StaticHash :: "(string \<Rightarrow> string) \<Rightarrow> string \<Rightarrow> string" where
  "StaticHash sha256 password = sha256 (password @ ''-'' @ static_hash_salt)"

definition HashPwd :: "(string \<Rightarrow> string) \<Rightarrow> string \<Rightarrow> string \<Rightarrow> string" where
  "HashPwd sha256 static salt = sha256 (static @ ''-'' @ salt)"

definition TwoHashPwd :: "(string \<Rightarrow> string) \<Rightarrow> string \<Rightarrow> string \<Rightarrow> string" where
  "TwoHashPwd sha256 password salt = HashPwd sha256 (StaticHash sha256 password) salt"

definition encodeArgon2Hash :: "(string \<Rightarrow> string \<Rightarrow> string) \<Rightarrow> string \<Rightarrow> string \<Rightarrow> string" where
  "encodeArgon2Hash idkey pwdStaticHash salt =
     argon2Prefix @ b64_encode False salt @ ''$'' @ b64_encode False (idkey pwdStaticHash salt)"

definition validateArgon2Hash :: "(string \<Rightarrow> string \<Rightarrow> string) \<Rightarrow> string \<Rightarrow> string \<Rightarrow> bool" where
  "validateArgon2Hash idkey pwdStaticHash encoded =
     (let (payload, ok) = cut_prefix encoded argon2Prefix
      in if \<not> ok then False
         else
           let (saltEncoded, hashEncoded, ok) = cut_byte payload (CHR ''$'')
           in if \<not> ok then False
              else (case b64_decode False saltEncoded of
                  None \<Rightarrow> False
                | Some salt \<Rightarrow>
                    if length salt < 16 then False
                    else (case b64_decode False hashEncoded of
                        None \<Rightarrow> False
                      | Some expected \<Rightarrow>
                          if length expected \<noteq> 32 then False
                          else idkey pwdStaticHash salt = expected)))"

definition ValidatePwdStaticHash ::
  "(string \<Rightarrow> string) \<Rightarrow> (string \<Rightarrow> string \<Rightarrow> string) \<Rightarrow> User \<Rightarrow> string \<Rightarrow> user_error option" where
  "ValidatePwdStaticHash sha256 idkey u pwdStaticHash =
     (if pwdStaticHash = [] then Some EmptyPassword
      else if has_prefix (PwdHash u) ''$argon2id$'' then
        (if \<not> validateArgon2Hash idkey pwdStaticHash (PwdHash u) then Some WrongPassword else None)
      else if PwdHash u \<noteq> HashPwd sha256 pwdStaticHash (Salt u) then Some WrongPassword
      else None)"

definition ValidateRawPassword ::
  "(string \<Rightarrow> string) \<Rightarrow> (string \<Rightarrow> string \<Rightarrow> string) \<Rightarrow> User \<Rightarrow> string \<Rightarrow> user_error option" where
  "ValidateRawPassword sha256 idkey u password =
     ValidatePwdStaticHash sha256 idkey u (StaticHash sha256 password)"

definition SetPasswordStaticHash ::
  "(string \<Rightarrow> string \<Rightarrow> string) \<Rightarrow> string \<Rightarrow> int \<Rightarrow> string \<Rightarrow> User \<Rightarrow> User" where
  "SetPasswordStaticHash idkey salt now pwdStaticHash u =
     u\<lparr>Salt := salt, PwdHash := encodeArgon2Hash idkey pwdStaticHash salt, PwdTS := now\<rparr>"

definition SetPassword ::
  "(string \<Rightarrow> string) \<Rightarrow> (string \<Rightarrow> string \<Rightarrow> string) \<Rightarrow> string \<Rightarrow> int \<Rightarrow> string \<Rightarrow> User \<Rightarrow> User" where
  "SetPassword sha256 idkey salt now pwd u =
     SetPasswordStaticHash idkey salt now (StaticHash sha256 pwd) u"

definition RehashPasswordStaticHash ::
  "(string \<Rightarrow> string \<Rightarrow> string) \<Rightarrow> string \<Rightarrow> int \<Rightarrow> string \<Rightarrow> User \<Rightarrow> User" where
  "RehashPasswordStaticHash idkey salt now pwdStaticHash u =
     (let passwordTimestamp = PwdTS u
      in (SetPasswordStaticHash idkey salt now pwdStaticHash u)\<lparr>PwdTS := passwordTimestamp\<rparr>)"

definition NeedsPasswordRehash :: "User \<Rightarrow> bool" where
  "NeedsPasswordRehash u \<longleftrightarrow> \<not> has_prefix (PwdHash u) argon2Prefix"

lemma encode_no_dollar: "CHR ''$'' \<notin> set (b64_encode url s)"
  using b64_encode_plain [of "CHR ''$''" url s] by (auto simp: byte_def)

lemma validate_encoded:
  assumes "16 \<le> length salt" and "length (idkey h salt) = 32"
  shows "validateArgon2Hash idkey h' (encodeArgon2Hash idkey h salt) \<longleftrightarrow> idkey h' salt = idkey h salt"
proof -
  have "cut_byte (b64_encode False salt @ CHR ''$'' # b64_encode False (idkey h salt)) (CHR ''$'') =
      (b64_encode False salt, b64_encode False (idkey h salt), True)"
    by (rule cut_byte_append) (rule encode_no_dollar)
  then show ?thesis
    using assms by (simp add: validateArgon2Hash_def encodeArgon2Hash_def cut_prefix_def b64_decode_encode Let_def)
qed

text \<open>The facts about a digest and a key derivation that the passwords rely on.\<close>

definition digests :: "(string \<Rightarrow> string) \<Rightarrow> bool" where
  "digests sha256 \<longleftrightarrow> (\<forall>s. length (sha256 s) = 64)"

definition derives :: "(string \<Rightarrow> string \<Rightarrow> string) \<Rightarrow> bool" where
  "derives idkey \<longleftrightarrow> (\<forall>p s. length (idkey p s) = 32)"

lemma argon2_prefixes [simp]: "has_prefix (encodeArgon2Hash idkey h salt) ''$argon2id$''"
    "has_prefix (encodeArgon2Hash idkey h salt) argon2Prefix"
  by (simp_all add: encodeArgon2Hash_def argon2Prefix_def has_prefix_def)

lemma validate_set:
  assumes "digests sha256" and "derives idkey" and "16 \<le> length salt"
  shows "ValidateRawPassword sha256 idkey (SetPassword sha256 idkey salt now pwd u) pwd' =
    (if idkey (StaticHash sha256 pwd') salt = idkey (StaticHash sha256 pwd) salt then None else Some WrongPassword)"
proof -
  have "length (StaticHash sha256 pwd') = 64" using assms(1) by (simp add: digests_def StaticHash_def)
  then have "StaticHash sha256 pwd' \<noteq> []" by auto
  then show ?thesis
    using validate_encoded [OF assms(3), of idkey] assms(2)
    by (simp add: ValidateRawPassword_def ValidatePwdStaticHash_def SetPassword_def
        SetPasswordStaticHash_def derives_def)
qed

text \<open>C28: After a password is set, exactly the passwords with the same derived key are accepted (so
  the password itself is), the hash needs no migration, and migrating an old hash on a login
  keeps the accepted passwords' keys and the timestamp that the tokens of the user carry.\<close>

theorem password_accepted:
  assumes "digests sha256" and "derives idkey" and "16 \<le> length salt"
  shows "(ValidateRawPassword sha256 idkey (SetPassword sha256 idkey salt now pwd u) pwd' = None \<longleftrightarrow>
      idkey (StaticHash sha256 pwd') salt = idkey (StaticHash sha256 pwd) salt) \<and>
    \<not> NeedsPasswordRehash (SetPassword sha256 idkey salt now pwd u) \<and>
    (let u' = RehashPasswordStaticHash idkey salt now (StaticHash sha256 pwd) u
     in PwdTS u' = PwdTS u \<and> \<not> NeedsPasswordRehash u' \<and> ValidateRawPassword sha256 idkey u' pwd = None)"
proof -
  have "ValidateRawPassword sha256 idkey (RehashPasswordStaticHash idkey salt now (StaticHash sha256 pwd) u) pwd =
      ValidateRawPassword sha256 idkey (SetPassword sha256 idkey salt now pwd u) pwd"
    by (simp add: ValidateRawPassword_def ValidatePwdStaticHash_def RehashPasswordStaticHash_def
        SetPassword_def SetPasswordStaticHash_def Let_def)
  then show ?thesis
    using validate_set [OF assms]
    by (simp add: NeedsPasswordRehash_def SetPassword_def RehashPasswordStaticHash_def
        SetPasswordStaticHash_def Let_def)
qed

definition demo_user :: User where
  "demo_user = \<lparr>uid = 1, Username = ''bob'', PwdHash = [], PwdTS = 7, Salt = [], Password = [],
     BasePath = ''/'', Role = 0, Disabled = False, Permission = 0x307, OtpSecret = [], SsoID = [],
     Authn = [], AllowLdap = True\<rparr>"

definition demo_hash :: "nat \<Rightarrow> string \<Rightarrow> string" where
  "demo_hash n s = take n (s @ replicate n (CHR ''x''))"

theorem password_accepted_witness:
  "ValidateRawPassword (demo_hash 64) (\<lambda>p s. demo_hash 32 p)
     (SetPassword (demo_hash 64) (\<lambda>p s. demo_hash 32 p) ''0123456789abcdef'' 5 ''secret'' demo_user)
     ''secret'' = None"
proof -
  have "digests (demo_hash 64)" "derives (\<lambda>p s. demo_hash 32 p)" "16 \<le> length ''0123456789abcdef''"
    by (simp_all add: digests_def derives_def demo_hash_def min_def)
  from password_accepted [OF this] show ?thesis by simp
qed

end
