(* ===== verification/Access.thy ===== *)
theory Access
  imports Metas Users
begin

text \<open>
  \<open>server/common/check.go\<close>: whether a user may read, write or access a path, from the nearest
  rule above it, and the two checks of a whole subtree.  \<open>None\<close> for the user is the internal
  user.  The pattern matcher of the hiding rules is a parameter: a pattern that does not
  compile makes \<open>MustCompile\<close> panic.
\<close>

section \<open>The checks\<close>

definition MetaCoversPath :: "string \<Rightarrow> string \<Rightarrow> bool \<Rightarrow> bool" where
  "MetaCoversPath metaPath reqPath applyToSubFolder \<longleftrightarrow>
     (if PathEqual metaPath reqPath then True else IsSubPath metaPath reqPath \<and> applyToSubFolder)"

definition CanRead :: "User option \<Rightarrow> Meta option \<Rightarrow> string \<Rightarrow> bool" where
  "CanRead user meta path =
     (case user of
        None \<Rightarrow> True
      | Some u \<Rightarrow>
          (case meta of
             None \<Rightarrow> True
           | Some m \<Rightarrow> \<not> (ReadUsers m \<noteq> [] \<and> uid u \<notin> set (ReadUsers m) \<and>
                MetaCoversPath (MetaPath m) path (ReadUsersSub m))))"

definition CanWrite :: "User option \<Rightarrow> Meta option \<Rightarrow> string \<Rightarrow> bool" where
  "CanWrite user meta path =
     (case user of
        None \<Rightarrow> True
      | Some u \<Rightarrow>
          (case meta of
             None \<Rightarrow> True
           | Some m \<Rightarrow> \<not> (WriteUsers m \<noteq> [] \<and> uid u \<notin> set (WriteUsers m) \<and>
                MetaCoversPath (MetaPath m) path (WriteUsersSub m))))"

text \<open>The shared shape of \<open>CanReadPath\<close> and \<open>CanWritePath\<close>, and of the two tree checks.\<close>

definition can_path :: "(User option \<Rightarrow> Meta option \<Rightarrow> string \<Rightarrow> bool) \<Rightarrow> metaStore \<Rightarrow> User option
    \<Rightarrow> string \<Rightarrow> ((meta_error + bool) \<times> metaStore) option" where
  "can_path can st user path =
     (case GetNearestMeta st path of
        None \<Rightarrow> None
      | Some (Inl e, st) \<Rightarrow>
          if e = MetaNotFound then Some (Inr (can user None path), st) else Some (Inl e, st)
      | Some (Inr meta, st) \<Rightarrow> Some (Inr (can user (Some meta) path), st))"

definition CanReadPath :: "metaStore \<Rightarrow> User option \<Rightarrow> string \<Rightarrow> ((meta_error + bool) \<times> metaStore) option" where
  "CanReadPath = can_path CanRead"

definition CanWritePath :: "metaStore \<Rightarrow> User option \<Rightarrow> string \<Rightarrow> ((meta_error + bool) \<times> metaStore) option" where
  "CanWritePath = can_path CanWrite"

definition max_int :: nat where
  "max_int = nat i64_max"

definition can_tree :: "(User option \<Rightarrow> Meta option \<Rightarrow> string \<Rightarrow> bool) \<Rightarrow> metaStore \<Rightarrow> User option
    \<Rightarrow> string \<Rightarrow> ((meta_error + bool) \<times> metaStore) option" where
  "can_tree can st user root =
     (case can_path can st user root of
        None \<Rightarrow> None
      | Some (Inl e, st) \<Rightarrow> Some (Inl e, st)
      | Some (Inr allowed, st) \<Rightarrow>
          if \<not> allowed then Some (Inr False, st)
          else (case GetMetas 1 max_int st of
              Inl e \<Rightarrow> Some (Inl (DbError e), st)
            | Inr (metas, _) \<Rightarrow>
                Some (Inr (\<not> list_ex (\<lambda>m. IsSubPath root (MetaPath m) \<and>
                  \<not> can user (Some m) (MetaPath m)) metas), st)))"

text \<open>For evaluation: the page of rules a tree check asks for holds every rule when there are few.\<close>

lemma can_tree_code [code]:
  "can_tree can st user root =
     (case can_path can st user root of
        None \<Rightarrow> None
      | Some (Inl e, st) \<Rightarrow> Some (Inl e, st)
      | Some (Inr allowed, st) \<Rightarrow>
          if \<not> allowed then Some (Inr False, st)
          else if down st then Some (Inl (DbError DbFailure), st)
          else Some (Inr (\<not> list_ex (\<lambda>m. IsSubPath root (MetaPath m) \<and> \<not> can user (Some m) (MetaPath m))
                 (if length (rows st) < 9 then rows st else take max_int (rows st))), st))"
proof -
  have "length xs < 9 \<Longrightarrow> take max_int xs = xs" for xs :: "Meta list" by (simp add: max_int_def i64_max_def)
  then show ?thesis
    unfolding can_tree_def GetMetas_def db_GetMetas_def by (auto split: option.split prod.split sum.split)
qed

definition CanReadTree :: "metaStore \<Rightarrow> User option \<Rightarrow> string \<Rightarrow> ((meta_error + bool) \<times> metaStore) option" where
  "CanReadTree = can_tree CanRead"

definition CanWriteTree :: "metaStore \<Rightarrow> User option \<Rightarrow> string \<Rightarrow> ((meta_error + bool) \<times> metaStore) option" where
  "CanWriteTree = can_tree CanWrite"

definition CanWriteContentBypassUserPerms :: "Meta option \<Rightarrow> string \<Rightarrow> bool" where
  "CanWriteContentBypassUserPerms meta path =
     (case meta of
        None \<Rightarrow> False
      | Some m \<Rightarrow> if \<not> MetaWrite m then False else MetaCoversPath (MetaPath m) path (WSub m))"

fun hidden_by :: "(string \<Rightarrow> string \<Rightarrow> bool option) \<Rightarrow> string list \<Rightarrow> string \<Rightarrow> bool go" where
  "hidden_by re [] name = Return False"
| "hidden_by re (h # hs) name =
     (case re h name of None \<Rightarrow> Panic | Some b \<Rightarrow> if b then Return True else hidden_by re hs name)"

definition CanAccess :: "(string \<Rightarrow> string \<Rightarrow> bool option) \<Rightarrow> User \<Rightarrow> Meta option \<Rightarrow> string \<Rightarrow> string \<Rightarrow> bool go" where
  "CanAccess re user meta reqPath password =
     go_bind
       (case meta of
          None \<Rightarrow> Return False
        | Some m \<Rightarrow>
            if \<not> CanSeeHides user \<and> Hide m \<noteq> [] \<and> MetaCoversPath (MetaPath m) (path_dir reqPath) (HSub m)
            then hidden_by re (split_on (CHR 0x0A) (Hide m)) (path_base reqPath)
            else Return False)
       (\<lambda>hidden.
          if hidden then Return False
          else if \<not> CanRead (Some user) meta reqPath then Return False
          else if CanAccessWithoutPassword user then Return True
          else (case meta of
              None \<Rightarrow> Return True
            | Some m \<Rightarrow>
                if MetaPassword m = [] then Return True
                else if \<not> MetaCoversPath (MetaPath m) reqPath (PSub m) then Return True
                else Return (MetaPassword m = password)))"

section \<open>The nearest rule\<close>

text \<open>The specification: the row of the longest prefix of the path's names that has one.\<close>

fun nearest_up :: "Meta list \<Rightarrow> string list \<Rightarrow> Meta option" where
  "nearest_up ms [] = find_row ms ''/''"
| "nearest_up ms (c # rs) =
     (case find_row ms (abs_path (rev (c # rs))) of Some m \<Rightarrow> Some m | None \<Rightarrow> nearest_up ms rs)"

definition nearest :: "Meta list \<Rightarrow> string list \<Rightarrow> Meta option" where
  "nearest ms cs = nearest_up ms (rev cs)"

lemma nearest_Nil [simp]: "nearest ms [] = find_row ms ''/''"
  by (simp add: nearest_def)

lemma nearest_snoc: "nearest ms (cs @ [c]) =
    (case find_row ms (abs_path (cs @ [c])) of Some m \<Rightarrow> Some m | None \<Rightarrow> nearest ms cs)"
  by (simp add: nearest_def split: option.split)

lemma getNearestMeta_ok:
  assumes "coherent st" and "list_all valid_comp cs"
  shows "\<exists>r st'. getNearestMeta st (abs_path cs) = Some (r, st') \<and> coherent st' \<and> rows st' = rows st \<and>
    down st' = down st \<and>
    (r = (case nearest (rows st) cs of None \<Rightarrow> Inl MetaNotFound | Some m \<Rightarrow> Inr m) \<or>
     (down st \<and> r = Inl (DbError DbFailure)))"
  using assms
proof (induction cs arbitrary: st rule: rev_induct)
  case Nil
  obtain r st1 where g: "getMetaByPath st ''/'' = (r, st1)" by fastforce
  have "getNearestMeta st ''/'' = Some (r, st1)"
    by (subst getNearestMeta.simps) (auto simp: g split: sum.splits)
  then show ?case using getMetaByPath_ok [OF Nil.prems(1), of "''/''"] g by auto
next
  case (snoc c cs)
  let ?p = "abs_path (cs @ [c])"
  obtain r st1 where g: "getMetaByPath st ?p = (r, st1)" by fastforce
  have ne: "?p \<noteq> ''/''" "?p \<noteq> []" using snoc.prems(2) abs_path_root_iff [of "cs @ [c]"] by (auto simp: abs_path_def)
  note ok = getMetaByPath_ok [OF snoc.prems(1) ne(2), unfolded g fst_conv snd_conv]
  have eq: "getNearestMeta st ?p = (case r of Inr m \<Rightarrow> Some (Inr m, st1)
      | Inl e \<Rightarrow> if e \<noteq> MetaNotFound then Some (Inl e, st1) else getNearestMeta st1 (abs_path cs))"
    using ne(1) snoc.prems(2) path_dir_snoc [of cs c]
    by (subst getNearestMeta.simps) (auto simp: g split: sum.splits)
  have IH: "\<exists>r st'. getNearestMeta st1 (abs_path cs) = Some (r, st') \<and> coherent st' \<and> rows st' = rows st \<and>
    down st' = down st \<and> (r = (case nearest (rows st) cs of None \<Rightarrow> Inl MetaNotFound | Some m \<Rightarrow> Inr m) \<or>
     (down st \<and> r = Inl (DbError DbFailure)))"
    using snoc.IH [OF ok(1)] snoc.prems(2) ok(2,3) by simp
  from ok(4) show ?case
  proof
    assume r: "r = (case find_row (rows st) ?p of None \<Rightarrow> Inl MetaNotFound | Some m \<Rightarrow> Inr m)"
    show ?case
    proof (cases "find_row (rows st) ?p")
      case None
      then show ?thesis using IH r by (simp add: eq nearest_snoc)
    next
      case (Some m)
      then show ?thesis using ok r by (simp add: eq nearest_snoc)
    qed
  next
    assume "down st \<and> r = Inl (DbError DbFailure)"
    then show ?case using ok by (simp add: eq)
  qed
qed

lemma GetNearestMeta_ok:
  assumes "coherent st"
  shows "\<exists>r st'. GetNearestMeta st path = Some (r, st') \<and> coherent st' \<and> rows st' = rows st \<and>
    down st' = down st \<and>
    (r = (case nearest (rows st) (norm path) of None \<Rightarrow> Inl MetaNotFound | Some m \<Rightarrow> Inr m) \<or>
     (down st \<and> r = Inl (DbError DbFailure)))"
  using getNearestMeta_ok [OF assms norm_valid, of path] by (simp add: GetNearestMeta_def FixAndCleanPath_norm)

lemma nearest_Some:
  assumes "distinct (map MetaPath ms)" and "nearest ms cs = Some m" and "list_all valid_comp cs"
  shows "m \<in> set ms \<and> (\<exists>p. prefix p cs \<and> MetaPath m = abs_path p \<and>
    (\<forall>q m'. prefix q cs \<and> m' \<in> set ms \<and> MetaPath m' = abs_path q \<longrightarrow> length q \<le> length p))"
  using assms(2,3)
proof (induction cs rule: rev_induct)
  case Nil
  then show ?case using find_row_Some [OF assms(1)] by (auto intro!: exI [of _ "[]"])
next
  case (snoc c cs)
  show ?case
  proof (cases "find_row ms (abs_path (cs @ [c]))")
    case None
    then have IH: "m \<in> set ms \<and> (\<exists>p. prefix p cs \<and> MetaPath m = abs_path p \<and>
      (\<forall>q m'. prefix q cs \<and> m' \<in> set ms \<and> MetaPath m' = abs_path q \<longrightarrow> length q \<le> length p))"
      using snoc by (simp add: nearest_snoc)
    moreover have "\<not> (m' \<in> set ms \<and> MetaPath m' = abs_path (cs @ [c]))" for m'
      using None by (force simp: find_row_None)
    ultimately show ?thesis unfolding prefix_snoc by blast
  next
    case (Some m')
    then have "m = m'" using snoc.prems(1) by (simp add: nearest_snoc)
    then have "m \<in> set ms" "MetaPath m = abs_path (cs @ [c])" using Some find_row_Some [OF assms(1)] by auto
    then show ?thesis using prefix_length_le by blast
  qed
qed

lemma nearest_None:
  assumes "nearest ms cs = None" and "prefix p cs" and "list_all valid_comp cs"
  shows "find_row ms (abs_path p) = None"
  using assms
  by (induction cs rule: rev_induct) (auto simp: nearest_snoc prefix_snoc split: option.splits)

lemma meta_path_norm:
  assumes "meta_ok st" and "m \<in> set (rows st)"
  shows "MetaPath m = abs_path (norm (MetaPath m))"
  using assms by (auto simp: meta_ok_def list_all_iff FixAndCleanPath_norm)

lemma nearest_row:
  assumes ok: "meta_ok st" and n: "nearest (rows st) cs = Some m" and cs: "list_all valid_comp cs"
  shows "m \<in> set (rows st)" and "prefix (norm (MetaPath m)) cs"
    and "m' \<in> set (rows st) \<Longrightarrow> prefix (norm (MetaPath m')) cs \<Longrightarrow>
      length (norm (MetaPath m')) \<le> length (norm (MetaPath m))"
proof -
  have d: "distinct (map MetaPath (rows st))" using ok by (simp add: meta_ok_def)
  obtain p where p: "m \<in> set (rows st)" "prefix p cs" "MetaPath m = abs_path p"
    and max: "\<And>q m'. prefix q cs \<Longrightarrow> m' \<in> set (rows st) \<Longrightarrow> MetaPath m' = abs_path q \<Longrightarrow> length q \<le> length p"
    using nearest_Some [OF d n cs] by blast
  have "abs_path p = abs_path (norm (MetaPath m))" using meta_path_norm [OF ok p(1)] p(3) by simp
  then have eq: "norm (MetaPath m) = p" using abs_path_inj list_all_prefix [OF p(2) cs] norm_valid by metis
  show "m \<in> set (rows st)" "prefix (norm (MetaPath m)) cs" using p eq by simp_all
  show "m' \<in> set (rows st) \<Longrightarrow> prefix (norm (MetaPath m')) cs \<Longrightarrow>
      length (norm (MetaPath m')) \<le> length (norm (MetaPath m))"
    using max meta_path_norm [OF ok] eq by blast
qed

lemma nearest_unique:
  assumes ok: "meta_ok st" and cs: "list_all valid_comp cs" and m: "m \<in> set (rows st)"
    and p: "prefix (norm (MetaPath m)) cs"
    and max: "\<And>m'. m' \<in> set (rows st) \<Longrightarrow> prefix (norm (MetaPath m')) cs \<Longrightarrow>
      length (norm (MetaPath m')) \<le> length (norm (MetaPath m))"
  shows "nearest (rows st) cs = Some m"
proof (cases "nearest (rows st) cs")
  case None
  then have "find_row (rows st) (abs_path (norm (MetaPath m))) = None" using nearest_None p cs by blast
  then show ?thesis using m meta_path_norm [OF ok m] by (simp add: find_row_None)
next
  case (Some m')
  note n = nearest_row [OF ok Some cs]
  have "length (norm (MetaPath m')) = length (norm (MetaPath m))"
    using max [OF n(1,2)] n(3) [OF m p] by simp
  then have "norm (MetaPath m') = norm (MetaPath m)"
    using prefix_length_prefix [OF n(2) p] prefix_length_prefix [OF p n(2)] prefix_order.antisym by simp
  then have "MetaPath m' = MetaPath m" using meta_path_norm [OF ok m] meta_path_norm [OF ok n(1)] by simp
  then have "m' = m" using ok n(1) m by (auto simp: meta_ok_def distinct_map inj_on_def)
  with Some show ?thesis by simp
qed

section \<open>The tree checks\<close>

text \<open>Both permissions refuse exactly the paths a rule covers that restricts the user.\<close>

definition restricting :: "(User option \<Rightarrow> Meta option \<Rightarrow> string \<Rightarrow> bool) \<Rightarrow> (User option \<Rightarrow> Meta \<Rightarrow> bool)
    \<Rightarrow> (Meta \<Rightarrow> bool) \<Rightarrow> bool" where
  "restricting can lim sub \<longleftrightarrow> (\<forall>u p. can u None p) \<and>
     (\<forall>u m p. can u (Some m) p \<longleftrightarrow> \<not> (lim u m \<and> MetaCoversPath (MetaPath m) p (sub m)))"

lemma CanRead_restricting:
  "restricting CanRead (\<lambda>u m. case u of None \<Rightarrow> False | Some u \<Rightarrow> ReadUsers m \<noteq> [] \<and> uid u \<notin> set (ReadUsers m))
    ReadUsersSub"
  by (auto simp: restricting_def CanRead_def split: option.splits)

lemma CanWrite_restricting:
  "restricting CanWrite (\<lambda>u m. case u of None \<Rightarrow> False | Some u \<Rightarrow> WriteUsers m \<noteq> [] \<and> uid u \<notin> set (WriteUsers m))
    WriteUsersSub"
  by (auto simp: restricting_def CanWrite_def split: option.splits)

definition allowed_at :: "(User option \<Rightarrow> Meta option \<Rightarrow> string \<Rightarrow> bool) \<Rightarrow> Meta list \<Rightarrow> User option \<Rightarrow> string \<Rightarrow> bool" where
  "allowed_at can ms u path = can u (nearest ms (norm path)) path"

lemma can_path_ok:
  assumes "meta_ok st" and "\<not> down st"
  shows "\<exists>st'. can_path can st u path = Some (Inr (allowed_at can (rows st) u path), st') \<and>
    rows st' = rows st \<and> \<not> down st'"
proof -
  have "coherent st" using assms(1) by (simp add: meta_ok_def)
  from GetNearestMeta_ok [OF this, of path] assms(2) show ?thesis
    by (cases "nearest (rows st) (norm path)") (auto simp: can_path_def allowed_at_def)
qed

lemma MetaCoversPath_norm:
  "MetaCoversPath p q sub \<longleftrightarrow> norm p = norm q \<or> (sub \<and> prefix (norm p) (norm q))"
  by (auto simp: MetaCoversPath_def PathEqual_norm IsSubPath_norm)

lemma tree_exact:
  assumes ok: "meta_ok st" and r: "restricting can lim sub"
  shows "(allowed_at can (rows st) u root \<and>
      (\<forall>m \<in> set (rows st). IsSubPath root (MetaPath m) \<longrightarrow> can u (Some m) (MetaPath m))) \<longleftrightarrow>
    (\<forall>path. IsSubPath root path \<longrightarrow> allowed_at can (rows st) u path)"
proof (intro iffI conjI ballI allI impI)
  fix path
  assume A: "allowed_at can (rows st) u root \<and>
      (\<forall>m \<in> set (rows st). IsSubPath root (MetaPath m) \<longrightarrow> can u (Some m) (MetaPath m))"
    and sub: "IsSubPath root path"
  then have pre: "prefix (norm root) (norm path)" by (simp add: IsSubPath_norm)
  show "allowed_at can (rows st) u path"
  proof (cases "nearest (rows st) (norm path)")
    case None
    then show ?thesis using r by (simp add: allowed_at_def restricting_def)
  next
    case (Some m)
    note n = nearest_row [OF ok Some norm_valid]
    consider "prefix (norm root) (norm (MetaPath m))" | "strict_prefix (norm (MetaPath m)) (norm root)"
      using prefix_same_cases [OF pre n(2)] prefix_order.order_refl unfolding strict_prefix_def by metis
    then show ?thesis
    proof cases
      case 1
      then have "can u (Some m) (MetaPath m)" using A n(1) by (simp add: IsSubPath_norm)
      then have "\<not> lim u m" using r by (simp add: restricting_def MetaCoversPath_norm)
      then show ?thesis using r Some by (simp add: allowed_at_def restricting_def)
    next
      case 2
      then have p: "prefix (norm (MetaPath m)) (norm root)" "norm (MetaPath m) \<noteq> norm root"
        by (auto simp: strict_prefix_def)
      have "nearest (rows st) (norm root) = Some m"
        by (rule nearest_unique [OF ok norm_valid n(1) p(1)]) (use n(3) pre prefix_order.trans in blast)
      then have "can u (Some m) root" using A by (simp add: allowed_at_def)
      then have "\<not> (lim u m \<and> sub m)" using r p by (simp add: restricting_def MetaCoversPath_norm)
      moreover have "norm (MetaPath m) \<noteq> norm path" using p pre prefix_order.antisym by metis
      ultimately show ?thesis using r Some by (auto simp: allowed_at_def restricting_def MetaCoversPath_norm)
    qed
  qed
next
  assume A: "\<forall>path. IsSubPath root path \<longrightarrow> allowed_at can (rows st) u path"
  then show "allowed_at can (rows st) u root" by (simp add: IsSubPath_norm)
  fix m assume m: "m \<in> set (rows st)" and s: "IsSubPath root (MetaPath m)"
  have "nearest (rows st) (norm (MetaPath m)) = Some m"
    by (rule nearest_unique [OF ok norm_valid m]) (simp_all add: prefix_length_le)
  then show "can u (Some m) (MetaPath m)" using A s by (auto simp: allowed_at_def)
qed

lemma can_tree_ok:
  assumes ok: "meta_ok st" and up: "\<not> down st" and len: "length (rows st) \<le> max_int"
    and r: "restricting can lim sub"
  shows "\<exists>b st'. can_tree can st u root = Some (Inr b, st') \<and>
    (b \<longleftrightarrow> (\<forall>path. IsSubPath root path \<longrightarrow> (\<exists>st''. can_path can st u path = Some (Inr True, st''))))"
proof -
  obtain st1 where st1: "can_path can st u root = Some (Inr (allowed_at can (rows st) u root), st1)"
    "rows st1 = rows st" "\<not> down st1" using can_path_ok [OF ok up] by blast
  have "GetMetas 1 max_int st1 = Inr (rows st, length (rows st))"
    using st1 len by (simp add: GetMetas_def db_GetMetas_def)
  then have "\<exists>st'. can_tree can st u root = Some (Inr (allowed_at can (rows st) u root \<and>
      (\<forall>m \<in> set (rows st). IsSubPath root (MetaPath m) \<longrightarrow> can u (Some m) (MetaPath m))), st')"
    using st1 by (auto simp: can_tree_def list_ex_iff)
  moreover have "(\<exists>st''. can_path can st u path = Some (Inr True, st'')) \<longleftrightarrow> allowed_at can (rows st) u path" for path
    using can_path_ok [OF ok up, of can u path] by fastforce
  ultimately show ?thesis using tree_exact [OF ok r, of u root] by simp
qed

text \<open>A table with one rule, which lets only user 2 read below \<open>/a\<close>.\<close>

definition demo_meta :: Meta where
  "demo_meta = \<lparr>mid = 0, MetaPath = ''/a'', ReadUsers = [2], ReadUsersSub = True, WriteUsers = [],
     WriteUsersSub = False, MetaPassword = [], PSub = False, MetaWrite = False, WSub = False,
     Hide = [], HSub = False, Readme = [], RSub = False, Header = [], HeaderSub = False\<rparr>"

definition demo_store :: metaStore where
  "demo_store = snd (CreateMeta 1 demo_meta \<lparr>rows = [], down = False, cache = (\<lambda>_. None)\<rparr>)"

lemma demo_store: "meta_reach demo_store" "\<not> down demo_store" "rows demo_store = [demo_meta\<lparr>mid := 1\<rparr>]"
  "nearest [demo_meta\<lparr>mid := 1\<rparr>] (norm ''/a/b'') = Some (demo_meta\<lparr>mid := 1\<rparr>)"
proof -
  show "meta_reach demo_store" unfolding demo_store_def by (intro meta_reach.create meta_reach.empty)
  show "\<not> down demo_store" by code_simp
  show "rows demo_store = [demo_meta\<lparr>mid := 1\<rparr>]" by code_simp
  show "nearest [demo_meta\<lparr>mid := 1\<rparr>] (norm ''/a/b'') = Some (demo_meta\<lparr>mid := 1\<rparr>)" by code_simp
qed

text \<open>The nearest rule that the cached, possibly expired lookups find is the row of the longest
  ancestor that has one, in every reachable state of the table and its cache; the walk to the
  root always ends, and when the database is up it never fails.\<close>

theorem GetNearestMeta_nearest:
  assumes "meta_reach st" and "\<not> down st"
  shows "\<exists>st'. GetNearestMeta st path =
    Some (case nearest (rows st) (norm path) of None \<Rightarrow> Inl MetaNotFound | Some m \<Rightarrow> Inr m, st')"
  using GetNearestMeta_ok [of st path] meta_reach_ok [OF assms(1)] assms(2) by (auto simp: meta_ok_def)

theorem GetNearestMeta_nearest_witness:
  "\<exists>st'. GetNearestMeta demo_store ''/a/b'' = Some (Inr (demo_meta\<lparr>mid := 1\<rparr>), st')"
  using GetNearestMeta_nearest [OF demo_store(1,2), of "''/a/b''"] unfolding demo_store(3,4) by simp

text \<open>C27: The tree check allows a user to read a directory exactly when every path below it may be
  read, and likewise for writing, whatever rules there are above, at and below the root.\<close>

theorem CanReadTree_exact:
  assumes "meta_reach st" and "\<not> down st" and "length (rows st) \<le> max_int"
  shows "(\<exists>b st'. CanReadTree st u root = Some (Inr b, st') \<and>
      (b = (\<forall>path. IsSubPath root path \<longrightarrow> (\<exists>st''. CanReadPath st u path = Some (Inr True, st''))))) \<and>
    (\<exists>b st'. CanWriteTree st u root = Some (Inr b, st') \<and>
      (b = (\<forall>path. IsSubPath root path \<longrightarrow> (\<exists>st''. CanWritePath st u path = Some (Inr True, st'')))))"
  unfolding CanReadTree_def CanReadPath_def CanWriteTree_def CanWritePath_def
  using can_tree_ok [OF meta_reach_ok [OF assms(1)] assms(2,3) CanRead_restricting]
    can_tree_ok [OF meta_reach_ok [OF assms(1)] assms(2,3) CanWrite_restricting] by blast

theorem CanReadTree_exact_witness:
  "\<exists>st'. CanReadTree demo_store (Some demo_user) ''/'' = Some (Inr False, st')"
proof -
  have len: "length (rows demo_store) \<le> max_int" by (simp add: demo_store(3) max_int_def i64_max_def)
  have "\<not> allowed_at CanRead (rows demo_store) (Some demo_user) ''/a/b''"
    unfolding demo_store(3) by code_simp
  moreover have "IsSubPath ''/'' ''/a/b''" by code_simp
  ultimately have "\<not> (\<forall>path. IsSubPath ''/'' path \<longrightarrow>
      (\<exists>st''. CanReadPath demo_store (Some demo_user) path = Some (Inr True, st'')))"
    using can_path_ok [OF meta_reach_ok [OF demo_store(1)] demo_store(2), of CanRead "Some demo_user" "''/a/b''"]
    unfolding CanReadPath_def by fastforce
  moreover obtain b st' where "CanReadTree demo_store (Some demo_user) ''/'' = Some (Inr b, st')"
    "b = (\<forall>path. IsSubPath ''/'' path \<longrightarrow>
      (\<exists>st''. CanReadPath demo_store (Some demo_user) path = Some (Inr True, st'')))"
    using conjunct1 [OF CanReadTree_exact [OF demo_store(1,2) len, of "Some demo_user" "''/''"]] by blast
  ultimately show ?thesis by simp
qed

end
