(* ===== verification/Caches.thy ===== *)
theory Caches
  imports Main "HOL-Library.AList"
begin

text \<open>
  \<open>internal/cache\<close>: the keyed and the typed cache with their expiring entries.  Whether an
  entry has expired is the interface \<open>Expirable\<close>, here a predicate on the entry's expirable
  part (\<open>past now\<close> for times, the state of the shared closers for links).  The locks are held
  for each whole operation, so the re-check of an expired entry under the write lock always
  finds the same entry.  The locale is what the clients rely on: an entry read was stored
  under that key and not removed since.
\<close>

section \<open>The contract of a cache\<close>

definition agrees :: "('k \<Rightarrow> 'v option) \<Rightarrow> ('k \<Rightarrow> 'v option) \<Rightarrow> bool" where
  "agrees view src \<longleftrightarrow> (\<forall>k v. view k = Some v \<longrightarrow> src k = Some v)"

locale read_cache =
  fixes get :: "'k \<Rightarrow> 'c \<Rightarrow> 'v option \<times> 'c" and put :: "'k \<Rightarrow> 'v \<Rightarrow> 'c \<Rightarrow> 'c"
    and del :: "'k \<Rightarrow> 'c \<Rightarrow> 'c" and view :: "'c \<Rightarrow> 'k \<Rightarrow> 'v option"
  assumes get_view: "fst (get k c) = Some v \<Longrightarrow> view c k = Some v"
    and get_keeps: "view (snd (get k c)) j = Some v \<Longrightarrow> view c j = Some v"
    and view_put: "view (put k v c) = (view c)(k := Some v)"
    and view_del: "view (del k c) = (view c)(k := None)"
begin

lemma agrees_get: "agrees (view c) src \<Longrightarrow> agrees (view (snd (get k c))) src"
  using get_keeps unfolding agrees_def by blast

lemma get_agrees: "agrees (view c) src \<Longrightarrow> fst (get k c) = Some v \<Longrightarrow> src k = Some v"
  using get_view unfolding agrees_def by blast

lemma agrees_put: "agrees (view c) src \<Longrightarrow> src k = Some v \<Longrightarrow> agrees (view (put k v c)) src"
  by (simp add: agrees_def view_put)

lemma agrees_del: "agrees (view c) src \<Longrightarrow> agrees (view (del k c)) src"
  by (simp add: agrees_def view_del)

text \<open>A change of the source at the keys that were removed.\<close>

lemma agrees_change:
  "agrees (view c) src \<Longrightarrow> (\<And>j. j \<noteq> k \<Longrightarrow> src j \<noteq> None \<Longrightarrow> src' j = src j) \<Longrightarrow> agrees (view (del k c)) src'"
  unfolding agrees_def view_del by (metis fun_upd_apply option.distinct(1))

end

section \<open>The keyed cache\<close>

record ('v, 'e) CacheEntry =
  entry_data :: 'v
  entry_exp :: 'e

type_synonym ('v, 'e) KeyedCache = "string \<Rightarrow> ('v, 'e) CacheEntry option"

definition past :: "int \<Rightarrow> int \<Rightarrow> bool" where
  "past now e \<longleftrightarrow> e < now"

definition SetWithExpirable :: "string \<Rightarrow> 'v \<Rightarrow> 'e \<Rightarrow> ('v, 'e) KeyedCache \<Rightarrow> ('v, 'e) KeyedCache" where
  "SetWithExpirable key value exp c = c(key := Some \<lparr>entry_data = value, entry_exp = exp\<rparr>)"

definition SetWithTTL :: "int \<Rightarrow> string \<Rightarrow> 'v \<Rightarrow> int \<Rightarrow> ('v, int) KeyedCache \<Rightarrow> ('v, int) KeyedCache" where
  "SetWithTTL now key value ttl c = SetWithExpirable key value (now + ttl) c"

definition Get :: "('e \<Rightarrow> bool) \<Rightarrow> string \<Rightarrow> ('v, 'e) KeyedCache \<Rightarrow> 'v option \<times> ('v, 'e) KeyedCache" where
  "Get expired key c =
     (case c key of
        None \<Rightarrow> (None, c)
      | Some entry \<Rightarrow>
          if \<not> expired (entry_exp entry) then (Some (entry_data entry), c)
          else (None, c(key := None)))"

definition Delete :: "string \<Rightarrow> ('v, 'e) KeyedCache \<Rightarrow> ('v, 'e) KeyedCache" where
  "Delete key c = c(key := None)"

definition Pop :: "string \<Rightarrow> ('v, 'e) KeyedCache \<Rightarrow> 'v option \<times> ('v, 'e) KeyedCache" where
  "Pop key c = (case c key of None \<Rightarrow> (None, c) | Some entry \<Rightarrow> (Some (entry_data entry), c(key := None)))"

definition Clear :: "('v, 'e) KeyedCache \<Rightarrow> ('v, 'e) KeyedCache" where
  "Clear c = (\<lambda>_. None)"

definition GC :: "('e \<Rightarrow> bool) \<Rightarrow> ('v, 'e) KeyedCache \<Rightarrow> ('v, 'e) KeyedCache" where
  "GC expired c key =
     (case c key of None \<Rightarrow> None | Some entry \<Rightarrow> if expired (entry_exp entry) then None else Some entry)"

definition stored :: "('v, 'e) KeyedCache \<Rightarrow> string \<Rightarrow> 'v option" where
  "stored c key = map_option entry_data (c key)"

interpretation kc: read_cache "Get expired" "\<lambda>k v. SetWithExpirable k v exp" Delete stored
  for expired :: "'e \<Rightarrow> bool" and exp :: 'e
proof unfold_locales
  fix k j :: string and c :: "('v, 'e) KeyedCache" and v :: 'v
  show "fst (Get expired k c) = Some v \<Longrightarrow> stored c k = Some v"
    by (auto simp: Get_def stored_def split: option.splits if_splits)
  show "stored (snd (Get expired k c)) j = Some v \<Longrightarrow> stored c j = Some v"
    by (auto simp: Get_def stored_def split: option.splits if_splits)
  show "stored (SetWithExpirable k v exp c) = (stored c)(k := Some v)"
    by (auto simp: SetWithExpirable_def stored_def)
  show "stored (Delete k c) = (stored c)(k := None)"
    by (auto simp: Delete_def stored_def)
qed

text \<open>A sweep of the expired entries is invisible to every later read.\<close>

lemma Get_GC: "fst (Get expired k (GC expired c)) = fst (Get expired k c)"
  by (auto simp: Get_def GC_def split: option.splits)

lemma Get_set: "\<not> expired e \<Longrightarrow> fst (Get expired k (SetWithExpirable j v e c)) =
    (if k = j then Some v else fst (Get expired k c))"
  by (auto simp: Get_def SetWithExpirable_def split: option.splits)

lemma Pop_Delete: "snd (Pop k c) = Delete k c" and Pop_stored: "fst (Pop k c) = stored c k"
  by (auto simp: Pop_def Delete_def stored_def fun_eq_iff split: option.splits)

section \<open>The typed cache\<close>

text \<open>Two levels of maps; a key whose last type goes is removed, so no inner map is empty.\<close>

type_synonym ('v, 'e) TypedCache = "string \<Rightarrow> (string \<times> ('v, 'e) CacheEntry) list option"

definition SetTypeWithExpirable ::
  "string \<Rightarrow> string \<Rightarrow> 'v \<Rightarrow> 'e \<Rightarrow> ('v, 'e) TypedCache \<Rightarrow> ('v, 'e) TypedCache" where
  "SetTypeWithExpirable key typeKey value exp c =
     (let cache = (case c key of None \<Rightarrow> [] | Some m \<Rightarrow> m)
      in c(key := Some (AList.update typeKey \<lparr>entry_data = value, entry_exp = exp\<rparr> cache)))"

definition drop_type :: "string \<Rightarrow> string \<Rightarrow> ('v, 'e) TypedCache \<Rightarrow> ('v, 'e) TypedCache" where
  "drop_type key typeKey c =
     (case c key of
        None \<Rightarrow> c
      | Some m \<Rightarrow>
          let m = AList.delete typeKey m
          in c(key := if m = [] then None else Some m))"

definition GetType :: "('e \<Rightarrow> bool) \<Rightarrow> string \<Rightarrow> string \<Rightarrow> ('v, 'e) TypedCache
    \<Rightarrow> 'v option \<times> ('v, 'e) TypedCache" where
  "GetType expired key typeKey c =
     (case Option.bind (c key) (\<lambda>m. map_of m typeKey) of
        None \<Rightarrow> (None, c)
      | Some entry \<Rightarrow>
          if \<not> expired (entry_exp entry) then (Some (entry_data entry), c)
          else (None, drop_type key typeKey c))"

definition DeleteKey :: "string \<Rightarrow> ('v, 'e) TypedCache \<Rightarrow> ('v, 'e) TypedCache" where
  "DeleteKey key c = c(key := None)"

definition ClearTyped :: "('v, 'e) TypedCache \<Rightarrow> ('v, 'e) TypedCache" where
  "ClearTyped c = (\<lambda>_. None)"

definition GCTyped :: "('e \<Rightarrow> bool) \<Rightarrow> ('v, 'e) TypedCache \<Rightarrow> ('v, 'e) TypedCache" where
  "GCTyped expired c key =
     (case c key of
        None \<Rightarrow> None
      | Some m \<Rightarrow>
          let m' = filter (\<lambda>te. \<not> expired (entry_exp (snd te))) m
          in if m \<noteq> [] \<and> m' = [] then None else Some m')"

definition stored_type :: "('v, 'e) TypedCache \<Rightarrow> string \<times> string \<Rightarrow> 'v option" where
  "stored_type c kt = map_option entry_data (Option.bind (c (fst kt)) (\<lambda>m. map_of m (snd kt)))"

lemma map_of_delete: "map_of (AList.delete t m) u = (if u = t then None else map_of m u)"
  by (simp add: delete_conv')

lemma delete_all: "AList.delete t m = [] \<Longrightarrow> u \<noteq> t \<Longrightarrow> map_of m u = None"
  using map_of_delete [of t m u] by simp

lemma drop_type_stored: "stored_type (drop_type k t c) = (stored_type c)((k, t) := None)"
proof
  fix kt
  show "stored_type (drop_type k t c) kt = ((stored_type c)((k, t) := None)) kt"
  proof (cases "c k")
    case None
    then show ?thesis by (cases kt) (simp add: drop_type_def stored_type_def)
  next
    case (Some m)
    then show ?thesis
      by (cases kt) (auto simp: drop_type_def stored_type_def Let_def map_of_delete dest: delete_all)
  qed
qed

interpretation tc: read_cache "\<lambda>kt. GetType expired (fst kt) (snd kt)"
  "\<lambda>kt v. SetTypeWithExpirable (fst kt) (snd kt) v exp" "\<lambda>kt. drop_type (fst kt) (snd kt)" stored_type
  for expired :: "'e \<Rightarrow> bool" and exp :: 'e
proof unfold_locales
  fix k j :: "string \<times> string" and c :: "('v, 'e) TypedCache" and v :: 'v
  show "fst (GetType expired (fst k) (snd k) c) = Some v \<Longrightarrow> stored_type c k = Some v"
    by (auto simp: GetType_def stored_type_def split: option.splits if_splits)
  show "stored_type (snd (GetType expired (fst k) (snd k) c)) j = Some v \<Longrightarrow> stored_type c j = Some v"
    using drop_type_stored [of "fst k" "snd k" c]
    by (auto simp: GetType_def fun_upd_def split: option.splits if_splits)
  show "stored_type (SetTypeWithExpirable (fst k) (snd k) v exp c) = (stored_type c)(k := Some v)"
    by (cases k) (auto simp: SetTypeWithExpirable_def stored_type_def fun_eq_iff Let_def update_conv' split: option.splits)
  show "stored_type (drop_type (fst k) (snd k) c) = (stored_type c)(k := None)"
    using drop_type_stored [of "fst k" "snd k" c] by simp
qed

text \<open>No key is kept for an empty inner map.\<close>

definition typed_ok :: "('v, 'e) TypedCache \<Rightarrow> bool" where
  "typed_ok c \<longleftrightarrow> (\<forall>k. c k \<noteq> Some [])"

lemma typed_ok_set: "typed_ok c \<Longrightarrow> typed_ok (SetTypeWithExpirable k t v e c)"
proof -
  have "AList.update t y m \<noteq> []" for y and m :: "(string \<times> 'c) list" by (cases m) auto
  then show "typed_ok c \<Longrightarrow> typed_ok (SetTypeWithExpirable k t v e c)"
    by (auto simp: typed_ok_def SetTypeWithExpirable_def Let_def)
qed

lemma typed_ok_drop: "typed_ok c \<Longrightarrow> typed_ok (drop_type k t c)"
  by (auto simp: typed_ok_def drop_type_def Let_def split: option.splits)

lemma typed_ok_GC: "typed_ok c \<Longrightarrow> typed_ok (GCTyped expired c)"
  by (auto simp: typed_ok_def GCTyped_def Let_def split: option.splits if_splits)

end
