(* ===== verification/Accounts.thy ===== *)
theory Accounts
  imports Users Metas Caches
begin

text \<open>
  \<open>internal/db/user.go\<close> and \<open>internal/op/user.go\<close>: the table of users and the users held in
  memory.  The Go code hands out pointers to the users it has loaded: the cache by name and
  the variable \<open>adminUser\<close> keep such pointers, and a caller that changes a user changes what
  they see.  So the store has a heap of loaded users, pointers are positions in it, and an
  operation on a \<open>*model.User\<close> takes the position.  Times are nanoseconds.
\<close>

section \<open>The table\<close>

record userStore =
  urows :: "User list"
  udown :: bool
  uheap :: "User list"
  userCache :: "(nat, int) KeyedCache"
  adminUser :: "nat option"

definition name_row :: "User list \<Rightarrow> string \<Rightarrow> User option" where
  "name_row us n = find (\<lambda>u. Username u = n) us"

definition id_row :: "User list \<Rightarrow> nat \<Rightarrow> User option" where
  "id_row us i = find (\<lambda>u. uid u = i) us"

definition db_first :: "(User \<Rightarrow> bool) \<Rightarrow> userStore \<Rightarrow> db_error + User" where
  "db_first P st =
     (if udown st then Inl DbFailure
      else (case find P (urows st) of None \<Rightarrow> Inl RecordNotFound | Some u \<Rightarrow> Inr u))"

text \<open>A query by a struct leaves out zero fields: an empty name selects any row.\<close>

definition db_GetUserByRole :: "int \<Rightarrow> userStore \<Rightarrow> db_error + User" where
  "db_GetUserByRole r st = db_first (\<lambda>u. r = 0 \<or> Role u = r) st"

definition db_GetUserByName :: "string \<Rightarrow> userStore \<Rightarrow> db_error + User" where
  "db_GetUserByName n st = db_first (\<lambda>u. n = [] \<or> Username u = n) st"

definition db_GetUserById :: "nat \<Rightarrow> userStore \<Rightarrow> db_error + User" where
  "db_GetUserById i st = db_first (\<lambda>u. uid u = i) st"

text \<open>\<open>Create\<close> assigns the id \<open>nid\<close> to a row without one, and stores the column default where the
  field with a default has its zero value: \<open>AllowLdap\<close> is stored as true in either case.\<close>

definition db_CreateUser :: "nat \<Rightarrow> User \<Rightarrow> userStore \<Rightarrow> db_error option \<times> userStore" where
  "db_CreateUser nid u st =
     (let u = (if uid u = 0 then u\<lparr>uid := nid\<rparr> else u)\<lparr>AllowLdap := True\<rparr>
      in if udown st \<or> uid u \<in> uid ` set (urows st) \<or> Username u \<in> Username ` set (urows st)
         then (Some DbFailure, st)
         else (None, st\<lparr>urows := insort_key uid u (urows st)\<rparr>))"

text \<open>\<open>Save\<close> writes the whole row, and inserts it when no row has its id.\<close>

definition db_UpdateUser :: "User \<Rightarrow> userStore \<Rightarrow> db_error option \<times> userStore" where
  "db_UpdateUser u st =
     (if udown st \<or> (\<exists>v \<in> set (urows st). uid v \<noteq> uid u \<and> Username v = Username u)
      then (Some DbFailure, st)
      else if uid u \<in> uid ` set (urows st)
        then (None, st\<lparr>urows := map (\<lambda>v. if uid v = uid u then u else v) (urows st)\<rparr>)
      else (None, st\<lparr>urows := insort_key uid (u\<lparr>AllowLdap := True\<rparr>) (urows st)\<rparr>))"

definition db_DeleteUserById :: "nat \<Rightarrow> userStore \<Rightarrow> db_error option \<times> userStore" where
  "db_DeleteUserById i st =
     (if udown st then (Some DbFailure, st)
      else (None, st\<lparr>urows := filter (\<lambda>v. uid v \<noteq> i) (urows st)\<rparr>))"

definition db_GetUsers :: "nat \<Rightarrow> nat \<Rightarrow> userStore \<Rightarrow> db_error + User list \<times> nat" where
  "db_GetUsers pageIndex pageSize st =
     (if udown st then Inl DbFailure
      else Inr (take pageSize (drop ((pageIndex - 1) * pageSize) (urows st)), length (urows st)))"

section \<open>Users in memory\<close>

text \<open>\<open>alloc\<close> is the allocation of a user variable; \<open>deref\<close> reads it.\<close>

definition alloc :: "User \<Rightarrow> userStore \<Rightarrow> nat \<times> userStore" where
  "alloc u st = (length (uheap st), st\<lparr>uheap := uheap st @ [u]\<rparr>)"

definition deref :: "userStore \<Rightarrow> nat \<Rightarrow> User" where
  "deref st a = uheap st ! a"

definition assign :: "nat \<Rightarrow> User \<Rightarrow> userStore \<Rightarrow> userStore" where
  "assign a u st = st\<lparr>uheap := (uheap st)[a := u]\<rparr>"

datatype op_error = OpUser user_error | OpDb db_error

definition user_ttl :: int where
  "user_ttl = 3600 * 1000000000"

definition Cache_GetUser :: "int \<Rightarrow> string \<Rightarrow> userStore \<Rightarrow> nat option \<times> userStore" where
  "Cache_GetUser now n st =
     (let (r, c) = Get (past now) n (userCache st) in (r, st\<lparr>userCache := c\<rparr>))"

definition Cache_SetUser :: "int \<Rightarrow> string \<Rightarrow> nat \<Rightarrow> userStore \<Rightarrow> userStore" where
  "Cache_SetUser now n a st = st\<lparr>userCache := SetWithTTL now n a user_ttl (userCache st)\<rparr>"

definition Cache_DeleteUser :: "string \<Rightarrow> userStore \<Rightarrow> userStore" where
  "Cache_DeleteUser n st = st\<lparr>userCache := Delete n (userCache st)\<rparr>"

section \<open>The operations\<close>

definition GetAdmin :: "userStore \<Rightarrow> (op_error + nat) \<times> userStore" where
  "GetAdmin st =
     (case adminUser st of
        Some a \<Rightarrow> (Inr a, st)
      | None \<Rightarrow>
          (case db_GetUserByRole ADMIN st of
             Inl e \<Rightarrow> (Inl (OpDb e), st)
           | Inr u \<Rightarrow> let (a, st) = alloc u st in (Inr a, st\<lparr>adminUser := Some a\<rparr>)))"

definition GetUserByName :: "int \<Rightarrow> string \<Rightarrow> userStore \<Rightarrow> (op_error + nat) \<times> userStore" where
  "GetUserByName now n st =
     (if n = [] then (Inl (OpUser EmptyUsername), st)
      else
        let (r, st) = Cache_GetUser now n st
        in case r of
             Some a \<Rightarrow> (Inr a, st)
           | None \<Rightarrow>
               (case db_GetUserByName n st of
                  Inl e \<Rightarrow> (Inl (OpDb e), st)
                | Inr u \<Rightarrow> let (a, st) = alloc u st in (Inr a, Cache_SetUser now n a st)))"

definition GetUserById :: "nat \<Rightarrow> userStore \<Rightarrow> (op_error + nat) \<times> userStore" where
  "GetUserById i st =
     (case db_GetUserById i st of
        Inl e \<Rightarrow> (Inl (OpDb e), st)
      | Inr u \<Rightarrow> let (a, st) = alloc u st in (Inr a, st))"

definition GetUsers :: "nat \<Rightarrow> nat \<Rightarrow> userStore \<Rightarrow> db_error + User list \<times> nat" where
  "GetUsers pageIndex pageSize st = db_GetUsers pageIndex pageSize st"

definition CreateUser :: "nat \<Rightarrow> nat \<Rightarrow> userStore \<Rightarrow> db_error option \<times> userStore" where
  "CreateUser nid a st =
     (let u = (deref st a)\<lparr>BasePath := FixAndCleanPath (BasePath (deref st a))\<rparr>
      in db_CreateUser nid u (assign a u st))"

definition DeleteUserById :: "nat \<Rightarrow> userStore \<Rightarrow> op_error option \<times> userStore" where
  "DeleteUserById i st =
     (case db_GetUserById i st of
        Inl e \<Rightarrow> (Some (OpDb e), st)
      | Inr old \<Rightarrow>
          if IsAdmin old then (Some (OpUser DeleteAdmin), st)
          else (let (e, st) = db_DeleteUserById i (Cache_DeleteUser (Username old) st)
                in (map_option OpDb e, st)))"

text \<open>\<open>UpdateUser\<close> in two parts, since another request may run between the removal from the
  cache and the write of the row.\<close>

definition UpdateUser_invalidate :: "nat \<Rightarrow> userStore \<Rightarrow> db_error option \<times> userStore" where
  "UpdateUser_invalidate a st =
     (case db_GetUserById (uid (deref st a)) st of
        Inl e \<Rightarrow> (Some e, st)
      | Inr old \<Rightarrow>
          (None, Cache_DeleteUser (Username old)
            (if IsAdmin (deref st a) then st\<lparr>adminUser := None\<rparr> else st)))"

definition UpdateUser_write :: "nat \<Rightarrow> userStore \<Rightarrow> db_error option \<times> userStore" where
  "UpdateUser_write a st =
     (let u = (deref st a)\<lparr>BasePath := FixAndCleanPath (BasePath (deref st a))\<rparr>
      in db_UpdateUser u (assign a u st))"

definition UpdateUser :: "nat \<Rightarrow> userStore \<Rightarrow> db_error option \<times> userStore" where
  "UpdateUser a st =
     (case UpdateUser_invalidate a st of
        (Some e, st) \<Rightarrow> (Some e, st)
      | (None, st) \<Rightarrow> UpdateUser_write a st)"

definition Cancel2FAByUser :: "nat \<Rightarrow> userStore \<Rightarrow> db_error option \<times> userStore" where
  "Cancel2FAByUser a st = UpdateUser a (assign a ((deref st a)\<lparr>OtpSecret := []\<rparr>) st)"

definition Cancel2FAById :: "nat \<Rightarrow> userStore \<Rightarrow> db_error option \<times> userStore" where
  "Cancel2FAById i st =
     (case db_GetUserById i st of
        Inl e \<Rightarrow> (Some e, st)
      | Inr u \<Rightarrow> let (a, st) = alloc u st in Cancel2FAByUser a st)"

definition DelUserCache :: "int \<Rightarrow> string \<Rightarrow> userStore \<Rightarrow> op_error option \<times> userStore" where
  "DelUserCache now n st =
     (case GetUserByName now n st of
        (Inl e, st) \<Rightarrow> (Some e, st)
      | (Inr a, st) \<Rightarrow>
          (None, Cache_DeleteUser n (if IsAdmin (deref st a) then st\<lparr>adminUser := None\<rparr> else st)))"

section \<open>The users in memory are the rows\<close>

text \<open>Except at the addresses in \<open>A\<close>, whose users a request is changing.\<close>

definition table_ok :: "userStore \<Rightarrow> bool" where
  "table_ok st \<longleftrightarrow> distinct (map uid (urows st)) \<and> distinct (map Username (urows st)) \<and>
     list_all (\<lambda>u. FixAndCleanPath (BasePath u) = BasePath u) (urows st)"

definition memory_ok :: "nat set \<Rightarrow> userStore \<Rightarrow> bool" where
  "memory_ok A st \<longleftrightarrow>
     (\<forall>n a. stored (userCache st) n = Some a \<longrightarrow>
        a < length (uheap st) \<and> (a \<notin> A \<longrightarrow> name_row (urows st) n = Some (deref st a))) \<and>
     (\<forall>a. adminUser st = Some a \<longrightarrow>
        a < length (uheap st) \<and> (a \<notin> A \<longrightarrow> deref st a \<in> set (urows st) \<and> IsAdmin (deref st a)))"

abbreviation users_ok :: "userStore \<Rightarrow> bool" where
  "users_ok st \<equiv> table_ok st \<and> memory_ok {} st"

lemma name_row_Some: "distinct (map Username us) \<Longrightarrow> name_row us n = Some u \<longleftrightarrow> u \<in> set us \<and> Username u = n"
  unfolding name_row_def by (induction us) (auto simp: image_iff)

lemma id_row_Some: "distinct (map uid us) \<Longrightarrow> id_row us i = Some u \<longleftrightarrow> u \<in> set us \<and> uid u = i"
  unfolding id_row_def by (induction us) (auto simp: image_iff)

lemma store_simps [simp]:
  "urows (assign a u st) = urows st" "userCache (assign a u st) = userCache st"
  "adminUser (assign a u st) = adminUser st" "udown (assign a u st) = udown st"
  "length (uheap (assign a u st)) = length (uheap st)"
  "urows (Cache_DeleteUser n st) = urows st" "udown (Cache_DeleteUser n st) = udown st"
  "uheap (Cache_DeleteUser n st) = uheap st" "adminUser (Cache_DeleteUser n st) = adminUser st"
  "urows (Cache_SetUser now n a st) = urows st" "udown (Cache_SetUser now n a st) = udown st"
  "uheap (Cache_SetUser now n a st) = uheap st" "adminUser (Cache_SetUser now n a st) = adminUser st"
  "stored (userCache (Cache_DeleteUser n st)) = (stored (userCache st))(n := None)"
  "stored (userCache (Cache_SetUser now n a st)) = (stored (userCache st))(n \<mapsto> a)"
  by (simp_all add: assign_def Cache_DeleteUser_def Cache_SetUser_def kc.view_del SetWithTTL_def kc.view_put)

lemma deref_assign: "a < length (uheap st) \<Longrightarrow> deref (assign a u st) b = (if b = a then u else deref st b)"
  by (simp add: deref_def assign_def nth_list_update)

lemma deref_simps [simp]: "deref (Cache_DeleteUser n st) = deref st" "deref (Cache_SetUser now n a st) = deref st"
  "deref (st\<lparr>adminUser := v\<rparr>) = deref st" "deref (st\<lparr>urows := us\<rparr>) = deref st"
  "deref (st\<lparr>udown := d\<rparr>) = deref st" "deref (st\<lparr>userCache := c\<rparr>) = deref st"
  by (simp_all add: deref_def fun_eq_iff)

lemma alloc_simps:
  assumes "alloc u st = (a, st')"
  shows "a = length (uheap st)" "urows st' = urows st" "userCache st' = userCache st" "udown st' = udown st"
    "adminUser st' = adminUser st" "deref st' a = u" "length (uheap st') = Suc a"
    "\<And>b. b < length (uheap st) \<Longrightarrow> deref st' b = deref st b"
  using assms by (auto simp: alloc_def deref_def nth_append)

lemma memory_ok_mono: "memory_ok A st \<Longrightarrow> A \<subseteq> B \<Longrightarrow> memory_ok B st"
  by (auto simp: memory_ok_def)

lemma table_ok_cong: "urows st' = urows st \<Longrightarrow> table_ok st' = table_ok st"
  by (simp add: table_ok_def)

lemma memory_ok_alloc:
  assumes "memory_ok A st" and "alloc u st = (a, st')"
  shows "memory_ok A st'"
  using assms(1) alloc_simps [OF assms(2)] by (fastforce simp: memory_ok_def)

lemma memory_ok_assign: "memory_ok A st \<Longrightarrow> a < length (uheap st) \<Longrightarrow> a \<in> A \<Longrightarrow> memory_ok A (assign a u st)"
  by (auto simp: memory_ok_def deref_assign)

lemma memory_ok_DeleteUser: "memory_ok A st \<Longrightarrow> memory_ok A (Cache_DeleteUser n st)"
  by (auto simp: memory_ok_def)

lemma memory_ok_GetUser:
  assumes "memory_ok A st" and "Cache_GetUser now n st = (r, st')"
  shows "memory_ok A st'" "r = Some a \<Longrightarrow> stored (userCache st') n = Some a \<and> a < length (uheap st)"
    "urows st' = urows st" "uheap st' = uheap st" "adminUser st' = adminUser st" "udown st' = udown st"
proof -
  obtain c where c: "Get (past now) n (userCache st) = (r, c)" and st': "st' = st\<lparr>userCache := c\<rparr>"
    using assms(2) by (auto simp: Cache_GetUser_def split: prod.splits)
  have keeps: "stored c j = Some b \<Longrightarrow> stored (userCache st) j = Some b" for j b
    using kc.get_keeps [of "past now" n "userCache st" j b] by (simp add: c)
  show "memory_ok A st'" using assms(1) keeps by (auto simp: memory_ok_def st')
  show "r = Some a \<Longrightarrow> stored (userCache st') n = Some a \<and> a < length (uheap st)"
    using c assms(1) unfolding memory_ok_def st'
    by (auto simp: Get_def stored_def split: option.splits if_splits)
qed (use assms(2) in \<open>auto simp: Cache_GetUser_def split: prod.splits\<close>)

text \<open>A change of the table is invisible in memory if the names it touches are not cached.\<close>

lemma memory_ok_rows:
  assumes "memory_ok A st"
    and "\<And>n a. stored (userCache st) n = Some a \<Longrightarrow> a \<notin> A \<Longrightarrow> name_row us n = name_row (urows st) n"
    and "\<And>a. adminUser st = Some a \<Longrightarrow> a \<notin> A \<Longrightarrow> deref st a \<in> set (urows st) \<Longrightarrow> deref st a \<in> set us"
  shows "memory_ok A (st\<lparr>urows := us\<rparr>)"
  using assms by (auto simp: memory_ok_def)

lemma memory_ok_unaliased:
  "memory_ok {a} st \<Longrightarrow> (\<And>n. stored (userCache st) n \<noteq> Some a) \<Longrightarrow> adminUser st \<noteq> Some a \<Longrightarrow> memory_ok {} st"
  by (auto simp: memory_ok_def)

lemma GetUserByName_ok:
  assumes "table_ok st" "memory_ok {} st" "GetUserByName now n st = (r, st')"
  shows "memory_ok {} st'" "urows st' = urows st" "udown st' = udown st"
    "r = Inr a \<Longrightarrow> a < length (uheap st') \<and> name_row (urows st) n = Some (deref st' a) \<and>
       stored (userCache st') n = Some a"
proof -
  have goal: "memory_ok {} st' \<and> urows st' = urows st \<and> udown st' = udown st \<and> (\<forall>a. r = Inr a \<longrightarrow>
      a < length (uheap st') \<and> name_row (urows st) n = Some (deref st' a) \<and> stored (userCache st') n = Some a)"
  proof (cases "n = []")
    case True
    with assms show ?thesis by (auto simp: GetUserByName_def)
  next
    case False
    obtain q st1 where g: "Cache_GetUser now n st = (q, st1)" by fastforce
    note ok = memory_ok_GetUser [OF assms(2) g]
    show ?thesis
    proof (cases q)
      case (Some b)
      with assms(3) False g have "r = Inr b" "st' = st1" by (auto simp: GetUserByName_def)
      with ok Some show ?thesis by (auto simp: memory_ok_def)
    next
      case None
      show ?thesis
      proof (cases "db_GetUserByName n st1")
        case (Inl e)
        with assms(3) False g None ok show ?thesis by (auto simp: GetUserByName_def)
      next
        case (Inr u)
        obtain b st2 where al: "alloc u st1 = (b, st2)" by fastforce
        have r: "r = Inr b" "st' = Cache_SetUser now n b st2"
          using assms(3) False g None Inr al by (auto simp: GetUserByName_def)
        have row: "name_row (urows st) n = Some u"
          using Inr False ok(3) by (auto simp: db_GetUserByName_def db_first_def name_row_def split: if_splits option.splits)
        have "memory_ok {} st2" using memory_ok_alloc [OF ok(1) al] .
        with row alloc_simps [OF al] ok r show ?thesis by (auto simp: memory_ok_def)
      qed
    qed
  qed
  then show "memory_ok {} st'" "urows st' = urows st" "udown st' = udown st"
    "r = Inr a \<Longrightarrow> a < length (uheap st') \<and> name_row (urows st) n = Some (deref st' a) \<and>
       stored (userCache st') n = Some a"
    by blast+
qed

lemma GetAdmin_ok:
  assumes "memory_ok {} st" "GetAdmin st = (r, st')"
  shows "memory_ok {} st'" "urows st' = urows st" "udown st' = udown st"
    "r = Inr a \<Longrightarrow> a < length (uheap st') \<and> deref st' a \<in> set (urows st) \<and> IsAdmin (deref st' a) \<and>
       adminUser st' = Some a"
proof -
  have goal: "memory_ok {} st' \<and> urows st' = urows st \<and> udown st' = udown st \<and> (\<forall>a. r = Inr a \<longrightarrow>
      a < length (uheap st') \<and> deref st' a \<in> set (urows st) \<and> IsAdmin (deref st' a) \<and> adminUser st' = Some a)"
  proof (cases "adminUser st")
    case (Some b)
    with assms show ?thesis by (auto simp: GetAdmin_def memory_ok_def)
  next
    case None
    show ?thesis
    proof (cases "db_GetUserByRole ADMIN st")
      case (Inl e)
      with assms None show ?thesis by (auto simp: GetAdmin_def)
    next
      case (Inr u)
      obtain b st2 where al: "alloc u st = (b, st2)" by fastforce
      have r: "r = Inr b" "st' = st2\<lparr>adminUser := Some b\<rparr>"
        using assms(2) None Inr al by (auto simp: GetAdmin_def)
      have row: "u \<in> set (urows st)" "IsAdmin u"
        using Inr by (auto simp: db_GetUserByRole_def db_first_def IsAdmin_def ADMIN_def find_Some_iff
            split: if_splits option.splits)
      have "memory_ok {} st2" using memory_ok_alloc [OF assms(1) al] .
      with row alloc_simps [OF al] r show ?thesis by (auto simp: memory_ok_def)
    qed
  qed
  then show "memory_ok {} st'" "urows st' = urows st" "udown st' = udown st"
    "r = Inr a \<Longrightarrow> a < length (uheap st') \<and> deref st' a \<in> set (urows st) \<and> IsAdmin (deref st' a) \<and>
       adminUser st' = Some a"
    by blast+
qed

text \<open>The write of one row.\<close>

definition put_row :: "User \<Rightarrow> User list \<Rightarrow> User list" where
  "put_row u us = map (\<lambda>v. if uid v = uid u then u else v) us"

lemma set_put_row: "old \<in> set us \<Longrightarrow> uid old = uid u \<Longrightarrow> set (put_row u us) = insert u {v \<in> set us. uid v \<noteq> uid u}"
  by (auto simp: put_row_def image_iff)

lemma distinct_put_row:
  assumes "distinct (map uid us)" and "distinct (map Username us)"
    and "\<forall>v \<in> set us. uid v \<noteq> uid u \<longrightarrow> Username v \<noteq> Username u"
  shows "distinct (map uid (put_row u us))" "distinct (map Username (put_row u us))"
proof -
  have "map uid (put_row u us) = map uid us" by (simp add: put_row_def)
  with assms(1) show "distinct (map uid (put_row u us))" by simp
  show "distinct (map Username (put_row u us))"
    unfolding put_row_def by (rule distinct_map_replace [where g = uid]) (use assms in auto)
qed

lemma UpdateUser_ok:
  assumes t: "table_ok st" and m: "memory_ok {a} st" and a: "a < length (uheap st)" and up: "\<not> udown st"
    and old: "id_row (urows st) (uid (deref st a)) = Some old"
    and role: "IsAdmin old \<longleftrightarrow> IsAdmin (deref st a)"
    and cached: "\<And>n. stored (userCache st) n = Some a \<Longrightarrow> n = Username old"
    and admin: "adminUser st = Some a \<Longrightarrow> IsAdmin (deref st a)"
    and run: "UpdateUser a st = (e, st')"
  shows "table_ok st'" "memory_ok {} st'" "udown st' = udown st"
    "urows st' = (if e = None then put_row ((deref st a)\<lparr>BasePath := FixAndCleanPath (BasePath (deref st a))\<rparr>)
        (urows st) else urows st)"
    "e = None \<longleftrightarrow> (\<forall>v \<in> set (urows st). uid v \<noteq> uid (deref st a) \<longrightarrow> Username v \<noteq> Username (deref st a))"
proof -
  define u where "u = (deref st a)\<lparr>BasePath := FixAndCleanPath (BasePath (deref st a))\<rparr>"
  define st1 where "st1 = Cache_DeleteUser (Username old)
    (if IsAdmin (deref st a) then st\<lparr>adminUser := None\<rparr> else st)"
  have d: "distinct (map uid (urows st))" "distinct (map Username (urows st))" using t by (auto simp: table_ok_def)
  have o: "old \<in> set (urows st)" "uid old = uid u" using old id_row_Some [OF d(1)] by (auto simp: u_def)
  have uniq: "v \<in> set (urows st) \<Longrightarrow> uid v = uid u \<Longrightarrow> v = old" for v
    using o d(1) by (metis distinct_map inj_onD)
  have st1: "urows st1 = urows st" "udown st1 = udown st" "uheap st1 = uheap st" "deref st1 = deref st"
    by (simp_all add: st1_def)
  have "UpdateUser_invalidate a st = (None, st1)"
    using old up by (auto simp: UpdateUser_invalidate_def db_GetUserById_def db_first_def id_row_def st1_def
        split: option.splits)
  then have w: "UpdateUser_write a st1 = (e, st')" using run by (simp add: UpdateUser_def)
  have m1: "memory_ok {a} st1" using m by (auto simp: st1_def memory_ok_def)
  have free: "stored (userCache st1) n \<noteq> Some a" "adminUser st1 \<noteq> Some a" for n
    using cached [of n] admin by (auto simp: st1_def)
  define st2 where "st2 = assign a u st1"
  have m2: "memory_ok {} st2"
    using memory_ok_assign [OF m1, of a u] memory_ok_unaliased [of a st2] free a by (simp add: st2_def st1)
  have db: "db_UpdateUser u st2 = (e, st')" using w by (simp add: UpdateUser_write_def st1 u_def st2_def Let_def)
  have ids: "uid u = uid (deref st a)" "Username u = Username (deref st a)" by (simp_all add: u_def)
  have "(table_ok st' \<and> memory_ok {} st' \<and> udown st' = udown st) \<and>
     (urows st' = (if e = None then put_row u (urows st) else urows st)) \<and>
     (e = None \<longleftrightarrow> (\<forall>v \<in> set (urows st). uid v \<noteq> uid u \<longrightarrow> Username v \<noteq> Username u))"
  proof (cases "\<exists>v \<in> set (urows st). uid v \<noteq> uid u \<and> Username v = Username u")
    case True
    with db have "e = Some DbFailure" "st' = st2" by (auto simp: db_UpdateUser_def st2_def st1)
    with t m2 True show ?thesis by (auto simp: st2_def st1 table_ok_def)
  next
    case False
    have r: "e = None" "st' = st2\<lparr>urows := put_row u (urows st)\<rparr>"
      using db False up imageI [OF o(1), of uid] o(2)
      by (auto simp: db_UpdateUser_def st2_def st1 put_row_def simp del: image_iff)
    have "\<forall>v \<in> set (urows st). uid v \<noteq> uid u \<longrightarrow> Username v \<noteq> Username u" using False by blast
    note dp = distinct_put_row [OF d this]
    have t': "table_ok st'"
      using dp False t set_put_row [OF o] by (auto simp: table_ok_def r list_all_iff u_def norm_canonical)
    have m': "memory_ok {} st'"
      unfolding r(2)
    proof (rule memory_ok_rows [OF m2])
      fix n b assume c: "stored (userCache st2) n = Some b"
      with m2 have row: "name_row (urows st) n = Some (deref st2 b)" by (auto simp: memory_ok_def st2_def st1)
      from c have "n \<noteq> Username old" by (auto simp: st2_def st1_def)
      with row d have b: "Username (deref st2 b) = n" "deref st2 b \<in> set (urows st)" "deref st2 b \<noteq> old"
        by (auto simp: name_row_Some)
      with uniq have "deref st2 b \<in> set (put_row u (urows st))" by (auto simp: set_put_row [OF o])
      then show "name_row (put_row u (urows st)) n = name_row (urows st2) n"
        using row b(1) name_row_Some [OF dp(2)] False by (simp add: st2_def st1)
    next
      fix b assume b: "adminUser st2 = Some b" "deref st2 b \<in> set (urows st2)"
      then have "\<not> IsAdmin (deref st a)" by (auto simp: st2_def st1_def split: if_splits)
      moreover from b m2 have "IsAdmin (deref st2 b)" by (auto simp: memory_ok_def)
      ultimately have "deref st2 b \<noteq> old" using role by blast
      with b(2) uniq show "deref st2 b \<in> set (put_row u (urows st))"
        by (auto simp: set_put_row [OF o] st2_def st1)
    qed
    from t' m' r False show ?thesis by (auto simp: st2_def st1)
  qed
  then show "table_ok st'" "memory_ok {} st'" "udown st' = udown st"
    "urows st' = (if e = None then put_row ((deref st a)\<lparr>BasePath := FixAndCleanPath (BasePath (deref st a))\<rparr>)
        (urows st) else urows st)"
    "e = None \<longleftrightarrow> (\<forall>v \<in> set (urows st). uid v \<noteq> uid (deref st a) \<longrightarrow> Username v \<noteq> Username (deref st a))"
    unfolding ids [symmetric] u_def [symmetric] by blast+
qed

text \<open>The database refusing the first read leaves everything as it was.\<close>

lemma UpdateUser_refused:
  "udown st \<or> id_row (urows st) (uid (deref st a)) = None \<Longrightarrow> \<exists>e. UpdateUser a st = (Some e, st)"
  by (auto simp: UpdateUser_def UpdateUser_invalidate_def db_GetUserById_def db_first_def id_row_def
      split: option.splits)

lemma CreateUser_ok:
  assumes ok: "table_ok st" "memory_ok {} st" and al: "alloc u st = (a, st1)"
    and run: "CreateUser nid a st1 = (e, st')"
  shows "table_ok st'" "memory_ok {} st'" "udown st' = udown st"
    "urows st' = urows st \<or> (\<exists>v. Role v = Role u \<and> Disabled v = Disabled u \<and> Username v = Username u \<and>
        uid v \<notin> uid ` set (urows st) \<and> set (urows st') = insert v (set (urows st)))"
proof -
  define w where "w = u\<lparr>BasePath := FixAndCleanPath (BasePath u)\<rparr>"
  define v where "v = (if uid w = 0 then w\<lparr>uid := nid\<rparr> else w)\<lparr>AllowLdap := True\<rparr>"
  note a = alloc_simps [OF al]
  define st2 where "st2 = assign a w st1"
  have m1: "memory_ok {} st1" by (rule memory_ok_alloc [OF ok(2) al])
  have "stored (userCache st1) n \<noteq> Some a" "adminUser st1 \<noteq> Some a" for n
    using ok(2) a by (auto simp: memory_ok_def)
  then have m2: "memory_ok {} st2"
    using memory_ok_assign [OF memory_ok_mono [OF m1], of "{a}" a] memory_ok_unaliased [of a st2] a
    by (auto simp: st2_def)
  have st2: "urows st2 = urows st" "udown st2 = udown st" "deref st1 a = u" using a by (simp_all add: st2_def)
  have "CreateUser nid a st1 = db_CreateUser nid w st2"
    by (simp add: CreateUser_def st2(3) st2_def w_def Let_def)
  then have run': "(if udown st \<or> uid v \<in> uid ` set (urows st) \<or> Username v \<in> Username ` set (urows st)
      then (Some DbFailure, st2) else (None, st2\<lparr>urows := insort_key uid v (urows st)\<rparr>)) = (e, st')"
    using run by (simp only: db_CreateUser_def Let_def v_def st2)
  have d: "distinct (map uid (urows st))" "distinct (map Username (urows st))" using ok by (auto simp: table_ok_def)
  have "(table_ok st' \<and> memory_ok {} st' \<and> udown st' = udown st) \<and>
    (urows st' = urows st \<or> uid v \<notin> uid ` set (urows st) \<and> set (urows st') = insert v (set (urows st)))"
  proof (cases "udown st \<or> uid v \<in> uid ` set (urows st) \<or> Username v \<in> Username ` set (urows st)")
    case True
    with run' have "st' = st2" by (auto simp del: image_iff)
    with ok m2 st2 show ?thesis by (simp add: table_ok_def)
  next
    case False
    have r: "st' = st2\<lparr>urows := insort_key uid v (urows st)\<rparr>"
      using run' False by (auto simp del: image_iff)
    have dist: "distinct (map uid (insort_key uid v (urows st)))" "distinct (map Username (insort_key uid v (urows st)))"
      using d False by (simp_all add: distinct_map_insort)
    have "table_ok st'"
      using dist ok by (auto simp: table_ok_def r list_all_iff set_insort_key v_def w_def norm_canonical)
    moreover have "memory_ok {} st'"
      unfolding r
    proof (rule memory_ok_rows [OF m2])
      fix n b assume "stored (userCache st2) n = Some b"
      with m2 have row: "name_row (urows st) n = Some (deref st2 b)" by (auto simp: memory_ok_def st2)
      then have "name_row (insort_key uid v (urows st)) n = Some (deref st2 b)"
        using name_row_Some [OF dist(2)] name_row_Some [OF d(2)] by (simp add: set_insort_key)
      with row show "name_row (insort_key uid v (urows st)) n = name_row (urows st2) n" by (simp add: st2)
    qed (simp add: st2 set_insort_key)
    ultimately show ?thesis using False by (simp add: r st2 set_insort_key)
  qed
  moreover have "Role v = Role u \<and> Disabled v = Disabled u \<and> Username v = Username u" by (simp add: v_def w_def)
  ultimately show "table_ok st'" "memory_ok {} st'" "udown st' = udown st"
    "urows st' = urows st \<or> (\<exists>v. Role v = Role u \<and> Disabled v = Disabled u \<and> Username v = Username u \<and>
        uid v \<notin> uid ` set (urows st) \<and> set (urows st') = insert v (set (urows st)))"
    by blast+
qed

lemma DeleteUserById_ok:
  assumes ok: "table_ok st" "memory_ok {} st" and run: "DeleteUserById i st = (e, st')"
  shows "table_ok st'" "memory_ok {} st'" "udown st' = udown st"
    "urows st' = urows st \<or> urows st' = filter (\<lambda>v. uid v \<noteq> i) (urows st) \<and>
       (\<forall>v \<in> set (urows st). uid v = i \<longrightarrow> \<not> IsAdmin v)"
proof -
  have d: "distinct (map uid (urows st))" "distinct (map Username (urows st))" using ok by (auto simp: table_ok_def)
  have "table_ok st' \<and> memory_ok {} st' \<and> udown st' = udown st \<and>
    (urows st' = urows st \<or> urows st' = filter (\<lambda>v. uid v \<noteq> i) (urows st) \<and>
       (\<forall>v \<in> set (urows st). uid v = i \<longrightarrow> \<not> IsAdmin v))"
  proof (cases "\<exists>old. \<not> udown st \<and> id_row (urows st) i = Some old \<and> \<not> IsAdmin old")
    case False
    then have "st' = st"
      using run by (auto simp: DeleteUserById_def db_GetUserById_def db_first_def id_row_def split: option.splits if_splits)
    with ok show ?thesis by simp
  next
    case True
    then obtain old where old: "id_row (urows st) i = Some old" "\<not> IsAdmin old" "\<not> udown st" by blast
    then have r: "st' = (Cache_DeleteUser (Username old) st)\<lparr>urows := filter (\<lambda>v. uid v \<noteq> i) (urows st)\<rparr>"
      using run by (auto simp: DeleteUserById_def db_GetUserById_def db_first_def id_row_def db_DeleteUserById_def)
    have o: "old \<in> set (urows st)" "uid old = i" using old(1) id_row_Some [OF d(1)] by auto
    have uniq: "v \<in> set (urows st) \<Longrightarrow> uid v = i \<Longrightarrow> v = old" for v
      using o d(1) by (metis distinct_map inj_onD)
    have dist: "distinct (map uid (filter (\<lambda>v. uid v \<noteq> i) (urows st)))"
      "distinct (map Username (filter (\<lambda>v. uid v \<noteq> i) (urows st)))"
      using d by (auto simp: distinct_map inj_on_def)
    have "memory_ok {} st'"
      unfolding r
    proof (rule memory_ok_rows [OF memory_ok_DeleteUser [OF ok(2)]])
      fix n b assume c: "stored (userCache (Cache_DeleteUser (Username old) st)) n = Some b"
      with ok(2) have row: "name_row (urows st) n = Some (deref st b)" "n \<noteq> Username old"
        by (auto simp: memory_ok_def split: if_splits)
      with uniq d have "deref st b \<in> set (filter (\<lambda>v. uid v \<noteq> i) (urows st))" "Username (deref st b) = n"
        by (auto simp: name_row_Some)
      with row show "name_row (filter (\<lambda>v. uid v \<noteq> i) (urows st)) n =
          name_row (urows (Cache_DeleteUser (Username old) st)) n"
        using name_row_Some [OF dist(2)] by simp
    next
      fix b assume "adminUser (Cache_DeleteUser (Username old) st) = Some b"
        "deref (Cache_DeleteUser (Username old) st) b \<in> set (urows (Cache_DeleteUser (Username old) st))"
      with ok(2) old uniq show "deref (Cache_DeleteUser (Username old) st) b \<in> set (filter (\<lambda>v. uid v \<noteq> i) (urows st))"
        by (auto simp: memory_ok_def)
    qed
    moreover have "table_ok st'" using ok dist by (auto simp: table_ok_def r list_all_iff)
    ultimately show ?thesis using uniq old(2) by (auto simp: r)
  qed
  then show "table_ok st'" "memory_ok {} st'" "udown st' = udown st"
    "urows st' = urows st \<or> urows st' = filter (\<lambda>v. uid v \<noteq> i) (urows st) \<and>
       (\<forall>v \<in> set (urows st). uid v = i \<longrightarrow> \<not> IsAdmin v)" by blast+
qed

lemma DelUserCache_ok:
  assumes "table_ok st" "memory_ok {} st" "DelUserCache now n st = (e, st')"
  shows "memory_ok {} st'" "urows st' = urows st"
proof -
  obtain r st1 where g: "GetUserByName now n st = (r, st1)" by fastforce
  note ok = GetUserByName_ok [OF assms(1,2) g]
  have "memory_ok {} (if b then st1\<lparr>adminUser := None\<rparr> else st1)" for b
    using ok(1) by (cases b) (simp_all add: memory_ok_def)
  with assms(3) g ok(1) have "memory_ok {} st' \<and> urows st' = urows st1"
    by (cases r) (auto simp: DelUserCache_def intro: memory_ok_DeleteUser)
  with ok(2) show "memory_ok {} st'" "urows st' = urows st" by simp_all
qed

end
