(* ===== verification/Signing.thy ===== *)
theory Signing
  imports Base64 GoStrconv
begin

text \<open>
  \<open>pkg/sign\<close> and \<open>internal/sign\<close>: signatures of download paths that carry their expiry time.
  The keyed hash (HMAC with SHA-256) is the parameter \<open>hmac\<close>, a function of the key and the
  message; the comparison in constant time is equality.  The signer in use is made from the
  token setting on first use and replaced by \<open>Reload\<close>.
\<close>

section \<open>The signature\<close>

datatype sign_error = ErrSignExpired | ErrSignInvalid | ErrExpireInvalid | ErrExpireMissing

text \<open>The padded URL alphabet.\<close>

definition url_encode :: "string \<Rightarrow> string" where
  "url_encode s = b64_encode True s @ replicate ((3 - length s mod 3) mod 3) (CHR ''='')"

definition HMACSign_Sign :: "(string \<Rightarrow> string \<Rightarrow> string) \<Rightarrow> string \<Rightarrow> string \<Rightarrow> int \<Rightarrow> string" where
  "HMACSign_Sign hmac key data expire =
     url_encode (hmac key (data @ '':'' @ show_int expire)) @ '':'' @ show_int expire"

definition HMACSign_Verify ::
  "(string \<Rightarrow> string \<Rightarrow> string) \<Rightarrow> string \<Rightarrow> int \<Rightarrow> string \<Rightarrow> string \<Rightarrow> sign_error option" where
  "HMACSign_Verify hmac key now data sign =
     (let exp = (case last_index_byte sign (CHR '':'') of None \<Rightarrow> sign | Some i \<Rightarrow> drop (i + 1) sign)
      in if exp = [] then Some ErrExpireMissing
         else let (expires, ok) = ParseInt exp
              in if \<not> ok then Some ErrExpireInvalid
                 else if expires < now \<and> expires \<noteq> 0 then Some ErrSignExpired
                 else if HMACSign_Sign hmac key data expires \<noteq> sign then Some ErrSignInvalid
                 else None)"

section \<open>The signer in use\<close>

record signState =
  signer :: "string option"
  token_setting :: string

definition Reload :: "signState \<Rightarrow> signState" where
  "Reload st = st\<lparr>signer := Some (token_setting st)\<rparr>"

definition current :: "signState \<Rightarrow> string \<times> signState" where
  "current st =
     (case signer st of
        Some key \<Rightarrow> (key, st)
      | None \<Rightarrow> (token_setting st, Reload st))"

definition temporaryDownloadLifetime :: int where
  "temporaryDownloadLifetime = 5 * 60"

definition withDuration ::
  "(string \<Rightarrow> string \<Rightarrow> string) \<Rightarrow> int \<Rightarrow> string \<Rightarrow> int \<Rightarrow> signState \<Rightarrow> string \<times> signState" where
  "withDuration hmac now data d st =
     (let (key, st) = current st in (HMACSign_Sign hmac key data (i64 (now + d)), st))"

definition Sign :: "(string \<Rightarrow> string \<Rightarrow> string) \<Rightarrow> int \<Rightarrow> string \<Rightarrow> signState \<Rightarrow> string \<times> signState" where
  "Sign hmac now data st = withDuration hmac now data temporaryDownloadLifetime st"

definition Verify ::
  "(string \<Rightarrow> string \<Rightarrow> string) \<Rightarrow> int \<Rightarrow> string \<Rightarrow> string \<Rightarrow> signState \<Rightarrow> sign_error option \<times> signState" where
  "Verify hmac now data sign st =
     (let (key, st) = current st in (HMACSign_Verify hmac key now data sign, st))"

section \<open>What a signature is\<close>

lemma colon_not_in_show_int: "CHR '':'' \<notin> set (show_int i)"
  using show_nat_digits [of "CHR '':''" "nat (abs i)"]
  by (auto simp: show_int_def is_digit_def byte_def dest: show_nat_digits)

lemma expiry_of_sign:
  "last_index_byte (HMACSign_Sign hmac key data e) (CHR '':'') = Some i \<Longrightarrow>
   drop (i + 1) (HMACSign_Sign hmac key data e) = show_int e"
  by (simp add: HMACSign_Sign_def last_index_byte_append colon_not_in_show_int)

lemma last_colon_of_sign: "\<exists>i. last_index_byte (HMACSign_Sign hmac key data e) (CHR '':'') = Some i"
  by (simp add: HMACSign_Sign_def last_index_byte_append colon_not_in_show_int)

lemma Verify_HMACSign:
  assumes "i64_min \<le> e" "e \<le> i64_max"
  shows "HMACSign_Verify hmac key now data (HMACSign_Sign hmac key data' e) =
    (if e < now \<and> e \<noteq> 0 then Some ErrSignExpired
     else if HMACSign_Sign hmac key data e = HMACSign_Sign hmac key data' e then None
     else Some ErrSignInvalid)"
proof -
  obtain i where i: "last_index_byte (HMACSign_Sign hmac key data' e) (CHR '':'') = Some i"
    using last_colon_of_sign by blast
  show ?thesis
    using assms by (simp add: HMACSign_Verify_def i expiry_of_sign [OF i, simplified] ParseInt_show_int)
qed

lemma Verify_None:
  assumes "HMACSign_Verify hmac key now data s = None"
  shows "\<exists>e. s = HMACSign_Sign hmac key data e \<and> i64_min \<le> e \<and> e \<le> i64_max \<and> (e = 0 \<or> now \<le> e)"
proof -
  let ?exp = "case last_index_byte s (CHR '':'') of None \<Rightarrow> s | Some i \<Rightarrow> drop (i + 1) s"
  obtain e ok where e: "ParseInt ?exp = (e, ok)" by fastforce
  show ?thesis
    using assms ParseInt_range [OF e]
    by (auto simp: HMACSign_Verify_def e Let_def split: if_splits)
qed

lemma equals_not_in_b64: "CHR ''='' \<notin> set (b64_encode True s)"
proof
  assume "CHR ''='' \<in> set (b64_encode True s)"
  moreover have "list_all (\<lambda>d. d < 64) (b64_groups (map byte s))"
    by (rule b64_groups_less) (simp add: list_all_iff)
  ultimately obtain d where "d < 64" "b64_char True d = CHR ''=''"
    by (auto simp: b64_encode_def list_all_iff)
  with b64_value_char [of d True] show False by (simp add: b64_value_def byte_def)
qed

lemma url_encode_inj: "url_encode a = url_encode b \<longleftrightarrow> a = b"
proof
  have unpad: "takeWhile (\<lambda>c. c \<noteq> CHR ''='') (url_encode x) = b64_encode True x" for x
  proof -
    have "\<And>c. c \<in> set (b64_encode True x) \<Longrightarrow> c \<noteq> CHR ''=''" using equals_not_in_b64 [of x] by blast
    then show ?thesis by (simp add: url_encode_def takeWhile_append2 takeWhile_replicate)
  qed
  assume "url_encode a = url_encode b"
  then have "b64_encode True a = b64_encode True b" using unpad by metis
  then show "a = b" using b64_decode_encode by (metis option.inject)
qed simp

lemma HMACSign_inj: "HMACSign_Sign hmac key d e = HMACSign_Sign hmac key' d' e \<longleftrightarrow>
    hmac key (d @ '':'' @ show_int e) = hmac key' (d' @ '':'' @ show_int e)"
  by (simp add: HMACSign_Sign_def url_encode_inj)

lemma current_twice: "current st = (key, st') \<Longrightarrow> current st' = (key, st')"
  by (auto simp: current_def Reload_def split: option.splits)

section \<open>Properties\<close>

text \<open>C3: A download credential is accepted exactly when it is the signer's signature of that path
  for some expiry that has not passed, or for the expiry 0, which never passes.\<close>

theorem Verify_exact:
  "fst (Verify hmac now data s st) = None \<longleftrightarrow>
     (\<exists>e. s = HMACSign_Sign hmac (fst (current st)) data e \<and> i64_min \<le> e \<and> e \<le> i64_max \<and> (e = 0 \<or> now \<le> e))"
  using Verify_None Verify_HMACSign by (fastforce simp: Verify_def split: prod.splits)

text \<open>A credential made at time \<open>t\<close> for one path is accepted for a path exactly until five
  minutes later, and for another path only if the keyed hash of the two messages collides.\<close>

theorem Sign_lifetime:
  assumes "0 \<le> t" and "t + 300 \<le> i64_max"
  shows "(case Sign hmac t data st of (s, st') \<Rightarrow> fst (Verify hmac now data' s st') = None) \<longleftrightarrow>
    now \<le> t + 300 \<and> hmac (fst (current st)) (data @ '':'' @ show_int (t + 300)) =
      hmac (fst (current st)) (data' @ '':'' @ show_int (t + 300))"
proof -
  obtain key st' where c: "current st = (key, st')" by fastforce
  have e: "i64 (t + 300) = t + 300" "i64_min \<le> t + 300" "t + 300 \<noteq> 0"
    using assms by (auto intro!: i64_id simp: i64_min_def)
  have s: "Sign hmac t data st = (HMACSign_Sign hmac key data (t + 300), st')"
    by (simp add: Sign_def withDuration_def temporaryDownloadLifetime_def c e)
  show ?thesis
    using Verify_HMACSign [OF e(2) assms(2), of hmac key now data' data] e(3)
    by (auto simp: s Verify_def current_twice [OF c] c HMACSign_inj)
qed

theorem Sign_lifetime_witness:
  "(case Sign (@) 1000 ''/a'' \<lparr>signer = None, token_setting = ''key''\<rparr> of
      (s, st) \<Rightarrow> fst (Verify (@) 1200 ''/a'' s st) = None) \<and>
   \<not> (case Sign (@) 1000 ''/a'' \<lparr>signer = None, token_setting = ''key''\<rparr> of
      (s, st) \<Rightarrow> fst (Verify (@) 1200 ''/b'' s st) = None) \<and>
   \<not> (case Sign (@) 1000 ''/a'' \<lparr>signer = None, token_setting = ''key''\<rparr> of
      (s, st) \<Rightarrow> fst (Verify (@) 1301 ''/a'' s st) = None)"
  by (subst (1 2 3) Sign_lifetime) (simp_all add: i64_max_def current_def)

end
