(* ===== verification/Sessions.thy ===== *)
theory Sessions
  imports Accounts Signing
begin

text \<open>
  Logging in and staying logged in: \<open>server/common/auth.go\<close> (tokens),
  \<open>server/middlewares/auth.go\<close>, \<open>server/handles/auth.go\<close>, \<open>server/handles/user.go\<close> and
  \<open>WebDAVAuth\<close> of \<open>server/webdav.go\<close>.  What comes from libraries is the record \<open>lib\<close>: the
  digest and key derivation, signed tokens (JWT), one-time codes and the LDAP server.  A
  middleware either answers or lets the request go on with the address of its user.
\<close>

section \<open>State\<close>

record UserClaims =
  claim_user :: string
  claim_ts :: int
  ExpiresAt :: int
  IssuedAt :: int
  NotBefore :: int

text \<open>\<open>jwt.ParseWithClaims\<close>: the bits of a validation error, or a token with its valid flag.\<close>

datatype jwt_result = JwtError (malformed: bool) (expired_bit: bool) (not_yet: bool) | JwtToken UserClaims bool

record lib =
  sha256 :: "string \<Rightarrow> string"
  idkey :: "string \<Rightarrow> string \<Rightarrow> string"
  jwt_sign :: "UserClaims \<Rightarrow> string option"
  jwt_parse :: "int \<Rightarrow> string \<Rightarrow> jwt_result"
  totp :: "string \<Rightarrow> string \<Rightarrow> bool"
  ldap_login :: "string \<Rightarrow> string \<Rightarrow> bool"

record server =
  users :: userStore
  validTokenCache :: "string \<Rightarrow> bool"
  LoginCache :: "(int, int option) KeyedCache"
  signs :: signState
  TokenExpiresIn :: int
  LdapLoginEnabled :: bool
  LdapDefaultPermission :: "32 word"
  LdapDefaultDir :: string

datatype reply = ErrorResp int | ErrorStrResp string int | ErrorPage int | Status int
  | SuccessResp | SuccessToken string

definition second :: int where
  "second = 1000000000"

section \<open>Tokens\<close>

definition GenerateToken :: "lib \<Rightarrow> int \<Rightarrow> User \<Rightarrow> server \<Rightarrow> string option \<times> server" where
  "GenerateToken L now u sv =
     (let claim = \<lparr>claim_user = Username u, claim_ts = PwdTS u,
        ExpiresAt = (now + i64 (TokenExpiresIn sv * (3600 * second))) div second,
        IssuedAt = now div second, NotBefore = now div second\<rparr>
      in case jwt_sign L claim of
           None \<Rightarrow> (None, sv)
         | Some t \<Rightarrow> (Some t, sv\<lparr>validTokenCache := (validTokenCache sv)(t := True)\<rparr>))"

definition IsTokenInvalidated :: "server \<Rightarrow> string \<Rightarrow> bool" where
  "IsTokenInvalidated sv t \<longleftrightarrow> \<not> validTokenCache sv t"

definition ParseToken :: "lib \<Rightarrow> int \<Rightarrow> string \<Rightarrow> server \<Rightarrow> string + UserClaims" where
  "ParseToken L now t sv =
     (let r = jwt_parse L now t
      in if IsTokenInvalidated sv t then Inl ''token is invalidated''
         else (case r of
             JwtError m e n \<Rightarrow>
               if m then Inl ''that's not even a token''
               else if e then Inl ''token is expired''
               else if n then Inl ''token not active yet''
               else Inl ''couldn't handle this token''
           | JwtToken claims valid \<Rightarrow>
               if valid then Inr claims else Inl ''couldn't handle this token''))"

definition InvalidateToken :: "string \<Rightarrow> server \<Rightarrow> server" where
  "InvalidateToken t sv = (if t = [] then sv else sv\<lparr>validTokenCache := (validTokenCache sv)(t := False)\<rparr>)"

section \<open>The middlewares\<close>

definition Auth :: "lib \<Rightarrow> int \<Rightarrow> string \<Rightarrow> server \<Rightarrow> (reply + nat) \<times> server" where
  "Auth L now token sv =
     (if token = [] then (Inl (ErrorStrResp ''Authentication required'' 401), sv)
      else if token_setting (signs sv) \<noteq> [] \<and> token = token_setting (signs sv) then
        (case GetAdmin (users sv) of
           (Inl e, us) \<Rightarrow> (Inl (ErrorResp 500), sv\<lparr>users := us\<rparr>)
         | (Inr a, us) \<Rightarrow> (Inr a, sv\<lparr>users := us\<rparr>))
      else
        (case ParseToken L now token sv of
           Inl e \<Rightarrow> (Inl (ErrorResp 401), sv)
         | Inr claims \<Rightarrow>
             (case GetUserByName now (claim_user claims) (users sv) of
                (Inl e, us) \<Rightarrow> (Inl (ErrorResp 401), sv\<lparr>users := us\<rparr>)
              | (Inr a, us) \<Rightarrow>
                  if claim_ts claims \<noteq> PwdTS (deref us a)
                  then (Inl (ErrorStrResp ''Password has been changed, login please'' 401), sv\<lparr>users := us\<rparr>)
                  else if Disabled (deref us a)
                  then (Inl (ErrorStrResp ''Current user is disabled, replace please'' 401), sv\<lparr>users := us\<rparr>)
                  else (Inr a, sv\<lparr>users := us\<rparr>))))"

definition AuthAdmin :: "nat option \<Rightarrow> server \<Rightarrow> reply option" where
  "AuthAdmin user sv =
     (case user of
        None \<Rightarrow> Some (ErrorStrResp ''Authentication required'' 401)
      | Some a \<Rightarrow>
          if \<not> IsAdmin (deref (users sv) a) then Some (ErrorStrResp ''You are not an admin'' 403) else None)"

section \<open>Counting failed logins\<close>

text \<open>An entry of the login cache has no deadline until \<open>Expire\<close> gives it one.\<close>

definition login_expired :: "int \<Rightarrow> int option \<Rightarrow> bool" where
  "login_expired now e = (case e of None \<Rightarrow> False | Some t \<Rightarrow> t < now)"

definition DefaultLockDuration :: int where
  "DefaultLockDuration = 5 * 60 * second"

definition DefaultMaxAuthRetries :: int where
  "DefaultMaxAuthRetries = 5"

definition login_Get :: "int \<Rightarrow> string \<Rightarrow> server \<Rightarrow> int option \<times> server" where
  "login_Get now ip sv =
     (let (r, c) = Get (login_expired now) ip (LoginCache sv) in (r, sv\<lparr>LoginCache := c\<rparr>))"

definition login_Set :: "string \<Rightarrow> int \<Rightarrow> server \<Rightarrow> server" where
  "login_Set ip n sv = sv\<lparr>LoginCache := SetWithExpirable ip n None (LoginCache sv)\<rparr>"

definition login_Expire :: "int \<Rightarrow> string \<Rightarrow> server \<Rightarrow> server" where
  "login_Expire now ip sv =
     (case LoginCache sv ip of
        None \<Rightarrow> sv
      | Some e \<Rightarrow> sv\<lparr>LoginCache := (LoginCache sv)(ip \<mapsto> e\<lparr>entry_exp := Some (now + DefaultLockDuration)\<rparr>)\<rparr>)"

definition login_Del :: "string \<Rightarrow> server \<Rightarrow> server" where
  "login_Del ip sv = sv\<lparr>LoginCache := Delete ip (LoginCache sv)\<rparr>"

record LoginReq =
  req_user :: string
  req_password :: string
  req_otp :: string

definition InvalidUsernameOrPassword :: string where
  "InvalidUsernameOrPassword = ''Invalid username or password''"

definition TooManyAttempts :: string where
  "TooManyAttempts = ''Too many unsuccessful sign-in attempts have been made using an incorrect username or password, Try again later.''"

text \<open>The old user is copied, so the rehash is written to a fresh user (at \<open>b\<close>).\<close>

definition loginHash :: "lib \<Rightarrow> int \<Rightarrow> string \<Rightarrow> string \<Rightarrow> LoginReq \<Rightarrow> server \<Rightarrow> reply \<times> server" where
  "loginHash L now salt ip req sv =
     (let (c, sv) = login_Get now ip sv;
          count = (case c of None \<Rightarrow> 0 | Some n \<Rightarrow> n)
      in if c \<noteq> None \<and> DefaultMaxAuthRetries \<le> count
         then (ErrorStrResp TooManyAttempts 429, login_Expire now ip sv)
         else
           (case GetUserByName now (req_user req) (users sv) of
              (Inl e, us) \<Rightarrow>
                (ErrorStrResp InvalidUsernameOrPassword 401, login_Set ip (count + 1) (sv\<lparr>users := us\<rparr>))
            | (Inr a, us) \<Rightarrow>
                let sv = sv\<lparr>users := us\<rparr>; u = deref us a
                in if Disabled u
                   then (ErrorStrResp InvalidUsernameOrPassword 401, login_Set ip (count + 1) sv)
                   else if ValidatePwdStaticHash (sha256 L) (idkey L) u (req_password req) \<noteq> None
                   then (ErrorStrResp InvalidUsernameOrPassword 401, login_Set ip (count + 1) sv)
                   else if OtpSecret u \<noteq> [] \<and> \<not> totp L (req_otp req) (OtpSecret u)
                   then (ErrorStrResp ''Invalid 2FA code'' 402, login_Set ip (count + 1) sv)
                   else
                     let (e, u, sv) =
                       (if NeedsPasswordRehash u then
                          let (b, us) = alloc (RehashPasswordStaticHash (idkey L) salt (now div second) (req_password req) u) us;
                              (e, us) = UpdateUser b us
                          in (e, deref us b, sv\<lparr>users := us\<rparr>)
                        else (None, u, sv))
                     in if e \<noteq> None then (ErrorResp 500, sv)
                        else (case GenerateToken L now u sv of
                            (None, sv) \<Rightarrow> (ErrorResp 500, sv)
                          | (Some t, sv) \<Rightarrow> (SuccessToken t, login_Del ip sv))))"

definition Login :: "lib \<Rightarrow> int \<Rightarrow> string \<Rightarrow> string \<Rightarrow> LoginReq option \<Rightarrow> server \<Rightarrow> reply \<times> server" where
  "Login L now salt ip req sv =
     (case req of
        None \<Rightarrow> (ErrorResp 400, sv)
      | Some req \<Rightarrow>
          loginHash L now salt ip (req\<lparr>req_password := StaticHash (sha256 L) (req_password req)\<rparr>) sv)"

definition LoginHash :: "lib \<Rightarrow> int \<Rightarrow> string \<Rightarrow> string \<Rightarrow> LoginReq option \<Rightarrow> server \<Rightarrow> reply \<times> server" where
  "LoginHash L now salt ip req sv =
     (case req of None \<Rightarrow> (ErrorResp 400, sv) | Some req \<Rightarrow> loginHash L now salt ip req sv)"

definition LogOut :: "string \<Rightarrow> server \<Rightarrow> reply \<times> server" where
  "LogOut token sv = (SuccessResp, InvalidateToken token sv)"

section \<open>The handlers for users\<close>

text \<open>A request body that is not a user is \<open>None\<close>; \<open>nid\<close> is the id the database would assign.\<close>

definition handle_CreateUser ::
  "lib \<Rightarrow> int \<Rightarrow> string \<Rightarrow> nat \<Rightarrow> User option \<Rightarrow> server \<Rightarrow> reply \<times> server" where
  "handle_CreateUser L now salt nid req sv =
     (case req of
        None \<Rightarrow> (ErrorResp 400, sv)
      | Some req \<Rightarrow>
          if Role req \<noteq> GENERAL then (ErrorStrResp ''only general users can be created'' 400, sv)
          else
            let req = (SetPassword (sha256 L) (idkey L) salt (now div second) (Password req) req)
                  \<lparr>Password := [], Authn := ''[]''\<rparr>;
                (a, us) = alloc req (users sv);
                (e, us) = CreateUser nid a us
            in (if e \<noteq> None then ErrorResp 500 else SuccessResp, sv\<lparr>users := us\<rparr>))"

definition handle_UpdateUser :: "lib \<Rightarrow> int \<Rightarrow> string \<Rightarrow> User option \<Rightarrow> server \<Rightarrow> reply \<times> server" where
  "handle_UpdateUser L now salt req sv =
     (case req of
        None \<Rightarrow> (ErrorResp 400, sv)
      | Some req \<Rightarrow>
          (case db_GetUserById (uid req) (users sv) of
             Inl e \<Rightarrow> (ErrorResp 500, sv)
           | Inr user \<Rightarrow>
               if Role user \<noteq> Role req then (ErrorStrResp ''role can not be changed'' 400, sv)
               else
                 let req = (if Password req = [] then req\<lparr>PwdHash := PwdHash user, Salt := Salt user\<rparr>
                       else (SetPassword (sha256 L) (idkey L) salt (now div second) (Password req) req)
                         \<lparr>Password := []\<rparr>);
                     req = (if OtpSecret req = [] then req\<lparr>OtpSecret := OtpSecret user\<rparr> else req)
                 in if Disabled req \<and> IsAdmin req
                    then (ErrorStrResp ''admin user can not be disabled'' 400, sv)
                    else
                      let (a, us) = alloc req (users sv);
                          (e, us) = UpdateUser a us
                      in (if e \<noteq> None then ErrorResp 500 else SuccessResp, sv\<lparr>users := us\<rparr>)))"

definition handle_DeleteUser :: "nat option \<Rightarrow> server \<Rightarrow> reply \<times> server" where
  "handle_DeleteUser idp sv =
     (case idp of
        None \<Rightarrow> (ErrorResp 400, sv)
      | Some i \<Rightarrow>
          let (e, us) = DeleteUserById i (users sv)
          in (if e \<noteq> None then ErrorResp 500 else SuccessResp, sv\<lparr>users := us\<rparr>))"

definition handle_Cancel2FAById :: "nat option \<Rightarrow> server \<Rightarrow> reply \<times> server" where
  "handle_Cancel2FAById idp sv =
     (case idp of
        None \<Rightarrow> (ErrorResp 400, sv)
      | Some i \<Rightarrow>
          let (e, us) = Cancel2FAById i (users sv)
          in (if e \<noteq> None then ErrorResp 500 else SuccessResp, sv\<lparr>users := us\<rparr>))"

definition handle_DelUserCache :: "int \<Rightarrow> string \<Rightarrow> server \<Rightarrow> reply \<times> server" where
  "handle_DelUserCache now n sv =
     (let (e, us) = DelUserCache now n (users sv)
      in (if e \<noteq> None then ErrorResp 500 else SuccessResp, sv\<lparr>users := us\<rparr>))"

text \<open>These two change the user the middleware found, in place.\<close>

definition UpdateCurrent :: "lib \<Rightarrow> int \<Rightarrow> string \<Rightarrow> User option \<Rightarrow> nat \<Rightarrow> server \<Rightarrow> reply \<times> server" where
  "UpdateCurrent L now salt req a sv =
     (case req of
        None \<Rightarrow> (ErrorResp 400, sv)
      | Some req \<Rightarrow>
          let user = (deref (users sv) a)\<lparr>Username := Username req\<rparr>;
              user = (if Password req \<noteq> []
                      then SetPassword (sha256 L) (idkey L) salt (now div second) (Password req) user else user);
              user = user\<lparr>SsoID := SsoID req\<rparr>;
              (e, us) = UpdateUser a (assign a user (users sv))
          in (if e \<noteq> None then ErrorResp 500 else SuccessResp, sv\<lparr>users := us\<rparr>))"

definition Verify2FA :: "lib \<Rightarrow> (string \<times> string) option \<Rightarrow> nat \<Rightarrow> server \<Rightarrow> reply \<times> server" where
  "Verify2FA L req a sv =
     (case req of
        None \<Rightarrow> (ErrorResp 400, sv)
      | Some (code, secret) \<Rightarrow>
          if \<not> totp L code secret then (ErrorStrResp ''Invalid 2FA code'' 400, sv)
          else
            let user = (deref (users sv) a)\<lparr>OtpSecret := secret\<rparr>;
                (e, us) = UpdateUser a (assign a user (users sv))
            in (if e \<noteq> None then ErrorResp 500 else SuccessResp, sv\<lparr>users := us\<rparr>))"

section \<open>WebDAV logins\<close>

text \<open>\<open>rnd\<close> is the random password of a user registered from LDAP.\<close>

definition LdapRegister :: "lib \<Rightarrow> int \<Rightarrow> string \<Rightarrow> string \<Rightarrow> nat \<Rightarrow> string \<Rightarrow> server \<Rightarrow> nat option \<times> server" where
  "LdapRegister L now salt rnd nid n sv =
     (if n = [] then (None, sv)
      else
        let user = \<lparr>uid = 0, Username = n, PwdHash = [], PwdTS = 0, Salt = [], Password = [],
              BasePath = LdapDefaultDir sv, Role = GENERAL, Disabled = False,
              Permission = LdapDefaultPermission sv, OtpSecret = [], SsoID = [], Authn = ''[]'',
              AllowLdap = True\<rparr>;
            (a, us) = alloc (SetPassword (sha256 L) (idkey L) salt (now div second) rnd user) (users sv);
            (e, us) = CreateUser nid a us
        in (if e \<noteq> None then None else Some a, sv\<lparr>users := us\<rparr>))"

definition tryLdapLoginAndRegister ::
  "lib \<Rightarrow> int \<Rightarrow> string \<Rightarrow> string \<Rightarrow> nat \<Rightarrow> string \<Rightarrow> string \<Rightarrow> server \<Rightarrow> nat option \<times> server" where
  "tryLdapLoginAndRegister L now salt rnd nid n pass sv =
     (if \<not> ldap_login L n pass then (None, sv) else LdapRegister L now salt rnd nid n sv)"

definition tryLogin ::
  "lib \<Rightarrow> int \<Rightarrow> string \<Rightarrow> string \<Rightarrow> nat \<Rightarrow> string \<Rightarrow> string \<Rightarrow> server \<Rightarrow> nat option \<times> server" where
  "tryLogin L now salt rnd nid n pass sv =
     (case GetUserByName now n (users sv) of
        (Inr a, us) \<Rightarrow>
          let sv = sv\<lparr>users := us\<rparr>; u = deref us a;
              err = ValidateRawPassword (sha256 L) (idkey L) u pass
          in if err = None \<and> NeedsPasswordRehash u then
               let (b, us) = alloc (RehashPasswordStaticHash (idkey L) salt (now div second)
                     (StaticHash (sha256 L) pass) u) us;
                   (e, us) = UpdateUser b us
               in (if e = None then Some b else None, sv\<lparr>users := us\<rparr>)
             else if err \<noteq> None \<and> LdapLoginEnabled sv \<and> AllowLdap u then
               (if ldap_login L n pass then Some a else None, sv)
             else (if err = None then Some a else None, sv)
      | (Inl e, us) \<Rightarrow>
          let sv = sv\<lparr>users := us\<rparr>
          in if LdapLoginEnabled sv \<and> perm_bit 8 (LdapDefaultPermission sv)
             then tryLdapLoginAndRegister L now salt rnd nid n pass sv
             else (None, sv))"

text \<open>The credentials of a request: basic authentication, or the raw header.\<close>

datatype credentials = Basic string string | Other string

definition WebDAVAuth ::
  "lib \<Rightarrow> int \<Rightarrow> string \<Rightarrow> string \<Rightarrow> nat \<Rightarrow> string \<Rightarrow> string \<Rightarrow> credentials \<Rightarrow> server \<Rightarrow> (reply + nat) \<times> server" where
  "WebDAVAuth L now salt rnd nid ip method cred sv =
     (let (c, sv) = login_Get now ip sv;
          count = (case c of None \<Rightarrow> 0 | Some n \<Rightarrow> n)
      in if c \<noteq> None \<and> DefaultMaxAuthRetries \<le> count then (Inl (Status 429), login_Expire now ip sv)
         else
           (case cred of
              Other bt \<Rightarrow>
                if has_prefix bt ''Bearer'' \<and> token_setting (signs sv) \<noteq> [] \<and>
                   trim_prefix bt ''Bearer '' = token_setting (signs sv)
                then (case GetAdmin (users sv) of
                    (Inl e, us) \<Rightarrow> (Inl (Status 500), sv\<lparr>users := us\<rparr>)
                  | (Inr a, us) \<Rightarrow> (Inr a, sv\<lparr>users := us\<rparr>))
                else (Inl (Status 401), sv)
            | Basic n pass \<Rightarrow>
                (case tryLogin L now salt rnd nid n pass sv of
                   (None, sv) \<Rightarrow> (Inl (Status 401), login_Set ip (count + 1) sv)
                 | (Some a, sv) \<Rightarrow>
                     let sv = login_Del ip sv; u = deref (users sv) a
                     in if Disabled u \<or> \<not> CanWebdavRead u then (Inl (Status 403), sv)
                        else if method \<in> {''PUT'', ''MKCOL'', ''MOVE'', ''COPY'', ''DELETE'', ''PROPPATCH''} \<and>
                          \<not> CanWebdavManage u then (Inl (Status 403), sv)
                        else (Inr a, sv))))"

end
