(* ===== verification/SessionProps.thy ===== *)
theory SessionProps
  imports Sessions
begin

text \<open>
  What the request handlers of \<open>Sessions\<close> keep: the users in memory are the rows of the table,
  the set of administrators does not change and none of them gets disabled.  Requests run one
  at a time here (\<open>sv_step\<close>); the theorems on two interleaved requests are at the end.
\<close>

section \<open>Writes of users\<close>

definition admins :: "User list \<Rightarrow> nat set" where
  "admins us = uid ` {u \<in> set us. IsAdmin u}"

definition kept :: "User list \<Rightarrow> User list \<Rightarrow> bool" where
  "kept us us' \<longleftrightarrow> admins us' = admins us \<and>
     (\<forall>u \<in> set us'. IsAdmin u \<and> Disabled u \<longrightarrow> (\<exists>v \<in> set us. IsAdmin v \<and> Disabled v))"

lemma users_kept_refl [simp]: "kept us us"
  by (auto simp: kept_def)

lemma users_kept_trans: "kept us us' \<Longrightarrow> kept us' us'' \<Longrightarrow> kept us us''"
  unfolding kept_def by metis

lemma kept_put:
  assumes "distinct (map uid us)" "old \<in> set us" "uid old = uid v" "IsAdmin old \<longleftrightarrow> IsAdmin v"
    and "IsAdmin v \<and> Disabled v \<Longrightarrow> Disabled old"
  shows "kept us (put_row v us)"
proof -
  have uniq: "w \<in> set us \<Longrightarrow> uid w = uid v \<Longrightarrow> w = old" for w
    using assms(1-3) by (metis distinct_map inj_onD)
  have "i \<in> admins (put_row v us) \<longleftrightarrow> i \<in> admins us" for i
  proof (cases "i = uid v")
    case True
    have "uid v \<in> admins (put_row v us) \<longleftrightarrow> IsAdmin v"
      unfolding admins_def set_put_row [OF assms(2,3)] by auto
    moreover have "uid v \<in> admins us \<longleftrightarrow> IsAdmin old"
      unfolding admins_def using uniq assms(2,3) by (metis (mono_tags, lifting) imageE imageI mem_Collect_eq)
    ultimately show ?thesis using assms(4) True by simp
  next
    case False
    then show ?thesis unfolding admins_def set_put_row [OF assms(2,3)] by auto
  qed
  then have "admins (put_row v us) = admins us" by blast
  then show ?thesis
    using assms(2-5) unfolding kept_def set_put_row [OF assms(2,3)] by blast
qed

lemma kept_insert:
  "set us' = insert v (set us) \<Longrightarrow> \<not> IsAdmin v \<Longrightarrow> kept us us'"
  by (auto simp: kept_def admins_def)

lemma kept_filter:
  "\<forall>v \<in> set us. uid v = i \<longrightarrow> \<not> IsAdmin v \<Longrightarrow> kept us (filter (\<lambda>v. uid v \<noteq> i) us)"
  by (auto simp: kept_def admins_def)

lemma row_ids: "table_ok st \<Longrightarrow> u \<in> set (urows st) \<Longrightarrow> id_row (urows st) (uid u) = Some u"
  by (simp add: table_ok_def id_row_Some)

text \<open>An update through a user that was just made, and one of a user in memory, in place.\<close>

lemma UpdateUser_fresh:
  assumes ok: "table_ok st" "memory_ok {} st" and al: "alloc u st = (a, st1)"
    and same: "\<And>old. id_row (urows st) (uid u) = Some old \<Longrightarrow> IsAdmin old = IsAdmin u \<and> (IsAdmin u \<and> Disabled u \<longrightarrow> Disabled old)"
    and run: "UpdateUser a st1 = (e, st')"
  shows "table_ok st' \<and> memory_ok {} st' \<and> kept (urows st) (urows st') \<and>
    (e = None \<longrightarrow> (\<exists>old. id_row (urows st) (uid u) = Some old) \<and>
       urows st' = put_row (u\<lparr>BasePath := FixAndCleanPath (BasePath u)\<rparr>) (urows st))"
proof (cases "udown st1 \<or> id_row (urows st1) (uid (deref st1 a)) = None")
  case True
  with UpdateUser_refused [of st1 a] run ok memory_ok_alloc [OF ok(2) al] alloc_simps [OF al]
  show ?thesis by (auto simp: table_ok_def)
next
  case False
  note a = alloc_simps [OF al]
  from False obtain old where old: "id_row (urows st1) (uid (deref st1 a)) = Some old" "\<not> udown st1" by auto
  have t: "table_ok st1" using ok a by (simp add: table_ok_def)
  have m: "memory_ok {a} st1" using memory_ok_mono [OF memory_ok_alloc [OF ok(2) al]] by simp
  have loose: "stored (userCache st1) n \<noteq> Some a" "adminUser st1 \<noteq> Some a" for n
    using ok(2) a by (auto simp: memory_ok_def)
  have len: "a < length (uheap st1)" using a by simp
  have same': "IsAdmin old = IsAdmin (deref st1 a)" "IsAdmin u \<and> Disabled u \<Longrightarrow> Disabled old"
    using same old(1) a by auto
  note up = UpdateUser_ok [OF t m len old(2,1) same'(1) _ _ run]
  have up': "table_ok st'" "memory_ok {} st'"
    "urows st' = (if e = None then put_row (u\<lparr>BasePath := FixAndCleanPath (BasePath u)\<rparr>) (urows st) else urows st)"
    using up loose a by auto
  have old': "old \<in> set (urows st)" "uid old = uid u" using old(1) ok a by (auto simp: table_ok_def id_row_Some)
  have "kept (urows st) (put_row (u\<lparr>BasePath := FixAndCleanPath (BasePath u)\<rparr>) (urows st))"
    using ok old' same' a by (intro kept_put [of _ old]) (auto simp: table_ok_def IsAdmin_def)
  then show ?thesis using up' old a by auto
qed

lemma UpdateUser_inplace:
  assumes ok: "table_ok st" "memory_ok {} st" and a: "a < length (uheap st)" "deref st a \<in> set (urows st)"
    and u: "uid u = uid (deref st a)" "Role u = Role (deref st a)" "Disabled u = Disabled (deref st a)"
    and up: "\<not> udown st" and run: "UpdateUser a (assign a u st) = (e, st')"
  shows "table_ok st' \<and> memory_ok {} st' \<and> kept (urows st) (urows st')"
proof -
  let ?st = "assign a u st" and ?old = "deref st a"
  have d: "deref ?st a = u" using a by (simp add: deref_assign)
  have row: "id_row (urows ?st) (uid (deref ?st a)) = Some ?old" using row_ids [OF ok(1) a(2)] by (simp add: d u)
  have t: "table_ok ?st" using ok(1) by (simp add: table_ok_def)
  have m: "memory_ok {a} ?st" using memory_ok_assign [OF memory_ok_mono [OF ok(2)], of "{a}" a u] a by simp
  have len: "a < length (uheap ?st)" using a by simp
  have role: "IsAdmin ?old = IsAdmin (deref ?st a)" using u d by (simp add: IsAdmin_def)
  have name: "n = Username ?old" if "stored (userCache ?st) n = Some a" for n
    using that ok by (auto simp: memory_ok_def table_ok_def name_row_Some)
  have admin: "IsAdmin (deref ?st a)" if "adminUser ?st = Some a"
    using that ok role by (auto simp: memory_ok_def)
  have up': "\<not> udown ?st" using up by simp
  note res = UpdateUser_ok [OF t m len up' row role name admin run]
  have "kept (urows st) (put_row (u\<lparr>BasePath := FixAndCleanPath (BasePath u)\<rparr>) (urows st))"
    using ok a u by (intro kept_put [of _ ?old]) (auto simp: table_ok_def IsAdmin_def)
  with res show ?thesis by (simp add: d)
qed

section \<open>One request after another\<close>

inductive sv_step :: "lib \<Rightarrow> server \<Rightarrow> server \<Rightarrow> bool" for L :: lib where
  auth: "sv_step L sv (snd (Auth L now token sv))"
| login: "sv_step L sv (snd (LoginHash L now salt ip req sv))"
| logout: "sv_step L sv (snd (LogOut token sv))"
| create: "sv_step L sv (snd (handle_CreateUser L now salt nid req sv))"
| update: "sv_step L sv (snd (handle_UpdateUser L now salt req sv))"
| delete: "sv_step L sv (snd (handle_DeleteUser i sv))"
| cancel: "sv_step L sv (snd (handle_Cancel2FAById i sv))"
| drop: "sv_step L sv (snd (handle_DelUserCache now n sv))"
| me: "Auth L now token sv = (Inr a, sv1) \<Longrightarrow> \<not> udown (users sv1) \<Longrightarrow>
    sv_step L sv (snd (UpdateCurrent L now salt req a sv1))"
| otp: "Auth L now token sv = (Inr a, sv1) \<Longrightarrow> \<not> udown (users sv1) \<Longrightarrow>
    sv_step L sv (snd (Verify2FA L codes a sv1))"
| dav: "sv_step L sv (snd (WebDAVAuth L now salt rnd nid ip method cred sv))"
| outage: "sv_step L sv (sv\<lparr>users := (users sv)\<lparr>udown := d\<rparr>\<rparr>)"
| settings: "sv_step L sv (sv\<lparr>signs := sg, LdapLoginEnabled := l, LdapDefaultPermission := p\<rparr>)"

definition sv_ok :: "server \<Rightarrow> bool" where
  "sv_ok sv \<longleftrightarrow> table_ok (users sv) \<and> memory_ok {} (users sv)"

definition good :: "server \<Rightarrow> server \<Rightarrow> bool" where
  "good sv sv' \<longleftrightarrow> sv_ok sv' \<and> kept (urows (users sv)) (urows (users sv'))"

lemma goodI:
  "table_ok (users sv') \<and> memory_ok {} (users sv') \<and> kept (urows (users sv)) (urows (users sv')) \<Longrightarrow> good sv sv'"
  by (simp add: good_def sv_ok_def)

lemma good_refl: "sv_ok sv \<Longrightarrow> good sv sv"
  by (simp add: good_def)

lemma good_trans: "good sv sv1 \<Longrightarrow> good sv1 sv2 \<Longrightarrow> good sv sv2"
  unfolding good_def using users_kept_trans by blast

lemma users_kept: "sv_ok sv \<Longrightarrow> users sv' = users sv \<Longrightarrow> good sv sv'"
  by (simp add: good_def sv_ok_def)

lemma login_simps [simp]:
  "users (login_Set ip n sv) = users sv" "users (login_Expire now ip sv) = users sv"
  "users (login_Del ip sv) = users sv" "users (InvalidateToken t sv) = users sv"
  by (auto simp: login_Set_def login_Expire_def login_Del_def InvalidateToken_def split: option.splits)

lemma login_Get_users: "login_Get now ip sv = (r, sv') \<Longrightarrow> users sv' = users sv"
  by (auto simp: login_Get_def split: prod.splits)

lemma GenerateToken_users: "GenerateToken L now u sv = (r, sv') \<Longrightarrow> users sv' = users sv"
  by (auto simp: GenerateToken_def Let_def split: option.splits)

lemma good_lookup:
  assumes "sv_ok sv" and "GetUserByName now n (users sv) = (r, us)"
  shows "good sv (sv\<lparr>users := us\<rparr>)"
    "r = Inr a \<Longrightarrow> a < length (uheap us) \<and> deref us a \<in> set (urows (users sv)) \<and> Username (deref us a) = n"
proof -
  have ok: "table_ok (users sv)" "memory_ok {} (users sv)" using assms(1) by (simp_all add: sv_ok_def)
  note res = GetUserByName_ok [OF ok assms(2)]
  show "good sv (sv\<lparr>users := us\<rparr>)" using ok res by (intro goodI) (simp add: table_ok_def)
  show "r = Inr a \<Longrightarrow> a < length (uheap us) \<and> deref us a \<in> set (urows (users sv)) \<and> Username (deref us a) = n"
    using res(4) ok(1) by (auto simp: table_ok_def name_row_Some)
qed

lemma good_admin:
  assumes "sv_ok sv" and "GetAdmin (users sv) = (r, us)"
  shows "good sv (sv\<lparr>users := us\<rparr>)"
    "r = Inr a \<Longrightarrow> a < length (uheap us) \<and> deref us a \<in> set (urows (users sv)) \<and> IsAdmin (deref us a)"
proof -
  have ok: "table_ok (users sv)" "memory_ok {} (users sv)" using assms(1) by (simp_all add: sv_ok_def)
  note res = GetAdmin_ok [OF ok(2) assms(2)]
  show "good sv (sv\<lparr>users := us\<rparr>)" using ok res by (intro goodI) (simp add: table_ok_def)
  show "r = Inr a \<Longrightarrow> a < length (uheap us) \<and> deref us a \<in> set (urows (users sv)) \<and> IsAdmin (deref us a)"
    using res(4) by auto
qed

lemma good_fresh:
  assumes "sv_ok sv" and "alloc u (users sv) = (a, us)" and "UpdateUser a us = (e, us')"
    and "\<And>old. id_row (urows (users sv)) (uid u) = Some old \<Longrightarrow>
      IsAdmin old = IsAdmin u \<and> (IsAdmin u \<and> Disabled u \<longrightarrow> Disabled old)"
  shows "good sv (sv\<lparr>users := us'\<rparr>)"
  using assms UpdateUser_fresh [of "users sv" u a us e us'] by (intro goodI) (simp add: sv_ok_def)

lemma good_rehash:
  assumes "sv_ok sv" and "v \<in> set (urows (users sv))"
    and "alloc (RehashPasswordStaticHash f salt t p v) (users sv) = (a, us)" and "UpdateUser a us = (e, us')"
  shows "good sv (sv\<lparr>users := us'\<rparr>)"
proof (rule good_fresh [OF assms(1,3,4)])
  fix old
  assume old: "id_row (urows (users sv)) (uid (RehashPasswordStaticHash f salt t p v)) = Some old"
  have same: "uid (RehashPasswordStaticHash f salt t p v) = uid v" "Role (RehashPasswordStaticHash f salt t p v) = Role v"
    "Disabled (RehashPasswordStaticHash f salt t p v) = Disabled v"
    by (simp_all add: RehashPasswordStaticHash_def SetPasswordStaticHash_def Let_def)
  have "table_ok (users sv)" using assms(1) by (simp add: sv_ok_def)
  from row_ids [OF this assms(2)] old same have "old = v" by simp
  then show "IsAdmin old = IsAdmin (RehashPasswordStaticHash f salt t p v) \<and>
    (IsAdmin (RehashPasswordStaticHash f salt t p v) \<and> Disabled (RehashPasswordStaticHash f salt t p v) \<longrightarrow> Disabled old)"
    using same by (simp add: IsAdmin_def)
qed

lemma Auth_good:
  assumes "sv_ok sv" and "Auth L now token sv = (r, sv')"
  shows "good sv sv'"
    "r = Inr a \<Longrightarrow> a < length (uheap (users sv')) \<and> deref (users sv') a \<in> set (urows (users sv')) \<and>
       urows (users sv') = urows (users sv)"
proof -
  have g: "good sv sv' \<and> (\<forall>a. r = Inr a \<longrightarrow> a < length (uheap (users sv')) \<and> deref (users sv') a \<in> set (urows (users sv')) \<and>
       urows (users sv') = urows (users sv))"
  proof (cases "token \<noteq> [] \<and> token_setting (signs sv) \<noteq> [] \<and> token = token_setting (signs sv)")
    case True
    obtain q us where ga: "GetAdmin (users sv) = (q, us)" by fastforce
    have "urows us = urows (users sv)" using GetAdmin_ok(2) [OF _ ga] assms(1) by (simp add: sv_ok_def)
    with True assms(2) good_admin [OF assms(1) ga] ga show ?thesis
      by (cases q) (auto simp: Auth_def)
  next
    case False
    show ?thesis
    proof (cases "ParseToken L now token sv")
      case (Inl e)
      with False assms(2) good_refl [OF assms(1)] show ?thesis by (auto simp: Auth_def split: if_splits)
    next
      case (Inr claims)
      obtain q us where gu: "GetUserByName now (claim_user claims) (users sv) = (q, us)" by fastforce
      have "urows us = urows (users sv)" using GetUserByName_ok(2) [OF _ _ gu] assms(1) by (simp add: sv_ok_def)
      with False Inr assms(2) good_lookup [OF assms(1) gu] gu good_refl [OF assms(1)] show ?thesis
        by (cases q; cases "token = []") (auto simp: Auth_def split: if_splits)
    qed
  qed
  then show "good sv sv'" "r = Inr a \<Longrightarrow> a < length (uheap (users sv')) \<and>
      deref (users sv') a \<in> set (urows (users sv')) \<and> urows (users sv') = urows (users sv)" by blast+
qed

lemma handle_CreateUser_good:
  assumes "sv_ok sv"
  shows "good sv (snd (handle_CreateUser L now salt nid req sv))"
proof (cases "\<exists>u. req = Some u \<and> Role u = GENERAL")
  case False
  with good_refl [OF assms] show ?thesis by (auto simp: handle_CreateUser_def split: option.splits)
next
  case True
  then obtain u where u: "req = Some u" "Role u = GENERAL" by blast
  let ?u = "(SetPassword (sha256 L) (idkey L) salt (now div second) (Password u) u)\<lparr>Password := [], Authn := ''[]''\<rparr>"
  obtain a us where al: "alloc ?u (users sv) = (a, us)" by fastforce
  obtain e us' where c: "CreateUser nid a us = (e, us')" by fastforce
  have "\<not> IsAdmin ?u" using u by (simp add: IsAdmin_def SetPassword_def SetPasswordStaticHash_def GENERAL_def ADMIN_def)
  with CreateUser_ok [OF _ _ al c] assms have "good sv (sv\<lparr>users := us'\<rparr>)"
    by (intro goodI) (auto simp: sv_ok_def IsAdmin_def intro: kept_insert)
  with u al c show ?thesis by (simp add: handle_CreateUser_def Let_def)
qed

lemma handle_UpdateUser_good:
  assumes "sv_ok sv"
  shows "good sv (snd (handle_UpdateUser L now salt req sv))"
proof -
  consider (same) "snd (handle_UpdateUser L now salt req sv) = sv"
    | (wrote) u old v where "req = Some u" "id_row (urows (users sv)) (uid u) = Some old" "Role old = Role u"
        "uid v = uid u" "Role v = Role u" "\<not> (Disabled v \<and> IsAdmin v)"
        "snd (handle_UpdateUser L now salt req sv) = sv\<lparr>users := snd (UpdateUser (fst (alloc v (users sv))) (snd (alloc v (users sv))))\<rparr>"
  proof (cases "handle_UpdateUser L now salt req sv = (ErrorResp 400, sv) \<or>
      (\<exists>r. handle_UpdateUser L now salt req sv = (r, sv))")
    case True
    then show thesis using that(1) by fastforce
  next
    case False
    then obtain u where u: "req = Some u" by (cases req) (auto simp: handle_UpdateUser_def)
    from False u obtain old where old: "db_GetUserById (uid u) (users sv) = Inr old"
      by (cases "db_GetUserById (uid u) (users sv)") (auto simp: handle_UpdateUser_def)
    from False u old have role: "Role old = Role u" by (auto simp: handle_UpdateUser_def split: if_splits)
    define w where "w = (if Password u = [] then u\<lparr>PwdHash := PwdHash old, Salt := Salt old\<rparr>
         else (SetPassword (sha256 L) (idkey L) salt (now div second) (Password u) u)\<lparr>Password := []\<rparr>)"
    define v where "v = (if OtpSecret w = [] then w\<lparr>OtpSecret := OtpSecret old\<rparr> else w)"
    have v: "uid v = uid u" "Role v = Role u" by (simp_all add: v_def w_def SetPassword_def SetPasswordStaticHash_def)
    have eq: "handle_UpdateUser L now salt req sv =
       (if Disabled v \<and> IsAdmin v then (ErrorStrResp ''admin user can not be disabled'' 400, sv)
        else let (a, us) = alloc v (users sv); (e, us) = UpdateUser a us
             in (if e \<noteq> None then ErrorResp 500 else SuccessResp, sv\<lparr>users := us\<rparr>))"
      unfolding handle_UpdateUser_def u option.case old sum.case v_def w_def Let_def using role by (simp only: simp_thms if_False)
    with False have nd: "\<not> (Disabled v \<and> IsAdmin v)" by auto
    have "id_row (urows (users sv)) (uid u) = Some old"
      using old by (auto simp: db_GetUserById_def db_first_def id_row_def split: if_splits option.splits)
    with that(2) [OF u this role v nd] show thesis using eq nd by (simp split: prod.splits)
  qed
  then show ?thesis
  proof cases
    case same
    then show ?thesis using good_refl [OF assms] by simp
  next
    case (wrote u old v)
    obtain a us where al: "alloc v (users sv) = (a, us)" by fastforce
    obtain e us' where up: "UpdateUser a us = (e, us')" by fastforce
    have "good sv (sv\<lparr>users := us'\<rparr>)"
      using wrote(2-6) by (intro good_fresh [OF assms al up]) (auto simp: IsAdmin_def)
    with wrote(7) al up show ?thesis by simp
  qed
qed

lemma handle_DeleteUser_good:
  assumes "sv_ok sv"
  shows "good sv (snd (handle_DeleteUser i sv))"
proof (cases i)
  case None
  with good_refl [OF assms] show ?thesis by (simp add: handle_DeleteUser_def)
next
  case (Some n)
  obtain e us where d: "DeleteUserById n (users sv) = (e, us)" by fastforce
  have "good sv (sv\<lparr>users := us\<rparr>)"
    using DeleteUserById_ok [OF _ _ d] assms by (intro goodI) (auto simp: sv_ok_def intro: kept_filter)
  with Some d show ?thesis by (simp add: handle_DeleteUser_def)
qed

lemma handle_Cancel2FAById_good:
  assumes "sv_ok sv"
  shows "good sv (snd (handle_Cancel2FAById i sv))"
proof (cases "\<exists>n u. i = Some n \<and> db_GetUserById n (users sv) = Inr u")
  case False
  then have "handle_Cancel2FAById i sv = (fst (handle_Cancel2FAById i sv), sv)"
    by (auto simp: handle_Cancel2FAById_def Cancel2FAById_def split: option.splits sum.splits)
  with good_refl [OF assms] show ?thesis by (metis snd_conv)
next
  case True
  then obtain n u where i: "i = Some n" and u: "db_GetUserById n (users sv) = Inr u" by blast
  obtain a us where al: "alloc u (users sv) = (a, us)" by fastforce
  let ?v = "u\<lparr>OtpSecret := []\<rparr>"
  have "assign a ?v us = snd (alloc ?v (users sv))" "a = fst (alloc ?v (users sv))"
    using al by (auto simp: alloc_def assign_def)
  then have al': "alloc ?v (users sv) = (a, assign a ?v us)" by (metis prod.collapse)
  obtain e us' where up: "UpdateUser a (assign a ?v us) = (e, us')" by fastforce
  have "u \<in> set (urows (users sv))"
    using u by (auto simp: db_GetUserById_def db_first_def find_Some_iff split: if_splits option.splits)
  then have "good sv (sv\<lparr>users := us'\<rparr>)"
    using assms row_ids [of "users sv" u] by (intro good_fresh [OF assms al' up]) (auto simp: IsAdmin_def sv_ok_def)
  moreover have "deref us a = u" using alloc_simps [OF al] by simp
  ultimately show ?thesis
    using i u al up by (simp add: handle_Cancel2FAById_def Cancel2FAById_def Cancel2FAByUser_def)
qed

lemma handle_DelUserCache_good: "sv_ok sv \<Longrightarrow> good sv (snd (handle_DelUserCache now n sv))"
proof -
  assume ok: "sv_ok sv"
  obtain e us where d: "DelUserCache now n (users sv) = (e, us)" by fastforce
  have "good sv (sv\<lparr>users := us\<rparr>)"
    using DelUserCache_ok [OF _ _ d] ok by (intro goodI) (auto simp: sv_ok_def table_ok_def)
  with d show ?thesis by (simp add: handle_DelUserCache_def)
qed

lemma good_inplace:
  assumes "sv_ok sv" "a < length (uheap (users sv))" "deref (users sv) a \<in> set (urows (users sv))"
    and "uid u = uid (deref (users sv) a)" "Role u = Role (deref (users sv) a)" "Disabled u = Disabled (deref (users sv) a)"
    and "\<not> udown (users sv)" and "UpdateUser a (assign a u (users sv)) = (e, us)"
  shows "good sv (sv\<lparr>users := us\<rparr>)"
  using assms UpdateUser_inplace [of "users sv" a u e us] by (intro goodI) (simp add: sv_ok_def)

lemma UpdateCurrent_good:
  assumes "sv_ok sv" "a < length (uheap (users sv))" "deref (users sv) a \<in> set (urows (users sv))" "\<not> udown (users sv)"
  shows "good sv (snd (UpdateCurrent L now salt req a sv))"
proof (cases req)
  case None
  with good_refl [OF assms(1)] show ?thesis by (simp add: UpdateCurrent_def)
next
  case (Some q)
  define u where "u = (deref (users sv) a)\<lparr>Username := Username q\<rparr>"
  define v where "v = (if Password q \<noteq> [] then SetPassword (sha256 L) (idkey L) salt (now div second) (Password q) u else u)
    \<lparr>SsoID := SsoID q\<rparr>"
  have v: "uid v = uid (deref (users sv) a)" "Role v = Role (deref (users sv) a)" "Disabled v = Disabled (deref (users sv) a)"
    by (simp_all add: v_def u_def SetPassword_def SetPasswordStaticHash_def)
  obtain e us where up: "UpdateUser a (assign a v (users sv)) = (e, us)" by fastforce
  from good_inplace [OF assms(1-3) v assms(4) up] Some up show ?thesis
    by (simp add: UpdateCurrent_def Let_def u_def [symmetric] v_def [symmetric])
qed

lemma Verify2FA_good:
  assumes "sv_ok sv" "a < length (uheap (users sv))" "deref (users sv) a \<in> set (urows (users sv))" "\<not> udown (users sv)"
  shows "good sv (snd (Verify2FA L req a sv))"
proof -
  obtain e us where up: "UpdateUser a (assign a ((deref (users sv) a)\<lparr>OtpSecret := snd (the req)\<rparr>) (users sv)) = (e, us)"
    by fastforce
  have "good sv (sv\<lparr>users := us\<rparr>)" using good_inplace [OF assms(1-3) _ _ _ assms(4) up] by simp
  with good_refl [OF assms(1)] up show ?thesis by (auto simp: Verify2FA_def Let_def split: option.splits prod.splits)
qed

lemma good_counted: "good sv sv' \<Longrightarrow> users sv'' = users sv' \<Longrightarrow> good sv sv''"
  by (simp add: good_def sv_ok_def)

text \<open>A login that is not refused and finds its user.\<close>

lemma loginHash_found:
  assumes g: "login_Get now ip sv = (c, sv0)"
    and low: "\<not> (c \<noteq> None \<and> DefaultMaxAuthRetries \<le> (case c of None \<Rightarrow> 0 | Some n \<Rightarrow> n))"
    and look: "GetUserByName now (req_user req) (users sv0) = (Inr a, us)"
    and al: "alloc (RehashPasswordStaticHash (idkey L) salt (now div second) (req_password req) (deref us a)) us = (b, us1)"
    and up: "UpdateUser b us1 = (e, us2)"
  shows "loginHash L now salt ip req sv =
    (let u = deref us a; n = (case c of None \<Rightarrow> 0 | Some n \<Rightarrow> n) + 1; sv1 = sv0\<lparr>users := us\<rparr>;
         stale = NeedsPasswordRehash u
     in if Disabled u then (ErrorStrResp InvalidUsernameOrPassword 401, login_Set ip n sv1)
        else if ValidatePwdStaticHash (sha256 L) (idkey L) u (req_password req) \<noteq> None
        then (ErrorStrResp InvalidUsernameOrPassword 401, login_Set ip n sv1)
        else if OtpSecret u \<noteq> [] \<and> \<not> totp L (req_otp req) (OtpSecret u)
        then (ErrorStrResp ''Invalid 2FA code'' 402, login_Set ip n sv1)
        else if stale \<and> e \<noteq> None then (ErrorResp 500, sv0\<lparr>users := us2\<rparr>)
        else (case GenerateToken L now (if stale then deref us2 b else u) (sv0\<lparr>users := if stale then us2 else us\<rparr>) of
            (None, sv) \<Rightarrow> (ErrorResp 500, sv)
          | (Some t, sv) \<Rightarrow> (SuccessToken t, login_Del ip sv)))"
proof -
  have F: "(c \<noteq> None \<and> DefaultMaxAuthRetries \<le> (case c of None \<Rightarrow> 0 | Some n \<Rightarrow> n)) = False" using low by simp
  have uu: "sv0\<lparr>users := us, users := us2\<rparr> = sv0\<lparr>users := us2\<rparr>" by simp
  show ?thesis
    unfolding loginHash_def by (simp only: g prod.case Let_def F if_False look sum.case al up uu) (simp split: if_split)
qed

lemma loginHash_good:
  assumes "sv_ok sv"
  shows "good sv (snd (loginHash L now salt ip req sv))"
proof -
  obtain c sv0 where c: "login_Get now ip sv = (c, sv0)" by fastforce
  note u0 = login_Get_users [OF c]
  have ok0: "sv_ok sv0" using assms u0 by (simp add: sv_ok_def)
  show ?thesis
  proof (cases "c \<noteq> None \<and> DefaultMaxAuthRetries \<le> (case c of None \<Rightarrow> 0 | Some n \<Rightarrow> n)")
    case True
    with c have "users (snd (loginHash L now salt ip req sv)) = users sv0"
      by (simp add: loginHash_def)
    with u0 assms show ?thesis by (simp add: users_kept)
  next
    case False
    obtain q us where g: "GetUserByName now (req_user req) (users sv0) = (q, us)" by fastforce
    note look = good_lookup [OF ok0 g]
    have from0: "good sv sv'" if "good sv0 sv'" for sv'
      using that u0 by (simp add: good_def)
    show ?thesis
    proof (cases q)
      case (Inl e)
      with c False g from0 [OF good_counted [OF look(1)]] show ?thesis by (auto simp: loginHash_def)
    next
      case (Inr a)
      let ?sv1 = "sv0\<lparr>users := us\<rparr>" and ?p = "req_password req"
      have ok1: "sv_ok ?sv1" "good sv0 ?sv1" using look(1) by (auto simp: good_def)
      have row: "deref us a \<in> set (urows us)"
        using look(2) [OF Inr] GetUserByName_ok(2) [OF _ _ g] ok0 by (simp add: sv_ok_def)
      obtain b us1 where al: "alloc (RehashPasswordStaticHash (idkey L) salt (now div second) ?p (deref us a)) us = (b, us1)"
        by fastforce
      obtain e us2 where up: "UpdateUser b us1 = (e, us2)" by fastforce
      have "good ?sv1 (sv0\<lparr>users := us2\<rparr>)"
        using good_rehash [OF ok1(1), of "deref us a" "idkey L" salt "now div second" ?p b us1 e us2] al up row by simp
      then have *: "good sv ?sv1" "good sv (sv0\<lparr>users := us2\<rparr>)"
        using from0 ok1(2) good_trans [OF ok1(2)] by blast+
      have "good sv (snd (case GenerateToken L now w sv1 of (None, sv) \<Rightarrow> (ErrorResp 500, sv)
          | (Some t, sv) \<Rightarrow> (SuccessToken t, login_Del ip sv)))" if "good sv sv1" for w sv1
        using that GenerateToken_users [of L now w sv1] by (auto intro: good_counted split: prod.splits option.splits)
      with * show ?thesis
        unfolding loginHash_found [OF c False g [unfolded Inr] al up] Let_def by (auto intro: good_counted)
    qed
  qed
qed

lemma LdapRegister_good:
  assumes "sv_ok sv"
  shows "good sv (snd (LdapRegister L now salt rnd nid n sv))"
proof (cases "n = []")
  case True
  with good_refl [OF assms] show ?thesis by (simp add: LdapRegister_def)
next
  case False
  let ?u = "SetPassword (sha256 L) (idkey L) salt (now div second) rnd
    \<lparr>uid = 0, Username = n, PwdHash = [], PwdTS = 0, Salt = [], Password = [],
     BasePath = LdapDefaultDir sv, Role = GENERAL, Disabled = False,
     Permission = LdapDefaultPermission sv, OtpSecret = [], SsoID = [], Authn = ''[]'', AllowLdap = True\<rparr>"
  obtain a us where al: "alloc ?u (users sv) = (a, us)" by fastforce
  obtain e us' where c: "CreateUser nid a us = (e, us')" by fastforce
  have "Role ?u = GENERAL" by (simp add: SetPassword_def SetPasswordStaticHash_def)
  with CreateUser_ok [OF _ _ al c] assms have "good sv (sv\<lparr>users := us'\<rparr>)"
    by (intro goodI) (auto simp: sv_ok_def IsAdmin_def GENERAL_def ADMIN_def intro: kept_insert)
  with False al c show ?thesis by (simp add: LdapRegister_def Let_def)
qed

lemma tryLogin_good:
  assumes "sv_ok sv"
  shows "good sv (snd (tryLogin L now salt rnd nid n pass sv))"
proof -
  obtain q us where g: "GetUserByName now n (users sv) = (q, us)" by fastforce
  note look = good_lookup [OF assms g]
  let ?sv1 = "sv\<lparr>users := us\<rparr>"
  have ok1: "sv_ok ?sv1" using look(1) by (simp add: good_def)
  show ?thesis
  proof (cases q)
    case (Inl e)
    have "good ?sv1 (snd (tryLdapLoginAndRegister L now salt rnd nid n pass ?sv1))"
      using LdapRegister_good [OF ok1] good_refl [OF ok1] by (simp add: tryLdapLoginAndRegister_def)
    then have "good sv (snd (tryLdapLoginAndRegister L now salt rnd nid n pass ?sv1))"
      by (rule good_trans [OF look(1)])
    with g Inl look(1) show ?thesis by (simp add: tryLogin_def Let_def)
  next
    case (Inr a)
    let ?h = "StaticHash (sha256 L) pass"
    obtain b us1 where al: "alloc (RehashPasswordStaticHash (idkey L) salt (now div second) ?h (deref us a)) us = (b, us1)"
      by fastforce
    obtain e us2 where up: "UpdateUser b us1 = (e, us2)" by fastforce
    have "deref us a \<in> set (urows us)"
      using look(2) [OF Inr] GetUserByName_ok(2) [OF _ _ g] assms by (simp add: sv_ok_def)
    then have "good ?sv1 (sv\<lparr>users := us2\<rparr>)"
      using good_rehash [OF ok1, of "deref us a" "idkey L" salt "now div second" ?h b us1 e us2] al up by simp
    then have "good sv (sv\<lparr>users := us2\<rparr>)" using look(1) good_trans by blast
    then show ?thesis
      using look(1) by (simp add: tryLogin_def g Inr Let_def al up)
  qed
qed

lemma WebDAVAuth_good:
  assumes "sv_ok sv"
  shows "good sv (snd (WebDAVAuth L now salt rnd nid ip method cred sv))"
proof -
  obtain c sv0 where c: "login_Get now ip sv = (c, sv0)" by fastforce
  note u0 = login_Get_users [OF c]
  have ok0: "sv_ok sv0" using assms u0 by (simp add: sv_ok_def)
  have from0: "good sv sv'" if "good sv0 sv'" for sv'
    using that u0 by (simp add: good_def)
  obtain q us where ga: "GetAdmin (users sv0) = (q, us)" by fastforce
  have adm: "good sv (sv0\<lparr>users := us\<rparr>)" by (rule from0 [OF good_admin(1) [OF ok0 ga]])
  have attempt: "good sv (snd (tryLogin L now salt rnd nid n pass sv0))" for n pass
    by (rule from0 [OF tryLogin_good [OF ok0]])
  have plain: "good sv sv0" using u0 assms by (rule users_kept [rotated])
  show ?thesis
  proof (cases cred)
    case (Other bt)
    with c ga adm plain show ?thesis
      by (cases q) (auto simp: WebDAVAuth_def Let_def intro: good_counted)
  next
    case (Basic n pass)
    obtain r sv1 where t: "tryLogin L now salt rnd nid n pass sv0 = (r, sv1)" by fastforce
    have "good sv sv1" using attempt [of n pass] by (simp add: t)
    with c t Basic plain show ?thesis
      by (cases r) (auto simp: WebDAVAuth_def Let_def intro: good_counted)
  qed
qed

theorem sv_step_good:
  assumes "sv_step L sv sv'" and "sv_ok sv"
  shows "good sv sv'"
  using assms
proof cases
  case (auth now token)
  obtain r sv1 where "Auth L now token sv = (r, sv1)" by fastforce
  with auth Auth_good(1) [OF assms(2) this] show ?thesis by simp
next
  case (login now salt ip req)
  with assms(2) good_refl loginHash_good show ?thesis by (auto simp: LoginHash_def split: option.splits)
next
  case (logout token)
  with assms(2) show ?thesis by (simp add: LogOut_def users_kept)
next
  case (me now token a sv1 salt req)
  note g = Auth_good [OF assms(2) me(2)]
  then have "sv_ok sv1" by (simp add: good_def)
  with g(2) me(3) have "good sv1 sv'" unfolding me(1) by (intro UpdateCurrent_good) auto
  with g(1) good_trans show ?thesis by blast
next
  case (otp now token a sv1 codes)
  note g = Auth_good [OF assms(2) otp(2)]
  then have "sv_ok sv1" by (simp add: good_def)
  with g(2) otp(3) have "good sv1 sv'" unfolding otp(1) by (intro Verify2FA_good) auto
  with g(1) good_trans show ?thesis by blast
next
  case (outage d)
  with assms(2) show ?thesis by (intro goodI) (auto simp: sv_ok_def table_ok_def memory_ok_def)
next
  case (settings sg l p)
  with assms(2) show ?thesis by (simp add: users_kept)
qed (auto simp: assms(2) handle_CreateUser_good handle_UpdateUser_good handle_DeleteUser_good
    handle_Cancel2FAById_good handle_DelUserCache_good WebDAVAuth_good)

lemma sv_steps_good: "(sv_step L)\<^sup>*\<^sup>* sv sv' \<Longrightarrow> sv_ok sv \<Longrightarrow> good sv sv'"
proof (induction rule: rtranclp_induct)
  case base
  then show ?case by (rule good_refl)
next
  case (step y z)
  then have "good sv y" "sv_ok y" by (simp_all add: good_def)
  with step(2) sv_step_good good_trans show ?case by blast
qed

end
