(* ===== verification/SessionTheorems.thy ===== *)
theory SessionTheorems
  imports SessionProps
begin

text \<open>
  The properties of logging in: who is let in, what a change of password or a logout does to
  the tokens, how many passwords an address can try, and what two interleaved requests can do.
\<close>

section \<open>Who is let in\<close>

lemma Auth_admin_or_claims:
  assumes "sv_ok sv" and "Auth L now token sv = (Inr a, sv')"
  shows "(token \<noteq> [] \<and> token = token_setting (signs sv) \<and> IsAdmin (deref (users sv') a)) \<or>
    (\<exists>c. ParseToken L now token sv = Inr c \<and> Username (deref (users sv') a) = claim_user c \<and>
       PwdTS (deref (users sv') a) = claim_ts c \<and> \<not> Disabled (deref (users sv') a))"
proof (cases "token \<noteq> [] \<and> token_setting (signs sv) \<noteq> [] \<and> token = token_setting (signs sv)")
  case True
  obtain q us where ga: "GetAdmin (users sv) = (q, us)" by fastforce
  with True assms(2) have "q = Inr a" "sv' = sv\<lparr>users := us\<rparr>" by (auto simp: Auth_def split: sum.splits)
  with good_admin(2) [OF assms(1) ga] True show ?thesis by auto
next
  case False
  with assms(2) obtain c where c: "ParseToken L now token sv = Inr c"
    by (auto simp: Auth_def split: if_splits sum.splits)
  obtain q us where gu: "GetUserByName now (claim_user c) (users sv) = (q, us)" by fastforce
  from False c gu assms(2) have r: "q = Inr a" "sv' = sv\<lparr>users := us\<rparr>" "claim_ts c = PwdTS (deref us a)"
    "\<not> Disabled (deref us a)"
    by (auto simp: Auth_def split: if_splits sum.splits)
  with good_lookup(2) [OF assms(1) gu] c show ?thesis by auto
qed

lemma ParseToken_valid: "ParseToken L now token sv = Inr c \<Longrightarrow> validTokenCache sv token"
  by (simp add: ParseToken_def IsTokenInvalidated_def Let_def split: if_splits)


text \<open>A server with one administrator and one user, and libraries for the examples.\<close>

definition demo_admin :: User where
  "demo_admin = demo_user\<lparr>uid := 2, Username := ''admin'', Role := 2\<rparr>"

definition demo_claim :: UserClaims where
  "demo_claim = \<lparr>claim_user = ''bob'', claim_ts = 7, ExpiresAt = 172800, IssuedAt = 0, NotBefore = 0\<rparr>"

definition demo_lib :: lib where
  "demo_lib = \<lparr>sha256 = demo_hash 64, idkey = (\<lambda>p s. demo_hash 32 p),
     jwt_sign = (\<lambda>c. if c = demo_claim then Some ''bob'' else None),
     jwt_parse = (\<lambda>now t. JwtToken (demo_claim\<lparr>claim_user := t\<rparr>) True),
     totp = (\<lambda>c s. False), ldap_login = (\<lambda>n p. False)\<rparr>"

definition demo_server :: server where
  "demo_server = \<lparr>users = \<lparr>urows = [demo_user, demo_admin], udown = False, uheap = [], userCache = (\<lambda>_. None),
       adminUser = None\<rparr>, validTokenCache = (\<lambda>_. True), LoginCache = (\<lambda>_. None),
     signs = \<lparr>signer = None, token_setting = ''secret''\<rparr>, TokenExpiresIn = 48, LdapLoginEnabled = False,
     LdapDefaultPermission = 0, LdapDefaultDir = ''/''\<rparr>"

lemma demo_clean: "FixAndCleanPath ''/'' = ''/''"
  by code_simp

lemma demo_ok: "sv_ok demo_server"
  by (simp add: sv_ok_def table_ok_def memory_ok_def demo_server_def demo_admin_def demo_user_def demo_clean stored_def)

lemmas auth_defs = Auth_def ParseToken_def IsTokenInvalidated_def GetUserByName_def Cache_GetUser_def Get_def
  db_GetUserByName_def db_first_def alloc_def Cache_SetUser_def SetWithTTL_def SetWithExpirable_def deref_def

lemma demo_auth: "\<exists>sv'. Auth demo_lib 0 ''bob'' demo_server = (Inr 0, sv')"
  by (simp add: auth_defs demo_server_def demo_lib_def demo_user_def demo_admin_def demo_claim_def Let_def)


section \<open>Administrators\<close>


lemma admins_list: "admins us = set (map uid (filter IsAdmin us))"
  by (auto simp: admins_def)


section \<open>Changed passwords\<close>

text \<open>What a successful edit by an administrator leaves in the table.\<close>

lemma handle_UpdateUser_row:
  assumes "sv_ok sv" and "handle_UpdateUser L now salt (Some req) sv = (SuccessResp, sv')"
  shows "sv_ok sv' \<and> (\<exists>v \<in> set (urows (users sv')). Username v = Username req \<and> uid v = uid req \<and> Authn v = Authn req \<and>
    PwdTS v = (if Password req = [] then PwdTS req else now div second)) \<and>
    validTokenCache sv' = validTokenCache sv \<and> signs sv' = signs sv"
proof -
  obtain old where old: "db_GetUserById (uid req) (users sv) = Inr old"
    using assms(2) by (cases "db_GetUserById (uid req) (users sv)") (auto simp: handle_UpdateUser_def)
  have role: "Role old = Role req"
    using assms(2) old by (auto simp: handle_UpdateUser_def split: if_splits)
  define w where "w = (if Password req = [] then req\<lparr>PwdHash := PwdHash old, Salt := Salt old\<rparr>
       else (SetPassword (sha256 L) (idkey L) salt (now div second) (Password req) req)\<lparr>Password := []\<rparr>)"
  define v where "v = (if OtpSecret w = [] then w\<lparr>OtpSecret := OtpSecret old\<rparr> else w)"
  have v: "uid v = uid req" "Role v = Role req" "Username v = Username req" "Authn v = Authn req"
    "PwdTS v = (if Password req = [] then PwdTS req else now div second)"
    by (simp_all add: v_def w_def SetPassword_def SetPasswordStaticHash_def)
  obtain a us where al: "alloc v (users sv) = (a, us)" by fastforce
  obtain e us' where up: "UpdateUser a us = (e, us')" by fastforce
  have eq: "handle_UpdateUser L now salt (Some req) sv =
     (if Disabled v \<and> IsAdmin v then (ErrorStrResp ''admin user can not be disabled'' 400, sv)
      else (if e \<noteq> None then ErrorResp 500 else SuccessResp, sv\<lparr>users := us'\<rparr>))"
    unfolding handle_UpdateUser_def option.case old sum.case
    using role al up by (simp only: v_def w_def Let_def simp_thms if_False prod.case)
  with assms(2) have r: "e = None" "sv' = sv\<lparr>users := us'\<rparr>" "\<not> (Disabled v \<and> IsAdmin v)"
    by (auto split: if_splits)
  have row: "id_row (urows (users sv)) (uid v) = Some old"
    using old v by (auto simp: db_GetUserById_def db_first_def id_row_def split: if_splits option.splits)
  have d: "distinct (map uid (urows (users sv)))" using assms(1) by (simp add: sv_ok_def table_ok_def)
  have "table_ok us' \<and> memory_ok {} us' \<and>
      urows us' = put_row (v\<lparr>BasePath := FixAndCleanPath (BasePath v)\<rparr>) (urows (users sv))"
    using UpdateUser_fresh [OF _ _ al _ up] assms(1) row r role v
    by (auto simp: sv_ok_def IsAdmin_def)
  then show ?thesis
    using row d set_put_row [of old "urows (users sv)" "v\<lparr>BasePath := FixAndCleanPath (BasePath v)\<rparr>"] v
    by (auto simp: r sv_ok_def id_row_Some)
qed

lemma Auth_needs_row:
  assumes "sv_ok sv" "v \<in> set (urows (users sv))" "ParseToken L now token sv = Inr c" "Username v = claim_user c"
    and "claim_ts c \<noteq> PwdTS v" "token \<noteq> token_setting (signs sv)"
  shows "\<exists>e sv'. Auth L now token sv = (Inl e, sv')"
proof (rule ccontr)
  assume "\<not> ?thesis"
  then obtain a sv' where a: "Auth L now token sv = (Inr a, sv')" by (metis sum.exhaust surj_pair)
  let ?u = "deref (users sv') a"
  have "?u \<in> set (urows (users sv))" using Auth_good(2) [OF assms(1) a] by auto
  moreover from Auth_admin_or_claims [OF assms(1) a] assms(3,6)
  have u: "Username ?u = claim_user c" "PwdTS ?u = claim_ts c" by auto
  moreover have "distinct (map Username (urows (users sv)))" using assms(1) by (simp add: sv_ok_def table_ok_def)
  ultimately have "?u = v" using assms(2,4) by (metis distinct_map inj_onD)
  with u assms(5) show False by simp
qed


definition demo_edit :: "string \<Rightarrow> User" where
  "demo_edit p = demo_user\<lparr>Password := p, PwdTS := 0\<rparr>"

lemmas update_defs = handle_UpdateUser_def UpdateUser_def UpdateUser_invalidate_def UpdateUser_write_def
  db_GetUserById_def db_UpdateUser_def db_first_def alloc_def deref_def assign_def Cache_DeleteUser_def

lemma demo_update: "\<exists>sv'. handle_UpdateUser demo_lib (8 * second) ''0123456789abcdef'' (Some (demo_edit p)) demo_server =
    (SuccessResp, sv') \<and> validTokenCache sv' = (\<lambda>_. True) \<and> token_setting (signs sv') = ''secret''"
  by (simp add: update_defs demo_server_def demo_lib_def demo_user_def demo_admin_def demo_edit_def Let_def IsAdmin_def
      ADMIN_def SetPassword_def SetPasswordStaticHash_def)

lemma demo_parse: "validTokenCache sv = (\<lambda>_. True) \<Longrightarrow>
  ParseToken demo_lib now t sv = Inr (demo_claim\<lparr>claim_user := t\<rparr>)"
  by (simp add: ParseToken_def IsTokenInvalidated_def demo_lib_def)


text \<open>An edit of a user without a new password, sent as the JSON the interface reads (which cannot
  carry the password time or the passkeys), resets both: the stored passkeys are lost, and every
  token of the user issued under a password with a time is refused although the password is the
  same.\<close>

theorem edit_logs_out:
  assumes "sv_ok sv" and "handle_UpdateUser L now salt (Some req) sv = (SuccessResp, sv')"
    and "Password req = []" and "PwdTS req = 0" and "Authn req = []"
    and "ParseToken L now' token sv' = Inr c" and "claim_user c = Username req"
    and "claim_ts c \<noteq> 0" and "token \<noteq> token_setting (signs sv')"
  shows "(\<exists>v \<in> set (urows (users sv')). uid v = uid req \<and> Authn v = []) \<and>
    (\<exists>e sv''. Auth L now' token sv' = (Inl e, sv''))"
proof -
  obtain v where v: "sv_ok sv'" "v \<in> set (urows (users sv'))" "Username v = Username req" "uid v = uid req"
    "Authn v = Authn req" "PwdTS v = 0"
    using handle_UpdateUser_row [OF assms(1,2)] assms(3,4) by auto
  with Auth_needs_row [OF v(1,2) assms(6)] assms show ?thesis by auto
qed

theorem edit_logs_out_witness:
  "\<exists>sv' e sv''. handle_UpdateUser demo_lib (8 * second) ''0123456789abcdef'' (Some (demo_edit [])) demo_server =
    (SuccessResp, sv') \<and> Auth demo_lib 0 ''bob'' sv' = (Inl e, sv'')"
proof -
  obtain sv' where sv': "handle_UpdateUser demo_lib (8 * second) ''0123456789abcdef'' (Some (demo_edit [])) demo_server =
    (SuccessResp, sv')" "validTokenCache sv' = (\<lambda>_. True)" "token_setting (signs sv') = ''secret''"
    using demo_update by blast
  from edit_logs_out [OF demo_ok sv'(1) _ _ _ demo_parse [OF sv'(2), of 0 "''bob''"]] sv'
  show ?thesis by (simp add: demo_edit_def demo_user_def demo_claim_def)
qed

section \<open>Two requests at once\<close>

text \<open>\<open>UpdateUser\<close> takes the user out of the cache before it writes the row.\<close>

text \<open>A lookup that runs between the two halves of an update puts the old row back into the cache,
  where it stays in use for an hour although the table has the new one: a user that was just
  disabled, or whose password was just changed, is still let in with the old record.\<close>

theorem UpdateUser_race:
  assumes ok: "table_ok st" "memory_ok {} st" and old: "name_row (urows st) n = Some old" "n \<noteq> []" "\<not> udown st"
    and al: "alloc u st = (a, st1)" and u: "uid u = uid old" "Username u = n"
    and now: "now' \<le> now + user_ttl"
  shows "(let st2 = snd (UpdateUser_invalidate a st1); st3 = snd (GetUserByName now n st2);
      (e, st4) = UpdateUser_write a st3; (r, st5) = GetUserByName now' n st4
    in e = None \<and> name_row (urows st4) n = Some (u\<lparr>BasePath := FixAndCleanPath (BasePath u)\<rparr>) \<and>
       (\<exists>b. r = Inr b \<and> deref st5 b = old))"
proof -
  note a = alloc_simps [OF al]
  have d: "distinct (map uid (urows st))" "distinct (map Username (urows st))" using ok by (auto simp: table_ok_def)
  have o: "old \<in> set (urows st)" "Username old = n" using old d by (auto simp: name_row_Some)
  have row: "id_row (urows st) (uid u) = Some old" using o d u by (simp add: id_row_Some)
  define st2 where "st2 = snd (UpdateUser_invalidate a st1)"
  have st2: "urows st2 = urows st" "udown st2 = udown st" "deref st2 = deref st1" "uheap st2 = uheap st1"
    "userCache st2 n = None"
    using row old(3) a o(2) by (auto simp: st2_def UpdateUser_invalidate_def db_GetUserById_def db_first_def id_row_def
        Cache_DeleteUser_def Delete_def)
  obtain b sta where alb: "alloc old st2 = (b, sta)" by fastforce
  note b = alloc_simps [OF alb]
  have db: "db_GetUserByName n st2 = Inr old"
    using old st2 by (simp add: db_GetUserByName_def db_first_def name_row_def)
  define st3 where "st3 = Cache_SetUser now n b sta"
  have same: "st2\<lparr>userCache := userCache st2\<rparr> = st2" by simp
  have g: "GetUserByName now n st2 = (Inr b, st3)"
    using old(2) st2(5) db alb
    by (simp add: GetUserByName_def Cache_GetUser_def Get_def same st3_def)
  have ab: "a < b" "deref st3 a = u" "deref st3 b = old" "urows st3 = urows st" "udown st3 = udown st"
    "uheap st3 = uheap sta"
    using a b st2 by (auto simp: st3_def)
  have ent: "userCache st3 n = Some \<lparr>entry_data = b, entry_exp = now + user_ttl\<rparr>"
    by (simp add: st3_def Cache_SetUser_def SetWithTTL_def SetWithExpirable_def)
  define v where "v = u\<lparr>BasePath := FixAndCleanPath (BasePath u)\<rparr>"
  define st4 where "st4 = (assign a v st3)\<lparr>urows := put_row v (urows st)\<rparr>"
  have clash: "\<not> (\<exists>w \<in> set (urows st). uid w \<noteq> uid v \<and> Username w = Username v)"
    using o u d by (auto simp: v_def) (metis distinct_map inj_onD)
  have pres: "uid v \<in> uid ` set (urows st)" using o u imageI [OF o(1), of uid] by (simp add: v_def del: image_iff)
  have w: "UpdateUser_write a st3 = (None, st4)"
    using clash pres old(3) ab
    by (simp add: UpdateUser_write_def ab(2) v_def [symmetric] Let_def db_UpdateUser_def st4_def put_row_def del: image_iff)
  have "a < length (uheap st3)" using ab(1) b(1,7) ab(6) by simp
  then have d4: "deref st4 b = old" using ab by (simp add: st4_def deref_assign)
  have c4: "userCache st4 n = Some \<lparr>entry_data = b, entry_exp = now + user_ttl\<rparr>"
    using ent by (simp add: st4_def)
  have same4: "st4\<lparr>userCache := userCache st4\<rparr> = st4" by simp
  have g4: "GetUserByName now' n st4 = (Inr b, st4)"
    using old(2) c4 now by (simp add: GetUserByName_def Cache_GetUser_def Get_def past_def same4)
  have "\<forall>x \<in> set (urows st). uid x \<noteq> uid v \<longrightarrow> Username x \<noteq> Username v" using clash by blast
  from distinct_put_row [OF d this] have dp: "distinct (map Username (put_row v (urows st)))" by simp
  have "v \<in> set (put_row v (urows st))" using set_put_row [OF o(1), of v] u by (simp add: v_def)
  then have "name_row (urows st4) n = Some v" using dp u by (simp add: st4_def name_row_Some v_def)
  then show ?thesis using g w g4 d4 by (simp add: st2_def [symmetric] v_def)
qed

theorem UpdateUser_race_witness:
  "\<exists>a st1. alloc (demo_user\<lparr>Disabled := True\<rparr>) (users demo_server) = (a, st1) \<and>
    (let st2 = snd (UpdateUser_invalidate a st1); st3 = snd (GetUserByName 0 ''bob'' st2);
         (e, st4) = UpdateUser_write a st3; (r, st5) = GetUserByName second ''bob'' st4
     in e = None \<and> (\<exists>b. r = Inr b \<and> \<not> Disabled (deref st5 b)))"
proof -
  have ok: "table_ok (users demo_server)" "memory_ok {} (users demo_server)" using demo_ok by (simp_all add: sv_ok_def)
  have old: "name_row (urows (users demo_server)) ''bob'' = Some demo_user" "''bob'' \<noteq> ([] :: string)"
    "\<not> udown (users demo_server)" by (simp_all add: demo_server_def name_row_def demo_user_def)
  obtain a st1 where al: "alloc (demo_user\<lparr>Disabled := True\<rparr>) (users demo_server) = (a, st1)" by fastforce
  have u: "uid (demo_user\<lparr>Disabled := True\<rparr>) = uid demo_user" "Username (demo_user\<lparr>Disabled := True\<rparr>) = ''bob''"
    "second \<le> 0 + user_ttl"
    by (simp_all add: demo_user_def second_def user_ttl_def)
  have nd: "\<not> Disabled demo_user" by (simp add: demo_user_def)
  from UpdateUser_race [OF ok old al u] al nd show ?thesis by (auto simp: Let_def split: prod.splits)
qed

section \<open>Trying passwords\<close>

definition rejected :: "reply \<Rightarrow> bool" where
  "rejected r \<longleftrightarrow> (\<exists>m. r = ErrorStrResp m 401) \<or> (\<exists>m. r = ErrorStrResp m 402)"

definition let_in :: "reply \<Rightarrow> bool" where
  "let_in r \<longleftrightarrow> (\<exists>t. r = SuccessToken t)"

text \<open>Logins from one address, with the time and the salt of each, and the replies.\<close>

fun login_run :: "lib \<Rightarrow> string \<Rightarrow> (int \<times> string \<times> LoginReq) list \<Rightarrow> server \<Rightarrow> reply list \<times> server" where
  "login_run L ip [] sv = ([], sv)"
| "login_run L ip ((now, salt, req) # rs) sv =
     (let (r, sv) = loginHash L now salt ip req sv; (qs, sv) = login_run L ip rs sv in (r # qs, sv))"

text \<open>The next attempt comes at most five minutes after the previous one.\<close>

fun steady :: "int \<Rightarrow> int list \<Rightarrow> bool" where
  "steady t [] \<longleftrightarrow> True"
| "steady t (u # us) \<longleftrightarrow> u \<le> t + DefaultLockDuration \<and> steady u us"

lemma login_entry_simps [simp]:
  "LoginCache (login_Set ip n sv) ip = Some \<lparr>entry_data = n, entry_exp = None\<rparr>"
  "LoginCache (sv\<lparr>users := us\<rparr>) = LoginCache sv"
  by (simp_all add: login_Set_def SetWithExpirable_def)

lemma GenerateToken_cache: "GenerateToken L now u sv = (r, sv') \<Longrightarrow> LoginCache sv' = LoginCache sv"
  by (auto simp: GenerateToken_def Let_def split: option.splits)

lemma login_Get_live: "LoginCache sv ip = Some e \<Longrightarrow> \<not> login_expired now (entry_exp e) \<Longrightarrow>
    login_Get now ip sv = (Some (entry_data e), sv)"
  by (simp add: login_Get_def Get_def)

lemma login_Get_none: "LoginCache sv ip = None \<Longrightarrow> login_Get now ip sv = (None, sv)"
  by (simp add: login_Get_def Get_def)

text \<open>One attempt below the limit.\<close>

lemma loginHash_counts:
  assumes "login_Get now ip sv = (c, sv)" and "n = (case c of None \<Rightarrow> 0 | Some k \<Rightarrow> k)" and "n < 5"
    and "loginHash L now salt ip req sv = (r, sv')"
  shows "let_in r \<or> (rejected r \<and> LoginCache sv' ip = Some \<lparr>entry_data = n + 1, entry_exp = None\<rparr>) \<or>
    (\<not> rejected r \<and> LoginCache sv' ip = LoginCache sv ip)"
proof -
  have F: "(c \<noteq> None \<and> DefaultMaxAuthRetries \<le> (case c of None \<Rightarrow> 0 | Some n \<Rightarrow> n)) = False"
    using assms(2,3) by (simp add: DefaultMaxAuthRetries_def)
  obtain q us where g: "GetUserByName now (req_user req) (users sv) = (q, us)" by fastforce
  show ?thesis
  proof (cases q)
    case (Inl e)
    have "loginHash L now salt ip req sv =
        (ErrorStrResp InvalidUsernameOrPassword 401, login_Set ip (n + 1) (sv\<lparr>users := us\<rparr>))"
      unfolding loginHash_def assms(2) by (simp only: assms(1) prod.case Let_def F if_False g Inl sum.case)
    with assms(4) show ?thesis by (auto simp: rejected_def)
  next
    case (Inr a)
    obtain b us1 where al: "alloc (RehashPasswordStaticHash (idkey L) salt (now div second) (req_password req) (deref us a)) us = (b, us1)"
      by fastforce
    obtain e us2 where up: "UpdateUser b us1 = (e, us2)" by fastforce
    have low: "\<not> (c \<noteq> None \<and> DefaultMaxAuthRetries \<le> (case c of None \<Rightarrow> 0 | Some n \<Rightarrow> n))" using F by simp
    have tok: "let_in r \<or> \<not> rejected r \<and> LoginCache sv' ip = LoginCache sv ip"
      if "(case GenerateToken L now w sw of (None, sv) \<Rightarrow> (ErrorResp 500, sv)
          | (Some t, sv) \<Rightarrow> (SuccessToken t, login_Del ip sv)) = (r, sv')" "LoginCache sw = LoginCache sv" for w sw
      using that GenerateToken_cache [of L now w sw]
      by (auto simp: let_in_def rejected_def split: prod.splits option.splits)
    from assms(4) show ?thesis
      unfolding loginHash_found [OF assms(1) low g [unfolded Inr] al up] Let_def
      by (simp add: assms(2) [symmetric] split: if_splits) (auto simp: rejected_def dest!: tok)
  qed
qed

lemma loginHash_blocked:
  assumes "LoginCache sv ip = Some e" "\<not> login_expired now (entry_exp e)" "5 \<le> entry_data e"
  shows "loginHash L now salt ip req sv = (ErrorStrResp TooManyAttempts 429, login_Expire now ip sv)"
  using assms by (simp add: loginHash_def login_Get_live DefaultMaxAuthRetries_def Let_def)

definition tried :: "int \<Rightarrow> int \<Rightarrow> (int, int option) CacheEntry option \<Rightarrow> bool" where
  "tried k t e \<longleftrightarrow> 0 \<le> k \<and> k \<le> 5 \<and>
     (k = 0 \<and> e = None \<or> e = Some \<lparr>entry_data = k, entry_exp = None\<rparr> \<or>
      k = 5 \<and> e = Some \<lparr>entry_data = 5, entry_exp = Some (t + DefaultLockDuration)\<rparr>)"

lemma tried_step:
  assumes "tried k t (LoginCache sv ip)" and "now \<le> t + DefaultLockDuration"
    and "loginHash L now salt ip req sv = (r, sv')" and "\<not> let_in r"
  shows "tried (k + (if rejected r then 1 else 0)) now (LoginCache sv' ip)"
proof (cases "k = 5")
  case True
  with assms(1) obtain e where e: "LoginCache sv ip = Some e" "entry_data e = 5"
      "entry_exp e = None \<or> entry_exp e = Some (t + DefaultLockDuration)"
    by (auto simp: tried_def)
  then have "\<not> login_expired now (entry_exp e)" using assms(2) by (auto simp: login_expired_def)
  from loginHash_blocked [OF e(1) this] e assms(3)
  have "r = ErrorStrResp TooManyAttempts 429" "sv' = login_Expire now ip sv" by auto
  with e True show ?thesis by (simp add: tried_def login_Expire_def rejected_def)
next
  case False
  define c where "c = map_option entry_data (LoginCache sv ip)"
  have g: "login_Get now ip sv = (c, sv)"
    using assms(1) False by (auto simp: tried_def c_def login_Get_none login_Get_live login_expired_def)
  have k: "k = (case c of None \<Rightarrow> 0 | Some k \<Rightarrow> k)" "k < 5"
    using assms(1) False by (auto simp: tried_def c_def)
  from loginHash_counts [OF g k assms(3)] assms(1,4) k(2) show ?thesis
    by (auto simp: tried_def)
qed

lemma login_run_tried:
  assumes "tried k t (LoginCache sv ip)" and "steady t (map fst rs)" and "login_run L ip rs sv = (qs, sv')"
    and "list_all (\<lambda>r. \<not> let_in r) qs"
  shows "k + int (length (filter rejected qs)) \<le> 5"
  using assms
proof (induction rs arbitrary: k t sv qs sv')
  case Nil
  then show ?case by (simp add: tried_def)
next
  case (Cons x rs)
  obtain now salt req where x: "x = (now, salt, req)" by (cases x)
  obtain r sv1 where r: "loginHash L now salt ip req sv = (r, sv1)" by fastforce
  obtain ps sv2 where ps: "login_run L ip rs sv1 = (ps, sv2)" by fastforce
  have q: "qs = r # ps" using Cons.prems(3) by (simp add: x r ps)
  have st: "now \<le> t + DefaultLockDuration" "steady now (map fst rs)" using Cons.prems(2) by (simp_all add: x)
  have nl: "\<not> let_in r" "list_all (\<lambda>r. \<not> let_in r) ps" using Cons.prems(4) by (simp_all add: q)
  have "tried (k + (if rejected r then 1 else 0)) now (LoginCache sv1 ip)"
    by (rule tried_step [OF Cons.prems(1) st(1) r nl(1)])
  from Cons.IH [OF this st(2) ps nl(2)] show ?case by (simp add: q split: if_splits)
qed


definition demo_req :: LoginReq where
  "demo_req = \<lparr>req_user = [], req_password = ''guess'', req_otp = []\<rparr>"


text \<open>An address that was refused for too many attempts is heard again once it has been silent
  for more than five minutes: its next login is judged by the password, not refused, whatever the
  users and the database do.\<close>

theorem lock_ends:
  assumes "loginHash L now salt ip req sv = (ErrorStrResp TooManyAttempts 429, sv1)"
    and "now + DefaultLockDuration < now'"
  shows "fst (loginHash L now' salt' ip req' sv1) \<noteq> ErrorStrResp TooManyAttempts 429"
proof -
  have other: "r \<noteq> ErrorStrResp TooManyAttempts 429" if "let_in r \<or> rejected r \<or> r = ErrorResp 500" for r
    using that by (auto simp: let_in_def rejected_def)
  have low: "fst (loginHash L now'' s ip q sv0) \<noteq> ErrorStrResp TooManyAttempts 429"
    if "login_Get now'' ip sv0 = (c, sw)" "\<not> (c \<noteq> None \<and> DefaultMaxAuthRetries \<le> (case c of None \<Rightarrow> 0 | Some n \<Rightarrow> n))"
    for now'' s q sv0 c sw
  proof -
    have F: "(c \<noteq> None \<and> DefaultMaxAuthRetries \<le> (case c of None \<Rightarrow> 0 | Some n \<Rightarrow> n)) = False" using that(2) by simp
    show ?thesis
      unfolding loginHash_def
      by (simp only: that(1) prod.case Let_def F if_False) (auto split: prod.splits sum.splits option.splits)
  qed
  obtain c sw where g: "login_Get now ip sv = (c, sw)" by fastforce
  have T: "c \<noteq> None \<and> DefaultMaxAuthRetries \<le> (case c of None \<Rightarrow> 0 | Some n \<Rightarrow> n)"
    using low [OF g] assms(1) by (metis fst_conv)
  then obtain e where e: "LoginCache sw ip = Some e"
    using g by (auto simp: login_Get_def Get_def split: option.splits if_splits)
  have "sv1 = login_Expire now ip sw"
    using assms(1) g T by (simp add: loginHash_def)
  then have "LoginCache sv1 ip = Some (e\<lparr>entry_exp := Some (now + DefaultLockDuration)\<rparr>)"
    using e by (simp add: login_Expire_def)
  then obtain sw' where "login_Get now' ip sv1 = (None, sw')"
    using assms(2) by (simp add: login_Get_def Get_def login_expired_def)
  from low [OF this] show ?thesis by simp
qed

theorem lock_ends_witness:
  "\<exists>sv1. loginHash demo_lib 0 [] ''::1'' demo_req (login_Set ''::1'' 5 demo_server) = (ErrorStrResp TooManyAttempts 429, sv1) \<and>
     fst (loginHash demo_lib (301 * second) [] ''::1'' demo_req sv1) \<noteq> ErrorStrResp TooManyAttempts 429"
proof -
  have "\<exists>sv1. loginHash demo_lib 0 [] ''::1'' demo_req (login_Set ''::1'' 5 demo_server) =
      (ErrorStrResp TooManyAttempts 429, sv1)"
    using loginHash_blocked [of "login_Set ''::1'' 5 demo_server" "''::1''"]
    by (simp add: login_expired_def)
  moreover have "0 + DefaultLockDuration < 301 * second" by (simp add: DefaultLockDuration_def second_def)
  ultimately show ?thesis using lock_ends by blast
qed

section \<open>A session\<close>

lemma UpdateUser_deref:
  assumes "UpdateUser a st = (None, st')" and "a < length (uheap st)"
  shows "Username (deref st' a) = Username (deref st a) \<and> PwdTS (deref st' a) = PwdTS (deref st a) \<and> udown st' = udown st"
proof -
  obtain st1 where i: "UpdateUser_invalidate a st = (None, st1)" and w: "UpdateUser_write a st1 = (None, st')"
    using assms(1) by (auto simp: UpdateUser_def split: prod.splits option.splits)
  have st1: "uheap st1 = uheap st" "udown st1 = udown st" "deref st1 a = deref st a"
    using i by (auto simp: UpdateUser_invalidate_def split: sum.splits if_splits)
  have "\<exists>us. st' = (assign a ((deref st a)\<lparr>BasePath := FixAndCleanPath (BasePath (deref st a))\<rparr>) st1)\<lparr>urows := us\<rparr>"
    using w by (auto simp: UpdateUser_write_def db_UpdateUser_def Let_def st1(3) split: if_splits)
  with st1 assms(2) show ?thesis by (auto simp: deref_assign)
qed

text \<open>The row and the claims behind a token that a login gave out.\<close>

lemma loginHash_token:
  assumes ok: "sv_ok sv" and run: "loginHash L now salt ip req sv = (SuccessToken t, sv')"
  shows "sv_ok sv' \<and> validTokenCache sv' t \<and> signs sv' = signs sv \<and> udown (users sv') = udown (users sv) \<and> req_user req \<noteq> [] \<and>
    (\<exists>v claim. name_row (urows (users sv')) (req_user req) = Some v \<and> \<not> Disabled v \<and>
       jwt_sign L claim = Some t \<and> claim_user claim = req_user req \<and> claim_ts claim = PwdTS v)"
proof -
  have ok': "sv_ok sv'" using loginHash_good [OF ok, of L now salt ip req] run by (simp add: good_def)
  obtain c sv0 where g: "login_Get now ip sv = (c, sv0)" by fastforce
  have u0: "users sv0 = users sv" "validTokenCache sv0 = validTokenCache sv" "signs sv0 = signs sv"
    using g by (auto simp: login_Get_def split: prod.splits)
  have low: "\<not> (c \<noteq> None \<and> DefaultMaxAuthRetries \<le> (case c of None \<Rightarrow> 0 | Some n \<Rightarrow> n))"
    using run g by (auto simp: loginHash_def Let_def split: if_splits)
  obtain q us where look: "GetUserByName now (req_user req) (users sv0) = (q, us)" by fastforce
  have "\<exists>a. q = Inr a"
    using run g low look by (cases q) (auto simp: loginHash_def Let_def split: if_splits)
  then obtain a where q: "q = Inr a" by blast
  define u where "u = deref us a"
  have tm: "table_ok (users sv0)" "memory_ok {} (users sv0)" using ok u0 by (simp_all add: sv_ok_def)
  note found = GetUserByName_ok [OF tm look]
  have row: "name_row (urows us) (req_user req) = Some u" "table_ok us" "udown us = udown (users sv)"
    using found(2,3,4) q tm u0 by (auto simp: u_def table_ok_def)
  have nonempty: "req_user req \<noteq> []" using look q by (auto simp: GetUserByName_def split: if_splits)
  let ?r = "RehashPasswordStaticHash (idkey L) salt (now div second) (req_password req) u"
  obtain b us1 where al: "alloc ?r us = (b, us1)" by fastforce
  obtain e us2 where up: "UpdateUser b us1 = (e, us2)" by fastforce
  define w sw where "w = (if NeedsPasswordRehash u then deref us2 b else u)"
    and "sw = sv0\<lparr>users := if NeedsPasswordRehash u then us2 else us\<rparr>"
  have "(SuccessToken t, sv') = (case GenerateToken L now w sw of (None, sv) \<Rightarrow> (ErrorResp 500, sv)
      | (Some t, sv) \<Rightarrow> (SuccessToken t, login_Del ip sv)) \<and> \<not> Disabled u \<and> (NeedsPasswordRehash u \<longrightarrow> e = None)"
    using run loginHash_found [OF g low look [unfolded q] al [unfolded u_def] up]
    by (simp add: Let_def u_def [symmetric] w_def [symmetric] sw_def [symmetric] split: if_splits)
  then have tok: "\<not> Disabled u" "NeedsPasswordRehash u \<longrightarrow> e = None"
    "\<exists>sx. GenerateToken L now w sw = (Some t, sx) \<and> sv' = login_Del ip sx"
    by (auto split: prod.splits option.splits)
  then obtain sx claim where sx: "jwt_sign L claim = Some t" "claim_user claim = Username w" "claim_ts claim = PwdTS w"
      "sx = sw\<lparr>validTokenCache := (validTokenCache sw)(t := True)\<rparr>" "sv' = login_Del ip sx"
    by (auto simp: GenerateToken_def Let_def split: option.splits)
  have rr: "Username ?r = Username u" "PwdTS ?r = PwdTS u" "Disabled ?r = Disabled u" "uid ?r = uid u" "Role ?r = Role u"
    by (simp_all add: RehashPasswordStaticHash_def SetPasswordStaticHash_def Let_def)
  note a = alloc_simps [OF al]
  have uname: "Username u = req_user req" "u \<in> set (urows us)"
    using row name_row_Some by (auto simp: table_ok_def)
  have w: "Username w = req_user req" "PwdTS w = PwdTS u"
    using UpdateUser_deref [of b us1 us2] up tok(2) a rr uname by (auto simp: w_def)
  have v: "\<exists>v. name_row (urows (users sw)) (req_user req) = Some v \<and> \<not> Disabled v \<and> PwdTS v = PwdTS u \<and>
      udown (users sw) = udown (users sv)"
  proof (cases "NeedsPasswordRehash u")
    case False
    with row tok(1) show ?thesis by (simp add: sw_def)
  next
    case True
    let ?v = "?r\<lparr>BasePath := FixAndCleanPath (BasePath ?r)\<rparr>"
    have id: "id_row (urows us) (uid ?r) = Some u" using row_ids [OF row(2) uname(2)] rr by simp
    have m: "memory_ok {} us" using found(1) .
    have us2: "table_ok us2 \<and> urows us2 = put_row ?v (urows us)"
      using UpdateUser_fresh [OF row(2) m al _ up] id rr True tok(2) by (simp add: IsAdmin_def)
    have "distinct (map Username (urows us2))" using conjunct1 [OF us2] by (simp add: table_ok_def)
    moreover have "?v \<in> set (urows us2)" using us2 set_put_row [of u "urows us" ?v] uname rr by simp
    ultimately have "name_row (urows us2) (req_user req) = Some ?v" using rr uname by (simp add: name_row_Some)
    moreover have "udown us2 = udown (users sv)"
      using UpdateUser_deref [of b us1 us2] up tok(2) True a row(3) by simp
    ultimately show ?thesis using True rr tok(1) by (auto simp: sw_def)
  qed
  have "users sv' = users sw" "validTokenCache sv' t" "signs sv' = signs sv"
    using sx u0 by (simp_all add: sw_def login_Del_def)
  with v w sx(1-3) ok' nonempty show ?thesis by auto
qed

lemma Auth_accepts:
  assumes "sv_ok sv" and "validTokenCache sv t" and "jwt_parse L now t = JwtToken c True" and "\<not> udown (users sv)"
    and "name_row (urows (users sv)) (claim_user c) = Some v" and "claim_ts c = PwdTS v" and "\<not> Disabled v"
    and "claim_user c \<noteq> []" and "t \<noteq> []" and "t \<noteq> token_setting (signs sv)"
  shows "\<exists>a sv'. Auth L now t sv = (Inr a, sv') \<and> deref (users sv') a = v"
proof -
  have p: "ParseToken L now t sv = Inr c" using assms(2,3) by (simp add: ParseToken_def IsTokenInvalidated_def)
  obtain q us where g: "GetUserByName now (claim_user c) (users sv) = (q, us)" by fastforce
  note ok = GetUserByName_ok [OF _ _ g]
  have "\<exists>a. q = Inr a"
  proof (rule ccontr)
    assume "\<nexists>a. q = Inr a"
    then obtain e where "q = Inl e" by (cases q) auto
    with g assms(4,5,8) show False
      by (auto simp: GetUserByName_def Cache_GetUser_def db_GetUserByName_def db_first_def name_row_def
          split: if_splits prod.splits option.splits)
  qed
  then obtain a where a: "q = Inr a" by blast
  have d: "deref us a = v" using ok(4) a assms(1,5) by (simp add: sv_ok_def)
  with p g a assms(6,7,9,10) show ?thesis by (simp add: Auth_def)
qed

text \<open>The token a login returns opens a session as that user on every later request, as long as
  the token library accepts what it signed and the user's row is not changed, until it is logged
  out, after which it is refused.\<close>

theorem session_opens:
  assumes "sv_ok sv" and "loginHash L now salt ip req sv = (SuccessToken t, sv')"
    and "\<And>c. jwt_sign L c = Some t \<Longrightarrow> jwt_parse L now' t = JwtToken c True"
    and "\<not> udown (users sv)" and "t \<noteq> []" and "t \<noteq> token_setting (signs sv)"
  shows "(\<exists>a sv''. Auth L now' t sv' = (Inr a, sv'') \<and> Username (deref (users sv'') a) = req_user req) \<and>
    (\<exists>e sv''. Auth L now' t (snd (LogOut t sv')) = (Inl e, sv''))"
proof -
  obtain v claim where v: "sv_ok sv'" "validTokenCache sv' t" "signs sv' = signs sv" "udown (users sv') = udown (users sv)"
    "req_user req \<noteq> []" "name_row (urows (users sv')) (req_user req) = Some v" "\<not> Disabled v"
    "jwt_sign L claim = Some t" "claim_user claim = req_user req" "claim_ts claim = PwdTS v"
    using loginHash_token [OF assms(1,2)] by blast
  have "Username v = req_user req" using v(1,6) by (simp add: sv_ok_def table_ok_def name_row_Some)
  moreover have "\<exists>a sv''. Auth L now' t sv' = (Inr a, sv'') \<and> deref (users sv'') a = v"
    using assms(3-6) v by (intro Auth_accepts) auto
  moreover have "\<exists>e sv''. Auth L now' t (snd (LogOut t sv')) = (Inl e, sv'')"
    using assms(5,6) v(3)
    by (auto simp: Auth_def LogOut_def InvalidateToken_def ParseToken_def IsTokenInvalidated_def Let_def)
  ultimately show ?thesis by blast
qed

definition demo_hashed :: server where
  "demo_hashed = demo_server\<lparr>users := (users demo_server)\<lparr>urows :=
     [demo_user\<lparr>PwdHash := encodeArgon2Hash (idkey demo_lib) ''static'' ''0123456789abcdef''\<rparr>]\<rparr>\<rparr>"

lemma demo_login: "\<exists>sv'. loginHash demo_lib 0 [] ''::1'' \<lparr>req_user = ''bob'', req_password = ''static'', req_otp = []\<rparr> demo_hashed =
    (SuccessToken ''bob'', sv')"
proof -
  define h where "h = encodeArgon2Hash (idkey demo_lib) ''static'' ''0123456789abcdef''"
  have v: "validateArgon2Hash (idkey demo_lib) ''static'' h"
    unfolding h_def by (subst validate_encoded) (simp_all add: demo_lib_def demo_hash_def)
  have p: "has_prefix h ''$argon2id$''" "has_prefix h argon2Prefix"
    by (simp_all add: h_def encodeArgon2Hash_def has_prefix_def argon2Prefix_def)
  have l: "jwt_sign demo_lib \<lparr>claim_user = ''bob'', claim_ts = 7, ExpiresAt = 172800, IssuedAt = 0, NotBefore = 0\<rparr> = Some ''bob''"
    by (simp add: demo_lib_def demo_claim_def)
  have hours: "i64 (172800 * second) div second = 172800" by (simp add: i64_id i64_min_def i64_max_def second_def)
  have d: "demo_hashed = demo_server\<lparr>users := (users demo_server)\<lparr>urows := [demo_user\<lparr>PwdHash := h\<rparr>]\<rparr>\<rparr>"
    by (simp add: demo_hashed_def h_def)
  show ?thesis
    using v p unfolding d
    by (simp add: loginHash_def login_Get_def Get_def GetUserByName_def Cache_GetUser_def db_GetUserByName_def db_first_def
        alloc_def Cache_SetUser_def SetWithTTL_def SetWithExpirable_def deref_def ValidatePwdStaticHash_def
        NeedsPasswordRehash_def GenerateToken_def l hours demo_server_def demo_user_def Let_def)
qed

theorem session_opens_witness:
  "\<exists>sv'. loginHash demo_lib 0 [] ''::1'' \<lparr>req_user = ''bob'', req_password = ''static'', req_otp = []\<rparr> demo_hashed =
     (SuccessToken ''bob'', sv') \<and> (\<exists>a sv''. Auth demo_lib second ''bob'' sv' = (Inr a, sv'')) \<and>
     (\<exists>e sv''. Auth demo_lib second ''bob'' (snd (LogOut ''bob'' sv')) = (Inl e, sv''))"
proof -
  have ok: "sv_ok demo_hashed"
    by (simp add: sv_ok_def table_ok_def memory_ok_def demo_hashed_def demo_server_def demo_user_def demo_clean stored_def)
  obtain sv' where run: "loginHash demo_lib 0 [] ''::1'' \<lparr>req_user = ''bob'', req_password = ''static'', req_otp = []\<rparr>
      demo_hashed = (SuccessToken ''bob'', sv')"
    using demo_login by blast
  have jwt: "jwt_parse demo_lib second ''bob'' = JwtToken c True" if "jwt_sign demo_lib c = Some ''bob''" for c
    using that by (simp add: demo_lib_def demo_claim_def split: if_splits)
  have "\<not> udown (users demo_hashed)" "''bob'' \<noteq> ([] :: string)" "''bob'' \<noteq> token_setting (signs demo_hashed)"
    by (simp_all add: demo_hashed_def demo_server_def)
  from session_opens [OF ok run jwt this] run show ?thesis by blast
qed

end
