(* ===== verification/Objs.thy ===== *)
theory Objs
  imports Prelude "HOL-Library.Word" "HOL-Library.Multiset"
begin

text \<open>
  \<open>internal/model/obj.go\<close> and \<open>object.go\<close>: the objects of a listing, their wrappers, their
  sorting and the merging of listings.  The wrappers embed the interface \<open>Obj\<close>, so a method a
  wrapper does not define is the method of the wrapped object; the loops that unwrap end at the
  first type with the method asked for.  \<open>sort.Slice\<close> is a parameter with the documented law;
  natural order and regular expressions come from packages and are parameters too.
\<close>

section \<open>Objects\<close>

type_synonym mask = "8 word"

text \<open>Times are nanoseconds since the zero time.\<close>

record object =
  ID :: string
  Path :: string
  Name :: string
  Size :: int
  Modified :: int
  Ctime :: int
  IsFolder :: bool
  HashInfo :: "(string \<times> string) list"
  Mask :: mask

datatype Obj =
    Object object
  | ObjThumb object string
  | ObjectURL object string
  | ObjThumbURL object string string
  | ObjectProvider object string
  | ObjWrapName string Obj
  | ObjWrapMask Obj mask
  | ObjStorageDetails Obj "(int \<times> int) option"

fun base :: "Obj \<Rightarrow> object" where
  "base (Object x) = x"
| "base (ObjThumb x _) = x"
| "base (ObjectURL x _) = x"
| "base (ObjThumbURL x _ _) = x"
| "base (ObjectProvider x _) = x"
| "base (ObjWrapName _ obj) = base obj"
| "base (ObjWrapMask obj _) = base obj"
| "base (ObjStorageDetails obj _) = base obj"

fun GetName :: "Obj \<Rightarrow> string" where
  "GetName (ObjWrapName n _) = n"
| "GetName (ObjWrapMask obj _) = GetName obj"
| "GetName (ObjStorageDetails obj _) = GetName obj"
| "GetName (Object x) = Name x"
| "GetName (ObjThumb x _) = Name x"
| "GetName (ObjectURL x _) = Name x"
| "GetName (ObjThumbURL x _ _) = Name x"
| "GetName (ObjectProvider x _) = Name x"

definition GetSize :: "Obj \<Rightarrow> int" where
  "GetSize obj = Size (base obj)"

definition ModTime :: "Obj \<Rightarrow> int" where
  "ModTime obj = Modified (base obj)"

definition CreateTime :: "Obj \<Rightarrow> int" where
  "CreateTime obj = (if Ctime (base obj) = 0 then Modified (base obj) else Ctime (base obj))"

definition IsDir :: "Obj \<Rightarrow> bool" where
  "IsDir obj = IsFolder (base obj)"

definition GetID :: "Obj \<Rightarrow> string" where
  "GetID obj = ID (base obj)"

definition GetPath :: "Obj \<Rightarrow> string" where
  "GetPath obj = Path (base obj)"

section \<open>Wrappers\<close>

text \<open>\<open>strings.ReplaceAll\<close>; an empty old string stands before and after every UTF-8 sequence.  The
  character table is a Go map, here the list of its entries in the order of one iteration.\<close>

definition continues :: "string \<Rightarrow> bool" where
  "continues s = (case s of [] \<Rightarrow> False | c # _ \<Rightarrow> 128 \<le> byte c \<and> byte c < 192)"

fun replace_at_runes :: "string \<Rightarrow> string \<Rightarrow> string" where
  "replace_at_runes new [] = []"
| "replace_at_runes new (c # s) = c # (if continues s then [] else new) @ replace_at_runes new s"

function replace_from :: "string \<Rightarrow> string \<Rightarrow> string \<Rightarrow> string" where
  "replace_from old new [] = []"
| "replace_from old new (c # s) =
     (if old \<noteq> [] \<and> has_prefix (c # s) old then new @ replace_from old new (drop (length old) (c # s))
      else c # replace_from old new s)"
  by pat_completeness auto

termination by (relation "measure (\<lambda>(_, _, s). length s)") (auto simp: Suc_le_eq)

definition ReplaceAll :: "string \<Rightarrow> string \<Rightarrow> string \<Rightarrow> string" where
  "ReplaceAll s old new = (if old = [] then new @ replace_at_runes new s else replace_from old new s)"

type_synonym char_map = "(string \<times> string) list"

definition MappingName :: "char_map \<Rightarrow> string \<Rightarrow> string" where
  "MappingName table name = foldl (\<lambda>name (k, v). ReplaceAll name k v) name table"

definition WrapObjName :: "char_map \<Rightarrow> Obj \<Rightarrow> Obj" where
  "WrapObjName table obj = ObjWrapName (MappingName table (GetName obj)) obj"

definition WrapObjsName :: "char_map \<Rightarrow> Obj list \<Rightarrow> Obj list" where
  "WrapObjsName table objs = map (\<lambda>obj. ObjWrapName (MappingName table (GetName obj)) obj) objs"

fun UnwrapObjName :: "Obj \<Rightarrow> Obj" where
  "UnwrapObjName (ObjWrapName _ obj) = obj"
| "UnwrapObjName obj = obj"

fun GetThumb :: "Obj \<Rightarrow> string option" where
  "GetThumb (ObjThumb _ t) = Some t"
| "GetThumb (ObjThumbURL _ t _) = Some t"
| "GetThumb (ObjWrapName _ obj) = GetThumb obj"
| "GetThumb (ObjWrapMask obj _) = GetThumb obj"
| "GetThumb (ObjStorageDetails obj _) = GetThumb obj"
| "GetThumb _ = None"

fun GetUrl :: "Obj \<Rightarrow> string option" where
  "GetUrl (ObjectURL _ u) = Some u"
| "GetUrl (ObjThumbURL _ _ u) = Some u"
| "GetUrl (ObjWrapName _ obj) = GetUrl obj"
| "GetUrl (ObjWrapMask obj _) = GetUrl obj"
| "GetUrl (ObjStorageDetails obj _) = GetUrl obj"
| "GetUrl _ = None"

fun GetProvider :: "Obj \<Rightarrow> string \<times> bool" where
  "GetProvider (ObjectProvider _ p) = (p, True)"
| "GetProvider (ObjWrapName _ obj) = GetProvider obj"
| "GetProvider (ObjWrapMask obj _) = GetProvider obj"
| "GetProvider (ObjStorageDetails obj _) = GetProvider obj"
| "GetProvider _ = (''unknown'', False)"

fun GetStorageDetails :: "Obj \<Rightarrow> (int \<times> int) option \<times> bool" where
  "GetStorageDetails (ObjStorageDetails _ d) = (d, True)"
| "GetStorageDetails (ObjWrapName _ obj) = GetStorageDetails obj"
| "GetStorageDetails (ObjWrapMask obj _) = GetStorageDetails obj"
| "GetStorageDetails _ = (None, False)"

definition Virtual :: mask where "Virtual = 1"
definition NoRename :: mask where "NoRename = 2"
definition NoRemove :: mask where "NoRemove = 4"
definition NoMove :: mask where "NoMove = 8"
definition NoCopy :: mask where "NoCopy = 16"
definition NoWrite :: mask where "NoWrite = 32"
definition Temp :: mask where "Temp = 64"
definition Locked :: mask where "Locked = or (or NoRename NoRemove) NoMove"
definition ReadOnly :: mask where "ReadOnly = or Locked NoWrite"

fun GetObjMask :: "Obj \<Rightarrow> mask" where
  "GetObjMask (ObjWrapMask _ m) = m"
| "GetObjMask (ObjWrapName _ obj) = GetObjMask obj"
| "GetObjMask (ObjStorageDetails obj _) = GetObjMask obj"
| "GetObjMask (Object x) = Mask x"
| "GetObjMask (ObjThumb x _) = Mask x"
| "GetObjMask (ObjectURL x _) = Mask x"
| "GetObjMask (ObjThumbURL x _ _) = Mask x"
| "GetObjMask (ObjectProvider x _) = Mask x"

definition ObjHasMask :: "Obj \<Rightarrow> mask \<Rightarrow> bool" where
  "ObjHasMask obj m \<longleftrightarrow> and (GetObjMask obj) m \<noteq> 0"

lemmas mask_defs = Virtual_def NoRename_def NoRemove_def NoMove_def NoCopy_def NoWrite_def Temp_def Locked_def ReadOnly_def

lemma base_WrapObjName [simp]: "base (WrapObjName table obj) = base obj"
  by (simp add: WrapObjName_def)

lemma IsDir_simps [simp]: "IsDir (ObjWrapName n obj) = IsDir obj" "IsDir (ObjWrapMask obj m) = IsDir obj"
  "IsDir (WrapObjName table obj) = IsDir obj"
  by (simp_all add: IsDir_def)

lemma Unwrap_Wrap [simp]: "UnwrapObjName (WrapObjName table obj) = obj"
  by (simp add: WrapObjName_def)

section \<open>Sorting\<close>

text \<open>\<open>sort.Slice\<close> permutes the slice and, for a strict weak order, leaves it in order.  Equal
  elements may end up in any order.\<close>

definition weak_order :: "('a \<Rightarrow> 'a \<Rightarrow> bool) \<Rightarrow> bool" where
  "weak_order lt \<longleftrightarrow> (\<forall>x. \<not> lt x x) \<and> (\<forall>x y z. lt x y \<longrightarrow> lt y z \<longrightarrow> lt x z) \<and>
     (\<forall>x y z. lt x z \<longrightarrow> lt x y \<or> lt y z)"

definition sort_slice :: "(('a \<Rightarrow> 'a \<Rightarrow> bool) \<Rightarrow> 'a list \<Rightarrow> 'a list) \<Rightarrow> bool" where
  "sort_slice Slice \<longleftrightarrow> (\<forall>lt xs. mset (Slice lt xs) = mset xs \<and>
     (weak_order lt \<longrightarrow> sorted_wrt (\<lambda>x y. \<not> lt y x) (Slice lt xs)))"

text \<open>\<open>sort.SliceStable\<close>, which is determined by its law; here by insertion.\<close>

fun insert_stable :: "('a \<Rightarrow> 'a \<Rightarrow> bool) \<Rightarrow> 'a \<Rightarrow> 'a list \<Rightarrow> 'a list" where
  "insert_stable lt x [] = [x]"
| "insert_stable lt x (y # ys) = (if lt y x then y # insert_stable lt x ys else x # y # ys)"

definition SliceStable :: "('a \<Rightarrow> 'a \<Rightarrow> bool) \<Rightarrow> 'a list \<Rightarrow> 'a list" where
  "SliceStable lt xs = foldr (insert_stable lt) xs []"

definition files_less :: "(string \<Rightarrow> string \<Rightarrow> bool) \<Rightarrow> string \<Rightarrow> string \<Rightarrow> Obj \<Rightarrow> Obj \<Rightarrow> bool" where
  "files_less natural_less orderBy orderDirection x y =
     (if orderBy = ''name'' then
        let c = natural_less (GetName x) (GetName y) in if orderDirection = ''desc'' then \<not> c else c
      else if orderBy = ''size'' then
        if orderDirection = ''desc'' then GetSize y \<le> GetSize x else GetSize x \<le> GetSize y
      else if orderBy = ''modified'' then
        if orderDirection = ''desc'' then ModTime y < ModTime x else ModTime x < ModTime y
      else False)"

definition SortFiles :: "((Obj \<Rightarrow> Obj \<Rightarrow> bool) \<Rightarrow> Obj list \<Rightarrow> Obj list) \<Rightarrow> (string \<Rightarrow> string \<Rightarrow> bool) \<Rightarrow>
    string \<Rightarrow> string \<Rightarrow> Obj list \<Rightarrow> Obj list" where
  "SortFiles Slice natural_less orderBy orderDirection objs =
     (if orderBy = [] then objs else Slice (files_less natural_less orderBy orderDirection) objs)"

definition folder_less :: "bool \<Rightarrow> Obj \<Rightarrow> Obj \<Rightarrow> bool" where
  "folder_less front x y =
     (if IsDir x \<or> IsDir y then
        if \<not> IsDir x then \<not> front else if \<not> IsDir y then front else False
      else False)"

definition ExtractFolder :: "string \<Rightarrow> Obj list \<Rightarrow> Obj list" where
  "ExtractFolder extractFolder objs =
     (if extractFolder = [] then objs
      else SliceStable (folder_less (extractFolder = ''front'')) objs)"

section \<open>Merging\<close>

text \<open>The names already seen and the patterns of hidden names.\<close>

record ObjMerge =
  regs :: "string list"
  seen :: "string set"

definition NewObjMerge :: ObjMerge where
  "NewObjMerge = \<lparr>regs = [], seen = {}\<rparr>"

definition clickObj :: "(string \<Rightarrow> string \<Rightarrow> bool) \<Rightarrow> ObjMerge \<Rightarrow> Obj \<Rightarrow> bool \<times> ObjMerge" where
  "clickObj matches om obj =
     (if list_ex (\<lambda>reg. matches reg (GetName obj)) (regs om) then (False, om)
      else (GetName obj \<notin> seen om, om\<lparr>seen := insert (GetName obj) (seen om)\<rparr>))"

fun insertObjs :: "(string \<Rightarrow> string \<Rightarrow> bool) \<Rightarrow> ObjMerge \<Rightarrow> Obj list \<Rightarrow> Obj list \<Rightarrow> Obj list \<times> ObjMerge" where
  "insertObjs matches om objs [] = (objs, om)"
| "insertObjs matches om objs (obj # rest) =
     (case clickObj matches om obj of
        (True, om) \<Rightarrow> insertObjs matches om (objs @ [obj]) rest
      | (False, om) \<Rightarrow> insertObjs matches om objs rest)"

definition Merge :: "(string \<Rightarrow> string \<Rightarrow> bool) \<Rightarrow> ObjMerge \<Rightarrow> Obj list \<Rightarrow> Obj list \<Rightarrow> Obj list \<times> ObjMerge" where
  "Merge matches om objs objs' =
     (let (newObjs, om) = insertObjs matches om [] objs in insertObjs matches om newObjs objs')"

definition Reset :: "ObjMerge \<Rightarrow> ObjMerge" where
  "Reset om = om\<lparr>seen := {}\<rparr>"

text \<open>A pattern that does not compile panics; \<open>compiles\<close> says which do.\<close>

definition InitHideReg :: "(string \<Rightarrow> bool) \<Rightarrow> string \<Rightarrow> ObjMerge \<Rightarrow> ObjMerge go" where
  "InitHideReg compiles hides om =
     (let rs = split_on (CHR 0x0A) hides
      in if list_all compiles rs then Return (om\<lparr>regs := rs\<rparr>) else Panic)"

section \<open>Properties\<close>

lemma mset_insert_stable: "mset (insert_stable lt x ys) = add_mset x (mset ys)"
  by (induction ys) auto

lemma mset_SliceStable: "mset (SliceStable lt xs) = mset xs"
  by (induction xs) (simp_all add: SliceStable_def mset_insert_stable)

lemma insert_stable_front:
  "\<forall>y \<in> set ys. \<not> lt y x \<Longrightarrow> insert_stable lt x ys = x # ys"
  by (cases ys) auto

lemma insert_stable_skip:
  "\<forall>y \<in> set ys. lt y x \<Longrightarrow> insert_stable lt x (ys @ zs) = ys @ insert_stable lt x zs"
  by (induction ys) auto

text \<open>Extracting folders is the stable partition into folders and files: folders first for
  \<open>front\<close> and last for any other setting, in both parts in the order they had.\<close>

theorem ExtractFolder_partition:
  "ExtractFolder mode objs =
    (if mode = [] then objs
     else if mode = ''front'' then filter IsDir objs @ filter (\<lambda>obj. \<not> IsDir obj) objs
     else filter (\<lambda>obj. \<not> IsDir obj) objs @ filter IsDir objs)"
proof -
  have "SliceStable (folder_less True) objs = filter IsDir objs @ filter (\<lambda>obj. \<not> IsDir obj) objs"
  proof (induction objs)
    case (Cons x objs)
    then show ?case
      by (cases "IsDir x") (auto simp: SliceStable_def folder_less_def insert_stable_front insert_stable_skip)
  qed (simp add: SliceStable_def)
  moreover have "SliceStable (folder_less False) objs = filter (\<lambda>obj. \<not> IsDir obj) objs @ filter IsDir objs"
  proof (induction objs)
    case (Cons x objs)
    then show ?case
      by (cases "IsDir x") (auto simp: SliceStable_def folder_less_def insert_stable_front insert_stable_skip)
  qed (simp add: SliceStable_def)
  ultimately show ?thesis by (simp add: ExtractFolder_def)
qed

text \<open>Only some of the comparisons are strict weak orders.\<close>

lemma files_less_modified: "weak_order (files_less nat_lt ''modified'' dir)"
  by (auto simp: weak_order_def files_less_def)

lemma files_less_name:
  assumes "weak_order nat_lt" and "dir \<noteq> ''desc''"
  shows "weak_order (files_less nat_lt ''name'' dir)"
  using assms unfolding weak_order_def files_less_def Let_def by simp

text \<open>Sorting a listing only reorders it, and sorting by name in ascending order or by time in
  either order leaves it in that order, for every sort that keeps the contract of \<open>sort.Slice\<close>.\<close>

theorem SortFiles_sorts:
  assumes "sort_slice Slice" and "weak_order natural_lt"
  shows "mset (SortFiles Slice natural_lt by_what dir objs) = mset objs \<and>
    (by_what = ''modified'' \<or> by_what = ''name'' \<and> dir \<noteq> ''desc'' \<longrightarrow>
       sorted_wrt (\<lambda>x y. \<not> files_less natural_lt by_what dir y x) (SortFiles Slice natural_lt by_what dir objs))"
  using assms files_less_modified files_less_name [OF assms(2)]
  unfolding SortFiles_def sort_slice_def by (auto split: if_split)

text \<open>The comparisons for sorting by size, and for sorting by name in descending order, say that
  an object comes before itself, so they are no strict weak orders and \<open>sort.Slice\<close> promises
  nothing about the order of the result.\<close>

theorem SortFiles_not_strict:
  assumes "weak_order natural_lt"
  shows "\<not> weak_order (files_less natural_lt ''size'' dir) \<and> \<not> weak_order (files_less natural_lt ''name'' ''desc'')"
  using assms by (auto simp: weak_order_def files_less_def Let_def)

lemma insort_sort_slice: "sort_slice SliceStable"
proof -
  have "sorted_wrt (\<lambda>x y. \<not> lt y x) (SliceStable lt xs)" if w: "weak_order lt" for lt :: "'a \<Rightarrow> 'a \<Rightarrow> bool" and xs
  proof -
    have ins: "sorted_wrt (\<lambda>x y. \<not> lt y x) (insert_stable lt x ys)" if "sorted_wrt (\<lambda>x y. \<not> lt y x) ys" for x ys
      using that
    proof (induction ys)
      case (Cons y ys)
      have set: "set (insert_stable lt x ys) = insert x (set ys)"
        by (metis mset_insert_stable set_mset_add_mset_insert set_mset_mset)
      have tr: "\<not> lt a x" if "\<not> lt y x" "\<not> lt a y" for a using that w unfolding weak_order_def by blast
      have as: "lt y x \<Longrightarrow> \<not> lt x y" using w unfolding weak_order_def by blast
      show ?case using Cons tr as by (auto simp: set)
    qed simp
    show ?thesis by (induction xs) (simp_all add: SliceStable_def ins)
  qed
  then show ?thesis by (auto simp: sort_slice_def mset_SliceStable)
qed

definition demo_obj :: "string \<Rightarrow> bool \<Rightarrow> int \<Rightarrow> Obj" where
  "demo_obj n d t = Object \<lparr>ID = [], Path = [], Name = n, Size = 0, Modified = t, Ctime = 0, IsFolder = d,
     HashInfo = [], Mask = 0\<rparr>"

theorem SortFiles_sorts_witness:
  "mset (SortFiles SliceStable (\<lambda>a b. length a < length b) ''modified'' ''desc'' [demo_obj ''a'' False 1, demo_obj ''b'' True 2]) =
   mset [demo_obj ''a'' False 1, demo_obj ''b'' True 2]"
  by (rule conjunct1 [OF SortFiles_sorts [OF insort_sort_slice]]) (auto simp: weak_order_def)

theorem SortFiles_not_strict_witness: "\<not> weak_order (files_less (\<lambda>a b. length a < length b) ''size'' [])"
  by (rule conjunct1 [OF SortFiles_not_strict]) (auto simp: weak_order_def)

section \<open>Merged listings\<close>

lemma insertObjs_app: "insertObjs m om acc objs = (acc @ fst (insertObjs m om [] objs), snd (insertObjs m om [] objs))"
proof (induction objs arbitrary: om acc)
  case (Cons x objs)
  show ?case
  proof (cases "clickObj m om x")
    case (Pair b om')
    then show ?thesis by (cases b) (simp_all add: Cons [of om' "acc @ [x]"] Cons [of om' "[x]"] Cons [of om' acc])
  qed
qed simp

text \<open>The first object of every name, but none whose name is in \<open>S\<close>.\<close>

fun first_named :: "string set \<Rightarrow> Obj list \<Rightarrow> Obj list" where
  "first_named S [] = []"
| "first_named S (x # xs) =
     (if GetName x \<in> S then first_named S xs else x # first_named (insert (GetName x) S) xs)"

definition visible :: "(string \<Rightarrow> string \<Rightarrow> bool) \<Rightarrow> ObjMerge \<Rightarrow> Obj \<Rightarrow> bool" where
  "visible m om obj \<longleftrightarrow> \<not> list_ex (\<lambda>reg. m reg (GetName obj)) (regs om)"

lemma insertObjs_first:
  "insertObjs m om [] objs = (first_named (seen om) (filter (visible m om) objs),
     om\<lparr>seen := seen om \<union> GetName ` set (filter (visible m om) objs)\<rparr>)"
proof (induction objs arbitrary: om)
  case (Cons x objs)
  let ?om = "om\<lparr>seen := insert (GetName x) (seen om)\<rparr>"
  have v: "visible m ?om = visible m om" by (simp add: visible_def fun_eq_iff)
  show ?case
  proof (cases "visible m om x")
    case True
    then have "clickObj m om x = (GetName x \<notin> seen om, ?om)" by (simp add: visible_def clickObj_def)
    with Cons [of ?om] True v show ?thesis
      by (cases "GetName x \<in> seen om") (simp_all add: insert_absorb insertObjs_app [of m ?om "[x]"])
  next
    case False
    then have "clickObj m om x = (False, om)" by (simp add: visible_def clickObj_def)
    with Cons [of om] False show ?thesis by simp
  qed
qed simp

lemma first_named_append:
  "first_named S (xs @ ys) = first_named S xs @ first_named (S \<union> GetName ` set xs) ys"
  by (induction xs arbitrary: S) (simp_all add: insert_absorb)

lemma first_named_names:
  "distinct (map GetName (first_named S xs)) \<and> GetName ` set (first_named S xs) = GetName ` set xs - S"
  by (induction xs arbitrary: S) auto

text \<open>Merging two listings gives the objects of both in their order, without the hidden names, and
  of every name the first one only, which hides storage entries behind the files of a directory.\<close>

theorem Merge_first:
  "fst (Merge m om objs objs') = first_named (seen om) (filter (visible m om) (objs @ objs')) \<and>
   distinct (map GetName (fst (Merge m om objs objs'))) \<and>
   GetName ` set (fst (Merge m om objs objs')) = GetName ` set (filter (visible m om) (objs @ objs')) - seen om"
proof -
  let ?om = "om\<lparr>seen := seen om \<union> GetName ` set (filter (visible m om) objs)\<rparr>"
  have v: "visible m ?om = visible m om" by (simp add: visible_def fun_eq_iff)
  have "fst (Merge m om objs objs') = first_named (seen om) (filter (visible m om) (objs @ objs'))"
    by (simp add: Merge_def insertObjs_first insertObjs_app [of m ?om "first_named S xs" for S xs]
        first_named_append v del: set_filter)
  with first_named_names show ?thesis by metis
qed

end
