(* ===== verification/Drivers.thy ===== *)
theory Drivers
  imports Paths Objs
begin

text \<open>
  \<open>internal/model/storage.go\<close> and \<open>internal/driver/config.go\<close>: the row of a storage, the
  configuration of its driver, and a driver as the two together.  What a driver does with its
  files is a parameter of the theories that call it.
\<close>

record Storage =
  sid :: nat
  MountPath :: string
  Order :: int
  DriverName :: string
  CacheExpiration :: int
  CustomCachePolicies :: string
  Status :: string
  Addition :: string
  Remark :: string
  SModified :: int
  SDisabled :: bool
  DisableIndex :: bool
  EnableSign :: bool
  OrderBy :: string
  OrderDirection :: string
  ExtractMode :: string
  WebProxy :: bool
  WebdavPolicy :: string
  ProxyRange :: bool
  DownProxyURL :: string
  DisableProxySign :: bool

definition SetStatus :: "string \<Rightarrow> Storage \<Rightarrow> Storage" where
  "SetStatus status s = s\<lparr>Status := status\<rparr>"

definition Webdav302 :: "Storage \<Rightarrow> bool" where
  "Webdav302 s \<longleftrightarrow> WebdavPolicy s = ''302_redirect''"

definition WebdavProxyURL :: "Storage \<Rightarrow> bool" where
  "WebdavProxyURL s \<longleftrightarrow> WebdavPolicy s = ''use_proxy_url''"

text \<open>Total and used space; the difference wraps around.\<close>

definition FreeSpace :: "int \<times> int \<Rightarrow> int" where
  "FreeSpace d = i64 (fst d - snd d)"

record Config =
  CName :: string
  LocalSort :: bool
  OnlyProxy :: bool
  NoCache :: bool
  NoUpload :: bool
  NeedMs :: bool
  DefaultRoot :: string
  CheckStatus :: bool
  Alert :: string
  NoOverwriteUpload :: bool
  ProxyRangeOption :: bool
  NoLinkURL :: bool
  LinkCacheMode :: int
  OnlyIndices :: bool
  PreferProxy :: bool

definition MustProxy :: "Config \<Rightarrow> bool" where
  "MustProxy c \<longleftrightarrow> OnlyProxy c \<or> NoLinkURL c"

definition DefaultProxy :: "Config \<Rightarrow> bool" where
  "DefaultProxy c \<longleftrightarrow> PreferProxy c"

record Driver =
  config :: Config
  storage :: Storage

definition WORK :: string where
  "WORK = ''work''"

definition ShouldProxy :: "(string \<Rightarrow> string) \<Rightarrow> string list \<Rightarrow> Driver \<Rightarrow> string \<Rightarrow> bool" where
  "ShouldProxy lower proxy_types d filename \<longleftrightarrow>
     MustProxy (config d) \<or> WebProxy (storage d) \<or> Ext lower filename \<in> set proxy_types"

text \<open>The check that opens the operations of a storage.\<close>

definition not_ready :: "Driver \<Rightarrow> bool" where
  "not_ready d \<longleftrightarrow> CheckStatus (config d) \<and> Status (storage d) \<noteq> WORK"

text \<open>A local storage, for the examples.\<close>

definition demo_storage :: Storage where
  "demo_storage = \<lparr>sid = 1, MountPath = ''/m'', Order = 0, DriverName = ''Local'', CacheExpiration = 30,
     CustomCachePolicies = [], Status = WORK, Addition = [], Remark = [], SModified = 0, SDisabled = False,
     DisableIndex = False, EnableSign = False, OrderBy = ''modified'', OrderDirection = ''asc'', ExtractMode = ''front'',
     WebProxy = False, WebdavPolicy = [], ProxyRange = False, DownProxyURL = [], DisableProxySign = False\<rparr>"

definition demo_driver :: Driver where
  "demo_driver = \<lparr>config = \<lparr>CName = ''Local'', LocalSort = True, OnlyProxy = False, NoCache = False, NoUpload = False,
     NeedMs = False, DefaultRoot = [], CheckStatus = False, Alert = [], NoOverwriteUpload = False, ProxyRangeOption = False, NoLinkURL = False, LinkCacheMode = 0, OnlyIndices = False,
     PreferProxy = False\<rparr>, storage = demo_storage\<rparr>"

end
