(* ===== verification/DirCache.thy ===== *)
theory DirCache
  imports Drivers Caches
begin

text \<open>
  \<open>internal/op/cache.go\<close>: cached listings and the caches of the storages.  A listing keeps its
  objects in the array that the caller which listed the directory also holds (\<open>arr\<close>, of which
  the first \<open>len\<close> elements are the objects), and a sorted copy that is refreshed when the
  dirty flags say so.
\<close>

section \<open>One listing\<close>

record directoryCache =
  arr :: "Obj list"
  len :: nat
  sorted_copy :: "Obj list"
  dirtyFlags :: "8 word"

definition dirtyRemove :: "8 word" where
  "dirtyRemove = 1"

definition dirtyUpdate :: "8 word" where
  "dirtyUpdate = 2"

definition objs :: "directoryCache \<Rightarrow> Obj list" where
  "objs dc = take (len dc) (arr dc)"

definition newDirectoryCache :: "Obj list \<Rightarrow> directoryCache" where
  "newDirectoryCache files = \<lparr>arr = files, len = length files, sorted_copy = files, dirtyFlags = 0\<rparr>"

fun index_of :: "string \<Rightarrow> Obj list \<Rightarrow> nat option" where
  "index_of name [] = None"
| "index_of name (obj # xs) = (if GetName obj = name then Some 0 else map_option Suc (index_of name xs))"

text \<open>\<open>append(objs[:i], objs[i+1:]...)\<close> moves the later objects down in the same array.\<close>

definition RemoveObject :: "string \<Rightarrow> directoryCache \<Rightarrow> directoryCache" where
  "RemoveObject name dc =
     (case index_of name (objs dc) of
        None \<Rightarrow> dc
      | Some i \<Rightarrow> dc\<lparr>arr := take i (objs dc) @ drop (Suc i) (objs dc) @ drop (len dc - 1) (arr dc),
          len := len dc - 1, dirtyFlags := or (dirtyFlags dc) dirtyRemove\<rparr>)"

text \<open>\<open>append\<close> of one object reuses the array while it has room.\<close>

definition append_obj :: "Obj \<Rightarrow> directoryCache \<Rightarrow> directoryCache" where
  "append_obj newObj dc =
     dc\<lparr>arr := (if len dc < length (arr dc) then (arr dc)[len dc := newObj] else objs dc @ [newObj]),
        len := Suc (len dc)\<rparr>"

definition UpdateObject :: "string \<Rightarrow> Obj \<Rightarrow> directoryCache \<Rightarrow> directoryCache" where
  "UpdateObject oldName newObj dc =
     (case (if oldName \<noteq> [] then index_of oldName (objs dc) else None) of
        Some i \<Rightarrow> dc\<lparr>arr := (arr dc)[i := newObj], dirtyFlags := or (dirtyFlags dc) dirtyUpdate\<rparr>
      | None \<Rightarrow> (append_obj newObj dc)\<lparr>dirtyFlags := or (dirtyFlags dc) dirtyUpdate\<rparr>)"

text \<open>What orders a listing: the sort and the natural order of the libraries.\<close>

record orders =
  Slice :: "(Obj \<Rightarrow> Obj \<Rightarrow> bool) \<Rightarrow> Obj list \<Rightarrow> Obj list"
  natural_Less :: "string \<Rightarrow> string \<Rightarrow> bool"

definition arrange :: "orders \<Rightarrow> Driver \<Rightarrow> Obj list \<Rightarrow> Obj list" where
  "arrange os d files =
     ExtractFolder (ExtractMode (storage d))
       (if LocalSort (config d)
        then SortFiles (Slice os) (natural_Less os) (OrderBy (storage d)) (OrderDirection (storage d)) files
        else files)"

definition GetSortedObjects :: "orders \<Rightarrow> Driver \<Rightarrow> directoryCache \<Rightarrow> Obj list \<times> directoryCache" where
  "GetSortedObjects os d dc =
     (if dirtyFlags dc = 0 then (sorted_copy dc, dc)
      else
        let s = (if and (dirtyFlags dc) dirtyUpdate \<noteq> 0 then arrange os d (objs dc) else objs dc)
        in (s, dc\<lparr>sorted_copy := s, dirtyFlags := 0\<rparr>))"

section \<open>The caches\<close>

text \<open>The links are of any type \<open>'l\<close>, with an expiry of type \<open>'e\<close>; the details are total and used
  space.\<close>

record ('l, 'e) CacheManager =
  dirCache :: "(directoryCache, int) KeyedCache"
  linkCache :: "('l, 'e) TypedCache"
  detailCache :: "(int \<times> int, int) KeyedCache"

definition Key :: "Driver \<Rightarrow> string \<Rightarrow> string" where
  "Key d path = GetFullPath (MountPath (storage d)) path"

text \<open>The recursion over a cached tree, with the calls still to make as a list: a directory to take
  out, or the links of a file to drop.\<close>

datatype task = Tree string | Links string

definition child_tasks :: "string \<Rightarrow> directoryCache \<Rightarrow> task list" where
  "child_tasks key dc = map (\<lambda>obj. if IsDir obj then Tree (path_join [key, GetName obj])
     else Links (path_join [key, GetName obj])) (objs dc)"

partial_function (option) delete_tasks :: "task list \<Rightarrow> ('l, 'e) CacheManager \<Rightarrow> ('l, 'e) CacheManager option" where
  "delete_tasks ts cm =
     (case ts of
        [] \<Rightarrow> Some cm
      | Links key # ts \<Rightarrow> delete_tasks ts (cm\<lparr>linkCache := DeleteKey key (linkCache cm)\<rparr>)
      | Tree key # ts \<Rightarrow>
          (case Pop key (dirCache cm) of
             (None, c) \<Rightarrow> delete_tasks ts cm
           | (Some dc, c) \<Rightarrow> delete_tasks (child_tasks key dc @ ts) (cm\<lparr>dirCache := c\<rparr>)))"

declare delete_tasks.simps [code]

definition deleteDirectoryTree :: "string \<Rightarrow> ('l, 'e) CacheManager \<Rightarrow> ('l, 'e) CacheManager option" where
  "deleteDirectoryTree key cm = delete_tasks [Tree key] cm"

definition DeleteDirectoryTree :: "Driver \<Rightarrow> string \<Rightarrow> ('l, 'e) CacheManager \<Rightarrow> ('l, 'e) CacheManager option" where
  "DeleteDirectoryTree d dirPath cm =
     (if NoCache (config d) then Some cm else deleteDirectoryTree (Key d dirPath) cm)"

definition DeleteDirectory :: "Driver \<Rightarrow> string \<Rightarrow> ('l, 'e) CacheManager \<Rightarrow> ('l, 'e) CacheManager" where
  "DeleteDirectory d dirPath cm =
     (if NoCache (config d) then cm else cm\<lparr>dirCache := Delete (Key d dirPath) (dirCache cm)\<rparr>)"

definition dir_Get :: "int \<Rightarrow> string \<Rightarrow> ('l, 'e) CacheManager \<Rightarrow> directoryCache option \<times> ('l, 'e) CacheManager" where
  "dir_Get now key cm = (let (r, c) = Get (past now) key (dirCache cm) in (r, cm\<lparr>dirCache := c\<rparr>))"

text \<open>A cached listing that is changed in place; it may have been taken out of the cache meanwhile.\<close>

definition change_dir :: "string \<Rightarrow> (directoryCache \<Rightarrow> directoryCache) \<Rightarrow> ('l, 'e) CacheManager \<Rightarrow> ('l, 'e) CacheManager" where
  "change_dir key f cm =
     cm\<lparr>dirCache := (dirCache cm)(key := map_option (\<lambda>e. e\<lparr>entry_data := f (entry_data e)\<rparr>) (dirCache cm key))\<rparr>"

definition drop_link :: "string \<Rightarrow> ('l, 'e) CacheManager \<Rightarrow> ('l, 'e) CacheManager" where
  "drop_link key cm = cm\<lparr>linkCache := DeleteKey key (linkCache cm)\<rparr>"

definition removeDirectoryObject ::
  "int \<Rightarrow> Driver \<Rightarrow> string \<Rightarrow> Obj \<Rightarrow> ('l, 'e) CacheManager \<Rightarrow> ('l, 'e) CacheManager option" where
  "removeDirectoryObject now d dirPath obj cm =
     (let key = Key d dirPath;
          cm = (if \<not> IsDir obj then drop_link (path_join [key, GetName obj]) cm else cm)
      in if NoCache (config d) then Some cm
         else
           case dir_Get now key cm of
             (None, cm) \<Rightarrow> Some cm
           | (Some dc, cm) \<Rightarrow>
               map_option (change_dir key (RemoveObject (GetName obj)))
                 (if IsDir obj then deleteDirectoryTree (path_join [key, GetName obj]) cm else Some cm))"

definition details_ttl :: "Driver \<Rightarrow> int" where
  "details_ttl d = i64 (60 * 1000000000 * CacheExpiration (storage d))"

definition SetStorageDetails :: "int \<Rightarrow> Driver \<Rightarrow> int \<times> int \<Rightarrow> ('l, 'e) CacheManager \<Rightarrow> ('l, 'e) CacheManager" where
  "SetStorageDetails now d details cm =
     (if NoCache (config d) then cm
      else cm\<lparr>detailCache := SetWithTTL now (GetActualMountPath (MountPath (storage d))) details (details_ttl d)
        (detailCache cm)\<rparr>)"

definition Cache_GetStorageDetails :: "int \<Rightarrow> Driver \<Rightarrow> ('l, 'e) CacheManager \<Rightarrow> (int \<times> int) option \<times> ('l, 'e) CacheManager" where
  "Cache_GetStorageDetails now d cm =
     (let (r, c) = Get (past now) (GetActualMountPath (MountPath (storage d))) (detailCache cm)
      in (r, cm\<lparr>detailCache := c\<rparr>))"

definition InvalidateStorageDetails :: "Driver \<Rightarrow> ('l, 'e) CacheManager \<Rightarrow> ('l, 'e) CacheManager" where
  "InvalidateStorageDetails d cm =
     cm\<lparr>detailCache := Delete (GetActualMountPath (MountPath (storage d))) (detailCache cm)\<rparr>"

definition ClearAll :: "('l, 'e) CacheManager \<Rightarrow> ('l, 'e) CacheManager" where
  "ClearAll cm = \<lparr>dirCache = Clear (dirCache cm), linkCache = ClearTyped (linkCache cm), detailCache = Clear (detailCache cm)\<rparr>"

end
