(* ===== verification/Storages.thy ===== *)
theory Storages
  imports DirCache "HOL-Library.AList" "HOL-Library.List_Lexorder" "HOL-Library.Char_ord"
begin

text \<open>
  \<open>internal/op/storage.go\<close>, \<open>internal/op/path.go\<close> and \<open>internal/db/storage.go\<close>: the storages the
  server has loaded, the rows they come from, the operations that add, change and remove them, and
  the way from a path of the server to a storage and a path inside it.  Strings are compared by
  the library's lexicographic order over byte values, as Go compares them.
\<close>

section \<open>State\<close>

text \<open>The map of loaded storages is the list of its entries in the order of one iteration, which Go
  leaves open.  \<open>hooked\<close> records the calls of the storage hooks, which run on their own.\<close>

record ('l, 'e) registry =
  srows :: "Storage list"
  sdown :: bool
  storagesMap :: "(string \<times> Driver) list"
  balanceMap :: "string \<Rightarrow> nat option"
  listings :: "('l, 'e) CacheManager"
  hooked :: "(string \<times> string) list"

text \<open>What the driver and the JSON decoder do in one operation: the error of decoding the addition,
  whether the driver takes a reference and how it answers, how \<open>Init\<close> and \<open>Drop\<close> end, the addition
  it writes back, and the reflection test for the online API.\<close>

datatype ref_result = RefOk | RefNotSupported | RefError string

datatype init_result = InitOk | InitError string | InitPanic string

record effects =
  unmarshal_error :: "string option"
  is_reference :: bool
  init_reference :: "string \<Rightarrow> ref_result"
  init_outcome :: init_result
  drop_error :: "string option"
  marshal :: "string option"
  online_api :: bool

section \<open>Rows\<close>

definition db_CreateStorage :: "nat \<Rightarrow> Storage \<Rightarrow> ('l, 'e) registry \<Rightarrow> bool \<times> Storage \<times> ('l, 'e) registry" where
  "db_CreateStorage nid s st =
     (let s' = (if sid s = 0 then s\<lparr>sid := nid\<rparr> else s)
      in if sdown st \<or> sid s' \<in> sid ` set (srows st) \<or> MountPath s' \<in> MountPath ` set (srows st)
         then (False, s, st)
         else (True, s', st\<lparr>srows := insort_key sid s' (srows st)\<rparr>))"

text \<open>\<open>Save\<close> writes the whole row, inserts it when no row has its id, and creates a row when the id
  is zero.\<close>

definition put_storage :: "Storage \<Rightarrow> Storage list \<Rightarrow> Storage list" where
  "put_storage s rs = (if sid s \<in> sid ` set rs then map (\<lambda>r. if sid r = sid s then s else r) rs else insort_key sid s rs)"

definition db_UpdateStorage :: "nat \<Rightarrow> Storage \<Rightarrow> ('l, 'e) registry \<Rightarrow> bool \<times> Storage \<times> ('l, 'e) registry" where
  "db_UpdateStorage nid s st =
     (if sid s = 0 then db_CreateStorage nid s st
      else if sdown st \<or> (\<exists>r \<in> set (srows st). sid r \<noteq> sid s \<and> MountPath r = MountPath s) then (False, s, st)
      else (True, s, st\<lparr>srows := put_storage s (srows st)\<rparr>))"

definition db_DeleteStorageById :: "nat \<Rightarrow> ('l, 'e) registry \<Rightarrow> bool \<times> ('l, 'e) registry" where
  "db_DeleteStorageById i st =
     (if sdown st then (False, st) else (True, st\<lparr>srows := filter (\<lambda>r. sid r \<noteq> i) (srows st)\<rparr>))"

text \<open>The rows are kept in the order of their ids; the query takes the id of the struct as its
  condition unless it is zero, and then takes the first row.\<close>

definition db_GetStorageById :: "nat \<Rightarrow> ('l, 'e) registry \<Rightarrow> Storage option" where
  "db_GetStorageById i st = (if sdown st then None else find (\<lambda>r. i = 0 \<or> sid r = i) (srows st))"

definition db_GetStorageByMountPath :: "string \<Rightarrow> ('l, 'e) registry \<Rightarrow> Storage option" where
  "db_GetStorageByMountPath p st = (if sdown st then None else find (\<lambda>r. MountPath r = p) (srows st))"

definition db_GetStorages :: "nat \<Rightarrow> nat \<Rightarrow> ('l, 'e) registry \<Rightarrow> (Storage list \<times> nat) option" where
  "db_GetStorages pageIndex pageSize st =
     (if sdown st then None
      else Some (take pageSize (drop ((pageIndex - 1) * pageSize) (sort_key Order (srows st))), length (srows st)))"

definition db_GetEnabledStorages :: "('l, 'e) registry \<Rightarrow> Storage list option" where
  "db_GetEnabledStorages st =
     (if sdown st then None else Some (filter (\<lambda>r. \<not> SDisabled r) (sort_key Order (srows st))))"

section \<open>The map of storages\<close>

definition store_driver :: "string \<Rightarrow> Driver \<Rightarrow> ('l, 'e) registry \<Rightarrow> ('l, 'e) registry" where
  "store_driver k d st = st\<lparr>storagesMap := AList.update k d (storagesMap st)\<rparr>"

definition drop_driver :: "string \<Rightarrow> ('l, 'e) registry \<Rightarrow> ('l, 'e) registry" where
  "drop_driver k st = st\<lparr>storagesMap := AList.delete k (storagesMap st)\<rparr>"

definition GetAllStorages :: "('l, 'e) registry \<Rightarrow> Driver list" where
  "GetAllStorages st = map snd (storagesMap st)"

definition HasStorage :: "string \<Rightarrow> ('l, 'e) registry \<Rightarrow> bool" where
  "HasStorage mountPath st \<longleftrightarrow> map_of (storagesMap st) (FixAndCleanPath mountPath) \<noteq> None"

definition GetStorageByMountPath :: "string \<Rightarrow> ('l, 'e) registry \<Rightarrow> string + Driver" where
  "GetStorageByMountPath mountPath st =
     (case map_of (storagesMap st) (FixAndCleanPath mountPath) of
        None \<Rightarrow> Inl (''no mount path for an storage is: '' @ FixAndCleanPath mountPath)
      | Some d \<Rightarrow> Inr d)"

definition callStorageHooks :: "string \<Rightarrow> Driver \<Rightarrow> ('l, 'e) registry \<Rightarrow> ('l, 'e) registry" where
  "callStorageHooks typ d st = st\<lparr>hooked := hooked st @ [(typ, MountPath (storage d))]\<rparr>"

section \<open>Loading a driver\<close>

text \<open>The driver's own storage row gets the addition even when the database refuses it.\<close>

definition saveDriverStorage ::
  "effects \<Rightarrow> nat \<Rightarrow> Driver \<Rightarrow> ('l, 'e) registry \<Rightarrow> bool \<times> Driver \<times> ('l, 'e) registry" where
  "saveDriverStorage fx nid d st =
     (case marshal fx of
        None \<Rightarrow> (False, d, st)
      | Some str \<Rightarrow>
          (let (ok, s, st) = db_UpdateStorage nid ((storage d)\<lparr>Addition := str\<rparr>) st
           in (ok, d\<lparr>storage := s\<rparr>, st)))"

definition MustSaveDriverStorage ::
  "effects \<Rightarrow> nat \<Rightarrow> Driver \<Rightarrow> ('l, 'e) registry \<Rightarrow> Driver \<times> ('l, 'e) registry" where
  "MustSaveDriverStorage fx nid d st = snd (saveDriverStorage fx nid d st)"

text \<open>The mount path a remark \<open>ref:/path\<close> names, up to the end of the line.\<close>

definition ref_path :: "string \<Rightarrow> string" where
  "ref_path remark =
     (case index_byte remark (CHR 0x0A) of
        Some i \<Rightarrow> if 0 < i then drop 4 (take i remark) else drop 4 remark
      | None \<Rightarrow> drop 4 remark)"

definition setup_error :: "effects \<Rightarrow> Driver \<Rightarrow> ('l, 'e) registry \<Rightarrow> string option" where
  "setup_error fx d st =
     (case unmarshal_error fx of
        Some e \<Rightarrow> Some e
      | None \<Rightarrow>
          if is_reference fx \<and> has_prefix (Remark (storage d)) ''ref:/'' then
            (case GetStorageByMountPath (ref_path (Remark (storage d))) st of
               Inl e \<Rightarrow> Some (''ref: '' @ e)
             | Inr r \<Rightarrow>
                 (case init_reference fx (MountPath (storage r)) of
                    RefOk \<Rightarrow> None
                  | RefNotSupported \<Rightarrow> Some (''ref: storage is not '' @ CName (config d))
                  | RefError e \<Rightarrow> Some e))
          else None)"

definition status_text :: "(string \<Rightarrow> string) \<Rightarrow> effects \<Rightarrow> string \<Rightarrow> string" where
  "status_text sanitize fx e = (if online_api fx then sanitize e else e)"

text \<open>A panic of \<open>Init\<close> is recovered: its text becomes the status, and since the error result is not
  set yet the caller sees success.\<close>

definition initStorage ::
  "(string \<Rightarrow> string) \<Rightarrow> effects \<Rightarrow> nat \<Rightarrow> Storage \<Rightarrow> Driver \<Rightarrow> ('l, 'e) registry \<Rightarrow>
     string option \<times> Driver \<times> ('l, 'e) registry" where
  "initStorage sanitize fx nid s d st =
     (let d = d\<lparr>storage := s\<rparr>;
          err = setup_error fx d st;
          (err, status) =
            (case err of
               Some e \<Rightarrow> (Some (''failed init storage: '' @ e), status_text sanitize fx e)
             | None \<Rightarrow>
                 (case init_outcome fx of
                    InitPanic info \<Rightarrow> (None, info)
                  | InitError e \<Rightarrow> (Some (''failed init storage: '' @ e), status_text sanitize fx e)
                  | InitOk \<Rightarrow> (None, WORK)));
          d = d\<lparr>storage := SetStatus status (storage d)\<rparr>;
          (d, st) = MustSaveDriverStorage fx nid d st
      in (err, d, store_driver (MountPath (storage d)) d st))"

section \<open>The operations\<close>

text \<open>\<open>driverMap\<close> gives the configuration of a registered driver; the drivers register themselves.\<close>

definition GetDriver :: "(string \<Rightarrow> Config option) \<Rightarrow> string \<Rightarrow> string + Config" where
  "GetDriver driverMap name =
     (case driverMap name of None \<Rightarrow> Inl (''no driver named: '' @ name) | Some c \<Rightarrow> Inr c)"

definition new_driver :: "Config \<Rightarrow> Storage \<Rightarrow> Driver" where
  "new_driver c s = \<lparr>config = c, storage = s\<rparr>"

definition CreateStorage ::
  "(string \<Rightarrow> Config option) \<Rightarrow> (string \<Rightarrow> string) \<Rightarrow> effects \<Rightarrow> nat \<Rightarrow> int \<Rightarrow> Storage \<Rightarrow> ('l, 'e) registry \<Rightarrow>
     (nat \<times> string option) \<times> ('l, 'e) registry" where
  "CreateStorage driverMap sanitize fx nid now s st =
     (let s = s\<lparr>SModified := now, MountPath := FixAndCleanPath (MountPath s)\<rparr>
      in case GetDriver driverMap (DriverName s) of
           Inl e \<Rightarrow> ((0, Some (''failed get driver new: '' @ e)), st)
         | Inr c \<Rightarrow>
             (let (ok, s, st) = db_CreateStorage nid s st
              in if \<not> ok then ((sid s, Some ''failed create storage in database''), st)
                 else
                   let (err, d, st) = initStorage sanitize fx nid s (new_driver c s) st;
                       st = callStorageHooks ''add'' d st
                   in ((sid s, map_option (\<lambda>e. ''failed init storage but storage is already created: '' @ e) err), st)))"

definition LoadStorage ::
  "(string \<Rightarrow> Config option) \<Rightarrow> (string \<Rightarrow> string) \<Rightarrow> effects \<Rightarrow> nat \<Rightarrow> Storage \<Rightarrow> ('l, 'e) registry \<Rightarrow>
     string option \<times> ('l, 'e) registry" where
  "LoadStorage driverMap sanitize fx nid s st =
     (let s = s\<lparr>MountPath := FixAndCleanPath (MountPath s)\<rparr>
      in case GetDriver driverMap (DriverName s) of
           Inl e \<Rightarrow> (Some (''failed get driver new: '' @ e), st)
         | Inr c \<Rightarrow>
             (let (err, d, st) = initStorage sanitize fx nid s (new_driver c s) st
              in (err, callStorageHooks ''add'' d st)))"

definition EnableStorage ::
  "(string \<Rightarrow> Config option) \<Rightarrow> (string \<Rightarrow> string) \<Rightarrow> effects \<Rightarrow> nat \<Rightarrow> nat \<Rightarrow> ('l, 'e) registry \<Rightarrow>
     string option \<times> ('l, 'e) registry" where
  "EnableStorage driverMap sanitize fx nid i st =
     (case db_GetStorageById i st of
        None \<Rightarrow> (Some ''failed get storage'', st)
      | Some s \<Rightarrow>
          if \<not> SDisabled s then (Some ''this storage have enabled'', st)
          else
            let (ok, s, st) = db_UpdateStorage nid (s\<lparr>SDisabled := False\<rparr>) st
            in if \<not> ok then (Some ''failed update storage in db'', st)
               else let (err, st) = LoadStorage driverMap sanitize fx nid s st
                    in (map_option (\<lambda>e. ''failed load storage: '' @ e) err, st))"

definition DISABLED :: string where
  "DISABLED = ''disabled''"

definition DisableStorage :: "effects \<Rightarrow> nat \<Rightarrow> nat \<Rightarrow> ('l, 'e) registry \<Rightarrow> string option \<times> ('l, 'e) registry" where
  "DisableStorage fx nid i st =
     (case db_GetStorageById i st of
        None \<Rightarrow> (Some ''failed get storage'', st)
      | Some s \<Rightarrow>
          if SDisabled s then (Some ''this storage have disabled'', st)
          else
            (case GetStorageByMountPath (MountPath s) st of
               Inl e \<Rightarrow> (Some (''failed get storage driver: '' @ e), st)
             | Inr d \<Rightarrow>
                 if drop_error fx \<noteq> None then (Some ''failed drop storage'', st)
                 else
                   let (ok, s, st) = db_UpdateStorage nid (SetStatus DISABLED (s\<lparr>SDisabled := True\<rparr>)) st
                   in if \<not> ok then (Some ''failed update storage in db'', st)
                      else (None, callStorageHooks ''del'' d (drop_driver (MountPath s) st))))"

text \<open>\<open>DeleteDirectoryTree\<close> and \<open>InvalidateStorageDetails\<close> on the driver that was found.\<close>

definition forget_driver :: "Driver \<Rightarrow> ('l, 'e) registry \<Rightarrow> ('l, 'e) registry option" where
  "forget_driver d st =
     map_option (\<lambda>cm. st\<lparr>listings := InvalidateStorageDetails d cm\<rparr>) (DeleteDirectoryTree d ''/'' (listings st))"

text \<open>None when the removal of the cached tree does not end; \<open>Panic\<close> when the driver is nil, with the
  row already written.\<close>

definition UpdateStorage ::
  "(string \<Rightarrow> string) \<Rightarrow> effects \<Rightarrow> nat \<Rightarrow> int \<Rightarrow> Storage \<Rightarrow> ('l, 'e) registry \<Rightarrow>
     (string option go \<times> ('l, 'e) registry) option" where
  "UpdateStorage sanitize fx nid now s st =
     (case db_GetStorageById (sid s) st of
        None \<Rightarrow> Some (Return (Some ''failed get old storage''), st)
      | Some old \<Rightarrow>
          if DriverName old \<noteq> DriverName s then Some (Return (Some ''driver cannot be changed''), st)
          else
            let (ok, s, st) = db_UpdateStorage nid (s\<lparr>SModified := now, MountPath := FixAndCleanPath (MountPath s)\<rparr>) st
            in if \<not> ok then Some (Return (Some ''failed update storage in database''), st)
               else if SDisabled s then Some (Return None, st)
               else
                 (case GetStorageByMountPath (MountPath old) st of
                    Inl e \<Rightarrow>
                      Some (if MountPath old \<noteq> MountPath s then (Panic, drop_driver (MountPath old) st)
                        else (Return (Some (''failed get storage driver: '' @ e)), st))
                  | Inr d \<Rightarrow>
                      map_option
                        (\<lambda>st. if drop_error fx \<noteq> None then (Return (Some ''failed drop storage''), st)
                           else let (err, d, st) = initStorage sanitize fx nid s d st
                                in (Return err, callStorageHooks ''update'' d st))
                        (if MountPath old \<noteq> MountPath s then forget_driver d (drop_driver (MountPath old) st)
                         else Some st)))"

definition DeleteStorageById ::
  "effects \<Rightarrow> nat \<Rightarrow> ('l, 'e) registry \<Rightarrow> (string option \<times> ('l, 'e) registry) option" where
  "DeleteStorageById fx i st =
     (case db_GetStorageById i st of
        None \<Rightarrow> Some (Some ''failed get storage'', st)
      | Some s \<Rightarrow>
          if SDisabled s then
            (let (ok, st) = db_DeleteStorageById i st
             in Some (if ok then None else Some ''failed delete storage in database'', st))
          else
            (case GetStorageByMountPath (MountPath s) st of
               Inl e \<Rightarrow> Some (Some (''failed get storage driver: '' @ e), st)
             | Inr d \<Rightarrow>
                 map_option
                   (\<lambda>st. let (ok, st) = db_DeleteStorageById i (callStorageHooks ''del'' d st)
                      in (if \<not> ok then Some ''failed delete storage in database''
                          else map_option (\<lambda>_. ''failed drop storage'') (drop_error fx), st))
                   (forget_driver d (drop_driver (MountPath s) st))))"

end
