(* ===== verification/Routes.thy ===== *)
theory Routes
  imports Storages
begin

text \<open>
  From a path of the server to the storage that holds it: the longest mount path, the turns of
  balanced storages, the path inside the storage, and the virtual directories that the mount
  points make.
\<close>

section \<open>The storages of a path\<close>

text \<open>One visit of \<open>Range\<close>: the slash count of the longest match so far and the storages that have it.\<close>

definition match_step :: "string \<Rightarrow> string \<times> Driver \<Rightarrow> nat \<times> Driver list \<Rightarrow> nat \<times> Driver list" where
  "match_step path kv acc =
     (let mountPath = GetActualMountPath (fst kv); (cur, ss) = acc
      in if IsSubPath mountPath path then
           let slashCount = count_byte (PathAddSeparatorSuffix mountPath) slash;
               (cur, ss) = (if cur < slashCount then (slashCount, []) else (cur, ss))
           in (cur, if slashCount = cur then ss @ [snd kv] else ss)
         else acc)"

definition mount_less :: "Driver \<Rightarrow> Driver \<Rightarrow> bool" where
  "mount_less x y \<longleftrightarrow> MountPath (storage x) < MountPath (storage y)"

type_synonym slice_sort = "(Driver \<Rightarrow> Driver \<Rightarrow> bool) \<Rightarrow> Driver list \<Rightarrow> Driver list"

definition getStoragesByPath :: "slice_sort \<Rightarrow> string \<Rightarrow> (string \<times> Driver) list \<Rightarrow> Driver list" where
  "getStoragesByPath sortf path storages = sortf mount_less (snd (fold (match_step path) storages (0, [])))"

definition GetBalancedStorage :: "slice_sort \<Rightarrow> string \<Rightarrow> ('l, 'e) registry \<Rightarrow> Driver option \<times> ('l, 'e) registry" where
  "GetBalancedStorage sortf path st =
     (let storages = getStoragesByPath sortf (FixAndCleanPath path) (storagesMap st); storageNum = length storages
      in if storageNum = 0 then (None, st)
         else if storageNum = 1 then (Some (storages ! 0), st)
         else
           let virtualPath = GetActualMountPath (MountPath (storage (storages ! 0)));
               i = (case balanceMap st virtualPath of Some i \<Rightarrow> i | None \<Rightarrow> 0);
               i = (i + 1) mod storageNum
           in (Some (storages ! i), st\<lparr>balanceMap := (balanceMap st)(virtualPath \<mapsto> i)\<rparr>))"

definition GetStorageAndActualPath ::
  "slice_sort \<Rightarrow> string \<Rightarrow> ('l, 'e) registry \<Rightarrow> (string + Driver \<times> string) \<times> ('l, 'e) registry" where
  "GetStorageAndActualPath sortf rawPath st =
     (let rawPath = FixAndCleanPath rawPath; (d, st) = GetBalancedStorage sortf rawPath st
      in case d of
           None \<Rightarrow>
             (Inl (if rawPath = ''/'' then ''storage not found; please add a storage first''
                   else ''storage not found; rawPath: '' @ rawPath), st)
         | Some d \<Rightarrow>
             let mountPath = GetActualMountPath (MountPath (storage d))
             in (Inr (d, FixAndCleanPath (trim_prefix rawPath mountPath)), st))"

section \<open>Paths with an address inside\<close>

definition replace_once :: "string \<Rightarrow> string \<Rightarrow> string \<Rightarrow> string" where
  "replace_once s old new =
     (case index_str s old of None \<Rightarrow> s | Some i \<Rightarrow> take i s @ new @ drop (i + length old) s)"

definition urlTreeSplitLineFormPath :: "string \<Rightarrow> (string \<times> string) go" where
  "urlTreeSplitLineFormPath path =
     (let path = replace_once (replace_once path ''https:/'' ''https://'') ''http:/'' ''http://'';
          res =
            (if contains_str path '':https:/'' \<or> contains_str path '':http:/'' then
               let fPath = fst (cut_byte path (CHR '':'')); pp = fst (path_split fPath)
               in Return (pp, drop (length pp) path)
             else if contains_str path ''/https:/'' \<or> contains_str path ''/http:/'' then
               (case (case index_str path ''/http://'' of None \<Rightarrow> index_str path ''/https://'' | Some i \<Rightarrow> Some i) of
                  None \<Rightarrow> Panic
                | Some i \<Rightarrow> Return (take i path, drop (i + 1) path))
             else Return (path_split path))
      in go_bind res (\<lambda>(pp, file). Return (if pp = [] then ''/'' else pp, file)))"

section \<open>Virtual directories\<close>

definition order_less :: "Driver \<Rightarrow> Driver \<Rightarrow> bool" where
  "order_less x y \<longleftrightarrow>
     (if Order (storage x) = Order (storage y) then MountPath (storage x) < MountPath (storage y)
      else Order (storage x) < Order (storage y))"

text \<open>The files so far, the index of each name, and the callbacks that were started and have not
  finished; each replaces the object at its index.\<close>

record vstate =
  files :: "Obj list"
  seen :: "string \<Rightarrow> nat option"
  pending :: "(nat \<times> Driver) list"

definition run_pending :: "(Driver \<Rightarrow> Obj \<Rightarrow> Obj) \<Rightarrow> vstate \<Rightarrow> vstate" where
  "run_pending callback vs =
     vs\<lparr>files := foldl (\<lambda>fs (i, d). fs[i := callback d (fs ! i)]) (files vs) (pending vs), pending := []\<rparr>"

definition start_callback :: "(Driver \<Rightarrow> Obj \<Rightarrow> Obj) option \<Rightarrow> nat \<Rightarrow> Driver \<Rightarrow> vstate \<Rightarrow> vstate" where
  "start_callback callback i d vs =
     (case callback of None \<Rightarrow> vs | Some _ \<Rightarrow> vs\<lparr>pending := pending vs @ [(i, d)]\<rparr>)"

definition mask_object :: "mask \<Rightarrow> Obj \<Rightarrow> Obj go" where
  "mask_object m obj = (case obj of Object x \<Rightarrow> Return (Object (x\<lparr>Mask := m\<rparr>)) | _ \<Rightarrow> Panic)"

definition virtual_object :: "string \<Rightarrow> int \<Rightarrow> mask \<Rightarrow> Obj" where
  "virtual_object name modified m =
     Object \<lparr>ID = [], Path = [], Name = name, Size = 0, Modified = modified, Ctime = 0, IsFolder = True,
       HashInfo = [], Mask = m\<rparr>"

definition virtual_step ::
  "string \<Rightarrow> string \<Rightarrow> (Driver \<Rightarrow> Obj \<Rightarrow> Obj) option \<Rightarrow> Driver \<Rightarrow> vstate \<Rightarrow> vstate go" where
  "virtual_step pre filterByName callback v vs =
     (let (p, found) = cut_prefix (GetActualMountPath (MountPath (storage v))) pre
      in if \<not> found \<or> p = [] then Return vs
         else
           let (name, _, deeper) = cut_byte p slash
           in if filterByName \<noteq> [] \<and> name \<noteq> filterByName then Return vs
              else
                (case seen vs name of
                   Some idx \<Rightarrow>
                     if deeper then Return vs
                     else go_bind (mask_object (or Locked Virtual) (files vs ! idx))
                       (\<lambda>obj. Return (start_callback callback idx v (vs\<lparr>files := (files vs)[idx := obj]\<rparr>)))
                 | None \<Rightarrow>
                     let idx = length (files vs); m = (if deeper then or ReadOnly Virtual else or Locked Virtual);
                         vs = vs\<lparr>seen := (seen vs)(name \<mapsto> idx),
                           files := files vs @ [virtual_object name (SModified (storage v)) m]\<rparr>
                     in Return (if deeper then vs else start_callback callback idx v vs)))"

text \<open>The schedule says before which storages the callbacks started so far have run; the rest run at
  the end, where the code waits for them.  A callback is taken as one step; the code also leaves
  open that it writes to an array that \<open>append\<close> has meanwhile replaced.\<close>

fun virtual_loop ::
  "string \<Rightarrow> string \<Rightarrow> (Driver \<Rightarrow> Obj \<Rightarrow> Obj) option \<Rightarrow> bool list \<Rightarrow> Driver list \<Rightarrow> vstate \<Rightarrow> vstate go" where
  "virtual_loop pre filterByName callback schedule [] vs =
     Return (case callback of None \<Rightarrow> vs | Some cb \<Rightarrow> run_pending cb vs)"
| "virtual_loop pre filterByName callback schedule (v # storages) vs =
     go_bind
       (virtual_step pre filterByName callback v
         (case (callback, schedule) of (Some cb, True # _) \<Rightarrow> run_pending cb vs | _ \<Rightarrow> vs))
       (virtual_loop pre filterByName callback (tl schedule) storages)"

definition getStorageVirtualFilesByPath ::
  "slice_sort \<Rightarrow> string \<Rightarrow> (Driver \<Rightarrow> Obj \<Rightarrow> Obj) option \<Rightarrow> bool list \<Rightarrow> string \<Rightarrow> (string \<times> Driver) list \<Rightarrow> Obj list go" where
  "getStorageVirtualFilesByPath sortf pre callback schedule filterByName storages =
     (let pre = (if has_suffix pre ''/'' then pre else pre @ ''/'')
      in go_bind (virtual_loop pre filterByName callback schedule (sortf order_less (map snd storages))
           \<lparr>files = [], seen = (\<lambda>_. None), pending = []\<rparr>) (\<lambda>vs. Return (files vs)))"

definition GetStorageVirtualFilesByPath :: "slice_sort \<Rightarrow> string \<Rightarrow> (string \<times> Driver) list \<Rightarrow> Obj list go" where
  "GetStorageVirtualFilesByPath sortf pre storages = getStorageVirtualFilesByPath sortf pre None [] [] storages"

text \<open>\<open>details\<close> is what the goroutine that asks the driver delivers within a second.\<close>

definition details_callback :: "(Driver \<Rightarrow> (int \<times> int) option) \<Rightarrow> Driver \<Rightarrow> Obj \<Rightarrow> Obj" where
  "details_callback details d obj =
     (case obj of ObjStorageDetails _ _ \<Rightarrow> obj | _ \<Rightarrow> ObjStorageDetails obj (details d))"

definition GetStorageVirtualFilesWithDetailsByPath ::
  "slice_sort \<Rightarrow> string \<Rightarrow> (Driver \<Rightarrow> (int \<times> int) option) \<Rightarrow> bool list \<Rightarrow> bool \<Rightarrow> string \<Rightarrow> (string \<times> Driver) list \<Rightarrow> Obj list go" where
  "GetStorageVirtualFilesWithDetailsByPath sortf pre details schedule hideDetails filterByName storages =
     (if hideDetails then getStorageVirtualFilesByPath sortf pre None [] filterByName storages
      else getStorageVirtualFilesByPath sortf pre (Some (details_callback details)) schedule filterByName storages)"

text \<open>The details of one storage: from the cache unless they are to be fetched anew.\<close>

datatype details_error = DetailsNotInit | DetailsNotImplemented | DetailsError string

definition op_GetStorageDetails ::
  "int \<Rightarrow> (string + int \<times> int) option \<Rightarrow> bool \<Rightarrow> Driver \<Rightarrow> ('l, 'e) CacheManager \<Rightarrow>
     (details_error + int \<times> int) \<times> ('l, 'e) CacheManager" where
  "op_GetStorageDetails now fetched refresh d cm =
     (if not_ready d then (Inl DetailsNotInit, cm)
      else
        (case fetched of
           None \<Rightarrow> (Inl DetailsNotImplemented, cm)
         | Some answer \<Rightarrow>
             let (r, cm) = (if refresh then (None, cm) else Cache_GetStorageDetails now d cm)
             in case r of
                  Some v \<Rightarrow> (Inr v, cm)
                | None \<Rightarrow>
                    (case answer of
                       Inl e \<Rightarrow> (Inl (DetailsError e), cm)
                     | Inr v \<Rightarrow> (Inr v, SetStorageDetails now d v cm))))"

end
