(* ===== verification/DirCacheProps.thy ===== *)
theory DirCacheProps
  imports DirCache
begin

text \<open>
  Properties of the cached listings: what a listing returns, what the sharing of its array and the
  dirty flags do, and which entries the removal of a cached tree takes out.
\<close>

section \<open>One listing\<close>

text \<open>The listing as a caller sees it: replacing and removing by name.\<close>

fun remove_named :: "string \<Rightarrow> Obj list \<Rightarrow> Obj list" where
  "remove_named n [] = []"
| "remove_named n (obj # xs) = (if GetName obj = n then xs else obj # remove_named n xs)"

definition put_named :: "string \<Rightarrow> Obj \<Rightarrow> Obj list \<Rightarrow> Obj list" where
  "put_named n newObj xs =
     (case (if n \<noteq> [] then index_of n xs else None) of Some i \<Rightarrow> xs[i := newObj] | None \<Rightarrow> xs @ [newObj])"

lemma index_of_Some: "index_of n xs = Some i \<Longrightarrow> i < length xs \<and> GetName (xs ! i) = n \<and>
    remove_named n xs = take i xs @ drop (Suc i) xs"
  by (induction xs arbitrary: i) (auto split: if_splits)

lemma index_of_None: "index_of n xs = None \<Longrightarrow> remove_named n xs = xs"
  by (induction xs) (auto split: if_splits)

definition dc_ok :: "directoryCache \<Rightarrow> bool" where
  "dc_ok dc \<longleftrightarrow> len dc \<le> length (arr dc) \<and> (dirtyFlags dc = 0 \<longrightarrow> mset (sorted_copy dc) = mset (objs dc))"

lemma flag_set: "or f dirtyRemove \<noteq> 0" "or f dirtyUpdate \<noteq> 0"
proof -
  have ne: "w \<noteq> 0" if "bit w k" for w :: "8 word" and k using that by (cases "w = 0") simp_all
  show "or f dirtyRemove \<noteq> 0" by (rule ne [of _ 0]) (simp add: dirtyRemove_def bit_or_iff)
  show "or f dirtyUpdate \<noteq> 0" by (rule ne [of _ 1]) (simp only: dirtyUpdate_def bit_or_iff bit_2_iff, simp)
qed

lemma new_ok: "dc_ok (newDirectoryCache files) \<and> objs (newDirectoryCache files) = files"
  by (simp add: dc_ok_def newDirectoryCache_def objs_def)

lemma RemoveObject_ok:
  assumes "dc_ok dc"
  shows "dc_ok (RemoveObject n dc) \<and> objs (RemoveObject n dc) = remove_named n (objs dc)"
proof (cases "index_of n (objs dc)")
  case None
  with assms index_of_None show ?thesis by (simp add: RemoveObject_def)
next
  case (Some i)
  note i = index_of_Some [OF this]
  have l: "length (objs dc) = len dc" using assms by (simp add: dc_ok_def objs_def)
  have "length (take i (objs dc) @ drop (Suc i) (objs dc)) = len dc - 1" using i l by simp
  with Some i show ?thesis
    by (auto simp: RemoveObject_def dc_ok_def objs_def [of "dc\<lparr>arr := a, len := k, dirtyFlags := f\<rparr>" for a k f] flag_set)
qed

lemma UpdateObject_ok:
  assumes "dc_ok dc"
  shows "dc_ok (UpdateObject n obj dc) \<and> objs (UpdateObject n obj dc) = put_named n obj (objs dc)"
proof (cases "if n \<noteq> [] then index_of n (objs dc) else None")
  case (Some i)
  then have "index_of n (objs dc) = Some i" by (simp split: if_splits)
  from index_of_Some [OF this] assms Some show ?thesis
    by (auto simp: UpdateObject_def put_named_def dc_ok_def objs_def take_update_swap flag_set)
next
  case None
  have l: "length (objs dc) = len dc" using assms by (simp add: dc_ok_def objs_def)
  have u: "UpdateObject n obj dc = (append_obj obj dc)\<lparr>dirtyFlags := or (dirtyFlags dc) dirtyUpdate\<rparr>"
    by (simp add: UpdateObject_def None)
  have p: "put_named n obj (objs dc) = objs dc @ [obj]" by (simp add: put_named_def None)
  show ?thesis
  proof (cases "len dc < length (arr dc)")
    case True
    then have "take (Suc (len dc)) ((arr dc)[len dc := obj]) = objs dc @ [obj]"
      by (simp add: objs_def take_Suc_conv_app_nth)
    with True show ?thesis unfolding u p by (simp add: append_obj_def dc_ok_def objs_def flag_set)
  next
    case False
    with l show ?thesis unfolding u p
      by (simp add: append_obj_def dc_ok_def objs_def [of "dc\<lparr>arr := a, len := k, dirtyFlags := f\<rparr>" for a k f] flag_set)
  qed
qed

lemma ExtractFolder_mset: "mset (ExtractFolder m xs) = mset xs"
  by (simp add: ExtractFolder_def mset_SliceStable)

lemma arrange_mset: "sort_slice (Slice os) \<Longrightarrow> mset (arrange os d xs) = mset xs"
  by (simp add: arrange_def ExtractFolder_mset SortFiles_def sort_slice_def)

lemma GetSortedObjects_ok:
  assumes "dc_ok dc" and "sort_slice (Slice os)" and "GetSortedObjects os d dc = (s, dc')"
  shows "dc_ok dc' \<and> objs dc' = objs dc \<and> mset s = mset (objs dc)"
  using assms arrange_mset [OF assms(2)]
  by (auto simp: GetSortedObjects_def dc_ok_def objs_def Let_def split: if_splits)

text \<open>Requests on one listing.\<close>

datatype dc_op = RemoveOp string | UpdateOp string Obj | ReadOp

fun dc_run :: "orders \<Rightarrow> Driver \<Rightarrow> dc_op list \<Rightarrow> directoryCache \<Rightarrow> directoryCache" where
  "dc_run os d [] dc = dc"
| "dc_run os d (RemoveOp n # ops) dc = dc_run os d ops (RemoveObject n dc)"
| "dc_run os d (UpdateOp n obj # ops) dc = dc_run os d ops (UpdateObject n obj dc)"
| "dc_run os d (ReadOp # ops) dc = dc_run os d ops (snd (GetSortedObjects os d dc))"

fun list_run :: "dc_op list \<Rightarrow> Obj list \<Rightarrow> Obj list" where
  "list_run [] xs = xs"
| "list_run (RemoveOp n # ops) xs = list_run ops (remove_named n xs)"
| "list_run (UpdateOp n obj # ops) xs = list_run ops (put_named n obj xs)"
| "list_run (ReadOp # ops) xs = list_run ops xs"

lemma dc_run_ok:
  "dc_ok dc \<Longrightarrow> sort_slice (Slice os) \<Longrightarrow> dc_ok (dc_run os d ops dc) \<and> objs (dc_run os d ops dc) = list_run ops (objs dc)"
proof (induction ops arbitrary: dc)
  case (Cons x ops)
  show ?case
  proof (cases x)
    case (RemoveOp n)
    with Cons RemoveObject_ok [OF Cons.prems(1), of n] show ?thesis by simp
  next
    case (UpdateOp n obj)
    with Cons UpdateObject_ok [OF Cons.prems(1), of n obj] show ?thesis by simp
  next
    case ReadOp
    obtain s dc' where g: "GetSortedObjects os d dc = (s, dc')" by fastforce
    with Cons ReadOp GetSortedObjects_ok [OF Cons.prems g] show ?thesis by simp
  qed
qed simp

text \<open>C37: Whatever is removed, replaced, added and read, in any order and with any sharing of the
  array, a cached listing returns exactly the objects of the list on which the same changes were
  made, up to their order.\<close>

theorem directoryCache_refines:
  assumes "sort_slice (Slice os)"
  shows "mset (fst (GetSortedObjects os d (dc_run os d ops (newDirectoryCache files)))) = mset (list_run ops files)"
proof -
  let ?dc = "dc_run os d ops (newDirectoryCache files)"
  have r: "dc_ok ?dc" "objs ?dc = list_run ops files"
    using dc_run_ok [OF conjunct1 [OF new_ok] assms, of d ops files] new_ok by auto
  obtain s dc' where g: "GetSortedObjects os d ?dc = (s, dc')" by fastforce
  from GetSortedObjects_ok [OF r(1) assms g] r g show ?thesis by simp
qed

definition demo_orders :: orders where
  "demo_orders = \<lparr>Slice = SliceStable, natural_Less = (\<lambda>a b. length a < length b)\<rparr>"

theorem directoryCache_refines_witness:
  "mset (fst (GetSortedObjects demo_orders demo_driver (dc_run demo_orders demo_driver
      [RemoveOp ''a'', ReadOp, UpdateOp ''b'' (demo_obj ''c'' True 3)] (newDirectoryCache [demo_obj ''a'' False 1, demo_obj ''b'' True 2])))) =
   mset [demo_obj ''c'' True 3]"
  by (subst directoryCache_refines) (simp_all add: demo_orders_def insort_sort_slice demo_obj_def put_named_def)

text \<open>After an update was read, a removal makes the next reading return the objects in the order
  of the array, with the new object at the end, although the listing is to be sorted and its
  folders extracted: the flag of the update was cleared and the array itself is never sorted.\<close>

theorem order_lost:
  assumes "dc_ok dc" and "index_of n (objs dc @ [obj]) \<noteq> None"
  shows "fst (GetSortedObjects os d (RemoveObject n (snd (GetSortedObjects os d (UpdateObject [] obj dc))))) =
    remove_named n (objs dc @ [obj])"
proof -
  let ?u = "UpdateObject [] obj dc"
  have u: "dc_ok ?u" "objs ?u = objs dc @ [obj]" using UpdateObject_ok [OF assms(1), of "[]" obj] by (simp_all add: put_named_def)
  define r where "r = snd (GetSortedObjects os d ?u)"
  have ud: "dirtyFlags ?u \<noteq> 0" by (simp add: UpdateObject_def flag_set)
  have r: "dirtyFlags r = 0" "objs r = objs ?u" "len r = len ?u" "arr r = arr ?u"
    using ud by (auto simp: r_def GetSortedObjects_def Let_def objs_def)
  obtain i where i: "index_of n (objs r) = Some i" using assms(2) u(2) r(2) by auto
  have "dirtyFlags (RemoveObject n r) = dirtyRemove" using r(1) by (simp add: RemoveObject_def i)
  moreover have "objs (RemoveObject n r) = remove_named n (objs r)"
  proof -
    have "dc_ok (r\<lparr>sorted_copy := objs r\<rparr>)" using u(1) r by (simp add: dc_ok_def objs_def)
    from conjunct2 [OF RemoveObject_ok [OF this, of n]] i show ?thesis by (simp add: RemoveObject_def objs_def)
  qed
  moreover have "fst (GetSortedObjects os d x) = objs x" if "dirtyFlags x = dirtyRemove" for x
    using that by (simp add: GetSortedObjects_def Let_def dirtyRemove_def dirtyUpdate_def)
  ultimately show ?thesis using u(2) r(2) unfolding r_def by metis
qed

theorem order_lost_witness:
  "(let dc = newDirectoryCache [demo_obj ''a'' False 1, demo_obj ''b'' False 2];
        r = fst (GetSortedObjects demo_orders demo_driver (RemoveObject ''a''
              (snd (GetSortedObjects demo_orders demo_driver (UpdateObject [] (demo_obj ''c'' True 0) dc)))))
    in r = [demo_obj ''b'' False 2, demo_obj ''c'' True 0] \<and>
       arrange demo_orders demo_driver r = [demo_obj ''c'' True 0, demo_obj ''b'' False 2])"
proof -
  let ?dc = "newDirectoryCache [demo_obj ''a'' False 1, demo_obj ''b'' False 2]"
  have "fst (GetSortedObjects demo_orders demo_driver (RemoveObject ''a''
      (snd (GetSortedObjects demo_orders demo_driver (UpdateObject [] (demo_obj ''c'' True 0) ?dc))))) =
    remove_named ''a'' ([demo_obj ''a'' False 1, demo_obj ''b'' False 2] @ [demo_obj ''c'' True 0])"
    using order_lost [OF conjunct1 [OF new_ok], of "''a''" "[demo_obj ''a'' False 1, demo_obj ''b'' False 2]" "demo_obj ''c'' True 0"]
    by (simp add: new_ok demo_obj_def)
  then show ?thesis
    by (simp add: Let_def demo_obj_def arrange_def demo_driver_def demo_storage_def demo_orders_def SortFiles_def
        SliceStable_def files_less_def ExtractFolder_def folder_less_def IsDir_def ModTime_def)
qed

text \<open>Removing an object moves the rest within the array, so a request that still holds the
  listing it fetched sees the object gone and the last object twice.\<close>

theorem RemoveObject_clobbers:
  assumes "index_of n files = Some i"
  shows "take (length files) (arr (RemoveObject n (newDirectoryCache files))) =
    take i files @ drop (Suc i) files @ [last files]"
proof -
  note i = index_of_Some [OF assms]
  then have ne: "files \<noteq> []" by auto
  have "drop (length files - 1) files = [last files]"
    using ne by (metis append_butlast_last_id append_eq_conv_conj length_butlast)
  with assms i show ?thesis
    by (simp add: RemoveObject_def newDirectoryCache_def objs_def)
qed

theorem RemoveObject_clobbers_witness:
  "take 2 (arr (RemoveObject ''a'' (newDirectoryCache [demo_obj ''a'' False 1, demo_obj ''b'' True 2]))) =
   [demo_obj ''b'' True 2, demo_obj ''b'' True 2]"
  using RemoveObject_clobbers [of "''a''" "[demo_obj ''a'' False 1, demo_obj ''b'' True 2]" 0]
  by (simp add: demo_obj_def numeral_2_eq_2)

section \<open>Trees of listings\<close>

type_synonym dir_map = "(directoryCache, int) KeyedCache"

text \<open>The cached directories and files that the cached listing of a key names.\<close>

definition subdirs :: "dir_map \<Rightarrow> string \<Rightarrow> string set" where
  "subdirs c k = (case c k of None \<Rightarrow> {}
     | Some e \<Rightarrow> {path_join [k, GetName obj] | obj. obj \<in> set (objs (entry_data e)) \<and> IsDir obj})"

definition files_of :: "dir_map \<Rightarrow> string \<Rightarrow> string set" where
  "files_of c k = (case c k of None \<Rightarrow> {}
     | Some e \<Rightarrow> {path_join [k, GetName obj] | obj. obj \<in> set (objs (entry_data e)) \<and> \<not> IsDir obj})"

inductive_set tree :: "dir_map \<Rightarrow> string set \<Rightarrow> string set" for c :: dir_map and T :: "string set" where
  root: "k \<in> T \<Longrightarrow> k \<in> tree c T"
| child: "k \<in> tree c T \<Longrightarrow> j \<in> subdirs c k \<Longrightarrow> j \<in> tree c T"

definition tree_files :: "dir_map \<Rightarrow> string set \<Rightarrow> string set" where
  "tree_files c T = (\<Union>k \<in> tree c T. files_of c k)"

lemma subdirs_upd: "subdirs (c(k := None)) j = (if j = k then {} else subdirs c j)"
  and files_upd: "files_of (c(k := None)) j = (if j = k then {} else files_of c j)"
  by (simp_all add: subdirs_def files_of_def)

lemma tree_absent: "c k = None \<Longrightarrow> tree c (insert k T) = insert k (tree c T)"
proof (intro set_eqI iffI)
  fix x assume c: "c k = None" and "x \<in> tree c (insert k T)"
  from this(2) show "x \<in> insert k (tree c T)"
    by induction (auto intro: tree.intros simp: subdirs_def c)
next
  fix x assume "x \<in> insert k (tree c T)"
  moreover have "y \<in> tree c T \<Longrightarrow> y \<in> tree c (insert k T)" for y by (induction rule: tree.induct) (auto intro: tree.intros)
  ultimately show "x \<in> tree c (insert k T)" by (auto intro: tree.root)
qed

lemma tree_step: "tree c (insert k T) = insert k (tree (c(k := None)) (subdirs c k \<union> T))" (is "?L = insert k ?R")
proof (intro set_eqI iffI)
  fix x assume "x \<in> ?L"
  then show "x \<in> insert k ?R"
  proof induction
    case (child y z)
    show ?case
    proof (cases "y = k")
      case True
      with child show ?thesis by (auto intro: tree.root)
    next
      case False
      then have "y \<in> ?R" using child.IH by blast
      moreover have "z \<in> subdirs (c(k := None)) y" using child.hyps False unfolding subdirs_upd by simp
      ultimately show ?thesis by (intro insertI2) (rule tree.child)
    qed
  qed (auto intro: tree.root)
next
  fix x assume x: "x \<in> insert k ?R"
  have "y \<in> ?R \<Longrightarrow> y \<in> ?L" for y
  proof (induction rule: tree.induct)
    case (root y)
    then show ?case by (auto intro: tree.root tree.child [OF tree.root])
  next
    case (child y z)
    then have "z \<in> subdirs c y" unfolding subdirs_upd by (auto split: if_splits)
    with child.IH show ?case by (rule tree.child)
  qed
  with x show "x \<in> ?L" by (auto intro: tree.root)
qed

lemma tree_files_step: "tree_files c (insert k T) = files_of c k \<union> tree_files (c(k := None)) (subdirs c k \<union> T)"
  unfolding tree_files_def tree_step by (auto simp: files_upd split: if_splits)

lemma tree_files_absent: "c k = None \<Longrightarrow> tree_files c (insert k T) = tree_files c T"
  unfolding tree_files_def by (simp add: tree_absent files_of_def)

definition trees :: "task list \<Rightarrow> string set" where
  "trees ts = {k. Tree k \<in> set ts}"

definition links :: "task list \<Rightarrow> string set" where
  "links ts = {k. Links k \<in> set ts}"

lemma task_sets [simp]: "trees [] = {}" "links [] = {}" "trees (Tree k # ts) = insert k (trees ts)"
  "trees (Links k # ts) = trees ts" "links (Links k # ts) = insert k (links ts)" "links (Tree k # ts) = links ts"
  "trees (xs @ ts) = trees xs \<union> trees ts" "links (xs @ ts) = links xs \<union> links ts"
  by (auto simp: trees_def links_def)

lemma child_tasks_sets:
  "c k = Some e \<Longrightarrow> trees (child_tasks k (entry_data e)) = subdirs c k \<and> links (child_tasks k (entry_data e)) = files_of c k"
  by (auto simp: trees_def links_def child_tasks_def subdirs_def files_of_def split: if_splits)

lemma tree_empty [simp]: "tree c {} = {}" "tree_files c {} = {}"
proof -
  have "x \<in> tree c {} \<Longrightarrow> False" for x by (induction rule: tree.induct) auto
  then show "tree c {} = {}" "tree_files c {} = {}" by (auto simp: tree_files_def)
qed

definition without :: "'k set \<Rightarrow> ('k \<Rightarrow> 'v option) \<Rightarrow> 'k \<Rightarrow> 'v option" where
  "without K m = (\<lambda>k. if k \<in> K then None else m k)"

lemma without_insert: "without (insert k K) c = without K (c(k := None))"
  and without_absent: "c k = None \<Longrightarrow> c(k := None) = c"
  by (auto simp: without_def fun_eq_iff)

definition cleared :: "task list \<Rightarrow> ('l, 'e) CacheManager \<Rightarrow> ('l, 'e) CacheManager" where
  "cleared ts cm = cm\<lparr>dirCache := without (tree (dirCache cm) (trees ts)) (dirCache cm),
     linkCache := without (links ts \<union> tree_files (dirCache cm) (trees ts)) (linkCache cm)\<rparr>"

lemma cleared_links:
  "cleared (Links k # ts) cm = cleared ts (cm\<lparr>linkCache := DeleteKey k (linkCache cm)\<rparr>)"
  by (simp add: cleared_def without_insert DeleteKey_def)

lemma cleared_absent:
  "dirCache cm k = None \<Longrightarrow> cleared (Tree k # ts) cm = cleared ts cm"
  by (simp add: cleared_def tree_absent tree_files_absent without_insert without_absent)

lemma cleared_step:
  assumes "dirCache cm k = Some e"
  shows "cleared (Tree k # ts) cm = cleared (child_tasks k (entry_data e) @ ts) (cm\<lparr>dirCache := (dirCache cm)(k := None)\<rparr>)"
  using child_tasks_sets [of "dirCache cm" k e, OF assms]
  by (simp add: cleared_def tree_step tree_files_step without_insert Un_ac)

lemma delete_tasks_exact:
  fixes cm :: "('l, 'e) CacheManager"
  shows "finite (dom (dirCache cm)) \<Longrightarrow> delete_tasks ts cm = Some (cleared ts cm)"
proof (induction "card (dom (dirCache cm))" arbitrary: cm ts rule: less_induct)
  case less
  have "finite (dom (dirCache cm')) \<Longrightarrow> card (dom (dirCache cm')) = card (dom (dirCache cm)) \<Longrightarrow>
    delete_tasks ts' cm' = Some (cleared ts' cm')" for ts' and cm' :: "('l, 'e) CacheManager"
  proof (induction ts' arbitrary: cm')
    case Nil
    then show ?case by (simp add: delete_tasks.simps cleared_def without_def)
  next
    case (Cons t ts')
    show ?case
    proof (cases t)
      case (Links k)
      with Cons show ?thesis by (subst delete_tasks.simps) (simp add: cleared_links)
    next
      case (Tree k)
      show ?thesis
      proof (cases "dirCache cm' k")
        case None
        then have "Pop k (dirCache cm') = (None, dirCache cm')" by (simp add: Pop_def)
        with Cons Tree None show ?thesis by (subst delete_tasks.simps) (simp add: cleared_absent)
      next
        case (Some e)
        let ?cm = "cm'\<lparr>dirCache := (dirCache cm')(k := None)\<rparr>"
        have pop: "Pop k (dirCache cm') = (Some (entry_data e), (dirCache cm')(k := None))"
          using Some by (simp add: Pop_def)
        have "card (dom (dirCache cm') - {k}) < card (dom (dirCache cm'))"
          using Cons.prems(1) Some by (intro card_Diff1_less) auto
        then have "card (dom (dirCache ?cm)) < card (dom (dirCache cm))" using Cons.prems(2) by simp
        moreover have "finite (dom (dirCache ?cm))" using Cons.prems(1) by simp
        ultimately have "delete_tasks ts'' ?cm = Some (cleared ts'' ?cm)" for ts'' by (rule less.hyps)
        with Tree Some pop show ?thesis by (subst delete_tasks.simps) (simp add: cleared_step)
      qed
    qed
  qed
  from this [OF less.prems refl] show ?case .
qed

text \<open>removing a cached directory tree always ends, also where the cached listings form a
  cycle or name a directory twice (the code pops a listing before it looks at its entries), and it
  removes exactly the listings reachable from the key through the directories the listings name,
  and the links of the files in those listings; every other entry of the two caches stays.\<close>
theorem deleteDirectoryTree_exact:
  assumes "finite (dom (dirCache cm))"
  shows "deleteDirectoryTree key cm = Some (cm\<lparr>
      dirCache := without (tree (dirCache cm) {key}) (dirCache cm),
      linkCache := without (tree_files (dirCache cm) {key}) (linkCache cm)\<rparr>)"
  unfolding deleteDirectoryTree_def delete_tasks_exact [OF assms] cleared_def by simp

text \<open>A cached directory with an entry \<open>..\<close>, below a root with a file.\<close>

definition demo_tree :: "(string, unit) CacheManager" where
  "demo_tree = \<lparr>
     dirCache = [''/'' \<mapsto> \<lparr>entry_data = newDirectoryCache [demo_obj ''f'' False 1], entry_exp = 0\<rparr>,
       ''/d'' \<mapsto> \<lparr>entry_data = newDirectoryCache [demo_obj ''..'' True 2], entry_exp = 0\<rparr>],
     linkCache = [''/f'' \<mapsto> [], ''/g'' \<mapsto> []], detailCache = Map.empty\<rparr>"

lemma demo_joins: "path_join [''/d'', ''..''] = ''/''" "path_join [''/'', ''f''] = ''/f''"
  by code_simp+

lemma demo_subdirs: "subdirs (dirCache demo_tree) ''/d'' = {''/''}" "subdirs (dirCache demo_tree) ''/'' = {}"
  "files_of (dirCache demo_tree) ''/'' = {''/f''}" "files_of (dirCache demo_tree) ''/d'' = {}"
  by (auto simp: subdirs_def files_of_def demo_tree_def demo_obj_def objs_def newDirectoryCache_def demo_joins IsDir_def)

lemma demo_closure: "tree (dirCache demo_tree) {''/d''} = {''/d'', ''/''}"
proof (intro equalityI subsetI)
  fix x assume "x \<in> tree (dirCache demo_tree) {''/d''}"
  then show "x \<in> {''/d'', ''/''}" by induction (auto simp: demo_subdirs)
next
  have "''/d'' \<in> tree (dirCache demo_tree) {''/d''}" by (rule tree.root) simp
  moreover from this have "''/'' \<in> tree (dirCache demo_tree) {''/d''}" by (rule tree.child) (simp add: demo_subdirs)
  moreover fix x :: string assume "x \<in> {''/d'', ''/''}"
  ultimately show "x \<in> tree (dirCache demo_tree) {''/d''}" by auto
qed

theorem deleteDirectoryTree_exact_witness:
  "map_option (\<lambda>cm. (dirCache cm ''/'', dirCache cm ''/d'', linkCache cm ''/f'', linkCache cm ''/g''))
     (deleteDirectoryTree ''/d'' demo_tree) = Some (None, None, None, Some [])"
proof -
  have "finite (dom (dirCache demo_tree))" by (simp add: demo_tree_def)
  from deleteDirectoryTree_exact [OF this] show ?thesis
    by (simp add: demo_closure tree_files_def demo_subdirs without_def) (simp add: demo_tree_def)
qed

end
