(* ===== verification/RouteProps.thy ===== *)
theory RouteProps
  imports Routes DirCacheProps
begin

text \<open>
  Properties of the way from a path to a storage: the reference definition of the longest match,
  the round trip between a path and its storage with the path inside it, the turns of balanced
  storages, and the virtual directories of a set of mount points.
\<close>

section \<open>The longest mount path\<close>

definition mount :: "Driver \<Rightarrow> string list" where
  "mount d = norm (GetActualMountPath (MountPath (storage d)))"

text \<open>Each storage stands under its mount path, which is a clean path also without the balance suffix.\<close>

definition mounts_ok :: "(string \<times> Driver) list \<Rightarrow> bool" where
  "mounts_ok storages \<longleftrightarrow> distinct (map fst storages) \<and>
     (\<forall>(k, d) \<in> set storages. MountPath (storage d) = k \<and>
        FixAndCleanPath (GetActualMountPath k) = GetActualMountPath k)"

definition holds :: "string \<Rightarrow> Driver \<Rightarrow> bool" where
  "holds path d \<longleftrightarrow> prefix (mount d) (norm path)"

definition longest :: "string \<Rightarrow> Driver list \<Rightarrow> Driver list" where
  "longest path ds =
     filter (\<lambda>d. holds path d \<and> list_all (\<lambda>e. holds path e \<longrightarrow> length (mount e) \<le> length (mount d)) ds) ds"

lemma mount_path:
  assumes "mounts_ok storages" and "(k, d) \<in> set storages"
  shows "MountPath (storage d) = k" "GetActualMountPath k = abs_path (mount d)" "norm (abs_path (mount d)) = mount d"
proof -
  from assms show k: "MountPath (storage d) = k" by (auto simp: mounts_ok_def)
  with assms show a: "GetActualMountPath k = abs_path (mount d)"
    by (auto simp: mounts_ok_def mount_def FixAndCleanPath_norm)
  with k show "norm (abs_path (mount d)) = mount d" by (simp add: mount_def)
qed

lemma count_join: "list_all valid_comp cs \<Longrightarrow> count_byte (join_with ''/'' cs) slash = length cs - 1"
  by (induction cs rule: induct_list012)
    (auto simp: join_with_Cons valid_comp_def count_byte_zero)

lemma slash_count:
  assumes "list_all valid_comp cs"
  shows "count_byte (PathAddSeparatorSuffix (abs_path cs)) slash = Suc (length cs)"
  using assms by (cases "cs = []")
    (simp add: PathAddSeparatorSuffix_def has_suffix_def has_prefix_def,
     simp add: PathAddSeparatorSuffix_abs, simp add: abs_path_def count_join)

lemma match_step_mount:
  assumes "mounts_ok storages" "(k, d) \<in> set storages"
  shows "match_step path (k, d) (cur, ss) =
    (if \<not> holds path d then (cur, ss)
     else if cur < Suc (length (mount d)) then (Suc (length (mount d)), [d])
     else (cur, if Suc (length (mount d)) = cur then ss @ [d] else ss))"
proof -
  have "list_all valid_comp (mount d)" by (simp add: mount_def)
  then show ?thesis
    by (simp add: match_step_def mount_path [OF assms] slash_count IsSubPath_norm holds_def Let_def)
qed

lemma match_fold:
  assumes ok: "mounts_ok storages" and "set xs \<subseteq> set storages"
  shows "\<exists>cur. fold (match_step path) xs (0, []) =
      (cur, filter (\<lambda>d. holds path d \<and> Suc (length (mount d)) = cur) (map snd xs)) \<and>
    (\<forall>d \<in> snd ` set xs. holds path d \<longrightarrow> Suc (length (mount d)) \<le> cur) \<and>
    (cur \<noteq> 0 \<longrightarrow> (\<exists>d \<in> snd ` set xs. holds path d \<and> Suc (length (mount d)) = cur))"
  using assms(2)
proof (induction xs rule: rev_induct)
  case (snoc x xs)
  obtain k d where x: "x = (k, d)" by (cases x)
  with snoc.prems have "(k, d) \<in> set storages" by simp
  note step = match_step_mount [OF ok this]
  from snoc obtain cur where IH: "fold (match_step path) xs (0, []) =
      (cur, filter (\<lambda>d. holds path d \<and> Suc (length (mount d)) = cur) (map snd xs))"
    "\<forall>d \<in> snd ` set xs. holds path d \<longrightarrow> Suc (length (mount d)) \<le> cur"
    "cur \<noteq> 0 \<longrightarrow> (\<exists>d \<in> snd ` set xs. holds path d \<and> Suc (length (mount d)) = cur)" by auto
  show ?case
  proof (cases "holds path d \<and> cur < Suc (length (mount d))")
    case True
    moreover from True IH(2) have "filter (\<lambda>e. holds path e \<and> length (mount e) = length (mount d)) (map snd xs) = []"
      by (fastforce simp: filter_empty_conv)
    ultimately show ?thesis using IH(2) by (fastforce simp: IH(1) x step)
  next
    case False
    with IH show ?thesis by (auto simp: x step)
  qed
qed simp

lemma longest_fold:
  assumes "mounts_ok storages"
  shows "snd (fold (match_step path) storages (0, [])) = longest path (map snd storages)"
proof -
  obtain cur where f: "fold (match_step path) storages (0, []) =
      (cur, filter (\<lambda>d. holds path d \<and> Suc (length (mount d)) = cur) (map snd storages))"
    "\<forall>d \<in> snd ` set storages. holds path d \<longrightarrow> Suc (length (mount d)) \<le> cur"
    "cur \<noteq> 0 \<longrightarrow> (\<exists>d \<in> snd ` set storages. holds path d \<and> Suc (length (mount d)) = cur)"
    using match_fold [OF assms order.refl, of path] by blast
  show ?thesis unfolding f(1) longest_def snd_conv
  proof (rule filter_cong [OF refl])
    fix d assume d: "d \<in> set (map snd storages)"
    show "(holds path d \<and> Suc (length (mount d)) = cur) =
      (holds path d \<and> list_all (\<lambda>e. holds path e \<longrightarrow> length (mount e) \<le> length (mount d)) (map snd storages))"
      using f(2,3) d by (auto simp: list_all_iff) force+
  qed
qed

lemma mount_less_order: "weak_order mount_less"
  by (auto simp: weak_order_def mount_less_def)

lemma mounts_inj:
  assumes "mounts_ok storages"
  shows "distinct (map (\<lambda>d. MountPath (storage d)) (map snd storages))"
proof -
  have "map (\<lambda>d. MountPath (storage d)) (map snd storages) = map fst storages"
    using assms by (auto simp: mounts_ok_def)
  then show ?thesis using assms unfolding mounts_ok_def by metis
qed

lemma storages_sorted:
  assumes "sort_slice sortf" and "mounts_ok storages"
  shows "getStoragesByPath sortf path storages =
    sort_key (\<lambda>d. MountPath (storage d)) (longest path (map snd storages))"
proof -
  let ?key = "\<lambda>d. MountPath (storage d)" and ?ds = "longest path (map snd storages)"
  let ?r = "sortf mount_less ?ds"
  have m: "mset ?r = mset ?ds" and so: "sorted_wrt (\<lambda>x y. \<not> mount_less y x) ?r"
    using assms(1) mount_less_order by (auto simp: sort_slice_def)
  have inj: "distinct (map ?key ?ds)" unfolding longest_def
    using mounts_inj [OF assms(2)] by (rule distinct_map_filter)
  have "mset (map ?key ?r) = mset (map ?key ?ds)" using m by simp
  then have dist: "distinct (map ?key ?r)" using inj by (metis mset_eq_imp_distinct_iff)
  have "sorted (map ?key ?r)" using so by (simp add: sorted_wrt_map mount_less_def not_less)
  moreover have "set ?r = set ?ds" using m by (rule mset_eq_setD)
  ultimately have "?r = sort_key ?key ?ds"
    using inj dist by (intro map_sorted_distinct_set_unique [where f = ?key]) (auto simp: distinct_map)
  then show ?thesis using longest_fold [OF assms(2)] by (simp add: getStoragesByPath_def)
qed

text \<open>The storages of a path are exactly those with the longest mount path among the mount paths
  that are the path or above it, where balanced storages share one mount path; they come in the
  order of their names, whatever the order in which the map of storages is visited.\<close>
theorem getStoragesByPath_longest:
  assumes "sort_slice sortf" and "mounts_ok storages"
  shows "getStoragesByPath sortf path storages =
    sort_key (\<lambda>d. MountPath (storage d)) (longest path (map snd storages))"
  using assms by (rule storages_sorted)

definition demo_mount :: "string \<Rightarrow> Driver" where
  "demo_mount p = demo_driver\<lparr>storage := demo_storage\<lparr>MountPath := p\<rparr>\<rparr>"

definition demo_mounts :: "(string \<times> Driver) list" where
  "demo_mounts = map (\<lambda>p. (p, demo_mount p)) [''/a/d.balance'', ''/a'', ''/a/d'', ''/b'']"

lemma demo_actual: "GetActualMountPath ''/a/d.balance'' = ''/a/d''" "GetActualMountPath ''/a'' = ''/a''"
  "GetActualMountPath ''/a/d'' = ''/a/d''" "GetActualMountPath ''/b'' = ''/b''"
  "FixAndCleanPath ''/a/d'' = ''/a/d''" "FixAndCleanPath ''/a'' = ''/a''" "FixAndCleanPath ''/b'' = ''/b''"
  "norm ''/a/d'' = [''a'', ''d'']" "norm ''/a'' = [''a'']" "norm ''/b'' = [''b'']" "norm ''/a/d/x'' = [''a'', ''d'', ''x'']"
  by code_simp+

lemma demo_mounts_ok: "mounts_ok demo_mounts"
  by (simp add: mounts_ok_def demo_mounts_def demo_mount_def demo_actual)

lemma demo_longest: "sort_key (\<lambda>d. MountPath (storage d)) (longest ''/a/d/x'' (map snd demo_mounts)) =
    [demo_mount ''/a/d'', demo_mount ''/a/d.balance'']"
proof -
  have "longest ''/a/d/x'' (map snd demo_mounts) = [demo_mount ''/a/d.balance'', demo_mount ''/a/d'']"
    by (simp add: longest_def holds_def mount_def demo_mounts_def demo_mount_def demo_actual)
  then show ?thesis by (simp add: demo_mount_def)
qed

theorem getStoragesByPath_longest_witness:
  "getStoragesByPath SliceStable ''/a/d/x'' demo_mounts = [demo_mount ''/a/d'', demo_mount ''/a/d.balance'']"
  using getStoragesByPath_longest [OF insort_sort_slice demo_mounts_ok] by (simp add: demo_longest)

section \<open>The path inside a storage\<close>

lemma abs_path_append: "as \<noteq> [] \<Longrightarrow> bs \<noteq> [] \<Longrightarrow> abs_path (as @ bs) = abs_path as @ abs_path bs"
  by (simp add: abs_path_def join_with_append)

lemma norm_Nil [simp]: "norm [] = []"
  using norm_FixAndCleanPath [of "[]"] by (simp add: norm_def resolve_def replace_byte_def)

lemma norm_no_slash: "norm (slash # t) = norm t"
  by (simp add: norm_def replace_byte_def)

lemma trim_mount:
  assumes "norm path = cs @ ds"
  shows "norm (trim_prefix (abs_path (norm path)) (abs_path cs)) = ds"
proof -
  have ds: "norm (abs_path ds) = ds"
  proof (rule norm_abs_path)
    have "list_all valid_comp (cs @ ds)" using norm_valid [of path] assms by simp
    then show "list_all valid_comp ds" by simp
    show "\<forall>c \<in> set ds. CHR 0x5C \<notin> set c" using norm_no_backslash [of _ path] assms by auto
  qed
  show ?thesis
  proof (cases "cs = [] \<or> ds = []")
    case True
    have "trim_prefix (abs_path ds) ''/'' = join_with ''/'' ds"
      by (simp add: trim_prefix_def has_prefix_def abs_path_def)
    moreover have "norm (join_with ''/'' ds) = ds" using ds norm_no_slash by (simp add: abs_path_def)
    ultimately show ?thesis using True assms by (auto simp: trim_prefix_def has_prefix_def)
  next
    case False
    then have "trim_prefix (abs_path (cs @ ds)) (abs_path cs) = abs_path ds"
      by (simp add: abs_path_append trim_prefix_def has_prefix_def)
    then show ?thesis using assms ds by simp
  qed
qed

lemma longest_Nil: "longest path ds = [] \<longleftrightarrow> (\<forall>d \<in> set ds. \<not> holds path d)"
proof (rule iffI, rule ccontr)
  let ?E = "{e \<in> set ds. holds path e}" and ?L = "\<lambda>e. length (mount e)"
  assume empty: "longest path ds = []" and "\<not> (\<forall>d \<in> set ds. \<not> holds path d)"
  then have "finite (?L ` ?E)" "?L ` ?E \<noteq> {}" by auto
  from Max_in [OF this] obtain e where e: "Max (?L ` ?E) = ?L e" "e \<in> ?E" by (rule imageE)
  have "?L x \<le> ?L e" if "x \<in> ?E" for x
    using Max_ge [OF \<open>finite (?L ` ?E)\<close> imageI [OF that]] e(1) by simp
  with e have "e \<in> set (longest path ds)" by (simp add: longest_def list_all_iff)
  with empty show False by simp
qed (simp add: longest_def filter_empty_conv)

lemma balanced_member:
  "GetBalancedStorage sortf path st = (d, st') \<Longrightarrow>
   storagesMap st' = storagesMap st \<and>
   (case d of None \<Rightarrow> getStoragesByPath sortf (FixAndCleanPath path) (storagesMap st) = [] \<and> st' = st
    | Some d \<Rightarrow> d \<in> set (getStoragesByPath sortf (FixAndCleanPath path) (storagesMap st)))"
proof -
  assume g: "GetBalancedStorage sortf path st = (d, st')"
  let ?ss = "getStoragesByPath sortf (FixAndCleanPath path) (storagesMap st)"
  show ?thesis
  proof (cases "?ss = []")
    case False
    then have "\<And>i. i mod length ?ss < length ?ss" by simp
    with g False show ?thesis
      by (simp add: GetBalancedStorage_def Let_def del: One_nat_def split: if_splits) (elim conjE, hypsubst, simp)+
  qed (use g in \<open>simp add: GetBalancedStorage_def\<close>)
qed

text \<open>C17: A path of the server goes to a storage whose mount path is the path or above it, with no
  longer one among the loaded storages, and the path inside the storage leads back to the path:
  joining it to the mount path gives the clean form of the path again.  A path is refused only
  if no storage is mounted at it or above it.\<close>
theorem GetStorageAndActualPath_roundtrip:
  assumes "sort_slice sortf" and "mounts_ok (storagesMap st)"
  shows "case fst (GetStorageAndActualPath sortf rawPath st) of
      Inl e \<Rightarrow> \<not> (\<exists>d \<in> snd ` set (storagesMap st). holds rawPath d)
    | Inr (d, actualPath) \<Rightarrow>
        d \<in> snd ` set (storagesMap st) \<and> holds rawPath d \<and>
        \<not> (\<exists>e \<in> snd ` set (storagesMap st). holds rawPath e \<and> length (mount d) < length (mount e)) \<and>
        GetFullPath (MountPath (storage d)) actualPath = FixAndCleanPath rawPath"
proof -
  let ?p = "FixAndCleanPath rawPath"
  obtain d st' where g: "GetBalancedStorage sortf ?p st = (d, st')" by fastforce
  have holds: "holds ?p = holds rawPath" by (simp add: holds_def fun_eq_iff)
  have clean: "FixAndCleanPath ?p = ?p" by (simp add: FixAndCleanPath_norm norm_abs_path norm_no_backslash)
  note ss = storages_sorted [OF assms, of ?p]
  show ?thesis
  proof (cases d)
    case None
    then have "sort_key (\<lambda>d. MountPath (storage d)) (longest ?p (map snd (storagesMap st))) = []"
      using balanced_member [OF g] ss clean by simp
    then have "longest ?p (map snd (storagesMap st)) = []" by (metis set_empty set_sort)
    then have "\<not> (\<exists>e \<in> snd ` set (storagesMap st). holds ?p e)"
      unfolding longest_Nil by auto
    then show ?thesis using g None holds by (simp add: GetStorageAndActualPath_def Let_def)
  next
    case (Some e)
    then have e: "e \<in> set (longest ?p (map snd (storagesMap st)))"
      using balanced_member [OF g] ss clean by simp
    then obtain k where k: "(k, e) \<in> set (storagesMap st)" by (auto simp: longest_def)
    note mp = mount_path [OF assms(2) k]
    from e have "prefix (mount e) (norm rawPath)" by (simp add: longest_def holds holds_def)
    then obtain ds where ds: "norm rawPath = mount e @ ds" by (auto simp: prefix_def)
    have act: "FixAndCleanPath (trim_prefix ?p (abs_path (mount e))) = abs_path ds"
      using trim_mount [OF ds] by (simp add: FixAndCleanPath_norm)
    have "list_all valid_comp (mount e @ ds)" using norm_valid [of rawPath] ds by simp
    then have "GetFullPath k (abs_path ds) = ?p"
      by (simp add: GetFullPath_def mp path_join_abs ds FixAndCleanPath_norm)
    moreover have "fst (GetStorageAndActualPath sortf rawPath st) = Inr (e, abs_path ds)"
      using g Some mp act by (simp add: GetStorageAndActualPath_def Let_def)
    ultimately show ?thesis using e k mp holds
      by (auto simp: longest_def list_all_iff not_less intro: image_eqI [of _ _ "(k, e)"])
  qed
qed

definition demo_registry :: "(string, unit) registry" where
  "demo_registry = \<lparr>srows = map (storage \<circ> snd) demo_mounts, sdown = False, storagesMap = demo_mounts,
     balanceMap = Map.empty, listings = demo_tree, hooked = []\<rparr>"

theorem GetStorageAndActualPath_roundtrip_witness:
  "\<exists>d actualPath. fst (GetStorageAndActualPath SliceStable ''/a/d/x'' demo_registry) = Inr (d, actualPath) \<and>
     GetFullPath (MountPath (storage d)) actualPath = ''/a/d/x''"
proof -
  have ok: "mounts_ok (storagesMap demo_registry)" by (simp add: demo_registry_def demo_mounts_ok)
  have "demo_mount ''/a'' \<in> snd ` set (storagesMap demo_registry)" by (simp add: demo_registry_def demo_mounts_def)
  moreover have "holds ''/a/d/x'' (demo_mount ''/a'')" by (simp add: holds_def mount_def demo_mount_def demo_actual)
  moreover have "FixAndCleanPath ''/a/d/x'' = ''/a/d/x''" by code_simp
  ultimately show ?thesis
    using GetStorageAndActualPath_roundtrip [OF insort_sort_slice ok, of "''/a/d/x''"]
    by (cases "fst (GetStorageAndActualPath SliceStable ''/a/d/x'' demo_registry)") (auto split: prod.splits)
qed

section \<open>Balanced storages\<close>

text \<open>Some lookups of the same path, one after another.\<close>

fun lookups :: "slice_sort \<Rightarrow> string \<Rightarrow> nat \<Rightarrow> ('l, 'e) registry \<Rightarrow> Driver option list" where
  "lookups sortf path 0 st = []"
| "lookups sortf path (Suc n) st =
     (let (d, st) = GetBalancedStorage sortf path st in d # lookups sortf path n st)"

lemma lookups_turns:
  assumes "getStoragesByPath sortf (FixAndCleanPath path) (storagesMap st) = ss" "2 \<le> length ss"
    and "i = (case balanceMap st (GetActualMountPath (MountPath (storage (ss ! 0)))) of Some i \<Rightarrow> i | None \<Rightarrow> 0)"
  shows "lookups sortf path n st = map (\<lambda>j. Some (ss ! ((i + Suc j) mod length ss))) [0..<n]"
  using assms
proof (induction n arbitrary: st i)
  case (Suc n)
  let ?key = "GetActualMountPath (MountPath (storage (ss ! 0)))" and ?i = "(i + 1) mod length ss"
  let ?st = "st\<lparr>balanceMap := (balanceMap st)(?key \<mapsto> ?i)\<rparr>"
  have "GetBalancedStorage sortf path st = (Some (ss ! ?i), ?st)"
    using Suc.prems by (cases ss; cases "tl ss") (simp_all add: GetBalancedStorage_def Let_def)
  moreover have "lookups sortf path n ?st = map (\<lambda>j. Some (ss ! ((?i + Suc j) mod length ss))) [0..<n]"
    using Suc.prems by (intro Suc.IH) simp_all
  moreover have "(?i + Suc j) mod length ss = (i + Suc (Suc j)) mod length ss" for j
    using mod_add_left_eq [of "i + 1" "length ss" "Suc j"] by simp
  ultimately show ?case by (simp add: upt_conv_Cons map_Suc_upt [symmetric] del: upt_Suc)
qed simp

text \<open>Balanced storages take turns: as many lookups of a path as there are storages with its
  mount path return each of them once, in a rotation of their order, wherever the turns stand.\<close>
theorem GetBalancedStorage_turns:
  assumes "getStoragesByPath sortf (FixAndCleanPath path) (storagesMap st) = ss" and "ss \<noteq> []"
  shows "\<exists>k. lookups sortf path (length ss) st = map Some (rotate k ss)"
proof (cases "length ss = 1")
  case True
  then have "lookups sortf path (length ss) st = map Some (rotate 0 ss)"
    using assms by (cases ss) (simp_all add: GetBalancedStorage_def)
  then show ?thesis by blast
next
  case False
  then have l: "2 \<le> length ss" using assms(2) by (cases ss) (auto simp: Suc_le_eq)
  obtain i where i: "i = (case balanceMap st (GetActualMountPath (MountPath (storage (ss ! 0)))) of Some i \<Rightarrow> i | None \<Rightarrow> 0)"
    by simp
  have "lookups sortf path (length ss) st = map Some (rotate (Suc i) ss)"
    unfolding lookups_turns [OF assms(1) l i]
    by (rule nth_equalityI) (simp_all add: nth_rotate add.commute del: rotate_Suc)
  then show ?thesis by blast
qed

theorem GetBalancedStorage_turns_witness:
  "\<exists>k. lookups SliceStable ''/a/d/x'' 2 demo_registry =
     map Some (rotate k [demo_mount ''/a/d'', demo_mount ''/a/d.balance''])"
proof -
  have "FixAndCleanPath ''/a/d/x'' = ''/a/d/x''" by code_simp
  then have "getStoragesByPath SliceStable (FixAndCleanPath ''/a/d/x'') (storagesMap demo_registry) =
      [demo_mount ''/a/d'', demo_mount ''/a/d.balance'']"
    using storages_sorted [OF insort_sort_slice demo_mounts_ok] by (simp add: demo_longest demo_registry_def)
  from GetBalancedStorage_turns [OF this] show ?thesis by (simp add: numeral_2_eq_2)
qed

section \<open>Virtual directories\<close>

definition dir_prefix :: "string list \<Rightarrow> string" where
  "dir_prefix ps = PathAddSeparatorSuffix (abs_path ps)"

lemma dir_prefix_eq: "list_all valid_comp ps \<Longrightarrow> dir_prefix ps = (if ps = [] then ''/'' else abs_path ps @ ''/'')"
  by (cases "ps = []") (simp add: dir_prefix_def PathAddSeparatorSuffix_def has_suffix_def has_prefix_def,
    simp add: dir_prefix_def PathAddSeparatorSuffix_abs)

lemma cut_below:
  assumes "list_all valid_comp ps" and "list_all valid_comp (ps @ c # cs)"
  shows "cut_prefix (abs_path (ps @ c # cs)) (dir_prefix ps) = (join_with ''/'' (c # cs), True)"
  using assms(1) by (cases "ps = []")
    (simp_all add: dir_prefix_eq cut_prefix_def has_prefix_def abs_path_def join_with_append)

lemma cut_other:
  assumes "list_all valid_comp ps" and "list_all valid_comp cs" and "\<not> strict_prefix ps cs"
  shows "\<not> snd (cut_prefix (abs_path cs) (dir_prefix ps)) \<or> fst (cut_prefix (abs_path cs) (dir_prefix ps)) = []"
proof (cases "ps = []")
  case True
  with assms(3) have "cs = []" by (simp add: strict_prefix_def)
  with True show ?thesis by (simp add: dir_prefix_eq cut_prefix_def)
next
  case False
  with prefix_comps [of ps cs] assms have "\<not> has_prefix (abs_path cs) (abs_path ps @ ''/'')"
    by (simp add: has_prefix_prefix)
  with False assms(1) show ?thesis by (simp add: dir_prefix_eq cut_prefix_def)
qed

lemma cut_name:
  assumes "valid_comp c"
  shows "cut_byte (join_with ''/'' (c # cs)) slash = (c, (if cs = [] then [] else join_with ''/'' cs), cs \<noteq> [])"
proof -
  have "slash \<notin> set c" using assms by (simp add: valid_comp_def)
  moreover from this have "index_byte c slash = None" by (simp add: index_byte_None)
  ultimately show ?thesis by (cases cs) (simp_all add: cut_byte_append cut_byte_def)
qed

lemma virtual_step_skip:
  assumes "list_all valid_comp ps" and "GetActualMountPath (MountPath (storage d)) = abs_path (mount d)"
    and "\<not> (\<exists>c cs. mount d = ps @ c # cs \<and> (filt = [] \<or> c = filt))"
  shows "virtual_step (dir_prefix ps) filt cb d vs = Return vs"
proof (cases "strict_prefix ps (mount d)")
  case True
  then obtain c cs where m: "mount d = ps @ c # cs" by (metis strict_prefixE')
  have v: "list_all valid_comp (ps @ c # cs)" using m norm_valid by (metis mount_def)
  with assms(3) m have "filt \<noteq> [] \<and> c \<noteq> filt" by blast
  with v m show ?thesis by (simp add: virtual_step_def assms cut_below cut_name Let_def)
next
  case False
  have "list_all valid_comp (mount d)" by (simp add: mount_def)
  with cut_other [OF assms(1) _ False] show ?thesis
    by (auto simp add: virtual_step_def assms(2) split_beta)
qed

lemma virtual_step_name:
  assumes "GetActualMountPath (MountPath (storage d)) = abs_path (mount d)"
    and "mount d = ps @ c # cs" and "filt = [] \<or> c = filt"
  shows "virtual_step (dir_prefix ps) filt cb d vs =
    (case seen vs c of
       Some idx \<Rightarrow> if cs \<noteq> [] then Return vs
         else go_bind (mask_object (or Locked Virtual) (files vs ! idx))
           (\<lambda>obj. Return (start_callback cb idx d (vs\<lparr>files := (files vs)[idx := obj]\<rparr>)))
     | None \<Rightarrow>
         let vs' = vs\<lparr>seen := (seen vs)(c \<mapsto> length (files vs)),
           files := files vs @ [virtual_object c (SModified (storage d)) (if cs \<noteq> [] then or ReadOnly Virtual else or Locked Virtual)]\<rparr>
         in Return (if cs \<noteq> [] then vs' else start_callback cb (length (files vs)) d vs'))"
proof -
  have "list_all valid_comp (ps @ c # cs)" using assms(2) norm_valid by (metis mount_def)
  moreover from this have "join_with ''/'' (c # cs) \<noteq> []" by (simp add: join_with_Cons valid_comp_def)
  ultimately show ?thesis using assms(3)
    by (simp add: virtual_step_def assms(1,2) cut_below cut_name Let_def split: option.split) blast
qed

text \<open>The names below a directory that mount paths go through, and the mask of each.\<close>

definition below :: "string list \<Rightarrow> string \<Rightarrow> Driver list \<Rightarrow> string set" where
  "below ps filt ds = {c. (filt = [] \<or> c = filt) \<and> (\<exists>d \<in> set ds. prefix (ps @ [c]) (mount d))}"

definition below_mask :: "string list \<Rightarrow> Driver list \<Rightarrow> string \<Rightarrow> mask" where
  "below_mask ps ds c = (if \<exists>d \<in> set ds. mount d = ps @ [c] then or Locked Virtual else or ReadOnly Virtual)"

definition virtual_ok :: "string list \<Rightarrow> string \<Rightarrow> Driver list \<Rightarrow> vstate \<Rightarrow> bool" where
  "virtual_ok ps filt ds vs \<longleftrightarrow>
     set (map GetName (files vs)) = below ps filt ds \<and>
     (\<forall>c i. seen vs c = Some i \<longleftrightarrow> i < length (files vs) \<and> GetName (files vs ! i) = c) \<and>
     (\<forall>i < length (files vs). \<exists>x. files vs ! i = Object x \<and> IsFolder x \<and> Mask x = below_mask ps ds (Name x))"

lemma below_snoc: "below ps filt (ds @ [d]) =
    below ps filt ds \<union> {c. (filt = [] \<or> c = filt) \<and> prefix (ps @ [c]) (mount d)}"
  by (auto simp: below_def)

lemma below_mask_snoc: "below_mask ps (ds @ [d]) c = (if mount d = ps @ [c] then or Locked Virtual else below_mask ps ds c)"
  by (auto simp: below_mask_def)

lemma virtual_step_ok:
  assumes ok: "virtual_ok ps filt ds vs" and "list_all valid_comp ps"
    and path: "GetActualMountPath (MountPath (storage d)) = abs_path (mount d)"
  shows "\<exists>vs'. virtual_step (dir_prefix ps) filt None d vs = Return vs' \<and> virtual_ok ps filt (ds @ [d]) vs'"
proof (cases "\<exists>c cs. mount d = ps @ c # cs \<and> (filt = [] \<or> c = filt)")
  case False
  have "below ps filt (ds @ [d]) = below ps filt ds" using False by (auto simp: below_snoc prefix_def)
  moreover have "mount d \<noteq> ps @ [c]" if "c \<in> below ps filt ds" for c using False that by (auto simp: below_def)
  then have "below_mask ps (ds @ [d]) c = below_mask ps ds c" if "c \<in> below ps filt ds" for c
    using that by (simp add: below_mask_snoc)
  moreover have "Name x \<in> below ps filt ds" if "i < length (files vs)" "files vs ! i = Object x" for i x
  proof -
    have "GetName (files vs ! i) \<in> set (map GetName (files vs))" using that(1) by simp
    with that(2) ok show ?thesis by (simp add: virtual_ok_def)
  qed
  ultimately have "virtual_ok ps filt (ds @ [d]) vs" using ok unfolding virtual_ok_def by metis
  then show ?thesis using virtual_step_skip [OF assms(2) path False] by simp
next
  case True
  then obtain c cs where m: "mount d = ps @ c # cs" "filt = [] \<or> c = filt" by blast
  note step = virtual_step_name [OF path m, where cb = None and vs = vs]
  have bl: "below ps filt (ds @ [d]) = insert c (below ps filt ds)"
    using m by (auto simp: below_snoc)
  have mk: "below_mask ps (ds @ [d]) e = (if e = c \<and> cs = [] then or Locked Virtual else below_mask ps ds e)" for e
    using m(1) by (auto simp: below_mask_snoc)
  note ok' = ok [unfolded virtual_ok_def, THEN conjunct1] ok [unfolded virtual_ok_def, THEN conjunct2, THEN conjunct1]
    ok [unfolded virtual_ok_def, THEN conjunct2, THEN conjunct2]
  show ?thesis
  proof (cases "seen vs c")
    case None
    let ?vs = "vs\<lparr>seen := (seen vs)(c \<mapsto> length (files vs)),
      files := files vs @ [virtual_object c (SModified (storage d)) (if cs \<noteq> [] then or ReadOnly Virtual else or Locked Virtual)]\<rparr>"
    have new: "c \<notin> below ps filt ds"
    proof
      assume "c \<in> below ps filt ds"
      then obtain i where "i < length (files vs)" "GetName (files vs ! i) = c"
        unfolding ok'(1) [symmetric] by (auto simp: in_set_conv_nth)
      with ok'(2) [rule_format, of c i] None show False by simp
    qed
    have fresh: "GetName (files vs ! i) \<noteq> c" if "i < length (files vs)" for i
      using ok'(2) [rule_format, of c i] None that by simp
    from new have mk0: "below_mask ps ds c = or ReadOnly Virtual" using m(2) by (auto simp: below_def below_mask_def)
    have "virtual_ok ps filt (ds @ [d]) ?vs"
      unfolding virtual_ok_def
    proof (intro conjI allI impI)
      show "set (map GetName (files ?vs)) = below ps filt (ds @ [d])"
        using ok'(1) by (simp add: bl virtual_object_def)
      show "(seen ?vs e = Some i) = (i < length (files ?vs) \<and> GetName (files ?vs ! i) = e)" for e i
        using ok'(2) None fresh by (auto simp: nth_append virtual_object_def less_Suc_eq)
      show "\<exists>x. files ?vs ! i = Object x \<and> IsFolder x \<and> Mask x = below_mask ps (ds @ [d]) (Name x)"
        if "i < length (files ?vs)" for i
      proof (cases "i < length (files vs)")
        case True
        then obtain x where x: "files vs ! i = Object x" "IsFolder x" "Mask x = below_mask ps ds (Name x)" using ok'(3) by blast
        then have "Name x \<noteq> c" using fresh [OF True] by simp
        with x True show ?thesis by (simp add: nth_append mk)
      next
        case False
        with that have "i = length (files vs)" by simp
        then show ?thesis by (simp add: virtual_object_def mk mk0)
      qed
    qed
    then show ?thesis using step None by (cases "cs = []") (simp_all add: start_callback_def Let_def)
  next
    case (Some idx)
    then have idx: "idx < length (files vs)" "GetName (files vs ! idx) = c" using ok'(2) by auto
    then have old: "c \<in> below ps filt ds" unfolding ok'(1) [symmetric] by (metis length_map nth_map nth_mem)
    show ?thesis
    proof (cases "cs = []")
      case False
      then have "below_mask ps (ds @ [d]) = below_mask ps ds" by (auto simp: mk)
      then have "virtual_ok ps filt (ds @ [d]) vs" using ok old by (simp add: virtual_ok_def bl insert_absorb)
      with False step Some show ?thesis by simp
    next
      case True
      obtain x where x: "files vs ! idx = Object x" "IsFolder x" using ok'(3) idx by blast
      let ?vs = "vs\<lparr>files := (files vs)[idx := Object (x\<lparr>Mask := or Locked Virtual\<rparr>)]\<rparr>"
      have names: "GetName (files ?vs ! i) = GetName (files vs ! i)" for i
        using x by (cases "i = idx") (auto simp: idx)
      have "virtual_ok ps filt (ds @ [d]) ?vs"
        unfolding virtual_ok_def
      proof (intro conjI allI impI)
        have "map GetName (files ?vs) = map GetName (files vs)" using names by (intro nth_equalityI) auto
        then show "set (map GetName (files ?vs)) = below ps filt (ds @ [d])"
          using ok'(1) old by (simp only: bl insert_absorb)
        show "(seen ?vs e = Some i) = (i < length (files ?vs) \<and> GetName (files ?vs ! i) = e)" for e i
          unfolding names using ok'(2) by simp
        show "\<exists>x. files ?vs ! i = Object x \<and> IsFolder x \<and> Mask x = below_mask ps (ds @ [d]) (Name x)"
          if "i < length (files ?vs)" for i
        proof (cases "i = idx")
          case True
          then show ?thesis using x idx \<open>cs = []\<close> by (simp add: mk)
        next
          case False
          from that obtain y where y: "files vs ! i = Object y" "IsFolder y" "Mask y = below_mask ps ds (Name y)" using ok'(3) by auto
          have "Name y \<noteq> c" using ok'(2) [rule_format, of c i] Some False y that by auto
          with y False show ?thesis by (simp add: mk)
        qed
      qed
      then show ?thesis using step Some True x by (simp add: mask_object_def start_callback_def)
    qed
  qed
qed

lemma virtual_loop_ok:
  assumes "virtual_ok ps filt ds vs" and "list_all valid_comp ps"
    and "\<forall>d \<in> set es. GetActualMountPath (MountPath (storage d)) = abs_path (mount d)"
  shows "\<exists>vs'. virtual_loop (dir_prefix ps) filt None schedule es vs = Return vs' \<and> virtual_ok ps filt (ds @ es) vs'"
  using assms
proof (induction es arbitrary: ds vs schedule)
  case (Cons d es)
  from Cons.prems obtain vs1 where s: "virtual_step (dir_prefix ps) filt None d vs = Return vs1" "virtual_ok ps filt (ds @ [d]) vs1"
    using virtual_step_ok by fastforce
  from Cons.IH [OF s(2), of "tl schedule"] Cons.prems s(1) show ?case by simp
qed simp

lemma below_set: "set ds = set es \<Longrightarrow> below ps filt ds = below ps filt es \<and> below_mask ps ds = below_mask ps es"
  by (auto simp: below_def below_mask_def fun_eq_iff)

text \<open>The virtual directories of a path are exactly the names that follow it in the mount paths,
  each once, whatever the order of the storages; each is a directory, and it is locked but
  writable if a storage is mounted at it and read-only otherwise.  A filter keeps its one name.\<close>
theorem virtual_files_exact:
  assumes "sort_slice sortf" and "mounts_ok storages" and "FixAndCleanPath path = path"
  shows "\<exists>fs. getStorageVirtualFilesByPath sortf path None schedule filt storages = Return fs \<and>
    distinct (map GetName fs) \<and> set (map GetName fs) = below (norm path) filt (map snd storages) \<and>
    (\<forall>f \<in> set fs. IsDir f \<and> GetObjMask f = below_mask (norm path) (map snd storages) (GetName f))"
proof -
  let ?ds = "sortf order_less (map snd storages)" and ?vs = "\<lparr>files = [], seen = (\<lambda>_. None), pending = []\<rparr>"
  have set: "set ?ds = set (map snd storages)" using assms(1) by (metis mset_eq_setD sort_slice_def)
  have "virtual_ok (norm path) filt [] ?vs" by (simp add: virtual_ok_def below_def)
  moreover have "\<forall>d \<in> set ?ds. GetActualMountPath (MountPath (storage d)) = abs_path (mount d)"
    unfolding set using mount_path [OF assms(2)] by force
  ultimately obtain vs' where vs': "virtual_loop (dir_prefix (norm path)) filt None schedule ?ds ?vs = Return vs'"
      "virtual_ok (norm path) filt ?ds vs'"
    using virtual_loop_ok [of "norm path" filt "[]" ?vs ?ds schedule] by auto
  have p: "(if has_suffix path ''/'' then path else path @ ''/'') = dir_prefix (norm path)"
    using assms(3) by (simp add: dir_prefix_def PathAddSeparatorSuffix_def FixAndCleanPath_norm)
  note ok = vs'(2) [unfolded virtual_ok_def below_set [OF set, THEN conjunct1] below_set [OF set, THEN conjunct2]]
  have "distinct (map GetName (files vs'))"
    unfolding distinct_conv_nth using ok by (metis length_map nth_map option.inject)
  moreover have "IsDir f \<and> GetObjMask f = below_mask (norm path) (map snd storages) (GetName f)" if "f \<in> set (files vs')" for f
    using that ok by (auto simp: in_set_conv_nth IsDir_def)
  ultimately show ?thesis
    using ok vs'(1) by (simp add: getStorageVirtualFilesByPath_def p)
qed

lemma demo_below: "below [''a''] [] (map snd demo_mounts) = {''d''}"
  "below_mask [''a''] (map snd demo_mounts) ''d'' = or Locked Virtual"
  by (auto simp: below_def below_mask_def mount_def demo_mounts_def demo_mount_def demo_actual)

theorem virtual_files_exact_witness:
  "\<exists>f. getStorageVirtualFilesByPath SliceStable ''/a'' None [] [] demo_mounts = Return [f] \<and>
     GetName f = ''d'' \<and> IsDir f \<and> GetObjMask f = or Locked Virtual"
proof -
  have "FixAndCleanPath ''/a'' = ''/a''" by code_simp
  from virtual_files_exact [OF insort_sort_slice demo_mounts_ok this, of "[]" "[]"]
  obtain fs where fs: "getStorageVirtualFilesByPath SliceStable ''/a'' None [] [] demo_mounts = Return fs"
    "distinct (map GetName fs)" "set (map GetName fs) = {''d''}"
    "\<forall>f \<in> set fs. IsDir f \<and> GetObjMask f = below_mask [''a''] (map snd demo_mounts) (GetName f)"
    by (auto simp: demo_below demo_actual)
  then have "length (map GetName fs) = 1" by (metis card_1_singleton_iff distinct_card One_nat_def)
  then obtain f where "fs = [f]" by (auto simp: length_Suc_conv)
  with fs show ?thesis by (auto simp: demo_below)
qed

text \<open>With storage details, the listing panics when two storages share a mount path below the
  directory and the callback of the first has replaced the object before the second is visited:
  the code asserts that the object is still the plain one it made.\<close>
theorem virtual_details_panic:
  assumes "mounts_ok [(k, d), (k', d')]" and "mount d = norm path @ [c]" and "mount d' = mount d"
    and "sort_slice sortf" and "FixAndCleanPath path = path" and "schedule = [False, True]"
  shows "GetStorageVirtualFilesWithDetailsByPath sortf path details schedule False [] [(k, d), (k', d')] = Panic"
proof -
  let ?vs = "\<lparr>files = [], seen = (\<lambda>_. None), pending = []\<rparr>"
  have "mset (sortf order_less [d, d']) = {#d, d'#}" using assms(4) by (simp add: sort_slice_def)
  then have "sortf order_less [d, d'] = [d, d'] \<or> sortf order_less [d, d'] = [d', d]"
    by (cases "sortf order_less [d, d']" rule: remdups_adj.cases) (auto simp: add_eq_conv_ex)
  then obtain e e' where s: "sortf order_less [d, d'] = [e, e']" "e \<in> {d, d'}" "e' \<in> {d, d'}" by blast
  have m: "mount e = norm path @ [c]" "mount e' = norm path @ [c]" using s assms by auto
  have p: "(if has_suffix path ''/'' then path else path @ ''/'') = dir_prefix (norm path)"
    using assms(5) by (simp add: dir_prefix_def PathAddSeparatorSuffix_def FixAndCleanPath_norm)
  have a: "GetActualMountPath (MountPath (storage e)) = abs_path (mount e)"
      "GetActualMountPath (MountPath (storage e')) = abs_path (mount e')"
    using s mount_path [OF assms(1)] by auto
  note step = virtual_step_name [OF a(1) m(1)] virtual_step_name [OF a(2) m(2)]
  show ?thesis
    unfolding GetStorageVirtualFilesWithDetailsByPath_def getStorageVirtualFilesByPath_def Let_def p
    by (simp add: s(1) assms(6) step start_callback_def run_pending_def details_callback_def virtual_object_def
        mask_object_def)
qed

theorem virtual_details_panic_witness:
  "GetStorageVirtualFilesWithDetailsByPath SliceStable ''/a'' (\<lambda>_. None) [False, True] False []
     [(''/a/d'', demo_mount ''/a/d''), (''/a/d.balance'', demo_mount ''/a/d.balance'')] = Panic"
proof (rule virtual_details_panic [OF _ _ _ insort_sort_slice])
  show "FixAndCleanPath ''/a'' = ''/a''" by code_simp
  show "mounts_ok [(''/a/d'', demo_mount ''/a/d''), (''/a/d.balance'', demo_mount ''/a/d.balance'')]"
    by (simp add: mounts_ok_def demo_mount_def demo_actual)
  show "mount (demo_mount ''/a/d'') = norm ''/a'' @ [''d'']" by (simp add: mount_def demo_mount_def demo_actual)
  show "mount (demo_mount ''/a/d.balance'') = mount (demo_mount ''/a/d'')" by (simp add: mount_def demo_mount_def demo_actual)
qed simp

end
