(* ===== verification/StorageProps.thy ===== *)
theory StorageProps
  imports RouteProps
begin

text \<open>
  Properties of the loaded storages: whatever is created, changed, enabled, disabled, deleted or
  reloaded, with the database failing in between and the drivers failing or panicking, each loaded
  storage belongs to one enabled row and stands under the mount path of that row.
\<close>

section \<open>The invariant\<close>

definition rows_ok :: "Storage list \<Rightarrow> bool" where
  "rows_ok rs \<longleftrightarrow> distinct (map sid rs) \<and> distinct (map MountPath rs) \<and>
     (\<forall>r \<in> set rs. sid r \<noteq> 0 \<and> FixAndCleanPath (MountPath r) = MountPath r)"

definition loaded_ok :: "Storage list \<Rightarrow> (string \<times> Driver) list \<Rightarrow> bool" where
  "loaded_ok rs storages \<longleftrightarrow> distinct (map fst storages) \<and>
     (\<forall>(k, d) \<in> set storages. MountPath (storage d) = k \<and>
        (\<exists>r \<in> set rs. sid r = sid (storage d) \<and> MountPath r = k \<and> \<not> SDisabled r))"

definition registry_ok :: "('l, 'e) registry \<Rightarrow> bool" where
  "registry_ok st \<longleftrightarrow> rows_ok (srows st) \<and> loaded_ok (srows st) (storagesMap st)"

lemma registry_okI: "rows_ok (srows st) \<Longrightarrow> loaded_ok (srows st) (storagesMap st) \<Longrightarrow> registry_ok st"
  by (simp add: registry_ok_def)

lemma registry_okD: "registry_ok st \<Longrightarrow> rows_ok (srows st)" "registry_ok st \<Longrightarrow> loaded_ok (srows st) (storagesMap st)"
  by (simp_all add: registry_ok_def)

lemma rows_unique: "rows_ok rs \<Longrightarrow> r \<in> set rs \<Longrightarrow> r' \<in> set rs \<Longrightarrow> sid r = sid r' \<Longrightarrow> r = r'"
  "rows_ok rs \<Longrightarrow> r \<in> set rs \<Longrightarrow> r' \<in> set rs \<Longrightarrow> MountPath r = MountPath r' \<Longrightarrow> r = r'"
  by (auto simp: rows_ok_def distinct_map inj_on_def)

lemma set_put_storage: "distinct (map sid rs) \<Longrightarrow> set (put_storage s rs) = insert s {r \<in> set rs. sid r \<noteq> sid s}"
  by (auto simp: put_storage_def set_insort_key image_iff)

lemma distinct_put:
  assumes "distinct (map sid rs)" "distinct (map MountPath rs)" "\<not> (\<exists>r \<in> set rs. sid r \<noteq> sid s \<and> MountPath r = MountPath s)"
  shows "distinct (map sid (put_storage s rs)) \<and> distinct (map MountPath (put_storage s rs))"
proof (cases "sid s \<in> sid ` set rs")
  case True
  have "map sid (put_storage s rs) = map sid rs" using True by (simp add: put_storage_def)
  moreover have "distinct (map MountPath (put_storage s rs))" using True distinct_map_replace [OF assms(1,2), of s] assms(3)
    by (simp add: put_storage_def del: map_map) blast
  ultimately show ?thesis using assms by simp
next
  case False
  then have "MountPath s \<notin> MountPath ` set rs" using assms(3) by (auto simp: image_iff) metis
  with False assms show ?thesis by (simp add: put_storage_def distinct_map_insort)
qed

lemma rows_ok_put:
  assumes "rows_ok rs" "sid s \<noteq> 0" "FixAndCleanPath (MountPath s) = MountPath s"
    "\<not> (\<exists>r \<in> set rs. sid r \<noteq> sid s \<and> MountPath r = MountPath s)"
  shows "rows_ok (put_storage s rs)"
  using assms distinct_put [of rs s] by (auto simp: rows_ok_def set_put_storage)

lemma loaded_ok_rows:
  assumes "loaded_ok rs storages" "\<And>r. r \<in> set rs \<Longrightarrow> \<not> SDisabled r \<Longrightarrow> MountPath r \<in> fst ` set storages \<Longrightarrow>
      \<exists>r' \<in> set rs'. sid r' = sid r \<and> MountPath r' = MountPath r \<and> \<not> SDisabled r'"
  shows "loaded_ok rs' storages"
  using assms unfolding loaded_ok_def by (fastforce simp: image_iff)

lemma loaded_ok_map: "loaded_ok rs storages \<longleftrightarrow> distinct (map fst storages) \<and>
    (\<forall>k d. map_of storages k = Some d \<longrightarrow> MountPath (storage d) = k \<and>
      (\<exists>r \<in> set rs. sid r = sid (storage d) \<and> MountPath r = k \<and> \<not> SDisabled r))"
  unfolding loaded_ok_def by (auto simp: map_of_eq_Some_iff)

lemma loaded_ok_store:
  assumes "loaded_ok rs storages" "MountPath (storage d) = k"
    and "\<exists>r \<in> set rs. sid r = sid (storage d) \<and> MountPath r = k \<and> \<not> SDisabled r"
  shows "loaded_ok rs (AList.update k d storages)"
  using assms unfolding loaded_ok_map by (auto simp: update_conv' distinct_update)

lemma loaded_ok_delete: "loaded_ok rs storages \<Longrightarrow> loaded_ok rs (AList.delete k storages)"
  unfolding loaded_ok_map by (auto simp: delete_conv' distinct_delete)

lemma delete_keys: "k \<notin> fst ` set (AList.delete k storages)"
  by (simp add: AList.delete_keys flip: set_map)

section \<open>Loading\<close>

lemma db_Update_cases:
  assumes "db_UpdateStorage nid s st = (ok, s', st')" "sid s \<noteq> 0"
  shows "s' = s \<and> storagesMap st' = storagesMap st \<and> sdown st' = sdown st \<and> listings st' = listings st \<and>
    (\<not> ok \<and> st' = st \<or>
     ok \<and> srows st' = put_storage s (srows st) \<and> \<not> (\<exists>r \<in> set (srows st). sid r \<noteq> sid s \<and> MountPath r = MountPath s))"
  using assms by (auto simp: db_UpdateStorage_def split: if_splits)

lemma MustSave_cases:
  assumes "MustSaveDriverStorage fx nid d st = (d', st')" "sid (storage d) \<noteq> 0"
  shows "sid (storage d') = sid (storage d) \<and> MountPath (storage d') = MountPath (storage d) \<and>
    SDisabled (storage d') = SDisabled (storage d) \<and> storagesMap st' = storagesMap st \<and>
    (srows st' = srows st \<or> srows st' = put_storage (storage d') (srows st) \<and>
       \<not> (\<exists>r \<in> set (srows st). sid r \<noteq> sid (storage d') \<and> MountPath r = MountPath (storage d')))"
proof (cases "marshal fx")
  case None
  with assms show ?thesis by (auto simp: MustSaveDriverStorage_def saveDriverStorage_def)
next
  case (Some str)
  let ?s = "(storage d)\<lparr>Addition := str\<rparr>"
  obtain ok s1 st1 where u: "db_UpdateStorage nid ?s st = (ok, s1, st1)" by (metis prod_cases3)
  have "sid ?s \<noteq> 0" using assms(2) by simp
  from db_Update_cases [OF u this] u assms(1) Some show ?thesis
    by (auto simp: MustSaveDriverStorage_def saveDriverStorage_def)
qed

lemma put_same:
  assumes "rows_ok rs" "loaded_ok rs storages" "r \<in> set rs" "sid r = sid t" "MountPath r = MountPath t" "\<not> SDisabled t"
    "\<not> (\<exists>r \<in> set rs. sid r \<noteq> sid t \<and> MountPath r = MountPath t)"
  shows "rows_ok (put_storage t rs) \<and> loaded_ok (put_storage t rs) storages"
proof
  have d: "distinct (map sid rs)" using assms(1) by (simp add: rows_ok_def)
  show "rows_ok (put_storage t rs)"
    using assms by (intro rows_ok_put) (auto simp: rows_ok_def)
  show "loaded_ok (put_storage t rs) storages"
  proof (rule loaded_ok_rows [OF assms(2)])
    fix r' assume r': "r' \<in> set rs" "\<not> SDisabled r'"
    show "\<exists>r'' \<in> set (put_storage t rs). sid r'' = sid r' \<and> MountPath r'' = MountPath r' \<and> \<not> SDisabled r''"
    proof (cases "sid r' = sid t")
      case True
      with rows_unique(1) [OF assms(1)] r' assms(3,4) have "r' = r" by metis
      with assms show ?thesis by (auto simp: set_put_storage [OF d])
    next
      case False
      with r' show ?thesis by (auto simp: set_put_storage [OF d])
    qed
  qed
qed

lemma initStorage_ok:
  assumes ok: "registry_ok st"
    and row: "r \<in> set (srows st)" "sid r = sid s" "MountPath r = MountPath s" "\<not> SDisabled r" "\<not> SDisabled s"
    and run: "initStorage sanitize fx nid s d st = (err, d', st')"
  shows "registry_ok st'"
proof -
  note reg = registry_okD [OF ok]
  have nz: "sid s \<noteq> 0" using reg(1) row by (auto simp: rows_ok_def)
  obtain status d0 st0 where d0: "MustSaveDriverStorage fx nid (d\<lparr>storage := SetStatus status s\<rparr>) st = (d0, st0)"
    and st': "st' = store_driver (MountPath (storage d0)) d0 st0"
    using run unfolding initStorage_def Let_def by (auto split: prod.splits)
  have "sid (storage (d\<lparr>storage := SetStatus status s\<rparr>)) \<noteq> 0" using nz by (simp add: SetStatus_def)
  note m = MustSave_cases [OF d0 this]
  let ?t = "storage d0"
  have t: "sid ?t = sid s" "MountPath ?t = MountPath s" "\<not> SDisabled ?t" using m row by (auto simp: SetStatus_def)
  have "rows_ok (srows st0) \<and> loaded_ok (srows st0) (storagesMap st) \<and>
      (\<exists>r \<in> set (srows st0). sid r = sid ?t \<and> MountPath r = MountPath ?t \<and> \<not> SDisabled r)"
  proof (cases "srows st0 = srows st")
    case True
    with reg row t show ?thesis by auto
  next
    case False
    with m have s: "srows st0 = put_storage ?t (srows st)"
        "\<not> (\<exists>r \<in> set (srows st). sid r \<noteq> sid ?t \<and> MountPath r = MountPath ?t)" by auto
    have "distinct (map sid (srows st))" using reg(1) by (simp add: rows_ok_def)
    with put_same [OF reg row(1)] s row t show ?thesis by (simp add: set_put_storage)
  qed
  then show ?thesis using m loaded_ok_store
    by (intro registry_okI) (auto simp: st' store_driver_def)
qed

section \<open>The operations\<close>

lemma hooks_ok [simp]: "registry_ok (callStorageHooks typ d st) = registry_ok st"
  by (simp add: registry_ok_def callStorageHooks_def)

lemma find_row: "db_GetStorageById i st = Some s \<Longrightarrow> s \<in> set (srows st) \<and> (i = 0 \<or> sid s = i) \<and> \<not> sdown st"
  by (auto simp: db_GetStorageById_def find_Some_iff split: if_splits)

lemma clean_row: "registry_ok st \<Longrightarrow> s \<in> set (srows st) \<Longrightarrow> FixAndCleanPath (MountPath s) = MountPath s"
  by (simp add: registry_ok_def rows_ok_def)

lemma db_Create_ok:
  assumes "registry_ok st" "db_CreateStorage nid s st = (True, s', st')" "nid \<noteq> 0" "FixAndCleanPath (MountPath s) = MountPath s"
  shows "registry_ok st'" "s' \<in> set (srows st')" "MountPath s' = MountPath s" "SDisabled s' = SDisabled s"
    "storagesMap st' = storagesMap st" "srows st' = insort_key sid s' (srows st)" "s' \<notin> set (srows st)"
    "MountPath s' \<notin> MountPath ` set (srows st)"
proof -
  let ?s = "if sid s = 0 then s\<lparr>sid := nid\<rparr> else s"
  have run: "s' = ?s" "st' = st\<lparr>srows := insort_key sid ?s (srows st)\<rparr>"
      "sid ?s \<notin> sid ` set (srows st)" "MountPath ?s \<notin> MountPath ` set (srows st)"
    using assms(2) unfolding db_CreateStorage_def Let_def by (auto split: if_splits)
  then show "s' \<in> set (srows st')" "MountPath s' = MountPath s" "SDisabled s' = SDisabled s" "storagesMap st' = storagesMap st"
      "srows st' = insort_key sid s' (srows st)" "s' \<notin> set (srows st)" "MountPath s' \<notin> MountPath ` set (srows st)"
    by (auto simp: set_insort_key)
  have "rows_ok (srows st')"
    using registry_okD(1) [OF assms(1)] run assms(3,4) by (auto simp: rows_ok_def distinct_map_insort set_insort_key)
  moreover have "loaded_ok (srows st') (storagesMap st)"
    by (rule loaded_ok_rows [OF registry_okD(2) [OF assms(1)]]) (auto simp: run set_insort_key)
  ultimately show "registry_ok st'" by (simp add: registry_ok_def run(2))
qed

lemma CreateStorage_ok:
  assumes ok: "registry_ok st" and "nid \<noteq> 0" and "\<not> SDisabled s"
    and run: "CreateStorage driverMap sanitize fx nid now s st = (r, st')"
  shows "registry_ok st'"
proof -
  let ?s = "s\<lparr>SModified := now, MountPath := FixAndCleanPath (MountPath s)\<rparr>"
  obtain created s1 st1 where c: "db_CreateStorage nid ?s st = (created, s1, st1)" by (metis prod_cases3)
  show ?thesis
  proof (cases "driverMap (DriverName s) = None \<or> \<not> created")
    case True
    then have "st' = st" using run c by (auto simp: CreateStorage_def GetDriver_def db_CreateStorage_def Let_def split: if_splits option.splits)
    with ok show ?thesis by simp
  next
    case False
    with c have "db_CreateStorage nid ?s st = (True, s1, st1)" by simp
    note dc = db_Create_ok [OF ok this assms(2)]
    from False obtain cfg where cfg: "driverMap (DriverName s) = Some cfg" by auto
    obtain err d2 st2 where i: "initStorage sanitize fx nid s1 (new_driver cfg s1) st1 = (err, d2, st2)" by (metis prod_cases3)
    have "registry_ok st2"
      by (rule initStorage_ok [OF _ _ refl refl _ _ i, of ]) (use dc assms(3) in simp_all)
    moreover have "st' = callStorageHooks ''add'' d2 st2"
      using run c False cfg i by (simp add: CreateStorage_def GetDriver_def Let_def)
    ultimately show ?thesis by simp
  qed
qed

lemma LoadStorage_ok:
  assumes ok: "registry_ok st" and "s \<in> set (srows st)" and "\<not> SDisabled s"
    and run: "LoadStorage driverMap sanitize fx nid s st = (r, st')"
  shows "registry_ok st'"
proof (cases "driverMap (DriverName s)")
  case None
  then show ?thesis using run ok by (simp add: LoadStorage_def GetDriver_def Let_def)
next
  case (Some cfg)
  have s: "s\<lparr>MountPath := FixAndCleanPath (MountPath s)\<rparr> = s" using clean_row [OF ok assms(2)] by simp
  obtain err d2 st2 where i: "initStorage sanitize fx nid s (new_driver cfg s) st = (err, d2, st2)" by (metis prod_cases3)
  have "registry_ok st2" by (rule initStorage_ok [OF ok assms(2) refl refl assms(3) assms(3) i])
  then show ?thesis using run Some s i by (auto simp: LoadStorage_def GetDriver_def Let_def)
qed

lemma EnableStorage_ok:
  assumes ok: "registry_ok st" and run: "EnableStorage driverMap sanitize fx nid i st = (r, st')"
  shows "registry_ok st'"
proof (cases "db_GetStorageById i st")
  case None
  then show ?thesis using run ok by (simp add: EnableStorage_def)
next
  case (Some s)
  note row = find_row [OF Some]
  have nz: "sid s \<noteq> 0" using row registry_okD(1) [OF ok] by (simp add: rows_ok_def)
  let ?s = "s\<lparr>SDisabled := False\<rparr>"
  obtain saved s1 st1 where u: "db_UpdateStorage nid ?s st = (saved, s1, st1)" by (metis prod_cases3)
  have "sid ?s \<noteq> 0" using nz by simp
  note uc = db_Update_cases [OF u this]
  show ?thesis
  proof (cases "SDisabled s \<and> saved")
    case False
    then show ?thesis using run Some u uc ok by (cases "SDisabled s") (auto simp: EnableStorage_def Let_def)
  next
    case True
    with uc have w: "s1 = ?s" "srows st1 = put_storage ?s (srows st)" "storagesMap st1 = storagesMap st"
        "\<not> (\<exists>r \<in> set (srows st). sid r \<noteq> sid ?s \<and> MountPath r = MountPath ?s)" by simp_all
    have "registry_ok st1" using put_same [OF registry_okD [OF ok], of s ?s] row w by (simp add: registry_ok_def)
    moreover have "s1 \<in> set (srows st1)" using w registry_okD(1) [OF ok] by (simp add: rows_ok_def set_put_storage)
    moreover obtain r2 st2 where l: "LoadStorage driverMap sanitize fx nid s1 st1 = (r2, st2)" by fastforce
    ultimately have "registry_ok st2" using LoadStorage_ok [of st1 s1] w(1) by simp
    then show ?thesis using run Some u True l by (simp add: EnableStorage_def Let_def)
  qed
qed

lemma loaded_ok_without:
  assumes "rows_ok rs" "loaded_ok rs storages" "s \<in> set rs"
    and "\<And>r. r \<in> set rs \<Longrightarrow> r \<noteq> s \<Longrightarrow> r \<in> set rs'"
  shows "loaded_ok rs' (AList.delete (MountPath s) storages)"
proof (rule loaded_ok_rows [OF loaded_ok_delete [OF assms(2)]])
  fix r assume r: "r \<in> set rs" "\<not> SDisabled r" "MountPath r \<in> fst ` set (AList.delete (MountPath s) storages)"
  then have "r \<noteq> s" using delete_keys by metis
  with r assms(4) show "\<exists>r' \<in> set rs'. sid r' = sid r \<and> MountPath r' = MountPath r \<and> \<not> SDisabled r'" by blast
qed

lemma disabled_not_loaded:
  assumes "rows_ok rs" "loaded_ok rs storages" "s \<in> set rs" "SDisabled s"
    and "\<And>r. r \<in> set rs \<Longrightarrow> r \<noteq> s \<Longrightarrow> r \<in> set rs'"
  shows "loaded_ok rs' storages"
  by (rule loaded_ok_rows [OF assms(2)]) (use assms(4,5) in blast)

lemma put_keeps: "rows_ok rs \<Longrightarrow> s \<in> set rs \<Longrightarrow> sid t = sid s \<Longrightarrow> r \<in> set rs \<Longrightarrow> r \<noteq> s \<Longrightarrow> r \<in> set (put_storage t rs)"
  using rows_unique(1) by (auto simp: rows_ok_def set_put_storage)

lemma DisableStorage_ok:
  assumes ok: "registry_ok st" and run: "DisableStorage fx nid i st = (r, st')"
  shows "registry_ok st'"
proof (cases "db_GetStorageById i st")
  case None
  then show ?thesis using run ok by (simp add: DisableStorage_def)
next
  case (Some s)
  note row = find_row [OF Some] and reg = registry_okD [OF ok]
  let ?t = "SetStatus DISABLED (s\<lparr>SDisabled := True\<rparr>)"
  obtain saved s1 st1 where u: "db_UpdateStorage nid ?t st = (saved, s1, st1)" by (metis prod_cases3)
  have "sid ?t \<noteq> 0" using row reg(1) by (simp add: rows_ok_def SetStatus_def)
  note uc = db_Update_cases [OF u this]
  show ?thesis
  proof (cases "\<not> SDisabled s \<and> (\<exists>d. GetStorageByMountPath (MountPath s) st = Inr d) \<and> drop_error fx = None \<and> saved")
    case False
    then have "st' = st" using run Some u uc
      by (cases "SDisabled s") (auto simp: DisableStorage_def Let_def split: sum.splits if_splits)
    with ok show ?thesis by simp
  next
    case True
    then obtain d where d: "GetStorageByMountPath (MountPath s) st = Inr d" by blast
    from True uc have w: "s1 = ?t" "srows st1 = put_storage ?t (srows st)" "storagesMap st1 = storagesMap st"
        "\<not> (\<exists>r \<in> set (srows st). sid r \<noteq> sid ?t \<and> MountPath r = MountPath ?t)" by simp_all
    have "registry_ok (drop_driver (MountPath s) st1)"
    proof (rule registry_okI)
      show "rows_ok (srows (drop_driver (MountPath s) st1))"
        using rows_ok_put [OF reg(1), of ?t] row reg(1) w by (simp add: drop_driver_def rows_ok_def SetStatus_def)
      show "loaded_ok (srows (drop_driver (MountPath s) st1)) (storagesMap (drop_driver (MountPath s) st1))"
        using loaded_ok_without [OF reg, of s "put_storage ?t (srows st)"] put_keeps [OF reg(1), of s ?t] row w
        by (simp add: drop_driver_def SetStatus_def)
    qed
    then show ?thesis using run Some u True d w(1) by (auto simp: DisableStorage_def Let_def SetStatus_def)
  qed
qed

lemma forget_driver_ok: "forget_driver d st = Some st' \<Longrightarrow> srows st' = srows st \<and> storagesMap st' = storagesMap st"
  by (auto simp: forget_driver_def)

lemma DeleteStorageById_ok:
  assumes ok: "registry_ok st" and run: "DeleteStorageById fx i st = Some (r, st')"
  shows "registry_ok st'"
proof (cases "db_GetStorageById i st")
  case None
  then show ?thesis using run ok by (auto simp: DeleteStorageById_def)
next
  case (Some s)
  note row = find_row [OF Some] and reg = registry_okD [OF ok]
  let ?rs = "filter (\<lambda>r. sid r \<noteq> i) (srows st)"
  have rs: "rows_ok ?rs" using reg(1) by (auto simp: rows_ok_def distinct_map_filter)
  have keeps: "r \<in> set (srows st) \<Longrightarrow> r \<noteq> s \<Longrightarrow> r \<in> set ?rs" for r
    using row rows_unique(1) [OF reg(1)] reg(1) by (auto simp: rows_ok_def)
  show ?thesis
  proof (cases "SDisabled s")
    case True
    with disabled_not_loaded [OF reg _ True, of ?rs] keeps row ok rs run Some show ?thesis
      by (auto simp: DeleteStorageById_def db_DeleteStorageById_def registry_ok_def split: if_splits)
  next
    case False
    show ?thesis
    proof (cases "GetStorageByMountPath (MountPath s) st")
      case (Inl e)
      with run Some False ok show ?thesis by (auto simp: DeleteStorageById_def)
    next
      case (Inr d)
      with run Some False obtain st1 where f: "forget_driver d (drop_driver (MountPath s) st) = Some st1"
        by (auto simp: DeleteStorageById_def)
      with run Some False Inr have st': "st' = snd (db_DeleteStorageById i (callStorageHooks ''del'' d st1))"
        by (auto simp: DeleteStorageById_def split: prod.splits)
      note fd = forget_driver_ok [OF f]
      have "loaded_ok rs' (AList.delete (MountPath s) (storagesMap st))" if "rs' = srows st \<or> rs' = ?rs" for rs'
        using that loaded_ok_without [OF reg] row keeps by blast
      then show ?thesis using fd rs reg(1)
        by (auto simp: registry_ok_def st' db_DeleteStorageById_def callStorageHooks_def drop_driver_def)
    qed
  qed
qed

text \<open>The row an update writes; the entry of the old mount path is the only one it may leave stale.\<close>

definition update_written :: "Storage \<Rightarrow> Storage \<Rightarrow> ('l, 'e) registry \<Rightarrow> Storage \<Rightarrow> ('l, 'e) registry \<Rightarrow> bool" where
  "update_written old s st s' st' \<longleftrightarrow>
     rows_ok (srows st') \<and> storagesMap st' = storagesMap st \<and> s' \<in> set (srows st') \<and>
     MountPath s' = MountPath s \<and> SDisabled s' = SDisabled s \<and>
     loaded_ok (srows st') (AList.delete (MountPath old) (storagesMap st)) \<and>
     (MountPath old = MountPath s \<or> SDisabled s \<longrightarrow> loaded_ok (srows st') (storagesMap st))"

lemma update_inserted:
  assumes "registry_ok st" "nid \<noteq> 0" "FixAndCleanPath (MountPath s) = MountPath s" "sid s = 0"
    and "db_UpdateStorage nid s st = (True, s', st')"
  shows "update_written old s st s' st'"
proof -
  have "db_CreateStorage nid s st = (True, s', st')" using assms(4,5) by (simp add: db_UpdateStorage_def)
  note dc = db_Create_ok [OF assms(1) this assms(2,3)]
  show ?thesis
    using dc(1-5) loaded_ok_delete registry_okD [OF dc(1)] by (simp add: update_written_def)
qed

lemma update_replaced:
  assumes ok: "registry_ok st" and "FixAndCleanPath (MountPath s) = MountPath s" and nz: "sid s \<noteq> 0"
    and old: "old \<in> set (srows st)" "sid old = sid s" and keep: "SDisabled s \<Longrightarrow> SDisabled old"
    and u: "db_UpdateStorage nid s st = (True, s', st')"
  shows "update_written old s st s' st'"
proof -
  note reg = registry_okD [OF ok]
  from db_Update_cases [OF u nz] have w: "s' = s" "srows st' = put_storage s (srows st)" "storagesMap st' = storagesMap st"
    "\<not> (\<exists>r \<in> set (srows st). sid r \<noteq> sid s \<and> MountPath r = MountPath s)" by simp_all
  have keeps: "r \<in> set (srows st) \<Longrightarrow> r \<noteq> old \<Longrightarrow> r \<in> set (put_storage s (srows st))" for r
    using put_keeps [OF reg(1) old(1), of s] old(2) by simp
  have "rows_ok (srows st')" using rows_ok_put [OF reg(1), of s] assms(2) nz w by simp
  moreover have "s \<in> set (srows st')" using w reg(1) by (simp add: rows_ok_def set_put_storage)
  moreover have "loaded_ok (srows st') (AList.delete (MountPath old) (storagesMap st))"
    unfolding w(2) by (rule loaded_ok_without [OF reg old(1) keeps])
  moreover have "loaded_ok (srows st') (storagesMap st)" if "SDisabled s"
    unfolding w(2) by (rule disabled_not_loaded [OF reg old(1) keep [OF that] keeps])
  moreover have "loaded_ok (srows st') (storagesMap st)" if "MountPath old = MountPath s" "\<not> SDisabled s"
    using put_same [OF reg old(1), of s] old(2) that w by simp
  ultimately show ?thesis using w(1,3) by (cases "SDisabled s") (auto simp: update_written_def)
qed

lemma update_reload:
  assumes w: "update_written old s st s1 st1" and "\<not> SDisabled s"
    and i: "initStorage sanitize fx nid s1 d st2 = (err, d3, st3)"
    and st2: "(if MountPath old \<noteq> MountPath s then forget_driver d (drop_driver (MountPath old) st1) else Some st1) = Some st2"
  shows "registry_ok st2 \<and> registry_ok st3"
proof -
  have reg2: "registry_ok st2" "srows st2 = srows st1"
    using st2 w forget_driver_ok [of d "drop_driver (MountPath old) st1" st2]
    by (auto simp: update_written_def registry_ok_def drop_driver_def split: if_splits)
  moreover have "registry_ok st3"
    by (rule initStorage_ok [OF reg2(1) _ refl refl _ _ i]) (use w assms(2) reg2(2) in \<open>simp_all add: update_written_def\<close>)
  ultimately show ?thesis by simp
qed

lemma UpdateStorage_ok:
  assumes ok: "registry_ok st" and nid: "nid \<noteq> 0"
    and keep: "SDisabled s \<Longrightarrow> list_all (\<lambda>r. sid r = sid s \<longrightarrow> SDisabled r) (srows st)"
    and run: "UpdateStorage sanitize fx nid now s st = Some (r, st')"
  shows "registry_ok st'"
proof (cases "db_GetStorageById (sid s) st")
  case None
  then show ?thesis using run ok by (auto simp: UpdateStorage_def)
next
  case (Some old)
  note row = find_row [OF Some]
  let ?s = "s\<lparr>SModified := now, MountPath := FixAndCleanPath (MountPath s)\<rparr>"
  obtain saved s1 st1 where u: "db_UpdateStorage nid ?s st = (saved, s1, st1)" by (metis prod_cases3)
  have dbf: "\<not> saved \<longrightarrow> st1 = st" using u by (auto simp: db_UpdateStorage_def db_CreateStorage_def Let_def split: if_splits)
  have w: "update_written old ?s st s1 st1" if saved
  proof (cases "sid s = 0")
    case True
    with u that show ?thesis by (intro update_inserted [OF ok nid]) simp_all
  next
    case False
    with u that row keep show ?thesis by (intro update_replaced [OF ok]) (auto simp: list_all_iff)
  qed
  show ?thesis
  proof (cases "DriverName old = DriverName s \<and> saved \<and> \<not> SDisabled s")
    case False
    have "saved \<Longrightarrow> SDisabled s1 = SDisabled s" using w by (simp add: update_written_def)
    with False have "st' = st \<or> st' = st1 \<and> saved \<and> SDisabled s"
      using run Some u dbf unfolding UpdateStorage_def Let_def by (auto split: if_splits)
    with ok w show ?thesis by (auto simp: registry_ok_def update_written_def)
  next
    case True
    with w have w: "update_written old ?s st s1 st1" "\<not> SDisabled s1" "MountPath s1 = MountPath ?s"
      by (auto simp: update_written_def)
    show ?thesis
    proof (cases "GetStorageByMountPath (MountPath old) st1")
      case (Inl e)
      then have "st' = (if MountPath old \<noteq> MountPath ?s then drop_driver (MountPath old) st1 else st1)"
        using run Some True u w by (auto simp: UpdateStorage_def)
      with w show ?thesis by (auto simp: update_written_def registry_ok_def drop_driver_def)
    next
      case (Inr d)
      let ?start = "if MountPath old \<noteq> MountPath ?s then forget_driver d (drop_driver (MountPath old) st1) else Some st1"
      from run Some True u w Inr obtain st2 where st2: "?start = Some st2"
        by (auto simp: UpdateStorage_def split: if_splits)
      obtain err d3 st3 where i: "initStorage sanitize fx nid s1 d st2 = (err, d3, st3)" by (metis prod_cases3)
      have "st' = st2 \<or> st' = callStorageHooks ''update'' d3 st3"
        using run Some True u w Inr st2 i by (auto simp: UpdateStorage_def split: if_splits)
      with update_reload [OF w(1) _ i st2] True show ?thesis by auto
    qed
  qed
qed

section \<open>Every reachable state\<close>

text \<open>Requests of an administrator, the loading at the start and on demand, and outages of the
  database, in any order.  New storages are enabled, and an update does not disable.\<close>

inductive reg_step :: "('l, 'e) registry \<Rightarrow> ('l, 'e) registry \<Rightarrow> bool" where
  created: "nid \<noteq> 0 \<Longrightarrow> \<not> SDisabled s \<Longrightarrow> CreateStorage driverMap sanitize fx nid now s st = (r, st') \<Longrightarrow> reg_step st st'"
| loaded: "s \<in> set (srows st) \<Longrightarrow> \<not> SDisabled s \<Longrightarrow> LoadStorage driverMap sanitize fx nid s st = (e, st') \<Longrightarrow> reg_step st st'"
| enabled: "EnableStorage driverMap sanitize fx nid i st = (e, st') \<Longrightarrow> reg_step st st'"
| disabled: "DisableStorage fx nid i st = (e, st') \<Longrightarrow> reg_step st st'"
| updated: "nid \<noteq> 0 \<Longrightarrow> (SDisabled s \<Longrightarrow> list_all (\<lambda>r. sid r = sid s \<longrightarrow> SDisabled r) (srows st)) \<Longrightarrow>
    UpdateStorage sanitize fx nid now s st = Some (g, st') \<Longrightarrow> reg_step st st'"
| deleted: "DeleteStorageById fx i st = Some (e, st') \<Longrightarrow> reg_step st st'"
| outage: "reg_step st (st\<lparr>sdown := b\<rparr>)"

lemma reg_step_ok: "reg_step st st' \<Longrightarrow> registry_ok st \<Longrightarrow> registry_ok st'"
proof (induction rule: reg_step.induct)
  case (outage st b)
  then show ?case by (simp add: registry_ok_def)
qed (blast intro: CreateStorage_ok LoadStorage_ok EnableStorage_ok DisableStorage_ok UpdateStorage_ok DeleteStorageById_ok)+

lemma loaded_row:
  assumes "loaded_ok rs storages" "x \<in> set storages"
  obtains r where "r \<in> set rs" "sid r = sid (storage (snd x))" "MountPath r = fst x" "\<not> SDisabled r"
    "MountPath (storage (snd x)) = fst x"
  using assms by (cases x) (auto simp: loaded_ok_def)


text \<open>An example: a storage is created, renamed, disabled and deleted.\<close>

definition demo_effects :: effects where
  "demo_effects = \<lparr>unmarshal_error = None, is_reference = False, init_reference = (\<lambda>_. RefOk), init_outcome = InitOk,
     drop_error = None, marshal = Some ''{}'', online_api = False\<rparr>"

definition demo_drivers :: "string \<Rightarrow> Config option" where
  "demo_drivers = [''Local'' \<mapsto> config demo_driver]"

definition empty_registry :: "(string, unit) registry" where
  "empty_registry = \<lparr>srows = [], sdown = False, storagesMap = [], balanceMap = Map.empty, listings = demo_tree, hooked = []\<rparr>"

definition demo_created :: "(string, unit) registry" where
  "demo_created = snd (CreateStorage demo_drivers (\<lambda>s. s) demo_effects 1 5 (demo_storage\<lparr>sid := 0, Status := []\<rparr>) empty_registry)"

lemma demo_created_eq:
  "srows demo_created = [demo_storage\<lparr>SModified := 5, Addition := ''{}''\<rparr>] \<and>
   storagesMap demo_created = [(''/m'', demo_driver\<lparr>storage := demo_storage\<lparr>SModified := 5, Addition := ''{}''\<rparr>\<rparr>)]"
proof -
  have "FixAndCleanPath ''/m'' = ''/m''" by code_simp
  then show ?thesis
    by (simp add: demo_created_def CreateStorage_def GetDriver_def demo_drivers_def db_CreateStorage_def empty_registry_def
        initStorage_def setup_error_def demo_effects_def MustSaveDriverStorage_def saveDriverStorage_def db_UpdateStorage_def
        put_storage_def store_driver_def new_driver_def callStorageHooks_def demo_storage_def demo_driver_def SetStatus_def
        WORK_def Let_def)
qed


text \<open>An update that moves a storage which is not loaded, for one because it was disabled and
  the update enables it again, panics after it has written the row: it clears the cached tree of
  the driver before it looks at the error of finding the driver.\<close>
theorem UpdateStorage_panics:
  assumes "db_GetStorageById (sid s) st = Some old" and "DriverName old = DriverName s" and "sid s \<noteq> 0"
    and "\<not> (\<exists>r \<in> set (srows st). sid r \<noteq> sid s \<and> MountPath r = FixAndCleanPath (MountPath s))"
    and "\<not> SDisabled s" and "MountPath old \<noteq> FixAndCleanPath (MountPath s)"
    and "map_of (storagesMap st) (FixAndCleanPath (MountPath old)) = None"
  shows "map_option fst (UpdateStorage sanitize fx nid now s st) = Some Panic \<and>
    map_option (\<lambda>(_, st'). s\<lparr>SModified := now, MountPath := FixAndCleanPath (MountPath s)\<rparr> \<in> set (srows st'))
      (UpdateStorage sanitize fx nid now s st) = Some True"
proof -
  let ?s = "s\<lparr>SModified := now, MountPath := FixAndCleanPath (MountPath s)\<rparr>"
  have "\<not> sdown st" "old \<in> set (srows st)" "sid old = sid s" using find_row [OF assms(1)] assms(3) by auto
  then have "db_UpdateStorage nid ?s st = (True, ?s, st\<lparr>srows := put_storage ?s (srows st)\<rparr>)"
    using assms(3,4) by (simp add: db_UpdateStorage_def)
  moreover have "?s \<in> set (put_storage ?s (srows st))"
    using \<open>old \<in> _\<close> \<open>sid old = _\<close> by (auto simp: put_storage_def image_iff)
  ultimately show ?thesis using assms
    by (simp add: UpdateStorage_def GetStorageByMountPath_def drop_driver_def)
qed

definition demo_disabled :: "(string, unit) registry" where
  "demo_disabled = empty_registry\<lparr>srows := [demo_storage\<lparr>SDisabled := True\<rparr>]\<rparr>"

theorem UpdateStorage_panics_witness:
  "map_option fst (UpdateStorage (\<lambda>s. s) demo_effects 2 9 (demo_storage\<lparr>MountPath := ''/n''\<rparr>) demo_disabled) = Some Panic"
proof -
  have "FixAndCleanPath ''/n'' = ''/n''" by code_simp
  then show ?thesis
    by (intro conjunct1 [OF UpdateStorage_panics [of "demo_storage\<lparr>MountPath := ''/n''\<rparr>" demo_disabled "demo_storage\<lparr>SDisabled := True\<rparr>"]])
      (simp_all add: db_GetStorageById_def demo_disabled_def empty_registry_def demo_storage_def)
qed

lemma db_Create_result:
  assumes "db_CreateStorage nid s st = (ok, s', st')"
  shows "storagesMap st' = storagesMap st \<and> MountPath s' = MountPath s \<and> SDisabled s' = SDisabled s \<and> (ok \<longrightarrow> s' \<in> set (srows st'))"
proof (cases ok)
  case True
  with assms show ?thesis unfolding db_CreateStorage_def Let_def by (auto simp: set_insort_key split: if_splits)
next
  case False
  with assms show ?thesis unfolding db_CreateStorage_def Let_def by (auto split: if_splits)
qed

lemma db_Update_result:
  assumes "db_UpdateStorage nid s st = (ok, s', st')"
  shows "storagesMap st' = storagesMap st \<and> MountPath s' = MountPath s \<and> SDisabled s' = SDisabled s \<and> (ok \<longrightarrow> s' \<in> set (srows st'))"
proof (cases "sid s = 0")
  case True
  with assms db_Create_result [of nid s st] show ?thesis by (simp add: db_UpdateStorage_def)
next
  case False
  have "s \<in> set (put_storage s (srows st))" by (auto simp: put_storage_def set_insort_key image_iff)
  with db_Update_cases [OF assms False] show ?thesis by auto
qed

text \<open>An update that disables a storage writes the row and reports success, but the storage stays
  loaded and goes on serving its path.\<close>
theorem UpdateStorage_disabled_serves:
  assumes "map_of (storagesMap st) k = Some d"
    and "UpdateStorage sanitize fx nid now s st = Some (Return None, st')" and "SDisabled s"
  shows "map_of (storagesMap st') k = Some d \<and> (\<exists>r \<in> set (srows st'). SDisabled r \<and> MountPath r = FixAndCleanPath (MountPath s))"
proof -
  let ?s = "s\<lparr>SModified := now, MountPath := FixAndCleanPath (MountPath s)\<rparr>"
  obtain saved s1 st1 where u: "db_UpdateStorage nid ?s st = (saved, s1, st1)" by (metis prod_cases3)
  note w = db_Update_result [OF u]
  then have "SDisabled s1" using assms(3) by simp
  then have "saved \<and> st' = st1" using assms(2) u by (auto simp: UpdateStorage_def split: option.splits if_splits)
  with w assms(1,3) show ?thesis by auto
qed

theorem UpdateStorage_disabled_serves_witness:
  "\<exists>st'. UpdateStorage (\<lambda>s. s) demo_effects 2 9 (demo_storage\<lparr>SDisabled := True\<rparr>) demo_created = Some (Return None, st') \<and>
     map_of (storagesMap st') ''/m'' \<noteq> None \<and> (\<exists>r \<in> set (srows st'). SDisabled r \<and> MountPath r = ''/m'')"
proof -
  have m: "FixAndCleanPath ''/m'' = ''/m''" by code_simp
  have "sdown demo_created = False"
    using m by (simp add: demo_created_def CreateStorage_def GetDriver_def demo_drivers_def db_CreateStorage_def empty_registry_def
        initStorage_def setup_error_def demo_effects_def MustSaveDriverStorage_def saveDriverStorage_def db_UpdateStorage_def
        put_storage_def store_driver_def new_driver_def callStorageHooks_def demo_storage_def demo_driver_def SetStatus_def
        WORK_def Let_def)
  then obtain st' where u: "UpdateStorage (\<lambda>s. s) demo_effects 2 9 (demo_storage\<lparr>SDisabled := True\<rparr>) demo_created = Some (Return None, st')"
    using demo_created_eq m by (simp add: UpdateStorage_def db_GetStorageById_def db_UpdateStorage_def demo_storage_def)
  have "map_of (storagesMap demo_created) ''/m'' = Some (demo_driver\<lparr>storage := demo_storage\<lparr>SModified := 5, Addition := ''{}''\<rparr>\<rparr>)"
    using demo_created_eq by simp
  from UpdateStorage_disabled_serves [OF this u] u m show ?thesis by (auto simp: demo_storage_def)
qed

end
