(* ===== verification/FsRead.thy ===== *)
theory FsRead
  imports DirCache GoStrconv
begin

text \<open>
  The reading operations of \<open>internal/op/fs.go\<close>: \<open>List\<close>, \<open>Get\<close>, \<open>Link\<close> and \<open>Other\<close>, with the
  caches they read and fill.  A storage is a driver: functions on a world of any type that may
  fail, each optional where the source tests for an interface.  An operation reads the clock once.
\<close>

section \<open>Drivers\<close>

text \<open>The causes of an error; the messages wrapped around them are left out.\<close>

datatype fs_error =
    ObjectNotFound | ObjectAlreadyExists | NotFolder | NotFile | PermissionDenied | NotImplement | NotSupport
  | StorageNotInit | NotAllowed string | DriverError string

type_synonym ('w, 'a) call = "'w \<Rightarrow> (fs_error + 'a) \<times> 'w"

text \<open>A change reports the new object, if it has one, and its error.\<close>

type_synonym 'w change = "'w \<Rightarrow> (Obj option \<times> fs_error option) \<times> 'w"

datatype 'w root_kind = GetRooter "('w, Obj) call" | IRootId string | IRootPath string | NoRoot

record link_args =
  LinkType :: string
  LinkIP :: string
  UserAgent :: string

text \<open>A link refers to its closers by a number; the world counts their references.  Of its range reader it is
  kept whether there is one, and its header is left out.\<close>

record link =
  closers :: nat
  Expiration :: "int option"
  RequireReference :: bool
  LinkURL :: string
  HasReader :: bool
  Concurrency :: int
  PartSize :: int
  LinkLength :: int

record file_stream =
  fname :: string
  fsize :: int
  fmodified :: int
  fctime :: int
  fexist :: "Obj option"

record 'w backend =
  dmeta :: Driver
  root :: "'w root_kind"
  getter :: "(string \<Rightarrow> ('w, Obj) call) option"
  lister :: "bool \<Rightarrow> Obj \<Rightarrow> ('w, Obj list) call"
  linker :: "Obj \<Rightarrow> link_args \<Rightarrow> ('w, link) call"
  resolve_mode :: "(string \<Rightarrow> int) option"
  other :: "(Obj \<Rightarrow> string \<Rightarrow> ('w, string) call) option"
  mkdir :: "(Obj \<Rightarrow> string \<Rightarrow> 'w change) option"
  mover :: "(Obj \<Rightarrow> Obj \<Rightarrow> 'w change) option"
  move_to :: "(Obj \<Rightarrow> Obj \<Rightarrow> string \<Rightarrow> 'w change) option"
  renamer :: "(Obj \<Rightarrow> string \<Rightarrow> 'w change) option"
  copier :: "(Obj \<Rightarrow> Obj \<Rightarrow> 'w change) option"
  copy_to :: "(Obj \<Rightarrow> Obj \<Rightarrow> string \<Rightarrow> 'w change) option"
  remover :: "(Obj \<Rightarrow> 'w change) option"
  purger :: "(Obj \<Rightarrow> 'w change) option"
  putter :: "(Obj \<Rightarrow> file_stream \<Rightarrow> 'w change) option"
  upload_tools :: "string list option"
  upload_info :: "string \<Rightarrow> Obj \<Rightarrow> string \<Rightarrow> int \<Rightarrow> ('w, string) call"
  acquire :: "nat \<Rightarrow> 'w \<Rightarrow> bool \<times> 'w"
  closed :: "nat \<Rightarrow> 'w \<Rightarrow> bool"

text \<open>The settings an operation reads: the clock, the sorts, the table of characters, the glob
  matcher (None for a malformed pattern) and whether hooks are to run after writing.\<close>

record env =
  now :: int
  sorts :: orders
  name_map :: char_map
  glob :: "string \<Rightarrow> string \<Rightarrow> bool option"
  hooks_wanted :: bool

datatype link_exp = At int | Closers nat

type_synonym link_cache = "(link \<times> Obj, link_exp) CacheManager"

text \<open>\<open>published\<close> are the listings given to the update hooks, \<open>spawned\<close> the hook tasks started after a
  write, and \<open>released\<close> the streams that were closed.\<close>

record 'w fsys =
  world :: 'w
  caches :: link_cache
  published :: "(string \<times> Obj list) list"
  spawned :: "(string \<times> bool) list"
  released :: "string list"

section \<open>Listing\<close>

definition wrapObjsName :: "env \<Rightarrow> 'w backend \<Rightarrow> Obj list \<Rightarrow> Obj list" where
  "wrapObjsName env b files = (if getter b = None then WrapObjsName (name_map env) files else files)"

definition wrapObjName :: "env \<Rightarrow> 'w backend \<Rightarrow> Obj \<Rightarrow> Obj" where
  "wrapObjName env b obj = (if getter b = None then WrapObjName (name_map env) obj else obj)"

text \<open>The first policy line that is well formed, matches and has a number gives the minutes.\<close>

fun policy_ttl :: "(string \<Rightarrow> string \<Rightarrow> bool option) \<Rightarrow> string \<Rightarrow> int \<Rightarrow> string list \<Rightarrow> int" where
  "policy_ttl match path ttl [] = ttl"
| "policy_ttl match path ttl (configPolicy # lines) =
     (let (pattern, ttlstr, ok) = cut_byte (trim_space configPolicy) (CHR '':'')
      in if \<not> ok then policy_ttl match path ttl lines
         else if match pattern path \<noteq> Some True then policy_ttl match path ttl lines
         else let (configTtl, ok) = ParseInt ttlstr
              in if ok then configTtl else policy_ttl match path ttl lines)"

definition listing_ttl :: "env \<Rightarrow> Driver \<Rightarrow> string \<Rightarrow> int" where
  "listing_ttl env d path =
     i64 (60 * 1000000000 *
       (let policies = CustomCachePolicies (storage d)
        in if policies = [] then CacheExpiration (storage d)
           else policy_ttl (glob env) path (CacheExpiration (storage d)) (split_on (CHR 0x0A) policies)))"

text \<open>The removal of a cached tree, which ends since a cache is finite.\<close>

definition forget_tree :: "string \<Rightarrow> ('l, 'e) CacheManager \<Rightarrow> ('l, 'e) CacheManager" where
  "forget_tree key cm = (case deleteDirectoryTree key cm of Some cm \<Rightarrow> cm | None \<Rightarrow> cm)"

text \<open>A cached listing: reading it may bring its sorted copy up to date.\<close>

definition cached_list :: "env \<Rightarrow> 'w backend \<Rightarrow> string \<Rightarrow> 'w fsys \<Rightarrow> Obj list option \<times> 'w fsys" where
  "cached_list env b key st =
     (let (hit, cm) = dir_Get (now env) key (caches st)
      in case hit of
           None \<Rightarrow> (None, st\<lparr>caches := cm\<rparr>)
         | Some dc \<Rightarrow>
             let (files, dc) = GetSortedObjects (sorts env) (dmeta b) dc
             in (Some files, st\<lparr>caches := change_dir key (\<lambda>_. dc) cm\<rparr>))"

definition store_list :: "env \<Rightarrow> Driver \<Rightarrow> string \<Rightarrow> Obj list \<Rightarrow> link_cache \<Rightarrow> link_cache" where
  "store_list env d path files cm =
     (if NoCache (config d) then cm
      else if files \<noteq> [] then
        cm\<lparr>dirCache := SetWithTTL (now env) (Key d path) (newDirectoryCache files) (listing_ttl env d path) (dirCache cm)\<rparr>
      else forget_tree (Key d path) cm)"

text \<open>The listing of a directory that \<open>get_dir\<close> finds.\<close>

definition fetch_list ::
  "env \<Rightarrow> 'w backend \<Rightarrow> string \<Rightarrow> bool \<Rightarrow> bool \<Rightarrow> ('w fsys \<Rightarrow> (fs_error + Obj) \<times> 'w fsys) \<Rightarrow> 'w fsys \<Rightarrow>
     (fs_error + Obj list) \<times> 'w fsys" where
  "fetch_list env b path refresh skipHook get_dir st =
     (let (dir, st) = get_dir st
      in case dir of
           Inl e \<Rightarrow> (Inl e, st)
         | Inr dir \<Rightarrow>
             if \<not> IsDir dir then (Inl NotFolder, st)
             else
               let (r, w) = lister b refresh dir (world st); st = st\<lparr>world := w\<rparr>
               in case r of
                    Inl e \<Rightarrow> (Inl e, st)
                  | Inr files \<Rightarrow>
                      let files = arrange (sorts env) (dmeta b) (wrapObjsName env b files);
                          st = (if skipHook then st
                            else st\<lparr>published := published st @ [(GetFullPath (MountPath (storage (dmeta b))) path, files)]\<rparr>)
                      in (Inr files, st\<lparr>caches := store_list env (dmeta b) path files (caches st)\<rparr>))"

text \<open>\<open>list\<close> with its validator, which says why a listing is not acceptable.\<close>

definition list_with ::
  "env \<Rightarrow> 'w backend \<Rightarrow> string \<Rightarrow> bool \<Rightarrow> bool \<Rightarrow> (Obj list \<Rightarrow> fs_error option) \<Rightarrow>
     ('w fsys \<Rightarrow> (fs_error + Obj) \<times> 'w fsys) \<Rightarrow> 'w fsys \<Rightarrow> (fs_error + Obj list) \<times> 'w fsys" where
  "list_with env b path refresh skipHook validator get_dir st =
     (if not_ready (dmeta b) then (Inl StorageNotInit, st)
      else
        let path = FixAndCleanPath path;
            (hit, st) = (if refresh then (None, st) else cached_list env b (Key (dmeta b) path) st)
        in case hit of
             Some files \<Rightarrow>
               if validator files = None then (Inr files, st)
               else (let (r, st) = fetch_list env b path refresh skipHook get_dir st
                     in case r of Inl e \<Rightarrow> (Inl e, st)
                        | Inr files \<Rightarrow> (case validator files of Some e \<Rightarrow> (Inl e, st) | None \<Rightarrow> (Inr files, st)))
           | None \<Rightarrow>
               (let (r, st) = fetch_list env b path refresh skipHook get_dir st
                in case r of Inl e \<Rightarrow> (Inl e, st)
                   | Inr files \<Rightarrow> (case validator files of Some e \<Rightarrow> (Inl e, st) | None \<Rightarrow> (Inr files, st))))"

section \<open>Looking up\<close>

definition RootName :: string where
  "RootName = ''root''"

definition get_root :: "'w backend \<Rightarrow> 'w fsys \<Rightarrow> (fs_error + Obj) \<times> 'w fsys" where
  "get_root b st =
     (let obj = \<lparr>ID = [], Path = [], Name = RootName, Size = 0, Modified = SModified (storage (dmeta b)), Ctime = 0,
        IsFolder = True, HashInfo = [], Mask = Locked\<rparr>
      in case root b of
           GetRooter f \<Rightarrow> (let (r, w) = f (world st) in (r, st\<lparr>world := w\<rparr>))
         | IRootId i \<Rightarrow> (Inr (Object (obj\<lparr>ID := i\<rparr>)), st)
         | IRootPath p \<Rightarrow> (Inr (Object (obj\<lparr>Path := p\<rparr>)), st)
         | NoRoot \<Rightarrow> (Inl (DriverError ''please implement GetRooter or IRootPath or IRootId interface''), st))"

definition named :: "string \<Rightarrow> Obj list \<Rightarrow> Obj option" where
  "named name files = find (\<lambda>f. GetName f = name) files"

definition temp_excluded :: "bool \<Rightarrow> Obj \<Rightarrow> bool" where
  "temp_excluded excludeTemp f \<longleftrightarrow> excludeTemp \<and> ObjHasMask f Temp"

definition get_validator :: "string \<Rightarrow> bool \<Rightarrow> Obj list \<Rightarrow> fs_error option" where
  "get_validator name excludeTemp files =
     (case named name files of
        Some f \<Rightarrow> if temp_excluded excludeTemp f then Some ObjectNotFound else None
      | None \<Rightarrow> None)"

text \<open>What \<open>Get\<close> finds without listing: a result, or that it must list, and whether anew.\<close>

definition get_direct ::
  "env \<Rightarrow> 'w backend \<Rightarrow> string \<Rightarrow> bool \<Rightarrow> 'w fsys \<Rightarrow> (fs_error + Obj) option \<times> bool \<times> 'w fsys" where
  "get_direct env b path excludeTemp st =
     (let (dir, name) = path_split path;
          (hit, st) = cached_list env b (Key (dmeta b) dir) st;
          found = Option.bind hit (named name);
          refresh = (case found of Some f \<Rightarrow> temp_excluded excludeTemp f | None \<Rightarrow> False)
      in if found \<noteq> None \<and> \<not> refresh then (map_option Inr found, False, st)
         else
           let (direct, st) =
             (case getter b of
                None \<Rightarrow> (None, st)
              | Some g \<Rightarrow>
                  (let (r, w) = g path (world st)
                   in (case r of Inl e \<Rightarrow> if e = NotImplement \<or> e = NotSupport then None else Some r | Inr _ \<Rightarrow> Some r,
                       st\<lparr>world := w\<rparr>)))
           in case direct of
                Some r \<Rightarrow> (Some r, False, st)
              | None \<Rightarrow> if hit = None \<or> refresh then (None, refresh, st) else (Some (Inl ObjectNotFound), False, st))"

definition unwrap_result :: "(fs_error + Obj) \<times> 'w fsys \<Rightarrow> (fs_error + Obj) \<times> 'w fsys" where
  "unwrap_result rs = (case fst rs of Inl e \<Rightarrow> Inl e | Inr obj \<Rightarrow> Inr (UnwrapObjName obj), snd rs)"

lemma norm_append_slash: "norm (p @ ''/'') = norm p"
  using resolve_join [of "replace_byte (CHR 0x5C) ''/'' p" "[]"] by (simp add: norm_def replace_byte_def)

lemma split_shorter:
  assumes "FixAndCleanPath path \<noteq> ''/''"
  shows "length (norm (fst (path_split (FixAndCleanPath path)))) < length (norm path)"
proof (cases "norm path" rule: rev_cases)
  case Nil
  with assms show ?thesis by (simp add: FixAndCleanPath_norm)
next
  case (snoc cs c)
  then have v: "list_all valid_comp cs" "valid_comp c" using norm_valid [of path] by simp_all
  have nb: "\<forall>x \<in> set cs. CHR 0x5C \<notin> set x" using norm_no_backslash [of _ path] snoc by auto
  have n: "norm (abs_path cs) = cs" by (rule norm_abs_path) (use v nb in auto)
  have "norm (abs_path cs @ ''/'') = cs"
    using n norm_append_slash by simp
  then show ?thesis
    using snoc path_split_snoc [OF v] n by (simp add: FixAndCleanPath_norm)
qed

function op_Get :: "env \<Rightarrow> 'w backend \<Rightarrow> string \<Rightarrow> bool \<Rightarrow> 'w fsys \<Rightarrow> (fs_error + Obj) \<times> 'w fsys" where
  "op_Get env b path excludeTemp st =
     (if not_ready (dmeta b) then (Inl StorageNotInit, st)
      else if FixAndCleanPath path = ''/'' then get_root b st
      else
        (case get_direct env b (FixAndCleanPath path) excludeTemp st of
           (Some r, _, st) \<Rightarrow> (r, st)
         | (None, refresh, st) \<Rightarrow>
             (let (dir, name) = path_split (FixAndCleanPath path);
                  (r, st) = list_with env b dir refresh False (get_validator name excludeTemp)
                    (\<lambda>st. unwrap_result (op_Get env b (fst (path_split (FixAndCleanPath path))) True st)) st
              in (case r of
                    Inl _ \<Rightarrow> Inl ObjectNotFound
                  | Inr files \<Rightarrow> (case named name files of Some f \<Rightarrow> Inr f | None \<Rightarrow> Inl ObjectNotFound), st))))"
  by pat_completeness auto

termination
  by (relation "measure (\<lambda>(_, _, path, _, _). length (norm path))") (auto simp: split_shorter)

declare op_Get.simps [simp del]

definition GetUnwrap :: "env \<Rightarrow> 'w backend \<Rightarrow> string \<Rightarrow> 'w fsys \<Rightarrow> (fs_error + Obj) \<times> 'w fsys" where
  "GetUnwrap env b path st = unwrap_result (op_Get env b path True st)"

definition op_list ::
  "env \<Rightarrow> 'w backend \<Rightarrow> string \<Rightarrow> bool \<Rightarrow> bool \<Rightarrow> (Obj list \<Rightarrow> fs_error option) \<Rightarrow> 'w fsys \<Rightarrow>
     (fs_error + Obj list) \<times> 'w fsys" where
  "op_list env b path refresh skipHook validator st =
     list_with env b path refresh skipHook validator (GetUnwrap env b (FixAndCleanPath path)) st"

definition op_List :: "env \<Rightarrow> 'w backend \<Rightarrow> string \<Rightarrow> bool \<Rightarrow> bool \<Rightarrow> 'w fsys \<Rightarrow> (fs_error + Obj list) \<times> 'w fsys" where
  "op_List env b path refresh skipHook st = op_list env b path refresh skipHook (\<lambda>_. None) st"

section \<open>A storage to try things on\<close>

text \<open>A directory with a locked file, a free file and a folder that must not be written; the world is a
  log of the objects the driver was asked to change, each with the mask that forbids it.\<close>

definition demo_env :: env where
  "demo_env = \<lparr>now = 0, sorts = \<lparr>Slice = \<lambda>_ xs. xs, natural_Less = \<lambda>_ _. False\<rparr>, name_map = [],
     glob = \<lambda>_ _. Some False, hooks_wanted = True\<rparr>"

definition demo_obj :: "string \<Rightarrow> bool \<Rightarrow> mask \<Rightarrow> Obj" where
  "demo_obj name folder m =
     Object \<lparr>ID = [], Path = [], Name = name, Size = 0, Modified = 0, Ctime = 0, IsFolder = folder, HashInfo = [], Mask = m\<rparr>"

definition demo_stream :: file_stream where
  "demo_stream = \<lparr>fname = ''c'', fsize = 3, fmodified = 0, fctime = 0, fexist = None\<rparr>"

type_synonym demo_log = "(Obj \<times> mask) list"

definition demo_change :: "demo_log \<Rightarrow> demo_log change" where
  "demo_change entries w = ((None, None), w @ entries)"

definition demo_backend :: "demo_log backend" where
  "demo_backend = \<lparr>dmeta = demo_driver, root = IRootPath ''/'', getter = None,
     lister = \<lambda>_ d w. (Inr (if GetName d = RootName then [demo_obj ''a'' False Locked, demo_obj ''b'' False 0, demo_obj ''ro'' True NoWrite]
       else if GetName d = ''ro'' then [demo_obj ''c'' False 0] else []), w),
     linker = \<lambda>_ _ w. (Inr \<lparr>closers = 0, Expiration = None, RequireReference = False, LinkURL = [],
       HasReader = True, Concurrency = 0, PartSize = 0, LinkLength = 0\<rparr>, w), resolve_mode = None, other = None,
     mkdir = Some (\<lambda>d _. demo_change [(d, NoWrite)]),
     mover = Some (\<lambda>obj d. demo_change [(obj, NoMove), (d, NoWrite)]),
     move_to = Some (\<lambda>obj d _. demo_change [(obj, NoMove), (d, NoWrite)]),
     renamer = Some (\<lambda>obj _. demo_change [(obj, NoRename)]),
     copier = Some (\<lambda>_ d. demo_change [(d, NoWrite)]), copy_to = Some (\<lambda>_ d _. demo_change [(d, NoWrite)]),
     remover = Some (\<lambda>obj. demo_change [(obj, NoRemove)]), purger = None,
     putter = Some (\<lambda>d _. demo_change [(d, NoWrite)]), upload_tools = None,
     upload_info = \<lambda>_ _ _ _ w. (Inl NotImplement, w), acquire = \<lambda>_ w. (True, w), closed = \<lambda>_ _. False\<rparr>"

definition demo_fsys :: "'w \<Rightarrow> 'w fsys" where
  "demo_fsys w = \<lparr>world = w, caches = \<lparr>dirCache = \<lambda>_. None, linkCache = \<lambda>_. None, detailCache = \<lambda>_. None\<rparr>,
     published = [], spawned = [], released = []\<rparr>"

definition unlocked :: "demo_log \<Rightarrow> bool" where
  "unlocked w \<longleftrightarrow> list_all (\<lambda>(obj, m). \<not> ObjHasMask obj m) w"

end
