(* ===== verification/FsWrite.thy ===== *)
theory FsWrite
  imports FsRead Routes
begin

text \<open>
  The rest of \<open>internal/op/fs.go\<close>: links, and the operations that change a storage: \<open>MakeDir\<close>,
  \<open>Move\<close>, \<open>Rename\<close>, \<open>Copy\<close>, \<open>Remove\<close>, \<open>Purge\<close>, \<open>Put\<close> and direct uploads, with what each of them
  does to the caches and the hook tasks it starts.
\<close>

section \<open>Links\<close>

definition link_type_key :: "'w backend \<Rightarrow> string \<Rightarrow> link_args \<Rightarrow> string go" where
  "link_type_key b path args =
     go_bind
       (if LinkCacheMode (config (dmeta b)) = -1
        then (case resolve_mode b of None \<Rightarrow> Panic | Some f \<Rightarrow> Return (f path))
        else Return (LinkCacheMode (config (dmeta b))))
       (\<lambda>mode. Return (LinkType args @ (if bit mode 0 then ''/'' @ LinkIP args else []) @
          (if bit mode 1 then ''/'' @ UserAgent args else [])))"

definition link_expired :: "env \<Rightarrow> 'w backend \<Rightarrow> 'w \<Rightarrow> link_exp \<Rightarrow> bool" where
  "link_expired env b w x = (case x of At e \<Rightarrow> past (now env) e | Closers i \<Rightarrow> closed b i w)"

definition acquire_link :: "'w backend \<Rightarrow> link \<Rightarrow> 'w fsys \<Rightarrow> bool \<times> 'w fsys" where
  "acquire_link b l st =
     (let (ok, w) = acquire b (closers l) (world st) in (ok \<or> \<not> RequireReference l, st\<lparr>world := w\<rparr>))"

definition make_link ::
  "env \<Rightarrow> 'w backend \<Rightarrow> string \<Rightarrow> string \<Rightarrow> link_args \<Rightarrow> 'w fsys \<Rightarrow> (fs_error + link \<times> Obj) \<times> 'w fsys" where
  "make_link env b path typeKey args st =
     (let (r, st) = GetUnwrap env b path st
      in case r of
           Inl e \<Rightarrow> (Inl e, st)
         | Inr file \<Rightarrow>
             if IsDir file then (Inl NotFile, st)
             else
               let (r, w) = linker b file args (world st); st = st\<lparr>world := w\<rparr>
               in case r of
                    Inl e \<Rightarrow> (Inl e, st)
                  | Inr l \<Rightarrow>
                      let x = (case Expiration l of Some ttl \<Rightarrow> At (now env + ttl) | None \<Rightarrow> Closers (closers l));
                          cm = caches st
                      in (Inr (l, file),
                          st\<lparr>caches := cm\<lparr>linkCache := SetTypeWithExpirable (Key (dmeta b) path) typeKey (l, file) x (linkCache cm)\<rparr>\<rparr>))"

text \<open>The loop makes links until it gets hold of one; None when the given number of tries is used up.\<close>

fun link_loop ::
  "nat \<Rightarrow> env \<Rightarrow> 'w backend \<Rightarrow> string \<Rightarrow> string \<Rightarrow> link_args \<Rightarrow> 'w fsys \<Rightarrow>
     ((fs_error + link \<times> Obj) \<times> 'w fsys) option" where
  "link_loop 0 env b path typeKey args st = None"
| "link_loop (Suc n) env b path typeKey args st =
     (let (r, st) = make_link env b path typeKey args st
      in case r of
           Inl e \<Rightarrow> Some (Inl e, st)
         | Inr (l, file) \<Rightarrow>
             (let (ok, st) = acquire_link b l st
              in if ok then Some (Inr (l, file), st) else link_loop n env b path typeKey args st))"

definition op_Link ::
  "nat \<Rightarrow> env \<Rightarrow> 'w backend \<Rightarrow> string \<Rightarrow> link_args \<Rightarrow> 'w fsys \<Rightarrow> ((fs_error + link \<times> Obj) \<times> 'w fsys) option go" where
  "op_Link tries env b path args st =
     (if not_ready (dmeta b) then Return (Some (Inl StorageNotInit, st))
      else go_bind (link_type_key b path args) (\<lambda>typeKey.
        let (hit, c) = GetType (link_expired env b (world st)) (Key (dmeta b) path) typeKey (linkCache (caches st));
            st = st\<lparr>caches := (caches st)\<lparr>linkCache := c\<rparr>\<rparr>
        in case hit of
             None \<Rightarrow> Return (link_loop tries env b path typeKey args st)
           | Some (l, file) \<Rightarrow>
               if Expiration l \<noteq> None then Return (Some (Inr (l, file), st))
               else (let (ok, st) = acquire_link b l st
                     in if ok then Return (Some (Inr (l, file), st))
                        else Return (link_loop tries env b path typeKey args st))))"

definition op_Other :: "env \<Rightarrow> 'w backend \<Rightarrow> string \<Rightarrow> string \<Rightarrow> 'w fsys \<Rightarrow> (fs_error + string) \<times> 'w fsys" where
  "op_Other env b path request st =
     (if not_ready (dmeta b) then (Inl StorageNotInit, st)
      else case other b of
             None \<Rightarrow> (Inl NotImplement, st)
           | Some f \<Rightarrow>
               (let (r, st) = GetUnwrap env b path st
                in case r of
                     Inl e \<Rightarrow> (Inl e, st)
                   | Inr obj \<Rightarrow> (let (a, w) = f obj request (world st) in (a, st\<lparr>world := w\<rparr>))))"

section \<open>Steps shared by the changes\<close>

definition drop_file_link :: "string \<Rightarrow> 'w fsys \<Rightarrow> 'w fsys" where
  "drop_file_link key st = st\<lparr>caches := drop_link key (caches st)\<rparr>"

text \<open>A change of the cached listing of a directory, if there is one that has not expired.\<close>

definition on_listing ::
  "env \<Rightarrow> string \<Rightarrow> (link_cache \<Rightarrow> link_cache) \<Rightarrow> (directoryCache \<Rightarrow> directoryCache) \<Rightarrow> 'w fsys \<Rightarrow> 'w fsys" where
  "on_listing env key before f st =
     (case dir_Get (now env) key (caches st) of
        (None, cm) \<Rightarrow> st\<lparr>caches := cm\<rparr>
      | (Some _, cm) \<Rightarrow> st\<lparr>caches := change_dir key f (before cm)\<rparr>)"

definition spawn_hook :: "env \<Rightarrow> Obj \<Rightarrow> string \<Rightarrow> string \<Rightarrow> 'w fsys \<Rightarrow> 'w fsys" where
  "spawn_hook env obj dirPath treePath st =
     (if \<not> hooks_wanted env then st
      else st\<lparr>spawned := spawned st @ [if \<not> IsDir obj then (dirPath, False) else (treePath, True)]\<rparr>)"

definition temp_copy :: "string \<Rightarrow> Obj \<Rightarrow> Obj" where
  "temp_copy name obj = ObjWrapMask (ObjWrapName name obj) Temp"

definition apply_change ::
  "(Obj option \<times> fs_error option) \<times> 'w \<Rightarrow> 'w fsys \<Rightarrow> Obj option \<times> fs_error option \<times> 'w fsys" where
  "apply_change res st = (fst (fst res), snd (fst res), st\<lparr>world := snd res\<rparr>)"

section \<open>Directories\<close>

definition make_in :: "env \<Rightarrow> 'w backend \<Rightarrow> string \<Rightarrow> string \<Rightarrow> 'w fsys \<Rightarrow> fs_error option \<times> 'w fsys" where
  "make_in env b parentPath dirName st =
     (let (r, st) = GetUnwrap env b parentPath st
      in case r of
           Inl e \<Rightarrow> (Some e, st)
         | Inr parentDir \<Rightarrow>
             if \<not> IsDir parentDir then (Some NotFolder, st)
             else if ObjHasMask parentDir NoWrite then (Some PermissionDenied, st)
             else
               (case mkdir b of
                  None \<Rightarrow> (Some NotImplement, st)
                | Some f \<Rightarrow>
                    let (newObj, err, st) = apply_change (f parentDir dirName (world st)) st
                    in if err \<noteq> None \<and> err \<noteq> Some ObjectAlreadyExists then (err, st)
                       else if NoCache (config (dmeta b)) then (None, st)
                       else
                         let newObj = (case newObj of
                               Some obj \<Rightarrow> obj
                             | None \<Rightarrow> Object \<lparr>ID = [], Path = [], Name = dirName, Size = 0, Modified = now env, Ctime = now env,
                                 IsFolder = True, HashInfo = [], Mask = Temp\<rparr>)
                         in (None, on_listing env (Key (dmeta b) parentPath) (\<lambda>cm. cm)
                               (UpdateObject [] (wrapObjName env b newObj)) st)))"

text \<open>None when the call never returns: a driver that does not find its own root makes the call for
  the root wait for itself.\<close>

function MakeDir :: "env \<Rightarrow> 'w backend \<Rightarrow> string \<Rightarrow> 'w fsys \<Rightarrow> (fs_error option \<times> 'w fsys) option" where
  "MakeDir env b path st =
     (if not_ready (dmeta b) then Some (Some StorageNotInit, st)
      else
        (case op_Get env b (FixAndCleanPath path) False st of
           (Inr f, st) \<Rightarrow> Some (if IsDir f then None else Some (DriverError ''file exists''), st)
         | (Inl e, st) \<Rightarrow>
             if e \<noteq> ObjectNotFound then Some (Some e, st)
             else if FixAndCleanPath path = ''/'' then None
             else
               (case MakeDir env b (fst (path_split (FixAndCleanPath path))) st of
                  None \<Rightarrow> None
                | Some (Some e, st) \<Rightarrow> Some (Some e, st)
                | Some (None, st) \<Rightarrow>
                    (let (parentPath, dirName) = path_split (FixAndCleanPath path)
                     in Some (make_in env b parentPath dirName st)))))"
  by pat_completeness auto

termination
  by (relation "measure (\<lambda>(_, _, path, _). length (norm path))") (auto simp: split_shorter)

declare MakeDir.simps [simp del]

section \<open>Moving, renaming and copying\<close>

definition move_listings ::
  "env \<Rightarrow> 'w backend \<Rightarrow> string \<Rightarrow> string \<Rightarrow> Obj \<Rightarrow> string \<Rightarrow> Obj option \<Rightarrow> 'w fsys \<Rightarrow> 'w fsys" where
  "move_listings env b srcKey dstKey srcRawObj dstName newObj st =
     (let st = (if \<not> IsDir srcRawObj
            then drop_file_link (path_join [dstKey, dstName]) (drop_file_link (path_join [srcKey, GetName srcRawObj]) st)
            else st)
      in if NoCache (config (dmeta b)) then st
         else
           on_listing env dstKey (\<lambda>cm. cm)
             (UpdateObject dstName (case newObj of None \<Rightarrow> temp_copy dstName srcRawObj | Some obj \<Rightarrow> wrapObjName env b obj))
             (on_listing env srcKey
               (\<lambda>cm. if IsDir srcRawObj then forget_tree (path_join [srcKey, GetName srcRawObj]) cm else cm)
               (RemoveObject (GetName srcRawObj)) st))"

definition target_name :: "string option \<Rightarrow> Obj \<Rightarrow> string" where
  "target_name dstNames srcObj = (case dstNames of Some n \<Rightarrow> if n \<noteq> [] then n else GetName srcObj | None \<Rightarrow> GetName srcObj)"

definition change_to ::
  "(Obj \<Rightarrow> Obj \<Rightarrow> 'w change) option \<Rightarrow> (Obj \<Rightarrow> Obj \<Rightarrow> string \<Rightarrow> 'w change) option \<Rightarrow>
     Obj \<Rightarrow> Obj \<Rightarrow> string \<Rightarrow> 'w fsys \<Rightarrow> Obj option \<times> fs_error option \<times> 'w fsys" where
  "change_to plain named_as srcObj dstDir dstName st =
     (if dstName \<noteq> GetName srcObj then
        (case named_as of
           None \<Rightarrow> (None, Some NotImplement, st)
         | Some f \<Rightarrow> (let (_, err, st) = apply_change (f srcObj dstDir dstName (world st)) st in (None, err, st)))
      else
        (case plain of
           None \<Rightarrow> (None, Some NotImplement, st)
         | Some f \<Rightarrow> apply_change (f srcObj dstDir (world st)) st))"

definition op_Move :: "env \<Rightarrow> 'w backend \<Rightarrow> string \<Rightarrow> string \<Rightarrow> string option \<Rightarrow> 'w fsys \<Rightarrow> fs_error option \<times> 'w fsys" where
  "op_Move env b srcPath dstDirPath dstNames st =
     (if not_ready (dmeta b) then (Some StorageNotInit, st)
      else
        let srcPath = FixAndCleanPath srcPath
        in if PathEqual srcPath ''/'' then (Some (NotAllowed ''move root folder is not allowed''), st)
           else
             let srcDirPath = path_dir srcPath; dstDirPath = FixAndCleanPath dstDirPath
             in if dstDirPath = srcDirPath then (Some (NotAllowed ''move in place''), st)
                else
                  (case op_Get env b srcPath True st of
                     (Inl e, st) \<Rightarrow> (Some e, st)
                   | (Inr srcRawObj, st) \<Rightarrow>
                       if ObjHasMask srcRawObj NoMove then (Some PermissionDenied, st)
                       else
                         let srcObj = UnwrapObjName srcRawObj;
                             dstName = target_name dstNames srcObj
                         in (case GetUnwrap env b dstDirPath st of
                               (Inl e, st) \<Rightarrow> (Some e, st)
                             | (Inr dstDir, st) \<Rightarrow>
                                 if ObjHasMask dstDir NoWrite then (Some PermissionDenied, st)
                                 else
                                   (case change_to (mover b) (move_to b) srcObj dstDir dstName st of
                                      (_, Some e, st) \<Rightarrow> (Some e, st)
                                    | (newObj, None, st) \<Rightarrow>
                                        (None,
                                         spawn_hook env srcObj dstDirPath (path_join [dstDirPath, dstName])
                                           (move_listings env b (Key (dmeta b) srcDirPath) (Key (dmeta b) dstDirPath)
                                             srcRawObj dstName newObj st))))))"

definition op_Rename :: "env \<Rightarrow> 'w backend \<Rightarrow> string \<Rightarrow> string \<Rightarrow> 'w fsys \<Rightarrow> fs_error option \<times> 'w fsys" where
  "op_Rename env b srcPath dstName st =
     (if not_ready (dmeta b) then (Some StorageNotInit, st)
      else
        let srcPath = FixAndCleanPath srcPath
        in if PathEqual srcPath ''/'' then (Some (NotAllowed ''rename root folder is not allowed''), st)
           else
             (case op_Get env b srcPath True st of
                (Inl e, st) \<Rightarrow> (Some e, st)
              | (Inr srcRawObj, st) \<Rightarrow>
                  if ObjHasMask srcRawObj NoRename then (Some PermissionDenied, st)
                  else
                    let oldName = GetName srcRawObj; srcObj = UnwrapObjName srcRawObj
                    in (case renamer b of
                          None \<Rightarrow> (Some NotImplement, st)
                        | Some f \<Rightarrow>
                            (case apply_change (f srcObj dstName (world st)) st of
                               (_, Some e, st) \<Rightarrow> (Some e, st)
                             | (newObj, None, st) \<Rightarrow>
                                 let dirKey = Key (dmeta b) (path_dir srcPath);
                                     st = (if \<not> IsDir srcRawObj
                                       then drop_file_link (path_join [dirKey, dstName]) (drop_file_link (path_join [dirKey, oldName]) st)
                                       else st);
                                     newObj = (case newObj of None \<Rightarrow> temp_copy dstName srcObj | Some obj \<Rightarrow> obj);
                                     st = (if NoCache (config (dmeta b)) then st
                                       else on_listing env dirKey
                                         (\<lambda>cm. if IsDir srcRawObj then forget_tree (path_join [dirKey, oldName]) cm else cm)
                                         (UpdateObject oldName (wrapObjName env b newObj)) st)
                                 in (None, spawn_hook env srcObj (path_dir srcPath)
                                       (path_join [path_dir srcPath, GetName srcObj]) st)))))"

definition copy_listing ::
  "env \<Rightarrow> 'w backend \<Rightarrow> string \<Rightarrow> Obj \<Rightarrow> string \<Rightarrow> Obj option \<Rightarrow> 'w fsys \<Rightarrow> 'w fsys" where
  "copy_listing env b dstKey srcRawObj dstName newObj st =
     (let st = (if \<not> IsDir srcRawObj then drop_file_link (path_join [dstKey, dstName]) st else st)
      in if NoCache (config (dmeta b)) then st
         else on_listing env dstKey (\<lambda>cm. cm)
           (UpdateObject dstName (case newObj of None \<Rightarrow> temp_copy dstName srcRawObj | Some obj \<Rightarrow> wrapObjName env b obj)) st)"

definition op_Copy :: "env \<Rightarrow> 'w backend \<Rightarrow> string \<Rightarrow> string \<Rightarrow> string option \<Rightarrow> 'w fsys \<Rightarrow> fs_error option \<times> 'w fsys" where
  "op_Copy env b srcPath dstDirPath dstNames st =
     (if not_ready (dmeta b) then (Some StorageNotInit, st)
      else
        let srcPath = FixAndCleanPath srcPath; dstDirPath = FixAndCleanPath dstDirPath
        in if dstDirPath = path_dir srcPath then (Some (NotAllowed ''copy in place''), st)
           else
             (case op_Get env b srcPath True st of
                (Inl e, st) \<Rightarrow> (Some e, st)
              | (Inr srcRawObj, st) \<Rightarrow>
                  let srcObj = UnwrapObjName srcRawObj;
                      dstName = target_name dstNames srcObj
                  in (case GetUnwrap env b dstDirPath st of
                        (Inl e, st) \<Rightarrow> (Some e, st)
                      | (Inr dstDir, st) \<Rightarrow>
                          if ObjHasMask dstDir NoWrite then (Some PermissionDenied, st)
                          else
                            (case change_to (copier b) (copy_to b) srcObj dstDir dstName st of
                               (_, Some e, st) \<Rightarrow> (Some e, st)
                             | (newObj, None, st) \<Rightarrow>
                                 (None,
                                  spawn_hook env srcObj dstDirPath (path_join [dstDirPath, dstName])
                                    (copy_listing env b (Key (dmeta b) dstDirPath) srcRawObj dstName newObj st))))))"

section \<open>Removing\<close>

definition forget_object :: "env \<Rightarrow> Driver \<Rightarrow> string \<Rightarrow> Obj \<Rightarrow> link_cache \<Rightarrow> link_cache" where
  "forget_object env d dirPath obj cm =
     (case removeDirectoryObject (now env) d dirPath obj cm of Some cm \<Rightarrow> cm | None \<Rightarrow> cm)"

text \<open>The object to remove: \<open>Inl\<close> is an early return, of success when the object is already gone.\<close>

definition removal_target ::
  "env \<Rightarrow> 'w backend \<Rightarrow> string \<Rightarrow> 'w fsys \<Rightarrow> (fs_error option + Obj) \<times> 'w fsys" where
  "removal_target env b path st =
     (if not_ready (dmeta b) then (Inl (Some StorageNotInit), st)
      else if PathEqual (FixAndCleanPath path) ''/'' then (Inl (Some (NotAllowed ''delete root folder is not allowed'')), st)
      else
        (case op_Get env b (FixAndCleanPath path) True st of
           (Inl e, st) \<Rightarrow> (Inl (if e = ObjectNotFound then None else Some e), st)
         | (Inr rawObj, st) \<Rightarrow> (Inr rawObj, st)))"

definition remove_by ::
  "env \<Rightarrow> 'w backend \<Rightarrow> string \<Rightarrow> (Obj \<Rightarrow> 'w change) option \<Rightarrow> Obj \<Rightarrow> 'w fsys \<Rightarrow> fs_error option \<times> 'w fsys" where
  "remove_by env b path f rawObj st =
     (case f of
        None \<Rightarrow> (Some NotImplement, st)
      | Some f \<Rightarrow>
          (case apply_change (f (UnwrapObjName rawObj) (world st)) st of
             (_, Some e, st) \<Rightarrow> (Some e, st)
           | (_, None, st) \<Rightarrow>
               (None, st\<lparr>caches := forget_object env (dmeta b) (path_dir (FixAndCleanPath path)) rawObj (caches st)\<rparr>)))"

definition op_Remove :: "env \<Rightarrow> 'w backend \<Rightarrow> string \<Rightarrow> 'w fsys \<Rightarrow> fs_error option \<times> 'w fsys" where
  "op_Remove env b path st =
     (case removal_target env b path st of
        (Inl r, st) \<Rightarrow> (r, st)
      | (Inr rawObj, st) \<Rightarrow>
          if ObjHasMask rawObj NoRemove then (Some PermissionDenied, st)
          else remove_by env b path (remover b) rawObj st)"

definition op_Purge :: "env \<Rightarrow> 'w backend \<Rightarrow> string \<Rightarrow> 'w fsys \<Rightarrow> fs_error option \<times> 'w fsys" where
  "op_Purge env b path st =
     (case removal_target env b path st of
        (Inl r, st) \<Rightarrow> (r, st)
      | (Inr rawObj, st) \<Rightarrow>
          remove_by env b path (case purger b of Some f \<Rightarrow> Some f | None \<Rightarrow> remover b) rawObj st)"

section \<open>Uploading\<close>

text \<open>What an upload does with an object that stands in its place: it is removed if it is empty,
  renamed out of the way if the driver cannot overwrite, and otherwise handed to the driver.\<close>

definition make_room ::
  "env \<Rightarrow> 'w backend \<Rightarrow> string \<Rightarrow> string \<Rightarrow> Obj \<Rightarrow> file_stream \<Rightarrow> 'w fsys \<Rightarrow> (fs_error + file_stream) \<times> 'w fsys" where
  "make_room env b dstPath tempName fi file st =
     (if GetSize fi = 0 then
        (case op_Remove env b dstPath st of (Some e, st) \<Rightarrow> (Inl e, st) | (None, st) \<Rightarrow> (Inr file, st))
      else if NoOverwriteUpload (config (dmeta b)) then
        (case op_Rename env b dstPath tempName st of (Some e, st) \<Rightarrow> (Inl e, st) | (None, st) \<Rightarrow> (Inr file, st))
      else (Inr (file\<lparr>fexist := Some fi\<rparr>), st))"

definition put_listing ::
  "env \<Rightarrow> 'w backend \<Rightarrow> string \<Rightarrow> file_stream \<Rightarrow> Obj option \<Rightarrow> 'w fsys \<Rightarrow> 'w fsys" where
  "put_listing env b dstDirPath file newObj st =
     (let st = drop_file_link (Key (dmeta b) (path_join [dstDirPath, fname file])) st;
          st = (if NoCache (config (dmeta b)) then st
            else
              let newObj = wrapObjName env b (case newObj of Some obj \<Rightarrow> obj
                    | None \<Rightarrow> Object \<lparr>ID = [], Path = [], Name = fname file, Size = fsize file, Modified = fmodified file,
                        Ctime = fctime file, IsFolder = False, HashInfo = [], Mask = Temp\<rparr>)
              in on_listing env (Key (dmeta b) dstDirPath) (\<lambda>cm. cm) (UpdateObject (GetName newObj) newObj) st)
      in if hooks_wanted env then st\<lparr>spawned := spawned st @ [(dstDirPath, False)]\<rparr> else st)"

text \<open>After the upload of a driver that cannot overwrite: the old object goes back when the upload
  failed, and is removed when it succeeded.\<close>

definition settle_old ::
  "env \<Rightarrow> 'w backend \<Rightarrow> string \<Rightarrow> string \<Rightarrow> Obj option \<Rightarrow> fs_error option \<Rightarrow> 'w fsys \<Rightarrow> fs_error option \<times> 'w fsys" where
  "settle_old env b tempPath name fi err st =
     (case fi of
        Some old \<Rightarrow>
          if NoOverwriteUpload (config (dmeta b)) \<and> 0 < GetSize old then
            (if err \<noteq> None then (err, snd (op_Rename env b tempPath name st)) else op_Remove env b tempPath st)
          else (err, st)
      | None \<Rightarrow> (err, st))"

definition put_into ::
  "env \<Rightarrow> 'w backend \<Rightarrow> int \<Rightarrow> string \<Rightarrow> file_stream \<Rightarrow> Obj option \<Rightarrow> 'w fsys \<Rightarrow> fs_error option \<times> 'w fsys" where
  "put_into env b fullSize dstDirPath file fi st =
     (case GetUnwrap env b dstDirPath st of
        (Inl e, st) \<Rightarrow> (Some e, st)
      | (Inr parentDir, st) \<Rightarrow>
          if ObjHasMask parentDir NoWrite then (Some PermissionDenied, st)
          else
            let file = (if fsize file < 0 then file\<lparr>fsize := fullSize\<rparr> else file)
            in (case putter b of
                  None \<Rightarrow> (Some NotImplement, st)
                | Some f \<Rightarrow>
                    let (newObj, err, st) = apply_change (f parentDir file (world st)) st;
                        st = (if err = None then put_listing env b dstDirPath file newObj st else st)
                    in settle_old env b (path_join [dstDirPath, fname file @ ''.openlist_to_delete'']) (fname file) fi err st))"

text \<open>\<open>fullSize\<close> is the size found by reading a stream of unknown size; the stream is closed on every
  way out.\<close>

definition put_file ::
  "env \<Rightarrow> 'w backend \<Rightarrow> int \<Rightarrow> string \<Rightarrow> file_stream \<Rightarrow> 'w fsys \<Rightarrow> (fs_error option \<times> 'w fsys) option" where
  "put_file env b fullSize dstDirPath file st =
     (let dstDirPath = FixAndCleanPath dstDirPath; dstPath = path_join [dstDirPath, fname file];
          (fi, st) = GetUnwrap env b dstPath st;
          fi = (case fi of Inl _ \<Rightarrow> None | Inr obj \<Rightarrow> Some obj);
          (room, st) = (case fi of None \<Rightarrow> (Inr file, st)
            | Some old \<Rightarrow> make_room env b dstPath (fname file @ ''.openlist_to_delete'') old file st)
      in case room of
           Inl e \<Rightarrow> Some (Some e, st)
         | Inr file \<Rightarrow>
             (case MakeDir env b dstDirPath st of
                None \<Rightarrow> None
              | Some (err, st) \<Rightarrow>
                  if err \<noteq> None \<and> err \<noteq> Some ObjectAlreadyExists then Some (err, st)
                  else Some (put_into env b fullSize dstDirPath file fi st)))"

definition close_stream :: "file_stream \<Rightarrow> 'w fsys \<Rightarrow> 'w fsys" where
  "close_stream file st = st\<lparr>released := released st @ [fname file]\<rparr>"

definition op_Put ::
  "env \<Rightarrow> 'w backend \<Rightarrow> int \<Rightarrow> string \<Rightarrow> file_stream \<Rightarrow> 'w fsys \<Rightarrow> (fs_error option go \<times> 'w fsys) option" where
  "op_Put env b fullSize dstDirPath file st =
     (if not_ready (dmeta b) then Some (Return (Some StorageNotInit), close_stream file st)
      else
        (case (if OnlyIndices (config (dmeta b))
               then (case urlTreeSplitLineFormPath (path_join [dstDirPath, fname file]) of
                       Panic \<Rightarrow> Panic
                     | Return (pp, link) \<Rightarrow> Return (pp, \<lparr>fname = link, fsize = 0, fmodified = 0, fctime = 0, fexist = None\<rparr>))
               else Return (dstDirPath, file)) of
           Panic \<Rightarrow> Some (Panic, close_stream file st)
         | Return (dirPath, f) \<Rightarrow>
             map_option (\<lambda>(err, st). (Return err, close_stream file st)) (put_file env b fullSize dirPath f st)))"

definition GetDirectUploadTools :: "'w backend \<Rightarrow> string list" where
  "GetDirectUploadTools b =
     (case upload_tools b of None \<Rightarrow> [] | Some tools \<Rightarrow> if not_ready (dmeta b) then [] else tools)"

definition GetDirectUploadInfo ::
  "env \<Rightarrow> 'w backend \<Rightarrow> string \<Rightarrow> string \<Rightarrow> string \<Rightarrow> int \<Rightarrow> bool \<Rightarrow> 'w fsys \<Rightarrow> ((fs_error + string) \<times> 'w fsys) option" where
  "GetDirectUploadInfo env b tool dstDirPath dstName fileSize overwrite st =
     (if upload_tools b = None then Some (Inl NotImplement, st)
      else if not_ready (dmeta b) then Some (Inl StorageNotInit, st)
      else
        let dstDirPath = FixAndCleanPath dstDirPath;
            (taken, st) =
              (if overwrite then (None, st)
               else (case op_Get env b (path_join [dstDirPath, dstName]) False st of
                       (Inr _, st) \<Rightarrow> (Some ObjectAlreadyExists, st)
                     | (Inl e, st) \<Rightarrow> (if e \<noteq> ObjectNotFound then Some e else None, st)))
        in case taken of
             Some e \<Rightarrow> Some (Inl e, st)
           | None \<Rightarrow>
               (case MakeDir env b dstDirPath st of
                  None \<Rightarrow> None
                | Some (Some e, st) \<Rightarrow> Some (Inl e, st)
                | Some (None, st) \<Rightarrow>
                    (case GetUnwrap env b dstDirPath st of
                       (Inl e, st) \<Rightarrow> Some (Inl e, st)
                     | (Inr dstDir, st) \<Rightarrow>
                         (let (r, w) = upload_info b tool dstDir dstName fileSize (world st)
                          in Some (r, st\<lparr>world := w\<rparr>)))))"

section \<open>The hook tasks\<close>

text \<open>The listing of a tree for the hooks, to a depth; \<open>cancelled\<close> says at which directories the
  context has been cancelled or the limiter has given up.\<close>

fun publish_tree ::
  "nat \<Rightarrow> env \<Rightarrow> 'w backend \<Rightarrow> (string \<Rightarrow> bool) \<Rightarrow> string \<Rightarrow> Obj list \<Rightarrow> 'w fsys \<Rightarrow> 'w fsys"
and publish_children ::
  "nat \<Rightarrow> env \<Rightarrow> 'w backend \<Rightarrow> (string \<Rightarrow> bool) \<Rightarrow> string \<Rightarrow> Obj list \<Rightarrow> 'w fsys \<Rightarrow> 'w fsys" where
  "publish_tree depth env b cancelled dirPath listed st =
     publish_children depth env b cancelled dirPath listed
       (st\<lparr>published := published st @ [(GetFullPath (MountPath (storage (dmeta b))) dirPath, listed)]\<rparr>)"
| "publish_children depth env b cancelled dirPath [] st = st"
| "publish_children 0 env b cancelled dirPath (f # fs) st = st"
| "publish_children (Suc depth) env b cancelled dirPath (f # fs) st =
     (if \<not> IsDir f then publish_children (Suc depth) env b cancelled dirPath fs st
      else if cancelled (path_join [dirPath, GetName f]) then st
      else
        (case op_List env b (path_join [dirPath, GetName f]) False True st of
           (Inl _, st) \<Rightarrow> publish_children (Suc depth) env b cancelled dirPath fs st
         | (Inr listed, st) \<Rightarrow>
             publish_children (Suc depth) env b cancelled dirPath fs
               (publish_tree depth env b cancelled (path_join [dirPath, GetName f]) listed st)))"

definition objsUpdateHook ::
  "nat \<Rightarrow> env \<Rightarrow> 'w backend \<Rightarrow> (string \<Rightarrow> bool) \<Rightarrow> string \<Rightarrow> bool \<Rightarrow> 'w fsys \<Rightarrow> 'w fsys" where
  "objsUpdateHook depth env b cancelled dirPath recursive st =
     (case op_List env b dirPath False True st of
        (Inl _, st) \<Rightarrow> st
      | (Inr listed, st) \<Rightarrow>
          if \<not> recursive
          then st\<lparr>published := published st @ [(GetFullPath (MountPath (storage (dmeta b))) dirPath, listed)]\<rparr>
          else publish_tree depth env b cancelled dirPath listed st)"

end
