(* ===== verification/FsProps.thy ===== *)
theory FsProps
  imports FsWrite RouteProps
begin

text \<open>
  Properties of the operations on a storage.  The cache is transparent: for a storage that nobody
  changes, listing and looking up return what walking down from the root would return.  The masks
  of objects are enforced whatever the driver does.  Creating a directory always returns.
\<close>

section \<open>Looking up without a cache\<close>

definition plain_root :: "'w backend \<Rightarrow> 'w \<Rightarrow> fs_error + Obj" where
  "plain_root b w = fst (get_root b (demo_fsys w))"

definition plain_listing :: "env \<Rightarrow> 'w backend \<Rightarrow> 'w \<Rightarrow> fs_error + Obj \<Rightarrow> fs_error + Obj list" where
  "plain_listing env b w dir =
     (case dir of
        Inl e \<Rightarrow> Inl e
      | Inr d \<Rightarrow>
          if \<not> IsDir (UnwrapObjName d) then Inl NotFolder
          else (case fst (lister b False (UnwrapObjName d) w) of
                  Inl e \<Rightarrow> Inl e
                | Inr fs \<Rightarrow> Inr (arrange (sorts env) (dmeta b) (wrapObjsName env b fs))))"

function plain_Get :: "env \<Rightarrow> 'w backend \<Rightarrow> 'w \<Rightarrow> string \<Rightarrow> bool \<Rightarrow> fs_error + Obj" where
  "plain_Get env b w path excludeTemp =
     (if FixAndCleanPath path = ''/'' then plain_root b w
      else
        (case plain_listing env b w (plain_Get env b w (fst (path_split (FixAndCleanPath path))) True) of
           Inl _ \<Rightarrow> Inl ObjectNotFound
         | Inr fs \<Rightarrow>
             (case named (snd (path_split (FixAndCleanPath path))) fs of
                None \<Rightarrow> Inl ObjectNotFound
              | Some f \<Rightarrow> if temp_excluded excludeTemp f then Inl ObjectNotFound else Inr f)))"
  by pat_completeness auto

termination
  by (relation "measure (\<lambda>(_, _, _, path, _). length (norm path))") (auto simp: split_shorter)

declare plain_Get.simps [simp del]

definition plain_List :: "env \<Rightarrow> 'w backend \<Rightarrow> 'w \<Rightarrow> string \<Rightarrow> fs_error + Obj list" where
  "plain_List env b w path = plain_listing env b w (plain_Get env b w path True)"

text \<open>A driver whose reading leaves the world alone and that has to list to look up.\<close>

definition quiet :: "'w backend \<Rightarrow> 'w \<Rightarrow> bool" where
  "quiet b w \<longleftrightarrow> \<not> not_ready (dmeta b) \<and> getter b = None \<and>
     (\<forall>r d. lister b r d w = (fst (lister b False d w), w)) \<and>
     (\<forall>f. root b = GetRooter f \<longrightarrow> snd (f w) = w) \<and>
     FixAndCleanPath (GetActualMountPath (MountPath (storage (dmeta b)))) = GetActualMountPath (MountPath (storage (dmeta b)))"

definition coherent_listings :: "env \<Rightarrow> 'w backend \<Rightarrow> 'w \<Rightarrow> link_cache \<Rightarrow> bool" where
  "coherent_listings env b w cm \<longleftrightarrow>
     (\<forall>p e. FixAndCleanPath p = p \<longrightarrow> dirCache cm (Key (dmeta b) p) = Some e \<longrightarrow>
        dirtyFlags (entry_data e) = 0 \<and> plain_List env b w p = Inr (sorted_copy (entry_data e)))"

section \<open>Keys\<close>

lemma clean_abs: "FixAndCleanPath p = p \<Longrightarrow> abs_path (norm p) = p"
  by (simp add: FixAndCleanPath_norm)

lemma Key_clean:
  assumes "quiet b w"
  shows "Key (dmeta b) (FixAndCleanPath p) = abs_path (mount (dmeta b) @ norm p)"
  using assms by (simp add: Key_def GetFullPath_def quiet_def mount_def FixAndCleanPath_norm path_join_abs)
    (metis norm_valid path_join_abs)

lemma Key_inj:
  assumes "quiet b w" "FixAndCleanPath p = p" "FixAndCleanPath q = q" "Key (dmeta b) p = Key (dmeta b) q"
  shows "p = q"
proof -
  have "abs_path (mount (dmeta b) @ norm p) = abs_path (mount (dmeta b) @ norm q)"
    using assms Key_clean [OF assms(1)] by metis
  then have "norm p = norm q" by (simp add: abs_path_inj mount_def)
  then show ?thesis using clean_abs assms(2,3) by metis
qed

lemma split_dir:
  assumes "FixAndCleanPath path = path" "path \<noteq> ''/''"
  obtains cs where "norm path = cs @ [snd (path_split path)]" "norm (fst (path_split path)) = cs"
    "fst (path_split path) = (if cs = [] then ''/'' else abs_path cs @ ''/'')"
proof (cases "norm path" rule: rev_cases)
  case Nil
  with assms show ?thesis using clean_abs by fastforce
next
  case (snoc cs c)
  then have v: "list_all valid_comp cs" "valid_comp c" using norm_valid [of path] by simp_all
  have nb: "\<forall>x \<in> set cs. CHR 0x5C \<notin> set x" using norm_no_backslash [of _ path] snoc by auto
  have n: "norm (abs_path cs) = cs" by (rule norm_abs_path) (use v nb in auto)
  have "path = abs_path (cs @ [c])" using clean_abs [OF assms(1)] snoc by simp
  with path_split_snoc [OF v] have "path_split path = (if cs = [] then ''/'' else abs_path cs @ ''/'', c)" by simp
  with snoc n norm_append_slash that show ?thesis by auto
qed

lemma path_join_slash: "path_join [abs_path as, p @ ''/''] = path_join [abs_path as, p]"
proof (cases "p = []")
  case True
  then show ?thesis
    using resolve_join [of "abs_path as" "[]"] resolve_join [of "abs_path as @ ''/''" "[]"]
    by (simp add: path_join_def abs_path_def path_clean_rooted Let_def)
next
  case False
  then show ?thesis
    using resolve_join [of "abs_path as @ slash # p" "[]"]
    by (simp add: path_join_def abs_path_def path_clean_rooted Let_def)
qed

lemma Key_dir:
  assumes "quiet b w" "FixAndCleanPath path = path" "path \<noteq> ''/''"
  shows "Key (dmeta b) (fst (path_split path)) = Key (dmeta b) (FixAndCleanPath (fst (path_split path)))"
proof -
  obtain cs where cs: "norm (fst (path_split path)) = cs" "fst (path_split path) = (if cs = [] then ''/'' else abs_path cs @ ''/'')"
    by (rule split_dir [OF assms(2,3)])
  have v: "list_all valid_comp cs" using cs(1) norm_valid by metis
  have m: "GetActualMountPath (MountPath (storage (dmeta b))) = abs_path (mount (dmeta b))" "list_all valid_comp (mount (dmeta b))"
    using assms(1) by (simp_all add: quiet_def mount_def FixAndCleanPath_norm)
  show ?thesis
  proof (cases "cs = []")
    case True
    then show ?thesis using cs by (simp add: FixAndCleanPath_norm)
  next
    case False
    have "path_join [abs_path (mount (dmeta b)), abs_path cs @ ''/''] = path_join [abs_path (mount (dmeta b)), abs_path cs]"
      by (rule path_join_slash)
    then show ?thesis using cs False by (simp add: Key_def GetFullPath_def m FixAndCleanPath_norm)
  qed
qed

section \<open>The cache is transparent\<close>

lemma coherent_sub:
  assumes "coherent_listings env b w cm" "\<And>k e. dirCache cm' k = Some e \<Longrightarrow> dirCache cm k = Some e"
  shows "coherent_listings env b w cm'"
  using assms unfolding coherent_listings_def by blast

lemma dir_Get_sub: "dir_Get t key cm = (r, cm') \<Longrightarrow> (\<forall>k e. dirCache cm' k = Some e \<longrightarrow> dirCache cm k = Some e) \<and>
    (case r of None \<Rightarrow> True | Some dc \<Rightarrow> cm' = cm \<and> (\<exists>e. dirCache cm key = Some e \<and> entry_data e = dc))"
  by (auto simp: dir_Get_def Get_def Let_def split: option.splits if_splits prod.splits)

lemma cached_list_ok:
  assumes "coherent_listings env b w (caches st)" "FixAndCleanPath p = p" "world st = w"
    and "cached_list env b (Key (dmeta b) p) st = (hit, st')"
  shows "coherent_listings env b w (caches st') \<and> world st' = w \<and>
    (case hit of None \<Rightarrow> True | Some fs \<Rightarrow> plain_List env b w p = Inr fs)"
proof -
  obtain r cm where g: "dir_Get (now env) (Key (dmeta b) p) (caches st) = (r, cm)" by fastforce
  note sub = dir_Get_sub [OF g]
  show ?thesis
  proof (cases r)
    case None
    then have "hit = None" "st' = st\<lparr>caches := cm\<rparr>" using assms(4) g by (simp_all add: cached_list_def)
    moreover have "coherent_listings env b w cm" by (rule coherent_sub [OF assms(1)]) (use sub in blast)
    ultimately show ?thesis using assms(3) by simp
  next
    case (Some dc)
    with conjunct2 [OF sub] have "cm = caches st \<and> (\<exists>e. dirCache (caches st) (Key (dmeta b) p) = Some e \<and> entry_data e = dc)" by simp
    then obtain e where e: "cm = caches st" "dirCache (caches st) (Key (dmeta b) p) = Some e" "entry_data e = dc" by blast
    then have dc: "dirtyFlags dc = 0" "plain_List env b w p = Inr (sorted_copy dc)"
      using assms(1,2) by (auto simp: coherent_listings_def)
    have "hit = Some (sorted_copy dc)" "st' = st\<lparr>caches := change_dir (Key (dmeta b) p) (\<lambda>_. dc) (caches st)\<rparr>"
      using assms(4) g Some e dc by (simp_all add: cached_list_def GetSortedObjects_def)
    moreover have "change_dir (Key (dmeta b) p) (\<lambda>_. dc) (caches st) = caches st"
    proof -
      have "e\<lparr>entry_data := dc\<rparr> = e" using e(3) by auto
      then have "(dirCache (caches st))(Key (dmeta b) p := map_option (\<lambda>e. e\<lparr>entry_data := dc\<rparr>) (dirCache (caches st) (Key (dmeta b) p))) =
          dirCache (caches st)" using e(2) by (simp add: fun_upd_idem)
      then show ?thesis unfolding change_dir_def by simp
    qed
    ultimately show ?thesis using assms dc by simp
  qed
qed

lemma delete_tasks_sub:
  assumes "delete_tasks ts cm = Some cm'"
  shows "dirCache cm' k = Some e \<longrightarrow> dirCache cm k = Some e"
proof (rule delete_tasks.raw_induct [where P = "\<lambda>ts cm cm'. dirCache cm' k = Some e \<longrightarrow> dirCache cm k = Some e", OF _ assms])
  fix f and ts and cm cm' :: "('a, 'b) CacheManager"
  assume IH: "\<And>ts cm cm'. f ts cm = Some cm' \<Longrightarrow> dirCache cm' k = Some e \<longrightarrow> dirCache cm k = Some e"
    and r: "(case ts of [] \<Rightarrow> Some cm
      | Links key # ts \<Rightarrow> f ts (cm\<lparr>linkCache := DeleteKey key (linkCache cm)\<rparr>)
      | Tree key # ts \<Rightarrow> (case Pop key (dirCache cm) of (None, c) \<Rightarrow> f ts cm
         | (Some dc, c) \<Rightarrow> f (child_tasks key dc @ ts) (cm\<lparr>dirCache := c\<rparr>))) = Some cm'"
  show "dirCache cm' k = Some e \<longrightarrow> dirCache cm k = Some e"
  proof (cases ts)
    case Nil
    with r show ?thesis by simp
  next
    case (Cons t ts')
    show ?thesis
    proof (cases t)
      case (Links key)
      with r Cons IH show ?thesis by fastforce
    next
      case (Tree key)
      show ?thesis
      proof (cases "dirCache cm key")
        case None
        with r Cons Tree IH show ?thesis by (simp add: Pop_def)
      next
        case (Some x)
        with r Cons Tree have "f (child_tasks key (entry_data x) @ ts') (cm\<lparr>dirCache := (dirCache cm)(key := None)\<rparr>) = Some cm'"
          by (simp add: Pop_def)
        from IH [OF this] show ?thesis by (auto split: if_splits)
      qed
    qed
  qed
qed

lemma forget_tree_sub: "dirCache (forget_tree key cm) k = Some e \<Longrightarrow> dirCache cm k = Some e"
  using delete_tasks_sub [THEN mp] by (auto simp: forget_tree_def deleteDirectoryTree_def split: option.splits)

lemma store_list_ok:
  assumes "quiet b w" "coherent_listings env b w cm" "FixAndCleanPath p = p" "plain_List env b w p = Inr fs"
  shows "coherent_listings env b w (store_list env (dmeta b) p fs cm)"
proof (cases "NoCache (config (dmeta b)) \<or> fs = []")
  case True
  have "coherent_listings env b w (forget_tree (Key (dmeta b) p) cm)"
    by (rule coherent_sub [OF assms(2)]) (rule forget_tree_sub)
  with True assms(2) show ?thesis by (auto simp: store_list_def)
next
  case False
  then show ?thesis
    using assms Key_inj [OF assms(1) _ assms(3)]
    by (auto simp: store_list_def coherent_listings_def SetWithTTL_def SetWithExpirable_def newDirectoryCache_def split: if_splits)
qed

lemma fetch_list_ok:
  assumes "quiet b w" "FixAndCleanPath p = p"
    and "fst (get_dir st) = (case plain_Get env b w p True of Inl e \<Rightarrow> Inl e | Inr d \<Rightarrow> Inr (UnwrapObjName d))"
    and "world (snd (get_dir st)) = w" "coherent_listings env b w (caches (snd (get_dir st)))"
    and "fetch_list env b p refresh skipHook get_dir st = (r, st')"
  shows "r = plain_List env b w p \<and> world st' = w \<and> coherent_listings env b w (caches st')"
proof -
  obtain d st1 where d: "get_dir st = (d, st1)" by fastforce
  have l: "lister b refresh o' w = (fst (lister b False o' w), w)" for o' using assms(1) unfolding quiet_def by blast
  show ?thesis
  proof (cases "plain_Get env b w p True")
    case (Inl e)
    with assms d show ?thesis by (auto simp: fetch_list_def plain_List_def plain_listing_def)
  next
    case (Inr dir)
    then have pl: "plain_List env b w p = plain_listing env b w (Inr dir)" by (simp add: plain_List_def)
    have gd: "get_dir st = (Inr (UnwrapObjName dir), st1)" "world st1 = w" "coherent_listings env b w (caches st1)"
      using assms(3-5) d Inr by simp_all
    show ?thesis
    proof (cases "\<exists>fs. IsDir (UnwrapObjName dir) \<and> fst (lister b False (UnwrapObjName dir) w) = Inr fs")
      case False
      show ?thesis
      proof (cases "IsDir (UnwrapObjName dir)")
        case True
        with False obtain e where e: "fst (lister b False (UnwrapObjName dir) w) = Inl e"
          by (cases "fst (lister b False (UnwrapObjName dir) w)") auto
        have "(r, st') = (Inl e, st1\<lparr>world := w\<rparr>)" using assms(6) gd(1,2) l True e by (simp add: fetch_list_def)
        moreover have "plain_List env b w p = Inl e" using True e by (simp add: pl plain_listing_def)
        ultimately show ?thesis using gd by simp
      next
        case False
        with assms(6) gd show ?thesis by (auto simp add: fetch_list_def pl plain_listing_def)
      qed
    next
      case True
      then obtain fs where fs: "IsDir (UnwrapObjName dir)" "fst (lister b False (UnwrapObjName dir) w) = Inr fs" by blast
      let ?fs = "arrange (sorts env) (dmeta b) (wrapObjsName env b fs)"
      have pl': "plain_List env b w p = Inr ?fs" using fs by (simp add: pl plain_listing_def)
      have "r = Inr ?fs" "world st' = w" "caches st' = store_list env (dmeta b) p ?fs (caches st1)"
        using assms(3-6) d Inr fs l by (auto simp: fetch_list_def Let_def split: if_splits)
      with store_list_ok [OF assms(1) _ assms(2) pl'] assms(5) d pl' show ?thesis by simp
    qed
  qed
qed

text \<open>A way to find the directory that agrees with the plain lookup, in any coherent state.\<close>

definition finds :: "env \<Rightarrow> 'w backend \<Rightarrow> 'w \<Rightarrow> string \<Rightarrow> ('w fsys \<Rightarrow> (fs_error + Obj) \<times> 'w fsys) \<Rightarrow> bool" where
  "finds env b w p get_dir \<longleftrightarrow>
     (\<forall>st. world st = w \<longrightarrow> coherent_listings env b w (caches st) \<longrightarrow>
        fst (get_dir st) = (case plain_Get env b w p True of Inl e \<Rightarrow> Inl e | Inr d \<Rightarrow> Inr (UnwrapObjName d)) \<and>
        world (snd (get_dir st)) = w \<and> coherent_listings env b w (caches (snd (get_dir st))))"

lemma list_with_ok:
  assumes q: "quiet b w" and f: "finds env b w (FixAndCleanPath p) get_dir"
    and st: "world st = w" "coherent_listings env b w (caches st)"
    and run: "list_with env b p refresh skipHook v get_dir st = (r, st')"
  shows "r = (case plain_List env b w (FixAndCleanPath p) of Inl e \<Rightarrow> Inl e
      | Inr fs \<Rightarrow> (case v fs of Some e \<Rightarrow> Inl e | None \<Rightarrow> Inr fs)) \<and>
    world st' = w \<and> coherent_listings env b w (caches st')"
proof -
  let ?p = "FixAndCleanPath p"
  have nr: "\<not> not_ready (dmeta b)" using q by (simp add: quiet_def)
  have fetch: "r' = plain_List env b w ?p \<and> world st2 = w \<and> coherent_listings env b w (caches st2)"
    if "world st1 = w" "coherent_listings env b w (caches st1)" "fetch_list env b ?p refresh skipHook get_dir st1 = (r', st2)" for st1 r' st2
    using fetch_list_ok [OF q clean_twice _ _ _ that(3)] f that(1,2) by (simp add: finds_def)
  obtain hit st1 where h: "(if refresh then (None, st) else cached_list env b (Key (dmeta b) ?p) st) = (hit, st1)" by fastforce
  have h': "world st1 = w \<and> coherent_listings env b w (caches st1) \<and>
      (case hit of None \<Rightarrow> True | Some fs \<Rightarrow> plain_List env b w ?p = Inr fs)"
  proof (cases refresh)
    case True
    with h st show ?thesis by auto
  next
    case False
    with h have "cached_list env b (Key (dmeta b) ?p) st = (hit, st1)" by simp
    from cached_list_ok [OF st(2) clean_twice st(1) this] show ?thesis by blast
  qed
  obtain r2 st2 where g: "fetch_list env b ?p refresh skipHook get_dir st1 = (r2, st2)" by fastforce
  note g' = fetch [OF conjunct1 [OF h'] conjunct1 [OF conjunct2 [OF h']] g]
  show ?thesis
  proof (cases "\<exists>fs. hit = Some fs \<and> v fs = None")
    case True
    then obtain fs where fs: "hit = Some fs" "v fs = None" by blast
    have "r = Inr fs" "st' = st1" using run nr h fs by (simp_all add: list_with_def)
    with h' fs show ?thesis by simp
  next
    case False
    then have "(r, st') = (case r2 of Inl e \<Rightarrow> (Inl e, st2)
        | Inr fs \<Rightarrow> (case v fs of Some e \<Rightarrow> (Inl e, st2) | None \<Rightarrow> (Inr fs, st2)))"
      using run nr h g by (cases hit) (auto simp: list_with_def)
    with g' show ?thesis by (auto split: sum.splits option.splits)
  qed
qed

lemma plain_Get_clean: "plain_Get env b w (FixAndCleanPath p) e = plain_Get env b w p e"
  by (subst (1 2) plain_Get.simps) (simp only: clean_twice)

lemma op_Get_ok:
  fixes st :: "'w fsys"
  assumes q: "quiet b w"
  shows "world st = w \<Longrightarrow> coherent_listings env b w (caches st) \<Longrightarrow> op_Get env b path excl st = (r, st') \<Longrightarrow>
    r = plain_Get env b w path excl \<and> world st' = w \<and> coherent_listings env b w (caches st')"
proof (induction "length (norm path)" arbitrary: path excl st r st' rule: less_induct)
  case less
  have nr: "\<not> not_ready (dmeta b)" "getter b = None" using q by (simp_all add: quiet_def)
  let ?p = "FixAndCleanPath path"
  show ?case
  proof (cases "?p = ''/''")
    case True
    have "get_root b st = (r, st')" using less.prems(3) nr True by (simp add: op_Get.simps)
    moreover have "\<And>f. root b = GetRooter f \<Longrightarrow> snd (f w) = w" using q by (simp add: quiet_def)
    ultimately have "r = plain_root b w \<and> st' = st\<lparr>world := w\<rparr>"
      using less.prems(1) by (cases "root b") (auto simp: get_root_def plain_root_def demo_fsys_def split: prod.splits)
    then show ?thesis using True less.prems by (simp add: plain_Get.simps)
  next
    case False
    let ?dir = "fst (path_split ?p)" and ?name = "snd (path_split ?p)"
    let ?get = "\<lambda>st. unwrap_result (op_Get env b ?dir True st)"
    have key: "Key (dmeta b) ?dir = Key (dmeta b) (FixAndCleanPath ?dir)" by (rule Key_dir [OF q clean_twice False])
    have finds: "finds env b w (FixAndCleanPath ?dir) ?get"
      unfolding finds_def
    proof (intro allI impI)
      fix s :: "'w fsys" assume s: "world s = w" "coherent_listings env b w (caches s)"
      obtain r1 s1 where g: "op_Get env b ?dir True s = (r1, s1)" by fastforce
      from less.hyps [OF split_shorter [OF False] s g] g
      show "fst (?get s) = (case plain_Get env b w (FixAndCleanPath ?dir) True of Inl e \<Rightarrow> Inl e | Inr d \<Rightarrow> Inr (UnwrapObjName d)) \<and>
          world (snd (?get s)) = w \<and> coherent_listings env b w (caches (snd (?get s)))"
        by (simp add: unwrap_result_def plain_Get_clean)
    qed
    have plain: "plain_Get env b w path excl =
      (case plain_List env b w (FixAndCleanPath ?dir) of Inl _ \<Rightarrow> Inl ObjectNotFound
       | Inr fs \<Rightarrow> (case named ?name fs of None \<Rightarrow> Inl ObjectNotFound
          | Some f \<Rightarrow> if temp_excluded excl f then Inl ObjectNotFound else Inr f))"
      using False by (simp add: plain_Get.simps [of env b w path] plain_List_def plain_Get_clean)
    obtain hit st1 where h: "cached_list env b (Key (dmeta b) ?dir) st = (hit, st1)" by fastforce
    have h': "coherent_listings env b w (caches st1)" "world st1 = w"
        "case hit of None \<Rightarrow> True | Some fs \<Rightarrow> plain_List env b w (FixAndCleanPath ?dir) = Inr fs"
      using cached_list_ok [OF less.prems(2) clean_twice less.prems(1)] h key by auto
    let ?found = "Option.bind hit (named ?name)"
    let ?refresh = "case ?found of Some f \<Rightarrow> temp_excluded excl f | None \<Rightarrow> False"
    have direct: "get_direct env b ?p excl st =
      (if ?found \<noteq> None \<and> \<not> ?refresh then (map_option Inr ?found, False, st1)
       else if hit = None \<or> ?refresh then (None, ?refresh, st1) else (Some (Inl ObjectNotFound), False, st1))"
      using h nr(2) by (simp add: get_direct_def split_beta Let_def)
    have eq: "op_Get env b path excl st = (case get_direct env b ?p excl st of
        (Some r, _, st) \<Rightarrow> (r, st)
      | (None, refresh, st) \<Rightarrow>
          (let (r, st) = list_with env b ?dir refresh False (get_validator ?name excl) ?get st
           in (case r of Inl _ \<Rightarrow> Inl ObjectNotFound
               | Inr fs \<Rightarrow> (case named ?name fs of Some f \<Rightarrow> Inr f | None \<Rightarrow> Inl ObjectNotFound), st)))"
      unfolding op_Get.simps [of env b path] using nr(1) False
      by (simp add: split_beta Let_def split: option.split)
    show ?thesis
    proof (cases "hit = None \<or> ?refresh")
      case True
      then have d: "get_direct env b ?p excl st = (None, ?refresh, st1)" by (auto simp: direct split: option.splits)
      obtain r2 st2 where l: "list_with env b ?dir ?refresh False (get_validator ?name excl) ?get st1 = (r2, st2)" by fastforce
      note lw = list_with_ok [OF q finds h'(2,1) l]
      have "(r, st') = (case r2 of Inl _ \<Rightarrow> Inl ObjectNotFound
          | Inr fs \<Rightarrow> (case named ?name fs of Some f \<Rightarrow> Inr f | None \<Rightarrow> Inl ObjectNotFound), st2)"
        using less.prems(3) eq d l by simp
      with lw show ?thesis
        by (cases "plain_List env b w (FixAndCleanPath ?dir)") (auto simp: plain get_validator_def split: option.splits if_splits)
    next
      case False
      then obtain fs where fs: "hit = Some fs" by auto
      with h'(3) have pl: "plain_List env b w (FixAndCleanPath ?dir) = Inr fs" by simp
      have "st' = st1 \<and> r = (case named ?name fs of Some f \<Rightarrow> Inr f | None \<Rightarrow> Inl ObjectNotFound)"
        using less.prems(3) eq direct False fs by (cases "named ?name fs") simp_all
      with h' False fs show ?thesis by (cases "named ?name fs") (simp_all add: plain pl)
    qed
  qed
qed



end
