(* ===== verification/Mounts.thy ===== *)
theory Mounts
  imports FsWrite Access
begin

text \<open>
  \<open>internal/fs\<close>: operations on mount paths.  A path goes to the storage with the longest mount path
  and the path inside it; listings add the virtual directories of mounts, hide what the rules of
  directories hide and leave out what the user may not read.
\<close>

section \<open>State\<close>

text \<open>What stays fixed: the environment of the storages, the code of each loaded driver, the sort, what
  the drivers report as details and when, and the pattern matcher.\<close>

record 'w cfg =
  fenv :: env
  driver_of :: "Driver \<Rightarrow> 'w backend"
  sort_drivers :: slice_sort
  details :: "Driver \<Rightarrow> (int \<times> int) option"
  schedule :: "bool list"
  regex :: "string \<Rightarrow> string \<Rightarrow> bool option"

text \<open>The state of the file layer: the loaded storages with the caches, the world of the drivers, the
  listings given to hooks, the hook tasks started, the streams closed, and the rules.\<close>

record 'w app =
  reg :: "(link \<times> Obj, link_exp) registry"
  disk :: 'w
  given :: "(string \<times> Obj list) list"
  started :: "(string \<times> bool) list"
  shut :: "string list"
  metas :: metaStore

definition fsys_of :: "'w app \<Rightarrow> 'w fsys" where
  "fsys_of a = \<lparr>world = disk a, caches = listings (reg a), published = given a, spawned = started a, released = shut a\<rparr>"

definition put_fsys :: "'w fsys \<Rightarrow> 'w app \<Rightarrow> 'w app" where
  "put_fsys s a = a\<lparr>reg := (reg a)\<lparr>listings := caches s\<rparr>, disk := world s, given := published s,
     started := spawned s, shut := released s\<rparr>"

definition backend_at :: "'w cfg \<Rightarrow> Driver \<Rightarrow> 'w backend" where
  "backend_at C d = (driver_of C d)\<lparr>dmeta := d\<rparr>"

section \<open>Routing\<close>

definition route :: "'w cfg \<Rightarrow> string \<Rightarrow> 'w app \<Rightarrow> (fs_error + Driver \<times> string) \<times> 'w app" where
  "route C path a =
     (let (r, rg) = GetStorageAndActualPath (sort_drivers C) path (reg a)
      in (case r of Inl e \<Rightarrow> Inl (DriverError e) | Inr dp \<Rightarrow> Inr dp, a\<lparr>reg := rg\<rparr>))"

definition fs_GetStorage :: "'w cfg \<Rightarrow> string \<Rightarrow> 'w app \<Rightarrow> (fs_error + Driver) \<times> 'w app" where
  "fs_GetStorage C path a =
     (case route C path a of (Inl e, a) \<Rightarrow> (Inl e, a) | (Inr (d, _), a) \<Rightarrow> (Inr d, a))"

text \<open>An operation on the storage a path goes to.\<close>

definition routed ::
  "'w cfg \<Rightarrow> string \<Rightarrow> ('w backend \<Rightarrow> string \<Rightarrow> 'w fsys \<Rightarrow> 'a \<times> 'w fsys) \<Rightarrow> 'w app \<Rightarrow> (fs_error + 'a) \<times> 'w app" where
  "routed C path f a =
     (case route C path a of
        (Inl e, a) \<Rightarrow> (Inl e, a)
      | (Inr (d, actual), a) \<Rightarrow>
          (let (x, s) = f (backend_at C d) actual (fsys_of a) in (Inr x, put_fsys s a)))"

definition errors_of :: "fs_error + fs_error option \<Rightarrow> fs_error option" where
  "errors_of r = (case r of Inl e \<Rightarrow> Some e | Inr e \<Rightarrow> e)"

definition flat :: "fs_error + (fs_error + 'a) \<Rightarrow> fs_error + 'a" where
  "flat r = (case r of Inl e \<Rightarrow> Inl e | Inr x \<Rightarrow> x)"

section \<open>Changes\<close>

text \<open>Hooks run unless the caller asks to skip them.\<close>

definition quiet_env :: "bool \<Rightarrow> env \<Rightarrow> env" where
  "quiet_env skipHook env = (if skipHook then env\<lparr>hooks_wanted := False\<rparr> else env)"

definition fs_rename :: "'w cfg \<Rightarrow> string \<Rightarrow> string \<Rightarrow> bool \<Rightarrow> 'w app \<Rightarrow> fs_error option \<times> 'w app" where
  "fs_rename C srcPath dstName skipHook a =
     (let (r, a) = routed C srcPath (\<lambda>b actual. op_Rename (quiet_env skipHook (fenv C)) b actual dstName) a in (errors_of r, a))"

definition fs_remove :: "'w cfg \<Rightarrow> string \<Rightarrow> 'w app \<Rightarrow> fs_error option \<times> 'w app" where
  "fs_remove C path a = (let (r, a) = routed C path (op_Remove (fenv C)) a in (errors_of r, a))"

definition fs_purge :: "'w cfg \<Rightarrow> string \<Rightarrow> 'w app \<Rightarrow> fs_error option \<times> 'w app" where
  "fs_purge C path a = (let (r, a) = routed C path (op_Purge (fenv C)) a in (errors_of r, a))"

definition fs_other :: "'w cfg \<Rightarrow> string \<Rightarrow> string \<Rightarrow> 'w app \<Rightarrow> (fs_error + string) \<times> 'w app" where
  "fs_other C path request a =
     (let (r, a) = routed C path (\<lambda>b actual. op_Other (fenv C) b actual request) a in (flat r, a))"

text \<open>\<open>None\<close> when the call never returns, as for \<open>MakeDir\<close> of a storage.\<close>

definition fs_makeDir :: "'w cfg \<Rightarrow> string \<Rightarrow> 'w app \<Rightarrow> (fs_error option \<times> 'w app) option" where
  "fs_makeDir C path a =
     (case route C path a of
        (Inl e, a) \<Rightarrow> Some (Some e, a)
      | (Inr (d, actual), a) \<Rightarrow>
          map_option (\<lambda>(e, s). (e, put_fsys s a)) (MakeDir (fenv C) (backend_at C d) actual (fsys_of a)))"

definition fs_link :: "nat \<Rightarrow> 'w cfg \<Rightarrow> string \<Rightarrow> link_args \<Rightarrow> 'w app \<Rightarrow> ((fs_error + link \<times> Obj) \<times> 'w app) option go" where
  "fs_link tries C path args a =
     (case route C path a of
        (Inl e, a) \<Rightarrow> Return (Some (Inl e, a))
      | (Inr (d, actual), a) \<Rightarrow>
          go_bind (op_Link tries (fenv C) (backend_at C d) actual args (fsys_of a))
            (\<lambda>r. Return (map_option (\<lambda>(x, s). (x, put_fsys s a)) r)))"

definition putDirectly ::
  "'w cfg \<Rightarrow> int \<Rightarrow> string \<Rightarrow> file_stream \<Rightarrow> bool \<Rightarrow> 'w app \<Rightarrow> (fs_error option go \<times> 'w app) option" where
  "putDirectly C fullSize dstDirPath file skipHook a =
     (case route C dstDirPath a of
        (Inl e, a) \<Rightarrow> Some (Return (Some e), a\<lparr>shut := shut a @ [fname file]\<rparr>)
      | (Inr (d, actual), a) \<Rightarrow>
          if NoUpload (config d) then Some (Return (Some NotSupport), a\<lparr>shut := shut a @ [fname file]\<rparr>)
          else map_option (\<lambda>(e, s). (e, put_fsys s a))
                 (op_Put (quiet_env skipHook (fenv C)) (backend_at C d) fullSize actual file (fsys_of a)))"

definition getDirectUploadInfo ::
  "'w cfg \<Rightarrow> string \<Rightarrow> string \<Rightarrow> string \<Rightarrow> int \<Rightarrow> bool \<Rightarrow> 'w app \<Rightarrow> ((fs_error + string) \<times> 'w app) option" where
  "getDirectUploadInfo C tool dstDirPath dstName fileSize overwrite a =
     (case route C dstDirPath a of
        (Inl e, a) \<Rightarrow> Some (Inl e, a)
      | (Inr (d, actual), a) \<Rightarrow>
          map_option (\<lambda>(r, s). (r, put_fsys s a))
            (GetDirectUploadInfo (fenv C) (backend_at C d) tool actual dstName fileSize overwrite (fsys_of a)))"

section \<open>The nearest rule, if there is one\<close>

lemma getNearestMeta_ends: "list_all valid_comp cs \<Longrightarrow> getNearestMeta st (abs_path cs) \<noteq> None"
proof (induction cs arbitrary: st rule: rev_induct)
  case Nil
  show ?case by (subst getNearestMeta.simps) (auto split: prod.splits sum.splits)
next
  case (snoc c cs)
  then have IH: "\<And>st. getNearestMeta st (abs_path cs) \<noteq> None" by simp
  show ?case
    using IH path_dir_snoc [of cs c] snoc.prems
    by (subst getNearestMeta.simps) (auto split: prod.splits sum.splits)
qed

lemma GetNearestMeta_ends: "GetNearestMeta st path \<noteq> None"
  unfolding GetNearestMeta_def FixAndCleanPath_norm by (rule getNearestMeta_ends) (rule norm_valid)

text \<open>The idiom of the callers: that no rule is found is not an error.\<close>

definition nearest_meta :: "string \<Rightarrow> metaStore \<Rightarrow> (meta_error + Meta option) \<times> metaStore" where
  "nearest_meta path ms =
     (case GetNearestMeta ms path of
        None \<Rightarrow> (Inr None, ms)
      | Some (Inl e, ms) \<Rightarrow> (if e = MetaNotFound then Inr None else Inl e, ms)
      | Some (Inr m, ms) \<Rightarrow> (Inr (Some m), ms))"

section \<open>Reading\<close>

definition virtual_of :: "'w cfg \<Rightarrow> string \<Rightarrow> bool \<Rightarrow> string \<Rightarrow> 'w app \<Rightarrow> Obj list go" where
  "virtual_of C path withDetails name a =
     GetStorageVirtualFilesWithDetailsByPath (sort_drivers C) path (details C) (schedule C) (\<not> withDetails) name
       (storagesMap (reg a))"

definition fs_get :: "'w cfg \<Rightarrow> string \<Rightarrow> bool \<Rightarrow> 'w app \<Rightarrow> ((fs_error + Obj) \<times> 'w app) go" where
  "fs_get C path withDetails a =
     (let path = FixAndCleanPath path; (dir, name) = path_split path
      in go_bind (if path = ''/'' then Return [] else virtual_of C dir withDetails name a)
           (\<lambda>virtual. Return
             (case named name virtual of
                Some f \<Rightarrow> (Inr f, a)
              | None \<Rightarrow>
                  (case route C path a of
                     (Inl e, a) \<Rightarrow>
                       (if path = ''/''
                        then Inr (Object \<lparr>ID = [], Path = [], Name = ''root'', Size = 0, Modified = 0, Ctime = 0, IsFolder = True,
                               HashInfo = [], Mask = or ReadOnly Virtual\<rparr>)
                        else Inl e, a)
                   | (Inr (d, actual), a) \<Rightarrow>
                       (let (r, s) = op_Get (fenv C) (backend_at C d) actual False (fsys_of a) in (r, put_fsys s a))))))"

definition whetherHide :: "User option \<Rightarrow> Meta option \<Rightarrow> string \<Rightarrow> bool" where
  "whetherHide user meta path \<longleftrightarrow>
     (case user of
        None \<Rightarrow> False
      | Some u \<Rightarrow>
          if CanSeeHides u then False
          else (case meta of None \<Rightarrow> False | Some m \<Rightarrow> Hide m \<noteq> [] \<and> MetaCoversPath (MetaPath m) path (HSub m)))"

fun filterReadableObjs ::
  "User option \<Rightarrow> string \<Rightarrow> Meta option \<Rightarrow> Obj list \<Rightarrow> metaStore \<Rightarrow> (meta_error + Obj list) \<times> metaStore" where
  "filterReadableObjs user reqPath parentMeta [] ms = (Inr [], ms)"
| "filterReadableObjs user reqPath parentMeta (obj # rest) ms =
     (let objPath = path_join [reqPath, GetName obj];
          (meta, ms) = (if IsDir obj then nearest_meta objPath ms else (Inr parentMeta, ms))
      in case meta of
           Inl e \<Rightarrow> (Inl e, ms)
         | Inr meta \<Rightarrow>
             (let (r, ms) = filterReadableObjs user reqPath parentMeta rest ms
              in (map_sum (\<lambda>e. e) (\<lambda>objs. if CanRead user meta objPath then obj # objs else objs) r, ms)))"

text \<open>\<open>list\<close> for a user and a rule found by the caller.\<close>

definition fs_list ::
  "'w cfg \<Rightarrow> User option \<Rightarrow> Meta option \<Rightarrow> string \<Rightarrow> bool \<Rightarrow> bool \<Rightarrow> 'w app \<Rightarrow> ((fs_error + Obj list) \<times> 'w app) go" where
  "fs_list C user meta path refresh withDetails a =
     go_bind (virtual_of C path withDetails [] a) (\<lambda>virtual.
       let (r, a) = route C path a;
           (stored, a) =
             (case r of
                Inl e \<Rightarrow> (Inl e, a)
              | Inr (d, actual) \<Rightarrow>
                  (let (r, s) = op_List (fenv C) (backend_at C d) actual refresh False (fsys_of a) in (r, put_fsys s a)))
       in case (stored, virtual) of
            (Inl e, []) \<Rightarrow> Return (Inl e, a)
          | _ \<Rightarrow>
              go_bind
                (if whetherHide user meta path
                 then InitHideReg (\<lambda>h. regex C h [] \<noteq> None) (case meta of Some m \<Rightarrow> Hide m | None \<Rightarrow> []) NewObjMerge
                 else Return NewObjMerge)
                (\<lambda>om.
                   let objs = fst (Merge (\<lambda>h n. regex C h n = Some True) om (case stored of Inl _ \<Rightarrow> [] | Inr fs \<Rightarrow> fs) virtual);
                       (r, ms) = filterReadableObjs user path meta objs (metas a)
                   in Return (case r of Inl _ \<Rightarrow> Inl (DriverError ''failed get meta'') | Inr objs \<Rightarrow> Inr objs, a\<lparr>metas := ms\<rparr>)))"

end
