(* ===== verification/TaskGroups.thy ===== *)
theory TaskGroups
  imports Prelude
begin

text \<open>
  \<open>internal/task_group/group.go\<close>: tasks that belong together.  A group counts the tasks still to
  end and remembers whether one succeeded; what is to be done at its end are its payloads.  The
  calls come from many goroutines; each is atomic, so a run is a list of calls.
\<close>

section \<open>The coordinator\<close>

datatype payload = SrcPathToRemove string | DstPathToHook string

record groupState =
  unfinished :: nat
  hasSuccess :: bool

record TaskGroupCoordinator =
  groupPayloads :: "string \<Rightarrow> payload list"
  groupStates :: "string \<Rightarrow> groupState option"

definition NewTaskGroupCoordinator :: TaskGroupCoordinator where
  "NewTaskGroupCoordinator = \<lparr>groupPayloads = \<lambda>_. [], groupStates = \<lambda>_. None\<rparr>"

definition AppendPayload :: "string \<Rightarrow> payload option \<Rightarrow> TaskGroupCoordinator \<Rightarrow> TaskGroupCoordinator" where
  "AppendPayload groupID payload tgc =
     (case payload of
        None \<Rightarrow> tgc
      | Some p \<Rightarrow> tgc\<lparr>groupPayloads := (groupPayloads tgc)(groupID := groupPayloads tgc groupID @ [p])\<rparr>)"

definition AddTask :: "string \<Rightarrow> payload option \<Rightarrow> TaskGroupCoordinator \<Rightarrow> TaskGroupCoordinator" where
  "AddTask groupID payload tgc =
     (let state = (case groupStates tgc groupID of None \<Rightarrow> \<lparr>unfinished = 0, hasSuccess = False\<rparr> | Some s \<Rightarrow> s)
      in AppendPayload groupID payload
           (tgc\<lparr>groupStates := (groupStates tgc)(groupID := Some (state\<lparr>unfinished := unfinished state + 1\<rparr>))\<rparr>))"

text \<open>The result is the call of the completion function, if there is one.\<close>

definition Done :: "string \<Rightarrow> bool \<Rightarrow> TaskGroupCoordinator \<Rightarrow> (string \<times> payload list) option \<times> TaskGroupCoordinator" where
  "Done groupID success tgc =
     (case groupStates tgc groupID of
        None \<Rightarrow> (None, tgc)
      | Some state \<Rightarrow>
          if unfinished state = 0 then (None, tgc)
          else
            let state = (if success then state\<lparr>hasSuccess := True\<rparr> else state)
            in if unfinished state = 1
               then (if hasSuccess state then Some (groupID, groupPayloads tgc groupID) else None,
                     tgc\<lparr>groupStates := (groupStates tgc)(groupID := None),
                       groupPayloads := (groupPayloads tgc)(groupID := [])\<rparr>)
               else (None, tgc\<lparr>groupStates := (groupStates tgc)(groupID := Some (state\<lparr>unfinished := unfinished state - 1\<rparr>))\<rparr>))"

section \<open>Runs\<close>

datatype group_call = CallAdd string "payload option" | CallAppend string "payload option" | CallDone string bool

fun call_group :: "group_call \<Rightarrow> string" where
  "call_group (CallAdd g _) = g"
| "call_group (CallAppend g _) = g"
| "call_group (CallDone g _) = g"

fun step_group :: "group_call \<Rightarrow> TaskGroupCoordinator \<Rightarrow> (string \<times> payload list) option \<times> TaskGroupCoordinator" where
  "step_group (CallAdd g p) tgc = (None, AddTask g p tgc)"
| "step_group (CallAppend g p) tgc = (None, AppendPayload g p tgc)"
| "step_group (CallDone g b) tgc = Done g b tgc"

text \<open>The completions of a run, in order, and the state after it.\<close>

fun run_groups :: "group_call list \<Rightarrow> TaskGroupCoordinator \<Rightarrow> (string \<times> payload list) list \<times> TaskGroupCoordinator" where
  "run_groups [] tgc = ([], tgc)"
| "run_groups (c # cs) tgc =
     (let (done_now, tgc) = step_group c tgc; (rest, tgc) = run_groups cs tgc
      in (case done_now of None \<Rightarrow> rest | Some d \<Rightarrow> d # rest, tgc))"

lemma run_groups_append: "run_groups (cs @ ds) tgc =
    (fst (run_groups cs tgc) @ fst (run_groups ds (snd (run_groups cs tgc))), snd (run_groups ds (snd (run_groups cs tgc))))"
  by (induction cs arbitrary: tgc) (simp_all add: split_beta split: option.splits)

section \<open>The specification\<close>

text \<open>Of the calls for one group: the tasks added, the tasks ended, whether one succeeded, the payloads.\<close>

definition added :: "string \<Rightarrow> group_call list \<Rightarrow> nat" where
  "added g cs = length (filter (\<lambda>c. case c of CallAdd h _ \<Rightarrow> h = g | _ \<Rightarrow> False) cs)"

definition ended :: "string \<Rightarrow> group_call list \<Rightarrow> nat" where
  "ended g cs = length (filter (\<lambda>c. case c of CallDone h _ \<Rightarrow> h = g | _ \<Rightarrow> False) cs)"

definition succeeded :: "string \<Rightarrow> group_call list \<Rightarrow> bool" where
  "succeeded g cs \<longleftrightarrow> CallDone g True \<in> set cs"

fun payload_of :: "string \<Rightarrow> group_call \<Rightarrow> payload list" where
  "payload_of g (CallAdd h (Some p)) = (if h = g then [p] else [])"
| "payload_of g (CallAppend h (Some p)) = (if h = g then [p] else [])"
| "payload_of g _ = []"

definition payloads_of :: "string \<Rightarrow> group_call list \<Rightarrow> payload list" where
  "payloads_of g cs = concat (map (payload_of g) cs)"

text \<open>The calls of one batch: from the first call for the group on, more tasks are added than have
  ended, until all have.\<close>

definition batch :: "string \<Rightarrow> group_call list \<Rightarrow> bool" where
  "batch g cs \<longleftrightarrow> added g cs = ended g cs \<and> 0 < ended g cs \<and>
     (\<forall>k < length cs. g \<in> call_group ` set (take k cs) \<longrightarrow> ended g (take k cs) < added g (take k cs)) \<and>
     call_group (last cs) = g"

lemmas group_specs = added_def ended_def succeeded_def payloads_of_def
lemmas group_ops = AppendPayload_def AddTask_def Done_def

lemma spec_snoc:
  "added g (cs @ [c]) = added g cs + (case c of CallAdd h _ \<Rightarrow> if h = g then 1 else 0 | _ \<Rightarrow> 0)"
  "ended g (cs @ [c]) = ended g cs + (case c of CallDone h _ \<Rightarrow> if h = g then 1 else 0 | _ \<Rightarrow> 0)"
  "succeeded g (cs @ [c]) \<longleftrightarrow> succeeded g cs \<or> c = CallDone g True"
  "payloads_of g (cs @ [c]) = payloads_of g cs @ payload_of g c"
  by (auto simp: group_specs split: group_call.splits)

text \<open>A call for another group changes nothing here.\<close>

lemma other_ops:
  assumes "h \<noteq> g"
  shows "groupStates (AppendPayload h p tgc) g = groupStates tgc g" "groupPayloads (AppendPayload h p tgc) g = groupPayloads tgc g"
    and "groupStates (AddTask h p tgc) g = groupStates tgc g" "groupPayloads (AddTask h p tgc) g = groupPayloads tgc g"
    and "groupStates (snd (Done h b tgc)) g = groupStates tgc g" "groupPayloads (snd (Done h b tgc)) g = groupPayloads tgc g"
  using assms by (cases p; simp add: group_ops Let_def split: option.split)+

lemma Done_group: "fst (Done h b tgc) = Some d \<Longrightarrow> fst d = h"
  by (auto simp: Done_def Let_def split: option.splits if_splits)

lemma step_other:
  assumes "call_group c \<noteq> g"
  shows "groupStates (snd (step_group c tgc)) g = groupStates tgc g \<and>
    groupPayloads (snd (step_group c tgc)) g = groupPayloads tgc g \<and>
    (case fst (step_group c tgc) of None \<Rightarrow> True | Some d \<Rightarrow> fst d \<noteq> g) \<and> payload_of g c = []"
proof (cases c)
  case (CallAdd h p)
  with assms show ?thesis by (cases p) (simp_all add: other_ops)
next
  case (CallAppend h p)
  with assms show ?thesis by (cases p) (simp_all add: other_ops)
next
  case (CallDone h b)
  with assms Done_group [of h b tgc] show ?thesis by (auto simp: other_ops split: option.splits)
qed

definition idle :: "string \<Rightarrow> TaskGroupCoordinator \<Rightarrow> bool" where
  "idle g tgc \<longleftrightarrow> groupStates tgc g = None \<and> groupPayloads tgc g = []"

lemma run_snoc: "run_groups (cs @ [c]) tgc =
    (fst (run_groups cs tgc) @ (case fst (step_group c (snd (run_groups cs tgc))) of None \<Rightarrow> [] | Some d \<Rightarrow> [d]),
     snd (step_group c (snd (run_groups cs tgc))))"
  by (simp add: run_groups_append split_beta split: option.splits)

text \<open>In the middle of a batch the state is the difference of the counts.\<close>

lemma open_batch:
  assumes "idle g tgc"
    and "\<forall>k \<le> length cs. g \<in> call_group ` set (take k cs) \<longrightarrow> ended g (take k cs) < added g (take k cs)"
  shows "filter (\<lambda>d. fst d = g) (fst (run_groups cs tgc)) = [] \<and>
    groupPayloads (snd (run_groups cs tgc)) g = payloads_of g cs \<and>
    groupStates (snd (run_groups cs tgc)) g =
      (if g \<in> call_group ` set cs
       then Some \<lparr>unfinished = added g cs - ended g cs, hasSuccess = succeeded g cs\<rparr> else None)"
  using assms(2)
proof (induction cs rule: rev_induct)
  case Nil
  with assms(1) show ?case by (simp add: idle_def payloads_of_def)
next
  case (snoc c cs)
  have pre: "\<forall>k \<le> length cs. g \<in> call_group ` set (take k cs) \<longrightarrow> ended g (take k cs) < added g (take k cs)"
    using snoc.prems by (metis (no_types, lifting) append_Nil2 diff_is_0_eq le_SucI length_append_singleton take_0 take_append)
  note IH = snoc.IH [OF pre]
  have now: "g \<in> call_group ` set cs \<longrightarrow> ended g cs < added g cs" using pre by force
  have now': "call_group c = g \<longrightarrow> ended g (cs @ [c]) < added g (cs @ [c])" using snoc.prems by force
  have none: "g \<notin> call_group ` set cs \<Longrightarrow> added g cs = 0 \<and> ended g cs = 0 \<and> \<not> succeeded g cs"
    by (force simp: group_specs filter_empty_conv split: group_call.splits)
  show ?case
  proof (cases "call_group c = g")
    case False
    note o = step_other [OF False, of "snd (run_groups cs tgc)"]
    have "added g (cs @ [c]) = added g cs" "ended g (cs @ [c]) = ended g cs" "succeeded g (cs @ [c]) = succeeded g cs"
      using False by (auto simp: spec_snoc split: group_call.splits)
    moreover have "g \<in> call_group ` set (cs @ [c]) \<longleftrightarrow> g \<in> call_group ` set cs" using False by auto
    ultimately show ?thesis using IH o by (auto simp: run_snoc spec_snoc(4) split: option.splits)
  next
    case True
    then show ?thesis using IH now now' none
      by (cases c) (auto simp: run_snoc spec_snoc group_ops Let_def split: option.splits if_splits)
  qed
qed

text \<open>C22: However the calls of other groups are interleaved, a batch of tasks completes exactly once, when
  the last of its tasks ends, with every payload given to it in order, and only if one of its tasks
  succeeded; afterwards nothing of it is left.\<close>
theorem batch_completes:
  assumes "idle g tgc" and "batch g cs"
  shows "filter (\<lambda>d. fst d = g) (fst (run_groups cs tgc)) = (if succeeded g cs then [(g, payloads_of g cs)] else []) \<and>
    idle g (snd (run_groups cs tgc))"
proof -
  have "cs \<noteq> []" using assms(2) by (auto simp: batch_def ended_def)
  then obtain ds c where cs: "cs = ds @ [c]" by (metis append_butlast_last_id)
  have pre: "\<forall>k \<le> length ds. g \<in> call_group ` set (take k ds) \<longrightarrow> ended g (take k ds) < added g (take k ds)"
    using assms(2) by (auto simp: batch_def cs less_Suc_eq_le)
  note o = open_batch [OF assms(1) pre]
  have c: "call_group c = g" and eq: "added g (ds @ [c]) = ended g (ds @ [c])" and pos: "0 < ended g (ds @ [c])"
    using assms(2) by (simp_all add: batch_def cs)
  have inv: "g \<in> call_group ` set ds \<longrightarrow> ended g ds < added g ds" using pre by force
  have none: "g \<notin> call_group ` set ds \<Longrightarrow> added g ds = 0 \<and> ended g ds = 0"
    by (force simp: group_specs filter_empty_conv split: group_call.splits)
  have "\<exists>b. c = CallDone g b"
  proof (cases c)
    case (CallAdd h p)
    with c eq inv none pos show ?thesis by (auto simp: spec_snoc)
  next
    case (CallAppend h p)
    with c eq inv none pos show ?thesis by (auto simp: spec_snoc)
  qed (use c in simp)
  then obtain b where b: "c = CallDone g b" ..
  with eq inv none have one: "g \<in> call_group ` set ds" "added g ds - ended g ds = 1"
    by (auto simp: spec_snoc)
  show ?thesis using o one by (auto simp: cs run_snoc b Done_def Let_def idle_def spec_snoc)
qed

lemma batch_completes_witness:
  "filter (\<lambda>d. fst d = ''g'') (fst (run_groups
      [CallAdd ''g'' None, CallAdd ''h'' None, CallAdd ''g'' None, CallAppend ''g'' (Some (DstPathToHook ''/d'')),
       CallDone ''g'' False, CallDone ''h'' False, CallDone ''g'' True] NewTaskGroupCoordinator)) =
     [(''g'', [DstPathToHook ''/d''])]"
proof -
  let ?cs = "[CallAdd ''g'' None, CallAdd ''h'' None, CallAdd ''g'' None, CallAppend ''g'' (Some (DstPathToHook ''/d'')),
       CallDone ''g'' False, CallDone ''h'' False, CallDone ''g'' True]"
  have "batch ''g'' ?cs" by (auto simp: batch_def added_def ended_def less_Suc_eq numeral_eq_Suc)
  moreover have "idle ''g'' NewTaskGroupCoordinator" by (simp add: idle_def NewTaskGroupCoordinator_def)
  ultimately show ?thesis using batch_completes [of "''g''" NewTaskGroupCoordinator ?cs]
    by (simp add: succeeded_def payloads_of_def)
qed

end
