(* ===== verification/Transfers.thy ===== *)
theory Transfers
  imports Mounts TaskGroups
begin

text \<open>
  Copying, moving and merging between mounts: \<open>internal/fs/copy_move.go\<close>, the uploads of
  \<open>internal/fs/put.go\<close> and \<open>internal/task_group/transfer.go\<close>.  A transfer within a storage is left to
  its driver; otherwise it becomes a tree of tasks, run at once or queued, and when the last task of
  the group ends the sources of a move are removed.  Cancelling and the restart of saved tasks are
  left out.
\<close>

section \<open>State\<close>

text \<open>A call returns, panics (a task runs without recovering, so the process dies) or never returns.\<close>

datatype 'a outcome = Ret 'a | Crash | Hang

fun outcome_bind :: "'a outcome \<Rightarrow> ('a \<Rightarrow> 'b outcome) \<Rightarrow> 'b outcome" where
  "outcome_bind (Ret x) f = f x"
| "outcome_bind Crash f = Crash"
| "outcome_bind Hang f = Hang"

lemma pred_bind:
  "pred_outcome P r \<Longrightarrow> (\<And>a. P a \<Longrightarrow> pred_outcome Q (f a)) \<Longrightarrow> pred_outcome Q (outcome_bind r f)"
  by (cases r) auto

datatype taskType = CopyTask | MoveTask | MergeTask

record transfer_task =
  TaskType :: taskType
  SrcStorage :: Driver
  DstStorage :: Driver
  SrcActualPath :: string
  DstActualPath :: string
  DstName :: string
  SkipExisting :: bool
  groupID :: string

record upload_task =
  up_storage :: Driver
  dstDirActualPath :: string
  up_file :: file_stream

record 'w xfer =
  app :: "'w app"
  coordinator :: TaskGroupCoordinator
  queued :: "transfer_task list"
  uploads :: "upload_task list"

text \<open>An operation on a given storage.\<close>

definition on_driver :: "'w cfg \<Rightarrow> Driver \<Rightarrow> ('w backend \<Rightarrow> 'w fsys \<Rightarrow> 'a \<times> 'w fsys) \<Rightarrow> 'w xfer \<Rightarrow> 'a \<times> 'w xfer" where
  "on_driver C d f x =
     (let (r, s) = f (backend_at C d) (fsys_of (app x)) in (r, x\<lparr>app := put_fsys s (app x)\<rparr>))"

definition get_on :: "'w cfg \<Rightarrow> Driver \<Rightarrow> string \<Rightarrow> 'w xfer \<Rightarrow> (fs_error + Obj) \<times> 'w xfer" where
  "get_on C d path = on_driver C d (\<lambda>b. op_Get (fenv C) b path False)"

definition unwrap_on :: "'w cfg \<Rightarrow> Driver \<Rightarrow> string \<Rightarrow> 'w xfer \<Rightarrow> (fs_error + Obj) \<times> 'w xfer" where
  "unwrap_on C d path = on_driver C d (\<lambda>b. GetUnwrap (fenv C) b path)"

definition list_on :: "'w cfg \<Rightarrow> Driver \<Rightarrow> bool \<Rightarrow> string \<Rightarrow> 'w xfer \<Rightarrow> (fs_error + Obj list) \<times> 'w xfer" where
  "list_on C d skipHook path = on_driver C d (\<lambda>b. op_List (fenv C) b path False skipHook)"

definition remove_on :: "'w cfg \<Rightarrow> Driver \<Rightarrow> string \<Rightarrow> 'w xfer \<Rightarrow> fs_error option \<times> 'w xfer" where
  "remove_on C d path = on_driver C d (\<lambda>b. op_Remove (fenv C) b path)"

definition route_x :: "'w cfg \<Rightarrow> string \<Rightarrow> 'w xfer \<Rightarrow> (fs_error + Driver \<times> string) \<times> 'w xfer" where
  "route_x C path x = (let (r, a) = route C path (app x) in (r, x\<lparr>app := a\<rparr>))"

section \<open>The end of a group\<close>

text \<open>A source is removed where its counterpart is found, the children of a folder first; the first
  argument bounds the depth.\<close>

fun verifyAndRemove :: "nat \<Rightarrow> 'w cfg \<Rightarrow> Driver \<Rightarrow> Driver \<Rightarrow> string \<Rightarrow> string \<Rightarrow> 'w xfer \<Rightarrow> (fs_error option \<times> 'w xfer) outcome"
and verify_all :: "nat \<Rightarrow> 'w cfg \<Rightarrow> Driver \<Rightarrow> Driver \<Rightarrow> string \<Rightarrow> string \<Rightarrow> Obj list \<Rightarrow> 'w xfer \<Rightarrow> (bool \<times> 'w xfer) outcome" where
  "verifyAndRemove 0 C src dst srcPath dstPath x = Hang"
| "verifyAndRemove (Suc n) C src dst srcPath dstPath x =
     (case unwrap_on C src srcPath x of
        (Inl e, x) \<Rightarrow> Ret (Some e, x)
      | (Inr srcObj, x) \<Rightarrow>
          (case unwrap_on C dst (path_join [dstPath, GetName srcObj]) x of
             (Inl e, x) \<Rightarrow> Ret (Some e, x)
           | (Inr dstObj, x) \<Rightarrow>
               if \<not> IsDir dstObj then Ret (remove_on C src srcPath x)
               else
                 (case list_on C src False srcPath x of
                    (Inl e, x) \<Rightarrow> Ret (Some e, x)
                  | (Inr srcObjs, x) \<Rightarrow>
                      outcome_bind (verify_all n C src dst srcPath (path_join [dstPath, GetName srcObj]) srcObjs x)
                        (\<lambda>(hasErr, x).
                          if hasErr then Ret (Some (DriverError ''some subitems failed to verify and remove''), x)
                          else Ret (remove_on C src srcPath x)))))"
| "verify_all n C src dst srcPath dstPath [] x = Ret (False, x)"
| "verify_all n C src dst srcPath dstPath (obj # rest) x =
     outcome_bind (verifyAndRemove n C src dst (path_join [srcPath, GetName obj]) dstPath x)
       (\<lambda>(err, x). outcome_bind (verify_all n C src dst srcPath dstPath rest x)
         (\<lambda>(hasErr, x). Ret (err \<noteq> None \<or> hasErr, x)))"

definition handleHook :: "'w cfg \<Rightarrow> Driver \<Rightarrow> string \<Rightarrow> string list \<times> 'w xfer \<Rightarrow> string list \<times> 'w xfer" where
  "handleHook C d actualPath st =
     (let (hooked, x) = st
      in if actualPath \<in> set hooked then (hooked, x)
         else
           (case list_on C d True actualPath x of
              (Inl _, x) \<Rightarrow> (hooked, x)
            | (Inr fs, x) \<Rightarrow>
                (actualPath # hooked,
                 x\<lparr>app := (app x)\<lparr>given := given (app x) @ [(GetFullPath (MountPath (storage d)) actualPath, fs)]\<rparr>\<rparr>)))"

fun hook_payloads ::
  "nat \<Rightarrow> 'w cfg \<Rightarrow> Driver \<Rightarrow> string \<Rightarrow> payload list \<Rightarrow> string list \<times> 'w xfer \<Rightarrow> 'w xfer outcome" where
  "hook_payloads n C dst dstActualPath [] st = Ret (snd st)"
| "hook_payloads n C dst dstActualPath (DstPathToHook p # ps) st =
     hook_payloads n C dst dstActualPath ps (if hooks_wanted (fenv C) then handleHook C dst p st else st)"
| "hook_payloads n C dst dstActualPath (SrcPathToRemove p # ps) st =
     (case route_x C p (snd st) of
        (Inl _, x) \<Rightarrow> hook_payloads n C dst dstActualPath ps (fst st, x)
      | (Inr (src, srcActualPath), x) \<Rightarrow>
          outcome_bind (verifyAndRemove n C src dst srcActualPath dstActualPath x)
            (\<lambda>(_, x). hook_payloads n C dst dstActualPath ps (fst st, x)))"

definition HookAndRemove :: "nat \<Rightarrow> 'w cfg \<Rightarrow> string \<Rightarrow> payload list \<Rightarrow> 'w xfer \<Rightarrow> 'w xfer outcome" where
  "HookAndRemove n C dstPath payloads x =
     (case route_x C dstPath x of
        (Inl _, x) \<Rightarrow> Ret x
      | (Inr (dst, dstActualPath), x) \<Rightarrow>
          hook_payloads n C dst dstActualPath payloads
            (if hooks_wanted (fenv C) then handleHook C dst dstActualPath ([], x) else ([], x)))"

definition finish_in_group :: "nat \<Rightarrow> 'w cfg \<Rightarrow> string \<Rightarrow> bool \<Rightarrow> 'w xfer \<Rightarrow> 'w xfer outcome" where
  "finish_in_group n C gid success x =
     (let (completion, co) = Done gid success (coordinator x); x = x\<lparr>coordinator := co\<rparr>
      in case completion of None \<Rightarrow> Ret x | Some (g, payloads) \<Rightarrow> HookAndRemove n C g payloads x)"

section \<open>A task\<close>

definition shouldSkipExistingFile :: "Obj \<Rightarrow> Obj \<Rightarrow> bool" where
  "shouldSkipExistingFile src dst \<longleftrightarrow>
     \<not> IsDir src \<and> \<not> IsDir dst \<and> GetSize src \<ge> 0 \<and> GetSize src = GetSize dst"

text \<open>Running a task either names the tasks of the children of a folder or ends.\<close>

datatype work = Children "transfer_task list" | Finished "fs_error option"

definition child_task :: "transfer_task \<Rightarrow> string \<Rightarrow> Obj \<Rightarrow> transfer_task" where
  "child_task t dstActualPath obj =
     t\<lparr>SrcActualPath := path_join [SrcActualPath t, GetName obj], DstActualPath := dstActualPath, DstName := []\<rparr>"

definition dst_name :: "transfer_task \<Rightarrow> Obj \<Rightarrow> string" where
  "dst_name t srcObj = (if DstName t \<noteq> [] then DstName t else GetName srcObj)"

definition add_payload :: "string \<Rightarrow> payload \<Rightarrow> 'w xfer \<Rightarrow> 'w xfer" where
  "add_payload gid p x = x\<lparr>coordinator := AppendPayload gid (Some p) (coordinator x)\<rparr>"

definition split_folder :: "'w cfg \<Rightarrow> transfer_task \<Rightarrow> Obj \<Rightarrow> 'w xfer \<Rightarrow> work \<times> 'w xfer" where
  "split_folder C t srcObj x =
     (case list_on C (SrcStorage t) False (SrcActualPath t) x of
        (Inl e, x) \<Rightarrow> (Finished (Some e), x)
      | (Inr srcObjs, x) \<Rightarrow>
          let dstActualPath = path_join [DstActualPath t, dst_name t srcObj];
              x = add_payload (groupID t) (DstPathToHook dstActualPath) x;
              (existed, x) =
                (if TaskType t = MergeTask
                 then (case list_on C (DstStorage t) False dstActualPath x of
                         (Inl e, x) \<Rightarrow> (if e = ObjectNotFound then Inr [] else Inl e, x)
                       | (Inr dstObjs, x) \<Rightarrow> (Inr (map GetName (filter (\<lambda>obj. \<not> IsDir obj) dstObjs)), x))
                 else (Inr [], x))
          in case existed of
               Inl e \<Rightarrow> (Finished (Some e), x)
             | Inr existed \<Rightarrow>
                 (Children (map (child_task t dstActualPath)
                   (filter (\<lambda>obj. \<not> (TaskType t = MergeTask \<and> \<not> IsDir obj \<and> GetName obj \<in> set existed)) srcObjs)), x))"

definition stream_of :: "transfer_task \<Rightarrow> Obj \<Rightarrow> file_stream" where
  "stream_of t srcObj = \<lparr>fname = dst_name t srcObj, fsize = GetSize srcObj, fmodified = ModTime srcObj,
     fctime = CreateTime srcObj, fexist = None\<rparr>"

text \<open>\<open>seekable\<close> says whether a stream can be made of a link.\<close>

definition upload_to ::
  "'w cfg \<Rightarrow> (link \<Rightarrow> bool) \<Rightarrow> transfer_task \<Rightarrow> link \<times> Obj \<Rightarrow> 'w xfer \<Rightarrow> (fs_error option \<times> 'w xfer) outcome" where
  "upload_to C seekable t lo x =
     (let (l, srcObj) = lo
      in if \<not> seekable l then Ret (Some (DriverError ''failed get stream''), x)
         else
           case op_Put (quiet_env True (fenv C)) (backend_at C (DstStorage t)) (GetSize srcObj) (DstActualPath t)
                  (stream_of t srcObj) (fsys_of (app x)) of
             None \<Rightarrow> Hang
           | Some (Panic, s) \<Rightarrow> Crash
           | Some (Return e, s) \<Rightarrow> Ret (e, x\<lparr>app := put_fsys s (app x)\<rparr>))"

definition copy_file :: "'w cfg \<Rightarrow> nat \<Rightarrow> (link \<Rightarrow> bool) \<Rightarrow> transfer_task \<Rightarrow> Obj \<Rightarrow> 'w xfer \<Rightarrow> (fs_error option \<times> 'w xfer) outcome" where
  "copy_file C tries seekable t srcObj x =
     (let (skip, x) =
        (if TaskType t = CopyTask \<and> SkipExisting t
         then (case get_on C (DstStorage t) (path_join [DstActualPath t, dst_name t srcObj]) x of
                 (Inl _, x) \<Rightarrow> (False, x)
               | (Inr dstObj, x) \<Rightarrow> (shouldSkipExistingFile srcObj dstObj, x))
         else (False, x))
      in if skip then Ret (None, x)
         else
           case op_Link tries (fenv C) (backend_at C (SrcStorage t)) (SrcActualPath t)
                  \<lparr>LinkType = [], LinkIP = [], UserAgent = []\<rparr> (fsys_of (app x)) of
             Panic \<Rightarrow> Crash
           | Return None \<Rightarrow> Hang
           | Return (Some (Inl e, s)) \<Rightarrow> Ret (Some e, x\<lparr>app := put_fsys s (app x)\<rparr>)
           | Return (Some (Inr lo, s)) \<Rightarrow> upload_to C seekable t lo (x\<lparr>app := put_fsys s (app x)\<rparr>))"

definition task_step :: "'w cfg \<Rightarrow> nat \<Rightarrow> (link \<Rightarrow> bool) \<Rightarrow> transfer_task \<Rightarrow> 'w xfer \<Rightarrow> (work \<times> 'w xfer) outcome" where
  "task_step C tries seekable t x =
     (case get_on C (SrcStorage t) (SrcActualPath t) x of
        (Inl e, x) \<Rightarrow> Ret (Finished (Some e), x)
      | (Inr srcObj, x) \<Rightarrow>
          if IsDir srcObj then Ret (split_folder C t srcObj x)
          else outcome_bind (copy_file C tries seekable t srcObj x) (\<lambda>(e, x). Ret (Finished e, x)))"

text \<open>In the queue: the children become tasks of the same group.  Running a task ends with the report to
  its group.\<close>

definition enqueue :: "transfer_task \<Rightarrow> 'w xfer \<Rightarrow> 'w xfer" where
  "enqueue t x = x\<lparr>coordinator := AddTask (groupID t) None (coordinator x), queued := queued x @ [t]\<rparr>"

definition run_queued :: "nat \<Rightarrow> 'w cfg \<Rightarrow> nat \<Rightarrow> (link \<Rightarrow> bool) \<Rightarrow> transfer_task \<Rightarrow> 'w xfer \<Rightarrow> (fs_error option \<times> 'w xfer) outcome" where
  "run_queued n C tries seekable t x =
     outcome_bind (task_step C tries seekable t x) (\<lambda>(w, x).
       let (e, x) = (case w of Children ts \<Rightarrow> (None, fold enqueue ts x) | Finished e \<Rightarrow> (e, x))
       in outcome_bind (finish_in_group n C (groupID t) (e = None) x) (\<lambda>x. Ret (e, x)))"

text \<open>At once: the tree is walked to a depth; the walk stops at an error and reports whether any task
  succeeded.\<close>

fun run_now ::
  "nat \<Rightarrow> 'w cfg \<Rightarrow> nat \<Rightarrow> (link \<Rightarrow> bool) \<Rightarrow> transfer_task \<Rightarrow> 'w xfer \<Rightarrow> ((fs_error option \<times> bool) \<times> 'w xfer) outcome"
and run_all ::
  "nat \<Rightarrow> 'w cfg \<Rightarrow> nat \<Rightarrow> (link \<Rightarrow> bool) \<Rightarrow> transfer_task list \<Rightarrow> bool \<Rightarrow> 'w xfer \<Rightarrow> ((fs_error option \<times> bool) \<times> 'w xfer) outcome" where
  "run_now 0 C tries seekable t x = Hang"
| "run_now (Suc n) C tries seekable t x =
     outcome_bind (task_step C tries seekable t x) (\<lambda>(w, x).
       case w of Finished e \<Rightarrow> Ret ((e, e = None), x) | Children ts \<Rightarrow> run_all n C tries seekable ts False x)"
| "run_all n C tries seekable [] ok x = Ret ((None, True), x)"
| "run_all n C tries seekable (t # ts) ok x =
     outcome_bind (run_now n C tries seekable t x) (\<lambda>((e, s), x).
       if e \<noteq> None then Ret ((e, ok \<or> s), x) else run_all n C tries seekable ts True x)"

section \<open>Starting a transfer\<close>

text \<open>What the driver of a storage does by itself: None when the transfer has to become a task.\<close>

definition within_storage ::
  "'w cfg \<Rightarrow> taskType \<Rightarrow> bool \<Rightarrow> bool \<Rightarrow> Driver \<Rightarrow> string \<Rightarrow> string \<Rightarrow> string \<Rightarrow> 'w xfer \<Rightarrow> fs_error option option \<times> 'w xfer" where
  "within_storage C kind skipExisting skipHook d srcPath dstDir dstName x =
     (let (skip, x) =
        (if \<not> skipExisting then (False, x)
         else (case get_on C d srcPath x of
                 (Inl _, x) \<Rightarrow> (False, x)
               | (Inr srcObj, x) \<Rightarrow>
                   (case get_on C d (path_join [dstDir, if dstName = [] then GetName srcObj else dstName]) x of
                      (Inl _, x) \<Rightarrow> (False, x)
                    | (Inr dstObj, x) \<Rightarrow> (shouldSkipExistingFile srcObj dstObj, x))))
      in if skip then (Some None, x)
         else
           let (err, x) = on_driver C d (\<lambda>b.
                 (if kind = MoveTask then op_Move else op_Copy) (quiet_env skipHook (fenv C)) b srcPath dstDir (Some dstName)) x
           in (if err = Some NotImplement \<or> err = Some NotSupport then None else Some err, x))"

definition new_task :: "taskType \<Rightarrow> bool \<Rightarrow> Driver \<Rightarrow> Driver \<Rightarrow> string \<Rightarrow> string \<Rightarrow> string \<Rightarrow> transfer_task" where
  "new_task kind skipExisting src dst srcPath dstDir dstName =
     \<lparr>TaskType = kind, SrcStorage = src, DstStorage = dst, SrcActualPath = srcPath, DstActualPath = dstDir, DstName = dstName,
      SkipExisting = skipExisting, groupID = path_join [MountPath (storage dst), dstDir, dstName]\<rparr>"

definition start_task ::
  "nat \<Rightarrow> 'w cfg \<Rightarrow> nat \<Rightarrow> (link \<Rightarrow> bool) \<Rightarrow> bool \<Rightarrow> string \<Rightarrow> transfer_task \<Rightarrow> 'w xfer \<Rightarrow> (fs_error option \<times> 'w xfer) outcome" where
  "start_task n C tries seekable noTask srcObjPath t x =
     (if noTask then
        outcome_bind (run_now n C tries seekable t (x\<lparr>coordinator := AddTask (groupID t) None (coordinator x)\<rparr>))
          (\<lambda>((e, ok), x).
            let x = (if TaskType t = MoveTask then add_payload (groupID t) (SrcPathToRemove srcObjPath) x else x)
            in outcome_bind (finish_in_group n C (groupID t) ok x) (\<lambda>x. Ret (e, x)))
      else
        let x = enqueue t x
        in Ret (None, if TaskType t = MoveTask then add_payload (groupID t) (SrcPathToRemove srcObjPath) x else x))"

definition transfer ::
  "nat \<Rightarrow> 'w cfg \<Rightarrow> nat \<Rightarrow> (link \<Rightarrow> bool) \<Rightarrow> bool \<Rightarrow> bool \<Rightarrow> taskType \<Rightarrow> string \<Rightarrow> string \<Rightarrow> string \<Rightarrow> bool \<Rightarrow> 'w xfer \<Rightarrow>
     (fs_error option \<times> 'w xfer) outcome" where
  "transfer n C tries seekable noTask skipKey kind srcObjPath dstDirPath dstName skipHook x =
     (case route_x C srcObjPath x of
        (Inl e, x) \<Rightarrow> Ret (Some e, x)
      | (Inr (src, srcPath), x) \<Rightarrow>
          (case route_x C dstDirPath x of
             (Inl e, x) \<Rightarrow> Ret (Some e, x)
           | (Inr (dst, dstDir), x) \<Rightarrow>
               (let skipExisting = (kind = CopyTask \<and> skipKey);
                    (direct, x) = (if src = dst
                      then within_storage C kind skipExisting skipHook src srcPath dstDir dstName x else (None, x))
                in case direct of
                     Some err \<Rightarrow> Ret (err, x)
                   | None \<Rightarrow>
                       start_task n C tries seekable noTask srcObjPath
                         (new_task kind skipExisting src dst srcPath dstDir dstName) x)))"

section \<open>Upload tasks\<close>

definition putAsTask :: "'w cfg \<Rightarrow> string \<Rightarrow> file_stream \<Rightarrow> 'w xfer \<Rightarrow> fs_error option \<times> 'w xfer" where
  "putAsTask C dstDirPath file x =
     (case route_x C dstDirPath x of
        (Inl e, x) \<Rightarrow> (Some e, x)
      | (Inr (d, actual), x) \<Rightarrow>
          if NoUpload (config d) then (Some NotSupport, x)
          else (None, x\<lparr>coordinator := AddTask (path_join [MountPath (storage d), actual]) None (coordinator x),
                        uploads := uploads x @ [\<lparr>up_storage = d, dstDirActualPath = actual, up_file = file\<rparr>]\<rparr>))"

definition run_upload :: "nat \<Rightarrow> 'w cfg \<Rightarrow> int \<Rightarrow> upload_task \<Rightarrow> 'w xfer \<Rightarrow> (fs_error option \<times> 'w xfer) outcome" where
  "run_upload n C fullSize t x =
     (case op_Put (quiet_env True (fenv C)) (backend_at C (up_storage t)) fullSize (dstDirActualPath t) (up_file t) (fsys_of (app x)) of
        None \<Rightarrow> Hang
      | Some (Panic, s) \<Rightarrow> Crash
      | Some (Return e, s) \<Rightarrow>
          outcome_bind (finish_in_group n C (path_join [MountPath (storage (up_storage t)), dstDirActualPath t]) (e = None)
              (x\<lparr>app := put_fsys s (app x)\<rparr>)) (\<lambda>x. Ret (e, x)))"

end
