(* ===== verification/FsHandlers.thy ===== *)
theory FsHandlers
  imports Transfers Sessions
begin

text \<open>
  The handlers that change files: \<open>server/handles/fsmanage.go\<close>, \<open>fsbatch.go\<close>, \<open>fsup.go\<close>, the guards of
  \<open>helper.go\<close> and the middleware \<open>server/middlewares/fsup.go\<close>.  A handler is written against the
  operations of \<open>internal/fs\<close> as a record, \<open>layer\<close>, whose state it threads; \<open>server_layer\<close> is that record for
  the file layer of the model.  A handler answers early (\<open>Inl\<close> a reply) or succeeds (\<open>Inr\<close> its data).
\<close>

section \<open>The file layer a handler calls\<close>

record 's layer =
  L_metas :: "'s \<Rightarrow> metaStore"
  L_put_metas :: "metaStore \<Rightarrow> 's \<Rightarrow> 's"
  L_storage :: "string \<Rightarrow> 's \<Rightarrow> (fs_error + Driver) \<times> 's"
  L_get :: "string \<Rightarrow> bool \<Rightarrow> 's \<Rightarrow> ((fs_error + Obj) \<times> 's) outcome"
  L_list :: "User option \<Rightarrow> Meta option \<Rightarrow> string \<Rightarrow> bool \<Rightarrow> bool \<Rightarrow> 's \<Rightarrow> ((fs_error + Obj list) \<times> 's) outcome"
  L_link :: "string \<Rightarrow> link_args \<Rightarrow> 's \<Rightarrow> ((fs_error + link \<times> Obj) \<times> 's) outcome"
  L_other :: "string \<Rightarrow> string \<Rightarrow> 's \<Rightarrow> ((fs_error + string) \<times> 's) outcome"
  L_makeDir :: "string \<Rightarrow> 's \<Rightarrow> (fs_error option \<times> 's) outcome"
  L_rename :: "string \<Rightarrow> string \<Rightarrow> 's \<Rightarrow> (fs_error option \<times> 's) outcome"
  L_remove :: "string \<Rightarrow> 's \<Rightarrow> (fs_error option \<times> 's) outcome"
  L_transfer :: "taskType \<Rightarrow> bool \<Rightarrow> string \<Rightarrow> string \<Rightarrow> bool \<Rightarrow> 's \<Rightarrow> ((fs_error + bool) \<times> 's) outcome"
  L_put :: "int \<Rightarrow> string \<Rightarrow> file_stream \<Rightarrow> 's \<Rightarrow> (fs_error option \<times> 's) outcome"
  L_purge :: "string \<Rightarrow> 's \<Rightarrow> (fs_error option \<times> 's) outcome"
  L_transferTo :: "taskType \<Rightarrow> string \<Rightarrow> string \<Rightarrow> 's \<Rightarrow> (fs_error option \<times> 's) outcome"
  L_putTask :: "string \<Rightarrow> file_stream \<Rightarrow> 's \<Rightarrow> (fs_error option \<times> 's) outcome"
  L_directUpload :: "string \<Rightarrow> string \<Rightarrow> string \<Rightarrow> int \<Rightarrow> bool \<Rightarrow> 's \<Rightarrow> ((fs_error + string) \<times> 's) outcome"

text \<open>The layer of the server.  A transfer says whether it started a task; requests queue their tasks,
  and WebDAV transfers to a path run at once.\<close>

definition on_app :: "('w app \<Rightarrow> 'a \<times> 'w app) \<Rightarrow> 'w xfer \<Rightarrow> ('a \<times> 'w xfer) outcome" where
  "on_app f x = (let (r, a) = f (app x) in Ret (r, x\<lparr>app := a\<rparr>))"

definition on_app_go :: "('w app \<Rightarrow> ('a \<times> 'w app) go) \<Rightarrow> 'w xfer \<Rightarrow> ('a \<times> 'w xfer) outcome" where
  "on_app_go f x = (case f (app x) of Panic \<Rightarrow> Crash | Return (r, a) \<Rightarrow> Ret (r, x\<lparr>app := a\<rparr>))"

definition on_app_opt :: "('w app \<Rightarrow> ('a \<times> 'w app) option) \<Rightarrow> 'w xfer \<Rightarrow> ('a \<times> 'w xfer) outcome" where
  "on_app_opt f x = (case f (app x) of None \<Rightarrow> Hang | Some (r, a) \<Rightarrow> Ret (r, x\<lparr>app := a\<rparr>))"

definition server_link :: "'w cfg \<Rightarrow> nat \<Rightarrow> string \<Rightarrow> link_args \<Rightarrow> 'w xfer \<Rightarrow> ((fs_error + link \<times> Obj) \<times> 'w xfer) outcome" where
  "server_link C tries path args x =
     (case fs_link tries C path args (app x) of
        Panic \<Rightarrow> Crash
      | Return None \<Rightarrow> Hang
      | Return (Some (r, a)) \<Rightarrow> Ret (r, x\<lparr>app := a\<rparr>))"

definition server_put :: "'w cfg \<Rightarrow> int \<Rightarrow> string \<Rightarrow> file_stream \<Rightarrow> 'w xfer \<Rightarrow> (fs_error option \<times> 'w xfer) outcome" where
  "server_put C fullSize dir file x =
     (case putDirectly C fullSize dir file False (app x) of
        None \<Rightarrow> Hang
      | Some (Panic, a) \<Rightarrow> Crash
      | Some (Return e, a) \<Rightarrow> Ret (e, x\<lparr>app := a\<rparr>))"

definition server_transfer ::
  "nat \<Rightarrow> 'w cfg \<Rightarrow> nat \<Rightarrow> (link \<Rightarrow> bool) \<Rightarrow> taskType \<Rightarrow> bool \<Rightarrow> string \<Rightarrow> string \<Rightarrow> bool \<Rightarrow> 'w xfer \<Rightarrow>
     ((fs_error + bool) \<times> 'w xfer) outcome" where
  "server_transfer n C tries seekable kind skipKey src dstDir skipHook x =
     outcome_bind (transfer n C tries seekable False skipKey kind src dstDir [] skipHook x)
       (\<lambda>(e, x'). Ret (case e of Some e \<Rightarrow> Inl e | None \<Rightarrow> Inr (length (queued x) < length (queued x')), x'))"

definition server_layer :: "nat \<Rightarrow> 'w cfg \<Rightarrow> nat \<Rightarrow> (link \<Rightarrow> bool) \<Rightarrow> 'w xfer layer" where
  "server_layer n C tries seekable = \<lparr>
     L_metas = (\<lambda>x. metas (app x)),
     L_put_metas = (\<lambda>ms x. x\<lparr>app := (app x)\<lparr>metas := ms\<rparr>\<rparr>),
     L_storage = (\<lambda>path x. let (r, a) = fs_GetStorage C path (app x) in (r, x\<lparr>app := a\<rparr>)),
     L_get = (\<lambda>path withDetails. on_app_go (fs_get C path withDetails)),
     L_list = (\<lambda>user meta path refresh withDetails. on_app_go (fs_list C user meta path refresh withDetails)),
     L_link = server_link C tries,
     L_other = (\<lambda>path request. on_app (fs_other C path request)),
     L_makeDir = (\<lambda>path. on_app_opt (fs_makeDir C path)),
     L_rename = (\<lambda>path name. on_app (fs_rename C path name False)),
     L_remove = (\<lambda>path. on_app (fs_remove C path)),
     L_transfer = server_transfer n C tries seekable,
     L_put = server_put C,
     L_purge = (\<lambda>path. on_app (fs_purge C path)),
     L_transferTo = (\<lambda>kind src dst. transfer n C tries seekable True False kind src (path_dir dst) (path_base dst) False),
     L_putTask = (\<lambda>dir file x. Ret (putAsTask C dir file x)),
     L_directUpload = (\<lambda>tool dir name fsz overwrite. on_app_opt (getDirectUploadInfo C tool dir name fsz overwrite))\<rparr>"

section \<open>Handlers as values\<close>

type_synonym ('s, 'r, 'a) handler = "'s \<Rightarrow> (('r + 'a) \<times> 's) outcome"

type_synonym ('s, 'a) handling = "('s, reply, 'a) handler"

definition answer :: "'r \<Rightarrow> ('s, 'r, 'a) handler" where
  "answer r s = Ret (Inl r, s)"

definition give :: "'a \<Rightarrow> ('s, 'r, 'a) handler" where
  "give x s = Ret (Inr x, s)"

definition andThen :: "('s, 'r, 'a) handler \<Rightarrow> ('a \<Rightarrow> ('s, 'r, 'b) handler) \<Rightarrow> ('s, 'r, 'b) handler" where
  "andThen h k s = outcome_bind (h s) (\<lambda>(r, s). case r of Inl a \<Rightarrow> Ret (Inl a, s) | Inr x \<Rightarrow> k x s)"

definition unless :: "bool \<Rightarrow> 'r \<Rightarrow> ('s, 'r, unit) handler" where
  "unless ok r = (if ok then give () else answer r)"

text \<open>An operation of the layer whose failure is answered with 500.\<close>

definition act :: "('s \<Rightarrow> (fs_error option \<times> 's) outcome) \<Rightarrow> ('s, unit) handling" where
  "act f s = outcome_bind (f s) (\<lambda>(e, s). Ret (case e of Some _ \<Rightarrow> Inl (ErrorResp 500) | None \<Rightarrow> Inr (), s))"

definition fetch :: "('s \<Rightarrow> ((fs_error + 'a) \<times> 's) outcome) \<Rightarrow> ('s, 'a) handling" where
  "fetch f s = outcome_bind (f s) (\<lambda>(r, s). Ret (case r of Inl _ \<Rightarrow> Inl (ErrorResp 500) | Inr x \<Rightarrow> Inr x, s))"

text \<open>The idiom \<open>res, _ := fs.Get(...)\<close>, which forgets the error.\<close>

definition peek :: "('s \<Rightarrow> ((fs_error + 'a) \<times> 's) outcome) \<Rightarrow> ('s, 'r, 'a option) handler" where
  "peek f s = outcome_bind (f s) (\<lambda>(r, s). Ret (Inr (case r of Inl _ \<Rightarrow> None | Inr x \<Rightarrow> Some x), s))"

section \<open>The guards\<close>

abbreviation denied :: reply where
  "denied \<equiv> ErrorResp 403"

definition bound :: "'r option \<Rightarrow> ('s, 'r) handling" where
  "bound req = (case req of None \<Rightarrow> answer (ErrorResp 400) | Some r \<Rightarrow> give r)"

definition CurrentUser :: "User option \<Rightarrow> ('s, User) handling" where
  "CurrentUser user =
     (case user of None \<Rightarrow> answer (ErrorStrResp ''Authentication required'' 401) | Some u \<Rightarrow> give u)"

definition join_path :: "User \<Rightarrow> string \<Rightarrow> ('s, string) handling" where
  "join_path user path = (case JoinPath user path of Inl _ \<Rightarrow> answer denied | Inr p \<Rightarrow> give p)"

definition rule_or :: "'r \<Rightarrow> 's layer \<Rightarrow> string \<Rightarrow> ('s, 'r, Meta option) handler" where
  "rule_or failed L path s =
     (let (r, ms) = nearest_meta path (L_metas L s)
      in Ret (map_sum (\<lambda>_. failed) (\<lambda>m. m) r, L_put_metas L ms s))"

definition rule_at :: "'s layer \<Rightarrow> string \<Rightarrow> ('s, Meta option) handling" where
  "rule_at = rule_or (ErrorResp 500)"

text \<open>The four guards of \<open>helper.go\<close> have one shape.\<close>

definition guard_or ::
  "'r \<Rightarrow> 'r \<Rightarrow> (metaStore \<Rightarrow> User option \<Rightarrow> string \<Rightarrow> ((meta_error + bool) \<times> metaStore) option) \<Rightarrow>
     's layer \<Rightarrow> User \<Rightarrow> string \<Rightarrow> ('s, 'r, unit) handler" where
  "guard_or failed refused check L user path s =
     (case check (L_metas L s) (Some user) path of
        None \<Rightarrow> Hang
      | Some (Inl _, ms) \<Rightarrow> answer failed (L_put_metas L ms s)
      | Some (Inr allowed, ms) \<Rightarrow> unless allowed refused (L_put_metas L ms s))"

definition guard_with ::
  "(metaStore \<Rightarrow> User option \<Rightarrow> string \<Rightarrow> ((meta_error + bool) \<times> metaStore) option) \<Rightarrow>
     's layer \<Rightarrow> User \<Rightarrow> string \<Rightarrow> ('s, unit) handling" where
  "guard_with = guard_or (ErrorResp 500) denied"

definition canReadPath :: "'s layer \<Rightarrow> User \<Rightarrow> string \<Rightarrow> ('s, unit) handling" where
  "canReadPath = guard_with CanReadPath"

definition canWritePath :: "'s layer \<Rightarrow> User \<Rightarrow> string \<Rightarrow> ('s, unit) handling" where
  "canWritePath = guard_with CanWritePath"

definition canReadTree :: "'s layer \<Rightarrow> User \<Rightarrow> string \<Rightarrow> ('s, unit) handling" where
  "canReadTree = guard_with CanReadTree"

definition canWriteTree :: "'s layer \<Rightarrow> User \<Rightarrow> string \<Rightarrow> ('s, unit) handling" where
  "canWriteTree = guard_with CanWriteTree"

text \<open>\<open>JoinPath\<close>, the nearest rule and its permission to write: how most handlers begin.\<close>

definition writable_dir :: "'s layer \<Rightarrow> User \<Rightarrow> string \<Rightarrow> ('s, string \<times> Meta option) handling" where
  "writable_dir L user dir =
     andThen (join_path user dir) (\<lambda>p.
     andThen (rule_at L p) (\<lambda>meta.
     andThen (unless (CanWrite (Some user) meta p) denied) (\<lambda>_. give (p, meta))))"

definition readable_dir :: "'s layer \<Rightarrow> User \<Rightarrow> string \<Rightarrow> ('s, string \<times> Meta option) handling" where
  "readable_dir L user dir =
     andThen (join_path user dir) (\<lambda>p.
     andThen (rule_at L p) (\<lambda>meta.
     andThen (unless (CanRead (Some user) meta p) denied) (\<lambda>_. give (p, meta))))"

definition writable_content :: "'s layer \<Rightarrow> User \<Rightarrow> string \<Rightarrow> ('s, unit) handling" where
  "writable_content L u path =
     andThen (rule_at L path) (\<lambda>meta.
     andThen (unless (CanWriteContent u \<or> CanWriteContentBypassUserPerms meta path) denied) (\<lambda>_.
     unless (CanWrite (Some u) meta path) denied))"

definition writable_parent :: "'s layer \<Rightarrow> User \<Rightarrow> string \<Rightarrow> ('s, unit) handling" where
  "writable_parent L u path = writable_content L u (path_dir path)"

definition checkRelativePath :: "string \<Rightarrow> path_error option" where
  "checkRelativePath path =
     (if CHR ''/'' \<in> set path \<or> CHR 0x5C \<in> set path \<or> path = [] \<or> path = ''.'' \<or> path = ''..'' then Some RelativePath else None)"

section \<open>\<open>fsmanage.go\<close>\<close>

definition FsMkdir :: "'s layer \<Rightarrow> User option \<Rightarrow> string option \<Rightarrow> ('s, unit) handling" where
  "FsMkdir L user req =
     andThen (bound req) (\<lambda>path.
     andThen (CurrentUser user) (\<lambda>u.
     andThen (join_path u path) (\<lambda>reqPath.
     andThen (writable_parent L u reqPath) (\<lambda>_.
     andThen (canWritePath L u reqPath) (\<lambda>_.
     act (L_makeDir L reqPath))))))"

record MoveCopyReq =
  SrcDir :: string
  DstDir :: string
  Names :: "string list"
  Overwrite :: bool
  SkipExistingReq :: bool
  MergeReq :: bool

text \<open>\<open>if !strings.HasSuffix(srcDir, "/") { srcDir += "/" }\<close> and the test that a name stays below it.\<close>

definition with_slash :: "string \<Rightarrow> string" where
  "with_slash dir = (if has_suffix dir ''/'' then dir else dir @ ''/'')"

definition stays_below :: "string \<Rightarrow> string \<Rightarrow> bool" where
  "stays_below dir path \<longleftrightarrow> has_prefix (path @ ''/'') dir"

definition exists_msg :: "string \<Rightarrow> string" where
  "exists_msg name = ''file ['' @ name @ ''] exists''"

text \<open>The destination may not exist unless \<open>tolerated\<close> lets it.\<close>

definition no_clash :: "'s layer \<Rightarrow> (Obj \<Rightarrow> bool) \<Rightarrow> string \<Rightarrow> string \<Rightarrow> string \<Rightarrow> ('s, unit) handling" where
  "no_clash L tolerated dstDir srcPath name =
     (let base = path_base srcPath
      in if base = ''.'' \<or> base = ''/'' then answer (ErrorStrResp (''invalid file name ['' @ name @ '']'') 400)
         else andThen (peek (L_get L (path_join [dstDir, base]) False)) (\<lambda>res.
           unless (case res of None \<Rightarrow> True | Some obj \<Rightarrow> tolerated obj) (ErrorStrResp (exists_msg name) 403)))"

text \<open>The first loop of \<open>FsMove\<close> and \<open>FsCopy\<close>: the names become paths, or nothing where they leave the
  source directory.\<close>

fun resolve_names ::
  "'s layer \<Rightarrow> (string \<Rightarrow> ('s, unit) handling) \<Rightarrow> User \<Rightarrow> bool \<Rightarrow> (Obj \<Rightarrow> bool) \<Rightarrow> string \<Rightarrow> string \<Rightarrow> string list \<Rightarrow>
     ('s, string list) handling" where
  "resolve_names L source_guard u overwrite tolerated srcDir dstDir [] = give []"
| "resolve_names L source_guard u overwrite tolerated srcDir dstDir (name # names) =
     (let srcPath = path_join [srcDir, name];
          rest = (\<lambda>p. andThen (resolve_names L source_guard u overwrite tolerated srcDir dstDir names) (\<lambda>ps. give (p # ps)))
      in if \<not> stays_below srcDir srcPath then rest []
         else
           andThen (source_guard srcPath) (\<lambda>_.
           andThen (canWriteTree L u (path_join [dstDir, path_base srcPath])) (\<lambda>_.
           andThen (if overwrite then give () else no_clash L tolerated dstDir srcPath name) (\<lambda>_.
           rest srcPath))))"

text \<open>The second loop; it gives the number of tasks started.\<close>

fun start_transfers :: "'s layer \<Rightarrow> taskType \<Rightarrow> bool \<Rightarrow> string \<Rightarrow> string list \<Rightarrow> ('s, nat) handling" where
  "start_transfers L kind skipKey dstDir [] = give 0"
| "start_transfers L kind skipKey dstDir (p # ps) =
     (if p = [] then start_transfers L kind skipKey dstDir ps
      else
        andThen (fetch (L_transfer L kind skipKey p dstDir (ps \<noteq> []))) (\<lambda>task.
        andThen (start_transfers L kind skipKey dstDir ps) (\<lambda>n. give (if task then Suc n else n))))"

definition nonempty_names :: "string list \<Rightarrow> ('s, unit) handling" where
  "nonempty_names names = unless (names \<noteq> []) (ErrorStrResp ''Empty file names'' 400)"

definition FsMove :: "'s layer \<Rightarrow> User option \<Rightarrow> MoveCopyReq option \<Rightarrow> ('s, nat) handling" where
  "FsMove L user req =
     andThen (bound req) (\<lambda>req.
     andThen (nonempty_names (Names req)) (\<lambda>_.
     andThen (CurrentUser user) (\<lambda>u.
     andThen (unless (CanMove u) denied) (\<lambda>_.
     andThen (writable_dir L u (SrcDir req)) (\<lambda>(srcDir, _).
     andThen (writable_dir L u (DstDir req)) (\<lambda>(dstDir, _).
     andThen (resolve_names L (canWriteTree L u) u (Overwrite req) (\<lambda>_. False) (with_slash srcDir) dstDir (Names req)) (\<lambda>paths.
     start_transfers L MoveTask False dstDir paths)))))))"

definition copy_tolerated :: "MoveCopyReq \<Rightarrow> Obj \<Rightarrow> bool" where
  "copy_tolerated req res \<longleftrightarrow> MergeReq req \<and> IsDir res \<or> SkipExistingReq req \<and> \<not> IsDir res"

definition FsCopy :: "'s layer \<Rightarrow> User option \<Rightarrow> MoveCopyReq option \<Rightarrow> ('s, nat) handling" where
  "FsCopy L user req =
     andThen (bound req) (\<lambda>req.
     andThen (nonempty_names (Names req)) (\<lambda>_.
     andThen (CurrentUser user) (\<lambda>u.
     andThen (unless (CanCopy u) denied) (\<lambda>_.
     andThen (readable_dir L u (SrcDir req)) (\<lambda>(srcDir, _).
     andThen (writable_dir L u (DstDir req)) (\<lambda>(dstDir, _).
     andThen (resolve_names L (canReadTree L u) u (Overwrite req) (copy_tolerated req) (with_slash srcDir) dstDir (Names req)) (\<lambda>paths.
     start_transfers L (if MergeReq req then MergeTask else CopyTask) (SkipExistingReq req) dstDir paths)))))))"

record RenameReq =
  RenamePath :: string
  RenameName :: string
  RenameOverwrite :: bool

definition relative_name :: "string \<Rightarrow> ('s, unit) handling" where
  "relative_name name = unless (checkRelativePath name = None) denied"

definition FsRename :: "'s layer \<Rightarrow> User option \<Rightarrow> RenameReq option \<Rightarrow> ('s, unit) handling" where
  "FsRename L user req =
     andThen (bound req) (\<lambda>req.
     andThen (CurrentUser user) (\<lambda>u.
     andThen (unless (CanRename u) denied) (\<lambda>_.
     andThen (join_path u (RenamePath req)) (\<lambda>reqPath.
     andThen (relative_name (RenameName req)) (\<lambda>_.
     andThen (rule_at L (path_dir reqPath)) (\<lambda>parentMeta.
     andThen (unless (CanWrite (Some u) parentMeta (path_dir reqPath)) denied) (\<lambda>_.
     let dstPath = path_join [path_dir reqPath, RenameName req] in
     andThen (canWriteTree L u reqPath) (\<lambda>_.
     andThen (canWriteTree L u dstPath) (\<lambda>_.
     andThen (if RenameOverwrite req \<or> dstPath = reqPath then give None else peek (L_get L dstPath False)) (\<lambda>res.
     andThen (unless (res = None) (ErrorStrResp (exists_msg (RenameName req)) 403)) (\<lambda>_.
     act (L_rename L reqPath (RenameName req)))))))))))))"

record RemoveReq =
  RemoveDir :: string
  RemoveNames :: "string list"

fun resolve_removals :: "'s layer \<Rightarrow> User \<Rightarrow> string \<Rightarrow> string list \<Rightarrow> ('s, string list) handling" where
  "resolve_removals L u dir [] = give []"
| "resolve_removals L u dir (name # names) =
     (let fullPath = path_join [dir, name];
          rest = (\<lambda>p. andThen (resolve_removals L u dir names) (\<lambda>ps. give (p # ps)))
      in if \<not> stays_below dir fullPath then rest [] else andThen (canWriteTree L u fullPath) (\<lambda>_. rest fullPath))"

fun remove_paths :: "'s layer \<Rightarrow> string list \<Rightarrow> ('s, unit) handling" where
  "remove_paths L [] = give ()"
| "remove_paths L (p # ps) = (if p = [] then remove_paths L ps else andThen (act (L_remove L p)) (\<lambda>_. remove_paths L ps))"

definition FsRemove :: "'s layer \<Rightarrow> User option \<Rightarrow> RemoveReq option \<Rightarrow> ('s, unit) handling" where
  "FsRemove L user req =
     andThen (bound req) (\<lambda>req.
     andThen (nonempty_names (RemoveNames req)) (\<lambda>_.
     andThen (CurrentUser user) (\<lambda>u.
     andThen (unless (CanRemove u) denied) (\<lambda>_.
     andThen (writable_dir L u (RemoveDir req)) (\<lambda>(dir, _).
     andThen (resolve_removals L u (with_slash dir) (RemoveNames req)) (\<lambda>paths.
     remove_paths L paths))))))"

text \<open>\<open>FsRemoveEmptyDirectory\<close> keeps a queue of folders with their paths and parents; the first
  argument bounds the number of folders taken from it.\<close>

datatype visit = Visit (visit_path: string) (visit_parent: "visit option")

definition subfolders :: "string \<Rightarrow> visit option \<Rightarrow> Obj list \<Rightarrow> visit list" where
  "subfolders dir parent found = map (\<lambda>f. Visit (dir @ ''/'' @ GetName f) parent) (filter IsDir found)"

fun remove_empty ::
  "nat \<Rightarrow> 's layer \<Rightarrow> User \<Rightarrow> Meta option \<Rightarrow> string list \<Rightarrow> visit list \<Rightarrow> ('s, unit) handling" where
  "remove_empty n L u meta removed [] = give ()"
| "remove_empty 0 L u meta removed (v # queue) = (\<lambda>s. Hang)"
| "remove_empty (Suc n) L u meta removed (v # queue) =
     (if visit_path v \<in> set removed then remove_empty n L u meta removed queue
      else
        andThen (fetch (L_list L (Some u) meta (visit_path v) True False)) (\<lambda>subFiles.
          if subFiles = [] then
            andThen (act (L_remove L (visit_path v))) (\<lambda>_.
              remove_empty n L u meta (visit_path v # removed)
                (queue @ (case visit_parent v of None \<Rightarrow> [] | Some p \<Rightarrow> [p])))
          else remove_empty n L u meta removed (queue @ subfolders (visit_path v) (Some v) subFiles)))"

definition FsRemoveEmptyDirectory :: "nat \<Rightarrow> 's layer \<Rightarrow> User option \<Rightarrow> string option \<Rightarrow> ('s, unit) handling" where
  "FsRemoveEmptyDirectory n L user req =
     andThen (bound req) (\<lambda>dir.
     andThen (CurrentUser user) (\<lambda>u.
     andThen (unless (CanRemove u) denied) (\<lambda>_.
     andThen (writable_dir L u dir) (\<lambda>(srcDir, meta).
     andThen (canWriteTree L u srcDir) (\<lambda>_.
     andThen (fetch (L_list L (Some u) meta srcDir False False)) (\<lambda>rootFiles.
     remove_empty n L u meta [] (subfolders srcDir None rootFiles)))))))"

section \<open>\<open>fsbatch.go\<close>\<close>

definition CANCEL :: string where "CANCEL = ''cancel''"
definition OVERWRITE :: string where "OVERWRITE = ''overwrite''"
definition SKIP :: string where "SKIP = ''skip''"

record RecursiveMoveReq =
  RecSrcDir :: string
  RecDstDir :: string
  ConflictPolicy :: string

text \<open>The files found so far, each with the directory it is in, and the names taken at the destination.\<close>

fun collect_files ::
  "nat \<Rightarrow> 's layer \<Rightarrow> User \<Rightarrow> Meta option \<Rightarrow> string \<Rightarrow> string \<Rightarrow> (Obj \<times> string) list \<Rightarrow> string list \<Rightarrow> string list \<Rightarrow>
     ('s, string list) handling" where
  "collect_files n L u meta policy dstDir [] existing found = give found"
| "collect_files 0 L u meta policy dstDir (fd # queue) existing found = (\<lambda>s. Hang)"
| "collect_files (Suc n) L u meta policy dstDir ((f, dir) # queue) existing found =
     (let name = dir @ ''/'' @ GetName f
      in if IsDir f then
           andThen (fetch (L_list L (Some u) meta name True False)) (\<lambda>subFiles.
             collect_files n L u meta policy dstDir (queue @ map (\<lambda>sub. (sub, name)) subFiles) existing found)
         else if dir = dstDir then collect_files n L u meta policy dstDir queue existing found
         else if GetName f \<in> set existing then
           (if policy = CANCEL then answer (ErrorStrResp (exists_msg (GetName f)) 403)
            else if policy = SKIP then collect_files n L u meta policy dstDir queue existing found
            else collect_files n L u meta policy dstDir queue existing (found @ [name]))
         else collect_files n L u meta policy dstDir queue
                (if policy \<noteq> OVERWRITE then existing @ [GetName f] else existing) (found @ [name]))"

fun move_found :: "'s layer \<Rightarrow> User \<Rightarrow> string \<Rightarrow> string list \<Rightarrow> ('s, nat) handling" where
  "move_found L u dstDir [] = give 0"
| "move_found L u dstDir (f # fs) =
     andThen (canWriteTree L u (path_join [dstDir, path_base f])) (\<lambda>_.
     andThen (fetch (L_transfer L MoveTask False f dstDir (fs \<noteq> []))) (\<lambda>_.
     andThen (move_found L u dstDir fs) (\<lambda>n. give (Suc n))))"

definition FsRecursiveMove :: "nat \<Rightarrow> 's layer \<Rightarrow> User option \<Rightarrow> RecursiveMoveReq option \<Rightarrow> ('s, nat) handling" where
  "FsRecursiveMove n L user req =
     andThen (bound req) (\<lambda>req.
     andThen (CurrentUser user) (\<lambda>u.
     andThen (unless (CanMove u) denied) (\<lambda>_.
     andThen (writable_dir L u (RecSrcDir req)) (\<lambda>(srcDir, meta).
     andThen (canWriteTree L u srcDir) (\<lambda>_.
     andThen (writable_dir L u (RecDstDir req)) (\<lambda>(dstDir, _).
     andThen (fetch (L_list L (Some u) meta srcDir False False)) (\<lambda>rootFiles.
     andThen (if ConflictPolicy req = OVERWRITE then give []
              else andThen (fetch (L_list L (Some u) meta dstDir False False)) (\<lambda>dstFiles. give (map GetName dstFiles)))
       (\<lambda>existing.
     andThen (collect_files n L u meta (ConflictPolicy req) dstDir (map (\<lambda>f. (f, srcDir)) rootFiles) existing []) (\<lambda>found.
     move_found L u dstDir found)))))))))"

text \<open>A rename of an entry of a directory, as the two batch renames do it.\<close>

definition rename_entry :: "'s layer \<Rightarrow> User \<Rightarrow> string \<Rightarrow> string \<Rightarrow> string \<Rightarrow> ('s, unit) handling" where
  "rename_entry L u dir srcName newName =
     andThen (canWriteTree L u (dir @ ''/'' @ srcName)) (\<lambda>_.
     andThen (canWriteTree L u (dir @ ''/'' @ newName)) (\<lambda>_.
     act (L_rename L (dir @ ''/'' @ srcName) newName)))"

fun rename_all :: "'s layer \<Rightarrow> User \<Rightarrow> string \<Rightarrow> (string \<times> string) list \<Rightarrow> ('s, unit) handling" where
  "rename_all L u dir [] = give ()"
| "rename_all L u dir ((src, new) # rest) =
     (if src = [] \<or> new = [] then rename_all L u dir rest
      else
        andThen (relative_name src) (\<lambda>_.
        andThen (relative_name new) (\<lambda>_.
        andThen (rename_entry L u dir src new) (\<lambda>_. rename_all L u dir rest))))"

definition FsBatchRename :: "'s layer \<Rightarrow> User option \<Rightarrow> (string \<times> (string \<times> string) list) option \<Rightarrow> ('s, unit) handling" where
  "FsBatchRename L user req =
     andThen (bound req) (\<lambda>(srcDir, renames).
     andThen (CurrentUser user) (\<lambda>u.
     andThen (unless (CanRename u) denied) (\<lambda>_.
     andThen (writable_dir L u srcDir) (\<lambda>(dir, _). rename_all L u dir renames))))"

text \<open>\<open>match\<close> and \<open>replace\<close> are what the compiled pattern does.\<close>

fun rename_matching :: "'s layer \<Rightarrow> User \<Rightarrow> (string \<Rightarrow> bool) \<Rightarrow> (string \<Rightarrow> string) \<Rightarrow> string \<Rightarrow> Obj list \<Rightarrow> ('s, unit) handling" where
  "rename_matching L u match replace dir [] = give ()"
| "rename_matching L u match replace dir (f # fs) =
     (if match (GetName f) then
        andThen (relative_name (replace (GetName f))) (\<lambda>_.
        andThen (rename_entry L u dir (GetName f) (replace (GetName f))) (\<lambda>_. rename_matching L u match replace dir fs))
      else rename_matching L u match replace dir fs)"

definition FsRegexRename ::
  "(string \<Rightarrow> ((string \<Rightarrow> bool) \<times> (string \<Rightarrow> string \<Rightarrow> string)) option) \<Rightarrow> 's layer \<Rightarrow> User option \<Rightarrow>
     (string \<times> string \<times> string) option \<Rightarrow> ('s, unit) handling" where
  "FsRegexRename compile L user req =
     andThen (bound req) (\<lambda>(srcDir, pattern, new).
     andThen (CurrentUser user) (\<lambda>u.
     andThen (unless (CanRename u) denied) (\<lambda>_.
     andThen (writable_dir L u srcDir) (\<lambda>(dir, meta).
     case compile pattern of
       None \<Rightarrow> answer (ErrorResp 500)
     | Some (match, replace) \<Rightarrow>
         andThen (fetch (L_list L (Some u) meta dir False False)) (\<lambda>files'.
           rename_matching L u match (\<lambda>n. replace n new) dir files')))))"

section \<open>Uploads\<close>

text \<open>What a request to upload carries: the headers read, with the file of the form for \<open>FsForm\<close>.
  \<open>None\<close> for the form file is an error of the form.\<close>

record upload_req =
  FilePath :: string
  AsTask :: string
  OverwriteHeader :: string
  ContentLength :: int
  XFileSize :: string
  LastModified :: string
  form_file :: "int option"
  upload_now :: int
  body_size :: int

definition IsSystemFile :: "string \<Rightarrow> bool" where
  "IsSystemFile filename \<longleftrightarrow>
     filename \<in> {''.DS_Store'', ''desktop.ini'', ''Thumbs.db'', ''@eaDir''} \<or> has_prefix filename ''._''"

definition shouldIgnoreSystemFile :: "bool \<Rightarrow> string \<Rightarrow> bool" where
  "shouldIgnoreSystemFile IgnoreSystemFiles filename \<longleftrightarrow> IgnoreSystemFiles \<and> IsSystemFile filename"

text \<open>The first of January 1970 in nanoseconds since the zero time.\<close>

definition epoch :: int where
  "epoch = 62135596800 * 1000000000"

definition getLastModified :: "upload_req \<Rightarrow> int" where
  "getLastModified req =
     (let (i, ok) = ParseInt (LastModified req) in if ok then epoch + i * 1000000 else upload_now req)"

text \<open>The middleware lets the request go on, with the user, or answers.\<close>

definition FsUp :: "'s layer \<Rightarrow> User option \<Rightarrow> upload_req \<Rightarrow> ('s, unit) handling" where
  "FsUp L user req =
     andThen (bound (path_unescape (FilePath req))) (\<lambda>path.
     andThen (CurrentUser user) (\<lambda>u.
     andThen (join_path u path) (\<lambda>path.
     andThen (writable_parent L u path) (\<lambda>_.
     canWritePath L u path))))"

text \<open>How both upload handlers begin.\<close>

definition upload_path :: "'s layer \<Rightarrow> User option \<Rightarrow> upload_req \<Rightarrow> ('s, string) handling" where
  "upload_path L user req =
     andThen (bound (path_unescape (FilePath req))) (\<lambda>path.
     andThen (CurrentUser user) (\<lambda>u.
     andThen (join_path u path) (\<lambda>path.
     andThen (if OverwriteHeader req \<noteq> ''false'' then give None else peek (L_get L path False)) (\<lambda>res.
     andThen (unless (res = None) (ErrorStrResp ''file exists'' 403)) (\<lambda>_. give path)))))"

definition upload_stream :: "string \<Rightarrow> int \<Rightarrow> upload_req \<Rightarrow> file_stream" where
  "upload_stream name fsz req =
     \<lparr>fname = name, fsize = fsz, fmodified = getLastModified req, fctime = getLastModified req, fexist = None\<rparr>"

definition put_stream :: "'s layer \<Rightarrow> upload_req \<Rightarrow> string \<Rightarrow> file_stream \<Rightarrow> ('s, unit) handling" where
  "put_stream L req dir file =
     act (if AsTask req = ''true'' then L_putTask L dir file else L_put L (body_size req) dir file)"

definition stream_size :: "upload_req \<Rightarrow> ('s, int) handling" where
  "stream_size req =
     (if ContentLength req < 0 \<and> XFileSize req \<noteq> []
      then (let (i, ok) = ParseInt (XFileSize req) in if ok then give i else answer (ErrorResp 400))
      else give (ContentLength req))"

definition ignored_name :: "bool \<Rightarrow> string \<Rightarrow> ('s, unit) handling" where
  "ignored_name IgnoreSystemFiles name =
     unless (\<not> shouldIgnoreSystemFile IgnoreSystemFiles name) (ErrorStrResp ''system file upload ignored'' 403)"

definition FsStream :: "bool \<Rightarrow> 's layer \<Rightarrow> User option \<Rightarrow> upload_req \<Rightarrow> ('s, unit) handling" where
  "FsStream IgnoreSystemFiles L user req =
     andThen (upload_path L user req) (\<lambda>path.
     let (dir, name) = path_split path in
     andThen (ignored_name IgnoreSystemFiles name) (\<lambda>_.
     andThen (stream_size req) (\<lambda>fsz.
     put_stream L req dir (upload_stream name fsz req))))"

definition storage_at :: "'s layer \<Rightarrow> string \<Rightarrow> ('s, (fs_error + Driver)) handling" where
  "storage_at L path s = (let (r, s) = L_storage L path s in Ret (Inr r, s))"

definition FsForm :: "bool \<Rightarrow> 's layer \<Rightarrow> User option \<Rightarrow> upload_req \<Rightarrow> ('s, unit) handling" where
  "FsForm IgnoreSystemFiles L user req =
     andThen (upload_path L user req) (\<lambda>path.
     andThen (storage_at L path) (\<lambda>r.
     case r of
       Inl _ \<Rightarrow> answer (ErrorResp 400)
     | Inr d \<Rightarrow>
         andThen (unless (\<not> NoUpload (config d)) (ErrorStrResp (''Current storage doesn'' @ CHR 0x27 # ''t support upload'') 405)) (\<lambda>_.
         case form_file req of
           None \<Rightarrow> answer (ErrorResp 500)
         | Some fsz \<Rightarrow>
             let (dir, name) = path_split path in
             andThen (ignored_name IgnoreSystemFiles name) (\<lambda>_.
             put_stream L req dir (upload_stream name fsz req)))))"

text \<open>The routes of the two: the middleware first.\<close>

definition upload_stream_route :: "bool \<Rightarrow> 's layer \<Rightarrow> User option \<Rightarrow> upload_req \<Rightarrow> ('s, unit) handling" where
  "upload_stream_route ignore L user req = andThen (FsUp L user req) (\<lambda>_. FsStream ignore L user req)"

definition upload_form_route :: "bool \<Rightarrow> 's layer \<Rightarrow> User option \<Rightarrow> upload_req \<Rightarrow> ('s, unit) handling" where
  "upload_form_route ignore L user req = andThen (FsUp L user req) (\<lambda>_. FsForm ignore L user req)"

section \<open>\<open>direct_upload.go\<close>\<close>

record DirectUploadReq =
  DirectPath :: string
  DirectName :: string
  DirectSize :: int
  DirectTool :: string
  DirectOverwrite :: string

text \<open>Here a failing \<open>Get\<close> is an error, unless there is no such object.\<close>

definition must_be_new :: "'s layer \<Rightarrow> string \<Rightarrow> ('s, unit) handling" where
  "must_be_new L path s =
     outcome_bind (L_get L path False s) (\<lambda>(r, s).
       Ret (case r of
              Inl e \<Rightarrow> if e = ObjectNotFound then Inr () else Inl (ErrorResp 500)
            | Inr _ \<Rightarrow> Inl (ErrorStrResp ''file exists'' 403), s))"

definition FsGetDirectUploadInfo :: "'s layer \<Rightarrow> User option \<Rightarrow> DirectUploadReq option \<Rightarrow> ('s, string) handling" where
  "FsGetDirectUploadInfo L user req =
     andThen (bound req) (\<lambda>req.
     andThen (bound (path_unescape (DirectPath req))) (\<lambda>path.
     andThen (CurrentUser user) (\<lambda>u.
     andThen (join_path u path) (\<lambda>path.
     andThen (relative_name (DirectName req)) (\<lambda>_.
     andThen (writable_content L u path) (\<lambda>_.
     let overwrite = (DirectOverwrite req \<noteq> ''false''); dstPath = path_join [path, DirectName req] in
     andThen (canWritePath L u dstPath) (\<lambda>_.
     andThen (if overwrite then give () else must_be_new L dstPath) (\<lambda>_.
     (\<lambda>s. outcome_bind (L_directUpload L (DirectTool req) path (DirectName req) (DirectSize req) overwrite s) (\<lambda>(r, s).
       Ret (case r of
              Inl e \<Rightarrow> Inl (if \<not> overwrite \<and> e = ObjectAlreadyExists then ErrorStrResp ''file exists'' 403 else ErrorResp 500)
            | Inr info \<Rightarrow> Inr info, s)))))))))))"

end
