(* ===== verification/Confinement.thy ===== *)
theory Confinement
  imports Access
begin

text \<open>
  Paths below the base path of a user, in the forms the handlers build them: rooted, without a
  backslash, not ending in dot-dot, and leading into the base when they are resolved.
\<close>

section \<open>The last element of a path\<close>

lemma path_base_cases:
  "path_base p = ''.'' \<or> path_base p = ''/'' \<or> (path_base p \<noteq> [] \<and> slash \<notin> set (path_base p) \<and> set (path_base p) \<subseteq> set p)"
proof -
  let ?q = "rev (dropWhile (\<lambda>c. c = slash) (rev p))"
  have q: "set ?q \<subseteq> set p" using set_dropWhileD by fastforce
  have s: "slash \<notin> set (snd (path_split ?q)) \<and> set (snd (path_split ?q)) \<subseteq> set ?q"
    using last_index_byte_Some [of ?q slash] set_drop_subset [of _ ?q]
    by (auto simp: path_split_def last_index_byte_None split: option.splits dest: in_set_dropD)
  show ?thesis using q s unfolding path_base_def Let_def by auto
qed

lemma path_split_append: "slash \<notin> set c \<Longrightarrow> path_split (d @ slash # c) = (d @ ''/'', c)"
  by (simp add: path_split_def)

lemma path_base_append:
  assumes "c \<noteq> []" "slash \<notin> set c"
  shows "path_base (d @ slash # c) = c"
proof -
  from assms obtain x xs where c: "c = xs @ [x]" "x \<noteq> slash" by (cases c rule: rev_cases) auto
  then have "rev (dropWhile (\<lambda>c. c = slash) (rev (d @ slash # c))) = d @ slash # c" by simp
  with assms path_split_append [OF assms(2), of d] show ?thesis by (simp add: path_base_def Let_def)
qed

section \<open>Names and paths\<close>

definition plain_name :: "string \<Rightarrow> bool" where
  "plain_name c \<longleftrightarrow> valid_comp c \<and> CHR 0x5C \<notin> set c"

definition below :: "string \<Rightarrow> string \<Rightarrow> bool" where
  "below basePath p \<longleftrightarrow>
     hd p = slash \<and> p \<noteq> [] \<and> CHR 0x5C \<notin> set p \<and> path_base p \<noteq> ''..'' \<and> prefix (norm basePath) (resolve p)"

lemma below_norm: "CHR 0x5C \<notin> set p \<Longrightarrow> norm p = resolve p"
  by (simp add: norm_def replace_backslash_free)

lemma below_IsSubPath: "below basePath p \<Longrightarrow> IsSubPath basePath p"
  by (simp add: below_def IsSubPath_norm below_norm)

lemma abs_path_backslash:
  "CHR 0x5C \<in> set (abs_path cs) \<longleftrightarrow> (\<exists>c \<in> set cs. CHR 0x5C \<in> set c)"
  by (induction cs) (auto simp: abs_path_def join_with_Cons)

lemma path_base_abs: "list_all valid_comp cs \<Longrightarrow> path_base (abs_path cs) = (if cs = [] then ''/'' else last cs)"
  by (cases cs rule: rev_cases) (auto simp: path_base_snoc, simp add: path_base_def path_split_def)

lemma below_abs:
  assumes "list_all plain_name cs" "prefix (norm b) cs"
  shows "below b (abs_path cs)"
proof -
  have v: "list_all valid_comp cs" using assms(1) by (auto simp: list_all_iff plain_name_def)
  have "cs \<noteq> [] \<Longrightarrow> last cs \<noteq> ''..''" using v by (metis last_in_set list_all_iff valid_comp_def)
  then show ?thesis
    using assms v by (auto simp: below_def path_base_abs abs_path_backslash resolve_abs_path list_all_iff plain_name_def)
      (simp_all add: abs_path_def)
qed

lemma resolve_plain: "CHR 0x5C \<notin> set p \<Longrightarrow> list_all plain_name (resolve p)"
  using norm_no_backslash [of _ p] resolve_valid [of p] by (auto simp: list_all_iff plain_name_def below_norm)

lemma below_clean: "below b p \<Longrightarrow> below b (abs_path (resolve p))"
  by (rule below_abs) (auto simp: below_def resolve_plain)

lemma JoinPath_below:
  assumes "JoinPath u q = Inr p"
  shows "below (BasePath u) p" and "canonical p" and "p = abs_path (norm (BasePath u) @ norm q)"
proof -
  from assms show p: "p = abs_path (norm (BasePath u) @ norm q)"
    by (auto simp: JoinPath_def JoinBasePath_norm split: if_splits)
  then show "canonical p" by (simp add: canonical_abs_path)
  show "below (BasePath u) p"
    unfolding p by (rule below_abs) (auto simp: list_all_iff plain_name_def norm_no_backslash dest: norm_valid [unfolded list_all_iff, rule_format])
qed

lemma resolve_name: "plain_name c \<Longrightarrow> resolve (p @ slash # c) = resolve p @ [c]"
  by (simp add: resolve_join plain_name_def valid_comp_def clean_step_def)

lemma below_entry:
  assumes "below b p" "plain_name c"
  shows "below b (p @ slash # c)"
  using assms path_base_append [of c p]
  by (auto simp: below_def resolve_name hd_append plain_name_def valid_comp_def)

lemma path_join_rooted: "p \<noteq> [] \<Longrightarrow> hd p = slash \<Longrightarrow> c \<noteq> [] \<Longrightarrow> path_join [p, c] = abs_path (resolve (p @ slash # c))"
  by (cases p) (simp_all add: path_join_def Let_def path_clean_rooted join_with_Cons)

lemma below_join:
  assumes "below b p" "plain_name c"
  shows "below b (path_join [p, c])"
proof -
  have "path_join [p, c] = abs_path (resolve (p @ slash # c))"
    using assms by (intro path_join_rooted) (auto simp: below_def plain_name_def valid_comp_def)
  then show ?thesis using below_clean [OF below_entry [OF assms]] by simp
qed

text \<open>An entry of a directory under the name a path ends in.\<close>

lemma below_join_base:
  assumes "below b dst" "below b src"
  shows "below b (path_join [dst, path_base src])"
proof -
  have nb: "CHR 0x5C \<notin> set src" "path_base src \<noteq> ''..''" and d: "hd dst = slash" "dst \<noteq> []"
    using assms by (auto simp: below_def)
  have r: "path_join [dst, path_base src] = abs_path (resolve (dst @ slash # path_base src))"
    using path_base_cases [of src] by (intro path_join_rooted [OF d(2,1)]) auto
  from path_base_cases [of src] consider "path_base src = ''.'' \<or> path_base src = ''/''" | "plain_name (path_base src)"
    using nb by (auto simp: plain_name_def valid_comp_def)
  then show ?thesis
  proof cases
    case 1
    then have "resolve (dst @ slash # path_base src) = resolve dst"
      by (auto simp: resolve_join clean_step_def)
    then show ?thesis using r below_clean [OF assms(1)] by simp
  next
    case 2
    from below_join [OF assms(1) 2] show ?thesis .
  qed
qed

text \<open>The directory a path is in, as \<open>Dir\<close> and \<open>Split\<close> give it; only the base itself leads out of the base.\<close>

lemma below_parent:
  assumes "list_all plain_name cs" "prefix (norm b) cs" "norm b \<noteq> cs"
  shows "below b (path_dir (abs_path cs))" and "below b (fst (path_split (abs_path cs)))"
    and "path_join [fst (path_split (abs_path cs)), snd (path_split (abs_path cs))] = abs_path cs"
    and "abs_path cs = path_join [path_dir (abs_path cs), path_base (abs_path cs)]"
proof -
  from assms(2,3) have "cs \<noteq> []" by auto
  then obtain ds c where cs: "cs = ds @ [c]" by (cases cs rule: rev_cases) auto
  from assms(1) cs have p: "list_all plain_name ds" "plain_name c" by auto
  then have v: "list_all valid_comp ds" "valid_comp c" by (auto simp: list_all_iff plain_name_def)
  from assms(2,3) cs have pre: "prefix (norm b) ds" by (auto simp: prefix_snoc)
  have d: "below b (abs_path ds)" by (rule below_abs [OF p(1) pre])
  show "below b (path_dir (abs_path cs))" using d by (simp add: cs path_dir_snoc [OF v])
  have "below b (abs_path ds @ ''/'')" if "ds \<noteq> []"
  proof -
    have "path_base (abs_path ds @ ''/'') = path_base (abs_path ds)"
      by (simp add: path_base_def abs_path_def Let_def)
    moreover have "resolve (abs_path ds @ ''/'') = resolve (abs_path ds)"
      using resolve_join [of "abs_path ds" "[]"] by simp
    ultimately show ?thesis using d by (auto simp: below_def hd_append)
  qed
  then show "below b (fst (path_split (abs_path cs)))" using d by (auto simp: cs path_split_snoc [OF v])
  have e: "resolve ''/'' = []" "resolve (abs_path ds @ ''/'') = ds"
    using resolve_join [of "abs_path ds" "[]"] resolve_abs_path [OF v(1)] resolve_abs_path [of "[]"] by simp_all
  have "path_join [abs_path ds @ ''/'', c] = abs_path cs" if "ds \<noteq> []"
  proof -
    have "path_join [abs_path ds @ ''/'', c] = abs_path (resolve ((abs_path ds @ ''/'') @ slash # c))"
      by (rule path_join_rooted) (use v(2) in \<open>auto simp: abs_path_def valid_comp_def\<close>)
    then show ?thesis unfolding resolve_name [OF p(2)] e(2) by (simp only: cs)
  qed
  moreover have "path_join [''/'', c] = abs_path cs" if "ds = []"
    using path_join_name [of "[]" c] v(2) that by (simp add: cs)
  ultimately show "path_join [fst (path_split (abs_path cs)), snd (path_split (abs_path cs))] = abs_path cs"
    by (auto simp: cs path_split_snoc [OF v])
  show "abs_path cs = path_join [path_dir (abs_path cs), path_base (abs_path cs)]"
    by (simp add: cs path_facts v)
qed

end
