(* ===== verification/HandlerRules.thy ===== *)
theory HandlerRules
  imports FsHandlers Confinement
begin

text \<open>
  What a handler keeps: rules for the combinators, and the contract \<open>layer_contract\<close> between the handlers
  and the file layer.  A property of the layer's state that every call on an allowed path keeps is kept
  by every handler, because the handlers only make calls on allowed paths.
\<close>

section \<open>Rules\<close>

definition kept :: "('s \<Rightarrow> bool) \<Rightarrow> ('a \<Rightarrow> bool) \<Rightarrow> ('s \<Rightarrow> ('a \<times> 's) outcome) \<Rightarrow> bool" where
  "kept J P f \<longleftrightarrow> (\<forall>s. J s \<longrightarrow> pred_outcome (\<lambda>(r, s). J s \<and> P r) (f s))"

definition holds :: "('s \<Rightarrow> bool) \<Rightarrow> ('a \<Rightarrow> bool) \<Rightarrow> ('s, 'r, 'a) handler \<Rightarrow> bool" where
  "holds J P h \<longleftrightarrow> kept J (\<lambda>r. \<forall>x. r = Inr x \<longrightarrow> P x) h"

text \<open>What a handler has done when it succeeds.\<close>

lemma andThen_success:
  "andThen h f s = Ret (Inr x, s') \<longleftrightarrow> (\<exists>y s1. h s = Ret (Inr y, s1) \<and> f y s1 = Ret (Inr x, s'))"
  by (cases "h s") (auto simp: andThen_def split: sum.splits)

lemma handler_success:
  "unless b a s = Ret (Inr x, s') \<longleftrightarrow> b \<and> s' = s" "give y s = Ret (Inr z, s') \<longleftrightarrow> z = y \<and> s' = s" "answer r s \<noteq> Ret (Inr z, s')"
  by (auto simp: unless_def give_def answer_def)

lemma holds_answer [intro]: "holds J P (answer r)"
  by (simp add: holds_def kept_def answer_def)

lemma holds_give [intro]: "P x \<Longrightarrow> holds J P (give x)"
  by (simp add: holds_def kept_def give_def)

lemma holds_andThen [intro]:
  assumes "holds J P h" "\<And>x. P x \<Longrightarrow> holds J Q (k x)"
  shows "holds J Q (andThen h k)"
  unfolding holds_def kept_def andThen_def
proof (intro allI impI)
  fix s assume "J s"
  with assms(1) have h: "pred_outcome (\<lambda>(r, s). J s \<and> (\<forall>x. r = Inr x \<longrightarrow> P x)) (h s)"
    by (simp add: holds_def kept_def)
  show "pred_outcome (\<lambda>(r, s). J s \<and> (\<forall>x. r = Inr x \<longrightarrow> Q x))
      (outcome_bind (h s) (\<lambda>(r, s). case r of Inl a \<Rightarrow> Ret (Inl a, s) | Inr x \<Rightarrow> k x s))"
    by (rule pred_bind [OF h]) (use assms(2) in \<open>auto simp: holds_def kept_def split: sum.split\<close>)
qed

lemma holds_mono: "holds J P h \<Longrightarrow> (\<And>x. P x \<Longrightarrow> Q x) \<Longrightarrow> holds J Q h"
  unfolding holds_def kept_def by (fastforce elim: outcome.pred_mono_strong)

lemma holds_unless [intro]: "holds J (\<lambda>_. ok) (unless ok r)"
  by (auto simp: unless_def)

lemma holds_if [intro]: "(b \<Longrightarrow> holds J P h) \<Longrightarrow> (\<not> b \<Longrightarrow> holds J P k) \<Longrightarrow> holds J P (if b then h else k)"
  by simp

lemma holds_Hang [intro]: "holds J P (\<lambda>s. Hang)"
  by (simp add: holds_def kept_def)

lemma holds_bound [intro]: "holds J (\<lambda>x. req = Some x) (bound req)"
  by (auto simp: bound_def split: option.split)

lemma holds_CurrentUser [intro]: "holds J (\<lambda>x. user = Some x) (CurrentUser user)"
  by (auto simp: CurrentUser_def split: option.split)

lemma holds_join_path [intro]: "holds J (\<lambda>p. JoinPath u q = Inr p) (join_path u q)"
  by (auto simp: join_path_def split: sum.split)

lemma holds_act: "kept J (\<lambda>_. True) f \<Longrightarrow> holds J (\<lambda>_. True) (act f)"
  unfolding holds_def kept_def act_def by (auto intro!: pred_bind elim: outcome.pred_mono_strong)

lemma holds_fetch: "kept J P f \<Longrightarrow> holds J (\<lambda>x. P (Inr x)) (fetch f)"
  unfolding holds_def kept_def fetch_def
  by (auto intro!: pred_bind elim: outcome.pred_mono_strong split: sum.splits)

lemma holds_peek: "kept J P f \<Longrightarrow> holds J (\<lambda>_. True) (peek f)"
  unfolding holds_def kept_def peek_def by (auto intro!: pred_bind elim: outcome.pred_mono_strong)

section \<open>The contract\<close>

locale layer_contract =
  fixes L :: "'s layer" and u :: User and J :: "'s \<Rightarrow> bool"
    and ok :: "string \<Rightarrow> bool" and plain :: "string \<Rightarrow> bool" and child :: "string \<Rightarrow> bool" and at_base :: "string \<Rightarrow> bool"
  assumes put_metas: "J s \<Longrightarrow> J (L_put_metas L ms s)"
    and storage: "J s \<Longrightarrow> J (snd (L_storage L p s))"
    and get: "ok p \<Longrightarrow> kept J (\<lambda>_. True) (L_get L p d)"
    and listing: "ok p \<Longrightarrow> kept J (\<lambda>r. \<forall>fs. r = Inr fs \<longrightarrow> (\<forall>f \<in> set fs. child (GetName f))) (L_list L user meta p refresh d)"
    and makeDir: "ok p \<Longrightarrow> kept J (\<lambda>_. True) (L_makeDir L p)"
    and rename: "ok p \<Longrightarrow> ok (path_join [path_dir p, name]) \<Longrightarrow> kept J (\<lambda>_. True) (L_rename L p name)"
    and remove: "ok p \<Longrightarrow> kept J (\<lambda>_. True) (L_remove L p)"
    and transfer: "ok src \<Longrightarrow> ok dst \<Longrightarrow> kept J (\<lambda>_. True) (L_transfer L kind skipKey src dst skipHook)"
    and transferTo: "ok src \<Longrightarrow> ok dst \<Longrightarrow> kept J (\<lambda>_. True) (L_transferTo L kind src dst)"
    and put: "ok dir \<Longrightarrow> ok (path_join [dir, fname f]) \<Longrightarrow> kept J (\<lambda>_. True) (L_put L full dir f)"
    and putTask: "ok dir \<Longrightarrow> ok (path_join [dir, fname f]) \<Longrightarrow> kept J (\<lambda>_. True) (L_putTask L dir f)"
    and directUpload: "ok dir \<Longrightarrow> ok (path_join [dir, name]) \<Longrightarrow>
      kept J (\<lambda>_. True) (L_directUpload L tool dir name sz overwrite)"
    and joined: "JoinPath u q = Inr p \<Longrightarrow> ok p"
    and inner: "JoinPath u q = Inr p \<Longrightarrow> \<not> at_base p \<Longrightarrow>
      ok (path_dir p) \<and> ok (fst (path_split p)) \<and> ok (path_join [fst (path_split p), snd (path_split p)])"
    and named: "JoinPath u q = Inr dir \<Longrightarrow> plain name \<Longrightarrow>
      stays_below (with_slash dir) (path_join [with_slash dir, name]) \<Longrightarrow> ok (path_join [with_slash dir, name])"
    and relative: "checkRelativePath c = None \<Longrightarrow> child c"
    and entry: "ok dir \<Longrightarrow> child c \<Longrightarrow> ok (dir @ slash # c) \<and> ok (path_join [dir, c])"
    and renamed: "ok dir \<Longrightarrow> child c \<Longrightarrow> child c' \<Longrightarrow> ok (path_join [path_dir (dir @ slash # c), c'])"
begin

lemma guard_or_keeps: "holds J (\<lambda>_. True) (guard_or failed refused check L v p)"
  unfolding holds_def kept_def guard_or_def
  by (auto simp: unless_def answer_def give_def put_metas split: option.split prod.split sum.split)

lemma guards [intro]: "holds J (\<lambda>_. True) (guard_with check L v p)"
  unfolding guard_with_def by (rule guard_or_keeps)

lemma tree_guards [intro]:
  "holds J (\<lambda>_. True) (canReadPath L v p)" "holds J (\<lambda>_. True) (canWritePath L v p)"
  "holds J (\<lambda>_. True) (canReadTree L v p)" "holds J (\<lambda>_. True) (canWriteTree L v p)"
  unfolding canReadPath_def canWritePath_def canReadTree_def canWriteTree_def by (rule guards)+

lemma rule_or_keeps: "holds J (\<lambda>_. True) (rule_or failed L p)"
  unfolding holds_def kept_def rule_or_def by (auto simp: put_metas Let_def split: prod.split)

lemma rules [intro]: "holds J (\<lambda>_. True) (rule_at L p)"
  unfolding rule_at_def by (rule rule_or_keeps)

lemma writable_dirs [intro]: "holds J (\<lambda>(p, _). JoinPath u q = Inr p) (writable_dir L u q)"
  unfolding writable_dir_def by (rule holds_andThen holds_join_path rules holds_unless holds_give | simp)+

lemma readable_dirs [intro]: "holds J (\<lambda>(p, _). JoinPath u q = Inr p) (readable_dir L u q)"
  unfolding readable_dir_def by (rule holds_andThen holds_join_path rules holds_unless holds_give | simp)+

lemma writable_content: "holds J (\<lambda>_. True) (writable_content L v p)"
  unfolding writable_content_def by (rule holds_andThen rules holds_unless | rule holds_mono [OF holds_unless] | simp)+

end

section \<open>The handlers under the contract\<close>

text \<open>Rules for what a handler does next, one for each first step; \<open>flow\<close> collects them.\<close>

lemma holds_any: "holds J P h \<Longrightarrow> holds J (\<lambda>_. True) h"
  by (erule holds_mono) simp

lemma holds_then: "holds J (\<lambda>_. True) h \<Longrightarrow> (\<And>x. holds J Q (k x)) \<Longrightarrow> holds J Q (andThen h k)"
  by (rule holds_andThen)

lemma then_bound: "(\<And>x. req = Some x \<Longrightarrow> holds J Q (k x)) \<Longrightarrow> holds J Q (andThen (bound req) k)"
  by (rule holds_andThen [OF holds_bound])

lemma then_user: "holds J Q (k u) \<Longrightarrow> holds J Q (andThen (CurrentUser (Some u)) k)"
  by (rule holds_andThen [OF holds_CurrentUser]) simp

lemma then_join: "(\<And>p. JoinPath u q = Inr p \<Longrightarrow> holds J Q (k p)) \<Longrightarrow> holds J Q (andThen (join_path u q) k)"
  by (rule holds_andThen [OF holds_join_path])

lemma then_unless: "(b \<Longrightarrow> holds J Q (k ())) \<Longrightarrow> holds J Q (andThen (unless b r) k)"
  by (rule holds_andThen [OF holds_unless]) simp

lemma then_relative: "(checkRelativePath c = None \<Longrightarrow> holds J Q (k ())) \<Longrightarrow> holds J Q (andThen (relative_name c) k)"
  unfolding relative_name_def by (rule then_unless)

lemma then_names: "holds J Q (k ()) \<Longrightarrow> holds J Q (andThen (nonempty_names ns) k)"
  unfolding nonempty_names_def by (rule then_unless)

lemma then_give: "holds J Q (k x) \<Longrightarrow> holds J Q (andThen (give x) k)"
  by (rule holds_andThen [where P = "\<lambda>y. y = x"]) auto

lemmas flow = then_bound then_user then_join then_unless then_relative then_names then_give holds_answer holds_Hang

context layer_contract
begin

lemma gets: "ok p \<Longrightarrow> holds J (\<lambda>_. True) (peek (L_get L p d))"
  by (rule holds_peek [OF get])

lemma lists: "ok p \<Longrightarrow> holds J (\<lambda>fs. \<forall>f \<in> set fs. child (GetName f)) (fetch (L_list L user meta p refresh d))"
  by (rule holds_mono [OF holds_fetch [OF listing]]) auto

lemma transfers: "ok src \<Longrightarrow> ok dst \<Longrightarrow> holds J (\<lambda>_. True) (fetch (L_transfer L kind skipKey src dst skipHook))"
  by (rule holds_any [OF holds_fetch [OF transfer]])

lemma then_guard:
  "holds J Q (k ()) \<Longrightarrow> holds J Q (andThen (canWritePath L v p) k)"
  "holds J Q (k ()) \<Longrightarrow> holds J Q (andThen (canWriteTree L v p) k)"
  "holds J Q (k ()) \<Longrightarrow> holds J Q (andThen (canReadTree L v p) k)"
  "holds J Q (k ()) \<Longrightarrow> holds J Q (andThen (writable_content L v p) k)"
  "(\<And>m. holds J Q (k' m)) \<Longrightarrow> holds J Q (andThen (rule_at L p) k')"
  by (rule holds_then; (rule tree_guards writable_content rules | simp))+

lemma then_dir:
  "(\<And>p m. JoinPath u q = Inr p \<Longrightarrow> holds J Q (k p m)) \<Longrightarrow> holds J Q (andThen (writable_dir L u q) (\<lambda>(p, m). k p m))"
  "(\<And>p m. JoinPath u q = Inr p \<Longrightarrow> holds J Q (k p m)) \<Longrightarrow> holds J Q (andThen (readable_dir L u q) (\<lambda>(p, m). k p m))"
  by (rule holds_andThen, rule writable_dirs readable_dirs, fastforce)+

lemma then_list:
  assumes "ok p" and "\<And>fs. \<forall>f \<in> set fs. child (GetName f) \<Longrightarrow> holds J Q (k fs)"
  shows "holds J Q (andThen (fetch (L_list L user meta p refresh d)) k)"
  by (rule holds_andThen [OF lists [OF assms(1)] assms(2)])

lemma FsMkdir_keeps: "holds J (\<lambda>_. True) (FsMkdir L (Some u) req)"
  unfolding FsMkdir_def writable_parent_def by (intro flow then_guard holds_act makeDir joined)

lemma no_clash_keeps: "ok dst \<Longrightarrow> ok (path_join [dst, path_base src]) \<Longrightarrow> holds J (\<lambda>_. True) (no_clash L tolerated dst src name)"
  unfolding no_clash_def Let_def by (intro holds_if flow holds_then [OF gets] holds_any [OF holds_unless]) auto

lemma resolve_names_keep:
  assumes "JoinPath u q = Inr srcDir" "JoinPath u q' = Inr dst" "list_all plain names"
    and "\<And>p. holds J (\<lambda>_. True) (source_guard p)"
    and "\<And>p. ok p \<Longrightarrow> ok (path_join [dst, path_base p])"
  shows "holds J (list_all (\<lambda>p. p = [] \<or> ok p)) (resolve_names L source_guard v overwrite tolerated (with_slash srcDir) dst names)"
  using assms(3)
proof (induction names)
  case (Cons name names)
  have rest: "p = [] \<or> ok p \<Longrightarrow> holds J (list_all (\<lambda>p. p = [] \<or> ok p))
      (andThen (resolve_names L source_guard v overwrite tolerated (with_slash srcDir) dst names) (\<lambda>ps. give (p # ps)))" for p
    by (rule holds_andThen [OF Cons.IH]) (use Cons.prems in auto)
  let ?p = "path_join [with_slash srcDir, name]"
  have p: "stays_below (with_slash srcDir) ?p \<Longrightarrow> ok ?p" using named [OF assms(1)] Cons.prems by simp
  have clash: "ok ?p \<Longrightarrow> holds J (\<lambda>_. True) (if overwrite then give () else no_clash L tolerated dst ?p name)"
    using no_clash_keeps [OF joined [OF assms(2)] assms(5)] by auto
  show ?case
    unfolding resolve_names.simps Let_def
    by (intro holds_if holds_then [OF assms(4)] then_guard rest holds_then [OF clash]) (use p in simp_all)
qed auto

lemma start_transfers_keeps:
  "ok dst \<Longrightarrow> list_all (\<lambda>p. p = [] \<or> ok p) ps \<Longrightarrow> holds J (\<lambda>_. True) (start_transfers L kind skipKey dst ps)"
  by (induction ps) (auto intro!: holds_then transfers)

text \<open>What the last steps need of the names is gathered here: \<open>base_ok\<close> is the entry of a directory under
  the name a source ends in.\<close>

lemma FsMove_keeps:
  assumes "\<And>d p. ok d \<Longrightarrow> ok p \<Longrightarrow> ok (path_join [d, path_base p])" and "\<And>r. req = Some r \<Longrightarrow> list_all plain (Names r)"
  shows "holds J (\<lambda>_. True) (FsMove L (Some u) req)"
  unfolding FsMove_def
  by (intro flow then_dir holds_andThen [OF resolve_names_keep] start_transfers_keeps tree_guards)
    (use assms joined in auto)

lemma FsCopy_keeps:
  assumes "\<And>d p. ok d \<Longrightarrow> ok p \<Longrightarrow> ok (path_join [d, path_base p])" and "\<And>r. req = Some r \<Longrightarrow> list_all plain (Names r)"
  shows "holds J (\<lambda>_. True) (FsCopy L (Some u) req)"
  unfolding FsCopy_def
  by (intro flow then_dir holds_andThen [OF resolve_names_keep] start_transfers_keeps tree_guards)
    (use assms joined in auto)

lemma FsRename_keeps:
  assumes "\<And>r p. req = Some r \<Longrightarrow> JoinPath u (RenamePath r) = Inr p \<Longrightarrow> \<not> at_base p"
  shows "holds J (\<lambda>_. True) (FsRename L (Some u) req)"
  unfolding FsRename_def Let_def
proof (intro flow then_guard)
  fix r p :: _ and meta
  assume r: "req = Some r" and p: "JoinPath u (RenamePath r) = Inr p" and c: "checkRelativePath (RenameName r) = None"
  let ?dst = "path_join [path_dir p, RenameName r]"
  have ok: "ok p" "ok ?dst" using joined [OF p] inner [OF p assms [OF r p]] entry relative [OF c] by auto
  have "holds J (\<lambda>_. True) (if RenameOverwrite r \<or> ?dst = p then give None else peek (L_get L ?dst False))"
    using gets ok by auto
  then show "holds J (\<lambda>_. True)
     (andThen (if RenameOverwrite r \<or> ?dst = p then give None else peek (L_get L ?dst False))
       (\<lambda>res. andThen (unless (res = None) (ErrorStrResp (exists_msg (RenameName r)) 403))
         (\<lambda>_. act (L_rename L p (RenameName r)))))"
    by (rule holds_then) (intro flow holds_act rename ok)
qed

lemma resolve_removals_keep:
  assumes "JoinPath u q = Inr dir" "list_all plain names"
  shows "holds J (list_all (\<lambda>p. p = [] \<or> ok p)) (resolve_removals L v (with_slash dir) names)"
  using assms(2)
proof (induction names)
  case (Cons name names)
  have rest: "p = [] \<or> ok p \<Longrightarrow> holds J (list_all (\<lambda>p. p = [] \<or> ok p))
      (andThen (resolve_removals L v (with_slash dir) names) (\<lambda>ps. give (p # ps)))" for p
    by (rule holds_andThen [OF Cons.IH]) (use Cons.prems in auto)
  show ?case
    unfolding resolve_removals.simps Let_def
    by (intro holds_if then_guard rest) (use named [OF assms(1)] Cons.prems in simp_all)
qed auto

lemma remove_paths_keeps: "list_all (\<lambda>p. p = [] \<or> ok p) ps \<Longrightarrow> holds J (\<lambda>_. True) (remove_paths L ps)"
  by (induction ps) (auto intro!: holds_then holds_act remove)

lemma FsRemove_keeps:
  assumes "\<And>r. req = Some r \<Longrightarrow> list_all plain (RemoveNames r)"
  shows "holds J (\<lambda>_. True) (FsRemove L (Some u) req)"
  unfolding FsRemove_def
  by (intro flow then_dir holds_andThen [OF resolve_removals_keep] remove_paths_keeps) (use assms in auto)

text \<open>Every folder in the queue, and every folder above it that was in the queue, has an allowed path.\<close>

primrec visit_ok :: "visit \<Rightarrow> bool" where
  "visit_ok (Visit p parent) \<longleftrightarrow> ok p \<and> pred_option visit_ok parent"

lemma visit_ok_path: "visit_ok v \<Longrightarrow> ok (visit_path v)" "visit_ok v \<Longrightarrow> visit_parent v = Some w \<Longrightarrow> visit_ok w"
  by (cases v; simp)+

lemma subfolders_ok:
  "ok dir \<Longrightarrow> \<forall>f \<in> set fs. child (GetName f) \<Longrightarrow> pred_option visit_ok parent \<Longrightarrow> list_all visit_ok (subfolders dir parent fs)"
  by (auto simp: subfolders_def entry list_all_iff)

lemma remove_empty_keeps:
  "list_all visit_ok queue \<Longrightarrow> holds J (\<lambda>_. True) (remove_empty n L v meta removed queue)"
proof (induction n arbitrary: removed queue)
  case 0
  then show ?case by (cases queue) (auto intro: holds_give holds_Hang)
next
  case (Suc n)
  show ?case
  proof (cases queue)
    case (Cons w rest)
    then have w: "visit_ok w" "ok (visit_path w)" and q: "list_all visit_ok rest" using Suc.prems by (auto dest: visit_ok_path)
    have up: "list_all visit_ok (rest @ (case visit_parent w of None \<Rightarrow> [] | Some p \<Rightarrow> [p]))"
      using q w(1) by (auto split: option.split dest: visit_ok_path)
    have down: "list_all visit_ok (rest @ subfolders (visit_path w) (Some w) fs)" if "\<forall>f \<in> set fs. child (GetName f)" for fs
      using q w subfolders_ok [OF w(2) that, of "Some w"] by simp
    show ?thesis
      unfolding Cons remove_empty.simps
      by (intro holds_if then_list [OF w(2)] holds_then [OF holds_act [OF remove [OF w(2)]]] Suc.IH up down q)
  qed (auto intro: holds_give)
qed

lemma FsRemoveEmptyDirectory_keeps: "holds J (\<lambda>_. True) (FsRemoveEmptyDirectory n L (Some u) req)"
  unfolding FsRemoveEmptyDirectory_def
  by (intro flow then_dir then_guard then_list remove_empty_keeps subfolders_ok joined) auto

lemma collect_files_keep:
  "list_all (\<lambda>(f, dir). ok dir \<and> child (GetName f)) queue \<Longrightarrow> list_all ok found \<Longrightarrow>
     holds J (list_all ok) (collect_files n L v meta policy dstDir queue existing found)"
proof (induction n arbitrary: queue existing found)
  case 0
  then show ?case by (cases queue) (auto intro: holds_give holds_Hang)
next
  case (Suc n)
  show ?case
  proof (cases queue)
    case (Cons fd rest)
    obtain f dir where fd: "fd = (f, dir)" by fastforce
    have f: "ok (dir @ ''/'' @ GetName f)" and q: "list_all (\<lambda>(f, dir). ok dir \<and> child (GetName f)) rest"
      using Suc.prems by (auto simp: entry Cons fd)
    have subs: "list_all (\<lambda>(f, dir). ok dir \<and> child (GetName f)) (rest @ map (\<lambda>sub. (sub, dir @ ''/'' @ GetName f)) fs)"
      if "\<forall>f \<in> set fs. child (GetName f)" for fs
      using q f that by (auto simp: list_all_iff)
    show ?thesis
      unfolding Cons fd collect_files.simps Let_def
      by (intro holds_if then_list [OF f] holds_answer Suc.IH subs q) (use Suc.prems f in simp_all)
  qed (use Suc.prems in \<open>auto intro: holds_give\<close>)
qed

lemma move_found_keeps:
  "ok dst \<Longrightarrow> list_all ok fs \<Longrightarrow> holds J (\<lambda>_. True) (move_found L v dst fs)"
  by (induction fs) (auto intro!: then_guard(2) holds_then [OF transfers] holds_then [OF _ holds_give])

lemma FsRecursiveMove_keeps: "holds J (\<lambda>_. True) (FsRecursiveMove n L (Some u) req)"
  unfolding FsRecursiveMove_def
proof (intro flow then_dir then_guard then_list joined)
  fix r src m dst m' fs
  assume *: "req = Some r" "JoinPath u (RecSrcDir r) = Inr src" "JoinPath u (RecDstDir r) = Inr dst"
    and fs: "\<forall>f \<in> set fs. child (GetName f)"
  have "holds J (\<lambda>_. True) (if ConflictPolicy r = OVERWRITE then give []
      else andThen (fetch (L_list L (Some u) m dst False False)) (\<lambda>dstFiles. give (map GetName dstFiles)))"
    by (intro holds_if holds_give then_list joined [OF *(3)]) auto
  then show "holds J (\<lambda>_. True) (andThen (if ConflictPolicy r = OVERWRITE then give []
      else andThen (fetch (L_list L (Some u) m dst False False)) (\<lambda>dstFiles. give (map GetName dstFiles)))
     (\<lambda>existing. andThen (collect_files n L u m (ConflictPolicy r) dst (map (\<lambda>f. (f, src)) fs) existing [])
       (move_found L u dst)))"
    by (rule holds_then) (rule holds_andThen [OF collect_files_keep move_found_keeps],
        use fs joined [OF *(2)] joined [OF *(3)] in \<open>auto simp: list_all_iff\<close>)
qed

lemma rename_entry_keeps: "ok dir \<Longrightarrow> child src \<Longrightarrow> child new \<Longrightarrow> holds J (\<lambda>_. True) (rename_entry L v dir src new)"
  unfolding rename_entry_def by (intro then_guard holds_act rename) (use entry renamed in auto)

lemma FsBatchRename_keeps: "holds J (\<lambda>_. True) (FsBatchRename L (Some u) req)"
proof -
  have "holds J (\<lambda>_. True) (rename_all L v dir rs)" if "ok dir" for v dir rs
    using that
    by (induction rs) (auto intro!: then_relative holds_then [OF rename_entry_keeps] relative holds_give)
  then show ?thesis
    unfolding FsBatchRename_def by (intro flow holds_andThen [OF holds_bound] then_dir) (auto intro!: flow then_dir joined)
qed

lemma FsRegexRename_keeps: "holds J (\<lambda>_. True) (FsRegexRename compile L (Some u) req)"
proof -
  have m: "holds J (\<lambda>_. True) (rename_matching L v match replace dir fs)" if "ok dir" "\<forall>f \<in> set fs. child (GetName f)"
    for v match replace dir fs
    using that by (induction fs) (auto intro!: then_relative holds_then [OF rename_entry_keeps] relative holds_give)
  show ?thesis
    unfolding FsRegexRename_def
    by (auto intro!: flow then_dir then_list [OF joined] m joined split: option.split)
qed

text \<open>Uploads.\<close>

lemma FsUp_keeps: "holds J (\<lambda>_. True) (FsUp L (Some u) req)"
  unfolding FsUp_def writable_parent_def by (intro flow then_guard tree_guards)

lemma upload_path_keeps: "holds J (\<lambda>p. \<exists>q. path_unescape (FilePath req) = Some q \<and> JoinPath u q = Inr p) (upload_path L (Some u) req)"
  unfolding upload_path_def
proof (intro flow)
  fix q p assume q: "path_unescape (FilePath req) = Some q" "JoinPath u q = Inr p"
  have "holds J (\<lambda>_. True) (if OverwriteHeader req \<noteq> ''false'' then give None else peek (L_get L p False))"
    by (intro holds_if holds_give gets joined [OF q(2)]) simp
  then show "holds J (\<lambda>p. \<exists>q. path_unescape (FilePath req) = Some q \<and> JoinPath u q = Inr p)
      (andThen (if OverwriteHeader req \<noteq> ''false'' then give None else peek (L_get L p False))
        (\<lambda>res. andThen (unless (res = None) (ErrorStrResp ''file exists'' 403)) (\<lambda>_. give p)))"
    by (rule holds_then) (intro flow holds_give, use q in auto)
qed

lemma put_stream_keeps:
  "ok dir \<Longrightarrow> ok (path_join [dir, fname f]) \<Longrightarrow> holds J (\<lambda>_. True) (put_stream L req dir f)"
  unfolding put_stream_def by (rule holds_act) (simp add: put putTask)

lemma then_ignored: "holds J Q (k ()) \<Longrightarrow> holds J Q (andThen (ignored_name i name) k)"
  unfolding ignored_name_def by (rule then_unless)

lemma stream_size_keeps: "holds J (\<lambda>_. True) (stream_size req)"
  unfolding stream_size_def Let_def by (auto split: prod.split intro: holds_give)

lemma storage_at_keeps: "holds J (\<lambda>_. True) (storage_at L p)"
  by (auto simp: holds_def kept_def storage_at_def split: prod.split dest: storage [where p = p])

lemma put_split_keeps:
  assumes "path_unescape (FilePath req) = Some q" "JoinPath u q = Inr p" "\<not> at_base p"
  shows "holds J (\<lambda>_. True) (put_stream L req (fst (path_split p)) (upload_stream (snd (path_split p)) fsz req))"
  by (rule put_stream_keeps) (use inner [OF assms(2,3)] in \<open>simp_all add: upload_stream_def\<close>)

lemma Stream_keeps:
  assumes "\<And>q p. path_unescape (FilePath req) = Some q \<Longrightarrow> JoinPath u q = Inr p \<Longrightarrow> \<not> at_base p"
  shows "holds J (\<lambda>_. True) (FsStream i L (Some u) req)" and "holds J (\<lambda>_. True) (FsForm i L (Some u) req)"
proof -
  show "holds J (\<lambda>_. True) (FsStream i L (Some u) req)"
    unfolding FsStream_def split_beta Let_def
    by (rule holds_andThen [OF upload_path_keeps], elim exE conjE, intro then_ignored holds_then [OF stream_size_keeps])
      (rule put_split_keeps, use assms in auto)
  show "holds J (\<lambda>_. True) (FsForm i L (Some u) req)"
    unfolding FsForm_def split_beta Let_def
    by (rule holds_andThen [OF upload_path_keeps], elim exE conjE, rule holds_then [OF storage_at_keeps])
      (auto split: sum.split option.split intro!: then_unless then_ignored put_split_keeps dest: assms)
qed

lemma DirectUpload_keeps: "holds J (\<lambda>_. True) (FsGetDirectUploadInfo L (Some u) req)"
  unfolding FsGetDirectUploadInfo_def Let_def
proof (intro flow then_guard)
  fix r q p assume p: "JoinPath u q = Inr p" and c: "checkRelativePath (DirectName r) = None"
  let ?dst = "path_join [p, DirectName r]"
  have ok: "ok p" "ok ?dst" using joined [OF p] entry relative [OF c] by auto
  have new: "holds J (\<lambda>_. True) (must_be_new L ?dst)"
    using get [OF ok(2), of False] unfolding holds_def kept_def must_be_new_def
    by (auto intro!: pred_bind elim: outcome.pred_mono_strong)
  show "holds J (\<lambda>_. True) (andThen (if DirectOverwrite r \<noteq> ''false'' then give () else must_be_new L ?dst)
     (\<lambda>_ s. outcome_bind (L_directUpload L (DirectTool r) p (DirectName r) (DirectSize r) (DirectOverwrite r \<noteq> ''false'') s)
       (\<lambda>(ra, s). Ret (case ra of
           Inl e \<Rightarrow> Inl (if \<not> DirectOverwrite r \<noteq> ''false'' \<and> e = ObjectAlreadyExists
             then ErrorStrResp ''file exists'' 403 else ErrorResp 500)
         | Inr info \<Rightarrow> Inr info, s))))"
  proof (rule holds_then)
    show "holds J (\<lambda>_. True) (if DirectOverwrite r \<noteq> ''false'' then give () else must_be_new L ?dst)"
      using new by (auto intro: holds_give)
  qed (use directUpload [OF ok] in \<open>auto simp: holds_def kept_def intro!: pred_bind elim!: outcome.pred_mono_strong\<close>)
qed

end

end
