(* ===== verification/TransferProps.thy ===== *)
theory TransferProps
  imports Transfers
begin

text \<open>
  What transfers between two storages do, tried on two small storages: one at \<open>/m\<close> with a folder \<open>d\<close>
  that holds a file \<open>a\<close> and with a file \<open>f\<close>, and one at \<open>/n\<close> with a folder \<open>d\<close> that holds an
  older file \<open>a\<close>.
\<close>

section \<open>Two storages\<close>

definition sized :: "string \<Rightarrow> int \<Rightarrow> Obj" where
  "sized name n =
     Object \<lparr>ID = [], Path = [], Name = name, Size = n, Modified = 0, Ctime = 0, IsFolder = False, HashInfo = [], Mask = 0\<rparr>"

definition src_backend :: "demo_log backend" where
  "src_backend = demo_backend\<lparr>lister := \<lambda>_ d w. (Inr (if GetName d = RootName then [demo_obj ''d'' True 0, sized ''f'' 1]
     else [sized ''a'' 1]), w)\<rparr>"

text \<open>What was written appears in the root; a write into the folder \<open>d\<close> fails.\<close>

definition dst_backend :: "demo_log backend" where
  "dst_backend = demo_backend\<lparr>lister := \<lambda>_ d w. (Inr (if GetName d = RootName
       then demo_obj ''d'' True 0 # map fst (filter (\<lambda>e. snd e = NoWrite) w) else [sized ''a'' 7]), w),
     putter := Some (\<lambda>d s w. if GetName d = ''d'' then ((None, Some (DriverError ''disk full'')), w)
       else ((None, None), w @ [(sized (fname s) (fsize s), NoWrite)]))\<rparr>"

definition other_driver :: Driver where
  "other_driver = demo_driver\<lparr>storage := demo_storage\<lparr>sid := 2, MountPath := ''/n''\<rparr>\<rparr>"

definition demo_cfg :: "demo_log cfg" where
  "demo_cfg = \<lparr>fenv = demo_env, driver_of = (\<lambda>d. if MountPath (storage d) = ''/m'' then src_backend else dst_backend),
     sort_drivers = \<lambda>_ xs. xs, details = \<lambda>_. None, schedule = [], regex = \<lambda>_ _. Some False\<rparr>"

definition demo_xfer :: "demo_log xfer" where
  "demo_xfer = \<lparr>app = \<lparr>reg = \<lparr>srows = [], sdown = False, storagesMap = [(''/m'', demo_driver), (''/n'', other_driver)],
       balanceMap = \<lambda>_. None, listings = caches (demo_fsys ([] :: demo_log)), hooked = []\<rparr>, disk = [], given = [], started = [], shut = [],
       metas = \<lparr>rows = [], down = False, cache = \<lambda>_. None\<rparr>\<rparr>,
     coordinator = NewTaskGroupCoordinator, queued = [], uploads = []\<rparr>"

text \<open>The changes the two drivers were asked for: the name and the kind of each.\<close>

definition changes :: "'a outcome \<Rightarrow> ('a \<Rightarrow> demo_log xfer) \<Rightarrow> (string \<times> mask) list option" where
  "changes r f = (case r of Ret a \<Rightarrow> Some (map (\<lambda>(obj, m). (GetName obj, m)) (disk (app (f a)))) | _ \<Rightarrow> None)"

text \<open>The clean-up of a move removes a file from its source when a file of that name stands at the
  destination, even one of another size, so a file whose upload failed is lost when an older file
  of that name was there.\<close>
theorem stale_counterpart_removes:
  "changes (verifyAndRemove 3 demo_cfg demo_driver other_driver ''/d/a'' ''/d'' demo_xfer) snd = Some [(''a'', NoRemove)]"
  by code_simp

definition end_of_move :: "string \<Rightarrow> (string \<times> mask) list option" where
  "end_of_move dstName = changes
     (HookAndRemove 3 demo_cfg (groupID (new_task MoveTask False demo_driver other_driver ''/f'' ''/'' dstName))
       [SrcPathToRemove ''/m/f''] (demo_xfer\<lparr>app := (app demo_xfer)\<lparr>disk := [(sized ''f'' 1, NoWrite)]\<rparr>\<rparr>)) (\<lambda>x. x)"

text \<open>A move that names its target never removes the source, even when the file has arrived under that
  name: the group is named after the target, and the clean-up looks for the file below it.  A move
  into a folder does remove it.\<close>
theorem named_move_keeps_source:
  "end_of_move ''f'' = Some [(''f'', NoWrite)] \<and> end_of_move [] = Some [(''f'', NoWrite), (''f'', NoRemove)]"
  by code_simp

end
