(* ===== verification/FsSafety.thy ===== *)
theory FsSafety
  imports FsWrite
begin

text \<open>
  Safety of the operations that change a storage: the masks of objects are enforced whatever the
  driver does, and creating a directory returns whenever the driver finds its own root.
\<close>

section \<open>Reading keeps what the driver keeps\<close>

text \<open>A property of the world that reading a storage does not change.\<close>

definition read_stable :: "'w backend \<Rightarrow> ('w \<Rightarrow> bool) \<Rightarrow> bool" where
  "read_stable b Inv \<longleftrightarrow>
     (\<forall>f w. root b = GetRooter f \<longrightarrow> Inv w \<longrightarrow> Inv (snd (f w))) \<and>
     (\<forall>g path w. getter b = Some g \<longrightarrow> Inv w \<longrightarrow> Inv (snd (g path w))) \<and>
     (\<forall>refresh d w. Inv w \<longrightarrow> Inv (snd (lister b refresh d w)))"

lemma world_cached_list [simp]: "world (snd (cached_list env b key st)) = world st"
  by (simp add: cached_list_def split_beta split: option.splits)

lemma read_stable_rules:
  assumes "read_stable b Inv" "Inv w"
  shows "root b = GetRooter f \<Longrightarrow> f w = (r, w') \<Longrightarrow> Inv w'"
    and "getter b = Some g \<Longrightarrow> g path w = (r, w') \<Longrightarrow> Inv w'"
    and "lister b refresh d w = (rl, w') \<Longrightarrow> Inv w'"
  using assms unfolding read_stable_def by (metis snd_conv)+

lemma get_root_keeps:
  assumes "read_stable b Inv" "Inv (world st)"
  shows "Inv (world (snd (get_root b st)))"
proof (cases "root b")
  case (GetRooter f)
  then show ?thesis using read_stable_rules(1) [OF assms GetRooter prod.collapse [symmetric]]
    by (simp add: get_root_def split_beta)
qed (use assms in \<open>simp_all add: get_root_def\<close>)

lemma fetch_list_keeps:
  assumes "read_stable b Inv" "Inv (world (snd (get_dir st)))"
  shows "Inv (world (snd (fetch_list env b path refresh skipHook get_dir st)))"
proof -
  have "Inv (snd (lister b refresh d (world (snd (get_dir st)))))" for d
    using read_stable_rules(3) [OF assms prod.collapse [symmetric]] .
  with assms(2) show ?thesis by (simp add: fetch_list_def split_beta Let_def split: sum.splits)
qed

lemma list_with_keeps:
  assumes "read_stable b Inv" "Inv (world st)" "\<And>st. Inv (world st) \<Longrightarrow> Inv (world (snd (get_dir st)))"
  shows "Inv (world (snd (list_with env b path refresh skipHook v get_dir st)))"
proof -
  let ?c = "if refresh then (None, st) else cached_list env b (Key (dmeta b) (FixAndCleanPath path)) st"
  have c: "Inv (world (snd ?c))" using assms(2) by simp
  note f = fetch_list_keeps [of b Inv get_dir "snd ?c" env "FixAndCleanPath path" refresh skipHook, OF assms(1) assms(3) [OF c]]
  obtain hit st1 where h: "?c = (hit, st1)" by fastforce
  obtain r st2 where g: "fetch_list env b (FixAndCleanPath path) refresh skipHook get_dir st1 = (r, st2)" by fastforce
  from c f assms(2) show ?thesis unfolding list_with_def Let_def h snd_conv
    by (simp add: g split: option.split sum.split)
qed

lemma get_direct_keeps:
  assumes "read_stable b Inv" "Inv (world st)" "get_direct env b path excl st = (r, refresh, st')"
  shows "Inv (world st')"
proof -
  let ?c = "cached_list env b (Key (dmeta b) (fst (path_split path))) st"
  have c: "Inv (world (snd ?c))" using assms(2) by simp
  have g: "getter b = Some g \<Longrightarrow> Inv (snd (g path (world (snd ?c))))" for g
    using read_stable_rules(2) [OF assms(1) c _ prod.collapse [symmetric]] .
  show ?thesis
  proof (cases "getter b")
    case None
    with assms(3) c show ?thesis by (auto simp: get_direct_def split_beta Let_def split: if_splits)
  next
    case (Some g)
    with assms(3) c g [OF Some] show ?thesis
      by (auto simp: get_direct_def split_beta Let_def split: if_splits option.splits sum.splits)
  qed
qed

lemma op_Get_keeps:
  assumes "read_stable b Inv"
  shows "Inv (world st) \<Longrightarrow> Inv (world (snd (op_Get env b path excl st)))"
proof (induction "length (norm path)" arbitrary: path excl st rule: less_induct)
  case less
  let ?p = "FixAndCleanPath path" and ?get = "\<lambda>st. unwrap_result (op_Get env b (fst (path_split (FixAndCleanPath path))) True st)"
  show ?case
  proof (cases "not_ready (dmeta b) \<or> ?p = ''/''")
    case True
    with get_root_keeps [OF assms less.prems] less.prems show ?thesis by (auto simp: op_Get.simps)
  next
    case False
    obtain r refresh st1 where d: "get_direct env b ?p excl st = (r, refresh, st1)" by (cases "get_direct env b ?p excl st") auto
    have st1: "Inv (world st1)" by (rule get_direct_keeps [OF assms less.prems d])
    have "Inv (world (snd (?get s)))" if "Inv (world s)" for s
      using less.hyps [OF split_shorter that] False by (simp add: unwrap_result_def)
    note l = list_with_keeps [of b Inv st1 ?get env _ _ _ _, OF assms st1 this]
    show ?thesis using False st1 l
      by (subst op_Get.simps) (simp add: d split_beta Let_def split: option.split)
  qed
qed

lemma Get_keeps:
  assumes "read_stable b Inv" "Inv (world st)"
  shows "op_Get env b path excl st = (r, st') \<Longrightarrow> Inv (world st')"
    and "GetUnwrap env b path st = (r, st') \<Longrightarrow> Inv (world st')"
  using op_Get_keeps [OF assms] by (metis snd_conv, metis GetUnwrap_def unwrap_result_def snd_conv)

section \<open>Creating a directory returns\<close>

text \<open>A storage finds its own root, or says that it is missing by another error.\<close>

definition root_found :: "'w backend \<Rightarrow> bool" where
  "root_found b \<longleftrightarrow> (\<forall>f w. root b = GetRooter f \<longrightarrow> fst (f w) \<noteq> Inl ObjectNotFound)"

lemma get_root_found: "root_found b \<Longrightarrow> fst (get_root b st) \<noteq> Inl ObjectNotFound"
  by (cases "root b") (simp_all add: get_root_def split_beta root_found_def)

lemma MakeDir_some: "root_found b \<Longrightarrow> MakeDir env b path st \<noteq> None"
proof (induction "length (norm path)" arbitrary: path st rule: less_induct)
  case less
  let ?p = "FixAndCleanPath path"
  obtain r st1 where g: "op_Get env b ?p False st = (r, st1)" by fastforce
  show ?case
  proof (cases "\<not> not_ready (dmeta b) \<and> r = Inl ObjectNotFound")
    case True
    have nr: "?p \<noteq> ''/''"
    proof
      assume p: "?p = ''/''"
      then have "op_Get env b ?p False st = get_root b st" using True by (subst op_Get.simps) (simp add: FixAndCleanPath_norm)
      with g True get_root_found [OF less.prems] show False by (metis fst_conv)
    qed
    have "MakeDir env b (fst (path_split ?p)) st1 \<noteq> None" by (rule less.hyps [OF split_shorter [OF nr] less.prems])
    then show ?thesis using True nr g by (subst MakeDir.simps) (auto simp: split_beta split: option.splits prod.splits)
  next
    case False
    then show ?thesis using g by (subst MakeDir.simps) (auto split: sum.splits)
  qed
qed

text \<open>C26: Creating a directory returns for every path and state exactly when the storage is not ready or its
  driver finds its own root; a driver that reports its root as not found makes the call for the
  root wait for itself.\<close>
theorem MakeDir_returns: "(\<forall>path st. MakeDir env b path st \<noteq> None) \<longleftrightarrow> not_ready (dmeta b) \<or> root_found b"
proof
  assume all: "\<forall>path st. MakeDir env b path st \<noteq> None"
  show "not_ready (dmeta b) \<or> root_found b"
  proof (rule ccontr)
    assume "\<not> (not_ready (dmeta b) \<or> root_found b)"
    then obtain f w where f: "\<not> not_ready (dmeta b)" "root b = GetRooter f" "fst (f w) = Inl ObjectNotFound"
      by (auto simp: root_found_def)
    let ?st = "\<lparr>world = w, caches = \<lparr>dirCache = \<lambda>_. None, linkCache = \<lambda>_. None, detailCache = \<lambda>_. None\<rparr>,
      published = [], spawned = [], released = []\<rparr>"
    have root: "FixAndCleanPath ''/'' = ''/''" by code_simp
    then have "op_Get env b (FixAndCleanPath ''/'') False ?st = (Inl ObjectNotFound, ?st\<lparr>world := snd (f w)\<rparr>)"
      using f by (subst op_Get.simps) (simp add: get_root_def split_beta)
    then have "MakeDir env b ''/'' ?st = None" using f root by (subst MakeDir.simps) simp
    with all show False by blast
  qed
next
  assume "not_ready (dmeta b) \<or> root_found b"
  then show "\<forall>path st. MakeDir env b path st \<noteq> None"
  proof
    assume "not_ready (dmeta b)"
    then show ?thesis by (simp add: MakeDir.simps)
  qed (use MakeDir_some in blast)
qed

section \<open>Masks are enforced\<close>

text \<open>A property of the world that the driver keeps unless it is asked to change a protected object:
  to rename one that must not be renamed, to write into a directory that must not be written, and so on.\<close>

definition change_stable :: "'w backend \<Rightarrow> ('w \<Rightarrow> bool) \<Rightarrow> bool" where
  "change_stable b Inv \<longleftrightarrow>
     (\<forall>f obj n w. renamer b = Some f \<longrightarrow> \<not> ObjHasMask obj NoRename \<longrightarrow> Inv w \<longrightarrow> Inv (snd (f obj n w))) \<and>
     (\<forall>f obj w. remover b = Some f \<longrightarrow> \<not> ObjHasMask obj NoRemove \<longrightarrow> Inv w \<longrightarrow> Inv (snd (f obj w))) \<and>
     (\<forall>f obj d w. mover b = Some f \<longrightarrow> \<not> ObjHasMask obj NoMove \<longrightarrow> \<not> ObjHasMask d NoWrite \<longrightarrow> Inv w \<longrightarrow> Inv (snd (f obj d w))) \<and>
     (\<forall>f obj d n w. move_to b = Some f \<longrightarrow> \<not> ObjHasMask obj NoMove \<longrightarrow> \<not> ObjHasMask d NoWrite \<longrightarrow> Inv w \<longrightarrow> Inv (snd (f obj d n w))) \<and>
     (\<forall>f obj d w. copier b = Some f \<longrightarrow> \<not> ObjHasMask d NoWrite \<longrightarrow> Inv w \<longrightarrow> Inv (snd (f obj d w))) \<and>
     (\<forall>f obj d n w. copy_to b = Some f \<longrightarrow> \<not> ObjHasMask d NoWrite \<longrightarrow> Inv w \<longrightarrow> Inv (snd (f obj d n w))) \<and>
     (\<forall>f d n w. mkdir b = Some f \<longrightarrow> \<not> ObjHasMask d NoWrite \<longrightarrow> Inv w \<longrightarrow> Inv (snd (f d n w))) \<and>
     (\<forall>f d s w. putter b = Some f \<longrightarrow> \<not> ObjHasMask d NoWrite \<longrightarrow> Inv w \<longrightarrow> Inv (snd (f d s w)))"

lemma ObjHasMask_Unwrap [simp]: "ObjHasMask (UnwrapObjName obj) m = ObjHasMask obj m"
  by (cases obj) (simp_all add: ObjHasMask_def)

lemma world_on_listing [simp]: "world (on_listing env key before f st) = world st"
  by (simp add: on_listing_def split: option.splits prod.splits)

lemma world_drop_file_link [simp]: "world (drop_file_link key st) = world st"
  by (simp add: drop_file_link_def)

lemma world_spawn_hook [simp]: "world (spawn_hook env obj p q st) = world st"
  by (simp add: spawn_hook_def)

lemma world_listings [simp]:
  "world (move_listings env b sk dk obj n new st) = world st" "world (copy_listing env b dk obj n new st) = world st"
  "world (put_listing env b d file new st) = world st" "world (close_stream file st) = world st"
  by (simp_all add: move_listings_def copy_listing_def put_listing_def close_stream_def Let_def)

lemma apply_change_world: "apply_change res st = (newObj, err, st') \<Longrightarrow> world st' = snd res"
  by (auto simp: apply_change_def)

text \<open>A storage of the first kind whose changes are of the second kind.\<close>

definition guarded :: "'w backend \<Rightarrow> ('w \<Rightarrow> bool) \<Rightarrow> bool" where
  "guarded b Inv \<longleftrightarrow> read_stable b Inv \<and> change_stable b Inv"

lemma gets_keep:
  assumes "guarded b Inv" "Inv (world st)"
  shows "op_Get env b path excl st = (r, st') \<Longrightarrow> Inv (world st')"
    and "GetUnwrap env b path st = (r, st') \<Longrightarrow> Inv (world st')"
  using Get_keeps [of b Inv st] assms unfolding guarded_def by blast+

lemma guarded_steps:
  assumes "guarded b Inv" "Inv w"
  shows "renamer b = Some rn \<Longrightarrow> \<not> ObjHasMask obj NoRename \<Longrightarrow> Inv (snd (rn obj n w))"
    and "remover b = Some rm \<Longrightarrow> \<not> ObjHasMask obj NoRemove \<Longrightarrow> Inv (snd (rm obj w))"
    and "mover b = Some mv \<Longrightarrow> \<not> ObjHasMask obj NoMove \<Longrightarrow> \<not> ObjHasMask d NoWrite \<Longrightarrow> Inv (snd (mv obj d w))"
    and "move_to b = Some mt \<Longrightarrow> \<not> ObjHasMask obj NoMove \<Longrightarrow> \<not> ObjHasMask d NoWrite \<Longrightarrow> Inv (snd (mt obj d n w))"
    and "copier b = Some mv \<Longrightarrow> \<not> ObjHasMask d NoWrite \<Longrightarrow> Inv (snd (mv obj d w))"
    and "copy_to b = Some mt \<Longrightarrow> \<not> ObjHasMask d NoWrite \<Longrightarrow> Inv (snd (mt obj d n w))"
    and "mkdir b = Some mk \<Longrightarrow> \<not> ObjHasMask d NoWrite \<Longrightarrow> Inv (snd (mk d n w))"
    and "putter b = Some pt \<Longrightarrow> \<not> ObjHasMask d NoWrite \<Longrightarrow> Inv (snd (pt d s w))"
  using assms by (simp_all add: guarded_def change_stable_def)

lemma Rename_keeps:
  assumes "guarded b Inv" "Inv (world st)"
  shows "Inv (world (snd (op_Rename env b path n st)))"
proof -
  obtain r st1 where g: "op_Get env b (FixAndCleanPath path) True st = (r, st1)" by fastforce
  note st1 = gets_keep(1) [OF assms g]
  show ?thesis
  proof (cases r)
    case (Inl e)
    with g assms(2) st1 show ?thesis by (simp add: op_Rename_def Let_def)
  next
    case (Inr obj)
    have "Inv (snd (f (UnwrapObjName obj) n (world st1)))" if "\<not> ObjHasMask obj NoRename" "renamer b = Some f" for f
      using guarded_steps(1) [OF assms(1) st1 that(2)] that(1) by simp
    with g assms(2) st1 Inr show ?thesis
      by (auto simp: op_Rename_def Let_def apply_change_def split: option.splits)
  qed
qed

lemma Remove_keeps:
  assumes "guarded b Inv" "Inv (world st)"
  shows "Inv (world (snd (op_Remove env b path st)))"
proof -
  obtain r st1 where g: "op_Get env b (FixAndCleanPath path) True st = (r, st1)" by fastforce
  note st1 = gets_keep(1) [OF assms g]
  have "Inv (snd (f (UnwrapObjName obj) (world st1)))" if "\<not> ObjHasMask obj NoRemove" "remover b = Some f" for f obj
    using guarded_steps(2) [OF assms(1) st1 that(2)] that(1) by simp
  with g assms(2) st1 show ?thesis
    by (cases r) (auto simp: op_Remove_def removal_target_def remove_by_def apply_change_def split: option.splits)
qed

lemma change_to_keeps:
  assumes "Inv (world st)" "\<And>f. plain = Some f \<Longrightarrow> Inv (snd (f obj d (world st)))"
    and "\<And>f. named_as = Some f \<Longrightarrow> Inv (snd (f obj d n (world st)))"
    and "change_to plain named_as obj d n st = (newObj, err, st')"
  shows "Inv (world st')"
  using assms by (auto simp: change_to_def apply_change_def split: if_splits option.splits)

lemma Move_keeps:
  assumes "guarded b Inv" "Inv (world st)"
  shows "Inv (world (snd (op_Move env b path dst names st)))"
proof -
  obtain r st1 where g: "op_Get env b (FixAndCleanPath path) True st = (r, st1)" by fastforce
  note st1 = gets_keep(1) [OF assms g]
  obtain rd st2 where d: "GetUnwrap env b (FixAndCleanPath dst) st1 = (rd, st2)" by fastforce
  note st2 = gets_keep(2) [OF assms(1) st1 d]
  have step: "Inv (world st3)"
    if "change_to (mover b) (move_to b) (UnwrapObjName obj) dir n st2 = (new, err, st3)"
      "\<not> ObjHasMask obj NoMove" "\<not> ObjHasMask dir NoWrite" for obj dir n new err st3
    by (rule change_to_keeps [where Inv = Inv, OF st2 _ _ that(1)])
      (use guarded_steps(3,4) [OF assms(1) st2] that(2,3) in simp_all)
  show ?thesis
  proof (cases r)
    case (Inl e)
    with g assms(2) st1 show ?thesis by (simp add: op_Move_def Let_def)
  next
    case (Inr obj)
    show ?thesis
    proof (cases rd)
      case (Inl e)
      with g d assms(2) st1 st2 Inr show ?thesis by (simp add: op_Move_def Let_def)
    next
      case (Inr dir)
      obtain new err st3 where c: "change_to (mover b) (move_to b) (UnwrapObjName obj) dir
        (target_name names (UnwrapObjName obj)) st2 = (new, err, st3)"
        by (metis prod_cases3)
      with step [OF c] g d assms(2) st1 st2 Inr \<open>r = Inr obj\<close> show ?thesis
        by (cases err) (simp_all add: op_Move_def Let_def)
    qed
  qed
qed

lemma Copy_keeps:
  assumes "guarded b Inv" "Inv (world st)"
  shows "Inv (world (snd (op_Copy env b path dst names st)))"
proof -
  obtain r st1 where g: "op_Get env b (FixAndCleanPath path) True st = (r, st1)" by fastforce
  note st1 = gets_keep(1) [OF assms g]
  obtain rd st2 where d: "GetUnwrap env b (FixAndCleanPath dst) st1 = (rd, st2)" by fastforce
  note st2 = gets_keep(2) [OF assms(1) st1 d]
  have step: "Inv (world st3)"
    if "change_to (copier b) (copy_to b) (UnwrapObjName obj) dir n st2 = (new, err, st3)" "\<not> ObjHasMask dir NoWrite"
    for obj dir n new err st3
    by (rule change_to_keeps [where Inv = Inv, OF st2 _ _ that(1)])
      (use guarded_steps(5,6) [OF assms(1) st2] that(2) in simp_all)
  show ?thesis
  proof (cases r)
    case (Inl e)
    with g assms(2) st1 show ?thesis by (simp add: op_Copy_def Let_def)
  next
    case (Inr obj)
    show ?thesis
    proof (cases rd)
      case (Inl e)
      with g d assms(2) st1 st2 Inr show ?thesis by (simp add: op_Copy_def Let_def)
    next
      case (Inr dir)
      obtain new err st3 where c: "change_to (copier b) (copy_to b) (UnwrapObjName obj) dir
        (target_name names (UnwrapObjName obj)) st2 = (new, err, st3)"
        by (metis prod_cases3)
      with step [OF c] g d assms(2) st1 st2 Inr \<open>r = Inr obj\<close> show ?thesis
        by (cases err) (simp_all add: op_Copy_def Let_def)
    qed
  qed
qed

lemma make_in_keeps:
  assumes "guarded b Inv" "Inv (world st)"
  shows "Inv (world (snd (make_in env b parent name st)))"
proof -
  obtain r st1 where g: "GetUnwrap env b parent st = (r, st1)" by fastforce
  note st1 = gets_keep(2) [OF assms g]
  have "Inv (snd (f dir name (world st1)))" if "\<not> ObjHasMask dir NoWrite" "mkdir b = Some f" for f dir
    by (rule guarded_steps(7) [OF assms(1) st1 that(2,1)])
  with g st1 show ?thesis
    by (cases r) (auto simp: make_in_def apply_change_def Let_def split: option.splits)
qed

lemma MakeDir_keeps:
  assumes "guarded b Inv"
  shows "Inv (world st) \<Longrightarrow> MakeDir env b path st = Some (r, st') \<Longrightarrow> Inv (world st')"
proof (induction "length (norm path)" arbitrary: path st r st' rule: less_induct)
  case less
  let ?p = "FixAndCleanPath path"
  obtain r1 st1 where g: "op_Get env b ?p False st = (r1, st1)" by fastforce
  note st1 = gets_keep(1) [OF assms less.prems(1) g]
  show ?case
  proof (cases "\<not> not_ready (dmeta b) \<and> r1 = Inl ObjectNotFound \<and> ?p \<noteq> ''/''")
    case True
    then obtain e st2 where m: "MakeDir env b (fst (path_split ?p)) st1 = Some (e, st2)"
      using less.prems(2) g by (subst (asm) MakeDir.simps) (auto split: option.splits)
    have nr: "?p \<noteq> ''/''" using True by simp
    note st2 = less.hyps [OF split_shorter [OF nr] st1 m]
    have "Inv (world s)" if "make_in env b (fst (path_split ?p)) (snd (path_split ?p)) st2 = (r, s)" for s
      using make_in_keeps [OF assms st2, of env "fst (path_split ?p)" "snd (path_split ?p)"] unfolding that by simp
    then show ?thesis using True m less.prems(2) g st2
      by (subst (asm) MakeDir.simps) (auto simp: split_beta split: option.splits)
  next
    case False
    then show ?thesis using g less.prems st1 by (subst (asm) MakeDir.simps) (auto split: sum.splits if_splits)
  qed
qed

lemma make_room_keeps:
  assumes "guarded b Inv" "Inv (world st)"
  shows "Inv (world (snd (make_room env b p tmp fi file st)))"
  using Remove_keeps [OF assms, of env p] Rename_keeps [OF assms, of env p tmp] assms(2)
  by (auto simp: make_room_def split: prod.splits option.splits)

lemma settle_old_keeps:
  assumes "guarded b Inv" "Inv (world st)"
  shows "Inv (world (snd (settle_old env b p name fi err st)))"
  using Remove_keeps [OF assms, of env p] Rename_keeps [OF assms, of env p name] assms(2)
  by (auto simp: settle_old_def split: option.splits)

lemma put_into_keeps:
  assumes "guarded b Inv" "Inv (world st)"
  shows "Inv (world (snd (put_into env b full dir file fi st)))"
proof -
  obtain r st1 where g: "GetUnwrap env b dir st = (r, st1)" by fastforce
  note st1 = gets_keep(2) [OF assms g]
  show ?thesis
  proof (cases r)
    case (Inl e)
    with g st1 show ?thesis by (simp add: put_into_def)
  next
    case (Inr d)
    let ?file = "if fsize file < 0 then file\<lparr>fsize := full\<rparr> else file"
    show ?thesis
    proof (cases "ObjHasMask d NoWrite \<or> putter b = None")
      case True
      with g st1 Inr show ?thesis by (auto simp: put_into_def Let_def)
    next
      case False
      then obtain f where f: "putter b = Some f" "\<not> ObjHasMask d NoWrite" by auto
      obtain new err st2 where c: "apply_change (f d ?file (world st1)) st1 = (new, err, st2)" by (metis prod_cases3)
      have "Inv (world st2)" using guarded_steps(8) [OF assms(1) st1 f] apply_change_world [OF c] by simp
      then have "Inv (world (if err = None then put_listing env b dir ?file new st2 else st2))" by simp
      note settle_old_keeps [OF assms(1) this]
      with g Inr f c show ?thesis by (simp add: put_into_def Let_def)
    qed
  qed
qed

lemma put_file_keeps:
  assumes "guarded b Inv" "Inv (world st)" "put_file env b full dir file st = Some (r, st')"
  shows "Inv (world st')"
proof -
  let ?dir = "FixAndCleanPath dir" and ?tmp = "fname file @ ''.openlist_to_delete''"
  let ?p = "path_join [?dir, fname file]"
  obtain g st1 where g: "GetUnwrap env b ?p st = (g, st1)" by fastforce
  note st1 = gets_keep(2) [OF assms(1,2) g]
  let ?fi = "case g of Inl _ \<Rightarrow> None | Inr obj \<Rightarrow> Some obj"
  obtain room st2 where room: "(case ?fi of None \<Rightarrow> (Inr file, st1) | Some old \<Rightarrow> make_room env b ?p ?tmp old file st1) = (room, st2)"
    by fastforce
  have st2: "Inv (world st2)"
  proof (cases g)
    case (Inl e)
    with room st1 show ?thesis by simp
  next
    case (Inr old)
    with room have "make_room env b ?p ?tmp old file st1 = (room, st2)" by simp
    with make_room_keeps [OF assms(1) st1] show ?thesis by (metis snd_conv)
  qed
  show ?thesis
  proof (cases room)
    case (Inl e)
    with assms(3) g room st2 show ?thesis by (simp add: put_file_def Let_def)
  next
    case (Inr file')
    then obtain err st3 where m: "MakeDir env b ?dir st2 = Some (err, st3)"
      using assms(3) g room by (auto simp: put_file_def Let_def split: option.splits)
    note st3 = MakeDir_keeps [OF assms(1) st2 m]
    note put_into_keeps [OF assms(1) st3]
    then have into: "Inv (world s)" if "put_into env b full ?dir file' ?fi st3 = (r, s)" for s using that by (metis snd_conv)
    with assms(3) g room m Inr st3 show ?thesis by (auto simp: put_file_def Let_def split: if_splits)
  qed
qed

lemma Put_keeps:
  assumes "guarded b Inv" "Inv (world st)"
  shows "case op_Put env b full dst stream st of None \<Rightarrow> True | Some (_, st') \<Rightarrow> Inv (world st')"
  using assms(2) put_file_keeps [OF assms]
  by (auto simp: op_Put_def map_option_case split: option.splits prod.splits go.splits)

text \<open>C19: Protected objects are safe: whatever is true of a storage and stays true while it is read and
  while unprotected objects are changed stays true under removing, renaming, moving, copying,
  creating directories and uploading, whatever the caches hold; the driver is never asked to change
  an object whose mask forbids it.  Purging is the one operation that ignores the mask.\<close>
theorem masks_enforced:
  fixes st :: "'w fsys"
  assumes "guarded b Inv" and "Inv (world st)"
  shows "Inv (world (snd (op_Remove env b path st))) \<and> Inv (world (snd (op_Rename env b path name st))) \<and>
    Inv (world (snd (op_Move env b path dst names st))) \<and> Inv (world (snd (op_Copy env b path dst names st))) \<and>
    (case MakeDir env b path st of None \<Rightarrow> True | Some (_, st') \<Rightarrow> Inv (world st')) \<and>
    (case op_Put env b full dst file st of None \<Rightarrow> True | Some (_, st') \<Rightarrow> Inv (world st'))"
proof -
  show ?thesis using Put_keeps [OF assms] Remove_keeps [OF assms] Rename_keeps [OF assms] Move_keeps [OF assms] Copy_keeps [OF assms]
      MakeDir_keeps [OF assms] by (auto split: option.splits)
qed

lemma masks_enforced_witness:
  "unlocked (world (snd (op_Remove demo_env demo_backend ''/a'' (demo_fsys [])))) \<and>
   unlocked (world (snd (op_Rename demo_env demo_backend ''/a'' ''c'' (demo_fsys [])))) \<and>
   unlocked (world (snd (op_Move demo_env demo_backend ''/a'' ''/'' None (demo_fsys [])))) \<and>
   unlocked (world (snd (op_Copy demo_env demo_backend ''/a'' ''/'' None (demo_fsys [])))) \<and>
   (case MakeDir demo_env demo_backend ''/a'' (demo_fsys []) of None \<Rightarrow> True | Some (_, st') \<Rightarrow> unlocked (world st')) \<and>
   (case op_Put demo_env demo_backend 0 ''/'' demo_stream (demo_fsys []) of None \<Rightarrow> True | Some (_, st') \<Rightarrow> unlocked (world st'))"
  using masks_enforced [of demo_backend unlocked "demo_fsys []" demo_env "''/a''" "''c''" "''/''" None 0 demo_stream]
  by (simp add: guarded_def read_stable_def change_stable_def demo_backend_def demo_change_def demo_fsys_def unlocked_def)

section \<open>What the caches and the order of the checks get wrong\<close>

text \<open>A driver that looks an object up by its path, and no longer finds the folder once it is removed.\<close>

definition demo_getter :: "demo_log backend" where
  "demo_getter = demo_backend\<lparr>getter := Some (\<lambda>path w.
     (if path = ''/ro'' \<and> w = [] then Inr (demo_obj ''ro'' True NoWrite) else Inl ObjectNotFound, w))\<rparr>"

text \<open>A folder that was listed and is removed while the listing of its parent is not cached goes on
  being listed: the lookup no longer finds it, but its own cached listing is served.\<close>
theorem removed_folder_listed:
  "let (listed, st1) = op_List demo_env demo_getter ''/ro'' False True (demo_fsys []);
       (removed, st2) = op_Remove demo_env demo_getter ''/ro'' st1
   in removed = None \<and> fst (op_Get demo_env demo_getter ''/ro'' False st2) = Inl ObjectNotFound \<and>
      fst (op_List demo_env demo_getter ''/ro'' False True st2) = listed \<and> listed = Inr [demo_obj ''c'' False 0]"
  by code_simp

text \<open>An upload into a folder that must not be written is refused, but only after the empty file in
  its place has been removed.\<close>
theorem refused_upload_removes:
  "map_option (\<lambda>(r, st). (r, map snd (world st))) (op_Put demo_env demo_backend 0 ''/ro'' demo_stream (demo_fsys [])) =
     Some (Return (Some PermissionDenied), [NoRemove])"
  by code_simp

text \<open>A storage mounted below another shares cache keys with it: its root is served from the listing
  the outer storage had for the folder at that place.\<close>
theorem nested_mount_shares:
  "let inner = demo_backend\<lparr>dmeta := demo_driver\<lparr>storage := demo_storage\<lparr>MountPath := ''/m/ro''\<rparr>\<rparr>\<rparr>;
       st = snd (op_List demo_env demo_backend ''/ro'' False True (demo_fsys []))
   in map_sum (\<lambda>e. e) (map GetName) (fst (op_List demo_env inner ''/'' False True st)) = Inr [''c''] \<and>
      map_sum (\<lambda>e. e) (map GetName) (fst (op_List demo_env inner ''/'' True True st)) = Inr [''ro'', ''a'', ''b'']"
  by code_simp

end
