(* ===== verification/TransferSafety.thy ===== *)
theory TransferSafety
  imports TransferProps FsSafety
begin

text \<open>
  Transfers respect the masks of objects: whatever is kept by the drivers when they are read and
  when they change unprotected objects is kept by every copy, move, merge and upload, by each task
  of it, and by the removal of sources when its group ends.
\<close>

section \<open>Links\<close>

definition link_stable :: "'w backend \<Rightarrow> ('w \<Rightarrow> bool) \<Rightarrow> bool" where
  "link_stable b Inv \<longleftrightarrow>
     (\<forall>obj args w. Inv w \<longrightarrow> Inv (snd (linker b obj args w))) \<and> (\<forall>i w. Inv w \<longrightarrow> Inv (snd (acquire b i w)))"

lemma make_link_keeps:
  assumes "guarded b Inv" "link_stable b Inv" "Inv (world st)" "make_link env b path typeKey args st = (r, st')"
  shows "Inv (world st')"
proof -
  obtain g st1 where g: "GetUnwrap env b path st = (g, st1)" by fastforce
  note st1 = gets_keep(2) [OF assms(1,3) g]
  have "Inv (snd (linker b obj args (world st1)))" for obj using assms(2) st1 by (simp add: link_stable_def)
  with assms(4) g st1 show ?thesis
    by (cases g) (auto simp: make_link_def split_beta Let_def split: if_splits sum.splits)
qed

lemma acquire_link_keeps:
  assumes "link_stable b Inv" "Inv (world st)" "acquire_link b l st = (ok, st')"
  shows "Inv (world st')"
proof -
  have "Inv (snd (acquire b (closers l) (world st)))" using assms(1,2) by (simp add: link_stable_def)
  with assms(3) show ?thesis by (auto simp: acquire_link_def split_beta Let_def)
qed

lemma link_loop_keeps:
  assumes "guarded b Inv" "link_stable b Inv"
  shows "Inv (world st) \<Longrightarrow> link_loop n env b path typeKey args st = Some (r, st') \<Longrightarrow> Inv (world st')"
proof (induction n arbitrary: st)
  case (Suc n)
  obtain r1 st1 where m: "make_link env b path typeKey args st = (r1, st1)" by fastforce
  note st1 = make_link_keeps [OF assms Suc.prems(1) m]
  show ?case
  proof (cases r1)
    case (Inl e)
    with Suc.prems(2) m st1 show ?thesis by simp
  next
    case (Inr lf)
    obtain l obj where lf: "lf = (l, obj)" by fastforce
    obtain ok st2 where a: "acquire_link b l st1 = (ok, st2)" by fastforce
    note st2 = acquire_link_keeps [OF assms(2) st1 a]
    from Suc.prems(2) m Inr lf a st2 Suc.IH [OF st2] show ?thesis by (auto split: if_splits)
  qed
qed simp

lemma op_Link_keeps:
  assumes "guarded b Inv" "link_stable b Inv" "Inv (world st)" "op_Link tries env b path args st = Return (Some (r, st'))"
  shows "Inv (world st')"
proof (cases "not_ready (dmeta b)")
  case True
  with assms(3,4) show ?thesis by (simp add: op_Link_def)
next
  case False
  from assms(4) False obtain typeKey where k: "link_type_key b path args = Return typeKey"
    by (auto simp: op_Link_def go_bind_eq_Return)
  obtain hit c where h: "GetType (link_expired env b (world st)) (Key (dmeta b) path) typeKey (linkCache (caches st)) = (hit, c)"
    by fastforce
  let ?st = "st\<lparr>caches := (caches st)\<lparr>linkCache := c\<rparr>\<rparr>"
  have st: "Inv (world ?st)" using assms(3) by simp
  note loop = link_loop_keeps [OF assms(1,2)]
  show ?thesis
  proof (cases hit)
    case None
    with assms(4) False k h have "link_loop tries env b path typeKey args ?st = Some (r, st')" by (simp add: op_Link_def)
    from loop [OF st this] show ?thesis .
  next
    case (Some lf)
    obtain l obj where lf: "lf = (l, obj)" by fastforce
    obtain ok st2 where a: "acquire_link b l ?st = (ok, st2)" by fastforce
    note st2 = acquire_link_keeps [OF assms(2) st a]
    from assms(4) False k h Some lf a st2 st loop [OF st2] show ?thesis
      by (auto simp: op_Link_def Let_def split: if_splits)
  qed
qed

lemma op_List_keeps:
  assumes "guarded b Inv" "Inv (world st)"
  shows "Inv (world (snd (op_List env b path refresh skipHook st)))"
proof -
  have "Inv (world (snd (GetUnwrap env b (FixAndCleanPath path) s)))" if "Inv (world s)" for s
    by (rule gets_keep(2) [OF assms(1) that prod.collapse [symmetric]])
  note list_with_keeps [where Inv = Inv and b = b and get_dir = "GetUnwrap env b (FixAndCleanPath path)", OF _ assms(2) this]
  then show ?thesis using assms(1) unfolding op_List_def op_list_def guarded_def by blast
qed

section \<open>The file layer\<close>

definition sound_drivers :: "'w cfg \<Rightarrow> ('w \<Rightarrow> bool) \<Rightarrow> bool" where
  "sound_drivers C Inv \<longleftrightarrow> (\<forall>d. guarded (backend_at C d) Inv \<and> link_stable (backend_at C d) Inv)"

lemma sound_driversD: "sound_drivers C Inv \<Longrightarrow> guarded (backend_at C d) Inv"
  "sound_drivers C Inv \<Longrightarrow> link_stable (backend_at C d) Inv"
  by (simp_all add: sound_drivers_def)

lemma fsys_simps [simp]: "world (fsys_of a) = disk a" "disk (put_fsys s a) = world s"
  by (simp_all add: fsys_of_def put_fsys_def)

lemma disk_route [simp]: "disk (snd (route C path a)) = disk a"
  by (simp add: route_def split_beta)

lemma disk_route_x [simp]: "disk (app (snd (route_x C path x))) = disk (app x)"
  by (simp add: route_x_def split_beta)

abbreviation safe :: "('w \<Rightarrow> bool) \<Rightarrow> 'w xfer \<Rightarrow> bool" where
  "safe Inv x \<equiv> Inv (disk (app x))"

lemma on_driver_keeps:
  assumes "safe Inv x" "\<And>s. Inv (world s) \<Longrightarrow> Inv (world (snd (f (backend_at C d) s)))"
  shows "safe Inv (snd (on_driver C d f x))"
  using assms(2) [of "fsys_of (app x)"] assms(1) by (simp add: on_driver_def split_beta)

lemma reads_keep:
  assumes "sound_drivers C Inv" "safe Inv x"
  shows "safe Inv (snd (get_on C d path x))" "safe Inv (snd (unwrap_on C d path x))"
    and "safe Inv (snd (list_on C d skip path x))" "safe Inv (snd (remove_on C d path x))"
proof -
  note g = sound_driversD(1) [OF assms(1), of d]
  show "safe Inv (snd (get_on C d path x))"
    unfolding get_on_def by (rule on_driver_keeps [where Inv = Inv, OF assms(2)]) (rule gets_keep(1) [OF g _ prod.collapse [symmetric]])
  show "safe Inv (snd (unwrap_on C d path x))"
    unfolding unwrap_on_def by (rule on_driver_keeps [where Inv = Inv, OF assms(2)]) (rule gets_keep(2) [OF g _ prod.collapse [symmetric]])
  show "safe Inv (snd (list_on C d skip path x))"
    unfolding list_on_def by (rule on_driver_keeps [where Inv = Inv, OF assms(2)]) (rule op_List_keeps [OF g])
  show "safe Inv (snd (remove_on C d path x))"
    unfolding remove_on_def by (rule on_driver_keeps [where Inv = Inv, OF assms(2)]) (rule Remove_keeps [OF g])
qed

text \<open>The same for results given by an equation, as the cases of the code have them.\<close>

lemma reads_keep':
  assumes "sound_drivers C Inv" "safe Inv x"
  shows "get_on C d path x = (r, x') \<Longrightarrow> safe Inv x'" "unwrap_on C d path x = (r, x') \<Longrightarrow> safe Inv x'"
    and "list_on C d skip path x = (rl, x') \<Longrightarrow> safe Inv x'" "remove_on C d path x = (re, x') \<Longrightarrow> safe Inv x'"
  using reads_keep [OF assms] by (metis snd_conv)+

section \<open>Removing sources\<close>

lemma verify_keeps:
  assumes "sound_drivers C Inv"
  shows "safe Inv x \<Longrightarrow> pred_outcome (\<lambda>(_, x). safe Inv x) (verifyAndRemove n C src dst p q x)"
    and "safe Inv x \<Longrightarrow> pred_outcome (\<lambda>(_, x). safe Inv x) (verify_all n C src dst p q fs x)"
  using assms
proof (induction n C src dst p q x and n C src dst p q fs x rule: verifyAndRemove_verify_all.induct)
  case (2 n C src dst srcPath dstPath x)
  note k = reads_keep' [OF 2(3)]
  obtain r x1 where r: "unwrap_on C src srcPath x = (r, x1)" by fastforce
  note x1 = k(2) [OF 2(2) r]
  show ?case
  proof (cases r)
    case (Inl e)
    with r x1 show ?thesis by simp
  next
    case (Inr s)
    obtain r' x2 where r': "unwrap_on C dst (path_join [dstPath, GetName s]) x1 = (r', x2)" by fastforce
    note x2 = k(2) [OF x1 r']
    show ?thesis
    proof (cases r')
      case (Inl e)
      with r Inr r' x2 show ?thesis by simp
    next
      case (Inr d)
      obtain l x3 where l: "list_on C src False srcPath x2 = (l, x3)" by fastforce
      note x3 = k(3) [OF x2 l]
      show ?thesis
      proof (cases "IsDir d")
        case False
        with r \<open>r = Inr s\<close> r' Inr reads_keep(4) [OF 2(3) x2, of src srcPath] show ?thesis by (simp add: split_beta)
      next
        case True
        show ?thesis
        proof (cases l)
          case (Inl e)
          with r \<open>r = Inr s\<close> r' \<open>r' = Inr d\<close> True l x3 show ?thesis by simp
        next
          case (Inr objs')
          have IH: "pred_outcome (\<lambda>(_, x). safe Inv x) (verify_all n C src dst srcPath (path_join [dstPath, GetName s]) objs' x3)"
            using 2(1) r \<open>r = Inr s\<close> r' \<open>r' = Inr d\<close> True l Inr x3 2(3) by auto
          have "pred_outcome (\<lambda>(_, x). safe Inv x)
              (outcome_bind (verify_all n C src dst srcPath (path_join [dstPath, GetName s]) objs' x3)
                (\<lambda>(hasErr, x). if hasErr then Ret (Some (DriverError ''some subitems failed to verify and remove''), x)
                  else Ret (remove_on C src srcPath x)))"
            by (rule pred_bind [OF IH]) (use reads_keep(4) [OF 2(3)] in \<open>auto simp: split_beta\<close>)
          with r \<open>r = Inr s\<close> r' \<open>r' = Inr d\<close> True l Inr show ?thesis by simp
        qed
      qed
    qed
  qed
next
  case (4 n C src dst srcPath dstPath obj rest x)
  show ?case
    unfolding verify_all.simps
  proof (rule pred_bind [OF 4(1)])
    fix a :: "fs_error option \<times> 'a xfer"
    assume a: "case a of (_, x) \<Rightarrow> safe Inv x"
    obtain e x1 where e: "a = (e, x1)" by fastforce
    have "pred_outcome (\<lambda>(_, x). safe Inv x) (verify_all n C src dst srcPath dstPath rest x1)"
      using 4(2) a e 4(4) by auto
    then show "pred_outcome (\<lambda>(_, x). safe Inv x) (case a of (err, x) \<Rightarrow>
        outcome_bind (verify_all n C src dst srcPath dstPath rest x) (\<lambda>(hasErr, x). Ret (err \<noteq> None \<or> hasErr, x)))"
      unfolding e prod.case by (rule pred_bind) auto
  qed (use 4 in auto)
qed auto

section \<open>The end of a group\<close>

lemma hook_keeps:
  assumes "sound_drivers C Inv" "safe Inv (snd st)"
  shows "safe Inv (snd (handleHook C d p st))"
proof -
  obtain hooked x where st: "st = (hooked, x)" by fastforce
  note reads_keep(3) [OF assms(1), of x d True p]
  with assms(2) st show ?thesis by (simp add: handleHook_def split_beta split: sum.split)
qed

lemma hook_payloads_keep:
  assumes "sound_drivers C Inv"
  shows "safe Inv (snd st) \<Longrightarrow> pred_outcome (safe Inv) (hook_payloads n C dst q ps st)"
proof (induction ps arbitrary: st)
  case (Cons p ps)
  show ?case
  proof (cases p)
    case (DstPathToHook d)
    with Cons hook_keeps [OF assms Cons.prems] show ?thesis by simp
  next
    case (SrcPathToRemove s)
    obtain r x where r: "route_x C s (snd st) = (r, x)" by fastforce
    have x: "safe Inv x" using disk_route_x [of C s "snd st"] Cons.prems r by simp
    show ?thesis
    proof (cases r)
      case (Inl e)
      with SrcPathToRemove r Cons.IH [of "(fst st, x)"] x show ?thesis by simp
    next
      case (Inr dp)
      obtain d' p' where dp: "dp = (d', p')" by fastforce
      have "pred_outcome (safe Inv) (outcome_bind (verifyAndRemove n C d' dst p' q x)
          (\<lambda>(_, x). hook_payloads n C dst q ps (fst st, x)))"
        by (rule pred_bind [OF verify_keeps(1) [OF assms x]]) (use Cons.IH in auto)
      with SrcPathToRemove r Inr dp show ?thesis by simp
    qed
  qed
qed simp

lemma finish_keeps:
  assumes "sound_drivers C Inv" "safe Inv x"
  shows "pred_outcome (safe Inv) (finish_in_group n C gid ok x)"
proof -
  obtain completion co where d: "Done gid ok (coordinator x) = (completion, co)" by fastforce
  let ?x = "x\<lparr>coordinator := co\<rparr>"
  have x: "safe Inv ?x" using assms(2) by simp
  show ?thesis
  proof (cases completion)
    case None
    with d x show ?thesis by (simp add: finish_in_group_def)
  next
    case (Some gp)
    obtain g ps where gp: "gp = (g, ps)" by fastforce
    obtain r x1 where r: "route_x C g ?x = (r, x1)" by fastforce
    have x1: "safe Inv x1" using disk_route_x [of C g ?x] x r by simp
    have "pred_outcome (safe Inv) (HookAndRemove n C g ps ?x)"
    proof (cases r)
      case (Inl e)
      with r x1 show ?thesis by (simp add: HookAndRemove_def)
    next
      case (Inr dp)
      obtain d' p' where dp: "dp = (d', p')" by fastforce
      have "safe Inv (snd (if hooks_wanted (fenv C) then handleHook C d' p' ([], x1) else ([], x1)))"
        using hook_keeps [OF assms(1), of "([], x1)"] x1 by simp
      from hook_payloads_keep [OF assms(1) this] r Inr dp show ?thesis by (simp add: HookAndRemove_def)
    qed
    with d Some gp show ?thesis by (simp add: finish_in_group_def)
  qed
qed

section \<open>Tasks\<close>

lemma safe_updates [simp]:
  "safe Inv (add_payload gid p x) = safe Inv x" "safe Inv (enqueue t x) = safe Inv x" "safe Inv (fold enqueue ts x) = safe Inv x"
  by (simp_all add: add_payload_def enqueue_def)
    (induction ts arbitrary: x; simp add: enqueue_def)

lemma split_folder_keeps:
  assumes "sound_drivers C Inv" "safe Inv x"
  shows "safe Inv (snd (split_folder C t obj x))"
proof -
  obtain l x1 where l: "list_on C (SrcStorage t) False (SrcActualPath t) x = (l, x1)" by fastforce
  note x1 = reads_keep'(3) [OF assms l]
  let ?q = "path_join [DstActualPath t, dst_name t obj]"
  let ?x = "add_payload (groupID t) (DstPathToHook ?q) x1"
  have x: "safe Inv ?x" using x1 by simp
  obtain m x2 where m: "list_on C (DstStorage t) False ?q ?x = (m, x2)" by fastforce
  note x2 = reads_keep'(3) [OF assms(1) x m]
  from l x1 m x2 show ?thesis
    by (cases l; cases m) (simp_all add: split_folder_def Let_def)
qed

lemma upload_keeps:
  assumes "sound_drivers C Inv" "safe Inv x"
  shows "pred_outcome (\<lambda>(_, x). safe Inv x) (upload_to C seekable t lo x)"
proof -
  let ?put = "op_Put (quiet_env True (fenv C)) (backend_at C (DstStorage t)) (GetSize (snd lo)) (DstActualPath t)
    (stream_of t (snd lo)) (fsys_of (app x))"
  have "case ?put of None \<Rightarrow> True | Some (_, s) \<Rightarrow> Inv (world s)"
    using Put_keeps [OF sound_driversD(1) [OF assms(1)], of "fsys_of (app x)"] assms(2) by simp
  then show ?thesis using assms(2)
    by (cases lo) (auto simp: upload_to_def split: option.splits go.splits)
qed

lemma copy_file_keeps:
  assumes "sound_drivers C Inv" "safe Inv x"
  shows "pred_outcome (\<lambda>(_, x). safe Inv x) (copy_file C tries seekable t obj x)"
proof -
  obtain skip x1 where s: "(if TaskType t = CopyTask \<and> SkipExisting t
         then (case get_on C (DstStorage t) (path_join [DstActualPath t, dst_name t obj]) x of
                 (Inl _, x) \<Rightarrow> (False, x)
               | (Inr dstObj, x) \<Rightarrow> (shouldSkipExistingFile obj dstObj, x))
         else (False, x)) = (skip, x1)" by fastforce
  have x1: "safe Inv x1"
    using s assms(2) reads_keep(1) [OF assms, of "DstStorage t" "path_join [DstActualPath t, dst_name t obj]"]
    by (auto split: if_splits sum.splits prod.splits)
  let ?link = "op_Link tries (fenv C) (backend_at C (SrcStorage t)) (SrcActualPath t)
    \<lparr>LinkType = [], LinkIP = [], UserAgent = []\<rparr> (fsys_of (app x1))"
  have link: "Inv (world st)" if "?link = Return (Some (r, st))" for r st
    by (rule op_Link_keeps [OF sound_driversD [OF assms(1)] _ that]) (use x1 in simp)
  show ?thesis
  proof (cases skip)
    case True
    with s x1 show ?thesis by (simp add: copy_file_def)
  next
    case False
    show ?thesis
    proof (cases "\<exists>lo st. ?link = Return (Some (Inr lo, st))")
      case True
      then obtain lo st where l: "?link = Return (Some (Inr lo, st))" by blast
      from link [OF l] have "safe Inv (x1\<lparr>app := put_fsys st (app x1)\<rparr>)" by simp
      from upload_keeps [OF assms(1) this] l s False show ?thesis by (simp add: copy_file_def)
    next
      case no: False
      show ?thesis
        using False s no link by (auto simp: copy_file_def split: go.splits option.splits sum.splits)
    qed
  qed
qed

lemma task_step_keeps:
  assumes "sound_drivers C Inv" "safe Inv x"
  shows "pred_outcome (\<lambda>(_, x). safe Inv x) (task_step C tries seekable t x)"
proof -
  obtain r x1 where r: "get_on C (SrcStorage t) (SrcActualPath t) x = (r, x1)" by fastforce
  note x1 = reads_keep'(1) [OF assms r]
  have "pred_outcome (\<lambda>(_, x). safe Inv x) (outcome_bind (copy_file C tries seekable t obj x1) (\<lambda>(e, x). Ret (Finished e, x)))" for obj
    by (rule pred_bind [OF copy_file_keeps [OF assms(1) x1]]) auto
  with r x1 split_folder_keeps [OF assms(1) x1] show ?thesis
    by (cases r) (auto simp: task_step_def split_beta)
qed

lemma run_queued_keeps:
  assumes "sound_drivers C Inv" "safe Inv x"
  shows "pred_outcome (\<lambda>(_, x). safe Inv x) (run_queued n C tries seekable t x)"
  unfolding run_queued_def
proof (rule pred_bind [OF task_step_keeps [OF assms]])
  fix a :: "work \<times> 'a xfer"
  assume a: "case a of (_, x) \<Rightarrow> safe Inv x"
  obtain w x1 where wx: "a = (w, x1)" by fastforce
  obtain e x2 where e: "(case w of Children ts \<Rightarrow> (None, fold enqueue ts x1) | Finished e \<Rightarrow> (e, x1)) = (e, x2)" by fastforce
  have "safe Inv x2" using a wx e by (auto split: work.splits)
  note finish_keeps [OF assms(1) this, of n "groupID t" "e = None"]
  then show "pred_outcome (\<lambda>(_, x). safe Inv x) (case a of (w, x) \<Rightarrow>
      let (e, x) = (case w of Children ts \<Rightarrow> (None, fold enqueue ts x) | Finished e \<Rightarrow> (e, x))
      in outcome_bind (finish_in_group n C (groupID t) (e = None) x) (\<lambda>x. Ret (e, x)))"
    unfolding wx prod.case e Let_def by (rule pred_bind) simp
qed

lemma run_now_keeps:
  assumes "sound_drivers C Inv"
  shows "safe Inv x \<Longrightarrow> pred_outcome (\<lambda>(_, x). safe Inv x) (run_now n C tries seekable t x)"
    and "safe Inv x \<Longrightarrow> pred_outcome (\<lambda>(_, x). safe Inv x) (run_all n C tries seekable ts ok x)"
  using assms
proof (induction n C tries seekable t x and n C tries seekable ts ok x rule: run_now_run_all.induct)
  case (2 n C tries seekable t x)
  show ?case
    unfolding run_now.simps
  proof (rule pred_bind [OF task_step_keeps [OF 2(3,2)]])
    fix a :: "work \<times> 'a xfer"
    assume a: "case a of (_, x) \<Rightarrow> safe Inv x"
    obtain w x1 where wx: "a = (w, x1)" by fastforce
    show "pred_outcome (\<lambda>(_, x). safe Inv x)
      (case a of (w, x) \<Rightarrow> case w of Children ts \<Rightarrow> run_all n C tries seekable ts False x | Finished e \<Rightarrow> Ret ((e, e = None), x))"
      using 2(1) a wx 2(3) by (cases w) auto
  qed
next
  case (4 n C tries seekable t ts ok x)
  show ?case
    unfolding run_all.simps
  proof (rule pred_bind [OF 4(1)])
    fix a :: "(fs_error option \<times> bool) \<times> 'a xfer"
    assume a: "case a of (_, x) \<Rightarrow> safe Inv x"
    obtain e s x1 where e: "a = ((e, s), x1)" by (metis prod.collapse)
    show "pred_outcome (\<lambda>(_, x). safe Inv x) (case a of (x, xa) \<Rightarrow> (case x of (e, s) \<Rightarrow> \<lambda>x.
        if e \<noteq> None then Ret ((e, ok \<or> s), x) else run_all n C tries seekable ts True x) xa)"
      using 4(2) a e 4(4) by auto
  qed (use 4 in auto)
qed auto

section \<open>Transfers\<close>

lemma safe_put [simp]: "safe Inv (x\<lparr>app := put_fsys s (app x)\<rparr>) = Inv (world s)"
  by simp

lemma within_storage_keeps:
  assumes "sound_drivers C Inv" "safe Inv x"
  shows "safe Inv (snd (within_storage C kind se sh d p q n x))"
proof -
  obtain skip x1 where s: "(if \<not> se then (False, x)
         else (case get_on C d p x of
                 (Inl _, x) \<Rightarrow> (False, x)
               | (Inr srcObj, x) \<Rightarrow>
                   (case get_on C d (path_join [q, if n = [] then GetName srcObj else n]) x of
                      (Inl _, x) \<Rightarrow> (False, x)
                    | (Inr dstObj, x) \<Rightarrow> (shouldSkipExistingFile srcObj dstObj, x)))) = (skip, x1)" by fastforce
  have x1: "safe Inv x1"
  proof (cases se)
    case False
    with s assms(2) show ?thesis by auto
  next
    case True
    obtain r y where r: "get_on C d p x = (r, y)" by fastforce
    note y = reads_keep'(1) [OF assms r]
    show ?thesis
    proof (cases r)
      case (Inl e)
      with s True r y show ?thesis by auto
    next
      case (Inr obj)
      obtain r' z where z: "get_on C d (path_join [q, if n = [] then GetName obj else n]) y = (r', z)" by fastforce
      note reads_keep'(1) [OF assms(1) y z]
      with s True r Inr z show ?thesis by (auto split: sum.splits)
    qed
  qed
  note g = sound_driversD(1) [OF assms(1), of d]
  have "safe Inv (snd (on_driver C d (\<lambda>b. (if kind = MoveTask then op_Move else op_Copy) (quiet_env sh (fenv C)) b p q (Some n)) x1))"
    by (rule on_driver_keeps [where Inv = Inv, OF x1]) (use Move_keeps [OF g] Copy_keeps [OF g] in auto)
  with s x1 show ?thesis by (simp add: within_storage_def split_beta Let_def)
qed

lemma start_task_keeps:
  assumes "sound_drivers C Inv" "safe Inv x"
  shows "pred_outcome (\<lambda>(_, x). safe Inv x) (start_task n C tries seekable noTask p t x)"
proof (cases noTask)
  case False
  with assms(2) show ?thesis by (simp add: start_task_def Let_def)
next
  case True
  let ?x = "x\<lparr>coordinator := AddTask (groupID t) None (coordinator x)\<rparr>"
  have x: "safe Inv ?x" using assms(2) by simp
  have "pred_outcome (\<lambda>(_, x). safe Inv x) (outcome_bind (run_now n C tries seekable t ?x) (\<lambda>((e, ok), x).
      let x = (if TaskType t = MoveTask then add_payload (groupID t) (SrcPathToRemove p) x else x)
      in outcome_bind (finish_in_group n C (groupID t) ok x) (\<lambda>x. Ret (e, x))))"
  proof (rule pred_bind [OF run_now_keeps(1) [OF assms(1) x]])
    fix a :: "(fs_error option \<times> bool) \<times> 'a xfer"
    assume a: "case a of (_, x) \<Rightarrow> safe Inv x"
    obtain e ok x1 where e: "a = ((e, ok), x1)" by (metis prod.collapse)
    let ?y = "if TaskType t = MoveTask then add_payload (groupID t) (SrcPathToRemove p) x1 else x1"
    have "safe Inv ?y" using a e by simp
    note finish_keeps [OF assms(1) this, of n "groupID t" ok]
    then show "pred_outcome (\<lambda>(_, x). safe Inv x) (case a of (x, xa) \<Rightarrow> (case x of (e, ok) \<Rightarrow> \<lambda>x.
        let x = (if TaskType t = MoveTask then add_payload (groupID t) (SrcPathToRemove p) x else x)
        in outcome_bind (finish_in_group n C (groupID t) ok x) (\<lambda>x. Ret (e, x))) xa)"
      unfolding e prod.case Let_def by (rule pred_bind) simp
  qed
  with True show ?thesis by (simp add: start_task_def)
qed

lemma transfer_keeps:
  assumes "sound_drivers C Inv" "safe Inv x"
  shows "pred_outcome (\<lambda>(_, x). safe Inv x) (transfer n C tries seekable noTask skipKey kind p q name sh x)"
proof -
  obtain r x1 where r: "route_x C p x = (r, x1)" by fastforce
  have x1: "safe Inv x1" using disk_route_x [of C p x] r assms(2) by simp
  show ?thesis
  proof (cases r)
    case (Inl e)
    with r x1 show ?thesis by (simp add: transfer_def)
  next
    case (Inr sp)
    obtain src srcPath where sp: "sp = (src, srcPath)" by fastforce
    obtain r' x2 where r': "route_x C q x1 = (r', x2)" by fastforce
    have x2: "safe Inv x2" using disk_route_x [of C q x1] r' x1 by simp
    show ?thesis
    proof (cases r')
      case (Inl e)
      with r Inr sp r' x2 show ?thesis by (simp add: transfer_def)
    next
      case (Inr dp)
      obtain dst dstDir where dp: "dp = (dst, dstDir)" by fastforce
      obtain direct x3 where w: "(if src = dst
          then within_storage C kind (kind = CopyTask \<and> skipKey) sh src srcPath dstDir name x2 else (None, x2)) = (direct, x3)" by fastforce
      have x3: "safe Inv x3"
      proof (cases "src = dst")
        case True
        with w within_storage_keeps [OF assms(1) x2, of kind "kind = CopyTask \<and> skipKey" sh src srcPath dstDir name]
        show ?thesis by simp
      next
        case False
        with w x2 show ?thesis by simp
      qed
      from r \<open>r = Inr sp\<close> sp r' Inr dp w x3 start_task_keeps [OF assms(1) x3] show ?thesis
        by (cases direct) (simp_all add: transfer_def Let_def)
    qed
  qed
qed

text \<open>C20: Protected objects are safe from transfers too: whatever every driver keeps when it is read and
  when unprotected objects are changed is kept by each copy, move or merge, run at once or queued,
  by each queued task and the removal of sources at the end of its group, and by each upload.\<close>
theorem transfers_respect_masks:
  assumes "sound_drivers C Inv" and "Inv (disk (app x))"
  shows "pred_outcome (\<lambda>(_, x). Inv (disk (app x))) (transfer n C tries seekable noTask skipKey kind p q name sh x) \<and>
    pred_outcome (\<lambda>(_, x). Inv (disk (app x))) (run_queued n C tries seekable t x) \<and>
    pred_outcome (\<lambda>(_, x). Inv (disk (app x))) (run_upload n C fullSize u x)"
proof -
  let ?d = "up_storage u"
  have put: "case op_Put (quiet_env True (fenv C)) (backend_at C ?d) fullSize (dstDirActualPath u) (up_file u) (fsys_of (app x)) of
      None \<Rightarrow> True | Some (_, s) \<Rightarrow> Inv (world s)"
    using Put_keeps [OF sound_driversD(1) [OF assms(1)], of "fsys_of (app x)"] assms(2) by simp
  have fin: "pred_outcome (\<lambda>(_, x). safe Inv x) (outcome_bind (finish_in_group n C g ok y) (\<lambda>x. Ret (e, x)))"
    if "safe Inv y" for g ok y and e :: "fs_error option"
    by (rule pred_bind [OF finish_keeps [OF assms(1) that]]) simp
  have "pred_outcome (\<lambda>(_, x). safe Inv x) (run_upload n C fullSize u x)"
    using put fin by (auto simp: run_upload_def split: option.splits go.splits)
  with transfer_keeps [OF assms] run_queued_keeps [OF assms] show ?thesis by blast
qed

lemma demo_sound: "sound_drivers demo_cfg unlocked"
  by (simp add: sound_drivers_def guarded_def read_stable_def change_stable_def link_stable_def backend_at_def demo_cfg_def
    src_backend_def dst_backend_def demo_backend_def demo_change_def unlocked_def ObjHasMask_def sized_def)

lemma transfers_respect_masks_witness:
  "pred_outcome (\<lambda>(_, x). unlocked (disk (app x)))
     (transfer 3 demo_cfg 1 (\<lambda>_. True) True False MoveTask ''/m/d'' ''/n'' [] False demo_xfer) \<and>
   pred_outcome (\<lambda>(_, x). unlocked (disk (app x)))
     (run_queued 3 demo_cfg 1 (\<lambda>_. True) (new_task CopyTask False demo_driver other_driver ''/d'' ''/'' []) demo_xfer) \<and>
   pred_outcome (\<lambda>(_, x). unlocked (disk (app x)))
     (run_upload 3 demo_cfg 0 \<lparr>up_storage = demo_driver, dstDirActualPath = ''/'', up_file = demo_stream\<rparr> demo_xfer)"
  by (rule transfers_respect_masks [OF demo_sound]) (simp add: demo_xfer_def unlocked_def)

end
