(* ===== verification/MountProps.thy ===== *)
theory MountProps
  imports Mounts
begin

text \<open>
  What a listing shows: the files of the storage and the virtual directories of mounts, the first of
  each name, without the names that the rule of the directory hides and without what the user may
  not read.
\<close>

definition readable_at :: "User option \<Rightarrow> Meta option \<Rightarrow> Meta list \<Rightarrow> string \<Rightarrow> Obj \<Rightarrow> bool" where
  "readable_at user meta ms path obj \<longleftrightarrow>
     CanRead user (if IsDir obj then nearest ms (norm (path_join [path, GetName obj])) else meta) (path_join [path, GetName obj])"

definition hidden_at :: "'w cfg \<Rightarrow> User option \<Rightarrow> Meta option \<Rightarrow> string \<Rightarrow> Obj \<Rightarrow> bool" where
  "hidden_at C user meta path obj \<longleftrightarrow> whetherHide user meta path \<and>
     (case meta of None \<Rightarrow> False | Some m \<Rightarrow> \<exists>h \<in> set (split_on (CHR 0x0A) (Hide m)). regex C h (GetName obj) = Some True)"

text \<open>What the storage of the path lists, if there is one and it answers.\<close>

definition stored_at :: "'w cfg \<Rightarrow> string \<Rightarrow> bool \<Rightarrow> 'w app \<Rightarrow> Obj list" where
  "stored_at C path refresh a =
     (case route C path a of
        (Inl _, _) \<Rightarrow> []
      | (Inr (d, actual), a) \<Rightarrow>
          (case fst (op_List (fenv C) (backend_at C d) actual refresh False (fsys_of a)) of Inl _ \<Rightarrow> [] | Inr fs \<Rightarrow> fs))"

definition metas_ok :: "metaStore \<Rightarrow> metaStore \<Rightarrow> bool" where
  "metas_ok ms ms' \<longleftrightarrow> coherent ms' \<and> rows ms' = rows ms \<and> \<not> down ms'"

lemma nearest_meta_ok:
  assumes "metas_ok ms0 ms"
  obtains ms' where "nearest_meta path ms = (Inr (nearest (rows ms0) (norm path)), ms')" "metas_ok ms0 ms'"
proof -
  obtain r ms' where r: "GetNearestMeta ms path = Some (r, ms')" "coherent ms'" "rows ms' = rows ms" "down ms' = down ms"
      "r = (case nearest (rows ms) (norm path) of None \<Rightarrow> Inl MetaNotFound | Some m \<Rightarrow> Inr m) \<or> (down ms \<and> r = Inl (DbError DbFailure))"
    using GetNearestMeta_ok [of ms path] assms unfolding metas_ok_def by blast
  then have "nearest_meta path ms = (Inr (nearest (rows ms0) (norm path)), ms')"
    using assms by (auto simp: nearest_meta_def metas_ok_def split: option.splits)
  with r(2-4) assms that show ?thesis by (simp add: metas_ok_def)
qed

lemma filterReadableObjs_ok:
  "metas_ok ms0 ms \<Longrightarrow> \<exists>ms'. filterReadableObjs user path meta fs ms =
    (Inr (filter (readable_at user meta (rows ms0) path) fs), ms') \<and> metas_ok ms0 ms'"
proof (induction fs arbitrary: ms)
  case (Cons obj fs)
  let ?p = "path_join [path, GetName obj]"
  obtain m ms1 where m: "(if IsDir obj then nearest_meta ?p ms else (Inr meta, ms)) = (Inr m, ms1)" "metas_ok ms0 ms1"
      "m = (if IsDir obj then nearest (rows ms0) (norm ?p) else meta)"
  proof (cases "IsDir obj")
    case True
    obtain ms' where "nearest_meta ?p ms = (Inr (nearest (rows ms0) (norm ?p)), ms')" "metas_ok ms0 ms'"
      by (rule nearest_meta_ok [OF Cons.prems])
    with True that show ?thesis by simp
  qed (use Cons.prems that in simp)
  obtain ms2 where "filterReadableObjs user path meta fs ms1 = (Inr (filter (readable_at user meta (rows ms0) path) fs), ms2)"
      "metas_ok ms0 ms2"
    using Cons.IH [OF m(2)] by blast
  moreover have "readable_at user meta (rows ms0) path obj = CanRead user m ?p" by (simp add: readable_at_def m(3))
  ultimately show ?case using m(1) by simp
qed simp

lemma metas_route [simp]: "metas (snd (route C path a)) = metas a"
  by (simp add: route_def split_beta)

lemma metas_put [simp]: "metas (put_fsys s a) = metas a"
  by (simp add: put_fsys_def)

text \<open>C25: A listing that is returned is exactly this: of the files of the storage followed by the virtual
  directories, the first of every name, without the names hidden from the user by the rule of the
  directory and without the folders and files the user may not read by their own rule.\<close>
theorem fs_list_exact:
  assumes "coherent (metas a)" and "\<not> down (metas a)"
    and "fs_list C user meta path refresh withDetails a = Return (Inr listed, a')"
  shows "\<exists>virtual. virtual_of C path withDetails [] a = Return virtual \<and>
    listed = filter (readable_at user meta (rows (metas a)) path)
      (first_named {} (filter (\<lambda>obj. \<not> hidden_at C user meta path obj) (stored_at C path refresh a @ virtual)))"
proof -
  from assms(3) obtain virtual where v: "virtual_of C path withDetails [] a = Return virtual"
    by (auto simp: fs_list_def go_bind_eq_Return)
  obtain r a1 where r: "route C path a = (r, a1)" by fastforce
  obtain stored a2 where s: "(case r of Inl e \<Rightarrow> (Inl e, a1)
      | Inr (d, actual) \<Rightarrow> (let (r, s) = op_List (fenv C) (backend_at C d) actual refresh False (fsys_of a1) in (r, put_fsys s a1)))
      = (stored, a2)" by fastforce
  have fs: "(case stored of Inl _ \<Rightarrow> [] | Inr fs \<Rightarrow> fs) = stored_at C path refresh a"
    using r s by (auto simp: stored_at_def split: sum.splits prod.splits)
  have "metas a1 = metas a" using metas_route [of C path a] r by simp
  then have ms: "metas_ok (metas a) (metas a2)"
    using s assms(1,2) by (auto simp: metas_ok_def split: sum.splits prod.splits)
  define om where "om = (if whetherHide user meta path
    then InitHideReg (\<lambda>h. regex C h [] \<noteq> None) (case meta of Some m \<Rightarrow> Hide m | None \<Rightarrow> []) NewObjMerge else Return NewObjMerge)"
  have not_err: "\<not> (\<exists>e. stored = Inl e \<and> virtual = [])"
    using assms(3) v r s by (auto simp: fs_list_def)
  have "fs_list C user meta path refresh withDetails a = go_bind om (\<lambda>om.
      let (r, ms) = filterReadableObjs user path meta
            (fst (Merge (\<lambda>h n. regex C h n = Some True) om (stored_at C path refresh a) virtual)) (metas a2)
      in Return (case r of Inl _ \<Rightarrow> Inl (DriverError ''failed get meta'') | Inr fs \<Rightarrow> Inr fs, a2\<lparr>metas := ms\<rparr>))"
    using not_err by (cases stored; cases virtual) (simp_all add: fs_list_def v r s om_def flip: fs)
  with assms(3) obtain o1 where o1: "om = Return o1"
      "(let (r, ms) = filterReadableObjs user path meta
            (fst (Merge (\<lambda>h n. regex C h n = Some True) o1 (stored_at C path refresh a) virtual)) (metas a2)
        in Return (case r of Inl _ \<Rightarrow> Inl (DriverError ''failed get meta'') | Inr fs \<Rightarrow> Inr fs, a2\<lparr>metas := ms\<rparr>))
       = Return (Inr listed, a')"
    by (auto simp: go_bind_eq_Return)
  have vis: "visible (\<lambda>h n. regex C h n = Some True) o1 = (\<lambda>obj. \<not> hidden_at C user meta path obj)" "ObjMerge.seen o1 = {}"
    using o1(1) by (auto simp: om_def visible_def hidden_at_def InitHideReg_def NewObjMerge_def list_ex_iff fun_eq_iff whetherHide_def
        Let_def split: if_splits option.splits)
  have "listed = filter (readable_at user meta (rows (metas a)) path)
      (fst (Merge (\<lambda>h n. regex C h n = Some True) o1 (stored_at C path refresh a) virtual))"
    using o1(2) filterReadableObjs_ok [OF ms, of user path meta
        "fst (Merge (\<lambda>h n. regex C h n = Some True) o1 (stored_at C path refresh a) virtual)"] by auto
  then show ?thesis using v vis Merge_first [THEN conjunct1] by simp
qed

text \<open>A storage with a rule that hides one name and reserves a folder for another user.\<close>

definition hiding_meta :: Meta where
  "hiding_meta = demo_meta\<lparr>mid := 1, MetaPath := ''/m'', Hide := ''b'', HSub := False, ReadUsers := []\<rparr>"

definition general_user :: User where
  "general_user = demo_user\<lparr>Permission := 0\<rparr>"

definition demo_app :: "demo_log app" where
  "demo_app = \<lparr>reg = \<lparr>srows = [], sdown = False, storagesMap = [(''/m'', demo_driver)],
       balanceMap = \<lambda>_. None, listings = caches (demo_fsys ([] :: demo_log)), hooked = []\<rparr>, disk = [], given = [], started = [], shut = [],
       metas = \<lparr>rows = [hiding_meta], down = False, cache = \<lambda>_. None\<rparr>\<rparr>"

definition plain_cfg :: "demo_log cfg" where
  "plain_cfg = \<lparr>fenv = demo_env, driver_of = \<lambda>_. demo_backend, sort_drivers = \<lambda>_ xs. xs, details = \<lambda>_. None, schedule = [],
     regex = \<lambda>h n. Some (h = n)\<rparr>"

lemma fs_list_exact_witness:
  "\<exists>listed a'. fs_list plain_cfg (Some general_user) (Some hiding_meta) ''/m'' False False demo_app = Return (Inr listed, a') \<and>
     map GetName listed = [''ro'', ''a''] \<and>
     (\<exists>virtual. virtual_of plain_cfg ''/m'' False [] demo_app = Return virtual \<and>
      listed = filter (readable_at (Some general_user) (Some hiding_meta) [hiding_meta] ''/m'')
        (first_named {} (filter (\<lambda>obj. \<not> hidden_at plain_cfg (Some general_user) (Some hiding_meta) ''/m'' obj)
          (stored_at plain_cfg ''/m'' False demo_app @ virtual))))"
proof -
  let ?l = "fs_list plain_cfg (Some general_user) (Some hiding_meta) ''/m'' False False demo_app"
  have "(case ?l of Return (Inr fs, _) \<Rightarrow> map GetName fs = [''ro'', ''a''] | _ \<Rightarrow> False)" by code_simp
  then obtain listed a' where l: "?l = Return (Inr listed, a')" "map GetName listed = [''ro'', ''a'']"
    by (auto split: go.splits sum.splits)
  have m: "rows (metas demo_app) = [hiding_meta]" "coherent (metas demo_app)" "\<not> down (metas demo_app)"
    by (simp_all add: demo_app_def coherent_def)
  from fs_list_exact [OF m(2,3) l(1)] l m(1) show ?thesis by auto
qed

end
