(* ===== verification/HandlerProps.thy ===== *)
theory HandlerProps
  imports HandlerRules TransferSafety MountProps
begin

text \<open>
  What requests to change files may touch: the handlers of \<open>server/handles\<close> and the routes of
  \<open>server/router.go\<close> that lead to them, on the file layer of the server and on any other.
\<close>

section \<open>The requests\<close>

datatype request =
    Mkdir "string option" | Move "MoveCopyReq option" | Copy "MoveCopyReq option" | Rename "RenameReq option"
  | Remove "RemoveReq option" | RemoveEmpty "string option" | RecursiveMove "RecursiveMoveReq option"
  | BatchRename "(string \<times> (string \<times> string) list) option" | RegexRename "(string \<times> string \<times> string) option"
  | PutStream upload_req | PutForm upload_req | DirectUpload "DirectUploadReq option"

definition finish :: "('s, 'a) handling \<Rightarrow> ('s, unit) handling" where
  "finish h = andThen h (\<lambda>_. give ())"

text \<open>The routes of \<open>_fs\<close>; \<open>n\<close> bounds the walks of the two handlers that walk a tree.\<close>

fun serve_fs ::
  "nat \<Rightarrow> (string \<Rightarrow> ((string \<Rightarrow> bool) \<times> (string \<Rightarrow> string \<Rightarrow> string)) option) \<Rightarrow> bool \<Rightarrow> 's layer \<Rightarrow> User option \<Rightarrow> request \<Rightarrow>
     ('s, unit) handling" where
  "serve_fs n compile ignore L user (Mkdir req) = FsMkdir L user req"
| "serve_fs n compile ignore L user (Move req) = finish (FsMove L user req)"
| "serve_fs n compile ignore L user (Copy req) = finish (FsCopy L user req)"
| "serve_fs n compile ignore L user (Rename req) = FsRename L user req"
| "serve_fs n compile ignore L user (Remove req) = FsRemove L user req"
| "serve_fs n compile ignore L user (RemoveEmpty req) = FsRemoveEmptyDirectory n L user req"
| "serve_fs n compile ignore L user (RecursiveMove req) = finish (FsRecursiveMove n L user req)"
| "serve_fs n compile ignore L user (BatchRename req) = FsBatchRename L user req"
| "serve_fs n compile ignore L user (RegexRename req) = FsRegexRename compile L user req"
| "serve_fs n compile ignore L user (PutStream req) = upload_stream_route ignore L user req"
| "serve_fs n compile ignore L user (PutForm req) = upload_form_route ignore L user req"
| "serve_fs n compile ignore L user (DirectUpload req) = finish (FsGetDirectUploadInfo L user req)"

text \<open>Requests one after the other; the answers are left out.\<close>

fun serve_all ::
  "nat \<Rightarrow> (string \<Rightarrow> ((string \<Rightarrow> bool) \<times> (string \<Rightarrow> string \<Rightarrow> string)) option) \<Rightarrow> bool \<Rightarrow> 's layer \<Rightarrow> (User \<times> request) list \<Rightarrow>
     's \<Rightarrow> 's outcome" where
  "serve_all n compile ignore L [] s = Ret s"
| "serve_all n compile ignore L ((u, r) # rs) s =
     outcome_bind (serve_fs n compile ignore L (Some u) r s) (\<lambda>(_, s). serve_all n compile ignore L rs s)"

text \<open>The requests the handlers confine: no name holds a backslash where a list of names is given, and
  the object to rename or to write is not the base itself.\<close>

definition no_backslash :: "string \<Rightarrow> bool" where
  "no_backslash s \<longleftrightarrow> CHR 0x5C \<notin> set s"

definition is_base :: "User \<Rightarrow> string \<Rightarrow> bool" where
  "is_base u p \<longleftrightarrow> norm p = norm (BasePath u)"

fun careful :: "User \<Rightarrow> request \<Rightarrow> bool" where
  "careful u (Move req) = pred_option (\<lambda>r. list_all no_backslash (Names r)) req"
| "careful u (Copy req) = pred_option (\<lambda>r. list_all no_backslash (Names r)) req"
| "careful u (Remove req) = pred_option (\<lambda>r. list_all no_backslash (RemoveNames r)) req"
| "careful u (Rename req) = pred_option (\<lambda>r. norm (RenamePath r) \<noteq> []) req"
| "careful u (PutStream req) = pred_option (\<lambda>p. norm p \<noteq> []) (path_unescape (FilePath req))"
| "careful u (PutForm req) = pred_option (\<lambda>p. norm p \<noteq> []) (path_unescape (FilePath req))"
| "careful u _ = True"

context layer_contract
begin

lemma finished_keeps: "holds J (\<lambda>_. True) h \<Longrightarrow> holds J (\<lambda>_. True) (finish h)"
  unfolding finish_def by (rule holds_then) auto

lemma serve_keeps:
  assumes base: "\<And>d p. ok d \<Longrightarrow> ok p \<Longrightarrow> ok (path_join [d, path_base p])"
    and names: "\<And>c. no_backslash c \<Longrightarrow> plain c"
    and inside: "\<And>q p. JoinPath u q = Inr p \<Longrightarrow> norm q \<noteq> [] \<Longrightarrow> \<not> at_base p"
    and r: "careful u r \<or> (\<forall>c. plain c) \<and> (\<forall>p. \<not> at_base p)"
  shows "holds J (\<lambda>_. True) (serve_fs n compile ignore L (Some u) r)"
proof (cases r)
  case (Move req)
  then have "\<And>r. req = Some r \<Longrightarrow> list_all plain (Names r)" using r names by (auto simp: list_all_iff)
  then show ?thesis using Move finished_keeps [OF FsMove_keeps [OF base]] by simp
next
  case (Copy req)
  then have "\<And>r. req = Some r \<Longrightarrow> list_all plain (Names r)" using r names by (auto simp: list_all_iff)
  then show ?thesis using Copy finished_keeps [OF FsCopy_keeps [OF base]] by simp
next
  case (Remove req)
  then have "\<And>r. req = Some r \<Longrightarrow> list_all plain (RemoveNames r)" using r names by (auto simp: list_all_iff)
  then show ?thesis using Remove FsRemove_keeps by simp
next
  case (Rename req)
  have "holds J (\<lambda>_. True) (FsRename L (Some u) req)"
    by (rule FsRename_keeps) (use r Rename inside in auto)
  then show ?thesis using Rename by simp
next
  case (PutStream req)
  have "holds J (\<lambda>_. True) (FsStream ignore L (Some u) req)"
    by (rule Stream_keeps(1)) (use r PutStream inside in auto)
  then show ?thesis
    using holds_then [OF FsUp_keeps] PutStream by (simp add: upload_stream_route_def)
next
  case (PutForm req)
  have "holds J (\<lambda>_. True) (FsForm ignore L (Some u) req)"
    by (rule Stream_keeps(2)) (use r PutForm inside in auto)
  then show ?thesis
    using holds_then [OF FsUp_keeps] PutForm by (simp add: upload_form_route_def)
qed (simp_all add: FsMkdir_keeps FsRemoveEmptyDirectory_keeps finished_keeps FsRecursiveMove_keeps FsBatchRename_keeps
    FsRegexRename_keeps DirectUpload_keeps)

end

section \<open>Confinement\<close>

text \<open>A layer that writes down the paths of the calls made on it.  A run ends where a storage lists a name
  that is no plain name, since the handlers trust the names they read.\<close>

definition noting :: "string list \<Rightarrow> ('s \<Rightarrow> ('a \<times> 's) outcome) \<Rightarrow> 's \<times> string list \<Rightarrow> ('a \<times> 's \<times> string list) outcome" where
  "noting ps f sl = outcome_bind (f (fst sl)) (\<lambda>(r, s). Ret (r, s, snd sl @ ps))"

definition trusted :: "(fs_error + Obj list) \<Rightarrow> bool" where
  "trusted r = (case r of Inl _ \<Rightarrow> True | Inr fs \<Rightarrow> list_all (\<lambda>f. plain_name (GetName f)) fs)"

definition spied :: "'s layer \<Rightarrow> ('s \<times> string list) layer" where
  "spied L = \<lparr>
     L_metas = (\<lambda>(s, _). L_metas L s),
     L_put_metas = (\<lambda>ms (s, log). (L_put_metas L ms s, log)),
     L_storage = (\<lambda>p (s, log). let (r, s) = L_storage L p s in (r, s, log)),
     L_get = (\<lambda>p d. noting [p] (L_get L p d)),
     L_list = (\<lambda>user meta p refresh d sl. outcome_bind (noting [p] (L_list L user meta p refresh d) sl)
       (\<lambda>(r, sl). if trusted r then Ret (r, sl) else Crash)),
     L_link = (\<lambda>p args. noting [p] (L_link L p args)),
     L_other = (\<lambda>p request. noting [p] (L_other L p request)),
     L_makeDir = (\<lambda>p. noting [p] (L_makeDir L p)),
     L_rename = (\<lambda>p name. noting [p, path_join [path_dir p, name]] (L_rename L p name)),
     L_remove = (\<lambda>p. noting [p] (L_remove L p)),
     L_transfer = (\<lambda>kind skipKey src dst skipHook. noting [src, dst] (L_transfer L kind skipKey src dst skipHook)),
     L_put = (\<lambda>full dir file. noting [dir, path_join [dir, fname file]] (L_put L full dir file)),
     L_purge = (\<lambda>p. noting [p] (L_purge L p)),
     L_transferTo = (\<lambda>kind src dst. noting [src, dst] (L_transferTo L kind src dst)),
     L_putTask = (\<lambda>dir file. noting [dir, path_join [dir, fname file]] (L_putTask L dir file)),
     L_directUpload = (\<lambda>tool dir name sz overwrite.
       noting [dir, path_join [dir, name]] (L_directUpload L tool dir name sz overwrite))\<rparr>"

definition noted_below :: "User \<Rightarrow> 's \<times> string list \<Rightarrow> bool" where
  "noted_below u sl \<longleftrightarrow> list_all (below (BasePath u)) (snd sl)"

lemma kept_noting: "list_all (below (BasePath u)) ps \<Longrightarrow> kept (noted_below u) (\<lambda>_. True) (noting ps f)"
  unfolding kept_def noting_def noted_below_def
  by (auto intro!: pred_bind [where P = "\<lambda>_. True"] simp: outcome.pred_True)

lemma checkRelativePath_plain: "checkRelativePath c = None \<longleftrightarrow> plain_name c"
  by (auto simp: checkRelativePath_def plain_name_def valid_comp_def split: if_splits)

lemma JoinPath_parent:
  assumes "JoinPath u q = Inr p" "\<not> is_base u p"
  shows "below (BasePath u) (path_dir p)" "below (BasePath u) (fst (path_split p))"
    and "below (BasePath u) (path_join [fst (path_split p), snd (path_split p)])"
proof -
  let ?cs = "norm (BasePath u) @ norm q"
  have p: "p = abs_path ?cs" by (rule JoinPath_below(3) [OF assms(1)])
  have v: "list_all plain_name ?cs" by (auto simp: list_all_iff plain_name_def norm_no_backslash dest: norm_valid [unfolded list_all_iff, rule_format])
  have ne: "norm (BasePath u) \<noteq> ?cs" using assms(2) p by (auto simp: is_base_def path_simps)
  note b = below_parent [OF v _ ne]
  show "below (BasePath u) (path_dir p)" "below (BasePath u) (fst (path_split p))"
    using b(1,2) p by simp_all
  show "below (BasePath u) (path_join [fst (path_split p), snd (path_split p)])"
    using b(3) p below_abs [OF v] by simp
qed

lemma with_slash_PathAdd: "with_slash p = PathAddSeparatorSuffix p"
  by (simp add: with_slash_def PathAddSeparatorSuffix_def)

lemma stays_below_ok:
  assumes "JoinPath u q = Inr dir" "no_backslash name" "stays_below (with_slash dir) (path_join [with_slash dir, name])"
  shows "below (BasePath u) (path_join [with_slash dir, name])"
proof -
  let ?d = "norm (BasePath u) @ norm q"
  let ?p = "path_join [with_slash dir, name]"
  have vd: "list_all valid_comp ?d" by simp
  have dir: "dir = abs_path ?d" "canonical dir" using JoinPath_below [OF assms(1)] by blast+
  have bs: "CHR 0x5C \<notin> set (with_slash dir @ slash # name)"
    using JoinPath_below(1) [OF assms(1)] assms(2) by (auto simp: below_def with_slash_def no_backslash_def)
  have slashed: "with_slash dir = (if ?d = [] then ''/'' else abs_path ?d @ ''/'')"
    unfolding with_slash_PathAdd dir(1) by (rule PathAddSeparatorSuffix_abs) simp
  have rooted: "hd (with_slash dir) = slash" "with_slash dir \<noteq> []"
    using dir(1) by (auto simp: with_slash_def abs_path_def)
  obtain cs where cs: "?p = abs_path cs" "list_all plain_name cs"
  proof (cases "name = []")
    case True
    have "?p = path_clean (with_slash dir)" using True rooted by (simp add: path_join_def)
    also have "\<dots> = abs_path (resolve (with_slash dir))" using rooted path_clean_rooted by (cases "with_slash dir") auto
    finally show ?thesis using that resolve_plain [of "with_slash dir"] bs by simp
  next
    case False
    have "?p = abs_path (resolve (with_slash dir @ slash # name))" by (rule path_join_rooted [OF rooted(2,1) False])
    then show ?thesis using that resolve_plain [OF bs] by simp
  qed
  have vcs: "list_all valid_comp cs" using cs(2) by (auto simp: list_all_iff plain_name_def)
  have "prefix ?d cs"
  proof (cases "?d = []")
    case False
    then have w: "with_slash dir = abs_path ?d @ ''/''" using slashed by (simp only: if_False)
    have "prefix (abs_path ?d @ ''/'') (abs_path cs @ ''/'')"
      using assms(3) unfolding stays_below_def has_prefix_prefix w cs(1) [unfolded w] .
    then consider "abs_path cs = abs_path ?d" | "prefix (abs_path ?d @ ''/'') (abs_path cs)"
      unfolding prefix_snoc append1_eq_conv by metis
    then show ?thesis
    proof cases
      case 1
      then show ?thesis using abs_path_inj [OF vcs vd] by simp
    next
      case 2
      then show ?thesis using prefix_comps [OF False vd vcs] by (simp add: strict_prefix_def)
    qed
  qed auto
  then have "prefix (norm (BasePath u)) cs" by (metis prefix_order.trans prefixI)
  from below_abs [OF cs(2) this] cs(1) show ?thesis by simp
qed

lemma below_renamed:
  assumes "below b dir" "plain_name c" "plain_name c'"
  shows "below b (path_join [path_dir (dir @ slash # c), c'])"
proof -
  have "path_dir (dir @ slash # c) = path_clean (dir @ ''/'')"
    using assms(2) path_split_append [of c dir] by (simp add: path_dir_def plain_name_def valid_comp_def)
  also have "\<dots> = abs_path (resolve dir)"
    using assms(1) path_clean_rooted resolve_join [of dir "[]"] by (cases dir) (auto simp: below_def)
  finally show ?thesis using below_join [OF below_clean [OF assms(1)] assms(3)] by simp
qed

interpretation spy: layer_contract "spied L" u "noted_below u" "below (BasePath u)" no_backslash plain_name "is_base u" for L u
proof
  show "below (BasePath u) p \<Longrightarrow>
      kept (noted_below u) (\<lambda>r. \<forall>fs. r = Inr fs \<longrightarrow> (\<forall>f\<in>set fs. plain_name (GetName f))) (L_list (spied L) user meta p refresh d)"
    for p user meta refresh d
    using kept_noting [of u "[p]" "L_list L user meta p refresh d"]
    unfolding kept_def
    by (auto simp: spied_def trusted_def list_all_iff intro!: pred_bind [where P = "\<lambda>(_, sl). noted_below u sl"] split: sum.splits)
  show "\<not> is_base u p \<Longrightarrow> JoinPath u q = Inr p \<Longrightarrow>
      below (BasePath u) (path_dir p) \<and> below (BasePath u) (fst (path_split p)) \<and>
      below (BasePath u) (path_join [fst (path_split p), snd (path_split p)])" for q p
    using JoinPath_parent by blast
qed (auto simp: spied_def noted_below_def JoinPath_below(1) below_entry below_join below_renamed stays_below_ok checkRelativePath_plain
    split_beta intro!: kept_noting)


section \<open>The server\<close>

text \<open>What a driver says about direct uploads does not change what its other operations keep.\<close>

definition offers_stable :: "'w cfg \<Rightarrow> ('w \<Rightarrow> bool) \<Rightarrow> bool" where
  "offers_stable C Inv \<longleftrightarrow>
     (\<forall>d tool dir name sz w. Inv w \<longrightarrow> Inv (snd (upload_info (backend_at C d) tool dir name sz w)))"

abbreviation sound_safe :: "'w cfg \<Rightarrow> ('w \<Rightarrow> bool) \<Rightarrow> 'w xfer \<Rightarrow> bool" where
  "sound_safe C Inv x \<equiv> sound_drivers C Inv \<and> offers_stable C Inv \<longrightarrow> safe Inv x"

lemma routed_keeps:
  assumes "\<And>d p s. Inv (world s) \<Longrightarrow> Inv (world (snd (f (backend_at C d) p s)))" "Inv (disk a)"
  shows "Inv (disk (snd (routed C path f a)))"
proof -
  obtain r a1 where r: "route C path a = (r, a1)" by fastforce
  have a1: "Inv (world (fsys_of a1))" using disk_route [of C path a] r assms(2) by simp
  show ?thesis
  proof (cases r)
    case (Inr dp)
    obtain d p where "dp = (d, p)" by fastforce
    with r Inr assms(1) [OF a1, of d p] show ?thesis by (simp add: routed_def split_beta)
  qed (use r a1 in \<open>simp add: routed_def\<close>)
qed

lemma routeE:
  obtains r a1 where "route C path a = (r, a1)" "disk a1 = disk a"
  using disk_route [of C path a] by (cases "route C path a") auto

lemma app_changes_keep:
  assumes "sound_drivers C Inv" "Inv (disk a)"
  shows "Inv (disk (snd (fs_rename C p name skip a)))" and "Inv (disk (snd (fs_remove C p a)))"
proof -
  note g = sound_driversD(1) [OF assms(1)]
  have "Inv (disk (snd (routed C p (\<lambda>b actual. op_Rename (quiet_env skip (fenv C)) b actual name) a)))"
    by (rule routed_keeps [where Inv = Inv, OF _ assms(2)]) (rule Rename_keeps [OF g])
  then show "Inv (disk (snd (fs_rename C p name skip a)))" by (simp add: fs_rename_def split_beta)
  have "Inv (disk (snd (routed C p (op_Remove (fenv C)) a)))"
    by (rule routed_keeps [where Inv = Inv, OF _ assms(2)]) (rule Remove_keeps [OF g])
  then show "Inv (disk (snd (fs_remove C p a)))" by (simp add: fs_remove_def split_beta)
qed

lemma fs_get_keeps:
  assumes "sound_drivers C Inv" "Inv (disk a)" "fs_get C p d a = Return (r, a')"
  shows "Inv (disk a')"
proof -
  obtain rt a1 where rt: "route C (FixAndCleanPath p) a = (rt, a1)" "disk a1 = disk a" by (rule routeE)
  have g: "Inv (world (snd (op_Get (fenv C) (backend_at C d') q False (fsys_of a1))))" for d' q
    using gets_keep(1) [OF sound_driversD(1) [OF assms(1)] _ prod.collapse [symmetric], of "fsys_of a1"] rt(2) assms(2) by simp
  let ?p = "FixAndCleanPath p"
  from assms(3) obtain virtual where v:
      "(if ?p = ''/'' then Return [] else virtual_of C (fst (path_split ?p)) d (snd (path_split ?p)) a) = Return virtual"
    by (auto simp: fs_get_def go_bind_eq_Return Let_def split_beta)
  show ?thesis
    by (cases "named (snd (path_split ?p)) virtual"; cases rt)
      (use assms(2,3) v rt g in \<open>auto simp: fs_get_def Let_def split_beta split: if_splits\<close>)
qed

lemma fs_list_keeps:
  assumes "sound_drivers C Inv" "Inv (disk a)" "fs_list C user meta p refresh d a = Return (r, a')"
  shows "Inv (disk a')"
proof -
  obtain rt a1 where rt: "route C p a = (rt, a1)" "disk a1 = disk a" by (rule routeE)
  obtain stored a2 where s: "(case rt of Inl e \<Rightarrow> (Inl e, a1)
      | Inr (d, actual) \<Rightarrow>
          (let (r, s) = op_List (fenv C) (backend_at C d) actual refresh False (fsys_of a1) in (r, put_fsys s a1)))
      = (stored, a2)" by fastforce
  have a2: "Inv (disk a2)"
    using op_List_keeps [OF sound_driversD(1) [OF assms(1)], of "fsys_of a1"] rt(2) assms(2) s
    by (auto simp: split_beta split: sum.splits prod.splits)
  from assms(3) obtain virtual where v: "virtual_of C p d [] a = Return virtual"
    by (auto simp: fs_list_def go_bind_eq_Return)
  have "disk a' = disk a2"
    using assms(3) by (cases stored; cases virtual) (auto simp: fs_list_def v rt(1) s go_bind_eq_Return split_beta Let_def)
  with a2 show ?thesis by simp
qed

lemma fs_makeDir_keeps:
  assumes "sound_drivers C Inv" "Inv (disk a)" "fs_makeDir C p a = Some (r, a')"
  shows "Inv (disk a')"
proof -
  obtain rt a1 where rt: "route C p a = (rt, a1)" "disk a1 = disk a" by (rule routeE)
  have m: "MakeDir (fenv C) (backend_at C d) q (fsys_of a1) = Some (e, s) \<Longrightarrow> Inv (world s)" for d q e s
    using MakeDir_keeps [OF sound_driversD(1) [OF assms(1)], of "fsys_of a1"] rt(2) assms(2) by simp
  show ?thesis using assms(2,3) rt m by (cases rt) (auto simp: fs_makeDir_def split_beta)
qed

lemma putDirectly_keeps:
  assumes "sound_drivers C Inv" "Inv (disk a)" "putDirectly C full dir file skip a = Some (r, a')"
  shows "Inv (disk a')"
proof -
  obtain rt a1 where rt: "route C dir a = (rt, a1)" "disk a1 = disk a" by (rule routeE)
  have m: "op_Put env (backend_at C d) full q f (fsys_of a1) = Some (e, s) \<Longrightarrow> Inv (world s)" for env d q f e s
    using Put_keeps [OF sound_driversD(1) [OF assms(1)], of "fsys_of a1" env d full q f] rt(2) assms(2) by simp
  show ?thesis using assms(2,3) rt m by (cases rt) (auto simp: putDirectly_def split_beta split: if_splits)
qed

lemma direct_upload_keeps:
  assumes "sound_drivers C Inv" "offers_stable C Inv" "Inv (disk a)"
    and "getDirectUploadInfo C tool dir name sz overwrite a = Some (r, a')"
  shows "Inv (disk a')"
proof -
  obtain rt a1 where rt: "route C dir a = (rt, a1)" "disk a1 = disk a" by (rule routeE)
  note g = sound_driversD(1) [OF assms(1)]
  have a1: "Inv (world (fsys_of a1))" using rt(2) assms(3) by simp
  have m: "Inv (world s)" if "GetDirectUploadInfo (fenv C) (backend_at C d) tool q name sz overwrite (fsys_of a1) = Some (e, s)" for d q e s
  proof -
    let ?b = "backend_at C d" and ?q = "FixAndCleanPath q"
    obtain taken s1 where t: "(if overwrite then (None, fsys_of a1)
         else (case op_Get (fenv C) ?b (path_join [?q, name]) False (fsys_of a1) of
                 (Inr _, st) \<Rightarrow> (Some ObjectAlreadyExists, st)
               | (Inl e, st) \<Rightarrow> (if e \<noteq> ObjectNotFound then Some e else None, st))) = (taken, s1)" by fastforce
    have s1: "Inv (world s1)"
      using t a1 gets_keep(1) [OF g a1] by (auto split: if_splits prod.splits sum.splits)
    have up: "Inv (snd (upload_info ?b tool obj name sz w))" if "Inv w" for obj w
      using assms(2) that by (simp add: offers_stable_def)
    show ?thesis
    proof (cases "MakeDir (fenv C) ?b ?q s1")
      case (Some es)
      obtain e2 s2 where m2: "MakeDir (fenv C) ?b ?q s1 = Some (e2, s2)" using Some by (cases es) auto
      note s2 = MakeDir_keeps [OF g s1 m2]
      obtain r3 s3 where g3: "GetUnwrap (fenv C) ?b ?q s2 = (r3, s3)" by fastforce
      note s3 = gets_keep(2) [OF g s2 g3]
      from that a1 t s1 m2 s2 g3 s3 up show ?thesis
        by (cases taken; cases e2; cases r3) (auto simp: GetDirectUploadInfo_def split_beta split: if_splits)
    qed (use that a1 t s1 in \<open>auto simp: GetDirectUploadInfo_def Let_def split: if_splits option.splits\<close>)
  qed
  show ?thesis using assms(3,4) rt m by (cases rt) (auto simp: getDirectUploadInfo_def split_beta)
qed

lemma putAsTask_keeps: "putAsTask C dir file x = (e, x') \<Longrightarrow> safe Inv x \<Longrightarrow> safe Inv x'"
proof -
  assume p: "putAsTask C dir file x = (e, x')" and x: "safe Inv x"
  obtain rt x1 where rt: "route_x C dir x = (rt, x1)" by fastforce
  have "disk (app x1) = disk (app x)" using disk_route_x [of C dir x] rt by simp
  with p x rt show "safe Inv x'" by (cases rt) (auto simp: putAsTask_def split_beta Let_def split: if_splits)
qed

interpretation server: layer_contract "server_layer n C tries seekable" u "sound_safe C Inv" "\<lambda>_. True" "\<lambda>_. True" "\<lambda>_. True" "\<lambda>_. False"
  for n C tries seekable u Inv
proof
  show "kept (sound_safe C Inv) (\<lambda>_. True) (L_get (server_layer n C tries seekable) p d)" for p d
    using fs_get_keeps [of C Inv] by (fastforce simp: kept_def server_layer_def on_app_go_def split: go.split prod.split)
  show "kept (sound_safe C Inv) (\<lambda>r. \<forall>fs. r = Inr fs \<longrightarrow> (\<forall>f \<in> set fs. True)) (L_list (server_layer n C tries seekable) user meta p refresh d)"
    for user meta p refresh d
    using fs_list_keeps [of C Inv] by (fastforce simp: kept_def server_layer_def on_app_go_def split: go.split prod.split)
  show "kept (sound_safe C Inv) (\<lambda>_. True) (L_makeDir (server_layer n C tries seekable) p)" for p
    using fs_makeDir_keeps [of C Inv] by (fastforce simp: kept_def server_layer_def on_app_opt_def split: option.split prod.split)
  show "kept (sound_safe C Inv) (\<lambda>_. True) (L_rename (server_layer n C tries seekable) p name)" for p name
    using app_changes_keep(1) [of C Inv] by (simp add: kept_def server_layer_def on_app_def split_beta)
  show "kept (sound_safe C Inv) (\<lambda>_. True) (L_remove (server_layer n C tries seekable) p)" for p
    using app_changes_keep(2) [of C Inv] by (simp add: kept_def server_layer_def on_app_def split_beta)
  show "kept (sound_safe C Inv) (\<lambda>_. True) (L_transfer (server_layer n C tries seekable) kind skipKey src dst skipHook)"
    for kind skipKey src dst skipHook
    unfolding kept_def server_layer_def layer.simps server_transfer_def
  proof (intro allI impI)
    fix x assume x: "sound_safe C Inv x"
    show "pred_outcome (\<lambda>(r, x). sound_safe C Inv x \<and> True)
        (outcome_bind (transfer n C tries seekable False skipKey kind src dst [] skipHook x)
          (\<lambda>(e, x'). Ret (case e of Some e \<Rightarrow> Inl e | None \<Rightarrow> Inr (length (queued x) < length (queued x')), x')))"
    proof (cases "sound_drivers C Inv \<and> offers_stable C Inv")
      case True
      with x have "safe Inv x" by simp
      from transfer_keeps [OF conjunct1 [OF True] this, of n tries seekable False skipKey kind src dst "[]" skipHook]
      show ?thesis by (rule pred_bind) auto
    next
      case False
      then show ?thesis by (auto intro!: pred_bind [where P = "\<lambda>_. True"] simp: outcome.pred_True)
    qed
  qed
  show "kept (sound_safe C Inv) (\<lambda>_. True) (L_transferTo (server_layer n C tries seekable) kind src dst)" for kind src dst
    unfolding kept_def server_layer_def layer.simps
  proof (intro allI impI)
    fix x assume x: "sound_safe C Inv x"
    let ?t = "transfer n C tries seekable True False kind src (path_dir dst) (path_base dst) False x"
    show "pred_outcome (\<lambda>(r, x). sound_safe C Inv x \<and> True) ?t"
    proof (cases "sound_drivers C Inv \<and> offers_stable C Inv")
      case True
      with x have "safe Inv x" by simp
      from transfer_keeps [OF conjunct1 [OF True] this, of n tries seekable True False kind src "path_dir dst" "path_base dst" False]
      show ?thesis by (rule outcome.pred_mono_strong) auto
    next
      case False
      then show ?thesis by (cases ?t) auto
    qed
  qed
  show "kept (sound_safe C Inv) (\<lambda>_. True) (L_put (server_layer n C tries seekable) full dir f)" for full dir f
    by (auto simp: kept_def server_layer_def server_put_def split: option.split go.split dest: putDirectly_keeps [where Inv = Inv])
  show "kept (sound_safe C Inv) (\<lambda>_. True) (L_putTask (server_layer n C tries seekable) dir f)" for dir f
    by (auto simp: kept_def server_layer_def split: prod.split dest: putAsTask_keeps [where Inv = Inv])
  show "kept (sound_safe C Inv) (\<lambda>_. True) (L_directUpload (server_layer n C tries seekable) tool dir name sz overwrite)"
    for tool dir name sz overwrite
    using direct_upload_keeps [of C Inv] by (fastforce simp: kept_def server_layer_def on_app_opt_def split: option.split prod.split)
qed (auto simp: server_layer_def fs_GetStorage_def split_beta split: sum.split)

text \<open>C21: Requests respect the masks of objects: a property of the storages that their drivers keep when they
  are read, when they say what a direct upload needs and when they change unprotected objects is kept
  by every sequence of requests, whatever their users and contents.\<close>
theorem requests_respect_masks:
  assumes "sound_drivers C Inv" and "offers_stable C Inv" and "Inv (disk (app x))"
  shows "pred_outcome (\<lambda>x'. Inv (disk (app x'))) (serve_all m compile ignore (server_layer n C tries seekable) requests x)"
  using assms(3)
proof (induction requests arbitrary: x)
  case (Cons ur rs)
  obtain u r where ur: "ur = (u, r)" by fastforce
  have "sound_safe C Inv = safe Inv" using assms(1,2) by (simp add: fun_eq_iff)
  moreover have "holds (sound_safe C Inv) (\<lambda>_. True) (serve_fs m compile ignore (server_layer n C tries seekable) (Some u) r)"
    by (rule server.serve_keeps) simp_all
  ultimately have "kept (safe Inv) (\<lambda>_. True) (serve_fs m compile ignore (server_layer n C tries seekable) (Some u) r)"
    by (simp add: holds_def)
  then have "pred_outcome (\<lambda>(_, x). safe Inv x) (serve_fs m compile ignore (server_layer n C tries seekable) (Some u) r x)"
    using Cons.prems by (simp add: kept_def)
  then show ?case
    unfolding ur serve_all.simps by (rule pred_bind) (use Cons.IH in auto)
qed simp

section \<open>Examples\<close>

text \<open>A request on a layer that is spied on, with what was asked for: whether it succeeded, the paths noted,
  and the names and kinds of the changes the drivers were asked to make.\<close>

definition attempt ::
  "demo_log cfg \<Rightarrow> demo_log xfer \<Rightarrow> User \<Rightarrow> request \<Rightarrow> (bool \<times> string list \<times> (string \<times> mask) list) option" where
  "attempt C x u r =
     (case serve_fs 9 (\<lambda>_. None) False (spied (server_layer 9 C 1 (\<lambda>_. True))) (Some u) r (x, []) of
        Ret (answered, x, log) \<Rightarrow>
          Some ((case answered of Inl _ \<Rightarrow> False | Inr _ \<Rightarrow> True), log, map (\<lambda>(obj, m). (GetName obj, m)) (disk (app x)))
      | _ \<Rightarrow> None)"

definition user_at :: "string \<Rightarrow> User" where
  "user_at dir = demo_user\<lparr>BasePath := dir, Permission := 0xFE\<rparr>"

definition removal :: "string list \<Rightarrow> request" where
  "removal names = Remove (Some \<lparr>RemoveDir = ''/'', RemoveNames = names\<rparr>)"

definition copying :: "string list \<Rightarrow> request" where
  "copying names = Copy (Some \<lparr>SrcDir = ''/'', DstDir = ''/'', Names = names, Overwrite = True, SkipExistingReq = False,
     MergeReq = False\<rparr>)"

definition renaming :: "string \<Rightarrow> string \<Rightarrow> request" where
  "renaming path name = Rename (Some \<lparr>RenamePath = path, RenameName = name, RenameOverwrite = False\<rparr>)"

definition uploading :: "string \<Rightarrow> request" where
  "uploading path = PutStream \<lparr>FilePath = path, AsTask = [], OverwriteHeader = [], ContentLength = 3, XFileSize = [],
     LastModified = ''0'', form_file = None, upload_now = 0, body_size = 3\<rparr>"

text \<open>A backslash is written as a bar.\<close>

definition barred :: "string \<Rightarrow> string" where
  "barred = map (\<lambda>c. if c = CHR ''|'' then CHR 0x5C else c)"


lemma requests_respect_masks_witness:
  "pred_outcome (\<lambda>x'. unlocked (disk (app x')))
     (serve_all 9 (\<lambda>_. None) False (server_layer 9 demo_cfg 1 (\<lambda>_. True)) [(user_at ''/n'', removal [''d''])] demo_xfer)"
proof -
  have "offers_stable demo_cfg unlocked"
    by (simp add: offers_stable_def backend_at_def demo_cfg_def src_backend_def dst_backend_def demo_backend_def)
  moreover have "unlocked (disk (app demo_xfer))" by (simp add: demo_xfer_def unlocked_def)
  ultimately show ?thesis by (rule requests_respect_masks [OF demo_sound])
qed



text \<open>A storage whose folder \<open>ro\<close> holds one file, \<open>c\<close>, that a rule hides from the user.\<close>

definition hidden_file :: "demo_log xfer" where
  "hidden_file = \<lparr>app = demo_app\<lparr>metas := \<lparr>rows = [hiding_meta\<lparr>Hide := ''c'', HSub := True\<rparr>], down = False, cache = \<lambda>_. None\<rparr>\<rparr>,
     coordinator = NewTaskGroupCoordinator, queued = [], uploads = []\<rparr>"

text \<open>The handler that removes empty folders takes a folder for empty when its listing for the user is: a
  folder that holds a file hidden from the user is removed with the file.\<close>
theorem hidden_file_removed:
  "stored_at plain_cfg ''/m/ro'' False (app hidden_file) \<noteq> [] \<and>
   attempt plain_cfg hidden_file (user_at ''/m'') (RemoveEmpty (Some ''/'')) =
     Some (True, [''/m'', ''/m/ro'', ''/m/ro''], [(''ro'', NoRemove)])"
  by code_simp

end
