(* ===== verification/DavXml.thy ===== *)
theory DavXml
  imports FsHandlers IfHeader
begin

text \<open>
  \<open>server/webdav/xml.go\<close> and \<open>prop.go\<close>: what a WebDAV body asks for, the text written back and the live
  properties of an object.  The decoder of XML is the library's, so a body is given as what decoding it
  yields; the checks on the decoded values, the escaping of text and the properties are the code's.
\<close>

section \<open>Escaping\<close>

text \<open>\<open>utf8.DecodeRune\<close>: the code point at the front and its width, with U+FFFD of width 1 where the
  bytes are no UTF-8.\<close>

definition invalid_rune :: "nat \<times> nat" where
  "invalid_rune = (0xFFFD, 1)"

definition decode_rune :: "string \<Rightarrow> nat \<times> nat" where
  "decode_rune s =
     (case map byte (take 4 s) of
        [] \<Rightarrow> (0xFFFD, 0)
      | b # bs \<Rightarrow>
          let tail = (\<lambda>i lo hi. i < length bs \<and> lo \<le> bs ! i \<and> bs ! i \<le> hi) in
          if b < 0x80 then (b, 1)
          else if 0xC2 \<le> b \<and> b \<le> 0xDF \<and> tail 0 0x80 0xBF then ((b mod 32) * 64 + bs ! 0 mod 64, 2)
          else if 0xE0 \<le> b \<and> b \<le> 0xEF \<and>
              tail 0 (if b = 0xE0 then 0xA0 else 0x80) (if b = 0xED then 0x9F else 0xBF) \<and> tail 1 0x80 0xBF
          then ((b mod 16) * 4096 + (bs ! 0 mod 64) * 64 + bs ! 1 mod 64, 3)
          else if 0xF0 \<le> b \<and> b \<le> 0xF4 \<and>
              tail 0 (if b = 0xF0 then 0x90 else 0x80) (if b = 0xF4 then 0x8F else 0xBF) \<and> tail 1 0x80 0xBF \<and> tail 2 0x80 0xBF
          then ((b mod 8) * 262144 + (bs ! 0 mod 64) * 4096 + (bs ! 1 mod 64) * 64 + bs ! 2 mod 64, 4)
          else invalid_rune)"

definition isInCharacterRange :: "nat \<Rightarrow> bool" where
  "isInCharacterRange r \<longleftrightarrow>
     r = 0x09 \<or> r = 0x0A \<or> r = 0x0D \<or> 0x20 \<le> r \<and> r \<le> 0xDF77 \<or> 0xE000 \<le> r \<and> r \<le> 0xFFFD \<or>
     0x10000 \<le> r \<and> r \<le> 0x10FFFF"

text \<open>What a code point is replaced with, if it is.\<close>

definition escape_of :: "bool \<Rightarrow> nat \<times> nat \<Rightarrow> string option" where
  "escape_of escapeNewline rw =
     (let (r, width) = rw
      in if r = 0x22 then Some ''&#34;''
         else if r = 0x27 then Some ''&#39;''
         else if r = 0x26 then Some ''&amp;''
         else if r = 0x3C then Some ''&lt;''
         else if r = 0x3E then Some ''&gt;''
         else if r = 0x09 then Some ''&#x9;''
         else if r = 0x0A then if escapeNewline then Some ''&#xA;'' else None
         else if r = 0x0D then Some ''&#xD;''
         else if \<not> isInCharacterRange r \<or> r = 0xFFFD \<and> width = 1 then Some [CHR 0xEF, CHR 0xBF, CHR 0xBD]
         else None)"

lemma decode_rune_width: "s \<noteq> [] \<Longrightarrow> 0 < snd (decode_rune s) \<and> snd (decode_rune s) \<le> length s"
  by (cases s; cases "tl s"; cases "tl (tl s)"; cases "tl (tl (tl s))")
    (auto simp: decode_rune_def invalid_rune_def Let_def split: if_splits)

function escapeText :: "bool \<Rightarrow> string \<Rightarrow> string" where
  "escapeText escapeNewline s =
     (if s = [] then []
      else
        let w = snd (decode_rune s)
        in (case escape_of escapeNewline (decode_rune s) of None \<Rightarrow> take w s | Some e \<Rightarrow> e) @
           escapeText escapeNewline (drop w s))"
  by pat_completeness auto

termination
  by (relation "measure (\<lambda>(_, s). length s)") (use decode_rune_width in \<open>auto simp: less_le_trans\<close>)

declare escapeText.simps [simp del]

definition escape :: "string \<Rightarrow> string" where
  "escape s =
     (if \<exists>c \<in> set s. c \<in> {CHR 0x22, CHR ''&'', CHR 0x27, CHR ''<'', CHR ''>''} then escapeText True s else s)"

text \<open>The letters, digits and signs that \<open>escapeXML\<close> passes without a look at the rest.\<close>

definition plain_xml :: "char \<Rightarrow> bool" where
  "plain_xml c \<longleftrightarrow>
     c = CHR '' '' \<or> c = CHR ''_'' \<or> (43 \<le> byte c \<and> byte c \<le> 57) \<or> (65 \<le> byte c \<and> byte c \<le> 90) \<or>
     (97 \<le> byte c \<and> byte c \<le> 122)"

definition escapeXML :: "string \<Rightarrow> string" where
  "escapeXML s = (if list_all plain_xml s then s else escapeText True s)"

section \<open>Bodies\<close>

text \<open>What \<open>Decode\<close> gives: the value, the end of the body after so many bytes read, or another error.\<close>

datatype 'a decoded = Decoded 'a | BodyEnded nat | BadXml

type_synonym xml_name = "string \<times> string"

record lockInfo =
  li_exclusive :: bool
  li_shared :: bool
  li_write :: bool
  li_owner :: string

definition no_lockInfo :: lockInfo where
  "no_lockInfo = \<lparr>li_exclusive = False, li_shared = False, li_write = False, li_owner = []\<rparr>"

definition readLockInfo :: "lockInfo decoded \<Rightarrow> nat + lockInfo" where
  "readLockInfo body =
     (case body of
        BodyEnded n \<Rightarrow> if n = 0 then Inr no_lockInfo else Inl 400
      | BadXml \<Rightarrow> Inl 400
      | Decoded li \<Rightarrow> if \<not> li_exclusive li \<or> li_shared li \<or> \<not> li_write li then Inl 501 else Inr li)"

text \<open>A list of names that is not there is empty: decoding refuses an empty element.\<close>

record propfind =
  pf_allprop :: bool
  pf_propname :: bool
  pf_prop :: "xml_name list"
  pf_include :: "xml_name list"

definition readPropfind :: "propfind decoded \<Rightarrow> nat + propfind" where
  "readPropfind body =
     (case body of
        BodyEnded n \<Rightarrow>
          if n = 0 then Inr \<lparr>pf_allprop = True, pf_propname = False, pf_prop = [], pf_include = []\<rparr> else Inl 400
      | BadXml \<Rightarrow> Inl 400
      | Decoded pf \<Rightarrow>
          if \<not> pf_allprop pf \<and> pf_include pf \<noteq> [] then Inl 400
          else if pf_allprop pf \<and> (pf_prop pf \<noteq> [] \<or> pf_propname pf) then Inl 400
          else if pf_prop pf \<noteq> [] \<and> pf_propname pf then Inl 400
          else if \<not> pf_propname pf \<and> \<not> pf_allprop pf \<and> pf_prop pf = [] then Inl 400
          else Inr pf)"

record Property =
  prop_name :: xml_name
  prop_lang :: string
  prop_xml :: string

record Proppatch =
  patch_remove :: bool
  patch_props :: "Property list"

text \<open>The elements of a property update with their names, in order.\<close>

fun read_updates :: "(xml_name \<times> Property list) list \<Rightarrow> nat + Proppatch list" where
  "read_updates [] = Inr []"
| "read_updates ((name, ps) # rest) =
     (if name = (''DAV:'', ''set'') then map_sum (\<lambda>e. e) ((#) \<lparr>patch_remove = False, patch_props = ps\<rparr>) (read_updates rest)
      else if name = (''DAV:'', ''remove'') then
        (if \<exists>p \<in> set ps. prop_xml p \<noteq> [] then Inl 400
         else map_sum (\<lambda>e. e) ((#) \<lparr>patch_remove = True, patch_props = ps\<rparr>) (read_updates rest))
      else Inl 400)"

definition readProppatch :: "(xml_name \<times> Property list) list decoded \<Rightarrow> nat + Proppatch list" where
  "readProppatch body = (case body of Decoded us \<Rightarrow> read_updates us | _ \<Rightarrow> Inl 400)"

definition xmlLang :: "(xml_name \<times> string) list \<Rightarrow> string \<Rightarrow> string" where
  "xmlLang attrs d =
     (case find (\<lambda>(n, _). n = (''http://www.w3.org/XML/1998/namespace'', ''lang'')) attrs of
        Some (_, v) \<Rightarrow> v | None \<Rightarrow> d)"

section \<open>What \<open>LOCK\<close> writes back\<close>

text \<open>Go's division of integers rounds towards zero.\<close>

definition go_div :: "int \<Rightarrow> int \<Rightarrow> int" where
  "go_div a b = (if a < 0 then - (- a div b) else a div b)"

definition quote_mark :: string where
  "quote_mark = [CHR 0x22]"

abbreviation nl :: string where
  "nl \<equiv> [CHR 0x0A]"

abbreviation tb :: string where
  "tb \<equiv> [CHR 0x09]"

definition writeLockInfo :: "string \<Rightarrow> LockDetails \<Rightarrow> string" where
  "writeLockInfo tok ld =
     ''<?xml version='' @ quote_mark @ ''1.0'' @ quote_mark @ '' encoding='' @ quote_mark @ ''utf-8'' @ quote_mark @ ''?>'' @ nl @
     ''<D:prop xmlns:D='' @ quote_mark @ ''DAV:'' @ quote_mark @ ''><D:lockdiscovery><D:activelock>'' @ nl @
     tb @ ''<D:locktype><D:write/></D:locktype>'' @ nl @
     tb @ ''<D:lockscope><D:exclusive/></D:lockscope>'' @ nl @
     tb @ ''<D:depth>'' @ (if ZeroDepth ld then ''0'' else ''infinity'') @ ''</D:depth>'' @ nl @
     tb @ ''<D:owner>'' @ OwnerXML ld @ ''</D:owner>'' @ nl @
     tb @ ''<D:timeout>Second-'' @ show_int (go_div (Duration ld) 1000000000) @ ''</D:timeout>'' @ nl @
     tb @ ''<D:locktoken><D:href>'' @ escape tok @ ''</D:href></D:locktoken>'' @ nl @
     tb @ ''<D:lockroot><D:href>'' @ escape (Root ld) @ ''</D:href></D:lockroot>'' @ nl @
     ''</D:activelock></D:lockdiscovery></D:prop>''"

section \<open>Live properties\<close>

text \<open>What the properties take from outside: the two formats of \<open>time\<close>, the type of a file name, the
  agent of the request in lower case.\<close>

record prop_env =
  http_time :: "int \<Rightarrow> string"
  rfc3339 :: "int \<Rightarrow> string"
  mime_of :: "string \<Rightarrow> string"
  agent :: string

text \<open>\<open>%x\<close> of an integer.\<close>

fun hex_nat :: "nat \<Rightarrow> string" where
  "hex_nat n = (if n < 16 then [''0123456789abcdef'' ! n] else hex_nat (n div 16) @ [''0123456789abcdef'' ! (n mod 16)])"

declare hex_nat.simps [simp del]

definition hex_int :: "int \<Rightarrow> string" where
  "hex_int i = (if i < 0 then CHR ''-'' # hex_nat (nat (- i)) else hex_nat (nat i))"

definition Unix :: "int \<Rightarrow> int" where
  "Unix t = (t - epoch) div 1000000000"

text \<open>The byte order of Go strings.\<close>

fun less_bytes :: "string \<Rightarrow> string \<Rightarrow> bool" where
  "less_bytes _ [] \<longleftrightarrow> False"
| "less_bytes [] (_ # _) \<longleftrightarrow> True"
| "less_bytes (a # s) (b # t) \<longleftrightarrow> byte a < byte b \<or> a = b \<and> less_bytes s t"

definition GetEtag :: "Obj \<Rightarrow> int \<Rightarrow> string" where
  "GetEtag file sz =
     (let hash = foldl (\<lambda>hash (_, v). if less_bytes hash v then v else hash) [] (HashInfo (base file))
      in if hash \<noteq> [] then quote_mark @ hash @ quote_mark
         else quote_mark @ hex_int (Unix (ModTime file)) @ ''-'' @ hex_int sz @ quote_mark)"

definition findETag :: "Obj \<Rightarrow> string" where
  "findETag fi = GetEtag fi (GetSize fi)"

definition findResourceType :: "Obj \<Rightarrow> string" where
  "findResourceType fi = (if IsDir fi then ''<D:collection xmlns:D='' @ quote_mark @ ''DAV:'' @ quote_mark @ ''/>'' else [])"

definition findDisplayName :: "string \<Rightarrow> Obj \<Rightarrow> string" where
  "findDisplayName name fi = (if slashClean name = ''/'' then [] else escapeXML (GetName fi))"

definition findContentLength :: "Obj \<Rightarrow> string" where
  "findContentLength fi = show_int (GetSize fi)"

definition findLastModified :: "prop_env \<Rightarrow> Obj \<Rightarrow> string" where
  "findLastModified E fi = http_time E (ModTime fi)"

definition findCreationDate :: "prop_env \<Rightarrow> Obj \<Rightarrow> string" where
  "findCreationDate E fi =
     (if contains_str (agent E) ''microsoft-webdav'' then http_time E (CreateTime fi) else rfc3339 E (CreateTime fi))"

definition findContentType :: "prop_env \<Rightarrow> string \<Rightarrow> string" where
  "findContentType E name = mime_of E name"

definition findSupportedLock :: string where
  "findSupportedLock =
     ''<D:lockentry xmlns:D='' @ quote_mark @ ''DAV:'' @ quote_mark @ ''>'' @
     ''<D:lockscope><D:exclusive/></D:lockscope>'' @ ''<D:locktype><D:write/></D:locktype>'' @ ''</D:lockentry>''"

definition findChecksums :: "Obj \<Rightarrow> string" where
  "findChecksums fi = concat (map (\<lambda>(k, v). ''<checksum>'' @ k @ '':'' @ v @ ''</checksum>'') (HashInfo (base fi)))"

text \<open>The table \<open>liveProps\<close>, in the order of one iteration: the value of a property, \<open>None\<close> where it is
  hidden, and whether it applies to folders.\<close>

definition liveProps :: "prop_env \<Rightarrow> (xml_name \<times> (Obj \<Rightarrow> string) option \<times> bool) list" where
  "liveProps E =
     [((''DAV:'', ''resourcetype''), Some findResourceType, True),
      ((''DAV:'', ''displayname''), Some (\<lambda>fi. findDisplayName (GetName fi) fi), True),
      ((''DAV:'', ''getcontentlength''), Some findContentLength, False),
      ((''DAV:'', ''getlastmodified''), Some (findLastModified E), True),
      ((''DAV:'', ''creationdate''), Some (findCreationDate E), True),
      ((''DAV:'', ''getcontentlanguage''), None, False),
      ((''DAV:'', ''getcontenttype''), Some (\<lambda>fi. findContentType E (GetName fi)), False),
      ((''DAV:'', ''getetag''), Some findETag, False),
      ((''DAV:'', ''lockdiscovery''), None, False),
      ((''DAV:'', ''supportedlock''), Some (\<lambda>_. findSupportedLock), True),
      ((''http://owncloud.org/ns'', ''checksums''), Some findChecksums, False)]"

record Propstat =
  ps_props :: "Property list"
  ps_status :: nat
  ps_error :: string

definition makePropstats :: "Propstat \<Rightarrow> Propstat \<Rightarrow> Propstat list" where
  "makePropstats x y =
     (let pstats = (if ps_props x \<noteq> [] then [x] else []) @ (if ps_props y \<noteq> [] then [y] else [])
      in if pstats = [] then [\<lparr>ps_props = [], ps_status = 200, ps_error = []\<rparr>] else pstats)"

definition bare :: "xml_name \<Rightarrow> Property" where
  "bare pn = \<lparr>prop_name = pn, prop_lang = [], prop_xml = []\<rparr>"

text \<open>The value of a property for an object: nothing where it does not apply.\<close>

definition live_value :: "prop_env \<Rightarrow> Obj \<Rightarrow> xml_name \<Rightarrow> string option" where
  "live_value E fi pn =
     (case map_of (liveProps E) pn of
        Some (Some findFn, dir) \<Rightarrow> if dir \<or> \<not> IsDir fi then Some (findFn fi) else None
      | _ \<Rightarrow> None)"

definition props :: "prop_env \<Rightarrow> Obj \<Rightarrow> xml_name list \<Rightarrow> Propstat list" where
  "props E fi pnames =
     (let (ok, missing) = foldl (\<lambda>(ok, missing) pn.
            case live_value E fi pn of
              Some x \<Rightarrow> (ok @ [(bare pn)\<lparr>prop_xml := x\<rparr>], missing)
            | None \<Rightarrow> (ok, missing @ [bare pn])) ([], []) pnames
      in makePropstats \<lparr>ps_props = ok, ps_status = 200, ps_error = []\<rparr> \<lparr>ps_props = missing, ps_status = 404, ps_error = []\<rparr>)"

definition propnames :: "prop_env \<Rightarrow> Obj \<Rightarrow> xml_name list" where
  "propnames E fi = map fst (filter (\<lambda>(_, findFn, dir). findFn \<noteq> None \<and> (dir \<or> \<not> IsDir fi)) (liveProps E))"

text \<open>The names to add are tested against the names of the object alone, so a name given twice is added twice.\<close>

definition allprop :: "prop_env \<Rightarrow> Obj \<Rightarrow> xml_name list \<Rightarrow> Propstat list" where
  "allprop E fi incl = (let pnames = propnames E fi in props E fi (pnames @ filter (\<lambda>pn. pn \<notin> set pnames) incl))"

definition is_live :: "prop_env \<Rightarrow> Property \<Rightarrow> bool" where
  "is_live E p \<longleftrightarrow> map_of (liveProps E) (prop_name p) \<noteq> None"

definition patch :: "prop_env \<Rightarrow> Proppatch list \<Rightarrow> Propstat list" where
  "patch E patches =
     (let all = concat (map patch_props patches); stripped = map (\<lambda>p. bare (prop_name p))
      in if list_ex (is_live E) all
         then makePropstats
           \<lparr>ps_props = stripped (filter (is_live E) all), ps_status = 403,
            ps_error = ''<D:cannot-modify-protected-property xmlns:D='' @ quote_mark @ ''DAV:'' @ quote_mark @ ''/>''\<rparr>
           \<lparr>ps_props = stripped (filter (\<lambda>p. \<not> is_live E p) all), ps_status = 424, ps_error = []\<rparr>
         else [\<lparr>ps_props = stripped all, ps_status = 403, ps_error = []\<rparr>])"

end
