(* ===== verification/WebDav.thy ===== *)
theory WebDav
  imports DavXml
begin

text \<open>
  \<open>server/webdav/webdav.go\<close>, \<open>file.go\<close> and \<open>util.go\<close>: the WebDAV handler.  Its state is the file layer
  under it and the lock system; a handler answers with a status and whether an error goes with it
  (\<open>Inl\<close>), or with a status and a body (\<open>Inr\<close>), status 0 meaning that the body has been written.
  \<open>url.Parse\<close>, the formats of \<open>time\<close>, the random bytes of a backup name and the proxy that sends a file are
  parameters.
\<close>

section \<open>State and requests\<close>

record 's dav =
  dav_files :: 's
  dav_locks :: memLS

definition on_files :: "('s \<Rightarrow> ('a \<times> 's) outcome) \<Rightarrow> 's dav \<Rightarrow> ('a \<times> 's dav) outcome" where
  "on_files f st = outcome_bind (f (dav_files st)) (\<lambda>(r, s). Ret (r, st\<lparr>dav_files := s\<rparr>))"

definition on_locks :: "(memLS \<Rightarrow> ('a \<times> memLS) go) \<Rightarrow> 's dav \<Rightarrow> ('a \<times> 's dav) outcome" where
  "on_locks f st = (case f (dav_locks st) of Panic \<Rightarrow> Crash | Return (r, m) \<Rightarrow> Ret (r, st\<lparr>dav_locks := m\<rparr>))"

text \<open>The file layer as it is seen from here.\<close>

definition dav_layer :: "'s layer \<Rightarrow> 's dav layer" where
  "dav_layer L = \<lparr>
     L_metas = (\<lambda>st. L_metas L (dav_files st)),
     L_put_metas = (\<lambda>ms st. st\<lparr>dav_files := L_put_metas L ms (dav_files st)\<rparr>),
     L_storage = (\<lambda>p st. let (r, s) = L_storage L p (dav_files st) in (r, st\<lparr>dav_files := s\<rparr>)),
     L_get = (\<lambda>p d. on_files (L_get L p d)),
     L_list = (\<lambda>user meta p refresh d. on_files (L_list L user meta p refresh d)),
     L_link = (\<lambda>p args. on_files (L_link L p args)),
     L_other = (\<lambda>p request. on_files (L_other L p request)),
     L_makeDir = (\<lambda>p. on_files (L_makeDir L p)),
     L_rename = (\<lambda>p name. on_files (L_rename L p name)),
     L_remove = (\<lambda>p. on_files (L_remove L p)),
     L_transfer = (\<lambda>kind skipKey src dst skipHook. on_files (L_transfer L kind skipKey src dst skipHook)),
     L_put = (\<lambda>full dir file. on_files (L_put L full dir file)),
     L_purge = (\<lambda>p. on_files (L_purge L p)),
     L_transferTo = (\<lambda>kind src dst. on_files (L_transferTo L kind src dst)),
     L_putTask = (\<lambda>dir file. on_files (L_putTask L dir file)),
     L_directUpload = (\<lambda>tool dir name sz overwrite. on_files (L_directUpload L tool dir name sz overwrite))\<rparr>"

text \<open>\<open>url_parse\<close> gives the host and the path; \<open>proxied\<close> is the status of a failed proxy.\<close>

record dav_env =
  Prefix :: string
  url_parse :: "string \<Rightarrow> (string \<times> string) option"
  ignore_system :: bool
  pattern :: "string \<Rightarrow> string \<Rightarrow> bool option"
  random_hex :: "nat \<Rightarrow> string"
  formats :: prop_env
  lower_case :: "string \<Rightarrow> string"
  signature :: "string \<Rightarrow> string"
  proxied :: "link \<Rightarrow> Obj \<Rightarrow> nat option"
  walk_fuel :: nat

text \<open>A request; \<open>clock\<close> are the times read for the lock system in order, \<open>wall\<close> is the time of the day.\<close>

record dav_request =
  Method :: string
  UrlPath :: string
  UrlHost :: string
  IfHdr :: string
  DestinationHdr :: string
  DepthHdr :: string
  OverwriteHdr :: string
  TimeoutHdr :: string
  LockTokenHdr :: string
  UserAgentHdr :: string
  FileSizeHdr :: string
  MtimeHdr :: string
  CtimeHdr :: string
  DavLength :: int
  DavBodySize :: int
  ClientIP :: string
  PassKey :: string
  lock_body :: "lockInfo decoded"
  find_body :: "propfind decoded"
  patch_body :: "(xml_name \<times> Property list) list decoded"
  clock :: "nat \<Rightarrow> int"
  wall :: int

type_synonym dav_reply = "nat \<times> bool"

datatype dav_body =
    NoBody
  | AllowBody string
  | LockBody string LockDetails
  | EtagBody string
  | MultiStatus "(string \<times> Propstat list) list"
  | FolderHead
  | RedirectLink link
  | RedirectUrl string
  | FileBody link Obj

type_synonym 's dav_handler = "('s dav, dav_reply, nat \<times> dav_body) handler"

abbreviation fail :: "nat \<Rightarrow> ('s, dav_reply, 'a) handler" where
  "fail status \<equiv> answer (status, True)"

abbreviation refuse :: "nat \<Rightarrow> ('s, dav_reply, 'a) handler" where
  "refuse status \<equiv> answer (status, False)"

definition or_fail :: "nat + 'a \<Rightarrow> ('s, dav_reply, 'a) handler" where
  "or_fail r = (case r of Inl status \<Rightarrow> fail status | Inr x \<Rightarrow> give x)"

definition dav_user :: "User option \<Rightarrow> ('s, dav_reply, User) handler" where
  "dav_user user = (case user of None \<Rightarrow> refuse 401 | Some u \<Rightarrow> give u)"

definition dav_join :: "User \<Rightarrow> string \<Rightarrow> ('s, dav_reply, string) handler" where
  "dav_join u p = (case JoinPath u p of Inl _ \<Rightarrow> fail 403 | Inr q \<Rightarrow> give q)"

definition dav_rule :: "'s layer \<Rightarrow> string \<Rightarrow> ('s, dav_reply, Meta option) handler" where
  "dav_rule = rule_or (500, True)"

definition dav_guard ::
  "(metaStore \<Rightarrow> User option \<Rightarrow> string \<Rightarrow> ((meta_error + bool) \<times> metaStore) option) \<Rightarrow> bool \<Rightarrow>
     's layer \<Rightarrow> User \<Rightarrow> string \<Rightarrow> ('s, dav_reply, unit) handler" where
  "dav_guard check err = guard_or (500, True) (403, err) check"

text \<open>An operation of the layer; the status answered for its failure depends on the error.\<close>

definition do_or :: "(fs_error \<Rightarrow> nat) \<Rightarrow> ('s \<Rightarrow> (fs_error option \<times> 's) outcome) \<Rightarrow> ('s, dav_reply, unit) handler" where
  "do_or status f s =
     outcome_bind (f s) (\<lambda>(e, s). Ret (case e of Some e \<Rightarrow> Inl (status e, True) | None \<Rightarrow> Inr (), s))"

definition get_or :: "(fs_error \<Rightarrow> nat) \<Rightarrow> ('s \<Rightarrow> ((fs_error + 'a) \<times> 's) outcome) \<Rightarrow> ('s, dav_reply, 'a) handler" where
  "get_or status f s =
     outcome_bind (f s) (\<lambda>(r, s). Ret (case r of Inl e \<Rightarrow> Inl (status e, True) | Inr x \<Rightarrow> Inr x, s))"

definition IsNotFoundError :: "fs_error \<Rightarrow> bool" where
  "IsNotFoundError e \<longleftrightarrow>
     e = ObjectNotFound \<or> (case e of DriverError m \<Rightarrow> has_prefix m ''storage not found; '' | _ \<Rightarrow> False)"

definition missing_or :: "nat \<Rightarrow> nat \<Rightarrow> fs_error \<Rightarrow> nat" where
  "missing_or missing wrong e = (if e = ObjectNotFound then missing else wrong)"

definition stripPrefix :: "dav_env \<Rightarrow> string \<Rightarrow> nat + string" where
  "stripPrefix E p =
     (if Prefix E = [] then Inr p
      else if has_prefix p (Prefix E) then Inr (drop (length (Prefix E)) p) else Inl 404)"

definition infiniteDepth :: int where "infiniteDepth = -1"

definition invalidDepth :: int where "invalidDepth = -2"

definition parseDepth :: "string \<Rightarrow> int" where
  "parseDepth s =
     (if s = ''0'' then 0 else if s = ''1'' then 1 else if s = ''infinity'' then infiniteDepth else invalidDepth)"

text \<open>\<open>util.go\<close>: a time in seconds from one of two headers, or now.\<close>

definition getHeaderTime :: "dav_request \<Rightarrow> string \<Rightarrow> string \<Rightarrow> int" where
  "getHeaderTime r hVal alternative =
     (let hVal = (if hVal = [] then alternative else hVal); (i, ok) = ParseInt hVal
      in if hVal \<noteq> [] \<and> ok then i64 (i + 62135596800) * 1000000000 else wall r)"

definition getModTime :: "dav_request \<Rightarrow> int" where
  "getModTime r = getHeaderTime r (MtimeHdr r) []"

definition getCreateTime :: "dav_request \<Rightarrow> int" where
  "getCreateTime r = getHeaderTime r (CtimeHdr r) (MtimeHdr r)"

section \<open>The locks a request holds while it is served\<close>

text \<open>The release function of \<open>confirmLocks\<close>: temporary locks to remove, or a confirmation to end.\<close>

datatype lock_claim = Temporary int string string | Confirmed "nat option \<times> nat option"

definition temporary_lock :: "string \<Rightarrow> LockDetails" where
  "temporary_lock path = \<lparr>Root = path, Duration = infiniteTimeout, OwnerXML = [], ZeroDepth = True\<rparr>"

definition dav_lock :: "int \<Rightarrow> string \<Rightarrow> ('s dav, dav_reply, string) handler" where
  "dav_lock t0 path st =
     outcome_bind (on_locks (Create t0 (temporary_lock path)) st)
       (\<lambda>(r, st). Ret (case r of
            Inl e \<Rightarrow> Inl (if e = ErrLocked then 423 else 500, True)
          | Inr tok \<Rightarrow> Inr tok, st))"

definition dav_unlock :: "int \<Rightarrow> string \<Rightarrow> 's dav \<Rightarrow> 's dav outcome" where
  "dav_unlock t0 tok st =
     (if tok = [] then Ret st else outcome_bind (on_locks (Unlock t0 tok) st) (\<lambda>(_, st). Ret st))"

definition release :: "lock_claim \<Rightarrow> 's dav \<Rightarrow> 's dav outcome" where
  "release h st =
     (case h of
        Temporary t0 srcToken dstToken \<Rightarrow> outcome_bind (dav_unlock t0 dstToken st) (dav_unlock t0 srcToken)
      | Confirmed rel \<Rightarrow>
          outcome_bind (on_locks (\<lambda>m. go_bind (Release rel m) (\<lambda>m. Return ((), m))) st) (\<lambda>(_, st). Ret st))"

definition lock_named :: "int \<Rightarrow> string \<Rightarrow> ('s dav, dav_reply, string) handler" where
  "lock_named t0 path = (if path = [] then give [] else dav_lock t0 path)"

definition temporary_locks :: "int \<Rightarrow> string \<Rightarrow> string \<Rightarrow> ('s dav, dav_reply, lock_claim) handler" where
  "temporary_locks t0 src dst =
     andThen (lock_named t0 src) (\<lambda>srcToken st.
       outcome_bind (lock_named t0 dst st) (\<lambda>(r, st).
         case r of
           Inl a \<Rightarrow> outcome_bind (dav_unlock t0 srcToken st) (\<lambda>st. Ret (Inl a, st))
         | Inr dstToken \<Rightarrow> Ret (Inr (Temporary t0 srcToken dstToken), st)))"

text \<open>The lists of the If header, one after the other; the \<open>k\<close>-th reads the \<open>k\<close>-th time.\<close>

definition list_source :: "dav_env \<Rightarrow> dav_request \<Rightarrow> string \<Rightarrow> string \<Rightarrow> (nat + string) option" where
  "list_source E r src tag =
     (if tag = [] then Some (Inr src)
      else case url_parse E tag of
          None \<Rightarrow> None
        | Some (host, p) \<Rightarrow> if host \<noteq> UrlHost r then None else Some (stripPrefix E p))"

fun confirm_lists ::
  "dav_env \<Rightarrow> dav_request \<Rightarrow> string \<Rightarrow> string \<Rightarrow> nat \<Rightarrow> ifList list \<Rightarrow> ('s dav, dav_reply, lock_claim) handler" where
  "confirm_lists E r src dst k [] = fail 412"
| "confirm_lists E r src dst k (l # ls) =
     (case list_source E r src (resourceTag l) of
        None \<Rightarrow> confirm_lists E r src dst (Suc k) ls
      | Some (Inl status) \<Rightarrow> fail status
      | Some (Inr lsrc) \<Rightarrow>
          (\<lambda>st. outcome_bind (on_locks (Confirm (clock r k) lsrc dst (conditions l)) st) (\<lambda>(c, st).
             case c of
               Inl e \<Rightarrow>
                 if e = ErrConfirmationFailed then confirm_lists E r src dst (Suc k) ls st else fail 500 st
             | Inr rel \<Rightarrow> Ret (Inr (Confirmed rel), st))))"

definition confirmLocks :: "dav_env \<Rightarrow> dav_request \<Rightarrow> string \<Rightarrow> string \<Rightarrow> ('s dav, dav_reply, lock_claim) handler" where
  "confirmLocks E r src dst =
     (if IfHdr r = [] then temporary_locks (clock r 0) src dst
      else case parseIfHeader (IfHdr r) of
          None \<Rightarrow> fail 400
        | Some ih \<Rightarrow> confirm_lists E r src dst 0 (lists ih))"

text \<open>\<open>release, status, err := h.confirmLocks(...); defer release()\<close> around the rest of a handler.\<close>

definition with_locks :: "dav_env \<Rightarrow> dav_request \<Rightarrow> string \<Rightarrow> string \<Rightarrow> ('s dav, dav_reply, 'a) handler \<Rightarrow> ('s dav, dav_reply, 'a) handler" where
  "with_locks E r src dst body =
     andThen (confirmLocks E r src dst) (\<lambda>h st.
       outcome_bind (body st) (\<lambda>(res, st). outcome_bind (release h st) (\<lambda>st. Ret (res, st))))"

section \<open>Options, removal, upload, new folders\<close>

definition handleOptions :: "dav_env \<Rightarrow> 's layer \<Rightarrow> User option \<Rightarrow> dav_request \<Rightarrow> 's dav_handler" where
  "handleOptions E L user r =
     (let L = dav_layer L in
     andThen (or_fail (stripPrefix E (UrlPath r))) (\<lambda>p.
     andThen (dav_user user) (\<lambda>u.
     andThen (dav_join u p) (\<lambda>p.
     andThen (peek (L_get L p False)) (\<lambda>fi.
     give (0, AllowBody (case fi of
         None \<Rightarrow> ''OPTIONS, LOCK, PUT, MKCOL''
       | Some fi \<Rightarrow>
           if IsDir fi then ''OPTIONS, LOCK, DELETE, PROPPATCH, COPY, MOVE, UNLOCK, PROPFIND''
           else ''OPTIONS, LOCK, GET, HEAD, POST, DELETE, PROPPATCH, COPY, MOVE, UNLOCK, PROPFIND, PUT'')))))))"

definition delete_body :: "'s layer \<Rightarrow> User option \<Rightarrow> string \<Rightarrow> ('s, dav_reply, nat \<times> dav_body) handler" where
  "delete_body L user p =
     andThen (dav_user user) (\<lambda>u.
     andThen (unless (CanRemove u) (403, False)) (\<lambda>_.
     andThen (dav_join u p) (\<lambda>p.
     andThen (get_or (missing_or 404 405) (L_get L p False)) (\<lambda>_.
     andThen (dav_rule L (path_dir p)) (\<lambda>parentMeta.
     andThen (unless (CanWrite (Some u) parentMeta (path_dir p)) (403, True)) (\<lambda>_.
     andThen (dav_guard CanWriteTree True L u p) (\<lambda>_.
     andThen (do_or (\<lambda>_. 405) (L_remove L p)) (\<lambda>_.
     give (204, NoBody)))))))))"

definition handleDelete :: "dav_env \<Rightarrow> 's layer \<Rightarrow> User option \<Rightarrow> dav_request \<Rightarrow> 's dav_handler" where
  "handleDelete E L user r =
     andThen (or_fail (stripPrefix E (UrlPath r))) (\<lambda>p.
     with_locks E r p [] (delete_body (dav_layer L) user p))"

definition dav_writable_parent :: "'s layer \<Rightarrow> User \<Rightarrow> string \<Rightarrow> ('s, dav_reply, unit) handler" where
  "dav_writable_parent L u p =
     andThen (dav_rule L (path_dir p)) (\<lambda>parentMeta.
     andThen (unless (CanWriteContent u \<or> CanWriteContentBypassUserPerms parentMeta (path_dir p)) (403, True)) (\<lambda>_.
     andThen (unless (CanWrite (Some u) parentMeta (path_dir p)) (403, True)) (\<lambda>_.
     dav_guard CanWritePath True L u p)))"

definition dav_size :: "dav_request \<Rightarrow> ('s, dav_reply, int) handler" where
  "dav_size r =
     (if DavLength r < 0 \<and> FileSizeHdr r \<noteq> []
      then (let (i, ok) = ParseInt (FileSizeHdr r) in if ok then give i else fail 400)
      else give (DavLength r))"

definition dav_object :: "dav_request \<Rightarrow> string \<Rightarrow> int \<Rightarrow> Obj" where
  "dav_object r p sz =
     Object \<lparr>ID = [], Path = [], Name = path_base p, Size = sz, Modified = getModTime r, Ctime = getCreateTime r,
       IsFolder = False, HashInfo = [], Mask = 0\<rparr>"

definition dav_stream :: "dav_request \<Rightarrow> string \<Rightarrow> int \<Rightarrow> file_stream" where
  "dav_stream r p sz =
     \<lparr>fname = path_base p, fsize = sz, fmodified = getModTime r, fctime = getCreateTime r, fexist = None\<rparr>"

definition put_body ::
  "dav_env \<Rightarrow> dav_request \<Rightarrow> 's layer \<Rightarrow> User option \<Rightarrow> string \<Rightarrow> ('s, dav_reply, nat \<times> dav_body) handler" where
  "put_body E r L user p =
     andThen (dav_user user) (\<lambda>u.
     andThen (dav_join u p) (\<lambda>p.
     andThen (dav_size r) (\<lambda>sz.
     andThen (unless (\<not> shouldIgnoreSystemFile (ignore_system E) (path_base p)) (403, True)) (\<lambda>_.
     andThen (dav_writable_parent L u p) (\<lambda>_.
     andThen (do_or (\<lambda>e. if IsNotFoundError e then 404 else 405)
       (L_put L (DavBodySize r) (path_dir p) (dav_stream r p sz))) (\<lambda>_.
     andThen (peek (L_get L p False)) (\<lambda>fi.
     give (201, EtagBody (findETag (case fi of Some fi \<Rightarrow> fi | None \<Rightarrow> dav_object r p sz))))))))))"

definition handlePut :: "dav_env \<Rightarrow> 's layer \<Rightarrow> User option \<Rightarrow> dav_request \<Rightarrow> 's dav_handler" where
  "handlePut E L user r =
     andThen (or_fail (stripPrefix E (UrlPath r))) (\<lambda>p.
     andThen (unless (p \<noteq> []) (405, False)) (\<lambda>_.
     with_locks E r p [] (put_body E r (dav_layer L) user p)))"

text \<open>An error of \<open>MakeDir\<close> is wrapped, so \<open>os.IsNotExist\<close> never holds of it and its status 409 is not reached.\<close>

definition mkcol_body :: "dav_request \<Rightarrow> 's layer \<Rightarrow> User option \<Rightarrow> string \<Rightarrow> ('s, dav_reply, nat \<times> dav_body) handler" where
  "mkcol_body r L user p =
     andThen (dav_user user) (\<lambda>u.
     andThen (dav_join u p) (\<lambda>p.
     andThen (unless (DavLength r \<le> 0) (415, False)) (\<lambda>_.
     andThen (peek (L_get L p False)) (\<lambda>fi.
     andThen (unless (fi = None) (405, False)) (\<lambda>_.
     andThen (get_or (missing_or 409 405) (L_get L (path_dir p) False)) (\<lambda>_.
     andThen (dav_writable_parent L u p) (\<lambda>_.
     andThen (do_or (\<lambda>_. 405) (L_makeDir L p)) (\<lambda>_.
     give (201, NoBody)))))))))"

definition handleMkcol :: "dav_env \<Rightarrow> 's layer \<Rightarrow> User option \<Rightarrow> dav_request \<Rightarrow> 's dav_handler" where
  "handleMkcol E L user r =
     andThen (or_fail (stripPrefix E (UrlPath r))) (\<lambda>p.
     with_locks E r p [] (mkcol_body r (dav_layer L) user p))"

section \<open>Copying and moving\<close>

text \<open>The destination is kept under a fresh name until the transfer is over.\<close>

fun unusedBackupPath :: "nat \<Rightarrow> dav_env \<Rightarrow> 's layer \<Rightarrow> string \<Rightarrow> ('s, dav_reply, string) handler" where
  "unusedBackupPath 0 E L dst = fail 500"
| "unusedBackupPath (Suc n) E L dst =
     (let candidate = path_join [path_dir dst, ''.tinylist-webdav-'' @ random_hex E n] in
      (\<lambda>st. outcome_bind (L_get L candidate False st) (\<lambda>(r, st).
        case r of
          Inl e \<Rightarrow> if e = ObjectNotFound then give candidate st else fail 500 st
        | Inr _ \<Rightarrow> unusedBackupPath n E L dst st)))"

text \<open>Whether the destination existed, and where it is now.\<close>

definition prepareDestination ::
  "dav_env \<Rightarrow> 's layer \<Rightarrow> string \<Rightarrow> bool \<Rightarrow> bool \<Rightarrow> ('s, dav_reply, bool \<times> string) handler" where
  "prepareDestination E L dst overwrite canRemove st =
     outcome_bind (L_get L dst False st) (\<lambda>(r, st).
       case r of
         Inl e \<Rightarrow> if e = ObjectNotFound then give (False, []) st else fail 500 st
       | Inr _ \<Rightarrow>
           andThen (unless overwrite (412, False)) (\<lambda>_.
           andThen (unless canRemove (403, False)) (\<lambda>_.
           andThen (unusedBackupPath 10 E L dst) (\<lambda>backup.
           andThen (do_or (\<lambda>_. 500) (L_rename L dst (path_base backup))) (\<lambda>_.
           give (True, backup))))) st)"

definition purgeIfExists :: "'s layer \<Rightarrow> string \<Rightarrow> 's \<Rightarrow> (fs_error option \<times> 's) outcome" where
  "purgeIfExists L target st =
     outcome_bind (L_get L target False st) (\<lambda>(r, st).
       case r of
         Inl e \<Rightarrow> Ret (if e = ObjectNotFound then None else Some e, st)
       | Inr _ \<Rightarrow> L_purge L target st)"

text \<open>The error is that of the transfer in every case; what differs is what becomes of the destination.\<close>

definition compensateFailedTransfer :: "'s layer \<Rightarrow> string \<Rightarrow> string \<Rightarrow> 's \<Rightarrow> 's outcome" where
  "compensateFailedTransfer L dst backup st =
     outcome_bind (purgeIfExists L dst st) (\<lambda>(e, st).
       if backup = [] \<or> e \<noteq> None then Ret st
       else outcome_bind (L_rename L backup (path_base dst) st) (\<lambda>(_, st). Ret st))"

definition cleanupBackup :: "'s layer \<Rightarrow> string \<Rightarrow> ('s, dav_reply, unit) handler" where
  "cleanupBackup L backup = (if backup = [] then give () else do_or (\<lambda>_. 500) (L_remove L backup))"

text \<open>How \<open>moveFiles\<close> and \<open>copyFiles\<close> end.\<close>

definition dav_transfer ::
  "dav_env \<Rightarrow> 's layer \<Rightarrow> taskType \<Rightarrow> string \<Rightarrow> string \<Rightarrow> bool \<Rightarrow> bool \<Rightarrow> ('s, dav_reply, nat \<times> dav_body) handler" where
  "dav_transfer E L kind src dst overwrite canRemove =
     andThen (prepareDestination E L dst overwrite canRemove) (\<lambda>(existed, backup) st.
       outcome_bind (L_transferTo L kind src dst st) (\<lambda>(e, st).
         case e of
           Some _ \<Rightarrow> outcome_bind (compensateFailedTransfer L dst backup st) (fail 500)
         | None \<Rightarrow>
             andThen (cleanupBackup L backup) (\<lambda>_. give (if existed then 204 else 201, NoBody)) st))"

text \<open>Both trees are looked at before either answer counts.\<close>

definition tree_answer ::
  "(metaStore \<Rightarrow> User option \<Rightarrow> string \<Rightarrow> ((meta_error + bool) \<times> metaStore) option) \<Rightarrow>
     's layer \<Rightarrow> User \<Rightarrow> string \<Rightarrow> ('s, dav_reply, bool) handler" where
  "tree_answer check L u path s =
     (case check (L_metas L s) (Some u) path of
        None \<Rightarrow> Hang
      | Some (Inl _, ms) \<Rightarrow> fail 500 (L_put_metas L ms s)
      | Some (Inr allowed, ms) \<Rightarrow> give allowed (L_put_metas L ms s))"

definition both_trees ::
  "(metaStore \<Rightarrow> User option \<Rightarrow> string \<Rightarrow> ((meta_error + bool) \<times> metaStore) option) \<Rightarrow>
     's layer \<Rightarrow> User \<Rightarrow> string \<Rightarrow> string \<Rightarrow> ('s, dav_reply, unit) handler" where
  "both_trees source_check L u src dst =
     andThen (tree_answer source_check L u src) (\<lambda>srcAllowed.
     andThen (tree_answer CanWriteTree L u dst) (\<lambda>dstAllowed.
     unless (srcAllowed \<and> dstAllowed) (403, False)))"

definition moveFiles ::
  "dav_env \<Rightarrow> 's layer \<Rightarrow> User \<Rightarrow> string \<Rightarrow> string \<Rightarrow> bool \<Rightarrow> ('s, dav_reply, nat \<times> dav_body) handler" where
  "moveFiles E L u src dst overwrite =
     (let srcDir = path_dir src; dstDir = path_dir dst in
     andThen (unless (slashClean src \<noteq> slashClean dst) (403, False)) (\<lambda>_.
     andThen (unless (srcDir = dstDir \<or> CanMove u) (403, False)) (\<lambda>_.
     andThen (unless (path_base src = path_base dst \<or> CanRename u) (403, False)) (\<lambda>_.
     andThen (dav_rule L srcDir) (\<lambda>srcMeta.
     andThen (dav_rule L dstDir) (\<lambda>dstMeta.
     andThen (unless (CanWrite (Some u) srcMeta srcDir \<and> CanWrite (Some u) dstMeta dstDir) (403, False)) (\<lambda>_.
     andThen (both_trees CanWriteTree L u src dst) (\<lambda>_.
     dav_transfer E L MoveTask src dst overwrite (CanRemove u)))))))))"

definition copyFiles ::
  "dav_env \<Rightarrow> 's layer \<Rightarrow> User \<Rightarrow> string \<Rightarrow> string \<Rightarrow> bool \<Rightarrow> ('s, dav_reply, nat \<times> dav_body) handler" where
  "copyFiles E L u src dst overwrite =
     (let srcDir = path_dir src; dstDir = path_dir dst in
     andThen (unless (slashClean src \<noteq> slashClean dst) (403, False)) (\<lambda>_.
     andThen (unless (CanCopy u) (403, False)) (\<lambda>_.
     andThen (dav_rule L srcDir) (\<lambda>srcMeta.
     andThen (unless (CanRead (Some u) srcMeta srcDir) (403, False)) (\<lambda>_.
     andThen (dav_rule L dstDir) (\<lambda>dstMeta.
     andThen (unless (CanWrite (Some u) dstMeta dstDir) (403, False)) (\<lambda>_.
     andThen (both_trees CanReadTree L u src dst) (\<lambda>_.
     dav_transfer E L CopyTask src dst overwrite (CanRemove u)))))))))"

definition copy_body ::
  "dav_env \<Rightarrow> dav_request \<Rightarrow> 's layer \<Rightarrow> User \<Rightarrow> string \<Rightarrow> string \<Rightarrow> ('s, dav_reply, nat \<times> dav_body) handler" where
  "copy_body E r L u src dst =
     andThen (unless (DepthHdr r = [] \<or> parseDepth (DepthHdr r) \<in> {0, infiniteDepth}) (400, True)) (\<lambda>_.
     copyFiles E L u src dst (OverwriteHdr r \<noteq> ''F''))"

definition move_body ::
  "dav_env \<Rightarrow> dav_request \<Rightarrow> 's layer \<Rightarrow> User \<Rightarrow> string \<Rightarrow> string \<Rightarrow> ('s, dav_reply, nat \<times> dav_body) handler" where
  "move_body E r L u src dst =
     andThen (unless (DepthHdr r = [] \<or> parseDepth (DepthHdr r) = infiniteDepth) (400, True)) (\<lambda>_.
     moveFiles E L u src dst (OverwriteHdr r \<noteq> ''F''))"

definition destination :: "dav_env \<Rightarrow> dav_request \<Rightarrow> nat + string" where
  "destination E r =
     (if DestinationHdr r = [] then Inl 400
      else case url_parse E (DestinationHdr r) of
          None \<Rightarrow> Inl 400
        | Some (host, target) \<Rightarrow> if host \<noteq> [] \<and> host \<noteq> UrlHost r then Inl 502 else Inr target)"

definition handleCopyMove :: "dav_env \<Rightarrow> 's layer \<Rightarrow> User option \<Rightarrow> dav_request \<Rightarrow> 's dav_handler" where
  "handleCopyMove E L user r =
     andThen (or_fail (destination E r)) (\<lambda>target.
     andThen (or_fail (stripPrefix E (UrlPath r))) (\<lambda>src.
     andThen (or_fail (stripPrefix E target)) (\<lambda>dst.
     andThen (unless (dst \<noteq> []) (502, True)) (\<lambda>_.
     andThen (unless (dst \<noteq> src) (403, True)) (\<lambda>_.
     andThen (dav_user user) (\<lambda>u.
     andThen (dav_join u src) (\<lambda>src.
     andThen (dav_join u dst) (\<lambda>dst.
     if Method r = ''COPY'' then with_locks E r [] dst (copy_body E r (dav_layer L) u src dst)
     else with_locks E r src dst (move_body E r (dav_layer L) u src dst)))))))))"

section \<open>Locks\<close>

definition refresh_token :: "ifHeader \<Rightarrow> string" where
  "refresh_token ih =
     (case lists ih of [l] \<Rightarrow> (case conditions l of [c] \<Rightarrow> Token c | _ \<Rightarrow> []) | _ \<Rightarrow> [])"

definition handleLock :: "dav_env \<Rightarrow> 's layer \<Rightarrow> User option \<Rightarrow> dav_request \<Rightarrow> 's dav_handler" where
  "handleLock E L user r =
     (let L = dav_layer L; t0 = clock r 0 in
     andThen (case parseTimeout (TimeoutHdr r) of Inl _ \<Rightarrow> fail 400 | Inr d \<Rightarrow> give d) (\<lambda>duration.
     andThen (or_fail (readLockInfo (lock_body r))) (\<lambda>li.
     andThen (dav_user user) (\<lambda>u.
     if li = no_lockInfo then
       andThen (case parseIfHeader (IfHdr r) of None \<Rightarrow> fail 400 | Some ih \<Rightarrow> give (refresh_token ih)) (\<lambda>tok.
       andThen (unless (tok \<noteq> []) (400, True)) (\<lambda>_ st.
       outcome_bind (on_locks (Refresh t0 tok duration) st) (\<lambda>(res, st).
         Ret (case res of
                Inl e \<Rightarrow> Inl (if e = ErrNoSuchLock then 412 else 500, True)
              | Inr ld \<Rightarrow> Inr (0, LockBody tok ld), st))))
     else
       andThen (if DepthHdr r = [] then give infiniteDepth else give (parseDepth (DepthHdr r))) (\<lambda>depth.
       andThen (unless (depth = 0 \<or> depth = infiniteDepth) (400, True)) (\<lambda>_.
       andThen (or_fail (stripPrefix E (UrlPath r))) (\<lambda>p.
       andThen (dav_join u p) (\<lambda>p.
       andThen (dav_rule L p) (\<lambda>meta.
       andThen (unless (CanWrite (Some u) meta p) (403, True)) (\<lambda>_ st.
       let ld = \<lparr>Root = p, Duration = duration, OwnerXML = li_owner li, ZeroDepth = depth = 0\<rparr> in
       outcome_bind (on_locks (Create t0 ld) st) (\<lambda>(res, st).
         Ret (case res of
                Inl e \<Rightarrow> Inl (if e = ErrLocked then 423 else 500, True)
              | Inr tok \<Rightarrow> Inr (0, LockBody tok ld), st))))))))))))"

definition lock_token :: "string \<Rightarrow> string option" where
  "lock_token t =
     (if length t < 2 \<or> hd t \<noteq> CHR ''<'' \<or> last t \<noteq> CHR ''>'' then None else Some (butlast (tl t)))"

definition handleUnlock :: "dav_env \<Rightarrow> 's layer \<Rightarrow> User option \<Rightarrow> dav_request \<Rightarrow> 's dav_handler" where
  "handleUnlock E L user r =
     (let L = dav_layer L in
     andThen (case lock_token (LockTokenHdr r) of None \<Rightarrow> fail 400 | Some t \<Rightarrow> give t) (\<lambda>t.
     andThen (or_fail (stripPrefix E (UrlPath r))) (\<lambda>p.
     andThen (dav_user user) (\<lambda>u.
     andThen (dav_join u p) (\<lambda>p.
     andThen (dav_rule L p) (\<lambda>meta.
     andThen (unless (CanWrite (Some u) meta p) (403, True)) (\<lambda>_ st.
     outcome_bind (on_locks (Unlock (clock r 0) t) st) (\<lambda>(e, st).
       Ret (case e of
              None \<Rightarrow> Inr (204, NoBody)
            | Some e \<Rightarrow> Inl (case e of ErrForbidden \<Rightarrow> 403 | ErrLocked \<Rightarrow> 423 | ErrNoSuchLock \<Rightarrow> 409 | _ \<Rightarrow> 500, True), st)))))))))"

section \<open>Properties\<close>

text \<open>The prefix is trimmed off the whole path, so that for the base \<open>/\<close> only the first slash goes.\<close>

definition dav_href :: "dav_env \<Rightarrow> User \<Rightarrow> string \<Rightarrow> Obj \<Rightarrow> string" where
  "dav_href E u reqPath info =
     (let href = path_join [Prefix E, trim_prefix reqPath (BasePath u)]
      in if href \<noteq> ''/'' \<and> IsDir info then href @ ''/'' else href)"

text \<open>With \<open>allprop\<close> the names to add are taken from \<open>prop\<close>, which is then empty, not from \<open>include\<close>.\<close>

definition dav_propstats :: "prop_env \<Rightarrow> propfind \<Rightarrow> Obj \<Rightarrow> Propstat list" where
  "dav_propstats F pf info =
     (if pf_propname pf then [\<lparr>ps_props = map bare (propnames F info), ps_status = 200, ps_error = []\<rparr>]
      else if pf_allprop pf then allprop F info (pf_prop pf)
      else props F info (pf_prop pf))"

text \<open>\<open>walkFS\<close>, whose visits are given in order; the fuel bounds the depth.  An error of the rule of a
  directory is forgotten, and no visit looks at the permissions of what it visits.\<close>

definition loose_rule :: "'s layer \<Rightarrow> string \<Rightarrow> ('s, 'r, Meta option) handler" where
  "loose_rule L path s =
     (let (r, ms) = nearest_meta path (L_metas L s)
      in Ret (Inr (case r of Inl _ \<Rightarrow> None | Inr m \<Rightarrow> m), L_put_metas L ms s))"

fun walkFS ::
  "nat \<Rightarrow> 's layer \<Rightarrow> User \<Rightarrow> int \<Rightarrow> string \<Rightarrow> Obj \<Rightarrow> ('s, dav_reply, (string \<times> Obj) list) handler" where
  "walkFS 0 L u depth name info = (\<lambda>_. Hang)"
| "walkFS (Suc n) L u depth name info =
     (if \<not> IsDir info \<or> depth = 0 then give [(name, info)]
      else
        let depth = (if depth = 1 then 0 else depth) in
        andThen (loose_rule L name) (\<lambda>meta.
        andThen (get_or (\<lambda>_. 500) (L_list L (Some u) meta name False False)) (\<lambda>objs.
        andThen (foldr (\<lambda>fi rest.
            andThen (walkFS n L u depth (path_join [name, GetName fi]) fi) (\<lambda>xs.
            andThen rest (\<lambda>ys. give (xs @ ys)))) objs (give [])) (\<lambda>visits.
        give ((name, info) # visits)))))"

definition dav_access :: "dav_env \<Rightarrow> 's layer \<Rightarrow> User \<Rightarrow> dav_request \<Rightarrow> string \<Rightarrow> ('s, dav_reply, unit) handler" where
  "dav_access E L u r p =
     andThen (dav_rule L p) (\<lambda>meta.
     case CanAccess (pattern E) u meta p (PassKey r) of
       Panic \<Rightarrow> (\<lambda>_. Crash)
     | Return ok \<Rightarrow> unless ok (403, True))"

definition handlePropfind :: "dav_env \<Rightarrow> 's layer \<Rightarrow> User option \<Rightarrow> dav_request \<Rightarrow> 's dav_handler" where
  "handlePropfind E L user r =
     (let L = dav_layer L; F = (formats E)\<lparr>agent := lower_case E (UserAgentHdr r)\<rparr> in
     andThen (or_fail (stripPrefix E (UrlPath r))) (\<lambda>p.
     andThen (dav_user user) (\<lambda>u.
     andThen (dav_join u p) (\<lambda>p.
     andThen (dav_access E L u r p) (\<lambda>_.
     andThen (get_or (\<lambda>e. if IsNotFoundError e then 404 else 405) (L_get L p False)) (\<lambda>fi.
     andThen (if DepthHdr r = [] then give infiniteDepth else give (parseDepth (DepthHdr r))) (\<lambda>depth.
     andThen (unless (depth \<noteq> invalidDepth) (400, True)) (\<lambda>_.
     andThen (or_fail (readPropfind (find_body r))) (\<lambda>pf.
     andThen (walkFS (walk_fuel E) L u depth p fi) (\<lambda>visits.
     give (0, MultiStatus (map (\<lambda>(name, info). (dav_href E u name info, dav_propstats F pf info)) visits))))))))))))"

definition proppatch_body ::
  "dav_env \<Rightarrow> dav_request \<Rightarrow> 's layer \<Rightarrow> User option \<Rightarrow> string \<Rightarrow> ('s, dav_reply, nat \<times> dav_body) handler" where
  "proppatch_body E r L user p =
     andThen (dav_user user) (\<lambda>u.
     andThen (dav_join u p) (\<lambda>p.
     andThen (dav_rule L p) (\<lambda>meta.
     andThen (unless (CanWrite (Some u) meta p) (403, True)) (\<lambda>_.
     andThen (get_or (missing_or 404 405) (L_get L p False)) (\<lambda>_.
     andThen (or_fail (readProppatch (patch_body r))) (\<lambda>patches.
     give (0, MultiStatus [(UrlPath r, patch (formats E) patches)])))))))"

definition handleProppatch :: "dav_env \<Rightarrow> 's layer \<Rightarrow> User option \<Rightarrow> dav_request \<Rightarrow> 's dav_handler" where
  "handleProppatch E L user r =
     andThen (or_fail (stripPrefix E (UrlPath r))) (\<lambda>p.
     with_locks E r p [] (proppatch_body E r (dav_layer L) user p))"

section \<open>Reading\<close>

definition GenerateDownProxyURL :: "(string \<Rightarrow> string) \<Rightarrow> Storage \<Rightarrow> string \<Rightarrow> string" where
  "GenerateDownProxyURL sign st reqPath =
     (if DownProxyURL st = [] then []
      else hd (split_on (CHR 0x0A) (DownProxyURL st)) @ EncodePath reqPath [True] @
           (if DisableProxySign st then [] else ''?sign='' @ sign reqPath))"

definition dav_storage :: "'s layer \<Rightarrow> string \<Rightarrow> ('s, dav_reply, Storage) handler" where
  "dav_storage L p s = (case L_storage L p s of (Inl _, _) \<Rightarrow> Crash | (Inr d, s) \<Rightarrow> Ret (Inr (storage d), s))"

text \<open>A link that is sent through the server is answered with the file, or with the status of the proxy.\<close>

definition handleGetHeadPost :: "dav_env \<Rightarrow> 's layer \<Rightarrow> User option \<Rightarrow> dav_request \<Rightarrow> 's dav_handler" where
  "handleGetHeadPost E L user r =
     (let L = dav_layer L in
     andThen (or_fail (stripPrefix E (UrlPath r))) (\<lambda>p.
     andThen (dav_user user) (\<lambda>u.
     andThen (dav_join u p) (\<lambda>p.
     andThen (dav_access E L u r p) (\<lambda>_.
     andThen (get_or (\<lambda>_. 404) (L_get L p False)) (\<lambda>fi.
     if IsDir fi then (if Method r = ''HEAD'' then give (200, FolderHead) else refuse 405)
     else
       andThen (dav_storage L p) (\<lambda>s.
       let redirectURL = GenerateDownProxyURL (signature E) s p in
       if Webdav302 s then
         andThen (get_or (\<lambda>_. 500) (L_link L p \<lparr>LinkType = [], LinkIP = ClientIP r, UserAgent = UserAgentHdr r\<rparr>)) (\<lambda>(lk, _).
         give (0, RedirectLink lk))
       else if WebdavProxyURL s \<and> redirectURL \<noteq> [] then give (0, RedirectUrl redirectURL)
       else
         andThen (get_or (\<lambda>_. 500) (L_link L p \<lparr>LinkType = [], LinkIP = [], UserAgent = UserAgentHdr r\<rparr>)) (\<lambda>(lk, _).
         case proxied E lk fi of Some status \<Rightarrow> fail status | None \<Rightarrow> give (0, FileBody lk fi)))))))))"

section \<open>The dispatch\<close>

definition dav_handler :: "dav_env \<Rightarrow> 's layer \<Rightarrow> User option \<Rightarrow> dav_request \<Rightarrow> 's dav_handler" where
  "dav_handler E L user r =
     (if Method r = ''OPTIONS'' then handleOptions E L user r
      else if Method r \<in> {''GET'', ''HEAD'', ''POST''} then handleGetHeadPost E L user r
      else if Method r = ''DELETE'' then handleDelete E L user r
      else if Method r = ''PUT'' then handlePut E L user r
      else if Method r = ''MKCOL'' then handleMkcol E L user r
      else if Method r \<in> {''COPY'', ''MOVE''} then handleCopyMove E L user r
      else if Method r = ''LOCK'' then handleLock E L user r
      else if Method r = ''UNLOCK'' then handleUnlock E L user r
      else if Method r = ''PROPFIND'' then handlePropfind E L user r
      else if Method r = ''PROPPATCH'' then handleProppatch E L user r
      else fail 400)"

definition dav_serve :: "dav_env \<Rightarrow> 's layer \<Rightarrow> User option \<Rightarrow> dav_request \<Rightarrow> 's dav \<Rightarrow> ((nat \<times> dav_body) \<times> 's dav) outcome" where
  "dav_serve E L user r st =
     outcome_bind (dav_handler E L user r st) (\<lambda>(res, st).
       Ret (case res of
              Inr reply \<Rightarrow> reply
            | Inl (status, err) \<Rightarrow> (if Method r = ''PROPFIND'' \<and> err then 404 else status, NoBody), st))"

end
