(* ===== verification/DavRules.thy ===== *)
theory DavRules
  imports WebDav HandlerRules
begin

text \<open>
  What the WebDAV handlers keep, under the contract of the file layer extended by final removals: rules
  for the first steps of a handler, then one lemma for each body.  How the lock system is used around a
  body is left to the rules for \<open>with_locks\<close>.
\<close>

section \<open>First steps\<close>

lemma dav_steps_success:
  "or_fail q s = Ret (Inr y, s') \<longleftrightarrow> q = Inr y \<and> s' = s"
  "dav_user user s = Ret (Inr u, s') \<longleftrightarrow> user = Some u \<and> s' = s" "dav_join u p s = Ret (Inr p', s') \<longleftrightarrow> JoinPath u p = Inr p' \<and> s' = s"
  by (auto simp: or_fail_def dav_user_def dav_join_def give_def answer_def split: option.split sum.split)

lemma then_or_fail: "(\<And>x. r = Inr x \<Longrightarrow> holds J Q (k x)) \<Longrightarrow> holds J Q (andThen (or_fail r) k)"
  by (rule holds_andThen [where P = "\<lambda>x. r = Inr x"]) (auto simp: or_fail_def split: sum.split)

lemma then_dav_user: "(\<And>v. user = Some v \<Longrightarrow> holds J Q (k v)) \<Longrightarrow> holds J Q (andThen (dav_user user) k)"
  by (rule holds_andThen [where P = "\<lambda>x. user = Some x"]) (auto simp: dav_user_def split: option.split)

lemma then_dav_join: "(\<And>p. JoinPath u q = Inr p \<Longrightarrow> holds J Q (k p)) \<Longrightarrow> holds J Q (andThen (dav_join u q) k)"
  by (rule holds_andThen [where P = "\<lambda>p. JoinPath u q = Inr p"]) (auto simp: dav_join_def split: sum.split)

lemma holds_do_or: "kept J (\<lambda>_. True) f \<Longrightarrow> holds J (\<lambda>_. True) (do_or status f)"
  unfolding holds_def kept_def do_or_def by (auto intro!: pred_bind elim: outcome.pred_mono_strong)

lemma holds_get_or: "kept J P f \<Longrightarrow> holds J (\<lambda>x. P (Inr x)) (get_or status f)"
  unfolding holds_def kept_def get_or_def
  by (auto intro!: pred_bind elim: outcome.pred_mono_strong split: sum.splits)

lemma then_do_or: "kept J (\<lambda>_. True) f \<Longrightarrow> holds J Q (k ()) \<Longrightarrow> holds J Q (andThen (do_or status f) k)"
  by (rule holds_then [OF holds_do_or]) auto

lemma then_get_or: "kept J (\<lambda>_. True) f \<Longrightarrow> (\<And>x. holds J Q (k x)) \<Longrightarrow> holds J Q (andThen (get_or status f) k)"
  by (rule holds_then [OF holds_any [OF holds_get_or]]) auto

lemma then_peek: "kept J (\<lambda>_. True) f \<Longrightarrow> (\<And>x. holds J Q (k x)) \<Longrightarrow> holds J Q (andThen (peek f) k)"
  by (rule holds_then [OF holds_peek]) auto

lemma holds_Crash [intro]: "holds J P (\<lambda>_. Crash)"
  by (simp add: holds_def kept_def)

lemma then_any: "(\<And>x. holds J Q (k x)) \<Longrightarrow> holds J Q (andThen (or_fail r) k)"
  by (rule then_or_fail)

lemma holds_bind:
  assumes "kept J P f" "\<And>r. P r \<Longrightarrow> kept J Q (k r)"
  shows "kept J Q (\<lambda>s. outcome_bind (f s) (\<lambda>(r, s). k r s))"
  unfolding kept_def
proof (intro allI impI)
  fix s assume "J s"
  with assms(1) have f: "pred_outcome (\<lambda>(r, s). J s \<and> P r) (f s)" by (simp add: kept_def)
  show "pred_outcome (\<lambda>(r, s). J s \<and> Q r) (outcome_bind (f s) (\<lambda>(r, s). k r s))"
    by (rule pred_bind [OF f]) (use assms(2) in \<open>auto simp: kept_def\<close>)
qed

lemma kept_Ret: "P r \<Longrightarrow> kept J P (\<lambda>s. Ret (r, s))"
  by (simp add: kept_def)

lemma kept_cases:
  "(\<And>e. r = Inl e \<Longrightarrow> kept J Q (f e)) \<Longrightarrow> (\<And>x. r = Inr x \<Longrightarrow> kept J Q (g x)) \<Longrightarrow>
     kept J Q (\<lambda>s. case r of Inl e \<Rightarrow> f e s | Inr x \<Rightarrow> g x s)"
  "(b \<Longrightarrow> kept J Q f') \<Longrightarrow> (\<not> b \<Longrightarrow> kept J Q g') \<Longrightarrow> kept J Q (\<lambda>s. if b then f' s else g' s)"
  "(\<And>x. v = Some x \<Longrightarrow> kept J Q (k x)) \<Longrightarrow> (v = None \<Longrightarrow> kept J Q g') \<Longrightarrow>
     kept J Q (\<lambda>s. case v of None \<Rightarrow> g' s | Some x \<Rightarrow> k x s)"
  by (cases r, simp_all) (cases b, simp_all, cases v, simp_all)

lemma holds_of_kept: "kept J (\<lambda>_. True) h \<Longrightarrow> holds J (\<lambda>_. True) h"
  by (simp add: holds_def)

lemma kept_of_holds: "holds J (\<lambda>_. True) h \<Longrightarrow> kept J (\<lambda>_. True) h"
  by (simp add: holds_def)

lemma kept_state: "(\<And>s. J s \<Longrightarrow> pred_outcome J (f s)) \<Longrightarrow> kept J (\<lambda>_. True) (\<lambda>s. outcome_bind (f s) (\<lambda>s. Ret (x, s)))"
  unfolding kept_def by (auto intro!: pred_bind [where P = J])

lemmas dav_flow = then_or_fail then_dav_user then_dav_join then_unless then_give holds_answer holds_give [where P = "\<lambda>_. True", OF TrueI]
  then_do_or then_get_or then_peek

section \<open>The bodies\<close>

locale dav_contract = layer_contract +
  assumes purge: "ok p \<Longrightarrow> kept J (\<lambda>_. True) (L_purge L p)"
    and backup: "JoinPath u q = Inr dst \<Longrightarrow> \<not> at_base dst \<Longrightarrow> child c \<Longrightarrow>
      ok (path_join [path_dir dst, path_base (path_join [path_dir dst, c])]) \<and>
      ok (path_join [path_dir (path_join [path_dir dst, c]), path_base dst])"
    and linked: "ok p \<Longrightarrow> kept J (\<lambda>_. True) (L_link L p args)"
    and placed: "JoinPath u q = Inr p \<Longrightarrow> \<not> at_base p \<Longrightarrow> ok (path_join [path_dir p, path_base p])"
begin

lemma dav_steps:
  "(\<And>m. holds J Q (k m)) \<Longrightarrow> holds J Q (andThen (dav_rule L p) k)"
  "holds J Q (k' ()) \<Longrightarrow> holds J Q (andThen (dav_guard check err L v p) k')"
  "(\<And>m. holds J Q (k m)) \<Longrightarrow> holds J Q (andThen (loose_rule L p) k)"
proof -
  show "(\<And>m. holds J Q (k m)) \<Longrightarrow> holds J Q (andThen (dav_rule L p) k)"
    unfolding dav_rule_def by (rule holds_then [OF rule_or_keeps])
  show "holds J Q (k' ()) \<Longrightarrow> holds J Q (andThen (dav_guard check err L v p) k')"
    unfolding dav_guard_def by (rule holds_then [OF guard_or_keeps]) auto
  have "holds J (\<lambda>_. True) (loose_rule L p)"
    unfolding holds_def kept_def loose_rule_def by (auto simp: put_metas Let_def split: prod.split)
  then show "(\<And>m. holds J Q (k m)) \<Longrightarrow> holds J Q (andThen (loose_rule L p) k)" by (rule holds_then)
qed

lemma guard_step: "holds J (\<lambda>_. True) (dav_guard check err L v p)"
  unfolding dav_guard_def by (rule guard_or_keeps)

lemma delete_body_keeps: "(\<And>v. user = Some v \<Longrightarrow> v = u) \<Longrightarrow> holds J (\<lambda>_. True) (delete_body L user p)"
  unfolding delete_body_def by (intro dav_flow dav_steps get remove) (auto intro: joined)

lemma writable_parent_keeps: "holds J (\<lambda>_. True) (dav_writable_parent L v p)"
  unfolding dav_writable_parent_def by (intro dav_flow dav_steps guard_step)

lemma dav_size_keeps: "holds J (\<lambda>_. True) (dav_size r)"
  unfolding dav_size_def by (auto simp: split_beta intro: holds_if)

lemma put_body_keeps:
  assumes "\<And>v. user = Some v \<Longrightarrow> v = u" and "\<And>q. JoinPath u p = Inr q \<Longrightarrow> \<not> at_base q"
  shows "holds J (\<lambda>_. True) (put_body E r L user p)"
  unfolding put_body_def
  by (intro dav_flow dav_steps holds_then [OF dav_size_keeps] holds_then [OF writable_parent_keeps] get put)
    (use assms joined inner placed in \<open>auto simp: dav_stream_def\<close>)

lemma mkcol_body_keeps:
  assumes "\<And>v. user = Some v \<Longrightarrow> v = u" and "\<And>q. JoinPath u p = Inr q \<Longrightarrow> \<not> at_base q"
  shows "holds J (\<lambda>_. True) (mkcol_body r L user p)"
  unfolding mkcol_body_def
  by (intro dav_flow dav_steps holds_then [OF writable_parent_keeps] get makeDir) (use assms joined inner in auto)

lemma proppatch_body_keeps: "(\<And>v. user = Some v \<Longrightarrow> v = u) \<Longrightarrow> holds J (\<lambda>_. True) (proppatch_body E r L user p)"
  unfolding proppatch_body_def by (intro dav_flow dav_steps get) (auto intro: joined)

lemma tree_answer_keeps: "holds J (\<lambda>_. True) (tree_answer check L v p)"
  unfolding holds_def kept_def tree_answer_def
  by (auto simp: answer_def give_def put_metas split: option.split prod.split sum.split)

lemma both_trees_keep: "holds J (\<lambda>_. True) (both_trees check L v p q)"
  unfolding both_trees_def by (intro holds_then [OF tree_answer_keeps] holds_any [OF holds_unless])

lemma unusedBackupPath_keeps:
  assumes "JoinPath u q = Inr dst" "\<not> at_base dst" "\<And>n. child (''.tinylist-webdav-'' @ random_hex E n)"
  shows "holds J (\<lambda>b. \<exists>c. child c \<and> b = path_join [path_dir dst, c]) (unusedBackupPath n E L dst)"
proof (induction n)
  case 0
  then show ?case by auto
next
  case (Suc n)
  let ?b = "path_join [path_dir dst, ''.tinylist-webdav-'' @ random_hex E n]"
  have ok: "ok ?b" using entry inner [OF assms(1,2)] assms(3) by blast
  have give: "kept J (\<lambda>r. \<forall>x. r = Inr x \<longrightarrow> (\<exists>c. child c \<and> x = path_join [path_dir dst, c])) (give ?b)"
    using holds_give [of "\<lambda>x. \<exists>c. child c \<and> x = path_join [path_dir dst, c]" ?b J] assms(3) by (auto simp: holds_def)
  have fail: "kept J (\<lambda>r. \<forall>x. r = Inr x \<longrightarrow> (\<exists>c. child c \<and> x = path_join [path_dir dst, c])) (fail 500)"
    by (simp add: kept_def answer_def)
  show ?case
    unfolding holds_def unusedBackupPath.simps Let_def
    by (intro holds_bind [OF get [OF ok]] kept_cases give fail Suc [unfolded holds_def])
qed

lemma prepare_keeps:
  assumes "JoinPath u q = Inr dst" "\<not> at_base dst" "\<And>n. child (''.tinylist-webdav-'' @ random_hex E n)"
  shows "holds J (\<lambda>(_, b). b = [] \<or> (\<exists>c. child c \<and> b = path_join [path_dir dst, c])) (prepareDestination E L dst overwrite canRemove)"
    (is "holds J ?P _")
proof -
  have ren: "holds J ?P (andThen (do_or (\<lambda>_. 500) (L_rename L dst (path_base b))) (\<lambda>_. give (True, b)))"
    if "\<exists>c. child c \<and> b = path_join [path_dir dst, c]" for b
  proof (rule then_do_or)
    show "kept J (\<lambda>_. True) (L_rename L dst (path_base b))"
      using that backup [OF assms(1,2)] joined [OF assms(1)] by (auto intro: rename)
  qed (use that in auto)
  have some: "holds J ?P (andThen (unless overwrite (412, False)) (\<lambda>_. andThen (unless canRemove (403, False)) (\<lambda>_.
      andThen (unusedBackupPath 10 E L dst) (\<lambda>backup.
      andThen (do_or (\<lambda>_. 500) (L_rename L dst (path_base backup))) (\<lambda>_. give (True, backup))))))"
    by (intro then_unless holds_andThen [OF unusedBackupPath_keeps [OF assms]] ren)
  have none: "holds J ?P (give (False, []))" "holds J ?P (fail 500)" by auto
  show ?thesis
    unfolding holds_def prepareDestination_def
    by (intro holds_bind [OF get [OF joined [OF assms(1)]]] kept_cases none [unfolded holds_def] some [unfolded holds_def])
qed

lemma purgeIfExists_keeps: "ok p \<Longrightarrow> kept J (\<lambda>_. True) (purgeIfExists L p)"
  unfolding purgeIfExists_def by (intro holds_bind [OF get] kept_cases kept_Ret purge TrueI)

lemma compensate_keeps:
  assumes "JoinPath u q = Inr dst" "\<not> at_base dst" "b = [] \<or> (\<exists>c. child c \<and> b = path_join [path_dir dst, c])" "J s"
  shows "pred_outcome J (compensateFailedTransfer L dst b s)"
proof -
  have "kept J (\<lambda>_. True) (L_rename L b (path_base dst))" if "b \<noteq> []"
    using that assms(3) backup [OF assms(1,2)] entry inner [OF assms(1,2)] by (intro rename) auto
  then have again: "pred_outcome J (outcome_bind (L_rename L b (path_base dst) s) (\<lambda>(_, s). Ret s))" if "b \<noteq> []" "J s" for s
    using that by (fastforce simp: kept_def intro!: pred_bind)
  have "pred_outcome (\<lambda>(r, s). J s \<and> True) (purgeIfExists L dst s)"
    using purgeIfExists_keeps [OF joined [OF assms(1)]] assms(4) by (simp add: kept_def)
  then show ?thesis unfolding compensateFailedTransfer_def by (rule pred_bind) (use again in auto)
qed

lemma dav_transfer_keeps:
  assumes "ok src" "JoinPath u q = Inr dst" "\<not> at_base dst" "\<And>n. child (''.tinylist-webdav-'' @ random_hex E n)"
  shows "holds J (\<lambda>_. True) (dav_transfer E L kind src dst overwrite canRemove)"
  unfolding dav_transfer_def
proof (rule holds_andThen [OF prepare_keeps [OF assms(2-4)]])
  fix x :: "bool \<times> string"
  assume x: "case x of (_, b) \<Rightarrow> b = [] \<or> (\<exists>c. child c \<and> b = path_join [path_dir dst, c])"
  obtain e b where eb: "x = (e, b)" by fastforce
  have b: "b = [] \<or> ok b" using x eb entry inner [OF assms(2,3)] by auto
  have clean: "kept J (\<lambda>_. True) (andThen (cleanupBackup L b) (\<lambda>_. give (if e then 204 else 201 :: nat, NoBody)))"
    unfolding cleanupBackup_def
    by (rule kept_of_holds, rule holds_then) (use b in \<open>auto intro: holds_do_or remove\<close>)
  have comp: "kept J (\<lambda>_. True) (\<lambda>s. outcome_bind (compensateFailedTransfer L dst b s) (fail 500))"
    using kept_state [where J = J and f = "compensateFailedTransfer L dst b" and x = "Inl (500, True)"]
      compensate_keeps [OF assms(2,3)] x eb
    by (simp add: answer_def [abs_def])
  have "kept J (\<lambda>_. True) (\<lambda>st. outcome_bind (L_transferTo L kind src dst st) (\<lambda>(err, st). case err of
           Some _ \<Rightarrow> outcome_bind (compensateFailedTransfer L dst b st) (fail 500)
         | None \<Rightarrow> andThen (cleanupBackup L b) (\<lambda>_. give (if e then 204 else 201 :: nat, NoBody)) st))"
    by (intro holds_bind [OF transferTo [OF assms(1) joined [OF assms(2)]]] kept_cases comp clean)
  then show "holds J (\<lambda>_. True) ((case x of (existed, backup) \<Rightarrow> \<lambda>st.
       outcome_bind (L_transferTo L kind src dst st) (\<lambda>(e, st).
         case e of
           Some _ \<Rightarrow> outcome_bind (compensateFailedTransfer L dst backup st) (fail 500)
         | None \<Rightarrow> andThen (cleanupBackup L backup) (\<lambda>_. give (if existed then 204 else 201 :: nat, NoBody)) st)))"
    unfolding eb prod.case by (rule holds_of_kept)
qed

lemma copy_move_keep:
  assumes "JoinPath u q = Inr src" "JoinPath u q' = Inr dst" "\<not> at_base dst"
    and "\<And>n. child (''.tinylist-webdav-'' @ random_hex E n)"
  shows "holds J (\<lambda>_. True) (copy_body E r L u src dst)" "holds J (\<lambda>_. True) (move_body E r L u src dst)"
  unfolding copy_body_def move_body_def copyFiles_def moveFiles_def Let_def
  by (intro dav_flow dav_steps holds_then [OF both_trees_keep] dav_transfer_keeps [OF joined [OF assms(1)] assms(2-4)])+

lemma dav_access_keeps: "holds J (\<lambda>_. True) (dav_access E L v r p)"
  unfolding dav_access_def by (intro dav_steps) (auto split: go.split intro: holds_any [OF holds_unless])

lemma walkFS_keeps: "ok p \<Longrightarrow> holds J (\<lambda>_. True) (walkFS n L v depth p fi)"
proof (induction n arbitrary: depth p fi)
  case 0
  then show ?case by auto
next
  case (Suc n)
  have walk: "holds J (\<lambda>_. True) (foldr (\<lambda>fi rest. andThen (walkFS n L v d (path_join [p, GetName fi]) fi) (\<lambda>xs.
      andThen rest (\<lambda>ys. give (xs @ ys)))) objs (give []))"
    if "\<forall>f \<in> set objs. child (GetName f)" for d objs
    using that
  proof (induction objs)
    case (Cons f objs)
    have c: "ok (path_join [p, GetName f])" using Cons.prems entry [OF Suc.prems] by simp
    show ?case
      using Cons by (auto intro!: holds_then [OF Suc.IH [OF c]] holds_then [of J _ _ "\<lambda>ys. give (xs @ ys)" for xs])
  qed auto
  have list: "holds J (\<lambda>fs. \<forall>f \<in> set fs. child (GetName f)) (get_or (\<lambda>_. 500) (L_list L (Some v) meta p False False))" for meta
    by (rule holds_mono [OF holds_get_or [OF listing [OF Suc.prems]]]) auto
  show ?case
    unfolding walkFS.simps Let_def
    by (intro holds_if dav_flow dav_steps holds_andThen [OF list] holds_then [OF walk]) auto
qed

end

locale lifted_contract = dav_contract "dav_layer F" u J ok plain child at_base
  for F :: "'t layer" and u :: User and J :: "'t dav \<Rightarrow> bool" and ok plain child at_base
begin

lemma options_keeps: "(\<And>v. user = Some v \<Longrightarrow> v = u) \<Longrightarrow> holds J (\<lambda>_. True) (handleOptions E F user r)"
  unfolding handleOptions_def Let_def by (intro dav_flow get) (auto intro: joined)

lemma propfind_keeps:
  "(\<And>v. user = Some v \<Longrightarrow> v = u) \<Longrightarrow> holds J (\<lambda>_. True) (handlePropfind E F user r)"
  unfolding handlePropfind_def Let_def
  by (intro dav_flow holds_then [OF dav_access_keeps] get holds_if holds_then [OF holds_any [OF holds_if]]
      holds_then [OF walkFS_keeps]) (auto intro: joined)

lemma get_head_post_keeps:
  "(\<And>v. user = Some v \<Longrightarrow> v = u) \<Longrightarrow> holds J (\<lambda>_. True) (handleGetHeadPost E F user r)"
proof -
  assume u: "\<And>v. user = Some v \<Longrightarrow> v = u"
  have mine: "user = Some v \<Longrightarrow> JoinPath v x = Inr p \<Longrightarrow> ok p" for v x p using u joined by blast
  have st: "holds J (\<lambda>_. True) (dav_storage (dav_layer F) p)" for p
    unfolding holds_def kept_def dav_storage_def by (auto split: prod.split sum.split) (metis storage snd_conv)
  have link: "ok p \<Longrightarrow> (\<And>x. holds J (\<lambda>_. True) (k x)) \<Longrightarrow>
      holds J (\<lambda>_. True) (andThen (get_or status (L_link (dav_layer F) p args)) k)"
    for p status args and k :: "_ \<Rightarrow> ('t dav, dav_reply, nat \<times> dav_body) handler"
    by (rule then_get_or [OF linked])
  show ?thesis
    unfolding handleGetHeadPost_def Let_def
    by (intro dav_flow holds_then [OF dav_access_keeps] get holds_if holds_then [OF st])
      (auto split: option.split intro: mine linked intro!: link)
qed

end

section \<open>Whole handlers, where the locks do not matter\<close>

locale free_contract = lifted_contract +
  assumes locks_free: "J st \<Longrightarrow> J (st\<lparr>dav_locks := m\<rparr>)"
begin

lemma lock_ops: "kept J (\<lambda>_. True) (on_locks f)"
  by (auto simp: kept_def on_locks_def locks_free split: go.split)

lemma lock_steps:
  "holds J (\<lambda>_. True) (lock_named t0 p)" "J st \<Longrightarrow> pred_outcome J (dav_unlock t0 tok st)"
  "J st \<Longrightarrow> pred_outcome J (release h st)"
proof -
  have un: "pred_outcome J (dav_unlock t0 tok st)" if "J st" for t0 tok st
  proof (cases "tok = []")
    case False
    from lock_ops [of "Unlock t0 tok"] that have "pred_outcome (\<lambda>(r, s). J s \<and> True) (on_locks (Unlock t0 tok) st)" by (simp add: kept_def)
    then have "pred_outcome J (outcome_bind (on_locks (Unlock t0 tok) st) (\<lambda>(_, st). Ret st))" by (rule pred_bind) auto
    then show ?thesis using False by (simp add: dav_unlock_def)
  qed (use that in \<open>simp add: dav_unlock_def\<close>)
  then show "J st \<Longrightarrow> pred_outcome J (dav_unlock t0 tok st)" .
  show "holds J (\<lambda>_. True) (lock_named t0 p)"
    unfolding lock_named_def dav_lock_def
    by (intro holds_if holds_give [where P = "\<lambda>_. True"] holds_of_kept holds_bind [OF lock_ops] kept_Ret TrueI)
  show "pred_outcome J (release h st)" if "J st"
  proof (cases h)
    case (Temporary t0 t t')
    then show ?thesis using that un by (auto simp: release_def intro!: pred_bind [OF un])
  next
    case (Confirmed rel)
    have "pred_outcome (\<lambda>(r, s). J s \<and> True) (on_locks (\<lambda>m. go_bind (Release rel m) (\<lambda>m. Return ((), m))) st)"
      using lock_ops that unfolding kept_def by blast
    then have "pred_outcome J (outcome_bind (on_locks (\<lambda>m. go_bind (Release rel m) (\<lambda>m. Return ((), m))) st) (\<lambda>(_, st). Ret st))"
      by (rule pred_bind) auto
    then show ?thesis using Confirmed by (simp add: release_def)
  qed
qed

lemma confirm_lists_keep: "holds J (\<lambda>_. True) (confirm_lists E r src dst k ls)"
proof (induction ls arbitrary: k)
  case (Cons l ls)
  have step: "kept J (\<lambda>_. True) (\<lambda>st. outcome_bind (on_locks (Confirm (clock r k) p dst (conditions l)) st) (\<lambda>(c, st).
             case c of
               Inl e \<Rightarrow> if e = ErrConfirmationFailed then confirm_lists E r src dst (Suc k) ls st else fail 500 st
             | Inr rel \<Rightarrow> Ret (Inr (Confirmed rel), st)))" for p
    by (intro holds_bind [OF lock_ops] kept_cases kept_of_holds [OF Cons.IH] kept_of_holds [OF holds_answer] kept_Ret TrueI)
  show ?case
    using Cons.IH step by (auto split: option.split sum.split intro: holds_of_kept)
qed auto

lemma confirmLocks_keep: "holds J (\<lambda>_. True) (confirmLocks E r src dst)"
proof -
  have un: "kept J (\<lambda>_. True) (\<lambda>st. outcome_bind (dav_unlock t0 t st) (\<lambda>st. Ret (x, st)))" for t0 t and x :: "dav_reply + lock_claim"
    by (rule kept_state [OF lock_steps(2)])
  have "holds J (\<lambda>_. True) (temporary_locks t0 src dst)" for t0
    unfolding temporary_locks_def
    by (rule holds_then [OF lock_steps(1)], rule holds_of_kept,
        intro holds_bind [OF kept_of_holds [OF lock_steps(1)]] kept_cases un kept_Ret TrueI)
  then show ?thesis
    unfolding confirmLocks_def using confirm_lists_keep by (auto split: option.split)
qed

lemma with_locks_keep:
  assumes "holds J (\<lambda>_. True) body"
  shows "holds J (\<lambda>_. True) (with_locks E r src dst body)"
  unfolding with_locks_def
proof (rule holds_then [OF confirmLocks_keep])
  fix h
  have "kept J (\<lambda>_. True) (\<lambda>st. outcome_bind (release h st) (\<lambda>st. Ret (res, st)))" for res :: "dav_reply + 'c"
    by (rule kept_state [OF lock_steps(3)])
  then have "kept J (\<lambda>_. True) (\<lambda>st. outcome_bind (body st) (\<lambda>(res, st). outcome_bind (release h st) (\<lambda>st. Ret (res, st))))"
    by (rule holds_bind [OF kept_of_holds [OF assms]])
  then show "holds J (\<lambda>_. True) (\<lambda>st. outcome_bind (body st) (\<lambda>(res, st). outcome_bind (release h st) (\<lambda>st. Ret (res, st))))"
    by (rule holds_of_kept)
qed

lemma lock_handlers:
  assumes "\<And>v. user = Some v \<Longrightarrow> v = u"
  shows "holds J (\<lambda>_. True) (handleLock E F user r)" "holds J (\<lambda>_. True) (handleUnlock E F user r)"
proof -
  have c: "holds J (\<lambda>_. True) (case x of Inl _ \<Rightarrow> fail s | Inr d \<Rightarrow> give d)" for x :: "'x + 'y" and s
    by (auto split: sum.split)
  have opt: "holds J (\<lambda>_. True) (case x of None \<Rightarrow> fail s | Some d \<Rightarrow> give (g d))" for x :: "'x option" and g :: "'x \<Rightarrow> 'y" and s
    by (auto split: option.split)
  have opt': "holds J (\<lambda>_. True) (case x of None \<Rightarrow> fail s | Some d \<Rightarrow> give d)" for x :: "'x option" and s
    by (auto split: option.split)
  have end_: "holds J (\<lambda>_. True) (\<lambda>st. outcome_bind (on_locks f st) (\<lambda>(res, st). Ret (g res, st)))"
    for f :: "memLS \<Rightarrow> ('x \<times> memLS) go" and g :: "'x \<Rightarrow> dav_reply + nat \<times> dav_body"
    by (intro holds_of_kept holds_bind [OF lock_ops] kept_Ret TrueI)
  show "holds J (\<lambda>_. True) (handleLock E F user r)"
    unfolding handleLock_def Let_def
    by (intro holds_then [OF c] holds_if holds_then [OF opt] dav_flow dav_steps end_ holds_then [OF holds_any [OF holds_if]])
      auto
  show "holds J (\<lambda>_. True) (handleUnlock E F user r)"
    unfolding handleUnlock_def Let_def
    by (intro holds_then [OF opt'] dav_flow dav_steps end_)
qed

text \<open>The requests whose target may not be the base: it is written beside it, or created below its parent.\<close>

lemma dav_handler_keeps:
  assumes u: "\<And>v. user = Some v \<Longrightarrow> v = u"
    and target: "\<And>p q. Method r \<in> {''PUT'', ''MKCOL''} \<Longrightarrow> stripPrefix E (UrlPath r) = Inr p \<Longrightarrow> JoinPath u p = Inr q \<Longrightarrow> \<not> at_base q"
    and dest: "\<And>t p q. Method r \<in> {''COPY'', ''MOVE''} \<Longrightarrow> destination E r = Inr t \<Longrightarrow> stripPrefix E t = Inr p \<Longrightarrow>
      JoinPath u p = Inr q \<Longrightarrow> \<not> at_base q"
    and names: "\<And>n. child (''.tinylist-webdav-'' @ random_hex E n)"
  shows "holds J (\<lambda>_. True) (dav_handler E F user r)"
proof -
  have del: "holds J (\<lambda>_. True) (handleDelete E F user r)"
    unfolding handleDelete_def by (intro dav_flow with_locks_keep delete_body_keeps u)
  have pat: "holds J (\<lambda>_. True) (handleProppatch E F user r)"
    unfolding handleProppatch_def by (intro dav_flow with_locks_keep proppatch_body_keeps u)
  have put: "holds J (\<lambda>_. True) (handlePut E F user r)" if "Method r = ''PUT''"
    unfolding handlePut_def by (intro dav_flow with_locks_keep put_body_keeps u) (use target that in auto)
  have mk: "holds J (\<lambda>_. True) (handleMkcol E F user r)" if "Method r = ''MKCOL''"
    unfolding handleMkcol_def by (intro dav_flow with_locks_keep mkcol_body_keeps u) (use target that in auto)
  have cm: "holds J (\<lambda>_. True) (handleCopyMove E F user r)" if m: "Method r \<in> {''COPY'', ''MOVE''}"
    unfolding handleCopyMove_def
  proof (intro dav_flow)
    fix t p q v src dst
    assume d: "destination E r = Inr t" "stripPrefix E t = Inr q" and v: "user = Some v"
      and j: "JoinPath v p = Inr src" "JoinPath v q = Inr dst"
    have v: "v = u" using u v by blast
    note k = copy_move_keep [OF j [unfolded v] dest [OF m d j(2) [unfolded v]] names]
    show "holds J (\<lambda>_. True) (if Method r = ''COPY'' then with_locks E r [] dst (copy_body E r (dav_layer F) v src dst)
     else with_locks E r src dst (move_body E r (dav_layer F) v src dst))"
      unfolding v by (intro holds_if with_locks_keep k)
  qed
  show ?thesis
    unfolding dav_handler_def
    using options_keeps [OF u] get_head_post_keeps [OF u] propfind_keeps [OF u] lock_handlers [OF u] del pat put mk cm by auto
qed

end

end
