(* ===== verification/DavLocks.thy ===== *)
theory DavLocks
  imports DavRules LockTheorems
begin

text \<open>
  The lock system around a WebDAV request: a request that takes temporary locks, or that confirms the
  locks of its If header, gives them back when it has been served, whatever the answer.  A relation
  \<open>settled\<close> between the lock system before and after says so: the state is a reachable one with the
  same outstanding releases, and it has the same locks except those that have run out.
\<close>

section \<open>Locks that run out and temporary locks\<close>

definition lasting :: "alock \<Rightarrow> bool" where
  "lasting l \<longleftrightarrow> a_until l = None \<and> \<not> a_held l"

lemma purge_simps:
  "purge n (purge n A) = purge n A"
  "lasting l \<Longrightarrow> purge n (A(t := Some l)) = (purge n A)(t := Some l)"
  "purge n (A(t := None)) = (purge n A)(t := None)"
  by (auto simp: purge_def lasting_def expired_def fun_eq_iff split: option.split)

text \<open>\<open>B\<close> is \<open>A\<close> less the locks that ran out at some times of \<open>T\<close>, one after the other.\<close>

definition lapsed :: "int set \<Rightarrow> alocks \<Rightarrow> alocks \<Rightarrow> bool" where
  "lapsed T A B \<longleftrightarrow> (\<exists>ns. set ns \<subseteq> T \<and> B = fold purge ns A)"

lemma lapsed_refl [simp]: "lapsed T A A"
  unfolding lapsed_def by (rule exI [of _ "[]"]) simp

lemma lapsed_purge: "lapsed T A B \<Longrightarrow> n \<in> T \<Longrightarrow> lapsed T A (purge n B)"
  unfolding lapsed_def by (elim exE, rule_tac x = "ns @ [n]" in exI) simp

lemma lapsed_trans: "lapsed T A B \<Longrightarrow> lapsed T B C \<Longrightarrow> lapsed T A C"
  unfolding lapsed_def by (elim exE, rule_tac x = "ns @ nsa" in exI) simp

text \<open>A map with a lock under a token, where the empty token stands for no lock.\<close>

definition with_token :: "string \<Rightarrow> alock \<Rightarrow> alocks \<Rightarrow> alocks" where
  "with_token t l A = (if t = [] then A else A(t := Some l))"

definition token_new :: "string \<Rightarrow> alocks \<Rightarrow> bool" where
  "token_new t A \<longleftrightarrow> t = [] \<or> A t = None"

section \<open>Steps of the lock system\<close>

lemma Create_step:
  assumes "ls_reach g0 k m R" "k < 2 ^ 64"
  obtains (refused) m' where "Create t0 d m = Return (Inl ErrLocked, m')" "ls_reach g0 k m' R" "abs_locks m' = purge t0 (abs_locks m)"
      "\<exists>t l. purge t0 (abs_locks m) t = Some l \<and> conflict (a_details l) (d\<lparr>Root := slashClean (Root d)\<rparr>)"
  | (made) t m' where "Create t0 d m = Return (Inr t, m')" "ls_reach g0 (Suc k) m' R" "abs_locks m t = None"
      "abs_locks m' = (purge t0 (abs_locks m))(t := Some (new_alock t0 (d\<lparr>Root := slashClean (Root d)\<rparr>)))"
      "t \<noteq> []" "\<nexists>t l. purge t0 (abs_locks m) t = Some l \<and> conflict (a_details l) (d\<lparr>Root := slashClean (Root d)\<rparr>)"
proof -
  have ok: "ls_ok m" and g: "gen_ok g0 k m" using ls_reach_ok [OF assms(1)] by (simp_all add: run_ok_def)
  note fresh = next_token_fresh [OF g assms(2)]
  then have "byToken m (show_nat (unat (gen m + 1))) = None" by (simp add: abs_locks_def)
  from Create_ok [OF ok this, of t0 d] show thesis
    using refused made fresh ls_reach.not_created [OF assms, of t0 d] ls_reach.created [OF assms, of t0 d]
    unfolding Let_def by (auto split: if_splits)
qed

lemma Unlock_step:
  assumes "ls_reach g0 k m R"
  obtains e m' where "Unlock t0 tok m = Return (e, m')" "ls_reach g0 k m' R"
    "abs_locks m' = purge t0 (abs_locks m) \<and> (purge t0 (abs_locks m) tok = None \<or>
       (\<exists>l. purge t0 (abs_locks m) tok = Some l \<and> a_held l)) \<or>
     abs_locks m' = (purge t0 (abs_locks m))(tok := None)"
proof -
  have ok: "ls_ok m" using ls_reach_ok [OF assms] by (simp add: run_ok_def)
  from Unlock_ok [OF ok, of t0 tok] show thesis
    using that ls_reach.unlocked [OF assms, of t0 tok] by (fastforce split: option.splits if_splits)
qed

lemma set_held_back:
  assumes "\<forall>t \<in> X. \<forall>l. A t = Some l \<longrightarrow> \<not> a_held l"
  shows "set_held False X (set_held True X A) = A"
proof
  fix t
  show "set_held False X (set_held True X A) t = A t"
    using assms by (cases "A t") (auto simp: set_held_def)
qed

lemma Confirm_step:
  assumes "ls_reach g0 k m R"
  obtains (refused) m' where "Confirm t0 p q conds m = Return (Inl ErrConfirmationFailed, m')" "ls_reach g0 k m' R"
      "abs_locks m' = purge t0 (abs_locks m)"
  | (confirmed) rel m' where "Confirm t0 p q conds m = Return (Inr rel, m')" "ls_reach g0 k m' (rel # R)"
      "\<exists>m''. Release rel m' = Return m'' \<and> ls_reach g0 k m'' R \<and> abs_locks m'' = purge t0 (abs_locks m)"
proof -
  have ok: "ls_ok m" using ls_reach_ok [OF assms] by (simp add: run_ok_def)
  let ?A = "purge t0 (abs_locks m)"
  obtain m' where m': "let t = claimed ?A p conds; t' = claimed ?A q conds
     in if (p \<noteq> [] \<and> t = None) \<or> (q \<noteq> [] \<and> t' = None)
        then Confirm t0 p q conds m = Return (Inl ErrConfirmationFailed, m') \<and>
             abs_locks m' = ?A \<and> (\<forall>b. held (nodes m' b) = held (nodes m b))
        else \<exists>n0 n1. Confirm t0 p q conds m = Return (Inr (n0, n1), m') \<and>
             abs_locks m' = set_held True (set_option t \<union> set_option t') ?A \<and>
             tokens_of m' n0 \<union> tokens_of m' n1 = set_option t \<union> set_option t' \<and>
             set_option n0 \<inter> set_option n1 = {} \<and>
             (\<forall>b. held (nodes m' b) \<longleftrightarrow> b \<in> set_option n0 \<union> set_option n1 \<or> held (nodes m b)) \<and>
             (\<forall>b \<in> set_option n0 \<union> set_option n1. \<not> held (nodes m b))"
    using Confirm_ok [OF ok, of t0 p conds q] unfolding Let_def by blast
  show thesis
  proof (cases "(p \<noteq> [] \<and> claimed ?A p conds = None) \<or> (q \<noteq> [] \<and> claimed ?A q conds = None)")
    case True
    with m' have "Confirm t0 p q conds m = Return (Inl ErrConfirmationFailed, m')" "abs_locks m' = ?A"
      by (simp_all add: Let_def)
    then show thesis using refused ls_reach.not_confirmed [OF assms] by blast
  next
    case False
    let ?X = "set_option (claimed ?A p conds) \<union> set_option (claimed ?A q conds)"
    from False m' obtain n0 n1 where c: "Confirm t0 p q conds m = Return (Inr (n0, n1), m')"
      "abs_locks m' = set_held True ?X ?A" "tokens_of m' n0 \<union> tokens_of m' n1 = ?X"
      unfolding Let_def if_not_P [OF False] by blast
    have r: "ls_reach g0 k m' ((n0, n1) # R)" by (rule ls_reach.confirmed [OF assms c(1)])
    from released_ok [of g0 k m' "[]" "(n0, n1)" R] ls_reach_ok [OF r]
    obtain m'' where rel: "Release (n0, n1) m' = Return m''" "abs_locks m'' = set_held False ?X (abs_locks m')"
      using c(3) by auto
    have "\<forall>t \<in> ?X. \<forall>l. ?A t = Some l \<longrightarrow> \<not> a_held l"
      by (auto simp: claimed_def split: if_splits dest!: spec_lookup_Some)
    then have "abs_locks m'' = ?A" using rel(2) c(2) set_held_back by simp
    moreover have "ls_reach g0 k m'' R" using ls_reach.released [of g0 k m' "[]" "(n0, n1)" R m''] r rel(1) by simp
    ultimately show thesis using confirmed [OF c(1) r] rel(1) by blast
  qed
qed

section \<open>Requests settle their locks\<close>

text \<open>After a request: reachable with the same releases outstanding, and the locks less those that ran
  out at some of the times \<open>T\<close>.\<close>

definition settled ::
  "int set \<Rightarrow> 64 word \<Rightarrow> nat \<Rightarrow> (nat option \<times> nat option) list \<Rightarrow> memLS \<Rightarrow> memLS \<Rightarrow> bool" where
  "settled T g0 k R m m' \<longleftrightarrow>
     (\<exists>k' \<le> k + 2. ls_reach g0 k' m' R) \<and> lapsed T (abs_locks m) (abs_locks m')"

text \<open>While it is served: what its release gives back.\<close>

definition holding ::
  "int set \<Rightarrow> 64 word \<Rightarrow> nat \<Rightarrow> (nat option \<times> nat option) list \<Rightarrow> memLS \<Rightarrow> lock_claim \<Rightarrow> memLS \<Rightarrow> bool" where
  "holding T g0 k R m h m' \<longleftrightarrow>
     (case h of
        Temporary t0 t t' \<Rightarrow>
          (\<exists>k' \<le> k + 2. ls_reach g0 k' m' R) \<and>
          (\<exists>B l l'. abs_locks m' = with_token t' l' (with_token t l B) \<and> lapsed T (abs_locks m) B \<and>
             token_new t B \<and> token_new t' B \<and> (t = t' \<longrightarrow> t = []) \<and> lasting l \<and> lasting l' \<and>
             (t \<noteq> [] \<or> t' \<noteq> [] \<longrightarrow> purge t0 B = B))
      | Confirmed rel \<Rightarrow>
          \<exists>k' \<le> k + 2. \<exists>m''. Release rel m' = Return m'' \<and> ls_reach g0 k' m'' R \<and>
            lapsed T (abs_locks m) (abs_locks m''))"

lemma settled_refl: "ls_reach g0 k m R \<Longrightarrow> settled T g0 k R m m"
  by (auto simp: settled_def intro: exI [of _ k])

lemma lasting_temporary: "lasting (new_alock t0 ((temporary_lock p)\<lparr>Root := q\<rparr>))"
  by (simp add: lasting_def new_alock_def temporary_lock_def infiniteTimeout_def)

lemma lock_named_cases:
  assumes "ls_reach g0 k (dav_locks st) R" "k < 2 ^ 64"
  obtains (none) "path = []" "lock_named t0 path st = Ret (Inr [], st)"
  | (refused) m' where "lock_named t0 path st = Ret (Inl (423, True), st\<lparr>dav_locks := m'\<rparr>)" "ls_reach g0 k m' R"
      "abs_locks m' = purge t0 (abs_locks (dav_locks st))"
  | (made) t l m' where "lock_named t0 path st = Ret (Inr t, st\<lparr>dav_locks := m'\<rparr>)" "ls_reach g0 (Suc k) m' R"
      "t \<noteq> []" "abs_locks (dav_locks st) t = None" "lasting l"
      "abs_locks m' = (purge t0 (abs_locks (dav_locks st)))(t := Some l)"
proof (cases "path = []")
  case True
  then show thesis using none by (simp add: lock_named_def give_def)
next
  case False
  from assms show thesis
  proof (cases rule: Create_step [of g0 k "dav_locks st" R t0 "temporary_lock path"])
    case (refused m')
    then show thesis using that(2) False by (simp add: lock_named_def dav_lock_def on_locks_def)
  next
    case (made t m')
    show thesis
      by (rule that(3) [OF _ made(2,5,3) lasting_temporary made(4)]) (use made(1) False in \<open>simp add: lock_named_def dav_lock_def on_locks_def\<close>)
  qed
qed

lemma dav_unlock_token:
  assumes "ls_reach g0 k (dav_locks st) R" "t \<noteq> []" "abs_locks (dav_locks st) = B(t := Some l)" "B t = None" "lasting l"
    and "purge t0 B = B"
  shows "\<exists>m'. dav_unlock t0 t st = Ret (st\<lparr>dav_locks := m'\<rparr>) \<and> ls_reach g0 k m' R \<and> abs_locks m' = B"
proof -
  obtain e m' where u: "Unlock t0 t (dav_locks st) = Return (e, m')" "ls_reach g0 k m' R"
    "abs_locks m' = purge t0 (abs_locks (dav_locks st)) \<and> (purge t0 (abs_locks (dav_locks st)) t = None \<or>
       (\<exists>l. purge t0 (abs_locks (dav_locks st)) t = Some l \<and> a_held l)) \<or>
     abs_locks m' = (purge t0 (abs_locks (dav_locks st)))(t := None)"
    using Unlock_step [OF assms(1)] by blast
  have "purge t0 (abs_locks (dav_locks st)) = B(t := Some l)" using assms(3,5,6) by (simp add: purge_simps)
  then have "abs_locks m' = B" using u(3) assms(4,5) by (auto simp: lasting_def)
  then show ?thesis using u assms(2) by (intro exI [of _ m']) (simp add: dav_unlock_def on_locks_def)
qed

lemma release_settles:
  assumes "holding T g0 k R m h (dav_locks st)"
  shows "pred_outcome (\<lambda>st'. dav_files st' = dav_files st \<and> settled T g0 k R m (dav_locks st')) (release h st)"
proof (cases h)
  case (Confirmed rel)
  then show ?thesis using assms by (auto simp: holding_def settled_def release_def on_locks_def)
next
  case (Temporary t0 t t')
  then obtain k' B l l' where h: "k' \<le> k + 2" "ls_reach g0 k' (dav_locks st) R"
    "abs_locks (dav_locks st) = with_token t' l' (with_token t l B)" "lapsed T (abs_locks m) B"
    "token_new t B" "token_new t' B" "t = t' \<longrightarrow> t = []" "lasting l" "lasting l'" "t \<noteq> [] \<or> t' \<noteq> [] \<longrightarrow> purge t0 B = B"
    using assms by (auto simp: holding_def)
  have "\<exists>m1. dav_unlock t0 t' st = Ret (st\<lparr>dav_locks := m1\<rparr>) \<and> ls_reach g0 k' m1 R \<and> abs_locks m1 = with_token t l B"
  proof (cases "t' = []")
    case True
    then show ?thesis using h by (intro exI [of _ "dav_locks st"]) (simp add: dav_unlock_def with_token_def)
  next
    case False
    have p: "purge t0 (with_token t l B) = with_token t l B" using h(8,10) False by (simp add: with_token_def purge_simps)
    have n: "with_token t l B t' = None" using h(6,7) False by (auto simp: with_token_def token_new_def)
    have e: "abs_locks (dav_locks st) = (with_token t l B)(t' := Some l')" using h(3) False by (simp add: with_token_def)
    show ?thesis by (rule dav_unlock_token [OF h(2) False e n h(9) p])
  qed
  then obtain m1 where m1: "dav_unlock t0 t' st = Ret (st\<lparr>dav_locks := m1\<rparr>)" "ls_reach g0 k' m1 R" "abs_locks m1 = with_token t l B"
    by blast
  let ?st = "st\<lparr>dav_locks := m1\<rparr>"
  have "\<exists>m2. dav_unlock t0 t ?st = Ret (?st\<lparr>dav_locks := m2\<rparr>) \<and> ls_reach g0 k' m2 R \<and> abs_locks m2 = B"
  proof (cases "t = []")
    case True
    then show ?thesis using m1 by (intro exI [of _ m1]) (simp add: dav_unlock_def with_token_def)
  next
    case False
    show ?thesis
      by (rule dav_unlock_token [OF _ False _ _ h(8)]) (use m1 h False in \<open>simp_all add: with_token_def token_new_def\<close>)
  qed
  then show ?thesis using m1(1) h(1,4) Temporary by (auto simp: release_def settled_def)
qed

lemma temporary_locks_hold:
  assumes reach: "ls_reach g0 k (dav_locks st) R" and k: "k + 2 < 2 ^ 64" and t0: "t0 \<in> T"
  shows "pred_outcome (\<lambda>(r, st'). dav_files st' = dav_files st \<and> (case r of
       Inl _ \<Rightarrow> settled T g0 k R (dav_locks st) (dav_locks st')
     | Inr h \<Rightarrow> holding T g0 k R (dav_locks st) h (dav_locks st'))) (temporary_locks t0 src dst st)"
proof -
  let ?A = "abs_locks (dav_locks st)"
  have one: "lapsed T ?A (purge t0 ?A)" by (rule lapsed_purge [OF lapsed_refl t0])
  have lt: "k < 2 ^ 64" "Suc k < 2 ^ 64" using k by simp_all
  obtain l0 :: alock where l0: "lasting l0" using lasting_temporary by blast
  from reach lt(1) show ?thesis
  proof (cases rule: lock_named_cases [of g0 k st R src t0])
    case none
    note src = none
    from reach lt(1) show ?thesis
    proof (cases rule: lock_named_cases [of g0 k st R dst t0])
      case none
      then show ?thesis
        using src reach l0
        by (auto simp: temporary_locks_def andThen_def holding_def with_token_def token_new_def intro!: exI [of _ k] exI [of _ ?A])
    next
      case (refused m')
      then show ?thesis
        using src one by (auto simp: temporary_locks_def andThen_def settled_def dav_unlock_def intro!: exI [of _ k])
    next
      case (made t l m')
      then show ?thesis
        using src one
        by (auto simp: temporary_locks_def andThen_def holding_def with_token_def token_new_def purge_simps purge_def [of _ _ t]
            intro!: exI [of _ "Suc k"] exI [of _ "purge t0 ?A"] exI [of _ l])
    qed
  next
    case (refused m')
    then show ?thesis using one by (auto simp: temporary_locks_def andThen_def settled_def intro!: exI [of _ k])
  next
    case (made t l m1)
    let ?st = "st\<lparr>dav_locks := m1\<rparr>"
    note src = made
    have r: "ls_reach g0 (Suc k) (dav_locks ?st) R" using src(2) by simp
    have A1: "abs_locks (dav_locks ?st) = (purge t0 ?A)(t := Some l)" "purge t0 ?A t = None"
      using src(4,6) by (simp_all add: purge_def)
    from r lt(2) show ?thesis
    proof (cases rule: lock_named_cases [of g0 "Suc k" ?st R dst t0])
      case none
      then show ?thesis
        using src one A1
        by (auto simp: temporary_locks_def andThen_def holding_def with_token_def token_new_def purge_simps
            intro!: exI [of _ "Suc k"] exI [of _ "purge t0 ?A"] exI [of _ l])
    next
      case (refused m')
      have "abs_locks m' = (purge t0 ?A)(t := Some l)" using refused(3) A1(1) src(5) by (simp add: purge_simps)
      from dav_unlock_token [of g0 "Suc k" "st\<lparr>dav_locks := m'\<rparr>" R t "purge t0 ?A" l t0] this refused(2) src(3,5) A1(2)
      obtain m2 where "dav_unlock t0 t (st\<lparr>dav_locks := m'\<rparr>) = Ret (st\<lparr>dav_locks := m2\<rparr>)" "ls_reach g0 (Suc k) m2 R"
        "abs_locks m2 = purge t0 ?A" by (auto simp: purge_simps)
      then show ?thesis
        using src(1) refused(1) one
        by (auto simp: temporary_locks_def andThen_def settled_def intro!: exI [of _ "Suc k"])
    next
      case (made t' l' m')
      have tt: "t' \<noteq> t" "purge t0 ?A t' = None" using made(4) A1 by (auto split: if_splits)
      have abs: "abs_locks m' = (purge t0 ?A)(t := Some l, t' := Some l')"
        using made(6) A1(1) src(5) by (simp add: purge_simps)
      have "holding T g0 k R (dav_locks st) (Temporary t0 t t') m'"
        unfolding holding_def lock_claim.case
      proof (intro conjI)
        show "\<exists>k' \<le> k + 2. ls_reach g0 k' m' R" using made(2) by (intro exI [of _ "Suc (Suc k)"]) simp
        show "\<exists>B l l'. abs_locks m' = with_token t' l' (with_token t l B) \<and> lapsed T ?A B \<and>
             token_new t B \<and> token_new t' B \<and> (t = t' \<longrightarrow> t = []) \<and> lasting l \<and> lasting l' \<and>
             (t \<noteq> [] \<or> t' \<noteq> [] \<longrightarrow> purge t0 B = B)"
          by (intro exI [of _ "purge t0 ?A"] exI [of _ l] exI [of _ l'])
            (use abs tt src(3,5) made(3,5) one A1(2) in \<open>simp add: with_token_def token_new_def purge_simps\<close>)
      qed
      then show ?thesis using src(1) made(1) by (simp add: temporary_locks_def andThen_def)
    qed
  qed
qed

lemma confirm_lists_hold:
  assumes "ls_reach g0 k' (dav_locks st) R" "k' \<le> k + 2" "lapsed (range (clock r)) (abs_locks m) (abs_locks (dav_locks st))"
  shows "pred_outcome (\<lambda>(res, st'). dav_files st' = dav_files st \<and> (case res of
       Inl _ \<Rightarrow> settled (range (clock r)) g0 k R m (dav_locks st')
     | Inr h \<Rightarrow> holding (range (clock r)) g0 k R m h (dav_locks st'))) (confirm_lists E r src dst i ls st)"
  using assms
proof (induction ls arbitrary: st i)
  case Nil
  then show ?case by (auto simp: answer_def settled_def)
next
  case (Cons l ls)
  show ?case
  proof (cases "list_source E r src (resourceTag l)")
    case None
    then show ?thesis using Cons.IH [OF Cons.prems] by simp
  next
    case (Some res)
    show ?thesis
    proof (cases res)
      case (Inl status)
      then show ?thesis using Some Cons.prems by (auto simp: answer_def settled_def)
    next
      case (Inr lsrc)
      have drained: "lapsed (range (clock r)) (abs_locks m) (purge (clock r i) (abs_locks (dav_locks st)))"
        by (rule lapsed_purge [OF Cons.prems(3)]) simp
      from Cons.prems(1) show ?thesis
      proof (cases rule: Confirm_step [of g0 k' "dav_locks st" R "clock r i" lsrc dst "conditions l"])
        case (refused m')
        then show ?thesis
          using Cons.IH [of "st\<lparr>dav_locks := m'\<rparr>" "Suc i"] Cons.prems(2) drained Some Inr by (simp add: on_locks_def)
      next
        case (confirmed rel m')
        then show ?thesis
          using Cons.prems(2) drained Some Inr by (auto simp: on_locks_def holding_def intro!: exI [of _ k'])
      qed
    qed
  qed
qed

lemma confirmLocks_hold:
  assumes "ls_reach g0 k (dav_locks st) R" "k + 2 < 2 ^ 64"
  shows "pred_outcome (\<lambda>(res, st'). dav_files st' = dav_files st \<and> (case res of
       Inl _ \<Rightarrow> settled (range (clock r)) g0 k R (dav_locks st) (dav_locks st')
     | Inr h \<Rightarrow> holding (range (clock r)) g0 k R (dav_locks st) h (dav_locks st'))) (confirmLocks E r src dst st)"
proof -
  have same: "settled (range (clock r)) g0 k R (dav_locks st) (dav_locks st)"
    by (rule settled_refl [OF assms(1)])
  show ?thesis
    using temporary_locks_hold [OF assms, of "clock r 0"] confirm_lists_hold [OF assms(1)] same
    by (auto simp: confirmLocks_def answer_def split: option.split)
qed

text \<open>A body that leaves the lock system alone.\<close>

definition frames :: "('s dav, 'r, 'a) handler \<Rightarrow> bool" where
  "frames h \<longleftrightarrow> (\<forall>m. holds (\<lambda>st. dav_locks st = m) (\<lambda>_. True) h)"

lemma frames_pred: "frames h \<Longrightarrow> pred_outcome (\<lambda>(_, st'). dav_locks st' = dav_locks st) (h st)"
  unfolding frames_def holds_def kept_def by (auto elim!: allE [of _ "dav_locks st"] outcome.pred_mono_strong)

definition settles ::
  "64 word \<Rightarrow> nat \<Rightarrow> (nat option \<times> nat option) list \<Rightarrow> dav_request \<Rightarrow> ('s dav, 'r, 'a) handler \<Rightarrow> bool" where
  "settles g0 k R r h \<longleftrightarrow> (\<forall>st. ls_reach g0 k (dav_locks st) R \<longrightarrow>
     pred_outcome (\<lambda>(_, st'). settled (range (clock r)) g0 k R (dav_locks st) (dav_locks st')) (h st))"

lemma frames_settles:
  fixes h :: "('s dav, 'r, 'a) handler"
  shows "frames h \<Longrightarrow> settles g0 k R r h"
  unfolding settles_def
proof (intro allI impI)
  fix st :: "'s dav"
  assume h: "frames h" and st: "ls_reach g0 k (dav_locks st) R"
  have "settled (range (clock r)) g0 k R (dav_locks st) (dav_locks st)" by (rule settled_refl [OF st])
  then show "pred_outcome (\<lambda>(_, st'). settled (range (clock r)) g0 k R (dav_locks st) (dav_locks st')) (h st)"
    using frames_pred [OF h, of st] by (auto elim!: outcome.pred_mono_strong)
qed

lemma with_locks_settle:
  fixes body :: "('s dav, dav_reply, 'a) handler"
  assumes "frames body" "k + 2 < 2 ^ 64"
  shows "settles g0 k R r (with_locks E r src dst body)"
  unfolding settles_def with_locks_def andThen_def
proof (intro allI impI)
  fix st :: "'s dav"
  assume st: "ls_reach g0 k (dav_locks st) R"
  let ?S = "settled (range (clock r)) g0 k R (dav_locks st)" and ?H = "holding (range (clock r)) g0 k R (dav_locks st)"
  have rel: "pred_outcome (\<lambda>(_, st'). ?S (dav_locks st'))
      (outcome_bind (body st1) (\<lambda>(res, st). outcome_bind (release h st) (\<lambda>st. Ret (res, st))))"
    if "?H h (dav_locks st1)" for h st1
  proof (rule pred_bind [OF frames_pred [OF assms(1)]])
    fix x :: "_ \<times> 's dav" assume "case x of (uu, st') \<Rightarrow> dav_locks st' = dav_locks st1"
    then have "?H h (dav_locks (snd x))" using that by (simp add: split_beta)
    from release_settles [OF this]
    show "pred_outcome (\<lambda>(_, st'). ?S (dav_locks st')) (case x of (res, st) \<Rightarrow> outcome_bind (release h st) (\<lambda>st. Ret (res, st)))"
      by (auto simp: split_beta intro: pred_bind)
  qed
  show "pred_outcome (\<lambda>(_, st'). ?S (dav_locks st'))
      (outcome_bind (confirmLocks E r src dst st) (\<lambda>(res, st). case res of Inl a \<Rightarrow> Ret (Inl a, st)
        | Inr h \<Rightarrow> outcome_bind (body st) (\<lambda>(res, st). outcome_bind (release h st) (\<lambda>st. Ret (res, st)))))"
    by (rule pred_bind [OF confirmLocks_hold [OF st assms(2)]]) (use rel in \<open>auto split: sum.splits\<close>)
qed

text \<open>First steps that do not touch the state.\<close>

definition silent :: "('s, 'r, 'a) handler \<Rightarrow> bool" where
  "silent h \<longleftrightarrow> (\<forall>s. \<exists>r. h s = Ret (r, s))"

lemma silent_intros [intro]:
  "silent (answer r)" "silent (give x)" "silent (unless b a)" "silent (or_fail q)" "silent (dav_user user)" "silent (dav_join u p)"
  by (auto simp: silent_def answer_def give_def unless_def or_fail_def dav_user_def dav_join_def split: sum.split option.split)

lemma settles_silent:
  fixes h :: "('s dav, 'r, 'a) handler"
  assumes "silent h" "\<And>x. settles g0 k R r (f x)"
  shows "settles g0 k R r (andThen h f)"
  unfolding settles_def andThen_def
proof (intro allI impI)
  fix st :: "'s dav"
  assume st: "ls_reach g0 k (dav_locks st) R"
  obtain res where "h st = Ret (res, st)" using assms(1) by (auto simp: silent_def)
  moreover have "settled (range (clock r)) g0 k R (dav_locks st) (dav_locks st)" by (rule settled_refl [OF st])
  ultimately show "pred_outcome (\<lambda>(_, st'). settled (range (clock r)) g0 k R (dav_locks st) (dav_locks st'))
      (outcome_bind (h st) (\<lambda>(res, s). case res of Inl a \<Rightarrow> Ret (Inl a, s) | Inr x \<Rightarrow> f x s))"
    using assms(2) st by (auto simp: settles_def split: sum.split)
qed

lemma settles_answer: "settles g0 k R r (answer a)"
  by (auto simp: settles_def answer_def settled_refl)

end
