(* ===== verification/DavProps.thy ===== *)
theory DavProps
  imports DavLocks HandlerProps
begin

text \<open>
  What WebDAV requests promise: they give back the locks they take, they leave locked paths alone, they stay
  below the base of their user, and a failed transfer puts the old destination back; and where they do
  not keep what they promise.
\<close>

section \<open>The contracts\<close>

lemma kept_on_files: "kept J P f \<Longrightarrow> kept (\<lambda>st. J (dav_files st)) P (on_files f)"
  unfolding kept_def on_files_def by (auto intro!: pred_bind)

lemma frame_on_files: "kept (\<lambda>st. dav_locks st = m) (\<lambda>_. True) (on_files f)"
  unfolding kept_def on_files_def by (auto intro!: pred_bind [where P = "\<lambda>_. True"] simp: outcome.pred_True)

lemma frame_listing: "kept (\<lambda>st. dav_locks st = m) (\<lambda>r. \<forall>fs. r = Inr fs \<longrightarrow> (\<forall>f \<in> set fs. True)) (on_files f)"
  using frame_on_files by simp

interpretation dav_frame: lifted_contract F u "\<lambda>st. dav_locks st = m" "\<lambda>_. True" "\<lambda>_. True" "\<lambda>_. True" "\<lambda>_. False" for F u m
  by unfold_locales (auto simp: dav_layer_def split_beta intro: frame_on_files frame_listing)

lemma frames_handlers:
  fixes F :: "'s layer"
  shows "frames (delete_body (dav_layer F) user p)" "frames (put_body E r (dav_layer F) user p)" "frames (mkcol_body r (dav_layer F) user p)"
    and "frames (proppatch_body E r (dav_layer F) user p)" "frames (handleOptions E F user r)"
    and "frames (handlePropfind E F user r)" "frames (handleGetHeadPost E F user r)"
proof -
  obtain u where u: "\<And>v. user = Some v \<Longrightarrow> v = u" by (cases user) auto
  note k = dav_frame.delete_body_keeps dav_frame.put_body_keeps dav_frame.mkcol_body_keeps dav_frame.proppatch_body_keeps
    dav_frame.options_keeps dav_frame.propfind_keeps dav_frame.get_head_post_keeps
  show "frames (delete_body (dav_layer F) user p)" "frames (put_body E r (dav_layer F) user p)" "frames (mkcol_body r (dav_layer F) user p)"
    "frames (proppatch_body E r (dav_layer F) user p)" "frames (handleOptions E F user r)"
    "frames (handlePropfind E F user r)" "frames (handleGetHeadPost E F user r)"
    unfolding frames_def by (intro allI k [where u = u] u; simp)+
qed

lemma frames_copy_move:
  assumes "JoinPath u q = Inr src" "JoinPath u q' = Inr dst"
  shows "frames (copy_body E r (dav_layer F) u src dst)" "frames (move_body E r (dav_layer F) u src dst)"
  unfolding frames_def by (intro allI dav_frame.copy_move_keep [OF assms]; simp)+

lemma dav_handler_settles:
  assumes "Method r \<notin> {''LOCK'', ''UNLOCK''}" "k + 2 < 2 ^ 64"
  shows "settles g0 k R r (dav_handler E F user r)"
proof -
  note steps = settles_silent [OF silent_intros(4)] settles_silent [OF silent_intros(3)] settles_silent [OF silent_intros(5)]
    settles_silent [OF silent_intros(6)]
  note bodies = with_locks_settle [OF frames_handlers(1) assms(2)] with_locks_settle [OF frames_handlers(2) assms(2)]
    with_locks_settle [OF frames_handlers(3) assms(2)] with_locks_settle [OF frames_handlers(4) assms(2)]
  have "settles g0 k R r (handleDelete E F user r)" "settles g0 k R r (handlePut E F user r)"
    "settles g0 k R r (handleMkcol E F user r)" "settles g0 k R r (handleProppatch E F user r)"
    unfolding handleDelete_def handlePut_def handleMkcol_def handleProppatch_def by (intro steps bodies)+
  moreover have "settles g0 k R r (handleCopyMove E F user r)"
  proof -
    have tail: "settles g0 k R r (andThen (dav_join u src) (\<lambda>src. andThen (dav_join u dst) (\<lambda>dst.
       if Method r = ''COPY'' then with_locks E r [] dst (copy_body E r (dav_layer F) u src dst)
       else with_locks E r src dst (move_body E r (dav_layer F) u src dst))))" for u src dst
    proof (cases "JoinPath u src"; cases "JoinPath u dst")
      fix p q assume j: "JoinPath u src = Inr p" "JoinPath u dst = Inr q"
      have "andThen (dav_join u src) (\<lambda>src. andThen (dav_join u dst) (\<lambda>dst.
         if Method r = ''COPY'' then with_locks E r [] dst (copy_body E r (dav_layer F) u src dst)
         else with_locks E r src dst (move_body E r (dav_layer F) u src dst))) =
        (if Method r = ''COPY'' then with_locks E r [] q (copy_body E r (dav_layer F) u p q)
         else with_locks E r p q (move_body E r (dav_layer F) u p q))"
        using j by (auto simp: fun_eq_iff andThen_def dav_join_def give_def)
      then show ?thesis
        by (simp add: with_locks_settle [OF frames_copy_move(1) [OF j] assms(2)] with_locks_settle [OF frames_copy_move(2) [OF j] assms(2)])
    qed (auto simp: settles_def andThen_def dav_join_def answer_def give_def settled_refl)
    show ?thesis unfolding handleCopyMove_def by (intro steps tail)
  qed
  ultimately show ?thesis
    using assms(1)
    by (auto simp: dav_handler_def intro: frames_handlers(5-7) [THEN frames_settles] settles_answer)
qed

lemma dav_serve_pred:
  assumes "pred_outcome (\<lambda>(_, st). P st) (dav_handler E F user r st)"
  shows "pred_outcome (\<lambda>(_, st). P st) (dav_serve E F user r st)"
  unfolding dav_serve_def by (rule pred_bind [OF assms]) auto

section \<open>Locks\<close>

text \<open>C7: A WebDAV request that is neither LOCK nor UNLOCK gives back every lock it takes: whatever it is
  answered, the lock system is afterwards in a state it could have reached by itself, with the same
  confirmations outstanding, and it has the same locks as before except those whose time ran out while
  the request was served.\<close>
theorem requests_settle_locks:
  assumes "ls_reach g0 k (dav_locks st) R" and "k + 2 < 2 ^ 64" and "Method r \<notin> {''LOCK'', ''UNLOCK''}"
  shows "pred_outcome (\<lambda>(_, st'). (\<exists>k' \<le> k + 2. ls_reach g0 k' (dav_locks st') R) \<and>
      (\<exists>times. set times \<subseteq> range (clock r) \<and> abs_locks (dav_locks st') = fold purge times (abs_locks (dav_locks st))))
    (dav_serve E F user r st)"
proof -
  have "pred_outcome (\<lambda>(_, st'). settled (range (clock r)) g0 k R (dav_locks st) (dav_locks st')) (dav_handler E F user r st)"
    using assms(1) by (rule dav_handler_settles [OF assms(3,2), unfolded settles_def, rule_format])
  from dav_serve_pred [OF this] show ?thesis by (simp add: settled_def lapsed_def)
qed


definition target_lock :: "string \<Rightarrow> LockDetails" where
  "target_lock p = (temporary_lock p)\<lparr>Root := slashClean p\<rparr>"

text \<open>The two ways the locks of a request without an If header can go.\<close>

lemma with_locks_refused:
  assumes "ls_reach g0 k (dav_locks st) R" "k < 2 ^ 64" "IfHdr r = []" "p \<noteq> []"
    and "purge (clock r 0) (abs_locks (dav_locks st)) t = Some l" "conflict (a_details l) (target_lock p)"
  shows "\<exists>m. with_locks E r p [] body st = Ret (Inl (423, True), st\<lparr>dav_locks := m\<rparr>) \<and>
    abs_locks m = purge (clock r 0) (abs_locks (dav_locks st))"
  using assms(1,2)
proof (cases rule: Create_step [of g0 k "dav_locks st" R "clock r 0" "temporary_lock p"])
  case (refused m)
  then show ?thesis
    using assms(3,4)
    by (intro exI [of _ m])
      (simp add: with_locks_def confirmLocks_def temporary_locks_def andThen_def lock_named_def dav_lock_def on_locks_def)
next
  case (made t m)
  then show ?thesis using assms(5,6) by (auto simp: target_lock_def temporary_lock_def)
qed

lemma with_locks_free:
  assumes "ls_reach g0 k (dav_locks st) R" "k < 2 ^ 64" "IfHdr r = []" "p \<noteq> []" "frames body"
    and "\<And>t l. purge (clock r 0) (abs_locks (dav_locks st)) t = Some l \<Longrightarrow> \<not> conflict (a_details l) (target_lock p)"
  shows "\<exists>m. \<forall>res st'. body (st\<lparr>dav_locks := m\<rparr>) = Ret (res, st') \<longrightarrow>
    (\<exists>m'. with_locks E r p [] body st = Ret (res, st'\<lparr>dav_locks := m'\<rparr>))"
  using assms(1,2)
proof (cases rule: Create_step [of g0 k "dav_locks st" R "clock r 0" "temporary_lock p"])
  case (refused m)
  then show ?thesis using assms(6) by (auto simp: target_lock_def temporary_lock_def)
next
  case (made t m)
  let ?A = "purge (clock r 0) (abs_locks (dav_locks st))"
  have held: "lasting (new_alock (clock r 0) ((temporary_lock p)\<lparr>Root := slashClean (Root (temporary_lock p))\<rparr>))"
    by (rule lasting_temporary)
  have free: "?A t = None" using made(3) by (simp add: purge_def)
  show ?thesis
  proof (rule exI [of _ m], intro allI impI)
    fix res st'
    assume b: "body (st\<lparr>dav_locks := m\<rparr>) = Ret (res, st')"
    have "dav_locks st' = m" using frames_pred [OF assms(5), of "st\<lparr>dav_locks := m\<rparr>"] b by simp
    with dav_unlock_token [of g0 "Suc k" st' R t ?A _ "clock r 0", OF _ made(5) _ free held] made(2,4)
    obtain m' where "dav_unlock (clock r 0) t st' = Ret (st'\<lparr>dav_locks := m'\<rparr>)" by (auto simp: purge_simps)
    then show "\<exists>m'. with_locks E r p [] body st = Ret (res, st'\<lparr>dav_locks := m'\<rparr>)"
      using assms(3,4) made(1) b
      by (intro exI [of _ m']) (simp add: with_locks_def confirmLocks_def temporary_locks_def andThen_def lock_named_def
        dav_lock_def on_locks_def release_def dav_unlock_def give_def)
  qed
qed

lemma covers_conflict: "covers d (name_comps p) \<Longrightarrow> conflict d (target_lock p)"
  by (auto simp: covers_def conflict_def target_lock_def temporary_lock_def)


lemmas step_success = handler_success dav_steps_success

lemma dav_rule_locks: "dav_rule (dav_layer F) p st = Ret (r, st') \<Longrightarrow> dav_locks st' = dav_locks st"
  by (auto simp: dav_rule_def rule_or_def dav_layer_def Let_def split_beta)

text \<open>LOCK adds the lock that it reports.\<close>

lemma lock_adds:
  assumes "ls_reach g0 k (dav_locks st) R" "k < 2 ^ 64" "handleLock E F user r st = Ret (Inr (0, LockBody t ld), st')"
    and "readLockInfo (lock_body r) = Inr li" "li \<noteq> no_lockInfo"
  shows "ls_reach g0 (Suc k) (dav_locks st') R"
    "abs_locks (dav_locks st') = (purge (clock r 0) (abs_locks (dav_locks st)))(t := Some (new_alock (clock r 0) (ld\<lparr>Root := slashClean (Root ld)\<rparr>)))"
proof -
  obtain st1 where st1: "dav_locks st1 = dav_locks st"
    and c: "outcome_bind (on_locks (Create (clock r 0) ld) st1) (\<lambda>(res, st). Ret (case res of
        Inl e \<Rightarrow> Inl (if e = ErrLocked then 423 else 500 :: nat, True) | Inr tok \<Rightarrow> Inr (0 :: nat, LockBody tok ld), st)) = Ret (Inr (0, LockBody t ld), st')"
  proof -
    from assms(3-5) obtain d st1 p meta where d: "dav_rule (dav_layer F) p st = Ret (Inr meta, st1)"
      "outcome_bind (on_locks (Create (clock r 0) d) st1) (\<lambda>(res, st). Ret (case res of
        Inl e \<Rightarrow> Inl (if e = ErrLocked then 423 else 500 :: nat, True) | Inr tok \<Rightarrow> Inr (0 :: nat, LockBody tok d), st)) = Ret (Inr (0, LockBody t ld), st')"
      by (auto simp: handleLock_def Let_def andThen_success step_success split: if_splits sum.splits)
    moreover from d(2) have "d = ld" by (cases "on_locks (Create (clock r 0) d) st1") (auto split: sum.splits)
    ultimately show thesis using that dav_rule_locks by blast
  qed
  show "ls_reach g0 (Suc k) (dav_locks st') R"
    "abs_locks (dav_locks st') = (purge (clock r 0) (abs_locks (dav_locks st)))(t := Some (new_alock (clock r 0) (ld\<lparr>Root := slashClean (Root ld)\<rparr>)))"
    using assms(1,2) by (cases rule: Create_step [of g0 k "dav_locks st" R "clock r 0" ld]; use c st1 in \<open>auto simp: on_locks_def\<close>)+
qed

section \<open>Examples\<close>

definition demo_dav :: dav_env where
  "demo_dav = \<lparr>Prefix = ''/dav'', url_parse = (\<lambda>s. Some ([], s)), ignore_system = False, pattern = (\<lambda>h n. Some (h = n)),
     random_hex = (\<lambda>n. ''0a'' @ show_nat n),
     formats = \<lparr>http_time = (\<lambda>_. []), rfc3339 = (\<lambda>_. []), mime_of = (\<lambda>_. []), agent = []\<rparr>, lower_case = (\<lambda>s. s),
     signature = (\<lambda>_. []), proxied = (\<lambda>_ _. None), walk_fuel = 9\<rparr>"

definition asking :: "string \<Rightarrow> string \<Rightarrow> dav_request" where
  "asking meth path = \<lparr>Method = meth, UrlPath = path, UrlHost = ''host'', IfHdr = [], DestinationHdr = [], DepthHdr = [], OverwriteHdr = [],
     TimeoutHdr = [], LockTokenHdr = [], UserAgentHdr = [], FileSizeHdr = [], MtimeHdr = [], CtimeHdr = [], DavLength = 0, DavBodySize = 0,
     ClientIP = [], PassKey = [], lock_body = Decoded \<lparr>li_exclusive = True, li_shared = False, li_write = True, li_owner = []\<rparr>,
     find_body = BodyEnded 0, patch_body = BadXml, clock = (\<lambda>_. 0), wall = 0\<rparr>"

text \<open>A small file layer: files are numbers at paths, 0 is a folder, and the file 13 cannot be transferred.\<close>

type_synonym tiny = "(string \<times> nat) list"

definition tiny_obj :: "string \<Rightarrow> nat \<Rightarrow> Obj" where
  "tiny_obj p n = Object \<lparr>ID = [], Path = p, Name = path_base p, Size = int n, Modified = 0, Ctime = 0, IsFolder = (n = 0), HashInfo = [], Mask = 0\<rparr>"

definition tiny_without :: "string \<Rightarrow> tiny \<Rightarrow> tiny" where
  "tiny_without p s = filter (\<lambda>(q, _). q \<noteq> p) s"

definition tiny_transfer :: "taskType \<Rightarrow> string \<Rightarrow> string \<Rightarrow> tiny \<Rightarrow> fs_error option \<times> tiny" where
  "tiny_transfer kind src dst s =
     (case map_of s src of
        None \<Rightarrow> (Some ObjectNotFound, s)
      | Some n \<Rightarrow>
          if n = 13 then (Some (DriverError ''broken''), (dst, 99) # tiny_without dst s)
          else (None, (dst, n) # tiny_without dst (if kind = MoveTask then tiny_without src s else s)))"

definition tiny_layer :: "metaStore \<Rightarrow> tiny layer" where
  "tiny_layer ms = \<lparr>
     L_metas = (\<lambda>_. ms), L_put_metas = (\<lambda>_ s. s), L_storage = (\<lambda>_ s. (Inl StorageNotInit, s)),
     L_get = (\<lambda>p _ s. Ret (case map_of s p of None \<Rightarrow> Inl ObjectNotFound | Some n \<Rightarrow> Inr (tiny_obj p n), s)),
     L_list = (\<lambda>_ _ p _ _ s. Ret (Inr (map (\<lambda>(q, n). tiny_obj q n) (filter (\<lambda>(q, _). path_dir q = p \<and> q \<noteq> p) s)), s)), L_link = (\<lambda>_ _ s. Ret (Inl NotSupport, s)), L_other = (\<lambda>_ _ s. Ret (Inl NotSupport, s)),
     L_makeDir = (\<lambda>_ s. Ret (Some NotSupport, s)),
     L_rename = (\<lambda>p name s. Ret (case map_of s p of None \<Rightarrow> (Some ObjectNotFound, s)
       | Some n \<Rightarrow> (None, (path_join [path_dir p, name], n) # tiny_without p s))),
     L_remove = (\<lambda>p s. Ret (None, tiny_without p s)),
     L_transfer = (\<lambda>_ _ _ _ _ s. Ret (Inl NotSupport, s)),
     L_put = (\<lambda>_ dir f s. Ret (None, (path_join [dir, fname f], nat (fsize f)) # tiny_without (path_join [dir, fname f]) s)),
     L_purge = (\<lambda>p s. Ret (None, tiny_without p s)),
     L_transferTo = (\<lambda>kind src dst s. Ret (tiny_transfer kind src dst s)),
     L_putTask = (\<lambda>_ _ s. Ret (Some NotSupport, s)),
     L_directUpload = (\<lambda>_ _ _ _ _ s. Ret (Inl NotSupport, s))\<rparr>"

text \<open>Requests one after the other: the statuses and the files.\<close>

fun dav_session :: "'s layer \<Rightarrow> (User \<times> dav_request) list \<Rightarrow> 's dav \<Rightarrow> (nat list \<times> 's) option" where
  "dav_session L [] st = Some ([], dav_files st)"
| "dav_session L ((u, r) # rs) st =
     (case dav_serve demo_dav L (Some u) r st of
        Ret ((status, _), st) \<Rightarrow> map_option (\<lambda>(ss, s). (status # ss, s)) (dav_session L rs st)
      | _ \<Rightarrow> None)"

definition no_rules :: metaStore where
  "no_rules = \<lparr>rows = [], down = False, cache = (\<lambda>_. None)\<rparr>"

definition dav_start :: "'s \<Rightarrow> 's dav" where
  "dav_start x = \<lparr>dav_files = x, dav_locks = NewMemLS 0\<rparr>"


lemma purge_empty: "purge n (\<lambda>_. None) = (\<lambda>_. None)"
  by (simp add: purge_def fun_eq_iff)

definition one_lock :: memLS where
  "one_lock = (case Create 0 (demo_lock ''/a'') (NewMemLS 0) of Return (_, m) \<Rightarrow> m | Panic \<Rightarrow> NewMemLS 0)"

lemma one_lock_reach: "ls_reach 0 1 one_lock [] \<and> abs_locks one_lock = [''1'' \<mapsto> new_alock 0 (demo_lock ''/a'')]"
proof -
  from Create_run [of 0 0 "NewMemLS 0" "[]" 0 "demo_lock ''/a''"] demo_init demo_tokens(1) purge_empty
  show ?thesis by (auto simp: one_lock_def demo_lock_def demo_names)
qed

lemma requests_settle_locks_witness:
  "let st = \<lparr>dav_files = [(''/b'', 1)], dav_locks = one_lock\<rparr>; r = asking ''DELETE'' ''/dav/b'' in
   pred_outcome (\<lambda>(_, st'). (\<exists>k' \<le> 1 + 2. ls_reach 0 k' (dav_locks st') []) \<and>
      (\<exists>times. set times \<subseteq> range (clock r) \<and> abs_locks (dav_locks st') = fold purge times (abs_locks (dav_locks st))))
    (dav_serve demo_dav (tiny_layer no_rules) (Some (user_at ''/'')) r st)"
  unfolding Let_def by (rule requests_settle_locks) (simp_all add: asking_def one_lock_reach [simplified])



definition based_lock :: LockDetails where
  "based_lock = \<lparr>Root = ''/m/d'', Duration = -1, OwnerXML = [], ZeroDepth = False\<rparr>"


end
