(* ===== verification/DavSafety.thy ===== *)
theory DavSafety
  imports DavProps
begin

text \<open>
  WebDAV and the files: requests stay below the base of their user, a failed transfer puts the old destination
  back, and a listing of infinite depth enters folders that it may not be asked for.
\<close>

section \<open>Confinement\<close>

lemma joined_parts:
  assumes "JoinPath u q = Inr dst" "\<not> is_base u dst"
  obtains ds d where "dst = abs_path (ds @ [d])" "list_all plain_name (ds @ [d])" "prefix (norm (BasePath u)) ds"
proof -
  let ?cs = "norm (BasePath u) @ norm q"
  have dst: "dst = abs_path ?cs" by (rule JoinPath_below(3) [OF assms(1)])
  have v: "list_all plain_name ?cs"
    by (auto simp: list_all_iff plain_name_def norm_no_backslash dest: norm_valid [unfolded list_all_iff, rule_format])
  have "norm q \<noteq> []" using assms(2) dst by (auto simp: is_base_def path_simps)
  then obtain ds d where "norm q = ds @ [d]" by (cases "norm q" rule: rev_cases) auto
  then show thesis using that [of "norm (BasePath u) @ ds" d] dst v by simp
qed

lemma plain_valid: "list_all plain_name cs \<Longrightarrow> list_all valid_comp cs" "plain_name c \<Longrightarrow> valid_comp c"
  by (auto simp: list_all_iff plain_name_def)

lemma beside_base:
  assumes "JoinPath u q = Inr dst" "\<not> is_base u dst"
  shows "plain_name c \<Longrightarrow> below (BasePath u) (path_join [path_dir dst, path_base (path_join [path_dir dst, c])]) \<and>
      below (BasePath u) (path_join [path_dir (path_join [path_dir dst, c]), path_base dst])"
    and "below (BasePath u) (path_join [path_dir dst, path_base dst])"
proof -
  obtain ds d where d: "dst = abs_path (ds @ [d])" "list_all plain_name (ds @ [d])" "prefix (norm (BasePath u)) ds"
    by (rule joined_parts [OF assms])
  have v: "list_all valid_comp ds" "valid_comp d" using d(2) plain_valid by auto
  have b: "plain_name c \<Longrightarrow> below (BasePath u) (abs_path (ds @ [c]))" for c
    by (rule below_abs) (use d(2,3) in \<open>auto intro: prefix_order.trans\<close>)
  then show "below (BasePath u) (path_join [path_dir dst, path_base dst])" using v d by (simp add: path_facts)
  show "below (BasePath u) (path_join [path_dir dst, path_base (path_join [path_dir dst, c])]) \<and>
      below (BasePath u) (path_join [path_dir (path_join [path_dir dst, c]), path_base dst])" if "plain_name c"
    using v d b plain_valid(2) [OF that] that by (simp add: path_facts)
qed

interpretation dav_spy: free_contract "spied F" u "\<lambda>st. noted_below u (dav_files st)" "below (BasePath u)" no_backslash plain_name "is_base u"
  for F u
proof unfold_locales
  show "below (BasePath u) p \<Longrightarrow> kept (\<lambda>st. noted_below u (dav_files st)) (\<lambda>r. \<forall>fs. r = Inr fs \<longrightarrow> (\<forall>f\<in>set fs. plain_name (GetName f)))
      (L_list (dav_layer (spied F)) user meta p refresh d)" for p user meta refresh d
    using kept_on_files [OF spy.listing [of u p F user meta refresh d]] by (simp add: dav_layer_def)
  show "JoinPath u q = Inr dst \<Longrightarrow> \<not> is_base u dst \<Longrightarrow> plain_name c \<Longrightarrow>
      below (BasePath u) (path_join [path_dir dst, path_base (path_join [path_dir dst, c])]) \<and>
      below (BasePath u) (path_join [path_dir (path_join [path_dir dst, c]), path_base dst])" for q dst c
    by (rule beside_base(1))
  show "JoinPath u q = Inr dst \<Longrightarrow> \<not> is_base u dst \<Longrightarrow> below (BasePath u) (path_join [path_dir dst, path_base dst])" for q dst
    by (rule beside_base(2))
  show "below (BasePath u) p \<Longrightarrow> kept (\<lambda>st. noted_below u (dav_files st)) (\<lambda>_. True) (L_purge (dav_layer (spied F)) p)" for p
    by (auto simp: dav_layer_def spied_def intro!: kept_on_files kept_noting)
  show "below (BasePath u) p \<Longrightarrow> kept (\<lambda>st. noted_below u (dav_files st)) (\<lambda>_. True) (L_link (dav_layer (spied F)) p args)" for p args
    by (auto simp: dav_layer_def spied_def intro!: kept_on_files kept_noting)
qed (use spy.inner spy.renamed spy.named spy.relative spy.entry in \<open>auto simp: dav_layer_def split_beta intro: kept_on_files spy.put_metas spy.storage spy.get
    spy.makeDir spy.rename spy.remove spy.transfer spy.transferTo spy.put spy.putTask spy.directUpload spy.joined\<close>)

text \<open>What is left out: a file or folder put, made, copied or moved onto the base path itself.\<close>

definition dav_careful :: "dav_env \<Rightarrow> dav_request \<Rightarrow> bool" where
  "dav_careful E r \<longleftrightarrow>
     (Method r \<in> {''PUT'', ''MKCOL''} \<longrightarrow> (case stripPrefix E (UrlPath r) of Inl _ \<Rightarrow> True | Inr p \<Rightarrow> norm p \<noteq> [])) \<and>
     (Method r \<in> {''COPY'', ''MOVE''} \<longrightarrow>
        (case destination E r of
           Inl _ \<Rightarrow> True
         | Inr t \<Rightarrow> (case stripPrefix E t of Inl _ \<Rightarrow> True | Inr p \<Rightarrow> norm p \<noteq> [])))"

lemma not_base: "JoinPath u p = Inr q \<Longrightarrow> norm p \<noteq> [] \<Longrightarrow> \<not> is_base u q"
  by (drule JoinPath_below(3)) (simp add: is_base_def path_simps)


lemma demo_plain: "plain_name (''.tinylist-webdav-'' @ random_hex demo_dav n)"
proof -
  have "\<not> is_digit slash" "\<not> is_digit (CHR 0x5C)" by code_simp+
  then show ?thesis using show_nat_digits [of _ n] by (auto simp: plain_name_def valid_comp_def demo_dav_def)
qed

lemmas demo_backup_names = plain_valid(2) [OF demo_plain]


section \<open>Failed transfers\<close>

text \<open>What the drivers hold, by paths as lists of names: a tree moved to another place, and a tree cut off.\<close>

definition moved :: "string list \<Rightarrow> string list \<Rightarrow> (string list \<Rightarrow> 'v option) \<Rightarrow> string list \<Rightarrow> 'v option" where
  "moved p q v = (\<lambda>x. if prefix q x then v (p @ drop (length q) x) else if prefix p x then None else v x)"

definition cut_off :: "string list \<Rightarrow> (string list \<Rightarrow> 'v option) \<Rightarrow> string list \<Rightarrow> 'v option" where
  "cut_off p v = (\<lambda>x. if prefix p x then None else v x)"

lemma siblings: "b \<noteq> c \<Longrightarrow> prefix (ds @ [b]) x \<Longrightarrow> \<not> prefix (ds @ [c]) x"
  by (auto simp: prefix_def)

lemma cut_off_eq: "cut_off p v = v \<longleftrightarrow> (\<forall>x. prefix p x \<longrightarrow> v x = None)"
  by (auto simp: cut_off_def fun_eq_iff)

lemma cut_off_moved: "b \<noteq> c \<Longrightarrow> cut_off (ds @ [c]) (moved (ds @ [c]) (ds @ [b]) v) = moved (ds @ [c]) (ds @ [b]) v"
  by (auto simp: cut_off_eq moved_def dest: siblings)

lemma moved_back:
  assumes "b \<noteq> c" "cut_off (ds @ [b]) v = v"
  shows "moved (ds @ [b]) (ds @ [c]) (moved (ds @ [c]) (ds @ [b]) v) = v"
proof
  fix x
  consider y where "x = (ds @ [c]) @ y" | y where "x = (ds @ [b]) @ y" | "\<not> prefix (ds @ [b]) x" "\<not> prefix (ds @ [c]) x"
    by (auto simp: prefix_def)
  then show "moved (ds @ [b]) (ds @ [c]) (moved (ds @ [c]) (ds @ [b]) v) x = v x"
    using assms by cases (auto simp: moved_def cut_off_eq)
qed

lemma moved_there: "cut_off (ds @ [c]) v \<noteq> v \<Longrightarrow> cut_off (ds @ [b]) (moved (ds @ [c]) (ds @ [b]) v) \<noteq> moved (ds @ [c]) (ds @ [b]) v"
proof -
  assume "cut_off (ds @ [c]) v \<noteq> v"
  then obtain y where "v ((ds @ [c]) @ y) \<noteq> None" by (auto simp: cut_off_eq prefix_def)
  then show ?thesis by (auto simp: cut_off_eq moved_def intro!: exI [of _ "(ds @ [b]) @ y"])
qed

text \<open>Files that can be looked at this way: what is looked up is found when there is something there, a rename
  to a free name moves the tree, a removal cuts it off, and a transfer that fails leaves everything but its
  destination as it was.\<close>

definition orderly :: "'s layer \<Rightarrow> ('s \<Rightarrow> string list \<Rightarrow> 'v option) \<Rightarrow> bool" where
  "orderly L view \<longleftrightarrow>
     (\<forall>ms s. view (L_put_metas L ms s) = view s) \<and>
     (\<forall>x d s. list_all valid_comp x \<longrightarrow> (\<exists>r s'. L_get L (abs_path x) d s = Ret (r, s') \<and> view s' = view s \<and>
        (case r of Inl e \<Rightarrow> e = ObjectNotFound \<and> cut_off x (view s) = view s | Inr _ \<Rightarrow> cut_off x (view s) \<noteq> view s))) \<and>
     (\<forall>x c b s. list_all valid_comp (x @ [c, b]) \<longrightarrow> cut_off (x @ [c]) (view s) \<noteq> view s \<longrightarrow> cut_off (x @ [b]) (view s) = view s \<longrightarrow>
        (\<exists>s'. L_rename L (abs_path (x @ [c])) b s = Ret (None, s') \<and> view s' = moved (x @ [c]) (x @ [b]) (view s))) \<and>
     (\<forall>x s. list_all valid_comp x \<longrightarrow>
        (\<exists>s'. L_purge L (abs_path x) s = Ret (None, s') \<and> view s' = cut_off x (view s)) \<and>
        (\<exists>s'. L_remove L (abs_path x) s = Ret (None, s') \<and> view s' = cut_off x (view s))) \<and>
     (\<forall>kind src x s. list_all valid_comp x \<longrightarrow> (\<exists>e s'. L_transferTo L kind src (abs_path x) s = Ret (e, s') \<and>
        (e \<noteq> None \<longrightarrow> cut_off x (view s') = cut_off x (view s))))"

lemma orderlyD:
  assumes "orderly L view"
  shows "view (L_put_metas L ms s) = view s"
    and "list_all valid_comp x \<Longrightarrow> \<exists>r s'. L_get L (abs_path x) d s = Ret (r, s') \<and> view s' = view s \<and>
        (case r of Inl e \<Rightarrow> e = ObjectNotFound \<and> cut_off x (view s) = view s | Inr _ \<Rightarrow> cut_off x (view s) \<noteq> view s)"
    and "list_all valid_comp (x @ [c, b]) \<Longrightarrow> cut_off (x @ [c]) (view s) \<noteq> view s \<Longrightarrow> cut_off (x @ [b]) (view s) = view s \<Longrightarrow>
        \<exists>s'. L_rename L (abs_path (x @ [c])) b s = Ret (None, s') \<and> view s' = moved (x @ [c]) (x @ [b]) (view s)"
    and "list_all valid_comp x \<Longrightarrow> \<exists>s'. L_purge L (abs_path x) s = Ret (None, s') \<and> view s' = cut_off x (view s)"
    and "list_all valid_comp x \<Longrightarrow> \<exists>s'. L_remove L (abs_path x) s = Ret (None, s') \<and> view s' = cut_off x (view s)"
    and "list_all valid_comp x \<Longrightarrow> \<exists>e s'. L_transferTo L kind src (abs_path x) s = Ret (e, s') \<and>
        (e \<noteq> None \<longrightarrow> cut_off x (view s') = cut_off x (view s))"
  using assms unfolding orderly_def by blast+

text \<open>A handler that leaves the files as they were whenever it is answered with an error.\<close>

definition restores :: "('s \<Rightarrow> 'v) \<Rightarrow> 'v \<Rightarrow> ('a \<Rightarrow> bool) \<Rightarrow> ('s, 'r, 'a) handler \<Rightarrow> bool" where
  "restores view v P h \<longleftrightarrow>
     (\<forall>s. view s = v \<longrightarrow> pred_outcome (\<lambda>(r, s'). case r of Inl _ \<Rightarrow> view s' = v | Inr x \<Rightarrow> P x) (h s))"

lemma restores_then:
  assumes "\<And>s. view s = v \<Longrightarrow> pred_outcome (\<lambda>(_, s'). view s' = v) (h s)" "\<And>x. restores view v P (k x)"
  shows "restores view v P (andThen h k)"
proof -
  have step: "pred_outcome (\<lambda>(r, s'). case r of Inl _ \<Rightarrow> view s' = v | Inr x \<Rightarrow> P x) (case r of Inl a \<Rightarrow> Ret (Inl a, s) | Inr x \<Rightarrow> k x s)"
    if "view s = v" for r s using that assms(2) by (cases r) (simp_all add: restores_def)
  show ?thesis
    unfolding restores_def andThen_def by (intro allI impI, rule pred_bind, erule assms(1), simp only: split_beta, rule step)
qed

lemma restores_guards:
  assumes "orderly L view"
  shows "view s = v \<Longrightarrow> pred_outcome (\<lambda>(_, s'). view s' = v) (unless b a s)"
    and "view s = v \<Longrightarrow> pred_outcome (\<lambda>(_, s'). view s' = v) (dav_rule L p s)"
    and "view s = v \<Longrightarrow> pred_outcome (\<lambda>(_, s'). view s' = v) (both_trees check L u p q s)"
proof -
  show "view s = v \<Longrightarrow> pred_outcome (\<lambda>(_, s'). view s' = v) (unless b a s)" for b and a :: "'x" and s
    by (simp add: unless_def give_def answer_def)
  show "view s = v \<Longrightarrow> pred_outcome (\<lambda>(_, s'). view s' = v) (dav_rule L p s)" for s
    by (simp add: dav_rule_def rule_or_def Let_def split_beta orderlyD(1) [OF assms])
  have t: "view s = v \<Longrightarrow> pred_outcome (\<lambda>(_, s'). view s' = v) (tree_answer check L u p s)" for check p s
    by (auto simp: tree_answer_def give_def answer_def orderlyD(1) [OF assms] split: option.split prod.split sum.split)
  show "view s = v \<Longrightarrow> pred_outcome (\<lambda>(_, s'). view s' = v) (both_trees check L u p q s)"
    unfolding both_trees_def andThen_def
    by (intro pred_bind [OF t]) (auto split: sum.split intro!: pred_bind [OF t] simp: unless_def give_def answer_def)
qed


lemma backup_path:
  assumes "orderly L view" "list_all valid_comp (ds @ [c])" "\<And>n. valid_comp (''.tinylist-webdav-'' @ random_hex E n)" "view s = v"
  shows "\<exists>r s'. unusedBackupPath n E L (abs_path (ds @ [c])) s = Ret (r, s') \<and> view s' = v \<and>
    (\<forall>b. r = Inr b \<longrightarrow> (\<exists>b'. valid_comp b' \<and> b = abs_path (ds @ [b']) \<and> cut_off (ds @ [b']) v = v))"
  using assms(4)
proof (induction n arbitrary: s)
  case (Suc n)
  let ?b = "''.tinylist-webdav-'' @ random_hex E n"
  have v: "list_all valid_comp ds" "valid_comp c" "valid_comp ?b" using assms(2,3) by auto
  have p: "path_join [path_dir (abs_path (ds @ [c])), ?b] = abs_path (ds @ [?b])"
    using v path_join_name [OF v(1,3)] by (simp add: path_dir_snoc)
  have "list_all valid_comp (ds @ [?b])" using v by simp
  from orderlyD(2) [OF assms(1) this, of False s] Suc.prems obtain r s' where
    g: "L_get L (abs_path (ds @ [?b])) False s = Ret (r, s')" "view s' = v"
      "case r of Inl e \<Rightarrow> e = ObjectNotFound \<and> cut_off (ds @ [?b]) v = v | Inr _ \<Rightarrow> cut_off (ds @ [?b]) v \<noteq> v" by auto
  show ?case
  proof (cases r)
    case (Inl e)
    then show ?thesis using g v(3) by (auto simp: p Let_def give_def simp del: append_Cons)
  next
    case (Inr f)
    then show ?thesis using g Suc.IH [OF g(2)] by (simp add: p Let_def del: append_Cons)
  qed
qed (simp add: answer_def)

text \<open>The three ways of preparing the destination.\<close>

lemma prepare_cases:
  assumes "orderly L view" "list_all valid_comp (ds @ [c])" "\<And>n. valid_comp (''.tinylist-webdav-'' @ random_hex E n)" "view s = v"
  obtains (refused) a s' where "prepareDestination E L (abs_path (ds @ [c])) overwrite canRemove s = Ret (Inl a, s')" "view s' = v"
  | (free) s' where "prepareDestination E L (abs_path (ds @ [c])) overwrite canRemove s = Ret (Inr (False, []), s')" "view s' = v"
      "cut_off (ds @ [c]) v = v"
  | (kept_back) b s' where "prepareDestination E L (abs_path (ds @ [c])) overwrite canRemove s = Ret (Inr (True, abs_path (ds @ [b])), s')"
      "view s' = moved (ds @ [c]) (ds @ [b]) v" "cut_off (ds @ [c]) v \<noteq> v" "cut_off (ds @ [b]) v = v" "valid_comp b"
proof -
  let ?D = "abs_path (ds @ [c])"
  have v: "list_all valid_comp ds" "valid_comp c" using assms(2) by auto
  from orderlyD(2) [OF assms(1,2), of False s] assms(4) obtain r s1 where
    g: "L_get L ?D False s = Ret (r, s1)" "view s1 = v"
      "case r of Inl e \<Rightarrow> e = ObjectNotFound \<and> cut_off (ds @ [c]) v = v | Inr _ \<Rightarrow> cut_off (ds @ [c]) v \<noteq> v" by auto
  from backup_path [OF assms(1,2,3) g(2), of 10] obtain rb s2 where
    u: "unusedBackupPath 10 E L ?D s1 = Ret (rb, s2)" "view s2 = v"
      "\<And>b. rb = Inr b \<Longrightarrow> \<exists>b'. valid_comp b' \<and> b = abs_path (ds @ [b']) \<and> cut_off (ds @ [b']) v = v" by auto
  show thesis
  proof (cases r)
    case (Inl e)
    then show thesis using g free by (simp add: prepareDestination_def give_def)
  next
    case (Inr f)
    show thesis
    proof (cases "overwrite \<and> canRemove")
      case False
      then show thesis using g Inr refused
        by (cases overwrite) (auto simp: prepareDestination_def unless_def give_def answer_def andThen_def)
    next
      case True
      show thesis
      proof (cases rb)
        case (Inl a)
        then show thesis using g u True \<open>r = Inr f\<close> refused
          by (simp add: prepareDestination_def unless_def give_def andThen_def del: unusedBackupPath.simps)
      next
        case b: (Inr b)
        with u(3) obtain b' where b': "valid_comp b'" "b = abs_path (ds @ [b'])" "cut_off (ds @ [b']) v = v" by blast
        have n: "cut_off (ds @ [c]) v \<noteq> v" using g(3) Inr by simp
        have "list_all valid_comp (ds @ [c, b'])" using v b'(1) by simp
        from orderlyD(3) [OF assms(1) this, of s2] u(2) n b'(3) obtain s3 where
          "L_rename L ?D b' s2 = Ret (None, s3)" "view s3 = moved (ds @ [c]) (ds @ [b']) v" by auto
        then show thesis using g u True Inr b b' n kept_back path_base_snoc [OF v(1) b'(1)]
          by (simp add: prepareDestination_def unless_def give_def andThen_def do_or_def del: unusedBackupPath.simps)
      qed
    qed
  qed
qed

text \<open>The answer says whether there was a destination before.\<close>

definition told :: "bool \<Rightarrow> nat \<times> dav_body \<Rightarrow> bool" where
  "told existed reply \<longleftrightarrow> reply = (if existed then 204 else 201, NoBody)"

lemma purged:
  assumes "orderly L view" "list_all valid_comp x"
  shows "\<exists>s'. purgeIfExists L (abs_path x) s = Ret (None, s') \<and> view s' = cut_off x (view s)"
proof -
  from orderlyD(2) [OF assms, of False s] obtain r s1 where
    g: "L_get L (abs_path x) False s = Ret (r, s1)" "view s1 = view s"
      "case r of Inl e \<Rightarrow> e = ObjectNotFound \<and> cut_off x (view s) = view s | Inr _ \<Rightarrow> cut_off x (view s) \<noteq> view s" by blast
  then show ?thesis using orderlyD(4) [OF assms, of s1] by (cases r) (auto simp: purgeIfExists_def)
qed

lemma compensated:
  assumes "orderly L view" "list_all valid_comp (ds @ [c])" "cut_off (ds @ [c]) (view s) = cut_off (ds @ [c]) w"
  shows "cut_off (ds @ [c]) w = v \<Longrightarrow> \<exists>s'. compensateFailedTransfer L (abs_path (ds @ [c])) [] s = Ret s' \<and> view s' = v"
    and "w = moved (ds @ [c]) (ds @ [b]) v \<Longrightarrow> cut_off (ds @ [b]) v = v \<Longrightarrow> cut_off (ds @ [c]) v \<noteq> v \<Longrightarrow> valid_comp b \<Longrightarrow>
      \<exists>s'. compensateFailedTransfer L (abs_path (ds @ [c])) (abs_path (ds @ [b])) s = Ret s' \<and> view s' = v"
proof -
  from purged [OF assms(1,2), of s] assms(3) obtain s1 where
    p: "purgeIfExists L (abs_path (ds @ [c])) s = Ret (None, s1)" "view s1 = cut_off (ds @ [c]) w" by auto
  show "cut_off (ds @ [c]) w = v \<Longrightarrow> \<exists>s'. compensateFailedTransfer L (abs_path (ds @ [c])) [] s = Ret s' \<and> view s' = v"
    using p by (simp add: compensateFailedTransfer_def)
  assume b: "w = moved (ds @ [c]) (ds @ [b]) v" "cut_off (ds @ [b]) v = v" "cut_off (ds @ [c]) v \<noteq> v" "valid_comp b"
  then have ne: "b \<noteq> c" by auto
  have v: "list_all valid_comp ds" "valid_comp c" using assms(2) by auto
  have w: "view s1 = w" "cut_off (ds @ [c]) w = w" "cut_off (ds @ [b]) w \<noteq> w"
    using p(2) b cut_off_moved [OF ne] moved_there [OF b(3)] by auto
  have "list_all valid_comp (ds @ [b, c])" using v b(4) by simp
  from orderlyD(3) [OF assms(1) this, of s1] w obtain s2 where
    "L_rename L (abs_path (ds @ [b])) c s1 = Ret (None, s2)" "view s2 = moved (ds @ [b]) (ds @ [c]) w" by auto
  then show "\<exists>s'. compensateFailedTransfer L (abs_path (ds @ [c])) (abs_path (ds @ [b])) s = Ret s' \<and> view s' = v"
    using p(1) moved_back [OF ne b(2)] b(1) path_base_snoc [OF v]
    by (simp add: compensateFailedTransfer_def abs_path_def)
qed

lemma transfer_restores:
  assumes "orderly L view" "list_all valid_comp (ds @ [c])" "\<And>n. valid_comp (''.tinylist-webdav-'' @ random_hex E n)"
  shows "restores view v (told (cut_off (ds @ [c]) v \<noteq> v)) (dav_transfer E L kind src (abs_path (ds @ [c])) overwrite canRemove)"
  unfolding restores_def
proof (intro allI impI)
  fix s assume s: "view s = v"
  let ?D = "abs_path (ds @ [c])"
  let ?ok = "pred_outcome (\<lambda>(r, s'). case r of Inl _ \<Rightarrow> view s' = v | Inr x \<Rightarrow> told (cut_off (ds @ [c]) v \<noteq> v) x)
      (dav_transfer E L kind src ?D overwrite canRemove s)"
  have t: "\<exists>e s'. L_transferTo L kind src ?D s1 = Ret (e, s') \<and> (e \<noteq> None \<longrightarrow> cut_off (ds @ [c]) (view s') = cut_off (ds @ [c]) (view s1))"
    for s1 by (rule orderlyD(6) [OF assms(1,2)])
  show ?ok
    using assms s
  proof (cases rule: prepare_cases [where overwrite = overwrite and canRemove = canRemove])
    case (refused a s')
    then show ?thesis by (simp add: dav_transfer_def andThen_def)
  next
    case (free s1)
    obtain e s2 where e: "L_transferTo L kind src ?D s1 = Ret (e, s2)"
      "e \<noteq> None \<Longrightarrow> cut_off (ds @ [c]) (view s2) = cut_off (ds @ [c]) v" using t [of s1] free(2) by auto
    show ?thesis
      using free e compensated(1) [OF assms(1,2) e(2) free(3)]
      by (cases e) (auto simp: dav_transfer_def andThen_def cleanupBackup_def told_def give_def answer_def)
  next
    case (kept_back b s1)
    obtain e s2 where e: "L_transferTo L kind src ?D s1 = Ret (e, s2)"
      "e \<noteq> None \<Longrightarrow> cut_off (ds @ [c]) (view s2) = cut_off (ds @ [c]) (moved (ds @ [c]) (ds @ [b]) v)" using t [of s1] kept_back(2) by auto
    have "list_all valid_comp (ds @ [b])" using assms(2) kept_back(5) by simp
    then obtain s3 where r: "L_remove L (abs_path (ds @ [b])) s2 = Ret (None, s3)" using orderlyD(5) [OF assms(1)] by blast
    show ?thesis
      using kept_back e r compensated(2) [OF assms(1,2) e(2) refl kept_back(4,3,5)]
      by (cases e) (auto simp: dav_transfer_def andThen_def cleanupBackup_def told_def give_def answer_def do_or_def abs_path_def)
  qed
qed


text \<open>A layer that keeps files by their names from the root, with a transfer that breaks off half way.\<close>

definition renamed_key :: "string list \<Rightarrow> string list \<Rightarrow> string list \<Rightarrow> string list" where
  "renamed_key p q k = (if prefix p k then q @ drop (length p) k else k)"

definition key_layer :: "metaStore \<Rightarrow> (string list \<times> nat) list layer" where
  "key_layer ms = \<lparr>
     L_metas = (\<lambda>_. ms), L_put_metas = (\<lambda>_ s. s), L_storage = (\<lambda>_ s. (Inl StorageNotInit, s)),
     L_get = (\<lambda>p _ s. Ret (if list_ex (\<lambda>(k, _). prefix (resolve p) k) s then Inr (tiny_obj p 1) else Inl ObjectNotFound, s)),
     L_list = (\<lambda>_ _ _ _ _ s. Ret (Inl NotSupport, s)), L_link = (\<lambda>_ _ s. Ret (Inl NotSupport, s)), L_other = (\<lambda>_ _ s. Ret (Inl NotSupport, s)),
     L_makeDir = (\<lambda>_ s. Ret (Some NotSupport, s)),
     L_rename = (\<lambda>p name s. Ret (None, map (\<lambda>(k, v). (renamed_key (resolve p) (butlast (resolve p) @ [name]) k, v)) s)),
     L_remove = (\<lambda>p s. Ret (None, filter (\<lambda>(k, _). \<not> prefix (resolve p) k) s)),
     L_transfer = (\<lambda>_ _ _ _ _ s. Ret (Inl NotSupport, s)),
     L_put = (\<lambda>_ _ _ s. Ret (Some NotSupport, s)),
     L_purge = (\<lambda>p s. Ret (None, filter (\<lambda>(k, _). \<not> prefix (resolve p) k) s)),
     L_transferTo = (\<lambda>_ _ dst s. Ret (Some (DriverError ''broken''), (resolve dst @ [''half''], 99) # s)),
     L_putTask = (\<lambda>_ _ s. Ret (Some NotSupport, s)),
     L_directUpload = (\<lambda>_ _ _ _ _ s. Ret (Inl NotSupport, s))\<rparr>"

lemma keys_missing: "cut_off x (map_of s) = map_of s \<longleftrightarrow> \<not> list_ex (\<lambda>(k, _). prefix x k) s"
  by (fastforce simp: cut_off_eq list_ex_iff map_of_eq_None_iff image_iff)

lemma keys_cut: "map_of (filter (\<lambda>(k, _). \<not> prefix x k) s) = cut_off x (map_of s)"
  by (induction s) (auto simp: cut_off_def fun_eq_iff)

lemma keys_moved:
  assumes "\<not> list_ex (\<lambda>(k, _). prefix (x @ [b]) k) s" "b \<noteq> c"
  shows "map_of (map (\<lambda>(k, v). (renamed_key (x @ [c]) (x @ [b]) k, v)) s) = moved (x @ [c]) (x @ [b]) (map_of s)"
  using assms(1)
proof (induction s)
  case (Cons kv s)
  obtain k v where kv: "kv = (k, v)" by fastforce
  have ih: "map_of (map (\<lambda>(k, v). (renamed_key (x @ [c]) (x @ [b]) k, v)) s) = moved (x @ [c]) (x @ [b]) (map_of s)"
    and k: "\<not> prefix (x @ [b]) k" using Cons by (auto simp: kv)
  show ?case
  proof (cases "prefix (x @ [c]) k")
    case True
    then obtain y where "k = (x @ [c]) @ y" by (auto simp: prefix_def)
    then show ?thesis unfolding kv using ih assms(2)
      by (auto simp: moved_def renamed_key_def fun_eq_iff prefix_def)
  next
    case False
    then show ?thesis unfolding kv using ih k by (auto simp: moved_def renamed_key_def fun_eq_iff prefix_def)
  qed
qed (simp add: moved_def fun_eq_iff)

lemma key_layer_orderly: "orderly (key_layer ms) map_of"
proof -
  have "\<exists>s'. L_rename (key_layer ms) (abs_path (x @ [c])) b s = Ret (None, s') \<and> map_of s' = moved (x @ [c]) (x @ [b]) (map_of s)"
    if "list_all valid_comp (x @ [c, b])" "cut_off (x @ [c]) (map_of s) \<noteq> map_of s" "cut_off (x @ [b]) (map_of s) = map_of s" for x c b s
  proof -
    have "resolve (abs_path (x @ [c])) = x @ [c]" using that(1) by (simp add: resolve_abs_path)
    moreover have "b \<noteq> c" using that(2,3) by auto
    moreover have "\<not> list_ex (\<lambda>(k, _). prefix (x @ [b]) k) s" using that(3) by (simp add: keys_missing)
    ultimately show ?thesis using keys_moved by (simp add: key_layer_def)
  qed
  moreover have "cut_off x (map_of ((x @ y, v) # s)) = cut_off x (map_of s)" for x y s and v :: nat
    by (auto simp: cut_off_def fun_eq_iff)
  ultimately show ?thesis
    unfolding orderly_def by (auto simp: key_layer_def keys_missing keys_cut resolve_abs_path)
qed

definition two_files :: "(string list \<times> nat) list" where
  "two_files = [([''x''], 1), ([''y'', ''f''], 2)]"


section \<open>Listings of infinite depth\<close>

definition guarded_tree :: "tiny dav" where
  "guarded_tree = dav_start [(''/'', 0), (''/s'', 0), (''/s/f'', 1), (''/b'', 2)]"

definition password_rule :: metaStore where
  "password_rule = no_rules\<lparr>rows := [demo_meta\<lparr>mid := 1, MetaPath := ''/s'', ReadUsers := [], MetaPassword := ''pw'', PSub := True\<rparr>]\<rparr>"

definition hrefs :: "((nat \<times> dav_body) \<times> 's) outcome \<Rightarrow> (nat \<times> string list) option" where
  "hrefs r = (case r of Ret ((status, MultiStatus rs), _) \<Rightarrow> Some (status, map fst rs) | Ret ((status, _), _) \<Rightarrow> Some (status, []) | _ \<Rightarrow> None)"


definition one_name :: propfind where
  "one_name = \<lparr>pf_allprop = False, pf_propname = False, pf_prop = [(''n'', ''p'')], pf_include = []\<rparr>"


end
