(* ===== verification/Downloads.thy ===== *)
theory Downloads
  imports WebDav
begin

text \<open>
  \<open>server/handles/down.go\<close>, \<open>server/middlewares/down.go\<close>, \<open>server/common/sign.go\<close> and the ways of
  \<open>server/common/proxy.go\<close>: who may download what, and how it is sent.  The state is the file layer with
  the server of the sessions, whose signer makes and checks the signatures.  \<open>url.Parse\<close>, the keyed
  hash and the copying of bytes to the client are parameters.
\<close>

section \<open>State and requests\<close>

record 's site =
  site_files :: 's
  site_server :: server

definition at_files :: "('s, 'r, 'a) handler \<Rightarrow> ('s site, 'r, 'a) handler" where
  "at_files h st = outcome_bind (h (site_files st)) (\<lambda>(r, s). Ret (r, st\<lparr>site_files := s\<rparr>))"

text \<open>How a file that goes through the server ends: it is sent, it breaks off after the first byte, or
  nothing was written and a status says why.\<close>

datatype delivery = Sent | BrokeOff | Failed nat

text \<open>Seconds for signatures, nanoseconds for sessions; \<open>encoded_query\<close> is the query that is passed on,
  \<open>raw_query\<close> the query of an address.\<close>

record web_env =
  session_lib :: lib
  hmac :: "string \<Rightarrow> string \<Rightarrow> string"
  secs :: int
  nanos :: int
  regexp :: "string \<Rightarrow> string \<Rightarrow> bool option"
  lower :: "string \<Rightarrow> string"
  sign_all :: bool
  hide_details :: bool
  proxy_types :: "string list"
  audio_types :: "string list"
  video_types :: "string list"
  image_types :: "string list"
  text_types :: "string list"
  forward_params :: bool
  raw_query :: "string \<Rightarrow> string option"
  api_url :: string
  tools_of :: "Driver \<Rightarrow> string list"
  deliver :: "link \<Rightarrow> Obj \<Rightarrow> delivery"

record down_request =
  path_param :: string
  sign_param :: string
  d_param :: bool
  type_param :: string
  encoded_query :: string
  authorization :: string
  down_ip :: string
  down_agent :: string

section \<open>Signatures\<close>

definition sign_now :: "web_env \<Rightarrow> string \<Rightarrow> ('s site, 'r, string) handler" where
  "sign_now E path st =
     (let (s, sg) = Sign (hmac E) (secs E) path (signs (site_server st))
      in give s (st\<lparr>site_server := (site_server st)\<lparr>signs := sg\<rparr>\<rparr>))"

definition verify_now :: "web_env \<Rightarrow> string \<Rightarrow> string \<Rightarrow> ('s site, 'r, sign_error option) handler" where
  "verify_now E path s st =
     (let (e, sg) = Verify (hmac E) (secs E) path s (signs (site_server st))
      in give e (st\<lparr>site_server := (site_server st)\<lparr>signs := sg\<rparr>\<rparr>))"

text \<open>\<open>common.Sign\<close> of an object of a listing.\<close>

definition sign_object :: "web_env \<Rightarrow> Obj \<Rightarrow> string \<Rightarrow> bool \<Rightarrow> ('s site, 'r, string) handler" where
  "sign_object E obj parent encrypt =
     (if IsDir obj \<or> \<not> encrypt \<and> \<not> sign_all E then give [] else sign_now E (path_join [parent, GetName obj]))"

text \<open>Looking for the storage of a path moves the turn of balanced storages.\<close>

definition IsStorageSignEnabled :: "'s layer \<Rightarrow> string \<Rightarrow> ('s site, 'r, bool) handler" where
  "IsStorageSignEnabled L rawPath =
     at_files (\<lambda>s. case L_storage L rawPath s of
         (Inl _, s) \<Rightarrow> give False s
       | (Inr d, s) \<Rightarrow> give (EnableSign (storage d)) s)"

definition down_proxy_url :: "web_env \<Rightarrow> Storage \<Rightarrow> string \<Rightarrow> ('s site, 'r, string) handler" where
  "down_proxy_url E s reqPath =
     (if DownProxyURL s = [] \<or> DisableProxySign s then give (GenerateDownProxyURL (\<lambda>_. []) s reqPath)
      else andThen (sign_now E reqPath) (\<lambda>sig. give (GenerateDownProxyURL (\<lambda>_. sig) s reqPath)))"

section \<open>The middlewares\<close>

datatype credential = Signed | Session User

definition PathParse :: "down_request \<Rightarrow> string" where
  "PathParse r = FixAndCleanPath (path_param r)"

definition session_auth :: "web_env \<Rightarrow> down_request \<Rightarrow> ('s site, credential) handling" where
  "session_auth E r st =
     (let (res, sv) = Auth (session_lib E) (nanos E) (authorization r) (site_server st); st = st\<lparr>site_server := sv\<rparr>
      in case res of Inl a \<Rightarrow> answer a st | Inr a \<Rightarrow> give (Session (deref (users sv) a)) st)"

definition DownloadAuth :: "web_env \<Rightarrow> down_request \<Rightarrow> string \<Rightarrow> ('s site, credential) handling" where
  "DownloadAuth E r rawPath =
     (let s = trim_suffix (sign_param r) ''/'';
          unsigned = (if authorization r \<noteq> [] then session_auth E r else answer (ErrorPage 401))
      in if s = [] then unsigned
         else andThen (verify_now E rawPath s) (\<lambda>signErr. if signErr = None then give Signed else unsigned))"

definition needSign :: "web_env \<Rightarrow> 's layer \<Rightarrow> Meta option \<Rightarrow> string \<Rightarrow> ('s site, 'r, bool) handler" where
  "needSign E L meta path =
     (if sign_all E then give True
      else andThen (IsStorageSignEnabled L path) (\<lambda>enabled.
        give (enabled \<or> (case meta of
          None \<Rightarrow> False
        | Some m \<Rightarrow> MetaPassword m \<noteq> [] \<and> (PSub m \<or> path = MetaPath m)))))"

definition check_sign :: "web_env \<Rightarrow> 's layer \<Rightarrow> down_request \<Rightarrow> string \<Rightarrow> ('s site, Meta option) handling" where
  "check_sign E L r rawPath =
     andThen (at_files (rule_or (ErrorPage 500) L rawPath)) (\<lambda>meta.
     andThen (needSign E L meta rawPath) (\<lambda>needed.
     if needed then
       andThen (verify_now E rawPath (trim_suffix (sign_param r) ''/'')) (\<lambda>err.
       if err = None then give meta else answer (ErrorPage 401))
     else give meta))"

definition UserPathAccess :: "web_env \<Rightarrow> credential \<Rightarrow> Meta option \<Rightarrow> string \<Rightarrow> ('s site, unit) handling" where
  "UserPathAccess E who meta rawPath =
     (case who of
        Signed \<Rightarrow> give ()
      | Session user \<Rightarrow>
          if \<not> IsSubPath (BasePath user) rawPath then answer (ErrorPage 403)
          else (case meta of
              None \<Rightarrow> give ()
            | Some m \<Rightarrow>
                (case CanAccess (regexp E) user meta rawPath (MetaPassword m) of
                   Panic \<Rightarrow> (\<lambda>_. Crash)
                 | Return ok \<Rightarrow> unless ok (ErrorPage 403))))"

section \<open>The handlers\<close>

definition InjectQuery :: "(string \<Rightarrow> string option) \<Rightarrow> string \<Rightarrow> string \<Rightarrow> string option" where
  "InjectQuery raw_query_of raw param =
     (if param = [] then Some raw
      else case raw_query_of raw of
          None \<Rightarrow> None
        | Some q \<Rightarrow> Some (raw @ (if q \<noteq> [] then ''&'' else ''?'') @ param))"

datatype download = Redirect string | Stream link Obj bool

definition redirect :: "web_env \<Rightarrow> down_request \<Rightarrow> link \<Rightarrow> ('s site, download) handling" where
  "redirect E r lk =
     (if forward_params E then
        (case InjectQuery (raw_query E) (LinkURL lk) (encoded_query r) of
           None \<Rightarrow> answer (ErrorPage 500)
         | Some url \<Rightarrow> give (Redirect url))
      else give (Redirect (LinkURL lk)))"

text \<open>What \<open>GetRangeReaderFromLink\<close> makes of a link: the reader of the driver, a downloader by parts over the
  reader or the address, or plain range requests to the address.\<close>

datatype range_reader = DriverReader | PartsOfReader int int | PartsOfURL string int int | RangesOfURL string

definition GetRangeReaderFromLink :: "link \<Rightarrow> range_reader option" where
  "GetRangeReaderFromLink lk =
     (if HasReader lk then
        Some (if Concurrency lk < 1 \<and> PartSize lk < 1 then DriverReader else PartsOfReader (Concurrency lk) (PartSize lk))
      else if LinkURL lk = [] then None
      else Some (if 0 < Concurrency lk \<or> 0 < PartSize lk then PartsOfURL (LinkURL lk) (Concurrency lk) (PartSize lk)
                 else RangesOfURL (LinkURL lk)))"

text \<open>The closers of the new link are none; those of the old one are still closed by the caller.\<close>

definition proxy_range :: "web_env \<Rightarrow> link \<Rightarrow> int \<Rightarrow> link" where
  "proxy_range E lk sz =
     (if \<not> HasReader lk \<and> \<not> has_prefix (LinkURL lk) (api_url E @ ''/'') then
        (case GetRangeReaderFromLink lk of
           None \<Rightarrow> lk
         | Some _ \<Rightarrow> \<lparr>closers = closers lk, Expiration = None, RequireReference = False, LinkURL = [], HasReader = True,
             Concurrency = 0, PartSize = 0, LinkLength = (if 0 < LinkLength lk then LinkLength lk else sz)\<rparr>)
      else lk)"

text \<open>Which way \<open>common.Proxy\<close> goes: ranges of so many bytes, or the answer of the address as it is.\<close>

datatype proxy_way = Ranges int "range_reader option" | Transparent string

definition Proxy_way :: "link \<Rightarrow> Obj \<Rightarrow> proxy_way" where
  "Proxy_way lk f =
     (let sz = (if LinkLength lk \<le> 0 then GetSize f else LinkLength lk)
      in if 0 < Concurrency lk \<or> 0 < PartSize lk then Ranges sz (GetRangeReaderFromLink lk)
         else if HasReader lk then Ranges sz (Some DriverReader)
         else Transparent (LinkURL lk))"

definition proxy :: "web_env \<Rightarrow> down_request \<Rightarrow> link \<Rightarrow> Obj \<Rightarrow> bool \<Rightarrow> ('s site, download) handling" where
  "proxy E r lk f proxyRange =
     andThen
       (if LinkURL lk \<noteq> [] \<and> forward_params E then
          (case InjectQuery (raw_query E) (LinkURL lk) (encoded_query r) of
             None \<Rightarrow> answer (ErrorPage 500)
           | Some url \<Rightarrow> give (lk\<lparr>LinkURL := url\<rparr>))
        else give lk)
       (\<lambda>lk.
          let lk = (if proxyRange then proxy_range E lk (GetSize f) else lk)
          in case deliver E lk f of
               Sent \<Rightarrow> give (Stream lk f True)
             | BrokeOff \<Rightarrow> give (Stream lk f False)
             | Failed status \<Rightarrow> answer (ErrorPage (int status)))"

definition canProxy :: "web_env \<Rightarrow> Driver \<Rightarrow> string \<Rightarrow> bool" where
  "canProxy E d filename \<longleftrightarrow>
     MustProxy (config d) \<or> WebProxy (storage d) \<or> WebdavProxyURL (storage d) \<or>
     Ext (lower E) filename \<in> set (proxy_types E) \<or> Ext (lower E) filename \<in> set (text_types E)"

text \<open>Errors are answered with a page.\<close>

definition page :: "('s \<Rightarrow> ((fs_error + 'a) \<times> 's) outcome) \<Rightarrow> ('s site, 'a) handling" where
  "page f = at_files (\<lambda>s. outcome_bind (f s) (\<lambda>(r, s). Ret (map_sum (\<lambda>_. ErrorPage 500) (\<lambda>x. x) r, s)))"

definition storage_page :: "'s layer \<Rightarrow> string \<Rightarrow> ('s site, Driver) handling" where
  "storage_page L path = page (\<lambda>s. Ret (L_storage L path s))"

definition handle_Proxy :: "web_env \<Rightarrow> 's layer \<Rightarrow> down_request \<Rightarrow> string \<Rightarrow> ('s site, download) handling" where
  "handle_Proxy E L r rawPath =
     andThen (storage_page L rawPath) (\<lambda>d.
     if \<not> canProxy E d (path_base rawPath) then answer (ErrorPage 403)
     else
       andThen (if d_param r then give [] else down_proxy_url E (storage d) rawPath) (\<lambda>url.
       if url \<noteq> [] then give (Redirect url)
       else
         andThen (page (L_link L rawPath \<lparr>LinkType = type_param r, LinkIP = [], UserAgent = down_agent r\<rparr>)) (\<lambda>(lk, f).
         proxy E r lk f (ProxyRange (storage d)))))"

definition handle_Down :: "web_env \<Rightarrow> 's layer \<Rightarrow> down_request \<Rightarrow> string \<Rightarrow> ('s site, download) handling" where
  "handle_Down E L r rawPath =
     andThen (storage_page L rawPath) (\<lambda>d.
     if ShouldProxy (lower E) (proxy_types E) d (path_base rawPath) then handle_Proxy E L r rawPath
     else
       andThen (page (L_link L rawPath \<lparr>LinkType = type_param r, LinkIP = down_ip r, UserAgent = down_agent r\<rparr>)) (\<lambda>(lk, _).
       redirect E r lk))"

text \<open>The routes \<open>/d\<close> and \<open>/p\<close>.\<close>

definition serve_download :: "web_env \<Rightarrow> 's layer \<Rightarrow> bool \<Rightarrow> down_request \<Rightarrow> ('s site, download) handling" where
  "serve_download E L through r =
     (let rawPath = PathParse r in
     andThen (DownloadAuth E r rawPath) (\<lambda>who.
     andThen (check_sign E L r rawPath) (\<lambda>meta.
     andThen (UserPathAccess E who meta rawPath) (\<lambda>_.
     if through then handle_Proxy E L r rawPath else handle_Down E L r rawPath))))"

end
