(* ===== verification/FsViews.thy ===== *)
theory FsViews
  imports Downloads
begin

text \<open>
  \<open>server/handles/fsread.go\<close>: listings, the folders of a directory, an object with its address and its
  relatives, and the extra operations of a driver; and \<open>Link\<close> of \<open>fsmanage.go\<close>.  They answer for the
  user of the request, who must be able to read the path and know its password.
\<close>

section \<open>Authorization\<close>

definition authorizeResolvedPath ::
  "web_env \<Rightarrow> 's layer \<Rightarrow> User \<Rightarrow> string \<Rightarrow> string \<Rightarrow> ('s site, Meta option) handling" where
  "authorizeResolvedPath E L user resolvedPath password =
     andThen (at_files (rule_at L resolvedPath)) (\<lambda>meta.
     case CanAccess (regexp E) user meta resolvedPath password of
       Panic \<Rightarrow> (\<lambda>_. Crash)
     | Return ok \<Rightarrow>
         if ok then give meta else answer (ErrorStrResp ''password is incorrect or you have no permission'' 403))"

definition resolveAndAuthorize ::
  "web_env \<Rightarrow> 's layer \<Rightarrow> User \<Rightarrow> string \<Rightarrow> string \<Rightarrow> ('s site, string \<times> Meta option) handling" where
  "resolveAndAuthorize E L user reqPath password =
     andThen (join_path user reqPath) (\<lambda>resolvedPath.
     andThen (authorizeResolvedPath E L user resolvedPath password) (\<lambda>meta. give (resolvedPath, meta)))"

section \<open>Pages\<close>

record PageReq =
  Page :: int
  PerPage :: int

definition MaxInt :: int where
  "MaxInt = 9223372036854775807"

definition Validate :: "PageReq \<Rightarrow> PageReq" where
  "Validate p = \<lparr>Page = (if Page p < 1 then 1 else Page p), PerPage = (if PerPage p < 1 then MaxInt else PerPage p)\<rparr>"

definition pagination :: "'a list \<Rightarrow> PageReq \<Rightarrow> (nat \<times> 'a list) go" where
  "pagination found req =
     (let pageIndex = (if Page req < 1 then 1 else Page req);
          pageSize = (if PerPage req < 1 then MaxInt else PerPage req);
          total = int (length found);
          previousPages = i64 (pageIndex - 1)
      in if 0 < previousPages \<and> total div pageSize < previousPages then Return (length found, [])
         else
           let start = i64 (previousPages * pageSize);
               stop = (if pageSize < i64 (total - start) then i64 (start + pageSize) else total)
           in if 0 \<le> start \<and> start \<le> stop \<and> stop \<le> total
              then Return (length found, drop (nat start) (take (nat stop) found)) else Panic)"

section \<open>Responses\<close>

definition UNKNOWN :: int where "UNKNOWN = 0"
definition FOLDER :: int where "FOLDER = 1"
definition VIDEO :: int where "VIDEO = 2"
definition AUDIO :: int where "AUDIO = 3"
definition TEXT :: int where "TEXT = 4"
definition IMAGE :: int where "IMAGE = 5"

definition GetFileType :: "web_env \<Rightarrow> string \<Rightarrow> int" where
  "GetFileType E filename =
     (let ext = lower E (Ext (lower E) filename)
      in if ext \<in> set (audio_types E) then AUDIO
         else if ext \<in> set (video_types E) then VIDEO
         else if ext \<in> set (image_types E) then IMAGE
         else if ext \<in> set (text_types E) then TEXT
         else UNKNOWN)"

definition GetObjType :: "web_env \<Rightarrow> string \<Rightarrow> bool \<Rightarrow> int" where
  "GetObjType E filename isDir = (if isDir then FOLDER else GetFileType E filename)"

text \<open>The hashes are given as pairs; their text is JSON of the same.\<close>

record ObjResp =
  r_name :: string
  r_size :: int
  r_is_dir :: bool
  r_modified :: int
  r_created :: int
  r_sign :: string
  r_thumb :: string
  r_type :: int
  r_hashes :: "(string \<times> string) list"
  r_details :: "(int \<times> int) option"

definition obj_resp :: "int \<Rightarrow> string \<Rightarrow> Obj \<Rightarrow> ObjResp" where
  "obj_resp kind sig obj =
     \<lparr>r_name = GetName obj, r_size = GetSize obj, r_is_dir = IsDir obj, r_modified = ModTime obj, r_created = CreateTime obj,
      r_sign = sig, r_thumb = (case GetThumb obj of Some t \<Rightarrow> t | None \<Rightarrow> []), r_type = kind, r_hashes = HashInfo (base obj),
      r_details = fst (GetStorageDetails obj)\<rparr>"

fun toObjsResp :: "web_env \<Rightarrow> Obj list \<Rightarrow> string \<Rightarrow> bool \<Rightarrow> ('s site, ObjResp list) handling" where
  "toObjsResp E [] parent encrypt = give []"
| "toObjsResp E (obj # found) parent encrypt =
     andThen (sign_object E obj parent encrypt) (\<lambda>sig.
     andThen (toObjsResp E found parent encrypt) (\<lambda>rest.
     give (obj_resp (GetObjType E (GetName obj) (IsDir obj)) sig obj # rest)))"

definition getReadme :: "Meta option \<Rightarrow> string \<Rightarrow> string" where
  "getReadme meta path =
     (case meta of Some m \<Rightarrow> if MetaCoversPath (MetaPath m) path (RSub m) then Readme m else [] | None \<Rightarrow> [])"

definition getHeader :: "Meta option \<Rightarrow> string \<Rightarrow> string" where
  "getHeader meta path =
     (case meta of Some m \<Rightarrow> if MetaCoversPath (MetaPath m) path (HeaderSub m) then Header m else [] | None \<Rightarrow> [])"

definition isEncrypt :: "'s layer \<Rightarrow> Meta option \<Rightarrow> string \<Rightarrow> ('s site, bool) handling" where
  "isEncrypt L meta path =
     andThen (IsStorageSignEnabled L path) (\<lambda>enabled.
     give (enabled \<or> (case meta of
       None \<Rightarrow> False
     | Some m \<Rightarrow> MetaPassword m \<noteq> [] \<and> MetaCoversPath (MetaPath m) path (PSub m))))"

section \<open>Listings\<close>

record ListReq =
  list_page :: PageReq
  list_path :: string
  list_password :: string
  list_refresh :: bool

record FsListResp =
  content :: "ObjResp list"
  total :: nat
  readme :: string
  header_text :: string
  can_write :: bool
  write_bypass :: bool
  upload_tools_of :: "string list"

definition writes_content :: "User \<Rightarrow> Meta option \<Rightarrow> string \<Rightarrow> bool" where
  "writes_content user meta path \<longleftrightarrow>
     CanWrite (Some user) meta path \<and> (CanWriteContent user \<or> CanWriteContentBypassUserPerms meta path)"

definition direct_tools :: "web_env \<Rightarrow> 's layer \<Rightarrow> bool \<Rightarrow> string \<Rightarrow> ('s site, string list) handling" where
  "direct_tools E L wanted path =
     (if \<not> wanted then give []
      else at_files (\<lambda>s. case L_storage L path s of (Inl _, s) \<Rightarrow> give [] s | (Inr d, s) \<Rightarrow> give (tools_of E d) s))"

definition FsList :: "web_env \<Rightarrow> 's layer \<Rightarrow> ListReq \<Rightarrow> User \<Rightarrow> ('s site, FsListResp) handling" where
  "FsList E L req user =
     andThen (resolveAndAuthorize E L user (list_path req) (list_password req)) (\<lambda>(reqPath, meta).
     andThen (unless (\<not> list_refresh req \<or> writes_content user meta reqPath) (ErrorStrResp ''Refresh without permission'' 403)) (\<lambda>_.
     andThen (at_files (fetch (L_list L (Some user) meta reqPath (list_refresh req) (\<not> hide_details E)))) (\<lambda>found.
     case pagination found (list_page req) of
       Panic \<Rightarrow> (\<lambda>_. Crash)
     | Return (n, found) \<Rightarrow>
         andThen (direct_tools E L (writes_content user meta reqPath) reqPath) (\<lambda>tools.
         andThen (isEncrypt L meta reqPath) (\<lambda>encrypt.
         andThen (toObjsResp E found reqPath encrypt) (\<lambda>resps.
         give \<lparr>content = resps, total = n, readme = getReadme meta reqPath, header_text = getHeader meta reqPath,
           can_write = CanWrite (Some user) meta reqPath, write_bypass = CanWriteContentBypassUserPerms meta reqPath,
           upload_tools_of = tools\<rparr>))))))"

definition FsListSplit :: "web_env \<Rightarrow> 's layer \<Rightarrow> User option \<Rightarrow> ListReq option \<Rightarrow> ('s site, FsListResp) handling" where
  "FsListSplit E L user req =
     andThen (bound req) (\<lambda>req.
     andThen (CurrentUser user) (\<lambda>u.
     FsList E L (req\<lparr>list_page := Validate (list_page req)\<rparr>) u))"

record DirReq =
  dir_path :: string
  dir_password :: string
  ForceRoot :: bool

definition filterDirs :: "Obj list \<Rightarrow> (string \<times> int) list" where
  "filterDirs found = map (\<lambda>obj. (GetName obj, ModTime obj)) (filter IsDir found)"

definition FsDirs :: "web_env \<Rightarrow> 's layer \<Rightarrow> User option \<Rightarrow> DirReq option \<Rightarrow> ('s site, (string \<times> int) list) handling" where
  "FsDirs E L user req =
     andThen (bound req) (\<lambda>req.
     andThen (CurrentUser user) (\<lambda>u.
     andThen
       (if ForceRoot req then andThen (unless (IsAdmin u) (ErrorStrResp ''Permission denied'' 403)) (\<lambda>_. give (dir_path req))
        else join_path u (dir_path req)) (\<lambda>reqPath.
     andThen (authorizeResolvedPath E L u reqPath (dir_password req)) (\<lambda>meta.
     andThen (at_files (fetch (L_list L (Some u) meta reqPath False False))) (\<lambda>found.
     give (filterDirs found))))))"

section \<open>One object\<close>

record FsGetReq =
  get_path :: string
  get_password :: string

record FsGetResp =
  object_resp :: ObjResp
  raw_url_of :: string
  get_readme :: string
  get_header :: string
  provider :: string
  related :: "ObjResp list"

definition filterRelated :: "Obj list \<Rightarrow> Obj \<Rightarrow> Obj list" where
  "filterRelated found obj =
     (let stem = trim_suffix (GetName obj) (path_ext (GetName obj))
      in filter (\<lambda>x. GetName x \<noteq> GetName obj \<and> has_prefix (GetName x) stem) found)"

text \<open>The address of a file: through a proxy, or from the object, or from its link.\<close>

definition raw_address ::
  "web_env \<Rightarrow> 's layer \<Rightarrow> down_request \<Rightarrow> Meta option \<Rightarrow> string \<Rightarrow> Obj \<Rightarrow> Driver \<Rightarrow> ('s site, string) handling" where
  "raw_address E L r meta reqPath obj d =
     (if MustProxy (config d) \<or> WebProxy (storage d) then
        andThen (down_proxy_url E (storage d) reqPath) (\<lambda>url.
        if url \<noteq> [] then give url
        else
          andThen (isEncrypt L meta reqPath) (\<lambda>encrypt.
          andThen (if encrypt \<or> sign_all E then andThen (sign_now E reqPath) (\<lambda>sig. give (''?sign='' @ sig)) else give []) (\<lambda>query.
          give (api_url E @ ''/p'' @ EncodePath reqPath [True] @ query))))
      else case GetUrl obj of
          Some url \<Rightarrow> give url
        | None \<Rightarrow>
            andThen (at_files (fetch (L_link L reqPath \<lparr>LinkType = [], LinkIP = down_ip r, UserAgent = down_agent r\<rparr>))) (\<lambda>(lk, _).
            give (LinkURL lk)))"

definition FsGet :: "web_env \<Rightarrow> 's layer \<Rightarrow> down_request \<Rightarrow> FsGetReq \<Rightarrow> User \<Rightarrow> ('s site, FsGetResp) handling" where
  "FsGet E L r req user =
     andThen (resolveAndAuthorize E L user (get_path req) (get_password req)) (\<lambda>(reqPath, meta).
     andThen (at_files (fetch (L_get L reqPath (\<not> hide_details E)))) (\<lambda>obj.
     andThen (at_files (\<lambda>s. let (d, s) = L_storage L reqPath s in give d s)) (\<lambda>d.
     let (named_provider, known) = GetProvider obj;
         prov = (if known then named_provider else case d of Inl _ \<Rightarrow> named_provider | Inr d \<Rightarrow> CName (config d)) in
     andThen
       (if IsDir obj then give []
        else case d of Inl _ \<Rightarrow> answer (ErrorResp 500) | Inr d \<Rightarrow> raw_address E L r meta reqPath obj d) (\<lambda>rawURL.
     let parentPath = path_dir reqPath in
     andThen (at_files (peek (L_list L (Some user) meta parentPath False False))) (\<lambda>sameLevel.
     let near = (case sameLevel of None \<Rightarrow> [] | Some found \<Rightarrow> filterRelated found obj) in
     andThen (at_files (loose_rule L parentPath)) (\<lambda>parentMeta.
     andThen (isEncrypt L meta reqPath) (\<lambda>encrypt.
     andThen (sign_object E obj parentPath encrypt) (\<lambda>sig.
     andThen (isEncrypt L parentMeta parentPath) (\<lambda>parentEncrypt.
     andThen (toObjsResp E near parentPath parentEncrypt) (\<lambda>relatedResps.
     give \<lparr>object_resp = obj_resp (GetFileType E (GetName obj)) sig obj, raw_url_of = rawURL,
       get_readme = getReadme meta reqPath, get_header = getHeader meta reqPath, provider = prov, related = relatedResps\<rparr>))))))))))"

definition FsGetSplit :: "web_env \<Rightarrow> 's layer \<Rightarrow> down_request \<Rightarrow> User option \<Rightarrow> FsGetReq option \<Rightarrow> ('s site, FsGetResp) handling" where
  "FsGetSplit E L r user req = andThen (bound req) (\<lambda>req. andThen (CurrentUser user) (\<lambda>u. FsGet E L r req u))"

record FsOtherReq =
  other_path :: string
  other_method :: string
  other_password :: string

definition FsOther :: "web_env \<Rightarrow> 's layer \<Rightarrow> User option \<Rightarrow> FsOtherReq option \<Rightarrow> ('s site, string) handling" where
  "FsOther E L user req =
     andThen (bound req) (\<lambda>req.
     andThen (CurrentUser user) (\<lambda>u.
     andThen (resolveAndAuthorize E L u (other_path req) (other_password req)) (\<lambda>(reqPath, _).
     at_files (fetch (L_other L reqPath (other_method req))))))"

text \<open>\<open>Link\<close>, for administrators: the address of the link, or one of this server.\<close>

definition handle_Link :: "web_env \<Rightarrow> 's layer \<Rightarrow> down_request \<Rightarrow> string option \<Rightarrow> ('s site, string) handling" where
  "handle_Link E L r req =
     andThen (bound req) (\<lambda>rawPath.
     andThen (at_files (fetch (\<lambda>s. Ret (L_storage L rawPath s)))) (\<lambda>d.
     if NoLinkURL (config d) then
       andThen (sign_now E rawPath) (\<lambda>sig. give (api_url E @ ''/p'' @ EncodePath rawPath [True] @ ''?d&sign='' @ sig))
     else
       andThen (at_files (fetch (L_link L rawPath \<lparr>LinkType = [], LinkIP = down_ip r, UserAgent = down_agent r\<rparr>))) (\<lambda>(lk, _).
       give (LinkURL lk))))"

end
