(* ===== verification/DownloadProps.thy ===== *)
theory DownloadProps
  imports FsViews HandlerProps SessionTheorems
begin

text \<open>
  Who gets what: a download needs a signature of its path or a session that may read it, a listing is cut
  into pages, and what is read was asked for under the rules of its path.
\<close>

section \<open>Pages\<close>

lemma page_number:
  assumes "Page req \<le> MaxInt"
  shows "i64 ((if Page req < 1 then 1 else Page req) - 1) = int (nat (Page req - 1))" "int (nat (Page req - 1)) \<le> i64_max"
  using assms by (auto simp: MaxInt_def i64_max_def i64_min_def intro!: i64_id [THEN trans])

lemma past_the_end:
  assumes "1 \<le> m" "n div m < i"
  shows "n < i * (m :: int)"
proof -
  have "(n div m + 1) * m = n div m * m + m" by (simp add: algebra_simps)
  moreover have "n div m * m + n mod m = n" "n mod m < m" using assms(1) by simp_all
  ultimately have "n < (n div m + 1) * m" by linarith
  also have "\<dots> \<le> i * m" using assms by (intro mult_right_mono) auto
  finally show ?thesis .
qed

lemma inside_the_end:
  assumes "1 \<le> m" "i \<le> n div m"
  shows "i * (m :: int) \<le> n"
proof -
  have "i * m \<le> n div m * m" using assms by (intro mult_right_mono) auto
  also have "\<dots> \<le> n" using assms(1) pos_mod_sign [of m n] div_mult_mod_eq [of n m] by linarith
  finally show ?thesis .
qed

lemma page_no_wrap:
  assumes "1 \<le> m" "m \<le> i64_max" "int n \<le> i64_max" "i * m \<le> int n" "0 \<le> i"
  shows "i64 (i * m) = i * m" "i64 (int n - i * m) = int n - i * m" "m < int n - i * m \<Longrightarrow> i64 (i * m + m) = i * m + m"
proof -
  have "0 \<le> i * m" using assms(1,5) by simp
  note le = this assms(1,4) assms(2,3) [unfolded i64_max_def] i64_id [unfolded i64_min_def i64_max_def]
  show "i64 (i * m) = i * m" "i64 (int n - i * m) = int n - i * m" by (rule le(6); use le(1-5) in linarith)+
  show "i64 (i * m + m) = i * m + m" if "m < int n - i * m" by (rule le(6); use that le(1-5) in linarith)
qed

lemma pagination_shape:
  assumes "Page req \<le> MaxInt" "m = (if PerPage req < 1 then MaxInt else PerPage req)" "i = int (nat (Page req - 1))"
  shows "pagination xs req = (if 0 < i \<and> int (length xs) div m < i then Return (length xs, [])
     else let start = i64 (i * m); stop = (if m < i64 (int (length xs) - start) then i64 (start + m) else int (length xs))
       in if 0 \<le> start \<and> start \<le> stop \<and> stop \<le> int (length xs)
          then Return (length xs, drop (nat start) (take (nat stop) xs)) else Panic)"
  unfolding pagination_def Let_def page_number(1) [OF assms(1)] assms(2,3) ..

text \<open>A page is the part of the list that its number and size say, whatever they are: numbers and sizes
  below one stand for the first page and for everything, no product of the two wraps around, no slice
  is out of range, and pages past the end are empty.\<close>
theorem pagination_exact:
  assumes "Page req \<le> MaxInt" and "PerPage req \<le> MaxInt" and "int (length xs) \<le> MaxInt"
  shows "pagination xs req = Return (length xs,
    let k = (if PerPage req < 1 then length xs else nat (PerPage req)); i = nat (Page req - 1) in take k (drop (i * k) xs))"
proof -
  define i where "i = nat (Page req - 1)"
  define m where "m = (if PerPage req < 1 then MaxInt else PerPage req)"
  define k where "k = (if PerPage req < 1 then length xs else nat (PerPage req))"
  note shape = pagination_shape [OF assms(1) m_def arg_cong [OF i_def, of int]] and defs = k_def [symmetric] i_def [symmetric]
  have m: "1 \<le> m" "m \<le> i64_max" using assms(2) by (auto simp: m_def MaxInt_def i64_max_def)
  have n: "int (length xs) \<le> i64_max" using assms(3) by (simp add: MaxInt_def i64_max_def)
  have k: "int k = m \<or> k = length xs \<and> length xs \<le> nat m" using assms(2,3) by (auto simp: k_def m_def)
  show ?thesis
  proof (cases "0 < int i \<and> int (length xs) div m < int i")
    case True
    then have "int (length xs) < int i * m" using past_the_end [OF m(1)] by blast
    then have "length xs \<le> i * k" using k True by (auto simp flip: of_nat_mult)
    then show ?thesis using True by (simp add: shape defs)
  next
    case False
    then have le: "int i * m \<le> int (length xs)" using inside_the_end [OF m(1), of "int i"] by (cases "i = 0") auto
    note w = page_no_wrap [OF m n le]
    show ?thesis
      using k
    proof
      assume "int k = m"
      then have nat: "nat (int i * m) = i * k" "nat (int i * m + m) = i * k + k" by (auto simp flip: of_nat_mult of_nat_add)
      then show ?thesis using False le w nat \<open>int k = m\<close> m by (auto simp: shape Let_def defs drop_take split: if_splits)
    next
      assume all: "k = length xs \<and> length xs \<le> nat m"
      show ?thesis
      proof (cases "i = 0")
        case pos: False
        then have "m \<le> int i * m" using mult_right_mono [of 1 "int i" m] m(1) by simp
        then have "int i * m = int (length xs)" using all le m(1) by linarith
        then show ?thesis using all False w m pos by (auto simp: shape Let_def defs)
      qed (use all m w in \<open>auto simp: shape Let_def defs\<close>)
    qed
  qed
qed

lemma pagination_exact_witness:
  "pagination ''abcdefg'' \<lparr>Page = 3, PerPage = 3\<rparr> = Return (7, ''g'') \<and> pagination ''abc'' \<lparr>Page = MaxInt, PerPage = MaxInt\<rparr> = Return (3, [])"
  using pagination_exact [of "\<lparr>Page = 3, PerPage = 3\<rparr>" "''abcdefg''"] pagination_exact [of "\<lparr>Page = MaxInt, PerPage = MaxInt\<rparr>" "''abc''"]
  by (simp add: MaxInt_def)

section \<open>Downloads\<close>

text \<open>The key of the signer in use stays the same while a request is served.\<close>

definition signing_key :: "server \<Rightarrow> string" where
  "signing_key sv = fst (current (signs sv))"

definition valid_signature :: "web_env \<Rightarrow> server \<Rightarrow> string \<Rightarrow> string \<Rightarrow> bool" where
  "valid_signature E sv path s \<longleftrightarrow> HMACSign_Verify (hmac E) (signing_key sv) (secs E) path s = None"

definition same_server :: "server \<Rightarrow> server \<Rightarrow> bool" where
  "same_server sv sv' \<longleftrightarrow> signing_key sv' = signing_key sv"

lemma key_kept: "signing_key (sv\<lparr>signs := snd (current (signs sv))\<rparr>) = signing_key sv"
  by (cases "current (signs sv)") (simp add: signing_key_def current_twice)

lemma verify_success:
  "verify_now E p s st = Ret (Inr e, st') \<Longrightarrow>
     (e = None \<longleftrightarrow> valid_signature E (site_server st) p s) \<and> site_files st' = site_files st \<and>
     site_server st' = (site_server st)\<lparr>signs := snd (current (signs (site_server st)))\<rparr>"
  by (cases "current (signs (site_server st))")
    (auto simp: verify_now_def Verify_def valid_signature_def signing_key_def give_def split_beta)

lemma Auth_signs: "Auth lb t tok sv = (r, sv') \<Longrightarrow> signs sv' = signs sv"
  by (auto simp: Auth_def split: if_splits sum.splits prod.splits)

lemma at_files_success:
  "at_files h st = Ret (Inr x, st') \<longleftrightarrow> (\<exists>s. h (site_files st) = Ret (Inr x, s) \<and> st' = st\<lparr>site_files := s\<rparr>)"
  by (cases "h (site_files st)") (auto simp: at_files_def)

text \<open>What a session may download without a signature.\<close>

definition may_download :: "web_env \<Rightarrow> 's layer \<Rightarrow> User \<Rightarrow> string \<Rightarrow> 's \<Rightarrow> bool" where
  "may_download E L u p s \<longleftrightarrow>
     \<not> sign_all E \<and> IsSubPath (BasePath u) p \<and>
     (case fst (nearest_meta p (L_metas L s)) of
        Inl _ \<Rightarrow> False
      | Inr None \<Rightarrow> True
      | Inr (Some m) \<Rightarrow>
          CanAccess (regexp E) u (Some m) p (MetaPassword m) = Return True \<and>
          (MetaPassword m = [] \<or> \<not> PSub m \<and> p \<noteq> MetaPath m))"

lemma session_success:
  assumes "session_auth E r st = Ret (Inr who, st')"
  shows "site_files st' = site_files st \<and> signing_key (site_server st') = signing_key (site_server st) \<and>
    (\<exists>a. Auth (session_lib E) (nanos E) (authorization r) (site_server st) = (Inr a, site_server st') \<and>
      who = Session (deref (users (site_server st')) a))"
proof (cases "Auth (session_lib E) (nanos E) (authorization r) (site_server st)")
  case (Pair res sv)
  with assms show ?thesis
    using Auth_signs [OF Pair] by (auto simp: session_auth_def Let_def handler_success signing_key_def split: sum.splits)
qed

lemma DownloadAuth_success:
  assumes "DownloadAuth E r p st = Ret (Inr who, st')"
  shows "site_files st' = site_files st \<and> signing_key (site_server st') = signing_key (site_server st) \<and>
    (who = Signed \<and> valid_signature E (site_server st) p (trim_suffix (sign_param r) ''/'') \<or>
      (\<exists>sg a. Auth (session_lib E) (nanos E) (authorization r) ((site_server st)\<lparr>signs := sg\<rparr>) = (Inr a, site_server st') \<and>
         sg \<in> {signs (site_server st), snd (current (signs (site_server st)))} \<and> who = Session (deref (users (site_server st')) a)))"
proof -
  let ?s = "trim_suffix (sign_param r) ''/''"
  have direct: ?thesis if "session_auth E r st = Ret (Inr who, st')"
  proof -
    have "\<exists>a. Auth (session_lib E) (nanos E) (authorization r) ((site_server st)\<lparr>signs := signs (site_server st)\<rparr>) = (Inr a, site_server st') \<and>
      who = Session (deref (users (site_server st')) a)" using session_success [OF that] by simp
    then show ?thesis using session_success [OF that] by blast
  qed
  show ?thesis
  proof (cases "?s = []")
    case True
    then show ?thesis using assms direct by (simp add: DownloadAuth_def handler_success split: if_splits)
  next
    case False
    with assms obtain e s1 where e: "verify_now E p ?s st = Ret (Inr e :: reply + _, s1)"
      and rest: "(if e = None then give Signed else if authorization r \<noteq> [] then session_auth E r else answer (ErrorPage 401)) s1 =
        Ret (Inr who, st')"
      by (simp add: DownloadAuth_def Let_def andThen_success) (elim exE conjE, rule that)
    note v = verify_success [OF e]
    show ?thesis
    proof (cases e)
      case None
      then show ?thesis using rest v key_kept by (simp add: handler_success)
    next
      case (Some x)
      then have "session_auth E r s1 = Ret (Inr who, st')" using rest by (simp add: handler_success split: if_splits)
      from session_success [OF this] v key_kept [of "site_server st"] show ?thesis by auto
    qed
  qed
qed

lemma IsStorageSignEnabled_server:
  "IsStorageSignEnabled L p st = Ret (Inr b, st') \<Longrightarrow> site_server st' = site_server st"
  by (auto simp: IsStorageSignEnabled_def at_files_success)

lemma check_sign_success:
  assumes "check_sign E L r p st = Ret (Inr meta, st')"
  shows "\<exists>ms s1 needed s2. nearest_meta p (L_metas L (site_files st)) = (Inr meta, ms) \<and>
    needSign E L meta p s1 = Ret (Inr needed :: reply + _, s2) \<and> site_server s1 = site_server st \<and>
    (needed \<longrightarrow> (\<exists>s. verify_now E p (trim_suffix (sign_param r) ''/'') s2 = Ret (Inr None :: reply + _, s)))"
proof -
  obtain res ms where rule: "nearest_meta p (L_metas L (site_files st)) = (res, ms)" by fastforce
  from assms obtain m s1 needed s2 where
    m: "at_files (rule_or (ErrorPage 500) L p) st = Ret (Inr m :: reply + _, s1)" and
    need: "needSign E L m p s1 = Ret (Inr needed :: reply + _, s2)" and
    tail: "(if needed then andThen (verify_now E p (trim_suffix (sign_param r) ''/''))
        (\<lambda>err. if err = None then give m else answer (ErrorPage 401)) else give m) s2 = Ret (Inr meta, st')"
    unfolding check_sign_def andThen_success by blast
  from tail have "m = meta" "needed \<longrightarrow> (\<exists>s. verify_now E p (trim_suffix (sign_param r) ''/'') s2 = Ret (Inr None :: reply + _, s))"
    by (auto simp: andThen_success handler_success split: if_splits)
  moreover from m rule have "res = Inr m" "site_server s1 = site_server st"
    by (cases res; auto simp: at_files_success rule_or_def)+
  ultimately show ?thesis using rule need by blast
qed


text \<open>Two folders served in turn at \<open>/m\<close>: the second asks for signatures.\<close>

definition demo_web :: web_env where
  "demo_web = \<lparr>session_lib = demo_lib, hmac = (\<lambda>key data. ''AB=''), secs = 0, nanos = 0, regexp = (\<lambda>_ _. Some False), lower = (\<lambda>s. s),
     sign_all = False, hide_details = True, proxy_types = [], audio_types = [], video_types = [], image_types = [], text_types = [],
     forward_params = False, raw_query = (\<lambda>_. Some []), api_url = ''http://host'', tools_of = (\<lambda>_. []), deliver = (\<lambda>_ _. Sent)\<rparr>"

definition fetching :: "string \<Rightarrow> string \<Rightarrow> string \<Rightarrow> down_request" where
  "fetching path sg tok = \<lparr>path_param = path, sign_param = sg, d_param = False, type_param = [], encoded_query = [],
     authorization = tok, down_ip = [], down_agent = []\<rparr>"

definition proxied_driver :: "string \<Rightarrow> bool \<Rightarrow> Driver" where
  "proxied_driver at needed = demo_driver\<lparr>config := (config demo_driver)\<lparr>OnlyProxy := True\<rparr>,
     storage := demo_storage\<lparr>MountPath := at, EnableSign := needed\<rparr>\<rparr>"

definition twin_cfg :: "demo_log cfg" where
  "twin_cfg = demo_cfg\<lparr>driver_of := (\<lambda>d. src_backend\<lparr>lister := \<lambda>_ d' w. (Inr [sized ''f'' (if EnableSign (storage d) then 2 else 1)], w)\<rparr>)\<rparr>"

definition twin_site :: "Driver list \<Rightarrow> demo_log xfer site" where
  "twin_site ds = \<lparr>site_files = demo_xfer\<lparr>app := (app demo_xfer)\<lparr>reg := (reg (app demo_xfer))\<lparr>storagesMap :=
       map (\<lambda>d. (MountPath (storage d), d)) ds\<rparr>\<rparr>\<rparr>, site_server = demo_server\<rparr>"

definition twin_layer :: "demo_log xfer layer" where
  "twin_layer = server_layer 9 twin_cfg 1 (\<lambda>_. True)"

text \<open>How a download ends: the size of what is sent, or the status.\<close>

definition sent :: "string \<Rightarrow> string \<Rightarrow> Driver list \<Rightarrow> (int + reply) option" where
  "sent sg tok ds = (case serve_download demo_web twin_layer False (fetching ''/m/f'' sg tok) (twin_site ds) of
     Ret (Inr (Stream lk f True), _) \<Rightarrow> Some (Inl (GetSize f)) | Ret (Inl a, _) \<Rightarrow> Some (Inr a) | _ \<Rightarrow> None)"


text \<open>Where two storages of one mount path differ in whether they ask for signatures, the demand can be passed
  by: the storage that is asked whether it wants a signature is one turn of the balance, the one that the file then comes
  from another.  Alone, the storage answers 401.\<close>
theorem sign_demand_bypassed:
  "sent [] ''bob'' [proxied_driver ''/m'' True] = Some (Inr (ErrorPage 401)) \<and>
   sent [] ''bob'' [proxied_driver ''/m'' True, proxied_driver ''/m.balance'' False] = Some (Inl 2)"
  by code_simp

section \<open>Views\<close>

definition may_read :: "web_env \<Rightarrow> 's layer \<Rightarrow> User \<Rightarrow> string \<Rightarrow> string \<Rightarrow> 's \<Rightarrow> bool" where
  "may_read E L u p password s \<longleftrightarrow>
     (case fst (nearest_meta p (L_metas L s)) of
        Inl _ \<Rightarrow> False
      | Inr meta \<Rightarrow> CanAccess (regexp E) u meta p password = Return True)"

definition reader :: "web_env \<Rightarrow> 's layer \<Rightarrow> User option \<Rightarrow> string \<Rightarrow> string \<Rightarrow> 's \<Rightarrow> bool" where
  "reader E L user path password s \<longleftrightarrow>
     (\<exists>u p. user = Some u \<and> JoinPath u path = Inr p \<and> may_read E L u p password s)"

lemma asked:
  "bound req s = Ret (Inr x, s') \<longleftrightarrow> req = Some x \<and> s' = s" "CurrentUser user s = Ret (Inr u, s') \<longleftrightarrow> user = Some u \<and> s' = s"
  "join_path u q s = Ret (Inr p, s') \<longleftrightarrow> JoinPath u q = Inr p \<and> s' = s"
  by (auto simp: bound_def CurrentUser_def join_path_def handler_success split: option.splits sum.splits)

lemma authorize_success:
  assumes "authorizeResolvedPath E L u p password st = Ret (Inr meta, st')"
  shows "may_read E L u p password (site_files st)"
proof -
  obtain res ms where rule: "nearest_meta p (L_metas L (site_files st)) = (res, ms)" by fastforce
  with assms show ?thesis
    by (cases res) (auto simp: authorizeResolvedPath_def andThen_success at_files_success rule_at_def rule_or_def may_read_def
      handler_success split: go.splits if_splits)
qed

lemma resolve_success:
  "resolveAndAuthorize E L u q password st = Ret (Inr x, st') \<Longrightarrow>
     \<exists>p. JoinPath u q = Inr p \<and> may_read E L u p password (site_files st)"
  by (auto simp: resolveAndAuthorize_def andThen_success asked dest: authorize_success)

text \<open>C12: What is listed, shown or asked of a driver is so for a user who may read it: the path joined to the base path
  is readable for the user under its nearest rule with the password given.  Only an administrator lists
  the folders of a path that is not below a base path, and that path too must be readable.\<close>
theorem reads_authorised:
  "(FsListSplit E L user (Some q) st = Ret (Inr listing, st') \<longrightarrow> reader E L user (list_path q) (list_password q) (site_files st)) \<and>
   (FsGetSplit E L r user (Some g) st = Ret (Inr shown, st') \<longrightarrow> reader E L user (get_path g) (get_password g) (site_files st)) \<and>
   (FsOther E L user (Some e) st = Ret (Inr told, st') \<longrightarrow> reader E L user (other_path e) (other_password e) (site_files st)) \<and>
   (FsDirs E L user (Some d) st = Ret (Inr dirs, st') \<longrightarrow>
     (if ForceRoot d then \<exists>u. user = Some u \<and> IsAdmin u \<and> may_read E L u (dir_path d) (dir_password d) (site_files st)
      else reader E L user (dir_path d) (dir_password d) (site_files st)))"
  unfolding reader_def
  by (auto simp: FsListSplit_def FsGetSplit_def FsOther_def FsDirs_def FsList_def FsGet_def andThen_success asked handler_success
    dest: authorize_success resolve_success split: if_splits)

text \<open>A folder under a password that covers the folder alone, with two files of one stem.\<close>

definition pair_cfg :: "demo_log cfg" where
  "pair_cfg = demo_cfg\<lparr>driver_of := (\<lambda>d. src_backend\<lparr>lister := \<lambda>_ d' w. (Inr [sized ''a.mp4'' 1, sized ''a.txt'' 2], w)\<rparr>)\<rparr>"

definition pair_layer :: "demo_log xfer layer" where
  "pair_layer = server_layer 9 pair_cfg 1 (\<lambda>_. True)"

definition unruled :: metaStore where
  "unruled = metas (app demo_xfer)"

definition folder_password :: metaStore where
  "folder_password = unruled\<lparr>rows := [demo_meta\<lparr>mid := 1, MetaPath := ''/m'', ReadUsers := [], MetaPassword := ''pw'', PSub := False\<rparr>]\<rparr>"

definition pair_site :: "metaStore \<Rightarrow> demo_log xfer site" where
  "pair_site ms = (let s = twin_site [demo_driver] in s\<lparr>site_files := (site_files s)\<lparr>app := (app (site_files s))\<lparr>metas := ms\<rparr>\<rparr>\<rparr>)"

definition plain_user :: User where
  "plain_user = (user_at ''/'')\<lparr>Permission := 0\<rparr>"

definition list_names :: "metaStore \<Rightarrow> (string list + reply) option" where
  "list_names ms = (case FsListSplit demo_web pair_layer (Some plain_user)
       (Some \<lparr>list_page = \<lparr>Page = 1, PerPage = 0\<rparr>, list_path = ''/m'', list_password = [], list_refresh = False\<rparr>) (pair_site ms) of
     Ret (Inr l, _) \<Rightarrow> Some (Inl (map r_name (content l))) | Ret (Inl a, _) \<Rightarrow> Some (Inr a) | _ \<Rightarrow> None)"

definition related_names :: "metaStore \<Rightarrow> (string list + reply) option" where
  "related_names ms = (case FsGetSplit demo_web pair_layer (fetching [] [] []) (Some plain_user)
       (Some \<lparr>get_path = ''/m/a.mp4'', get_password = []\<rparr>) (pair_site ms) of
     Ret (Inr g, _) \<Rightarrow> Some (Inl (map r_name (related g))) | Ret (Inl a, _) \<Rightarrow> Some (Inr a) | _ \<Rightarrow> None)"

lemma reads_authorised_witness:
  "list_names unruled = Some (Inl [''a.mp4'', ''a.txt'']) \<and> reader demo_web pair_layer (Some plain_user) ''/m'' [] (site_files (pair_site unruled))"
proof -
  have n: "list_names unruled = Some (Inl [''a.mp4'', ''a.txt''])" by code_simp
  then obtain l st' where "FsListSplit demo_web pair_layer (Some plain_user)
       (Some \<lparr>list_page = \<lparr>Page = 1, PerPage = 0\<rparr>, list_path = ''/m'', list_password = [], list_refresh = False\<rparr>) (pair_site unruled) = Ret (Inr l, st')"
    by (auto simp: list_names_def split: outcome.splits prod.splits sum.splits)
  with reads_authorised have "reader demo_web pair_layer (Some plain_user) ''/m'' [] (site_files (pair_site unruled))" by fastforce
  with n show ?thesis ..
qed

text \<open>The password of a folder keeps its listing from a user who may read a file in it, but the same user, asking
  for the file, gets its neighbours of the same stem: the folder is listed with no check of its rule.\<close>
theorem related_past_password:
  "list_names folder_password = Some (Inr (ErrorStrResp ''password is incorrect or you have no permission'' 403)) \<and>
   related_names folder_password = Some (Inl [''a.txt''])"
  by code_simp

end
