(* ===== verification/Blocks.thy ===== *)
theory Blocks
  imports Prelude
begin

text \<open>
  The stores of bytes of \<open>internal/hybrid_cache\<close>: slices in memory (\<open>BufferStore\<close>), one temporary file
  (\<open>singleFileStore\<close>) and several (\<open>MultiFileStore\<close>).  Each is a \<open>BackingStore\<close>: it grows, and is read and
  written at offsets.  The locale \<open>backing\<close> states that contract over the bytes a store holds; the three stores,
  and the interface value that is one of them, are interpretations.
\<close>

section \<open>Bytes and files\<close>

datatype io_error = EOF | ErrShortWrite | ErrUnexpectedEOF | ErrClosedPipe | ErrNotEnoughMemory | OsError | BadOffset

definition zeros :: "nat \<Rightarrow> string" where
  "zeros n = replicate n (CHR 0x00)"

definition overwrite :: "string \<Rightarrow> nat \<Rightarrow> string \<Rightarrow> string" where
  "overwrite xs off p = take off xs @ p @ drop (off + length p) xs"

text \<open>A call to the system may fail, after some bytes when it moves bytes.  What the calls to come do is a list:
  \<open>None\<close> succeeds, \<open>Some k\<close> fails after \<open>k\<close> bytes; after its end all succeed.\<close>

type_synonym fault = "nat option"

definition next_fault :: "fault list \<Rightarrow> fault \<times> fault list" where
  "next_fault fs = (case fs of [] \<Rightarrow> (None, []) | f # fs \<Rightarrow> (f, fs))"

text \<open>\<open>os.File\<close>: a read past the end is short, a write past the end fills the gap with zeros.\<close>

definition file_ReadAt :: "fault \<Rightarrow> nat \<Rightarrow> int \<Rightarrow> string \<Rightarrow> string \<times> io_error option" where
  "file_ReadAt failing n off f =
     (if off < 0 then ([], Some BadOffset)
      else
        let got = take n (drop (nat off) f)
        in case failing of
             Some k \<Rightarrow> (take k got, Some OsError)
           | None \<Rightarrow> (got, if length got < n then Some EOF else None))"

definition file_WriteAt :: "fault \<Rightarrow> string \<Rightarrow> int \<Rightarrow> string \<Rightarrow> (nat \<times> io_error option) \<times> string" where
  "file_WriteAt failing p off f =
     (if off < 0 then ((0, Some BadOffset), f)
      else
        let (w, e) = (case failing of Some k \<Rightarrow> (take k p, Some OsError) | None \<Rightarrow> (p, None))
        in ((length w, e), if w = [] then f else overwrite (f @ zeros (nat off - length f)) (nat off) w))"

definition file_Truncate :: "fault \<Rightarrow> nat \<Rightarrow> string \<Rightarrow> io_error option \<times> string" where
  "file_Truncate failing n f = (if failing \<noteq> None then (Some OsError, f) else (None, take n f @ zeros (n - length f)))"

section \<open>Slices in memory\<close>

record buffer_store =
  buf_blocks :: "string list"
  buf_size :: int

text \<open>The longest slice that \<open>make\<close> does not panic for; \<open>GrowTo\<close> recovers from the panic.\<close>

definition max_alloc :: int where
  "max_alloc = 2 ^ 48"

definition buffer_GrowTo :: "int \<Rightarrow> buffer_store \<Rightarrow> io_error option \<times> buffer_store" where
  "buffer_GrowTo n m =
     (if n \<le> buf_size m then (None, m)
      else if max_alloc < n - buf_size m then (Some ErrNotEnoughMemory, m)
      else (None, m\<lparr>buf_blocks := buf_blocks m @ [zeros (nat (n - buf_size m))], buf_size := n\<rparr>))"

definition buffer_Append :: "string \<Rightarrow> buffer_store \<Rightarrow> buffer_store" where
  "buffer_Append buf m = m\<lparr>buf_size := buf_size m + int (length buf), buf_blocks := buf_blocks m @ [buf]\<rparr>"

definition buffer_Close :: "buffer_store \<Rightarrow> buffer_store" where
  "buffer_Close m = (if buf_blocks m \<noteq> [] then m\<lparr>buf_blocks := [], buf_size := 0\<rparr> else m)"

fun scan_read :: "string list \<Rightarrow> nat \<Rightarrow> nat \<Rightarrow> string" where
  "scan_read [] n off = []"
| "scan_read (buf # bs) n off =
     (if length buf \<le> off then scan_read bs n (off - length buf)
      else
        let got = take n (drop off buf)
        in if length got = n then got else got @ scan_read bs (n - length got) 0)"

definition buffer_ReadAt :: "nat \<Rightarrow> int \<Rightarrow> buffer_store \<Rightarrow> string \<times> io_error option" where
  "buffer_ReadAt n off m =
     (if n = 0 then ([], None)
      else if off < 0 \<or> buf_size m \<le> off then ([], Some EOF)
      else
        let got = scan_read (buf_blocks m) n (nat off)
        in (got, if length got = n then None else Some EOF))"

primrec scan_write :: "string list \<Rightarrow> string \<Rightarrow> nat \<Rightarrow> nat \<times> string list" where
  "scan_write [] p off = (0, [])"
| "scan_write (b # bs) p off =
     (if length b \<le> off then let (n, bs) = scan_write bs p (off - length b) in (n, b # bs)
      else
        let nn = min (length b - off) (length p); b = overwrite b off (take nn p)
        in if nn = length p then (nn, b # bs)
           else let (n, bs) = scan_write bs (drop nn p) 0 in (nn + n, b # bs))"

definition buffer_WriteAt :: "string \<Rightarrow> int \<Rightarrow> buffer_store \<Rightarrow> (nat \<times> io_error option) \<times> buffer_store" where
  "buffer_WriteAt p off m =
     (if p = [] then ((0, None), m)
      else if off < 0 \<or> buf_size m \<le> off then ((0, Some ErrShortWrite), m)
      else
        let (n, bs) = scan_write (buf_blocks m) p (nat off)
        in ((n, if n = length p then None else Some ErrShortWrite), m\<lparr>buf_blocks := bs\<rparr>))"

section \<open>One file\<close>

record single_store =
  sf_file :: string
  sf_size :: int
  sf_faults :: "fault list"

definition single_GrowTo :: "int \<Rightarrow> single_store \<Rightarrow> io_error option \<times> single_store" where
  "single_GrowTo n s =
     (if n \<le> sf_size s then (None, s)
      else
        let (failing, fs) = next_fault (sf_faults s); (e, f) = file_Truncate failing (nat n) (sf_file s)
        in (e, s\<lparr>sf_file := f, sf_size := (if e = None then n else sf_size s), sf_faults := fs\<rparr>))"

definition single_ReadAt :: "nat \<Rightarrow> int \<Rightarrow> single_store \<Rightarrow> (string \<times> io_error option) \<times> single_store" where
  "single_ReadAt n off s =
     (let (failing, fs) = next_fault (sf_faults s) in (file_ReadAt failing n off (sf_file s), s\<lparr>sf_faults := fs\<rparr>))"

definition single_WriteAt :: "string \<Rightarrow> int \<Rightarrow> single_store \<Rightarrow> (nat \<times> io_error option) \<times> single_store" where
  "single_WriteAt p off s =
     (let (failing, fs) = next_fault (sf_faults s); (r, f) = file_WriteAt failing p off (sf_file s)
      in (r, s\<lparr>sf_file := f, sf_faults := fs\<rparr>))"

section \<open>Several files\<close>

text \<open>A block of a file is written up to \<open>fb_written\<close>; what follows up to \<open>fb_size\<close> is read as zeros.\<close>

record file_block =
  fb_file :: string
  fb_size :: nat
  fb_written :: nat

record multi_store =
  mf_blocks :: "file_block list"
  mf_size :: int
  mf_faults :: "fault list"

definition multi_GrowTo :: "int \<Rightarrow> multi_store \<Rightarrow> io_error option \<times> multi_store" where
  "multi_GrowTo n m =
     (if n \<le> mf_size m then (None, m)
      else
        let (failing, fs) = next_fault (mf_faults m); m = m\<lparr>mf_faults := fs\<rparr>
        in if failing \<noteq> None then (Some OsError, m)
           else (None, m\<lparr>mf_blocks := mf_blocks m @ [\<lparr>fb_file = [], fb_size = nat (n - mf_size m), fb_written = 0\<rparr>], mf_size := n\<rparr>))"

definition block_read :: "file_block \<Rightarrow> nat \<Rightarrow> nat \<Rightarrow> fault list \<Rightarrow> (string \<times> io_error option) \<times> fault list" where
  "block_read c canRead off fs =
     (if off < fb_written c then
        let (failing, fs) = next_fault fs;
            (got, e) = file_ReadAt failing (min canRead (fb_written c - off)) (int off) (fb_file c)
        in ((got, if e = Some EOF then None else e), fs)
      else (([], None), fs))"

primrec multi_scan_read :: "file_block list \<Rightarrow> nat \<Rightarrow> nat \<Rightarrow> fault list \<Rightarrow> (string \<times> io_error option) \<times> fault list" where
  "multi_scan_read [] n off fs = (([], Some EOF), fs)"
| "multi_scan_read (c # cs) n off fs =
     (if fb_size c \<le> off then multi_scan_read cs n (off - fb_size c) fs
      else
        let canRead = min n (fb_size c - off)
        in if canRead = 0 then (([], Some EOF), fs)
           else
             let ((got, e), fs) = block_read c canRead off fs
             in if e \<noteq> None then ((got, e), fs)
                else if length got = n then ((got, None), fs)
                else
                  let got = got @ zeros (canRead - length got)
                  in if length got = n then ((got, None), fs)
                     else let ((more, e), fs) = multi_scan_read cs (n - length got) 0 fs in ((got @ more, e), fs))"

definition multi_ReadAt :: "nat \<Rightarrow> int \<Rightarrow> multi_store \<Rightarrow> (string \<times> io_error option) \<times> multi_store" where
  "multi_ReadAt n off m =
     (if n = 0 then (([], None), m)
      else if off < 0 \<or> mf_size m \<le> off then (([], Some EOF), m)
      else let (r, fs) = multi_scan_read (mf_blocks m) n (nat off) (mf_faults m) in (r, m\<lparr>mf_faults := fs\<rparr>))"

primrec multi_scan_write ::
  "file_block list \<Rightarrow> string \<Rightarrow> nat \<Rightarrow> fault list \<Rightarrow> (nat \<times> io_error option) \<times> file_block list \<times> fault list" where
  "multi_scan_write [] p off fs = ((0, Some ErrShortWrite), [], fs)"
| "multi_scan_write (b # bs) p off fs =
     (if fb_size b \<le> off then
        let (r, bs, fs) = multi_scan_write bs p (off - fb_size b) fs in (r, b # bs, fs)
      else
        let canWrite = min (length p) (fb_size b - off)
        in if canWrite = 0 then ((0, Some ErrShortWrite), b # bs, fs)
           else
             let (failing, fs) = next_fault fs;
                 ((nn, e), f) = file_WriteAt failing (take canWrite p) (int off) (fb_file b);
                 b = b\<lparr>fb_file := f, fb_written := max (fb_written b) (off + nn)\<rparr>
             in if e \<noteq> None then ((nn, e), b # bs, fs)
                else if nn < canWrite then ((nn, Some ErrShortWrite), b # bs, fs)
                else if nn = length p then ((nn, None), b # bs, fs)
                else let ((n, e), bs, fs) = multi_scan_write bs (drop nn p) 0 fs in ((nn + n, e), b # bs, fs))"

definition multi_WriteAt :: "string \<Rightarrow> int \<Rightarrow> multi_store \<Rightarrow> (nat \<times> io_error option) \<times> multi_store" where
  "multi_WriteAt p off m =
     (if p = [] then ((0, None), m)
      else if off < 0 \<or> mf_size m \<le> off then ((0, Some ErrShortWrite), m)
      else
        let (r, bs, fs) = multi_scan_write (mf_blocks m) p (nat off) (mf_faults m)
        in (r, m\<lparr>mf_blocks := bs, mf_faults := fs\<rparr>))"

section \<open>Stores\<close>

datatype store = Buffers buffer_store | OneFile single_store | Files multi_store

text \<open>A file that cannot be given its size at once becomes the first of several.\<close>

definition NewFileStore :: "nat \<Rightarrow> fault list \<Rightarrow> (io_error + store) \<times> fault list" where
  "NewFileStore blockSize fs =
     (let (failing, fs) = next_fault fs
      in if failing \<noteq> None then (Inl OsError, fs)
         else
           let (failing, fs) = next_fault fs; (e, f) = file_Truncate failing blockSize []
           in if e = None then (Inr (OneFile \<lparr>sf_file = f, sf_size = int blockSize, sf_faults = fs\<rparr>), [])
              else (Inr (Files \<lparr>mf_blocks = [\<lparr>fb_file = f, fb_size = blockSize, fb_written = 0\<rparr>], mf_size = int blockSize,
                  mf_faults = fs\<rparr>), []))"

definition store_GrowTo :: "int \<Rightarrow> store \<Rightarrow> io_error option \<times> store" where
  "store_GrowTo n st =
     (case st of
        Buffers m \<Rightarrow> map_prod id Buffers (buffer_GrowTo n m)
      | OneFile s \<Rightarrow> map_prod id OneFile (single_GrowTo n s)
      | Files m \<Rightarrow> map_prod id Files (multi_GrowTo n m))"

definition store_ReadAt :: "nat \<Rightarrow> int \<Rightarrow> store \<Rightarrow> (string \<times> io_error option) \<times> store" where
  "store_ReadAt n off st =
     (case st of
        Buffers m \<Rightarrow> (buffer_ReadAt n off m, st)
      | OneFile s \<Rightarrow> map_prod id OneFile (single_ReadAt n off s)
      | Files m \<Rightarrow> map_prod id Files (multi_ReadAt n off m))"

definition store_WriteAt :: "string \<Rightarrow> int \<Rightarrow> store \<Rightarrow> (nat \<times> io_error option) \<times> store" where
  "store_WriteAt p off st =
     (case st of
        Buffers m \<Rightarrow> map_prod id Buffers (buffer_WriteAt p off m)
      | OneFile s \<Rightarrow> map_prod id OneFile (single_WriteAt p off s)
      | Files m \<Rightarrow> map_prod id Files (multi_WriteAt p off m))"

section \<open>The contract\<close>

lemma length_zeros [simp]: "length (zeros n) = n"
  by (simp add: zeros_def)

lemma zeros_cuts [simp]: "take k (zeros n) = zeros (min k n)" "drop k (zeros n) = zeros (n - k)" "zeros a @ zeros b = zeros (a + b)"
  "zeros 0 = []"
  by (simp_all add: zeros_def replicate_add)

lemma length_overwrite [simp]: "off + length p \<le> length xs \<Longrightarrow> length (overwrite xs off p) = length xs"
  by (simp add: overwrite_def)

lemma overwrite_nothing [simp]: "off \<le> length xs \<Longrightarrow> overwrite xs off [] = xs"
  by (simp add: overwrite_def)

lemma overwrite_left: "off + length p \<le> length xs \<Longrightarrow> overwrite (xs @ ys) off p = overwrite xs off p @ ys"
  by (simp add: overwrite_def)

lemma overwrite_right: "length xs \<le> off \<Longrightarrow> overwrite (xs @ ys) off p = xs @ overwrite ys (off - length xs) p"
  by (simp add: overwrite_def)

lemma overwrite_across:
  "off + length p = length xs \<Longrightarrow> length q \<le> length ys \<Longrightarrow> overwrite (xs @ ys) off (p @ q) = overwrite xs off p @ overwrite ys 0 q"
  by (simp add: overwrite_def flip: add.assoc)

lemma take_overwrite: "off + length p \<le> length xs \<Longrightarrow> take (length p) (drop off (overwrite xs off p)) = p"
  by (simp add: overwrite_def)

lemma prefix_take: "prefix xs ys \<Longrightarrow> length xs = n \<Longrightarrow> take n ys = xs"
  by (auto simp: prefix_def)

text \<open>What a user of a store may rely on.  \<open>held\<close> are the bytes, whose number is the size; reads and writes are
  within it; a failed write has still written the bytes it says.\<close>

locale backing =
  fixes ok :: "'s \<Rightarrow> bool" and held :: "'s \<Rightarrow> string"
    and grow :: "int \<Rightarrow> 's \<Rightarrow> io_error option \<times> 's"
    and read :: "nat \<Rightarrow> int \<Rightarrow> 's \<Rightarrow> (string \<times> io_error option) \<times> 's"
    and put :: "string \<Rightarrow> int \<Rightarrow> 's \<Rightarrow> (nat \<times> io_error option) \<times> 's"
  assumes grown: "ok s \<Longrightarrow> grow m s = (e, s') \<Longrightarrow> ok s' \<and>
      held s' = held s @ (if e = None then zeros (nat m - length (held s)) else [])"
    and reads: "ok s \<Longrightarrow> 0 < n \<Longrightarrow> 0 \<le> off \<Longrightarrow> nat off + n \<le> length (held s) \<Longrightarrow> read n off s = ((got, e), s') \<Longrightarrow>
      ok s' \<and> held s' = held s \<and> prefix got (drop (nat off) (held s)) \<and> length got \<le> n \<and>
      (e = None \<longrightarrow> length got = n)"
    and writes: "ok s \<Longrightarrow> p \<noteq> [] \<Longrightarrow> 0 \<le> off \<Longrightarrow> nat off + length p \<le> length (held s) \<Longrightarrow> put p off s = ((k, e), s') \<Longrightarrow>
      ok s' \<and> held s' = overwrite (held s) (nat off) (take k p) \<and> k \<le> length p \<and> (e = None \<longrightarrow> k = length p)"
begin

text \<open>What was written in full is read back.\<close>

lemma reads_written:
  assumes "ok s" "p \<noteq> []" "0 \<le> off" "nat off + length p \<le> length (held s)" "put p off s = ((k, None), s1)"
    and "read (length p) off s1 = ((got, None), s2)"
  shows "got = p"
proof -
  from writes [OF assms(1-5)] have w: "ok s1" "held s1 = overwrite (held s) (nat off) p" by simp_all
  then have "nat off + length p \<le> length (held s1)" using assms(4) by simp
  from reads [OF w(1) _ assms(3) this assms(6)] assms(2) have "prefix got (drop (nat off) (overwrite (held s) (nat off) p))" "length got = length p"
    by (simp_all add: w(2))
  then show ?thesis using take_overwrite [OF assms(4)] by (metis prefix_take)
qed

end

subsection \<open>Slices in memory\<close>

definition buffer_ok :: "buffer_store \<Rightarrow> bool" where
  "buffer_ok m \<longleftrightarrow> buf_size m = int (length (concat (buf_blocks m)))"

lemma scan_read_eq: "scan_read bs n off = take n (drop off (concat bs))"
proof (induction bs n off rule: scan_read.induct)
  case (2 buf bs n off)
  then show ?case by (cases "length buf \<le> off") (auto simp: Let_def min_def not_le split: if_splits)
qed simp

lemma scan_write_eq:
  "off + length p \<le> length (concat bs) \<Longrightarrow> scan_write bs p off = (n, bs') \<Longrightarrow>
     n = length p \<and> concat bs' = overwrite (concat bs) off p"
proof (induction bs arbitrary: p off n bs')
  case Nil
  then show ?case by simp
next
  case (Cons b bs)
  show ?case
  proof (cases "length b \<le> off")
    case True
    obtain m cs where m: "scan_write bs p (off - length b) = (m, cs)" by fastforce
    have "m = length p \<and> concat cs = overwrite (concat bs) (off - length b) p"
      by (rule Cons(1) [OF _ m]) (use Cons(2) True in simp)
    with Cons(3) True m show ?thesis by (auto simp: overwrite_right)
  next
    case False
    define nn where "nn = min (length b - off) (length p)"
    show ?thesis
    proof (cases "nn = length p")
      case True
      then have "off + length p \<le> length b" using False by (auto simp: nn_def)
      with True False Cons(3) show ?thesis by (auto simp: nn_def [symmetric] Let_def overwrite_left)
    next
      case part: False
      then have nn: "off + nn = length b" "nn < length p" using False by (auto simp: nn_def)
      obtain m cs where r: "scan_write bs (drop nn p) 0 = (m, cs)" by fastforce
      have "m = length (drop nn p) \<and> concat cs = overwrite (concat bs) 0 (drop nn p)"
        by (rule Cons(1) [OF _ r]) (use nn Cons(2) in simp)
      moreover have "overwrite (b @ concat bs) off (take nn p @ drop nn p) = overwrite b off (take nn p) @ overwrite (concat bs) 0 (drop nn p)"
        by (rule overwrite_across) (use nn Cons(2) in auto)
      moreover have "bs' = overwrite b off (take nn p) # cs \<and> n = nn + m"
        using False part r Cons(3) by (simp add: Let_def nn_def [symmetric])
      ultimately show ?thesis using nn by simp
    qed
  qed
qed

interpretation buffer: backing buffer_ok "\<lambda>m. concat (buf_blocks m)" buffer_GrowTo "\<lambda>n off m. (buffer_ReadAt n off m, m)" buffer_WriteAt
proof
  fix m :: buffer_store and m' :: buffer_store and n k :: nat and got p :: string and off sz :: int and e :: "io_error option"
  assume ok: "buffer_ok m"
  show "buffer_GrowTo sz m = (e, m') \<Longrightarrow> buffer_ok m' \<and>
      concat (buf_blocks m') = concat (buf_blocks m) @ (if e = None then zeros (nat sz - length (concat (buf_blocks m))) else [])"
    using ok by (auto simp: buffer_GrowTo_def buffer_ok_def nat_diff_distrib split: if_splits)
  assume off: "0 \<le> off"
  show "0 < n \<Longrightarrow> nat off + n \<le> length (concat (buf_blocks m)) \<Longrightarrow> (buffer_ReadAt n off m, m) = ((got, e), m') \<Longrightarrow>
      buffer_ok m' \<and> concat (buf_blocks m') = concat (buf_blocks m) \<and> prefix got (drop (nat off) (concat (buf_blocks m))) \<and>
      length got \<le> n \<and> (e = None \<longrightarrow> length got = n)"
    using ok off by (auto simp: buffer_ReadAt_def buffer_ok_def scan_read_eq Let_def take_is_prefix split: if_splits)
  assume p: "p \<noteq> []" "nat off + length p \<le> length (concat (buf_blocks m))" and w: "buffer_WriteAt p off m = ((k, e), m')"
  obtain n' bs where s: "scan_write (buf_blocks m) p (nat off) = (n', bs)" by fastforce
  with scan_write_eq [OF p(2) s] p ok off w show "buffer_ok m' \<and>
      concat (buf_blocks m') = overwrite (concat (buf_blocks m)) (nat off) (take k p) \<and> k \<le> length p \<and> (e = None \<longrightarrow> k = length p)"
    by (auto simp: buffer_WriteAt_def buffer_ok_def split: if_splits)
qed

subsection \<open>One file\<close>

definition single_ok :: "single_store \<Rightarrow> bool" where
  "single_ok s \<longleftrightarrow> sf_size s = int (length (sf_file s))"

lemma file_WriteAt_inside:
  "off + length p \<le> length f \<Longrightarrow> file_WriteAt failing p (int off) f = ((k, e), f') \<Longrightarrow>
     f' = overwrite f off (take k p) \<and> k \<le> length p \<and> (e = None \<longrightarrow> k = length p)"
  by (auto simp: file_WriteAt_def min_def split: option.splits if_splits)

lemma file_ReadAt_part:
  "file_ReadAt failing n (int off) f = (got, e) \<Longrightarrow> length got \<le> n \<and> prefix got (drop off f) \<and>
     (e = None \<or> e = Some EOF \<longrightarrow> got = take n (drop off f)) \<and> (e = None \<longrightarrow> length got = n)"
  by (auto simp: file_ReadAt_def Let_def min_def take_is_prefix split: option.splits if_splits)

interpretation single: backing single_ok sf_file single_GrowTo single_ReadAt single_WriteAt
proof
  fix s s' :: single_store and n k :: nat and got p :: string and off sz :: int and e :: "io_error option"
  assume ok: "single_ok s"
  show "single_GrowTo sz s = (e, s') \<Longrightarrow> single_ok s' \<and> sf_file s' = sf_file s @ (if e = None then zeros (nat sz - length (sf_file s)) else [])"
    using ok by (auto simp: single_GrowTo_def single_ok_def file_Truncate_def split: if_splits prod.splits)
  assume off: "0 \<le> off"
  show "0 < n \<Longrightarrow> nat off + n \<le> length (sf_file s) \<Longrightarrow> single_ReadAt n off s = ((got, e), s') \<Longrightarrow>
      single_ok s' \<and> sf_file s' = sf_file s \<and> prefix got (drop (nat off) (sf_file s)) \<and> length got \<le> n \<and>
      (e = None \<longrightarrow> length got = n)"
  proof -
    assume r: "single_ReadAt n off s = ((got, e), s')"
    then have "file_ReadAt (fst (next_fault (sf_faults s))) n (int (nat off)) (sf_file s) = (got, e)"
      and s': "s' = s\<lparr>sf_faults := snd (next_fault (sf_faults s))\<rparr>"
      using off by (simp_all add: single_ReadAt_def split_beta)
    from file_ReadAt_part [OF this(1)] have "length got \<le> n" "prefix got (drop (nat off) (sf_file s))" "e = None \<longrightarrow> length got = n"
      by blast+
    then show ?thesis using ok by (simp add: s' single_ok_def)
  qed
  assume p: "nat off + length p \<le> length (sf_file s)" and w: "single_WriteAt p off s = ((k, e), s')"
  obtain f fs where f: "file_WriteAt (fst (next_fault (sf_faults s))) p (int (nat off)) (sf_file s) = ((k, e), f)"
      and s': "s' = s\<lparr>sf_file := f, sf_faults := fs\<rparr>"
    using w off by (auto simp: single_WriteAt_def split: prod.splits)
  show "single_ok s' \<and> sf_file s' = overwrite (sf_file s) (nat off) (take k p) \<and> k \<le> length p \<and> (e = None \<longrightarrow> k = length p)"
    using file_WriteAt_inside [OF p f] ok p by (simp add: single_ok_def s')
qed

subsection \<open>Several files\<close>

definition block_ok :: "file_block \<Rightarrow> bool" where
  "block_ok b \<longleftrightarrow> length (fb_file b) \<le> fb_written b \<and> fb_written b \<le> fb_size b"

definition block_bytes :: "file_block \<Rightarrow> string" where
  "block_bytes b = fb_file b @ zeros (fb_size b - length (fb_file b))"

definition multi_ok :: "multi_store \<Rightarrow> bool" where
  "multi_ok m \<longleftrightarrow> list_all block_ok (mf_blocks m) \<and> mf_size m = int (length (concat (map block_bytes (mf_blocks m))))"

lemma length_block_bytes [simp]: "block_ok b \<Longrightarrow> length (block_bytes b) = fb_size b"
  by (simp add: block_ok_def block_bytes_def)

lemma padded_read:
  "off + n \<le> S \<Longrightarrow> length f \<le> S \<Longrightarrow>
     take n (drop off (f @ zeros (S - length f))) = take n (drop off f) @ zeros (n - length (take n (drop off f)))"
  by (cases "off \<le> length f") (auto simp: min_def)

lemma block_read_eq:
  assumes "block_ok c" "off + n \<le> fb_size c" "block_read c n off fs = ((got, e), fs')"
  shows "length got \<le> n \<and> prefix got (drop off (block_bytes c)) \<and>
    (e = None \<longrightarrow> got @ zeros (n - length got) = take n (drop off (block_bytes c)))"
proof (cases "off < fb_written c")
  case True
  define m where "m = min n (fb_written c - off)"
  have m: "m \<le> n" "take m (drop off (fb_file c)) = take n (drop off (fb_file c))"
    using assms(1) by (auto simp: m_def block_ok_def min_def)
  obtain failing fs1 where f: "next_fault fs = (failing, fs1)" by fastforce
  obtain g e' where r: "file_ReadAt failing m (int off) (fb_file c) = (g, e')" by fastforce
  have res: "got = g" "e = (if e' = Some EOF then None else e')"
    using assms(3) True r unfolding block_read_def m_def [symmetric] f by simp_all
  note g = file_ReadAt_part [OF r]
  have "got = take n (drop off (fb_file c))" if "e = None"
  proof -
    have "e' = None \<or> e' = Some EOF" using that res by (simp split: if_splits)
    then show ?thesis using g m(2) res by argo
  qed
  moreover have "length (fb_file c) \<le> fb_size c" using assms(1) by (simp add: block_ok_def)
  ultimately have "e = None \<longrightarrow> got @ zeros (n - length got) = take n (drop off (block_bytes c))"
    using padded_read [OF assms(2)] by (simp add: block_bytes_def)
  moreover have "prefix got (drop off (block_bytes c))"
    using g res by (simp add: block_bytes_def prefix_append)
  ultimately show ?thesis using g res m(1) by auto
next
  case False
  then have "length (fb_file c) \<le> off" using assms(1) by (simp add: block_ok_def)
  then show ?thesis using False assms by (simp add: block_read_def block_bytes_def)
qed

lemma multi_scan_read_eq:
  "list_all block_ok cs \<Longrightarrow> 0 < n \<Longrightarrow> off + n \<le> length (concat (map block_bytes cs)) \<Longrightarrow> multi_scan_read cs n off fs = ((got, e), fs') \<Longrightarrow>
     prefix got (drop off (concat (map block_bytes cs))) \<and> length got \<le> n \<and> (e = None \<longrightarrow> length got = n)"
proof (induction cs arbitrary: n off fs got e fs')
  case Nil
  then show ?case by simp
next
  case (Cons c cs)
  let ?all = "concat (map block_bytes cs)"
  have c: "block_ok c" "length (block_bytes c) = fb_size c" using Cons(2) by simp_all
  show ?case
  proof (cases "fb_size c \<le> off")
    case True
    have "prefix got (drop (off - fb_size c) ?all) \<and> length got \<le> n \<and> (e = None \<longrightarrow> length got = n)"
      by (rule Cons(1) [where fs = fs and fs' = fs']) (use Cons(2-5) c True in auto)
    then show ?thesis using c True by simp
  next
    case False
    define can where "can = min n (fb_size c - off)"
    have can: "0 < can" "off + can \<le> fb_size c" "can \<le> n" using False Cons(3) by (auto simp: can_def)
    obtain g e1 fs1 where b: "block_read c can off fs = ((g, e1), fs1)" by (metis prod.collapse)
    note g = block_read_eq [OF c(1) can(2) b]
    have lg: "length g + (can - length g) = can" using g by simp
    have run: "((got, e), fs') = (if e1 \<noteq> None then ((g, e1), fs1) else if length g = n then ((g, None), fs1)
        else if can = n then ((g @ zeros (can - length g), None), fs1)
        else let ((more, e), fs) = multi_scan_read cs (n - can) 0 fs1 in (((g @ zeros (can - length g)) @ more, e), fs))"
      using Cons(5) False can(1) b lg by (simp add: Let_def can_def [symmetric] cong: if_cong)
    show ?thesis
    proof (cases "e1 = None \<and> can \<noteq> n")
      case True
      then have can_all: "can = fb_size c - off" by (auto simp: can_def min_def split: if_splits)
      obtain more e2 fs2 where m: "multi_scan_read cs (n - can) 0 fs1 = ((more, e2), fs2)" by (metis prod.collapse)
      have "prefix more (drop 0 ?all) \<and> length more \<le> n - can \<and> (e2 = None \<longrightarrow> length more = n - can)"
        by (rule Cons(1) [OF _ _ _ m]) (use True can Cons(2,4) c can_all in auto)
      moreover from this have "prefix ((g @ zeros (can - length g)) @ more) (drop off (block_bytes c) @ ?all)"
      proof -
        have "g @ zeros (can - length g) = drop off (block_bytes c)" using g True c can_all by simp
        then show ?thesis using \<open>prefix more _ \<and> _\<close> by (simp only: same_prefix_prefix drop_0)
      qed
      ultimately show ?thesis using run True g m c can can_all by (auto simp del: append_assoc)
    next
      case ends: False
      have "off + can \<le> length (block_bytes c)" using can c by simp
      with ends show ?thesis using run g can by (auto simp: prefix_append take_is_prefix split: if_splits)
    qed
  qed
qed

lemma padded_write:
  assumes "off + length w \<le> S" "length f \<le> S" "w \<noteq> []"
  shows "let f' = overwrite (f @ zeros (off - length f)) off w in
    f' @ zeros (S - length f') = overwrite (f @ zeros (S - length f)) off w \<and> length f' = max (length f) (off + length w)"
  using assms by (cases "off \<le> length f") (auto simp: overwrite_def Let_def max_def)

lemma block_write_eq:
  assumes "block_ok b" "off + length p \<le> fb_size b" "file_WriteAt failing p (int off) (fb_file b) = ((k, e), f)"
  shows "let b' = b\<lparr>fb_file := f, fb_written := max (fb_written b) (off + k)\<rparr> in
    block_ok b' \<and> block_bytes b' = overwrite (block_bytes b) off (take k p) \<and> k \<le> length p \<and> (e = None \<longrightarrow> k = length p)"
proof -
  from assms(3) have k: "k \<le> length p" "e = None \<longrightarrow> k = length p"
    and f: "f = (if take k p = [] then fb_file b else overwrite (fb_file b @ zeros (off - length (fb_file b))) off (take k p))"
    by (auto simp: file_WriteAt_def min_def split: option.splits if_splits)
  have "off \<le> length (block_bytes b)" using assms(1,2) by simp
  then show ?thesis
    using k f assms(1,2) padded_write [of off "take k p" "fb_size b" "fb_file b"]
    by (cases "take k p = []") (auto simp: block_ok_def block_bytes_def Let_def)
qed

lemma multi_scan_write_eq:
  "list_all block_ok bs \<Longrightarrow> p \<noteq> [] \<Longrightarrow> off + length p \<le> length (concat (map block_bytes bs)) \<Longrightarrow>
     multi_scan_write bs p off fs = ((k, e), bs', fs') \<Longrightarrow>
     list_all block_ok bs' \<and> concat (map block_bytes bs') = overwrite (concat (map block_bytes bs)) off (take k p) \<and>
     k \<le> length p \<and> (e = None \<longrightarrow> k = length p)"
proof (induction bs arbitrary: p off fs k e bs' fs')
  case Nil
  then show ?case by simp
next
  case (Cons b bs)
  let ?all = "concat (map block_bytes bs)"
  have b: "block_ok b" "length (block_bytes b) = fb_size b" using Cons(2) by simp_all
  show ?case
  proof (cases "fb_size b \<le> off")
    case True
    obtain cs where r: "multi_scan_write bs p (off - fb_size b) fs = ((k, e), cs, fs')" "bs' = b # cs"
      using Cons(5) True by (auto split: prod.splits)
    have "list_all block_ok cs \<and> concat (map block_bytes cs) = overwrite ?all (off - fb_size b) (take k p) \<and> k \<le> length p \<and>
        (e = None \<longrightarrow> k = length p)"
      by (rule Cons(1) [OF _ _ _ r(1)]) (use Cons(2-4) b True in auto)
    then show ?thesis using r(2) b True by (simp add: overwrite_right)
  next
    case False
    define can where "can = min (length p) (fb_size b - off)"
    have can: "0 < can" "off + can \<le> fb_size b" "can \<le> length p" using False Cons(3) by (auto simp: can_def)
    obtain failing fs1 where f: "next_fault fs = (failing, fs1)" by fastforce
    obtain n1 e1 f1 where w: "file_WriteAt failing (take can p) (int off) (fb_file b) = ((n1, e1), f1)" by (metis prod.collapse)
    define b1 where "b1 = b\<lparr>fb_file := f1, fb_written := max (fb_written b) (off + n1)\<rparr>"
    have b1: "block_ok b1" "block_bytes b1 = overwrite (block_bytes b) off (take n1 p)" "n1 \<le> can" "e1 = None \<longrightarrow> n1 = can"
      using block_write_eq [OF b(1) _ w, folded b1_def, unfolded Let_def b1_def [symmetric]] can by (auto simp: min.absorb1 min.absorb2)
    have run: "((k, e), bs', fs') = (if e1 \<noteq> None then ((n1, e1), b1 # bs, fs1) else if can = length p then ((n1, None), b1 # bs, fs1)
        else let ((m, e), bs, fs) = multi_scan_write bs (drop can p) 0 fs1 in ((can + m, e), b1 # bs, fs))"
      using Cons(5) False can(1) f w b1(4) by (cases e1; cases "can = length p") (auto simp: Let_def can_def [symmetric] b1_def)
    show ?thesis
    proof (cases "e1 = None \<and> can \<noteq> length p")
      case True
      then have can_all: "off + can = fb_size b" using False by (auto simp: can_def min_def split: if_splits)
      obtain m e2 cs fs2 where r: "multi_scan_write bs (drop can p) 0 fs1 = ((m, e2), cs, fs2)" by (metis prod.collapse)
      have m: "list_all block_ok cs \<and> concat (map block_bytes cs) = overwrite ?all 0 (take m (drop can p)) \<and> m \<le> length (drop can p) \<and>
          (e2 = None \<longrightarrow> m = length (drop can p))"
        by (rule Cons(1) [OF _ _ _ r]) (use True can Cons(2,4) b can_all in auto)
      have "overwrite (block_bytes b @ ?all) off (take can p @ take m (drop can p)) =
          overwrite (block_bytes b) off (take can p) @ overwrite ?all 0 (take m (drop can p))"
        by (rule overwrite_across) (use can can_all b Cons(4) m in auto)
      then show ?thesis using run True r m b1 can by (auto simp: take_add)
    next
      case ends: False
      have "overwrite (block_bytes b @ ?all) off (take n1 p) = overwrite (block_bytes b) off (take n1 p) @ ?all"
        by (rule overwrite_left) (use can b b1(3) in auto)
      then show ?thesis using run ends b1 can Cons(2) by (auto split: if_splits)
    qed
  qed
qed

interpretation multi: backing multi_ok "\<lambda>m. concat (map block_bytes (mf_blocks m))" multi_GrowTo multi_ReadAt multi_WriteAt
proof
  fix m m' :: multi_store and n k :: nat and got p :: string and off sz :: int and e :: "io_error option"
  assume ok: "multi_ok m"
  show "multi_GrowTo sz m = (e, m') \<Longrightarrow> multi_ok m' \<and> concat (map block_bytes (mf_blocks m')) =
      concat (map block_bytes (mf_blocks m)) @ (if e = None then zeros (nat sz - length (concat (map block_bytes (mf_blocks m)))) else [])"
    using ok by (auto simp: multi_GrowTo_def multi_ok_def block_ok_def block_bytes_def nat_diff_distrib Let_def split: if_splits prod.splits)
  assume off: "0 \<le> off"
  show "multi_ok m' \<and> concat (map block_bytes (mf_blocks m')) = concat (map block_bytes (mf_blocks m)) \<and>
      prefix got (drop (nat off) (concat (map block_bytes (mf_blocks m)))) \<and> length got \<le> n \<and> (e = None \<longrightarrow> length got = n)"
    if "0 < n" "nat off + n \<le> length (concat (map block_bytes (mf_blocks m)))" "multi_ReadAt n off m = ((got, e), m')"
  proof -
    note hyps = that
    obtain fs where "multi_scan_read (mf_blocks m) n (nat off) (mf_faults m) = ((got, e), fs)" "m' = m\<lparr>mf_faults := fs\<rparr>"
      using hyps ok off by (cases "multi_scan_read (mf_blocks m) n (nat off) (mf_faults m)") (auto simp: multi_ReadAt_def multi_ok_def split: if_splits)
    with multi_scan_read_eq [OF _ hyps(1,2)] ok show ?thesis by (auto simp: multi_ok_def)
  qed
  show "multi_ok m' \<and> concat (map block_bytes (mf_blocks m')) =
      overwrite (concat (map block_bytes (mf_blocks m))) (nat off) (take k p) \<and> k \<le> length p \<and> (e = None \<longrightarrow> k = length p)"
    if "p \<noteq> []" "nat off + length p \<le> length (concat (map block_bytes (mf_blocks m)))" "multi_WriteAt p off m = ((k, e), m')"
  proof -
    note hyps = that
    have "off < mf_size m" using hyps(1,2) ok off by (cases p) (auto simp: multi_ok_def)
    obtain bs fs where "multi_scan_write (mf_blocks m) p (nat off) (mf_faults m) = ((k, e), bs, fs)" "m' = m\<lparr>mf_blocks := bs, mf_faults := fs\<rparr>"
      using hyps(1,3) \<open>off < mf_size m\<close> off
      by (cases "multi_scan_write (mf_blocks m) p (nat off) (mf_faults m)") (auto simp: multi_WriteAt_def)
    moreover have "length (overwrite (concat (map block_bytes (mf_blocks m))) (nat off) (take k p)) = length (concat (map block_bytes (mf_blocks m)))"
      using hyps(2) by (intro length_overwrite) simp
    ultimately show ?thesis using multi_scan_write_eq [OF _ hyps(1,2)] ok by (auto simp: multi_ok_def simp del: length_concat)
  qed
qed

subsection \<open>Any store\<close>

fun store_ok :: "store \<Rightarrow> bool" where
  "store_ok (Buffers m) = buffer_ok m"
| "store_ok (OneFile s) = single_ok s"
| "store_ok (Files m) = multi_ok m"

fun stored_bytes :: "store \<Rightarrow> string" where
  "stored_bytes (Buffers m) = concat (buf_blocks m)"
| "stored_bytes (OneFile s) = sf_file s"
| "stored_bytes (Files m) = concat (map block_bytes (mf_blocks m))"

lemma map_prod_eq: "map_prod id f r = (x, y) \<longleftrightarrow> (\<exists>z. r = (x, z) \<and> y = f z)"
  by (cases r) auto

interpretation any: backing store_ok stored_bytes store_GrowTo store_ReadAt store_WriteAt
proof
  fix s s' :: store and n k :: nat and got p :: string and off sz :: int and e :: "io_error option"
  assume ok: "store_ok s"
  show "store_ok s' \<and> stored_bytes s' = stored_bytes s @ (if e = None then zeros (nat sz - length (stored_bytes s)) else [])"
    if "store_GrowTo sz s = (e, s')"
  proof (cases s)
    case (Buffers x)
    with that obtain z where z: "buffer_GrowTo sz x = (e, z)" and "s' = Buffers z" by (auto simp: store_GrowTo_def map_prod_eq)
    with buffer.grown [OF _ z] that ok Buffers show ?thesis by simp
  next
    case (OneFile x)
    with that obtain z where z: "single_GrowTo sz x = (e, z)" and "s' = OneFile z" by (auto simp: store_GrowTo_def map_prod_eq)
    with single.grown [OF _ z] that ok OneFile show ?thesis by simp
  next
    case (Files x)
    with that obtain z where z: "multi_GrowTo sz x = (e, z)" and "s' = Files z" by (auto simp: store_GrowTo_def map_prod_eq)
    with multi.grown [OF _ z] that ok Files show ?thesis by simp
  qed
  show "store_ok s' \<and> stored_bytes s' = stored_bytes s \<and> prefix got (drop (nat off) (stored_bytes s)) \<and> length got \<le> n \<and> (e = None \<longrightarrow> length got = n)"
    if "0 \<le> off" "0 < n" "nat off + n \<le> length (stored_bytes s)" "store_ReadAt n off s = ((got, e), s')"
  proof (cases s)
    case (Buffers x)
    with that obtain z where z: "(buffer_ReadAt n off x, x) = ((got, e), z)" and "s' = Buffers z" by (auto simp: store_ReadAt_def map_prod_eq)
    with buffer.reads [OF _ _ _ _ z] that ok Buffers show ?thesis by simp
  next
    case (OneFile x)
    with that obtain z where z: "single_ReadAt n off x = ((got, e), z)" and "s' = OneFile z" by (auto simp: store_ReadAt_def map_prod_eq)
    with single.reads [OF _ _ _ _ z] that ok OneFile show ?thesis by simp
  next
    case (Files x)
    with that obtain z where z: "multi_ReadAt n off x = ((got, e), z)" and "s' = Files z" by (auto simp: store_ReadAt_def map_prod_eq)
    with multi.reads [OF _ _ _ _ z] that ok Files show ?thesis by simp
  qed
  show "store_ok s' \<and> stored_bytes s' = overwrite (stored_bytes s) (nat off) (take k p) \<and> k \<le> length p \<and> (e = None \<longrightarrow> k = length p)"
    if "0 \<le> off" "p \<noteq> []" "nat off + length p \<le> length (stored_bytes s)" "store_WriteAt p off s = ((k, e), s')"
  proof (cases s)
    case (Buffers x)
    with that obtain z where z: "buffer_WriteAt p off x = ((k, e), z)" and "s' = Buffers z" by (auto simp: store_WriteAt_def map_prod_eq)
    with buffer.writes [OF _ _ _ _ z] that ok Buffers show ?thesis by simp
  next
    case (OneFile x)
    with that obtain z where z: "single_WriteAt p off x = ((k, e), z)" and "s' = OneFile z" by (auto simp: store_WriteAt_def map_prod_eq)
    with single.writes [OF _ _ _ _ z] that ok OneFile show ?thesis by simp
  next
    case (Files x)
    with that obtain z where z: "multi_WriteAt p off x = ((k, e), z)" and "s' = Files z" by (auto simp: store_WriteAt_def map_prod_eq)
    with multi.writes [OF _ _ _ _ z] that ok Files show ?thesis by simp
  qed
qed

lemma NewFileStore_ok:
  assumes "NewFileStore blockSize fs = (Inr st, fs')"
  shows "store_ok st \<and> stored_bytes st = zeros blockSize"
  using assms by (auto simp: NewFileStore_def file_Truncate_def single_ok_def multi_ok_def block_ok_def block_bytes_def Let_def
      split: if_splits prod.splits)

end
