(* ===== verification/HybridCache.thy ===== *)
theory HybridCache
  imports Blocks
begin

text \<open>
  \<open>internal/hybrid_cache/hybrid_cache.go\<close> over the stores of \<open>Blocks\<close> and the memory of \<open>internal/mem\<close>: one
  array of bytes, first in memory that is committed as it grows, then, when no more can be had, in a store.
  \<open>ensureCache\<close> of \<open>internal/stream/stream.go\<close> fills it from the body of an upload.
\<close>

section \<open>Memory\<close>

text \<open>What the system says at the next growths: the memory that is available, if it can tell, and whether the pages
  can be committed.  After the end of the list nothing is known.\<close>

type_synonym report = "nat option \<times> bool"

record linear_memory =
  mem_buf :: string
  mem_cap :: nat
  mem_reports :: "report list"

text \<open>\<open>conf.MinFreeMemory\<close>, \<open>conf.AutoMemoryLimit\<close>, \<open>conf.MaxBlockLimit\<close>, and the size of a page, a power of two.\<close>

record limits =
  MinFreeMemory :: nat
  AutoMemoryLimit :: nat
  MaxBlockLimit :: nat
  page_size :: nat

definition u64 :: "nat \<Rightarrow> nat" where
  "u64 n = nat (int n mod 18446744073709551616)"

definition MemoryGrowCheck :: "limits \<Rightarrow> nat option \<Rightarrow> nat \<Rightarrow> bool" where
  "MemoryGrowCheck lim available grow \<longleftrightarrow>
     MinFreeMemory lim \<noteq> 0 \<and>
     (case available of
        None \<Rightarrow> False
      | Some a \<Rightarrow> \<not> a < MinFreeMemory lim \<and> \<not> (a < grow \<or> a - grow < MinFreeMemory lim))"

definition next_report :: "report list \<Rightarrow> report \<times> report list" where
  "next_report rs = (case rs of [] \<Rightarrow> ((None, False), []) | r # rs \<Rightarrow> (r, rs))"

text \<open>\<open>(n + rnd) &^ rnd\<close> for \<open>rnd = page - 1\<close>.\<close>

definition round_up :: "nat \<Rightarrow> nat \<Rightarrow> nat" where
  "round_up page n = (n + (page - 1)) div page * page"

definition NewGuardedMemory :: "limits \<Rightarrow> nat \<Rightarrow> nat \<Rightarrow> bool \<Rightarrow> report list \<Rightarrow> linear_memory option" where
  "NewGuardedMemory lim cap most mapped reports =
     (let ((available, _), reports) = next_report reports; reserved = round_up (page_size lim) most
      in if \<not> MemoryGrowCheck lim available cap then None
         else if \<not> mapped \<or> i64_max < int reserved then None
         else Some \<lparr>mem_buf = zeros (if cap < most then 0 else reserved), mem_cap = reserved, mem_reports = reports\<rparr>)"

definition Reallocate :: "limits \<Rightarrow> nat \<Rightarrow> linear_memory \<Rightarrow> io_error option \<times> linear_memory" where
  "Reallocate lim n m =
     (let com = length (mem_buf m)
      in if \<not> com < n then (None, m)
         else if \<not> n \<le> mem_cap m then (Some ErrNotEnoughMemory, m)
         else
           let new = com + com div 8; new = min (max n new) (mem_cap m); new = round_up (page_size lim) new;
               ((available, committed), reports) = next_report (mem_reports m); m = m\<lparr>mem_reports := reports\<rparr>
           in if \<not> MemoryGrowCheck lim available (new - com) \<or> mem_cap m < new then (Some ErrNotEnoughMemory, m)
              else if \<not> committed then (Some OsError, m)
              else (None, m\<lparr>mem_buf := mem_buf m @ zeros (new - com)\<rparr>))"

section \<open>The cache\<close>

record hybrid =
  hc_blockSize :: nat
  hc_memory :: "linear_memory option"
  hc_memoryOffset :: nat
  hc_store :: "store option"
  hc_storeOffset :: nat
  hc_faults :: "fault list"

definition initFileCache :: "hybrid \<Rightarrow> io_error option \<times> hybrid" where
  "initFileCache hc =
     (case NewFileStore (hc_blockSize hc) (hc_faults hc) of
        (Inl e, fs) \<Rightarrow> (Some e, hc\<lparr>hc_faults := fs\<rparr>)
      | (Inr st, fs) \<Rightarrow> (None, hc\<lparr>hc_store := Some st, hc_faults := fs\<rparr>))"

definition NewHybridCache ::
  "limits \<Rightarrow> nat \<Rightarrow> nat \<Rightarrow> bool \<Rightarrow> report list \<Rightarrow> fault list \<Rightarrow> io_error + hybrid" where
  "NewHybridCache lim blockSize maxMemorySize mapped reports faults =
     (let hc = \<lparr>hc_blockSize = blockSize, hc_memory = None, hc_memoryOffset = 0, hc_store = None, hc_storeOffset = 0,
            hc_faults = faults\<rparr>;
          m = (if 0 < MinFreeMemory lim \<and> blockSize \<le> maxMemorySize
               then NewGuardedMemory lim blockSize maxMemorySize mapped reports else None)
      in if 0 < MinFreeMemory lim \<and> maxMemorySize \<le> AutoMemoryLimit lim then
           Inr (hc\<lparr>hc_store := Some (Buffers \<lparr>buf_blocks = [], buf_size = 0\<rparr>)\<rparr>)
         else if m \<noteq> None then Inr (hc\<lparr>hc_memory := m\<rparr>)
         else case initFileCache hc of (Some e, _) \<Rightarrow> Inl e | (None, hc) \<Rightarrow> Inr hc)"

definition hc_Size :: "hybrid \<Rightarrow> int" where
  "hc_Size hc = i64 (int (u64 (hc_memoryOffset hc + hc_storeOffset hc)))"

text \<open>A block: a slice of the memory, or a writer and a reader at an offset of the store.\<close>

datatype place = InMemory nat nat | InStore nat nat

definition alloc_store :: "nat \<Rightarrow> store \<Rightarrow> hybrid \<Rightarrow> (io_error + place) \<times> hybrid" where
  "alloc_store n st hc =
     (let total = u64 (hc_storeOffset hc + n); (e, st) = store_GrowTo (i64 (int total)) st; hc = hc\<lparr>hc_store := Some st\<rparr>
      in case e of
           Some e \<Rightarrow> (Inl e, hc)
         | None \<Rightarrow> (Inr (InStore (hc_storeOffset hc) n), hc\<lparr>hc_storeOffset := total\<rparr>))"

definition AllocBlock :: "limits \<Rightarrow> nat \<Rightarrow> hybrid \<Rightarrow> ((io_error + place) \<times> hybrid) go" where
  "AllocBlock lim n hc =
     (case hc_store hc of
        Some st \<Rightarrow> Return (alloc_store n st hc)
      | None \<Rightarrow>
          (case hc_memory hc of
             None \<Rightarrow> Panic
           | Some m \<Rightarrow>
               let total = u64 (hc_memoryOffset hc + n); (e, m) = Reallocate lim total m; hc = hc\<lparr>hc_memory := Some m\<rparr>
               in if e = None then
                    (if hc_memoryOffset hc \<le> total
                     then Return (Inr (InMemory (hc_memoryOffset hc) n), hc\<lparr>hc_memoryOffset := total\<rparr>) else Panic)
                  else
                    (case initFileCache hc of
                       (Some e, hc) \<Rightarrow> Return (Inl e, hc)
                     | (None, hc) \<Rightarrow>
                         (case hc_store hc of None \<Rightarrow> Panic | Some st \<Rightarrow> Return (alloc_store n st hc)))))"

text \<open>\<open>allocWriteAtSeeker\<close> does the same and returns the writer of the block.\<close>

definition allocWriteAtSeeker :: "limits \<Rightarrow> nat \<Rightarrow> hybrid \<Rightarrow> ((io_error + place) \<times> hybrid) go" where
  "allocWriteAtSeeker = AllocBlock"

definition NextBlock :: "limits \<Rightarrow> hybrid \<Rightarrow> ((io_error + place) \<times> hybrid) go" where
  "NextBlock lim hc = AllocBlock lim (hc_blockSize hc) hc"

definition RewindBySize :: "nat \<Rightarrow> hybrid \<Rightarrow> hybrid" where
  "RewindBySize n hc =
     (if n \<le> hc_storeOffset hc then hc\<lparr>hc_storeOffset := hc_storeOffset hc - n\<rparr>
      else
        let n = n - hc_storeOffset hc; hc = hc\<lparr>hc_storeOffset := 0\<rparr>
        in if n \<le> hc_memoryOffset hc then hc\<lparr>hc_memoryOffset := hc_memoryOffset hc - n\<rparr>
           else hc\<lparr>hc_memoryOffset := 0\<rparr>)"

definition RewindOneBlock :: "hybrid \<Rightarrow> hybrid" where
  "RewindOneBlock hc = RewindBySize (hc_blockSize hc) hc"

definition hc_Close :: "hybrid \<Rightarrow> hybrid" where
  "hc_Close hc = hc\<lparr>hc_memory := None, hc_memoryOffset := (if hc_memory hc = None then hc_memoryOffset hc else 0),
     hc_store := None, hc_storeOffset := (if hc_store hc = None then hc_storeOffset hc else 0)\<rparr>"

section \<open>Reading and writing\<close>

text \<open>What is left of a read or write after the memory goes to the store.\<close>

definition read_rest :: "nat \<Rightarrow> int \<Rightarrow> string \<Rightarrow> hybrid \<Rightarrow> ((string \<times> io_error option) \<times> hybrid) go" where
  "read_rest n off got hc =
     (let off = off + int (length got) - int (hc_memoryOffset hc); canRead = int (hc_storeOffset hc) - off
      in if canRead \<le> 0 then Return ((got, Some EOF), hc)
         else case hc_store hc of
             None \<Rightarrow> Panic
           | Some st \<Rightarrow>
               let ((more, e), st) = store_ReadAt (min (n - length got) (nat canRead)) off st
               in Return ((got @ more, e), hc\<lparr>hc_store := Some st\<rparr>))"

definition hc_ReadAt :: "limits \<Rightarrow> nat \<Rightarrow> int \<Rightarrow> hybrid \<Rightarrow> ((string \<times> io_error option) \<times> hybrid) go" where
  "hc_ReadAt lim n off hc =
     (if n = 0 then Return (([], None), hc)
      else if off < 0 \<or> hc_Size hc \<le> off then Return (([], Some EOF), hc)
      else if \<not> off < int (hc_memoryOffset hc) then read_rest n off [] hc
      else
        (case hc_memory hc of
           None \<Rightarrow> Panic
         | Some m \<Rightarrow>
             let upto = min (hc_memoryOffset hc) (u64 (nat off + n)); (e, m) = Reallocate lim upto m;
                 hc = hc\<lparr>hc_memory := Some m\<rparr>
             in if e \<noteq> None then Panic
                else
                  let got = take n (drop (nat off) (take upto (mem_buf m)))
                  in if length got = n then Return ((got, None), hc) else read_rest n off got hc))"

definition write_rest :: "string \<Rightarrow> int \<Rightarrow> nat \<Rightarrow> hybrid \<Rightarrow> ((nat \<times> io_error option) \<times> hybrid) go" where
  "write_rest p off n hc =
     (let off = off + int n - int (hc_memoryOffset hc); canWrite = int (hc_storeOffset hc) - off; p = drop n p
      in if canWrite \<le> 0 then Return ((n, Some ErrShortWrite), hc)
         else case hc_store hc of
             None \<Rightarrow> Panic
           | Some st \<Rightarrow>
               let ((nn, e), st) = store_WriteAt (take (nat canWrite) p) off st
               in Return ((n + nn, e), hc\<lparr>hc_store := Some st\<rparr>))"

definition hc_WriteAt :: "limits \<Rightarrow> string \<Rightarrow> int \<Rightarrow> hybrid \<Rightarrow> ((nat \<times> io_error option) \<times> hybrid) go" where
  "hc_WriteAt lim p off hc =
     (if p = [] then Return ((0, None), hc)
      else if off < 0 \<or> hc_Size hc \<le> off then Return ((0, Some ErrShortWrite), hc)
      else if \<not> off < int (hc_memoryOffset hc) then write_rest p off 0 hc
      else
        (case hc_memory hc of
           None \<Rightarrow> Panic
         | Some m \<Rightarrow>
             let upto = min (hc_memoryOffset hc) (u64 (nat off + length p)); (e, m) = Reallocate lim upto m
             in if e \<noteq> None then Panic
                else
                  let n = min (length p) (upto - nat off);
                      hc = hc\<lparr>hc_memory := Some (m\<lparr>mem_buf := overwrite (mem_buf m) (nat off) (take n p)\<rparr>)\<rparr>
                  in if n = length p then Return ((n, None), hc) else write_rest p off n hc))"

text \<open>The blocks: \<open>byteBlock\<close> of \<open>pkg/buffer\<close>, and an \<open>io.SectionReader\<close> with an \<open>io.OffsetWriter\<close>, which knows no end.\<close>

definition block_ReadAt :: "place \<Rightarrow> nat \<Rightarrow> int \<Rightarrow> hybrid \<Rightarrow> ((string \<times> io_error option) \<times> hybrid) go" where
  "block_ReadAt pl n off hc =
     (case pl of
        InMemory start sz \<Rightarrow>
          (case hc_memory hc of
             None \<Rightarrow> Panic
           | Some m \<Rightarrow>
               if sz = 0 \<or> off < 0 \<or> int sz \<le> off then Return (([], Some EOF), hc)
               else
                 let got = take n (drop (nat off) (take sz (drop start (mem_buf m))))
                 in Return ((got, if length got < n then Some EOF else None), hc))
      | InStore base sz \<Rightarrow>
          (case hc_store hc of
             None \<Rightarrow> Panic
           | Some st \<Rightarrow>
               if off < 0 \<or> int sz \<le> off then Return (([], Some EOF), hc)
               else
                 let most = nat (int sz - off); ((got, e), st) = store_ReadAt (min n most) (off + int base) st
                 in Return ((got, if most < n \<and> e = None then Some EOF else e), hc\<lparr>hc_store := Some st\<rparr>)))"

definition block_WriteAt :: "place \<Rightarrow> string \<Rightarrow> int \<Rightarrow> hybrid \<Rightarrow> ((nat \<times> io_error option) \<times> hybrid) go" where
  "block_WriteAt pl p off hc =
     (case pl of
        InMemory start sz \<Rightarrow>
          (case hc_memory hc of
             None \<Rightarrow> Panic
           | Some m \<Rightarrow>
               if sz = 0 \<or> off < 0 \<or> int sz \<le> off then Return ((0, Some ErrShortWrite), hc)
               else
                 let n = min (length p) (sz - nat off)
                 in Return ((n, if n < length p then Some ErrShortWrite else None),
                      hc\<lparr>hc_memory := Some (m\<lparr>mem_buf := overwrite (mem_buf m) (start + nat off) (take n p)\<rparr>)\<rparr>))
      | InStore base sz \<Rightarrow>
          (case hc_store hc of
             None \<Rightarrow> Panic
           | Some st \<Rightarrow>
               if off < 0 then Return ((0, Some BadOffset), hc)
               else
                 let (r, st) = store_WriteAt p (off + int base) st
                 in Return (r, hc\<lparr>hc_store := Some st\<rparr>)))"

text \<open>\<open>CopyWithBufferN\<close> into a block; one write stands for those of the chunks.  The source is what is left of it.\<close>

definition copy_block :: "place \<Rightarrow> string \<Rightarrow> nat \<Rightarrow> hybrid \<Rightarrow> ((nat \<times> io_error option) \<times> string \<times> hybrid) go" where
  "copy_block pl src n hc =
     (let p = take n src
      in if p = [] then Return ((0, if n = 0 then None else Some EOF), src, hc)
         else go_bind (block_WriteAt pl p 0 hc) (\<lambda>((nn, e), hc).
           Return ((nn, if nn = n then None else if e = None then Some EOF else e), drop (length p) src, hc)))"

primrec CopyFromN :: "nat \<Rightarrow> limits \<Rightarrow> string \<Rightarrow> nat \<Rightarrow> hybrid \<Rightarrow> ((nat \<times> io_error option) \<times> string \<times> hybrid) go option" where
  "CopyFromN 0 lim src n hc = None"
| "CopyFromN (Suc fuel) lim src n hc =
     (if n = 0 then Some (Return ((0, None), src, hc))
      else
        let blockSize = (if hc_store hc = None \<and> int n > i64 (int (MaxBlockLimit lim)) then MaxBlockLimit lim else n)
        in case allocWriteAtSeeker lim blockSize hc of
             Panic \<Rightarrow> Some Panic
           | Return (Inl e, hc) \<Rightarrow> Some (Return ((0, Some e), src, hc))
           | Return (Inr pl, hc) \<Rightarrow>
               (case copy_block pl src blockSize hc of
                  Panic \<Rightarrow> Some Panic
                | Return ((nn, e), src, hc) \<Rightarrow>
                    if nn \<noteq> blockSize then Some (Return ((nn, e), src, hc))
                    else map_option (\<lambda>r. go_bind r (\<lambda>((k, e), src, hc). Return ((nn + k, e), src, hc)))
                        (CopyFromN fuel lim src (n - nn) hc)))"

section \<open>Filling the cache\<close>

text \<open>A body that is being cached: the cache, what is left of the body, its size.\<close>

record cached_stream =
  cs_cache :: "hybrid option"
  cs_source :: string
  cs_size :: nat

definition fill_cache :: "limits \<Rightarrow> nat \<Rightarrow> hybrid \<Rightarrow> cached_stream \<Rightarrow> ((io_error option \<times> cached_stream) go) option" where
  "fill_cache lim n hc f =
     (let missing = int n - hc_Size hc
      in if missing \<le> 0 then Some (Return (None, f\<lparr>cs_cache := Some hc\<rparr>))
         else map_option (\<lambda>r. go_bind r (\<lambda>((written, e), src, hc).
             let f = f\<lparr>cs_source := src\<rparr>
             in if int written \<noteq> missing then
                  Return (Some (case e of Some e \<Rightarrow> e | None \<Rightarrow> EOF),
                    f\<lparr>cs_cache := Some (RewindBySize (nat (missing - int written)) hc)\<rparr>)
                else Return (None, f\<lparr>cs_cache := Some hc\<rparr>)))
           (CopyFromN (Suc n) lim (cs_source f) (nat missing) hc))"

definition ensureCache ::
  "limits \<Rightarrow> bool \<Rightarrow> report list \<Rightarrow> fault list \<Rightarrow> nat \<Rightarrow> cached_stream \<Rightarrow> ((io_error option \<times> cached_stream) go) option" where
  "ensureCache lim mapped reports faults n f =
     (case cs_cache f of
        Some hc \<Rightarrow> fill_cache lim n hc f
      | None \<Rightarrow>
          (case NewHybridCache lim (min (min n (cs_size f)) (MaxBlockLimit lim)) (cs_size f) mapped reports faults of
             Inl e \<Rightarrow> Some (Return (Some e, f))
           | Inr hc \<Rightarrow> fill_cache lim n hc f))"

end
