(* ===== verification/CacheProps.thy ===== *)
theory CacheProps
  imports HybridCache
begin

text \<open>
  The hybrid cache is one array of bytes, wherever the bytes are: allocation extends it, rewinding cuts it off,
  reads and writes act on it, and a block is a window of it.
\<close>

section \<open>The array\<close>

definition in_memory :: "hybrid \<Rightarrow> string" where
  "in_memory hc = (case hc_memory hc of None \<Rightarrow> [] | Some m \<Rightarrow> mem_buf m)"

definition in_store :: "hybrid \<Rightarrow> string" where
  "in_store hc = (case hc_store hc of None \<Rightarrow> [] | Some st \<Rightarrow> stored_bytes st)"

definition hc_bytes :: "hybrid \<Rightarrow> string" where
  "hc_bytes hc = take (hc_memoryOffset hc) (in_memory hc) @ take (hc_storeOffset hc) (in_store hc)"

definition hc_ok :: "hybrid \<Rightarrow> bool" where
  "hc_ok hc \<longleftrightarrow> (hc_memory hc \<noteq> None \<or> hc_store hc \<noteq> None) \<and> pred_option store_ok (hc_store hc) \<and>
     hc_memoryOffset hc \<le> length (in_memory hc) \<and> hc_storeOffset hc \<le> length (in_store hc) \<and>
     int (hc_memoryOffset hc + hc_storeOffset hc) \<le> i64_max"

lemma length_hc_bytes: "hc_ok hc \<Longrightarrow> length (hc_bytes hc) = hc_memoryOffset hc + hc_storeOffset hc"
  by (simp add: hc_ok_def hc_bytes_def)

lemma u64_small: "int n \<le> i64_max \<Longrightarrow> u64 n = n"
  by (simp add: u64_def i64_max_def)

lemma i64_small: "int n \<le> i64_max \<Longrightarrow> i64 (int n) = int n"
  by (rule i64_id) (simp_all add: i64_min_def i64_max_def)

lemma hc_Size_eq: "hc_ok hc \<Longrightarrow> hc_Size hc = int (length (hc_bytes hc))"
  by (simp add: hc_Size_def length_hc_bytes hc_ok_def u64_small i64_small del: of_nat_add)

lemma round_up_ge: "0 < page \<Longrightarrow> n \<le> round_up page n"
  using div_mult_mod_eq [of "n + (page - 1)" page] mod_less_divisor [of page "n + (page - 1)"]
  unfolding round_up_def by linarith

lemma Reallocate_committed: "n \<le> length (mem_buf m) \<Longrightarrow> Reallocate lim n m = (None, m)"
  by (simp add: Reallocate_def)

lemma Reallocate_grows:
  assumes "Reallocate lim n m = (e, m')" "0 < page_size lim"
  shows "\<exists>ys. mem_buf m' = mem_buf m @ ys" "e = None \<Longrightarrow> n \<le> length (mem_buf m')"
proof -
  let ?new = "round_up (page_size lim) (min (max n (length (mem_buf m) + length (mem_buf m) div 8)) (mem_cap m))"
  have "min (max n (length (mem_buf m) + length (mem_buf m) div 8)) (mem_cap m) \<le> ?new" by (rule round_up_ge [OF assms(2)])
  then have "n \<le> mem_cap m \<Longrightarrow> n \<le> ?new" by linarith
  then show "\<exists>ys. mem_buf m' = mem_buf m @ ys" "e = None \<Longrightarrow> n \<le> length (mem_buf m')"
    using assms(1) by (auto simp: Reallocate_def Let_def split: if_splits prod.splits)
qed

section \<open>Allocation\<close>

fun place_start :: "hybrid \<Rightarrow> place \<Rightarrow> nat" where
  "place_start hc (InMemory start n) = start"
| "place_start hc (InStore base n) = hc_memoryOffset hc + base"

fun place_size :: "place \<Rightarrow> nat" where
  "place_size (InMemory start n) = n"
| "place_size (InStore base n) = n"

fun allocated :: "hybrid \<Rightarrow> place \<Rightarrow> bool" where
  "allocated hc (InMemory start n) \<longleftrightarrow> start + n \<le> hc_memoryOffset hc"
| "allocated hc (InStore base n) \<longleftrightarrow> base + n \<le> hc_storeOffset hc"

text \<open>What allocation does: a failure leaves the bytes; a success adds a block at their end.\<close>

definition extends :: "hybrid \<Rightarrow> nat \<Rightarrow> (io_error + place) \<Rightarrow> hybrid \<Rightarrow> bool" where
  "extends hc n r hc' \<longleftrightarrow>
     (case r of
        Inl e \<Rightarrow> hc_bytes hc' = hc_bytes hc
      | Inr pl \<Rightarrow> allocated hc' pl \<and> place_size pl = n \<and> place_start hc' pl = length (hc_bytes hc) \<and>
          (\<exists>new. length new = n \<and> hc_bytes hc' = hc_bytes hc @ new))"

lemma take_longer: "n \<le> length xs \<Longrightarrow> \<exists>new. length new = k \<and> take (n + k) (xs @ ys) = take n xs @ new" if "n + k \<le> length (xs @ ys)"
  using that by (intro exI [of _ "take k (drop n (xs @ ys))"]) (simp add: take_add del: take_append drop_append, simp)

lemma alloc_store_spec:
  assumes "hc_ok hc" "hc_store hc = Some st" "int (length (hc_bytes hc) + n) \<le> i64_max" "alloc_store n st hc = (r, hc')"
  shows "hc_ok hc' \<and> extends hc n r hc'"
proof -
  let ?so = "hc_storeOffset hc" and ?mo = "hc_memoryOffset hc"
  have le: "int (?mo + ?so + n) \<le> i64_max" using assms(1,3) by (simp add: length_hc_bytes)
  then have "int (?so + n) \<le> i64_max" by simp
  then have t: "u64 (?so + n) = ?so + n" "i64 (int (?so + n)) = int (?so + n)" by (rule u64_small, rule i64_small)
  obtain e st' where g: "store_GrowTo (int (?so + n)) st = (e, st')" by fastforce
  have st: "store_ok st" "?so \<le> length (stored_bytes st)" using assms(1,2) by (auto simp: hc_ok_def in_store_def)
  from any.grown [OF st(1) g] obtain ys where g': "store_ok st'" "stored_bytes st' = stored_bytes st @ ys"
    "e = None \<longrightarrow> ?so + n \<le> length (stored_bytes st')" by (cases e) (auto simp del: of_nat_add)
  show ?thesis
  proof (cases e)
    case (Some x)
    then have "hc' = hc\<lparr>hc_store := Some st'\<rparr>" "r = Inl x" using assms(4) g t by (auto simp: alloc_store_def Let_def)
    then show ?thesis using assms(1,2) g' st by (auto simp: hc_ok_def extends_def hc_bytes_def in_memory_def in_store_def)
  next
    case None
    then have hc': "hc' = hc\<lparr>hc_store := Some st', hc_storeOffset := ?so + n\<rparr>" "r = Inr (InStore ?so n)"
      using assms(4) g t by (auto simp: alloc_store_def Let_def)
    have "\<exists>new. length new = n \<and> take (?so + n) (stored_bytes st @ ys) = take ?so (stored_bytes st) @ new"
      by (rule take_longer) (use st g' None in auto)
    then show ?thesis using assms(1,2) g' None le hc'
      by (auto simp: hc_ok_def extends_def hc_bytes_def in_memory_def in_store_def)
  qed
qed

lemma initFileCache_spec:
  assumes "hc_ok hc" "hc_store hc = None" "initFileCache hc = (e, hc')"
  shows "hc_ok hc' \<and> hc_bytes hc' = hc_bytes hc \<and> hc_memoryOffset hc' = hc_memoryOffset hc \<and> (e = None \<longrightarrow> hc_store hc' \<noteq> None)"
proof -
  have "hc_storeOffset hc = 0" using assms(1,2) by (simp add: hc_ok_def in_store_def)
  then show ?thesis using assms
    by (cases "NewFileStore (hc_blockSize hc) (hc_faults hc)")
      (auto simp: initFileCache_def hc_ok_def hc_bytes_def in_memory_def in_store_def dest: NewFileStore_ok split: sum.splits)
qed

lemma AllocBlock_spec:
  assumes "hc_ok hc" "0 < page_size lim" "int (length (hc_bytes hc) + n) \<le> i64_max"
  shows "\<exists>r hc'. AllocBlock lim n hc = Return (r, hc') \<and> hc_ok hc' \<and> extends hc n r hc'"
proof (cases "hc_store hc")
  case (Some st)
  obtain r hc' where "alloc_store n st hc = (r, hc')" by fastforce
  with alloc_store_spec [OF assms(1) Some assms(3) this] Some show ?thesis by (auto simp: AllocBlock_def)
next
  case None
  then obtain m where m: "hc_memory hc = Some m" using assms(1) by (auto simp: hc_ok_def)
  let ?mo = "hc_memoryOffset hc"
  have so: "hc_storeOffset hc = 0" using assms(1) None by (simp add: hc_ok_def in_store_def)
  have le: "int (?mo + n) \<le> i64_max" using assms(1,3) so by (simp add: length_hc_bytes)
  note t = u64_small [OF le]
  obtain e m' where g: "Reallocate lim (?mo + n) m = (e, m')" by fastforce
  from Reallocate_grows [OF this assms(2)] obtain ys where g': "mem_buf m' = mem_buf m @ ys" "e = None \<longrightarrow> ?mo + n \<le> length (mem_buf m')"
    by auto
  have mo: "?mo \<le> length (mem_buf m)" using assms(1) m by (simp add: hc_ok_def in_memory_def)
  let ?hc = "hc\<lparr>hc_memory := Some m'\<rparr>"
  have ok: "hc_ok ?hc" "hc_bytes ?hc = hc_bytes hc"
    using assms(1) m g' mo None by (simp_all add: hc_ok_def hc_bytes_def in_memory_def in_store_def)
  show ?thesis
  proof (cases e)
    case 1: None
    have "\<exists>new. length new = n \<and> take (?mo + n) (mem_buf m @ ys) = take ?mo (mem_buf m) @ new"
      by (rule take_longer) (use mo g' 1 in auto)
    then have "extends hc n (Inr (InMemory ?mo n)) (?hc\<lparr>hc_memoryOffset := ?mo + n\<rparr>)"
      using m g' so None by (auto simp: extends_def hc_bytes_def in_memory_def in_store_def mo)
    moreover have "hc_ok (?hc\<lparr>hc_memoryOffset := ?mo + n\<rparr>)"
      using g' 1 so None le by (simp add: hc_ok_def in_memory_def in_store_def)
    ultimately show ?thesis using None m g t 1 by (simp add: AllocBlock_def Let_def)
  next
    case full: (Some x)
    obtain e2 hc2 where i: "initFileCache ?hc = (e2, hc2)" by fastforce
    note i' = initFileCache_spec [OF ok(1) _ i] None
    show ?thesis
    proof (cases e2)
      case (Some y)
      then show ?thesis using None m g t full i i' ok by (simp add: AllocBlock_def Let_def extends_def)
    next
      case no_error: None
      then obtain st where st: "hc_store hc2 = Some st" using i' by auto
      obtain r hc' where a: "alloc_store n st hc2 = (r, hc')" by fastforce
      have "hc_ok hc' \<and> extends hc2 n r hc'"
        by (rule alloc_store_spec [OF _ st _ a]) (use i' ok assms(3) None in auto)
      then show ?thesis using None m g t full i i' ok st a no_error by (cases r) (simp_all add: AllocBlock_def Let_def extends_def)
    qed
  qed
qed

section \<open>Reads and writes\<close>

lemma overwrite_twice:
  "off + length p \<le> length xs \<Longrightarrow> n = length p \<Longrightarrow> q = [] \<or> off + n + length q \<le> length xs \<Longrightarrow>
     overwrite (overwrite xs off p) (off + n) q = overwrite xs off (p @ q)"
  by (auto simp: overwrite_def ac_simps)


lemma prefix_short: "prefix xs ys \<Longrightarrow> length xs \<le> n \<Longrightarrow> prefix xs (take n ys)"
  by (auto simp: prefix_def)

lemma store_window_read:
  assumes "hc_ok hc" "hc_store hc = Some st" "0 < n" "off + n \<le> hc_storeOffset hc" "store_ReadAt n (int off) st = ((got, e), st')"
  shows "hc_ok (hc\<lparr>hc_store := Some st'\<rparr>) \<and> hc_bytes (hc\<lparr>hc_store := Some st'\<rparr>) = hc_bytes hc \<and>
    prefix got (drop (hc_memoryOffset hc + off) (hc_bytes hc)) \<and> length got \<le> n \<and> (e = None \<longrightarrow> length got = n)"
proof -
  have st: "store_ok st" "hc_storeOffset hc \<le> length (stored_bytes st)" "hc_memoryOffset hc \<le> length (in_memory hc)"
    using assms(1,2) by (auto simp: hc_ok_def in_store_def)
  have r: "store_ok st' \<and> stored_bytes st' = stored_bytes st \<and> prefix got (drop off (stored_bytes st)) \<and> length got \<le> n \<and>
      (e = None \<longrightarrow> length got = n)"
    using any.reads [OF st(1) assms(3) _ _ assms(5)] assms(4) st(2) by simp
  then have "prefix got (take (hc_storeOffset hc - off) (drop off (stored_bytes st)))"
    using assms(4) by (intro prefix_short) auto
  then show ?thesis using r assms(1,2) st by (simp add: hc_ok_def hc_bytes_def in_memory_def in_store_def drop_take)
qed

lemma store_window_write:
  assumes "hc_ok hc" "hc_store hc = Some st" "p \<noteq> []" "off + length p \<le> hc_storeOffset hc" "store_WriteAt p (int off) st = ((k, e), st')"
  shows "hc_ok (hc\<lparr>hc_store := Some st'\<rparr>) \<and>
    hc_bytes (hc\<lparr>hc_store := Some st'\<rparr>) = overwrite (hc_bytes hc) (hc_memoryOffset hc + off) (take k p) \<and> k \<le> length p \<and>
    (e = None \<longrightarrow> k = length p)"
proof -
  have st: "store_ok st" "hc_storeOffset hc \<le> length (stored_bytes st)" "hc_memoryOffset hc \<le> length (in_memory hc)"
    using assms(1,2) by (auto simp: hc_ok_def in_store_def)
  have w: "store_ok st' \<and> stored_bytes st' = overwrite (stored_bytes st) off (take k p) \<and> k \<le> length p \<and> (e = None \<longrightarrow> k = length p)"
    using any.writes [OF st(1) assms(3) _ _ assms(5)] assms(4) st(2) by simp
  have "overwrite (take (hc_memoryOffset hc) (in_memory hc) @ take (hc_storeOffset hc) (stored_bytes st)) (hc_memoryOffset hc + off) (take k p) =
      take (hc_memoryOffset hc) (in_memory hc) @ overwrite (take (hc_storeOffset hc) (stored_bytes st)) off (take k p)"
    using st(3) by (subst overwrite_right) simp_all
  moreover have "overwrite (take (hc_storeOffset hc) (stored_bytes st)) off (take k p) =
      take (hc_storeOffset hc) (overwrite (stored_bytes st) off (take k p))"
    using overwrite_left [of off "take k p" "take (hc_storeOffset hc) (stored_bytes st)" "drop (hc_storeOffset hc) (stored_bytes st)"]
      assms(4) st(2) by simp
  moreover have "length (overwrite (stored_bytes st) off (take k p)) = length (stored_bytes st)"
    using assms(4) st(2) by (intro length_overwrite) simp
  ultimately show ?thesis using w assms(1,2) st by (simp add: hc_ok_def hc_bytes_def in_memory_def in_store_def)
qed

lemma memory_window_write:
  assumes "hc_ok hc" "hc_memory hc = Some m" "off + length p \<le> hc_memoryOffset hc"
  shows "hc_ok (hc\<lparr>hc_memory := Some (m\<lparr>mem_buf := overwrite (mem_buf m) off p\<rparr>)\<rparr>) \<and>
    hc_bytes (hc\<lparr>hc_memory := Some (m\<lparr>mem_buf := overwrite (mem_buf m) off p\<rparr>)\<rparr>) = overwrite (hc_bytes hc) off p"
proof -
  have mo: "hc_memoryOffset hc \<le> length (mem_buf m)" using assms(1,2) by (simp add: hc_ok_def in_memory_def)
  have "overwrite (take (hc_memoryOffset hc) (mem_buf m)) off p = take (hc_memoryOffset hc) (overwrite (mem_buf m) off p)"
    using overwrite_left [of off p "take (hc_memoryOffset hc) (mem_buf m)" "drop (hc_memoryOffset hc) (mem_buf m)"] assms(3) mo by simp
  moreover have "overwrite (take (hc_memoryOffset hc) (mem_buf m) @ ys) off p = overwrite (take (hc_memoryOffset hc) (mem_buf m)) off p @ ys" for ys
    by (rule overwrite_left) (use assms(3) mo in simp)
  ultimately show ?thesis using assms mo by (simp add: hc_ok_def hc_bytes_def in_memory_def in_store_def)
qed

text \<open>\<open>ReadAt\<close> and \<open>WriteAt\<close> act on the array; at a request that goes past the end they may stop there without an error.\<close>

definition unmoved :: "hybrid \<Rightarrow> hybrid \<Rightarrow> bool" where
  "unmoved hc hc' \<longleftrightarrow> hc_memoryOffset hc' = hc_memoryOffset hc \<and> hc_storeOffset hc' = hc_storeOffset hc"

lemma rest_offsets:
  assumes "\<not> so \<le> o' + n - mo" "mo \<le> o' + n"
  shows "int o' + int n - int mo = int (o' + n - mo)" "nat (int so - int (o' + n - mo)) = mo + so - (o' + n)"
    "\<not> int so - int (o' + n - mo) \<le> 0"
  using assms by auto

lemma has_store:
  assumes "hc_ok hc" "\<not> hc_storeOffset hc \<le> k"
  obtains st where "hc_store hc = Some st"
  using assms by (cases "hc_store hc") (auto simp: hc_ok_def in_store_def)

lemma read_rest_spec:
  assumes "hc_ok hc" "hc_memoryOffset hc \<le> o' + length got" "length got < n"
  shows "\<exists>more e hc'. read_rest n (int o') got hc = Return ((got @ more, e), hc') \<and> hc_ok hc' \<and> hc_bytes hc' = hc_bytes hc \<and> unmoved hc hc' \<and>
      prefix more (drop (o' + length got) (hc_bytes hc)) \<and> length more \<le> n - length got \<and>
      (e = None \<longrightarrow> length more = min (n - length got) (length (hc_bytes hc) - (o' + length got)))"
proof (cases "hc_storeOffset hc \<le> o' + length got - hc_memoryOffset hc")
  case True
  then show ?thesis using assms by (auto simp: read_rest_def Let_def unmoved_def)
next
  case False
  let ?n = "min (n - length got) (hc_memoryOffset hc + hc_storeOffset hc - (o' + length got))" and ?off = "o' + length got - hc_memoryOffset hc"
  obtain st where st: "hc_store hc = Some st" by (rule has_store [OF assms(1) False])
  obtain more e st' where r: "store_ReadAt ?n (int ?off) st = ((more, e), st')" by (metis prod.collapse)
  note n = rest_offsets [OF False assms(2)]
  have "read_rest n (int o') got hc = Return ((got @ more, e), hc\<lparr>hc_store := Some st'\<rparr>)"
    unfolding read_rest_def Let_def n(1) n(2) using n(3) by (simp only: st r if_False option.case prod.case)
  moreover have "hc_memoryOffset hc + ?off = o' + length got" "0 < ?n" "?off + ?n \<le> hc_storeOffset hc" using assms(2,3) False by auto
  ultimately show ?thesis
    using store_window_read [OF assms(1) st _ _ r] by (auto simp: min_le_iff_disj length_hc_bytes [OF assms(1)] unmoved_def)
qed

lemma write_rest_spec:
  assumes "hc_ok hc" "hc_memoryOffset hc \<le> o' + n" "n < length p"
  shows "\<exists>k e hc'. write_rest p (int o') n hc = Return ((n + k, e), hc') \<and> hc_ok hc' \<and> unmoved hc hc' \<and>
      hc_bytes hc' = overwrite (hc_bytes hc) (o' + n) (take k (drop n p)) \<and> (k = 0 \<or> o' + n + k \<le> length (hc_bytes hc)) \<and> n + k \<le> length p \<and>
      (e = None \<longrightarrow> n + k = min (length p) (length (hc_bytes hc) - o'))"
proof (cases "hc_storeOffset hc \<le> o' + n - hc_memoryOffset hc")
  case True
  then have "length (hc_bytes hc) \<le> o' + n" using assms(2) by (simp add: length_hc_bytes [OF assms(1)])
  then have "overwrite (hc_bytes hc) (o' + n) [] = hc_bytes hc" by (simp add: overwrite_def)
  then show ?thesis using True assms by (intro exI [of _ 0]) (auto simp: write_rest_def Let_def unmoved_def)
next
  case False
  let ?q = "take (hc_memoryOffset hc + hc_storeOffset hc - (o' + n)) (drop n p)" and ?off = "o' + n - hc_memoryOffset hc"
  obtain st where st: "hc_store hc = Some st" by (rule has_store [OF assms(1) False])
  obtain k e st' where r: "store_WriteAt ?q (int ?off) st = ((k, e), st')" by (metis prod.collapse)
  note n = rest_offsets [OF False assms(2)]
  have "write_rest p (int o') n hc = Return ((n + k, e), hc\<lparr>hc_store := Some st'\<rparr>)"
    unfolding write_rest_def Let_def n(1) n(2) using n(3) by (simp only: st r if_False option.case prod.case)
  moreover have "hc_memoryOffset hc + ?off = o' + n" "?q \<noteq> []" "?off + length ?q \<le> hc_storeOffset hc" using assms(2,3) False by auto
  moreover from this have "k \<le> length ?q" using store_window_write [OF assms(1) st _ _ r] by simp
  ultimately show ?thesis
    using store_window_write [OF assms(1) st _ _ r] assms(2,3) False
    by (auto simp: length_hc_bytes [OF assms(1)] unmoved_def min_def split: if_splits)
qed

lemma has_memory:
  assumes "hc_ok hc" "o' < hc_memoryOffset hc"
  obtains m where "hc_memory hc = Some m" "hc\<lparr>hc_memory := Some m\<rparr> = hc" "hc_memoryOffset hc \<le> length (mem_buf m)"
  using assms by (cases "hc_memory hc") (auto simp: hc_ok_def in_memory_def)

lemma u64_sum: "hc_ok hc \<Longrightarrow> o' < hc_memoryOffset hc \<Longrightarrow> int n \<le> i64_max \<Longrightarrow> u64 (o' + n) = o' + n"
  by (simp add: hc_ok_def u64_def i64_max_def)

lemma hc_ReadAt_spec:
  assumes "hc_ok hc" "int n \<le> i64_max"
  shows "\<exists>got e hc'. hc_ReadAt lim n off hc = Return ((got, e), hc') \<and> hc_ok hc' \<and> hc_bytes hc' = hc_bytes hc \<and> unmoved hc hc' \<and>
    prefix got (drop (nat off) (hc_bytes hc)) \<and> length got \<le> n \<and>
    (e = None \<longrightarrow> length got = (if 0 \<le> off then min n (length (hc_bytes hc) - nat off) else 0))"
proof (cases "n = 0 \<or> off < 0 \<or> hc_Size hc \<le> off")
  case True
  then show ?thesis using assms(1) by (cases "n = 0") (simp_all add: hc_ReadAt_def unmoved_def)
next
  case False
  define o' where "o' = nat off"
  have off: "off = int o'" "0 < n" "o' < length (hc_bytes hc)" using False assms(1) by (auto simp: o'_def hc_Size_eq)
  show ?thesis
  proof (cases "o' < hc_memoryOffset hc")
    case mem: False
    then show ?thesis
      using False off read_rest_spec [OF assms(1), of o' "[]" n] by (auto simp: hc_ReadAt_def)
  next
    case True
    obtain m where m: "hc_memory hc = Some m" "hc\<lparr>hc_memory := Some m\<rparr> = hc" "hc_memoryOffset hc \<le> length (mem_buf m)"
      by (rule has_memory [OF assms(1) True])
    define got where "got = take n (drop o' (take (hc_memoryOffset hc) (mem_buf m)))"
    have eq: "take n (drop o' (take (min (hc_memoryOffset hc) (o' + n)) (mem_buf m))) = got" by (simp add: got_def drop_take min_def)
    have step: "hc_ReadAt lim n off hc = (if length got = n then Return ((got, None), hc) else read_rest n off got hc)"
      using False True m(1,3) off u64_sum [OF assms(1) True assms(2)]
      by (simp add: hc_ReadAt_def Let_def Reallocate_committed eq m(2) del: length_take length_drop take_take)
    have got: "length got = min n (hc_memoryOffset hc - o')" "prefix got (drop o' (hc_bytes hc))"
      using True m unfolding got_def by (auto simp: hc_bytes_def in_memory_def take_is_prefix prefix_append)
    show ?thesis
    proof (cases "length got = n")
      case full: True
      then show ?thesis using step got assms(1) off by (auto simp: length_hc_bytes unmoved_def)
    next
      case part: False
      then have l: "length got < n" "o' + length got = hc_memoryOffset hc" using got(1) True by auto
      then have "drop o' (hc_bytes hc) = got @ drop (hc_memoryOffset hc) (hc_bytes hc)"
        using got(2) by (metis add.commute append_take_drop_id drop_drop prefix_take)
      moreover have "length got + min (n - length got) (length (hc_bytes hc) - hc_memoryOffset hc) = min n (length (hc_bytes hc) - o')"
        using l length_hc_bytes [OF assms(1)] by linarith
      ultimately show ?thesis using step part l off read_rest_spec [OF assms(1), of o' got n] by auto
    qed
  qed
qed

lemma hc_WriteAt_spec:
  assumes "hc_ok hc" "int (length p) \<le> i64_max"
  shows "\<exists>k e hc'. hc_WriteAt lim p off hc = Return ((k, e), hc') \<and> hc_ok hc' \<and> unmoved hc hc' \<and>
    hc_bytes hc' = overwrite (hc_bytes hc) (nat off) (take k p) \<and> (k = 0 \<or> nat off + k \<le> length (hc_bytes hc)) \<and> k \<le> length p \<and>
    (e = None \<longrightarrow> k = (if 0 \<le> off then min (length p) (length (hc_bytes hc) - nat off) else 0))"
proof (cases "p = [] \<or> off < 0 \<or> hc_Size hc \<le> off")
  case True
  have "overwrite (hc_bytes hc) (nat off) [] = hc_bytes hc" by (simp add: overwrite_def)
  with True show ?thesis using assms(1) by (cases "p = []") (simp_all add: hc_WriteAt_def unmoved_def)
next
  case False
  define o' where "o' = nat off"
  have off: "off = int o'" "p \<noteq> []" "o' < length (hc_bytes hc)" using False assms(1) by (auto simp: o'_def hc_Size_eq)
  show ?thesis
  proof (cases "o' < hc_memoryOffset hc")
    case mem: False
    then show ?thesis
      using False off write_rest_spec [OF assms(1), of o' 0 p] by (auto simp: hc_WriteAt_def)
  next
    case True
    obtain m where m: "hc_memory hc = Some m" "hc\<lparr>hc_memory := Some m\<rparr> = hc" "hc_memoryOffset hc \<le> length (mem_buf m)"
      by (rule has_memory [OF assms(1) True])
    define n where "n = min (length p) (hc_memoryOffset hc - o')"
    define hc1 where "hc1 = hc\<lparr>hc_memory := Some (m\<lparr>mem_buf := overwrite (mem_buf m) o' (take n p)\<rparr>)\<rparr>"
    have n: "o' + n \<le> hc_memoryOffset hc" "n \<le> length p" using True by (auto simp: n_def)
    have "min (length p) (min (hc_memoryOffset hc) (o' + length p) - o') = n" using True by (auto simp: n_def min_def)
    then have step: "hc_WriteAt lim p off hc = (if n = length p then Return ((n, None), hc1) else write_rest p off n hc1)"
      using False True m off u64_sum [OF assms(1) True assms(2)] by (simp add: hc_WriteAt_def Reallocate_committed hc1_def)
    have hc1: "hc_ok hc1" "hc_bytes hc1 = overwrite (hc_bytes hc) o' (take n p)" "unmoved hc hc1"
      using memory_window_write [OF assms(1) m(1), of o' "take n p"] n by (auto simp: hc1_def unmoved_def)
    have inside: "o' + n \<le> length (hc_bytes hc)" using n length_hc_bytes [OF assms(1)] by simp
    then have len: "length (hc_bytes hc1) = length (hc_bytes hc)" using hc1(2) n by simp
    show ?thesis
    proof (cases "n = length p")
      case full: True
      then show ?thesis using step hc1 inside off by auto
    next
      case part: False
      then have l: "n < length p" "hc_memoryOffset hc1 \<le> o' + n" using n True hc1(3) by (auto simp: n_def unmoved_def)
      obtain k e hc' where w: "write_rest p (int o') n hc1 = Return ((n + k, e), hc')" "hc_ok hc'" "unmoved hc1 hc'"
        "hc_bytes hc' = overwrite (hc_bytes hc1) (o' + n) (take k (drop n p))" "k = 0 \<or> o' + n + k \<le> length (hc_bytes hc)" "n + k \<le> length p"
        "e = None \<longrightarrow> n + k = min (length p) (length (hc_bytes hc) - o')"
        using write_rest_spec [OF hc1(1) l(2,1)] unfolding len by auto
      have "hc_bytes hc' = overwrite (hc_bytes hc) o' (take (n + k) p)"
        unfolding w(4) hc1(2) take_add by (rule overwrite_twice) (use inside n w(5,6) in auto)
      then show ?thesis using step part w hc1(3) inside off by (auto simp: unmoved_def)
    qed
  qed
qed

section \<open>Rewinding and blocks\<close>

lemma offsets_kept [simp]:
  "in_memory (hc\<lparr>hc_storeOffset := n\<rparr>) = in_memory hc" "in_store (hc\<lparr>hc_storeOffset := n\<rparr>) = in_store hc"
  "in_memory (hc\<lparr>hc_memoryOffset := n\<rparr>) = in_memory hc" "in_store (hc\<lparr>hc_memoryOffset := n\<rparr>) = in_store hc"
  by (simp_all add: in_memory_def in_store_def)

lemma RewindBySize_spec:
  assumes "hc_ok hc"
  shows "hc_ok (RewindBySize n hc) \<and> hc_bytes (RewindBySize n hc) = take (length (hc_bytes hc) - n) (hc_bytes hc)"
proof -
  let ?mo = "hc_memoryOffset hc" and ?so = "hc_storeOffset hc"
  have le: "?mo \<le> length (in_memory hc)" "?so \<le> length (in_store hc)" using assms by (simp_all add: hc_ok_def)
  have len: "length (hc_bytes hc) = ?mo + ?so" by (rule length_hc_bytes [OF assms])
  consider "n \<le> ?so" | "?so < n" "n - ?so \<le> ?mo" | "?mo < n - ?so" by linarith
  then show ?thesis
  proof cases
    case 1
    then have "?mo \<le> ?mo + ?so - n" "?mo + ?so - n - ?mo = ?so - n" by simp_all
    then show ?thesis using 1 assms le len by (simp add: RewindBySize_def hc_ok_def hc_bytes_def)
  next
    case 2
    then show ?thesis using assms le len by (simp add: RewindBySize_def hc_ok_def hc_bytes_def Let_def)
  next
    case 3
    then show ?thesis using assms le len by (simp add: RewindBySize_def hc_ok_def hc_bytes_def Let_def)
  qed
qed

lemma block_WriteAt_spec:
  assumes "hc_ok hc" "allocated hc pl" "p \<noteq> []" "0 \<le> off" "nat off + length p \<le> place_size pl"
  shows "\<exists>k e hc'. block_WriteAt pl p off hc = Return ((k, e), hc') \<and> hc_ok hc' \<and> unmoved hc hc' \<and>
    hc_bytes hc' = overwrite (hc_bytes hc) (place_start hc pl + nat off) (take k p) \<and> k \<le> length p \<and> (e = None \<longrightarrow> k = length p)"
proof -
  obtain o' where o': "off = int o'" using assms(4) nonneg_int_cases by blast
  show ?thesis
  proof (cases pl)
    case (InMemory start sz)
    then have "start < hc_memoryOffset hc" using assms by (cases p) auto
    then obtain m where m: "hc_memory hc = Some m" by (rule has_memory [OF assms(1)])
    show ?thesis
      using memory_window_write [OF assms(1) m, of "start + o'" p] InMemory assms(2-5) m
      by (cases p) (auto simp: block_WriteAt_def o' unmoved_def)
  next
    case (InStore base sz)
    then have "\<not> hc_storeOffset hc \<le> base" using assms by (cases p) auto
    then obtain st where st: "hc_store hc = Some st" by (rule has_store [OF assms(1)])
    obtain k e st' where r: "store_WriteAt p (int (base + o')) st = ((k, e), st')" by (metis prod.collapse)
    moreover have "base + o' + length p \<le> hc_storeOffset hc" using assms(2,5) InStore o' by simp
    ultimately show ?thesis
      using store_window_write [OF assms(1) st assms(3) _ r] InStore st by (auto simp: block_WriteAt_def o' unmoved_def add.commute add.left_commute)
  qed
qed

lemma block_ReadAt_spec:
  assumes "hc_ok hc" "allocated hc pl" "0 < n" "0 \<le> off" "nat off + n \<le> place_size pl"
  shows "\<exists>got e hc'. block_ReadAt pl n off hc = Return ((got, e), hc') \<and> hc_ok hc' \<and> hc_bytes hc' = hc_bytes hc \<and>
    prefix got (drop (place_start hc pl + nat off) (hc_bytes hc)) \<and> length got \<le> n \<and> (e = None \<longrightarrow> length got = n)"
proof -
  obtain o' where o': "off = int o'" using assms(4) nonneg_int_cases by blast
  show ?thesis
  proof (cases pl)
    case (InMemory start sz)
    then have le: "start + o' + n \<le> hc_memoryOffset hc" "o' + n \<le> sz" using assms(2,5) o' by auto
    then have "start + o' < hc_memoryOffset hc" using assms(3) by simp
    then obtain m where m: "hc_memory hc = Some m" and "hc\<lparr>hc_memory := Some m\<rparr> = hc" and len: "hc_memoryOffset hc \<le> length (mem_buf m)"
      by (rule has_memory [OF assms(1)])
    have got: "take n (drop o' (take sz (drop start (mem_buf m)))) = take n (drop (start + o') (mem_buf m))"
      using le by (simp add: drop_take add.commute [of o' start])
    moreover have "prefix (take n (drop (start + o') (mem_buf m))) (drop (start + o') (hc_bytes hc))"
    proof -
      have "take n (drop (start + o') (mem_buf m)) = take n (drop (start + o') (take (hc_memoryOffset hc) (mem_buf m)))"
        using le by (simp add: drop_take min_def)
      then show ?thesis using m le by (simp add: hc_bytes_def in_memory_def prefix_append take_is_prefix)
    qed
    moreover have "length (take n (drop (start + o') (mem_buf m))) = n" using le len by simp
    ultimately show ?thesis using InMemory assms(1,3) m le by (auto simp: block_ReadAt_def o' Let_def simp del: length_take length_drop)
  next
    case (InStore base sz)
    then have le: "base + o' + n \<le> hc_storeOffset hc" "o' + n \<le> sz" using assms(2,5) o' by auto
    then have "\<not> hc_storeOffset hc \<le> base" using assms(3) by simp
    then obtain st where st: "hc_store hc = Some st" by (rule has_store [OF assms(1)])
    obtain got e st' where r: "store_ReadAt n (int (base + o')) st = ((got, e), st')" by (metis prod.collapse)
    have "min n (nat (int sz - int o')) = n" "\<not> nat (int sz - int o') < n" using le by auto
    then show ?thesis
      using store_window_read [OF assms(1) st assms(3) le(1) r] InStore st r le assms(3) by (auto simp: block_ReadAt_def o' Let_def add.commute add.left_commute)
  qed
qed

text \<open>A block is a window of the cache: what is written into it in full is read back from it, and nothing outside
  the window changes, whether the block is in memory, in slices or in files that fail now and then.\<close>
theorem block_readback:
  assumes "hc_ok hc" "allocated hc pl" "p \<noteq> []" "0 \<le> off" "nat off + length p \<le> place_size pl"
    and "block_WriteAt pl p off hc = Return ((k, None), hc1)" and "block_ReadAt pl (length p) off hc1 = Return ((got, None), hc2)"
  shows "got = p \<and> length (hc_bytes hc2) = length (hc_bytes hc) \<and>
    (\<forall>i < length (hc_bytes hc). i < place_start hc pl + nat off \<or> place_start hc pl + nat off + length p \<le> i \<longrightarrow> hc_bytes hc2 ! i = hc_bytes hc ! i)"
proof -
  let ?at = "place_start hc pl + nat off"
  have w: "hc_ok hc1" "unmoved hc hc1" "hc_bytes hc1 = overwrite (hc_bytes hc) ?at p"
    using block_WriteAt_spec [OF assms(1-5)] assms(6) by auto
  have same: "allocated hc1 pl" "place_start hc1 pl = place_start hc pl"
    using assms(2) w(2) by (cases pl; simp add: unmoved_def)+
  have r: "hc_bytes hc2 = hc_bytes hc1" "prefix got (drop ?at (hc_bytes hc1))" "length got = length p"
    using block_ReadAt_spec [OF w(1) same(1) _ assms(4,5)] assms(3,7) same(2) by auto
  have le: "?at + length p \<le> length (hc_bytes hc)"
    using assms(2,5) by (cases pl) (auto simp: length_hc_bytes [OF assms(1)])
  have "got = p" using r(2,3) take_overwrite [OF le] by (metis prefix_take w(3))
  moreover have "i < ?at \<or> ?at + length p \<le> i \<Longrightarrow> i < length (hc_bytes hc) \<Longrightarrow> overwrite (hc_bytes hc) ?at p ! i = hc_bytes hc ! i" for i
    using le by (auto simp: overwrite_def nth_append)
  ultimately show ?thesis using r(1) w(3) le by simp
qed

section \<open>Runs\<close>

datatype cache_request = Alloc nat | Rewind nat | Read nat int | Write string int

datatype cache_answer = Got string "io_error option" | Wrote nat "io_error option" | Placed place | Refused io_error | Rewound

fun cache_call :: "limits \<Rightarrow> cache_request \<Rightarrow> hybrid \<Rightarrow> (cache_answer \<times> hybrid) go" where
  "cache_call lim (Alloc n) hc = go_bind (AllocBlock lim n hc) (\<lambda>(r, hc). Return (case r of Inl e \<Rightarrow> Refused e | Inr pl \<Rightarrow> Placed pl, hc))"
| "cache_call lim (Rewind n) hc = Return (Rewound, RewindBySize n hc)"
| "cache_call lim (Read n off) hc = go_bind (hc_ReadAt lim n off hc) (\<lambda>((got, e), hc). Return (Got got e, hc))"
| "cache_call lim (Write p off) hc = go_bind (hc_WriteAt lim p off hc) (\<lambda>((k, e), hc). Return (Wrote k e, hc))"

fun cache_calls :: "limits \<Rightarrow> cache_request list \<Rightarrow> hybrid \<Rightarrow> (cache_answer list \<times> hybrid) go" where
  "cache_calls lim [] hc = Return ([], hc)"
| "cache_calls lim (c # cs) hc = go_bind (cache_call lim c hc) (\<lambda>(a, hc). go_bind (cache_calls lim cs hc) (\<lambda>(as, hc). Return (a # as, hc)))"

text \<open>The same calls on a plain array.\<close>

fun array_call :: "cache_request \<Rightarrow> string \<Rightarrow> cache_answer \<Rightarrow> string \<Rightarrow> bool" where
  "array_call (Alloc n) xs a ys \<longleftrightarrow> (\<exists>e. a = Refused e \<and> ys = xs) \<or> (\<exists>pl new. a = Placed pl \<and> place_size pl = n \<and> length new = n \<and> ys = xs @ new)"
| "array_call (Rewind n) xs a ys \<longleftrightarrow> a = Rewound \<and> ys = take (length xs - n) xs"
| "array_call (Read n off) xs a ys \<longleftrightarrow> (\<exists>got e. a = Got got e \<and> ys = xs \<and> prefix got (drop (nat off) xs) \<and> length got \<le> n \<and>
     (e = None \<longrightarrow> length got = (if 0 \<le> off then min n (length xs - nat off) else 0)))"
| "array_call (Write p off) xs a ys \<longleftrightarrow> (\<exists>k e. a = Wrote k e \<and> ys = overwrite xs (nat off) (take k p) \<and> (k = 0 \<or> nat off + k \<le> length xs) \<and>
     k \<le> length p \<and> (e = None \<longrightarrow> k = (if 0 \<le> off then min (length p) (length xs - nat off) else 0)))"

fun array_calls :: "cache_request list \<Rightarrow> string \<Rightarrow> cache_answer list \<Rightarrow> string \<Rightarrow> bool" where
  "array_calls [] xs as ys \<longleftrightarrow> as = [] \<and> ys = xs"
| "array_calls (c # cs) xs as ys \<longleftrightarrow> (\<exists>a as' zs. as = a # as' \<and> array_call c xs a zs \<and> array_calls cs zs as' ys)"

fun asked_for :: "cache_request \<Rightarrow> nat" where
  "asked_for (Alloc n) = n"
| "asked_for (Rewind n) = 0"
| "asked_for (Read n off) = n"
| "asked_for (Write p off) = length p"

lemma cache_call_refines:
  assumes "hc_ok hc" "0 < page_size lim" "int (length (hc_bytes hc) + asked_for c) \<le> i64_max"
  shows "\<exists>a hc'. cache_call lim c hc = Return (a, hc') \<and> hc_ok hc' \<and> array_call c (hc_bytes hc) a (hc_bytes hc') \<and>
    length (hc_bytes hc') \<le> length (hc_bytes hc) + asked_for c"
proof (cases c)
  case (Alloc n)
  then obtain r hc' where "AllocBlock lim n hc = Return (r, hc')" "hc_ok hc'" "extends hc n r hc'"
    using AllocBlock_spec [OF assms(1,2), of n] assms(3) by auto
  then show ?thesis using Alloc by (cases r) (auto simp: extends_def)
next
  case (Rewind n)
  then show ?thesis using RewindBySize_spec [OF assms(1), of n] by simp
next
  case (Read n off)
  then have "int n \<le> i64_max" using assms(3) by simp
  with Read show ?thesis using hc_ReadAt_spec [OF assms(1), of n lim off] by fastforce
next
  case (Write p off)
  then have "int (length p) \<le> i64_max" using assms(3) by simp
  from hc_WriteAt_spec [OF assms(1) this, of lim off] obtain k e hc' where w: "hc_WriteAt lim p off hc = Return ((k, e), hc')" "hc_ok hc'"
    "unmoved hc hc'" "array_call c (hc_bytes hc) (Wrote k e) (hc_bytes hc')" using Write by auto
  then have "length (hc_bytes hc') = length (hc_bytes hc)" using assms(1) by (simp add: length_hc_bytes unmoved_def)
  then show ?thesis using w Write by simp
qed

lemma cache_calls_refine:
  "hc_ok hc \<Longrightarrow> 0 < page_size lim \<Longrightarrow> int (length (hc_bytes hc) + sum_list (map asked_for cs)) \<le> i64_max \<Longrightarrow>
     \<exists>as hc'. cache_calls lim cs hc = Return (as, hc') \<and> array_calls cs (hc_bytes hc) as (hc_bytes hc')"
proof (induction cs arbitrary: hc)
  case (Cons c cs)
  from cache_call_refines [OF Cons(2,3), of c] Cons(4) obtain a hc1 where a: "cache_call lim c hc = Return (a, hc1)" "hc_ok hc1"
    "array_call c (hc_bytes hc) a (hc_bytes hc1)" "length (hc_bytes hc1) \<le> length (hc_bytes hc) + asked_for c" by auto
  with Cons(1) [OF a(2) Cons(3)] Cons(4) show ?case by fastforce
qed simp

lemma NewHybridCache_spec:
  assumes "NewHybridCache lim blockSize most mapped reports faults = Inr hc"
  shows "hc_ok hc \<and> hc_bytes hc = []"
proof -
  let ?e = "\<lparr>hc_blockSize = blockSize, hc_memory = None, hc_memoryOffset = 0, hc_store = None, hc_storeOffset = 0, hc_faults = faults\<rparr>"
  have "initFileCache ?e = (None, hc') \<Longrightarrow> hc_ok hc' \<and> hc_bytes hc' = []" for hc'
    by (cases "NewFileStore blockSize faults")
      (auto simp: initFileCache_def hc_ok_def hc_bytes_def in_memory_def in_store_def i64_max_def dest: NewFileStore_ok split: sum.splits)
  then show ?thesis using assms
    by (auto simp: NewHybridCache_def Let_def hc_ok_def hc_bytes_def in_memory_def in_store_def i64_max_def buffer_ok_def
        split: if_splits prod.splits option.splits)
qed

text \<open>C23: The hybrid cache is an array of bytes: whatever sequence of allocations, rewinds, reads and writes it is asked
  for, with memory refused and files failing at any point, nothing panics, and every answer and the bytes after it are
  those of a plain array, a refused allocation leaving it as it was.\<close>
theorem cache_is_array:
  assumes "NewHybridCache lim blockSize most mapped reports faults = Inr hc" "0 < page_size lim"
    and "int (sum_list (map asked_for cs)) \<le> i64_max"
  shows "\<exists>as hc'. cache_calls lim cs hc = Return (as, hc') \<and> array_calls cs [] as (hc_bytes hc')"
  using cache_calls_refine [of hc lim cs] NewHybridCache_spec [OF assms(1)] assms(2,3) by simp

section \<open>Filling from a body\<close>

lemma buffers_write:
  assumes "buffer_ok m" "p \<noteq> []" "off + length p \<le> length (concat (buf_blocks m))"
  shows "\<exists>m'. store_WriteAt p (int off) (Buffers m) = ((length p, None), Buffers m')"
proof -
  obtain n bs where s: "scan_write (buf_blocks m) p off = (n, bs)" by fastforce
  from scan_write_eq [OF assms(3) s] s assms show ?thesis
    by (cases p) (auto simp: store_WriteAt_def buffer_WriteAt_def buffer_ok_def)
qed

lemma buffers_alloc:
  assumes "hc_ok hc" "hc_store hc = Some (Buffers m)" "int (length (hc_bytes hc) + n) \<le> max_alloc"
  obtains m' new where "AllocBlock lim n hc = Return (Inr (InStore (hc_storeOffset hc) n),
      hc\<lparr>hc_store := Some (Buffers m'), hc_storeOffset := hc_storeOffset hc + n\<rparr>)"
    and "hc_ok (hc\<lparr>hc_store := Some (Buffers m'), hc_storeOffset := hc_storeOffset hc + n\<rparr>)"
    and "hc_bytes (hc\<lparr>hc_store := Some (Buffers m'), hc_storeOffset := hc_storeOffset hc + n\<rparr>) = hc_bytes hc @ new" and "length new = n"
proof -
  have fits: "int (length (hc_bytes hc) + n) \<le> i64_max" using assms(3) by (simp add: max_alloc_def i64_max_def)
  then have so: "int (hc_storeOffset hc + n) \<le> i64_max" by (simp add: length_hc_bytes [OF assms(1)])
  have "buffer_ok m" using assms(1,2) by (simp add: hc_ok_def)
  moreover have "int (hc_storeOffset hc + n) \<le> max_alloc" using assms(3) by (simp add: length_hc_bytes [OF assms(1)])
  ultimately obtain m' where "buffer_GrowTo (int (hc_storeOffset hc + n)) m = (None, m')"
    by (fastforce simp: buffer_GrowTo_def buffer_ok_def)
  then have a: "alloc_store n (Buffers m) hc = (Inr (InStore (hc_storeOffset hc) n),
      hc\<lparr>hc_store := Some (Buffers m'), hc_storeOffset := hc_storeOffset hc + n\<rparr>)"
    by (simp add: alloc_store_def Let_def u64_small [OF so] i64_small [OF so] store_GrowTo_def del: of_nat_add)
  from alloc_store_spec [OF assms(1,2) fits a] that show thesis
    using a assms(2) by (auto simp: extends_def AllocBlock_def)
qed

lemma buffers_copy:
  assumes "hc_ok hc" "hc_store hc = Some (Buffers m)" "int (length (hc_bytes hc) + k) \<le> max_alloc" "0 < k"
  shows "\<exists>e hc' unused. CopyFromN (Suc (Suc fuel)) lim src k hc = Some (Return ((length (take k src), e), drop k src, hc')) \<and> hc_ok hc' \<and>
    hc_bytes hc' = hc_bytes hc @ take k src @ unused \<and> length unused = k - length src \<and> (e = None \<longleftrightarrow> k \<le> length src)"
proof -
  obtain m1 new where
    a: "AllocBlock lim k hc = Return (Inr (InStore (hc_storeOffset hc) k), hc\<lparr>hc_store := Some (Buffers m1), hc_storeOffset := hc_storeOffset hc + k\<rparr>)"
    and ok1: "hc_ok (hc\<lparr>hc_store := Some (Buffers m1), hc_storeOffset := hc_storeOffset hc + k\<rparr>)"
    and b1: "hc_bytes (hc\<lparr>hc_store := Some (Buffers m1), hc_storeOffset := hc_storeOffset hc + k\<rparr>) = hc_bytes hc @ new" "length new = k"
    by (rule buffers_alloc [OF assms(1-3)])
  let ?hc1 = "hc\<lparr>hc_store := Some (Buffers m1), hc_storeOffset := hc_storeOffset hc + k\<rparr>"
  show ?thesis
  proof (cases "src = []")
    case True
    then show ?thesis using a ok1 b1 assms(2,4) by (simp add: copy_block_def allocWriteAtSeeker_def)
  next
    case False
    define p where "p = take k src"
    have p: "p \<noteq> []" "length p \<le> k" "length p = k \<longleftrightarrow> k \<le> length src" using False assms(4) by (auto simp: p_def)
    have buf: "buffer_ok m1" "hc_storeOffset hc + k \<le> length (concat (buf_blocks m1))"
      using ok1 by (simp_all add: hc_ok_def in_store_def)
    then have "hc_storeOffset hc + length p \<le> length (concat (buf_blocks m1))" using p(2) by simp
    from buffers_write [OF buf(1) p(1) this] obtain m2 where w: "store_WriteAt p (int (hc_storeOffset hc)) (Buffers m1) = ((length p, None), Buffers m2)" ..
    define hc2 where "hc2 = ?hc1\<lparr>hc_store := Some (Buffers m2)\<rparr>"
    have bw: "block_WriteAt (InStore (hc_storeOffset hc) k) p 0 ?hc1 = Return ((length p, None), hc2)"
      using w by (simp add: block_WriteAt_def hc2_def)
    have "hc_ok hc2 \<and> hc_bytes hc2 = overwrite (hc_bytes hc @ new) (length (hc_bytes hc)) p"
      using block_WriteAt_spec [OF ok1, of "InStore (hc_storeOffset hc) k" p 0] p bw b1 by (simp add: length_hc_bytes [OF assms(1)])
    then have ok2: "hc_ok hc2" "hc_bytes hc2 = hc_bytes hc @ p @ drop (length p) new"
      by (simp_all add: overwrite_def)
    have rest: "drop (length p) src = drop k src" by (simp add: p_def min_def)
    have "copy_block (InStore (hc_storeOffset hc) k) src k ?hc1 = Return ((length p, if length p = k then None else Some EOF), drop k src, hc2)"
      using p(1) bw by (simp add: copy_block_def p_def [symmetric] Let_def rest)
    then have "CopyFromN (Suc (Suc fuel)) lim src k hc = Some (Return ((length p, if length p = k then None else Some EOF), drop k src, hc2))"
      using a assms(2,4) by (simp add: allocWriteAtSeeker_def)
    then show ?thesis using ok2 b1(2) p(3) unfolding p_def [symmetric]
      by (intro exI [of _ "if length p = k then None else Some EOF"] exI [of _ hc2] exI [of _ "drop (length p) new"]) (auto simp: p_def)
  qed
qed

text \<open>C24: Filling the cache from a body, in slices that hold what is asked for, loses nothing: what is cached followed by
  what is left of the body stays the same, whether the body is long enough or breaks off, and it reports an
  error exactly when fewer bytes than asked for are cached.\<close>
theorem fill_keeps:
  assumes "hc_ok hc" "hc_store hc = Some (Buffers m)" "int (length (hc_bytes hc) + n) \<le> max_alloc"
  shows "\<exists>e f' hc'. fill_cache lim n hc f = Some (Return (e, f')) \<and> cs_cache f' = Some hc' \<and> hc_ok hc' \<and>
    hc_bytes hc' @ cs_source f' = hc_bytes hc @ cs_source f \<and> (e = None \<longleftrightarrow> n \<le> length (hc_bytes hc'))"
proof (cases "n \<le> length (hc_bytes hc)")
  case True
  then show ?thesis using assms(1) by (simp add: fill_cache_def Let_def hc_Size_eq)
next
  case False
  define k where "k = n - length (hc_bytes hc)"
  have k: "0 < k" "int n - hc_Size hc = int k" "\<not> int k \<le> 0" "Suc n = Suc (Suc (n - 1))" using False assms(1) by (auto simp: k_def hc_Size_eq)
  have "int (length (hc_bytes hc) + k) \<le> max_alloc" using assms(3) by (simp add: k_def)
  from buffers_copy [OF assms(1,2) this k(1)] obtain e hc2 unused where
    c: "CopyFromN (Suc n) lim (cs_source f) k hc = Some (Return ((length (take k (cs_source f)), e), drop k (cs_source f), hc2))" and
    ok2: "hc_ok hc2" "hc_bytes hc2 = hc_bytes hc @ take k (cs_source f) @ unused" "length unused = k - length (cs_source f)"
      "e = None \<longleftrightarrow> k \<le> length (cs_source f)"
    unfolding k(4) by blast
  have n: "n = length (hc_bytes hc) + k" using False by (simp add: k_def)
  have diff: "nat (int k - int x) = k - x" for x by simp
  have fill: "fill_cache lim n hc f = Some (if length (take k (cs_source f)) = k
      then Return (None, f\<lparr>cs_source := drop k (cs_source f), cs_cache := Some hc2\<rparr>)
      else Return (Some (case e of Some e \<Rightarrow> e | None \<Rightarrow> EOF),
        f\<lparr>cs_source := drop k (cs_source f), cs_cache := Some (RewindBySize (k - length (take k (cs_source f))) hc2)\<rparr>))"
    unfolding fill_cache_def Let_def k(2) using k(3) by (simp add: c diff del: CopyFromN.simps)
  show ?thesis
  proof (cases "k \<le> length (cs_source f)")
    case True
    then show ?thesis using ok2 by (simp add: fill [unfolded n] n)
  next
    case short: False
    have "hc_bytes (RewindBySize (length unused) hc2) = hc_bytes hc @ cs_source f" "hc_ok (RewindBySize (length unused) hc2)"
      using RewindBySize_spec [OF ok2(1), of "length unused"] ok2(2) short by simp_all
    then show ?thesis using ok2(3) short by (simp add: fill [unfolded n] n)
  qed
qed

section \<open>Examples\<close>

definition demo_limits :: limits where
  "demo_limits = \<lparr>MinFreeMemory = 1, AutoMemoryLimit = 8, MaxBlockLimit = 4, page_size = 4\<rparr>"

definition empty_cache :: "nat \<Rightarrow> hybrid" where
  "empty_cache most = (case NewHybridCache demo_limits 4 most True [(Some 99, True), (Some 99, True), (Some 99, True)] [] of
     Inr hc \<Rightarrow> hc
   | Inl _ \<Rightarrow> \<lparr>hc_blockSize = 0, hc_memory = None, hc_memoryOffset = 0, hc_store = None, hc_storeOffset = 0, hc_faults = []\<rparr>)"

lemma empty_cache_new:
  "NewHybridCache demo_limits 4 4 True [(Some 99, True), (Some 99, True), (Some 99, True)] [] = Inr (empty_cache 4)"
  by (simp add: empty_cache_def NewHybridCache_def demo_limits_def Let_def)

lemma empty_cache_buffers: "hc_ok (empty_cache 4) \<and> hc_store (empty_cache 4) = Some (Buffers \<lparr>buf_blocks = [], buf_size = 0\<rparr>) \<and> hc_bytes (empty_cache 4) = []"
  using NewHybridCache_spec [OF empty_cache_new] by (simp add: empty_cache_def NewHybridCache_def demo_limits_def Let_def)

definition answers_of :: "(cache_answer list \<times> hybrid) go \<Rightarrow> cache_answer list" where
  "answers_of r = (case r of Panic \<Rightarrow> [] | Return (as, _) \<Rightarrow> as)"

lemma cache_is_array_witness:
  "\<exists>as hc'. cache_calls demo_limits [Alloc 2, Write ''ab'' 0, Rewind 1, Read 5 0] (empty_cache 4) = Return (as, hc') \<and>
     array_calls [Alloc 2, Write ''ab'' 0, Rewind 1, Read 5 0] [] as (hc_bytes hc')"
  by (rule cache_is_array [OF empty_cache_new]) (simp_all add: demo_limits_def i64_max_def)

lemma fill_keeps_witness:
  "\<exists>e f' hc'. fill_cache demo_limits 3 (empty_cache 4) \<lparr>cs_cache = None, cs_source = ''ab'', cs_size = 3\<rparr> = Some (Return (e, f')) \<and>
     cs_cache f' = Some hc' \<and> hc_ok hc' \<and> hc_bytes hc' @ cs_source f' = ''ab'' \<and> (e = None \<longleftrightarrow> 3 \<le> length (hc_bytes hc'))"
  using fill_keeps [of "empty_cache 4" _ 3 demo_limits "\<lparr>cs_cache = None, cs_source = ''ab'', cs_size = 3\<rparr>"] empty_cache_buffers
  by (simp add: max_alloc_def)

text \<open>Two blocks of two bytes: what is written into the first, and what is then read from the second.\<close>

definition spill :: "nat \<Rightarrow> ((nat \<times> io_error option) \<times> string) option" where
  "spill most =
     (case AllocBlock demo_limits 2 (empty_cache most) of
        Return (Inr first, hc) \<Rightarrow>
          (case AllocBlock demo_limits 2 hc of
             Return (Inr second, hc) \<Rightarrow>
               (case block_WriteAt first ''abcd'' 0 hc of
                  Return (r, hc) \<Rightarrow>
                    (case block_ReadAt second 2 0 hc of Return ((got, _), _) \<Rightarrow> Some (r, got) | Panic \<Rightarrow> None)
                | Panic \<Rightarrow> None)
           | _ \<Rightarrow> None)
      | _ \<Rightarrow> None)"

lemma block_readback_witness:
  "\<exists>pl hc hc1 hc2. block_WriteAt pl ''xy'' 1 hc = Return ((2, None), hc1) \<and> block_ReadAt pl 2 1 hc1 = Return ((''xy'', None), hc2) \<and>
     length (hc_bytes hc2) = length (hc_bytes hc)"
proof -
  let ?attempt = "case AllocBlock demo_limits 4 (empty_cache 4) of
     Return (Inr pl, hc) \<Rightarrow> (case block_WriteAt pl ''xy'' 1 hc of
        Return ((k, None), hc1) \<Rightarrow> (case block_ReadAt pl 2 1 hc1 of Return ((got, None), _) \<Rightarrow> Some (k, got, place_size pl) | _ \<Rightarrow> None)
      | _ \<Rightarrow> None)
   | _ \<Rightarrow> None"
  have "?attempt = Some (2, ''xy'', 4)" by code_simp
  then obtain pl hc hc1 hc2 where r: "AllocBlock demo_limits 4 (empty_cache 4) = Return (Inr pl, hc)" "block_WriteAt pl ''xy'' 1 hc = Return ((2, None), hc1)"
    "block_ReadAt pl 2 1 hc1 = Return ((''xy'', None), hc2)" "place_size pl = 4"
    by (auto split: go.splits prod.splits sum.splits option.splits)
  have "hc_ok hc \<and> extends (empty_cache 4) 4 (Inr pl) hc"
    using AllocBlock_spec [of "empty_cache 4" demo_limits 4] empty_cache_buffers r(1) by (simp add: demo_limits_def i64_max_def)
  then have "hc_ok hc" "allocated hc pl" by (simp_all add: extends_def)
  with block_readback [of hc pl "''xy''" 1 2 hc1 "''xy''" hc2] r have "length (hc_bytes hc2) = length (hc_bytes hc)"
    by (simp add: numeral_2_eq_2)
  with r show ?thesis by blast
qed

text \<open>The block of a store knows no end: what is too long for it runs into the next block without an error, where the block in
  memory stops and says so.\<close>
theorem block_writer_unbounded:
  "spill 4 = Some ((4, None), ''cd'') \<and> spill 99 = Some ((2, Some ErrShortWrite), zeros 2)"
  by code_simp

text \<open>A body that is cached in memory, four bytes at a time: eight bytes, then twenty, of a body that breaks off after ten.\<close>

definition refilled :: "(io_error option \<times> string \<times> string) option" where
  "refilled =
     (let f = \<lparr>cs_cache = None, cs_source = ''abcdefghij'', cs_size = 99\<rparr>; reports = replicate 9 (Some 999, True)
      in case ensureCache demo_limits True reports [] 8 f of
           Some (Return (None, f)) \<Rightarrow>
             (case ensureCache demo_limits True reports [] 20 f of
                Some (Return (e, f)) \<Rightarrow> (case cs_cache f of None \<Rightarrow> None | Some hc \<Rightarrow> Some (e, hc_bytes hc, cs_source f))
              | _ \<Rightarrow> None)
         | _ \<Rightarrow> None)"


end
