(* ===== verification/Settings.thy ===== *)
theory Settings
  imports Caches Metas Signing
begin

text \<open>
  The settings: \<open>internal/model/setting.go\<close>, their rows (\<open>internal/db/settingitem.go\<close>), the operations of
  \<open>internal/op/setting.go\<close> over the cache of \<open>internal/op/cache.go\<close>, the hooks of \<open>internal/op/hook.go\<close> and
  \<open>internal/search\<close> that carry a value into the running server, the readers of \<open>internal/setting\<close> and the
  callbacks of \<open>internal/bootstrap\<close>.  One cache holds single rows under their keys and lists of rows
  under made-up keys, and a reader that meets the other sort takes it for a miss.  Whether a
  database call fails is a list of outcomes to come.  The compiler of regular expressions, the
  decoder of JSON and the constructors of search indices are parameters.
\<close>

section \<open>Items\<close>

definition SINGLE :: int where "SINGLE = 0"
definition SITE :: int where "SITE = 1"
definition STYLE :: int where "STYLE = 2"
definition PREVIEW :: int where "PREVIEW = 3"
definition GLOBAL :: int where "GLOBAL = 4"
definition INDEX :: int where "INDEX = 6"
definition SSO :: int where "SSO = 7"
definition LDAP :: int where "LDAP = 8"
definition TRAFFIC :: int where "TRAFFIC = 11"

definition PUBLIC :: int where "PUBLIC = 0"
definition PRIVATE :: int where "PRIVATE = 1"
definition READONLY :: int where "READONLY = 2"
definition DEPRECATED :: int where "DEPRECATED = 3"

record SettingItem =
  ItemKey :: string
  ItemValue :: string
  MigrationValue :: string
  Help :: string
  ItemType :: string
  Options :: string
  Group :: int
  Flag :: int
  Index :: nat

definition IsDeprecated :: "SettingItem \<Rightarrow> bool" where
  "IsDeprecated s \<longleftrightarrow> Flag s = DEPRECATED"

section \<open>The state\<close>

text \<open>What a text of JSON does to a map of strings: \<open>null\<close> empties it, an object sets its entries, up to
  the place where the text is wrong.  The flag says that it was read to its end.\<close>

datatype char_entries = Nulled bool | Entries "(string \<times> string) list" bool

record setting_env =
  compiles :: "string \<Rightarrow> bool"
  decode_map :: "string \<Rightarrow> char_entries"
  new_searcher :: "string \<Rightarrow> bool option"

datatype cached = OneItem SettingItem | Items "SettingItem list"

text \<open>The callbacks of the task managers and of the rate limits, by the setting they read.\<close>

datatype callback = SetWorkers string int | SetLimit string

record setStore =
  srows :: "SettingItem list"
  sfail :: "bool list"
  snow :: int
  settingCache :: "(cached, int) KeyedCache"
  callbacks :: "callback list"
  migrations :: "(string \<times> string \<times> string) list"
  SlicesMap :: "string \<Rightarrow> string list"
  PrivacyReg :: "string list"
  FilenameCharMap :: "(string \<times> string) list"
  searcher :: "string option"
  Running :: bool
  workers :: "string \<Rightarrow> int"
  limits :: "string \<Rightarrow> int option \<times> int"
  signing :: signState

section \<open>The rows\<close>

definition db_call :: "setStore \<Rightarrow> bool \<times> setStore" where
  "db_call st = (case sfail st of [] \<Rightarrow> (True, st) | f # fs \<Rightarrow> (\<not> f, st\<lparr>sfail := fs\<rparr>))"

definition db_find :: "(SettingItem \<Rightarrow> bool) \<Rightarrow> setStore \<Rightarrow> (db_error + SettingItem list) \<times> setStore" where
  "db_find P st = (let (ok, st) = db_call st in (if ok then Inr (filter P (srows st)) else Inl DbFailure, st))"

definition db_GetSettingItems :: "setStore \<Rightarrow> (db_error + SettingItem list) \<times> setStore" where
  "db_GetSettingItems = db_find (\<lambda>_. True)"

definition db_GetSettingItemByKey :: "string \<Rightarrow> setStore \<Rightarrow> (db_error + SettingItem) \<times> setStore" where
  "db_GetSettingItemByKey key st =
     (case db_find (\<lambda>r. ItemKey r = key) st of
        (Inl e, st) \<Rightarrow> (Inl e, st)
      | (Inr rs, st) \<Rightarrow> (case rs of [] \<Rightarrow> Inl RecordNotFound | r # _ \<Rightarrow> Inr r, st))"

definition db_GetPublicSettingItems :: "setStore \<Rightarrow> (db_error + SettingItem list) \<times> setStore" where
  "db_GetPublicSettingItems = db_find (\<lambda>r. Flag r = PUBLIC \<or> Flag r = READONLY)"

definition db_GetSettingItemsByGroup :: "int \<Rightarrow> setStore \<Rightarrow> (db_error + SettingItem list) \<times> setStore" where
  "db_GetSettingItemsByGroup grp = db_find (\<lambda>r. Group r = grp)"

definition db_GetSettingItemsInGroups :: "int list \<Rightarrow> setStore \<Rightarrow> (db_error + SettingItem list) \<times> setStore" where
  "db_GetSettingItemsInGroups groups st =
     (case db_find (\<lambda>r. Group r \<in> set groups) st of
        (Inl e, st) \<Rightarrow> (Inl e, st)
      | (Inr rs, st) \<Rightarrow> (Inr (sort_key Index rs), st))"

text \<open>The row of an item has no column for the migration value.\<close>

definition row_of :: "SettingItem \<Rightarrow> SettingItem" where
  "row_of item = item\<lparr>MigrationValue := []\<rparr>"

definition upsert :: "SettingItem \<Rightarrow> SettingItem list \<Rightarrow> SettingItem list" where
  "upsert item rs =
     (if ItemKey item \<in> ItemKey ` set rs then map (\<lambda>r. if ItemKey r = ItemKey item then row_of item else r) rs
      else rs @ [row_of item])"

text \<open>\<open>Save\<close> of a list inserts or replaces each of its rows in one statement, and refuses an empty list.\<close>

definition db_SaveSettingItems :: "SettingItem list \<Rightarrow> setStore \<Rightarrow> db_error option \<times> setStore" where
  "db_SaveSettingItems items st =
     (if items = [] then (Some DbFailure, st)
      else let (ok, st) = db_call st
           in if ok then (None, st\<lparr>srows := fold upsert items (srows st)\<rparr>) else (Some DbFailure, st))"

text \<open>\<open>Save\<close> of an item whose key is empty is an insertion.\<close>

definition db_SaveSettingItem :: "SettingItem \<Rightarrow> setStore \<Rightarrow> db_error option \<times> setStore" where
  "db_SaveSettingItem item st =
     (let (ok, st) = db_call st
      in if \<not> ok \<or> ItemKey item = [] \<and> [] \<in> ItemKey ` set (srows st) then (Some DbFailure, st)
         else (None, st\<lparr>srows := upsert item (srows st)\<rparr>))"

definition db_DeleteSettingItemByKey :: "string \<Rightarrow> setStore \<Rightarrow> db_error option \<times> setStore" where
  "db_DeleteSettingItemByKey key st =
     (let (ok, st) = db_call st
      in if ok then (None, st\<lparr>srows := filter (\<lambda>r. ItemKey r \<noteq> key) (srows st)\<rparr>) else (Some DbFailure, st))"

section \<open>The cache\<close>

definition setting_ttl :: int where
  "setting_ttl = 3600 * 1000000000"

definition Cache_Set :: "string \<Rightarrow> cached \<Rightarrow> setStore \<Rightarrow> setStore" where
  "Cache_Set key v st = st\<lparr>settingCache := SetWithTTL (snow st) key v setting_ttl (settingCache st)\<rparr>"

definition Cache_Get :: "string \<Rightarrow> setStore \<Rightarrow> cached option \<times> setStore" where
  "Cache_Get key st = (let (r, c) = Get (past (snow st)) key (settingCache st) in (r, st\<lparr>settingCache := c\<rparr>))"

definition SetSetting :: "string \<Rightarrow> SettingItem \<Rightarrow> setStore \<Rightarrow> setStore" where
  "SetSetting key setting = Cache_Set key (OneItem setting)"

definition GetSetting :: "string \<Rightarrow> setStore \<Rightarrow> SettingItem option \<times> setStore" where
  "GetSetting key st =
     (case Cache_Get key st of (Some (OneItem setting), st) \<Rightarrow> (Some setting, st) | (_, st) \<Rightarrow> (None, st))"

definition SetSettingGroup :: "string \<Rightarrow> SettingItem list \<Rightarrow> setStore \<Rightarrow> setStore" where
  "SetSettingGroup key settings = Cache_Set key (Items settings)"

definition GetSettingGroup :: "string \<Rightarrow> setStore \<Rightarrow> SettingItem list option \<times> setStore" where
  "GetSettingGroup key st =
     (case Cache_Get key st of (Some (Items settings), st) \<Rightarrow> (Some settings, st) | (_, st) \<Rightarrow> (None, st))"

definition ClearSettings :: "setStore \<Rightarrow> setStore" where
  "ClearSettings st = st\<lparr>settingCache := Clear (settingCache st)\<rparr>"

section \<open>Reading\<close>

text \<open>A list of rows comes from the cache under its key, or from the query \<open>db\<close>.\<close>

definition through_cache :: "string \<Rightarrow> (setStore \<Rightarrow> (db_error + SettingItem list) \<times> setStore) \<Rightarrow> setStore
    \<Rightarrow> (db_error + SettingItem list) \<times> setStore" where
  "through_cache key db st =
     (case GetSettingGroup key st of
        (Some items, st) \<Rightarrow> (Inr items, st)
      | (None, st) \<Rightarrow>
          (case db st of
             (Inl e, st) \<Rightarrow> (Inl e, st)
           | (Inr items, st) \<Rightarrow> (Inr items, SetSettingGroup key items st)))"

definition GetSettingItems :: "setStore \<Rightarrow> (db_error + SettingItem list) \<times> setStore" where
  "GetSettingItems = through_cache ''ALL_SETTING_ITEMS'' db_GetSettingItems"

definition GetPublicSettingItems :: "setStore \<Rightarrow> (db_error + SettingItem list) \<times> setStore" where
  "GetPublicSettingItems = through_cache ''ALL_PUBLIC_SETTING_ITEMS'' db_GetPublicSettingItems"

definition GetSettingItemsByGroup :: "int \<Rightarrow> setStore \<Rightarrow> (db_error + SettingItem list) \<times> setStore" where
  "GetSettingItemsByGroup grp = through_cache (''GROUP_'' @ show_int grp) (db_GetSettingItemsByGroup grp)"

definition groups_key :: "int list \<Rightarrow> string" where
  "groups_key groups = ''GROUPS_'' @ join_with ''_'' (map show_int groups)"

definition GetSettingItemsInGroups :: "int list \<Rightarrow> setStore \<Rightarrow> (db_error + SettingItem list) \<times> setStore" where
  "GetSettingItemsInGroups groups =
     (let groups = sort groups in through_cache (groups_key groups) (db_GetSettingItemsInGroups groups))"

definition GetSettingItemByKey :: "string \<Rightarrow> setStore \<Rightarrow> (db_error + SettingItem) \<times> setStore" where
  "GetSettingItemByKey key st =
     (case GetSetting key st of
        (Some item, st) \<Rightarrow> (Inr item, st)
      | (None, st) \<Rightarrow>
          (case db_GetSettingItemByKey key st of
             (Inl e, st) \<Rightarrow> (Inl e, st)
           | (Inr item, st) \<Rightarrow> (Inr item, SetSetting (ItemKey item) item st)))"

primrec GetSettingItemInKeys :: "string list \<Rightarrow> setStore \<Rightarrow> (db_error + SettingItem list) \<times> setStore" where
  "GetSettingItemInKeys [] st = (Inr [], st)"
| "GetSettingItemInKeys (key # keys) st =
     (case GetSettingItemByKey key st of
        (Inl e, st) \<Rightarrow> (Inl e, st)
      | (Inr item, st) \<Rightarrow>
          (case GetSettingItemInKeys keys st of
             (Inl e, st) \<Rightarrow> (Inl e, st)
           | (Inr items, st) \<Rightarrow> (Inr (item # items), st)))"

text \<open>A Go map, as an association list in the order in which its keys came.\<close>

definition settings_map :: "SettingItem list \<Rightarrow> (string \<times> string) list" where
  "settings_map items = fold (\<lambda>item. AList.update (ItemKey item) (ItemValue item)) items []"

definition items_or_none :: "db_error + SettingItem list \<Rightarrow> SettingItem list" where
  "items_or_none r = (case r of Inl _ \<Rightarrow> [] | Inr items \<Rightarrow> items)"

definition GetPublicSettingsMap :: "setStore \<Rightarrow> (string \<times> string) list \<times> setStore" where
  "GetPublicSettingsMap st = (let (r, st) = GetPublicSettingItems st in (settings_map (items_or_none r), st))"

definition GetSettingsMap :: "setStore \<Rightarrow> (string \<times> string) list \<times> setStore" where
  "GetSettingsMap st = (let (r, st) = GetSettingItems st in (settings_map (items_or_none r), st))"

text \<open>\<open>internal/setting\<close>.\<close>

definition GetStr :: "string \<Rightarrow> string \<Rightarrow> setStore \<Rightarrow> string \<times> setStore" where
  "GetStr key defaultValue st =
     (case GetSettingItemByKey key st of
        (Inl _, st) \<Rightarrow> (defaultValue, st)
      | (Inr val, st) \<Rightarrow> (ItemValue val, st))"

definition GetInt :: "string \<Rightarrow> int \<Rightarrow> setStore \<Rightarrow> int \<times> setStore" where
  "GetInt key defaultVal st =
     (let (s, st) = GetStr key [] st; (i, ok) = ParseInt s in (if ok then i else defaultVal, st))"

definition GetBool :: "string \<Rightarrow> setStore \<Rightarrow> bool \<times> setStore" where
  "GetBool key st =
     (let (s, st) = GetStr key [] st
      in if s = ''true'' then (True, st)
         else let (s, st) = GetStr key [] st in (s = ''1'', st))"

section \<open>Callbacks\<close>

definition taskFilterNegative :: "int \<Rightarrow> int" where
  "taskFilterNegative num = (if num < 0 then 0 else num)"

text \<open>No rate is \<open>rate.Inf\<close>; the burst is a machine integer.\<close>

definition streamFilterNegative :: "int \<Rightarrow> int option \<times> int" where
  "streamFilterNegative limit = (if limit < 0 then (None, 0) else (Some (limit * 1024), i64 (limit * 1024)))"

primrec run_callback :: "callback \<Rightarrow> setStore \<Rightarrow> setStore" where
  "run_callback (SetWorkers key workers_conf) st =
     (let (n, st) = GetInt key workers_conf st in st\<lparr>workers := (workers st)(key := taskFilterNegative n)\<rparr>)"
| "run_callback (SetLimit key) st =
     (let (n, st) = GetInt key (-1) st in st\<lparr>limits := (limits st)(key := streamFilterNegative n)\<rparr>)"

definition RegisterSettingChangingCallback :: "callback \<Rightarrow> setStore \<Rightarrow> setStore" where
  "RegisterSettingChangingCallback f st = st\<lparr>callbacks := callbacks st @ [f]\<rparr>"

definition SettingCacheUpdate :: "setStore \<Rightarrow> setStore" where
  "SettingCacheUpdate st = fold run_callback (callbacks st) (ClearSettings st)"

text \<open>A task manager starts with the number as it is; the callback cuts off negative ones.\<close>

definition init_workers :: "string \<times> int \<Rightarrow> setStore \<Rightarrow> setStore" where
  "init_workers kd st =
     (let (n, st) = GetInt (fst kd) (snd kd) st
      in RegisterSettingChangingCallback (SetWorkers (fst kd) (snd kd)) (st\<lparr>workers := (workers st)(fst kd := n)\<rparr>))"

record setting_config =
  Dev :: bool
  Version :: string
  GitCommit :: string
  WebVersion :: string
  BuiltAt :: string
  UploadWorkers :: int
  CopyWorkers :: int
  MoveWorkers :: int
  DecompressWorkers :: int
  DecompressUploadWorkers :: int

definition InitTaskManager :: "setting_config \<Rightarrow> setStore \<Rightarrow> setStore" where
  "InitTaskManager c =
     fold init_workers
       [(''upload_task_threads_num'', UploadWorkers c), (''copy_task_threads_num'', CopyWorkers c),
        (''move_task_threads_num'', MoveWorkers c), (''decompress_download_task_threads_num'', DecompressWorkers c),
        (''decompress_upload_task_threads_num'', DecompressUploadWorkers c)]"

definition initLimiter :: "string \<Rightarrow> setStore \<Rightarrow> setStore" where
  "initLimiter s st =
     (let (n, st) = GetInt s (-1) st
      in RegisterSettingChangingCallback (SetLimit s) (st\<lparr>limits := (limits st)(s := streamFilterNegative n)\<rparr>))"

definition InitStreamLimit :: "setStore \<Rightarrow> setStore" where
  "InitStreamLimit =
     fold initLimiter
       [''max_client_download_speed'', ''max_client_upload_speed'', ''max_server_download_speed'', ''max_server_upload_speed'']"

section \<open>Hooks\<close>

text \<open>\<open>internal/search\<close>: the index in use is known by the name of its configuration.\<close>

definition search_Init :: "setting_env \<Rightarrow> string \<Rightarrow> setStore \<Rightarrow> bool \<times> setStore" where
  "search_Init env mode st =
     (if searcher st = Some mode then (True, st)
      else
        let st = st\<lparr>searcher := None\<rparr>
        in if Running st then (False, st)
           else if mode = ''none'' then (True, st)
           else (case new_searcher env mode of
                   None \<Rightarrow> (False, st)
                 | Some ok \<Rightarrow> (ok, if ok then st\<lparr>searcher := Some mode\<rparr> else st)))"

definition updateIgnorePaths :: "string \<Rightarrow> setStore \<Rightarrow> setStore" where
  "updateIgnorePaths customIgnorePaths st =
     st\<lparr>SlicesMap := (SlicesMap st)(''ignore_paths'' :=
       (if customIgnorePaths = [] then [] else split_on (CHR 0x0A) customIgnorePaths))\<rparr>"

definition isIgnorePath :: "string \<Rightarrow> setStore \<Rightarrow> bool" where
  "isIgnorePath path st = list_ex (has_prefix path) (SlicesMap st ''ignore_paths'')"

definition set_slices :: "string \<Rightarrow> SettingItem \<Rightarrow> setStore \<Rightarrow> setStore" where
  "set_slices key item st = st\<lparr>SlicesMap := (SlicesMap st)(key := split_on (CHR '','') (ItemValue item))\<rparr>"

definition set_privacy :: "setting_env \<Rightarrow> SettingItem \<Rightarrow> setStore \<Rightarrow> bool \<times> setStore" where
  "set_privacy env item st =
     (let regs = split_on (CHR 0x0A) (ItemValue item)
      in if list_all (compiles env) regs then (True, st\<lparr>PrivacyReg := regs\<rparr>) else (False, st))"

definition set_char_map :: "setting_env \<Rightarrow> SettingItem \<Rightarrow> setStore \<Rightarrow> bool \<times> setStore" where
  "set_char_map env item st =
     (case decode_map env (ItemValue item) of
        Nulled ok \<Rightarrow> (ok, st\<lparr>FilenameCharMap := []\<rparr>)
      | Entries es ok \<Rightarrow> (ok, st\<lparr>FilenameCharMap := fold (\<lambda>(k, v). AList.update k v) es (FilenameCharMap st)\<rparr>))"

definition slice_keys :: "string list" where
  "slice_keys = [''video_types'', ''audio_types'', ''image_types'', ''text_types'', ''proxy_types'',
     ''proxy_ignore_headers'', ''ignore_direct_link_params'']"

text \<open>Nothing when the key has no hook, otherwise whether the hook succeeds.\<close>

definition HandleSettingItemHook :: "setting_env \<Rightarrow> SettingItem \<Rightarrow> setStore \<Rightarrow> bool option \<times> setStore" where
  "HandleSettingItemHook env item st =
     (let key = ItemKey item
      in if key \<in> set slice_keys then (Some True, set_slices key item st)
         else if key = ''privacy_regs'' then apfst Some (set_privacy env item st)
         else if key = ''filename_char_mapping'' then apfst Some (set_char_map env item st)
         else if key = ''search_index'' then apfst Some (search_Init env (ItemValue item) st)
         else if key = ''ignore_paths'' then (Some True, updateIgnorePaths (ItemValue item) st)
         else (None, st))"

section \<open>Writing\<close>

datatype setting_error = HookFailed string | SaveFailed | GetFailed db_error | NotDeprecated string | DeleteFailed db_error

definition migrated :: "SettingItem \<Rightarrow> setStore \<Rightarrow> SettingItem" where
  "migrated item st =
     (case map_of (migrations st) (ItemKey item) of
        None \<Rightarrow> item
      | Some (mv, v) \<Rightarrow> if ItemValue item = mv then item\<lparr>ItemValue := v\<rparr> else item)"

primrec run_hooks :: "setting_env \<Rightarrow> SettingItem list \<Rightarrow> setStore \<Rightarrow> (setting_error + SettingItem list) \<times> setStore" where
  "run_hooks env [] st = (Inr [], st)"
| "run_hooks env (item # items) st =
     (let item = migrated item st
      in case HandleSettingItemHook env item st of
           (Some False, st) \<Rightarrow> (Inl (HookFailed (ItemKey item)), st)
         | (_, st) \<Rightarrow>
             (case run_hooks env items st of
                (Inl e, st) \<Rightarrow> (Inl e, st)
              | (Inr items, st) \<Rightarrow> (Inr (item # items), st)))"

definition SaveSettingItems :: "setting_env \<Rightarrow> SettingItem list \<Rightarrow> setStore \<Rightarrow> setting_error option \<times> setStore" where
  "SaveSettingItems env items st =
     (case run_hooks env items st of
        (Inl e, st) \<Rightarrow> (Some e, st)
      | (Inr items, st) \<Rightarrow>
          (case db_SaveSettingItems items st of
             (Some _, st) \<Rightarrow> (Some SaveFailed, st)
           | (None, st) \<Rightarrow> (None, SettingCacheUpdate st)))"

definition SaveSettingItem :: "setting_env \<Rightarrow> SettingItem \<Rightarrow> setStore \<Rightarrow> setting_error option \<times> setStore" where
  "SaveSettingItem env item st =
     (let item = migrated item st
      in case HandleSettingItemHook env item st of
           (Some False, st) \<Rightarrow> (Some (HookFailed (ItemKey item)), st)
         | (_, st) \<Rightarrow>
             (case db_SaveSettingItem item st of
                (Some _, st) \<Rightarrow> (Some SaveFailed, st)
              | (None, st) \<Rightarrow> (None, SettingCacheUpdate st)))"

definition DeleteSettingItemByKey :: "string \<Rightarrow> setStore \<Rightarrow> setting_error option \<times> setStore" where
  "DeleteSettingItemByKey key st =
     (case GetSettingItemByKey key st of
        (Inl e, st) \<Rightarrow> (Some (GetFailed e), st)
      | (Inr old, st) \<Rightarrow>
          if \<not> IsDeprecated old then (Some (NotDeprecated key), st)
          else (case db_DeleteSettingItemByKey key (SettingCacheUpdate st) of
                  (Some e, st) \<Rightarrow> (Some (DeleteFailed e), st)
                | (None, st) \<Rightarrow> (None, st)))"

text \<open>\<open>internal/search/util.go\<close>: the progress of an index is a setting too; \<open>p\<close> is its JSON.\<close>

definition WriteProgress :: "setting_env \<Rightarrow> string \<Rightarrow> setStore \<Rightarrow> setStore" where
  "WriteProgress env p st =
     snd (SaveSettingItem env
       \<lparr>ItemKey = ''index_progress'', ItemValue = p, MigrationValue = [], Help = [], ItemType = ''text'', Options = [],
        Group = SINGLE, Flag = PRIVATE, Index = 0\<rparr> st)"

end
