(* ===== verification/SettingData.thy ===== *)
theory SettingData
  imports Settings
begin

text \<open>
  The settings the server starts with (\<open>internal/bootstrap/data/setting.go\<close>): the initial items, and
  \<open>initSettings\<close>, which removes the rows of removed services, marks rows of unknown keys as deprecated,
  and writes every initial item that has no row or another one.  A call of \<open>Fatalf\<close> ends the
  process: the result is \<open>False\<close>.  Then the handlers of \<open>server/handles/setting.go\<close>.
\<close>

section \<open>The initial items\<close>

definition defaultAnnouncement :: string where
  "defaultAnnouncement =
    ''Welcome to the OpenList project!'' @ [CHR 0x0A] @
      ''For the latest updates, to contribute code, or to submit suggestions and issues, please visit our [project repository](https://github.com/OpenListTeam/OpenList).''"

definition defaultOpenListLogo :: string where
  "defaultOpenListLogo =
    ''https://res.oplist.org/logo/logo.svg''"

definition removedServiceSettingKeys :: "string list" where
  "removedServiceSettingKeys =
    [''s3_buckets'', ''s3_access_key_id'', ''s3_secret_access_key'', ''ftp_public_host'',
     ''ftp_pasv_port_map'', ''ftp_mandatory_tls'', ''ftp_implicit_tls'', ''ftp_tls_private_key_path'',
     ''ftp_tls_public_cert_path'', ''sftp_disable_password_login'', ''link_expiration'']"

definition siteVersion :: "setting_config \<Rightarrow> string" where
  "siteVersion c =
     Version c @ '' (Commit: '' @ GitCommit c @ '') - Frontend: '' @ WebVersion c @ '' - Build at: '' @ BuiltAt c"

definition item_of :: "string \<Rightarrow> string \<Rightarrow> string \<Rightarrow> int \<Rightarrow> int \<Rightarrow> SettingItem" where
  "item_of key value typ grp flag =
     \<lparr>ItemKey = key, ItemValue = value, MigrationValue = [], Help = [], ItemType = typ, Options = [],
      Group = grp, Flag = flag, Index = 0\<rparr>"

definition site_settings :: "setting_config \<Rightarrow> SettingItem list" where
  "site_settings c =
    [item_of ''version'' (siteVersion c) ''string'' SITE READONLY,
      (item_of ''site_title'' ''TinyList'' ''string'' SITE PUBLIC)\<lparr>MigrationValue := ''OpenList''\<rparr>,
      (item_of ''announcement'' [] ''text'' SITE PUBLIC)\<lparr>MigrationValue := defaultAnnouncement\<rparr>,
      (item_of ''pagination_type'' ''all'' ''select'' SITE PUBLIC)\<lparr>Options :=
        ''all,pagination,load_more,auto_load_more''\<rparr>,
      item_of ''default_page_size'' ''30'' ''number'' SITE PUBLIC,
      item_of ''allow_indexed'' ''false'' ''bool'' SITE PUBLIC,
      item_of ''allow_mounted'' ''true'' ''bool'' SITE PUBLIC,
      item_of ''robots_txt'' (''User-agent: *'' @ [CHR 0x0A] @ ''Allow: /'') ''text'' SITE PUBLIC]"

definition style_settings :: "SettingItem list" where
  "style_settings =
    [(item_of ''logo'' ''favicon.ico'' ''text'' STYLE PUBLIC)\<lparr>MigrationValue := defaultOpenListLogo\<rparr>,
      (item_of ''favicon'' [] ''string'' STYLE PUBLIC)\<lparr>MigrationValue := defaultOpenListLogo\<rparr>,
      item_of ''main_color'' ''#1890ff'' ''string'' STYLE PUBLIC,
      item_of ''home_icon'' ([CHR 0xF0, CHR 0x9F, CHR 0x8F, CHR 0xA0]) ''string'' STYLE PUBLIC,
      (item_of ''home_container'' ''max_980px'' ''select'' STYLE PUBLIC)\<lparr>Options :=
        ''max_980px,hope_container''\<rparr>,
      (item_of ''settings_layout'' ''list'' ''select'' STYLE PUBLIC)\<lparr>Options := ''list,responsive''\<rparr>,
      item_of ''hide_storage_details'' ''true'' ''bool'' STYLE PRIVATE,
      item_of ''hide_storage_details_in_manage_page'' ''true'' ''bool'' STYLE PRIVATE,
      item_of ''show_disk_usage_in_plain_text'' ''false'' ''bool'' STYLE PUBLIC]"

definition preview_settings :: "SettingItem list" where
  "preview_settings =
    [item_of ''text_types''
        ''txt,htm,html,xml,java,properties,sql,js,md,json,conf,ini,vue,php,py,bat,gitignore,yml,go,sh,c,cpp,h,hpp,tsx,vtt,srt,ass,rs,lrc,strm''
        ''text'' PREVIEW PRIVATE,
      item_of ''audio_types'' ''mp3,flac,ogg,m4a,wav,opus,wma'' ''text'' PREVIEW PRIVATE,
      item_of ''video_types'' ''mp4,mkv,avi,mov,rmvb,webm,flv,m3u8'' ''text'' PREVIEW PRIVATE,
      item_of ''image_types'' ''jpg,tiff,jpeg,png,gif,bmp,svg,ico,swf,webp,avif'' ''text'' PREVIEW PRIVATE,
      item_of ''proxy_types'' ''m3u8,url'' ''text'' PREVIEW PRIVATE,
      item_of ''proxy_ignore_headers'' ''authorization,referer'' ''text'' PREVIEW PRIVATE,
      item_of ''non_efs_zip_encoding'' ''IBM437'' ''string'' PREVIEW PUBLIC]"

definition global_settings :: "SettingItem list" where
  "global_settings =
    [item_of ''hide_files'' (''/'' @ [CHR 0x5C] @ ''/README.md/i'') ''text'' GLOBAL PUBLIC,
      item_of ''package_download'' ''true'' ''bool'' GLOBAL PUBLIC,
      (item_of ''customize_head'' [] ''text'' GLOBAL PRIVATE)\<lparr>MigrationValue := ''<script src='' @ [CHR 0x22] @
        ''https://cdnjs.cloudflare.com/polyfill/v3/polyfill.min.js?features=String.prototype.replaceAll'' @ [CHR 0x22]
        @ ''></script>''\<rparr>,
      item_of ''customize_body'' [] ''text'' GLOBAL PRIVATE,
      item_of ''sign_all'' ''true'' ''bool'' GLOBAL PRIVATE,
      item_of ''privacy_regs'' (''(?:(?:'' @ [CHR 0x5C] @ ''d|[1-9]'' @ [CHR 0x5C] @ ''d|1'' @ [CHR 0x5C] @ ''d'' @
        [CHR 0x5C] @ ''d|2[0-4]'' @ [CHR 0x5C] @ ''d|25[0-5])'' @ [CHR 0x5C] @ ''.){3}(?:'' @ [CHR 0x5C] @ ''d|[1-9]''
        @ [CHR 0x5C] @ ''d|1'' @ [CHR 0x5C] @ ''d'' @ [CHR 0x5C] @ ''d|2[0-4]'' @ [CHR 0x5C] @ ''d|25[0-5])'' @ [CHR
        0x0A] @
        ''([[:xdigit:]]{1,4}(?::[[:xdigit:]]{1,4}){7}|::|:(?::[[:xdigit:]]{1,4}){1,6}|[[:xdigit:]]{1,4}:(?::[[:xdigit:]]{1,4}){1,5}|(?:[[:xdigit:]]{1,4}:){2}(?::[[:xdigit:]]{1,4}){1,4}|(?:[[:xdigit:]]{1,4}:){3}(?::[[:xdigit:]]{1,4}){1,3}|(?:[[:xdigit:]]{1,4}:){4}(?::[[:xdigit:]]{1,4}){1,2}|(?:[[:xdigit:]]{1,4}:){5}:[[:xdigit:]]{1,4}|(?:[[:xdigit:]]{1,4}:){1,6}:)''
        @ [CHR 0x0A] @ ''(?U)access_token=(.*)&'') ''text'' GLOBAL PRIVATE,
      (item_of ''ocr_api'' ''https://openlistteam-ocr-api-server.hf.space/ocr/file/json'' ''string'' GLOBAL
        PUBLIC)\<lparr>MigrationValue := ''https://api.example.com/ocr/file/json''\<rparr>,
      item_of ''filename_char_mapping'' (''{'' @ [CHR 0x22] @ ''/'' @ [CHR 0x22] @ '': '' @ [CHR 0x22] @ ''|'' @ [CHR
        0x22] @ ''}'') ''text'' GLOBAL PUBLIC,
      item_of ''forward_direct_link_params'' ''false'' ''bool'' GLOBAL PUBLIC,
      item_of ''ignore_direct_link_params'' ''sign,openlist_ts,raw'' ''string'' GLOBAL PUBLIC,
      item_of ''webauthn_login_enabled'' ''false'' ''bool'' GLOBAL PUBLIC,
      item_of ''handle_hook_after_writing'' ''false'' ''bool'' GLOBAL PRIVATE,
      item_of ''handle_hook_rate_limit'' ''0'' ''number'' GLOBAL PRIVATE,
      (item_of ''ignore_system_files'' ''false'' ''bool'' GLOBAL PRIVATE)\<lparr>Help :=
        ''When enabled, ignores common system files during upload (.DS_Store, desktop.ini, Thumbs.db, and files starting with ._)''\<rparr>]"

definition single_settings :: "string \<Rightarrow> SettingItem list" where
  "single_settings tok =
    [item_of ''token'' tok ''string'' SINGLE PRIVATE,
      (item_of ''search_index'' ''no_index'' ''select'' INDEX PUBLIC)\<lparr>Options :=
        ''database,database_non_full_text,bleve,meilisearch,no_index,none''\<rparr>,
      item_of ''auto_update_index'' ''false'' ''bool'' INDEX PUBLIC,
      (item_of ''ignore_paths'' [] ''text'' INDEX PRIVATE)\<lparr>Help := ''one path per line''\<rparr>,
      (item_of ''max_index_depth'' ''20'' ''number'' INDEX PRIVATE)\<lparr>Help := ''max depth of index''\<rparr>,
      item_of ''index_progress'' ''{}'' ''text'' SINGLE PRIVATE]"

definition sso_settings :: "SettingItem list" where
  "sso_settings =
    [item_of ''sso_login_enabled'' ''false'' ''bool'' SSO PUBLIC,
      (item_of ''sso_login_platform'' [] ''select'' SSO PUBLIC)\<lparr>Options :=
        ''Casdoor,Github,Microsoft,Google,Dingtalk,OIDC''\<rparr>,
      item_of ''sso_client_id'' [] ''string'' SSO PRIVATE,
      item_of ''sso_client_secret'' [] ''string'' SSO PRIVATE,
      item_of ''sso_oidc_username_key'' ''name'' ''string'' SSO PRIVATE,
      item_of ''sso_organization_name'' [] ''string'' SSO PRIVATE,
      item_of ''sso_application_name'' [] ''string'' SSO PRIVATE,
      item_of ''sso_endpoint_name'' [] ''string'' SSO PRIVATE,
      item_of ''sso_jwt_public_key'' [] ''string'' SSO PRIVATE,
      item_of ''sso_extra_scopes'' [] ''string'' SSO PRIVATE,
      item_of ''sso_auto_register'' ''false'' ''bool'' SSO PRIVATE,
      item_of ''sso_default_dir'' ''/'' ''string'' SSO PRIVATE,
      item_of ''sso_default_permission'' ''0'' ''number'' SSO PRIVATE,
      item_of ''sso_compatibility_mode'' ''false'' ''bool'' SSO PUBLIC]"

definition ldap_settings :: "SettingItem list" where
  "ldap_settings =
    [item_of ''ldap_login_enabled'' ''false'' ''bool'' LDAP PUBLIC,
      item_of ''ldap_server'' [] ''string'' LDAP PRIVATE,
      item_of ''ldap_skip_tls_verify'' ''false'' ''bool'' LDAP PRIVATE,
      item_of ''ldap_manager_dn'' [] ''string'' LDAP PRIVATE,
      item_of ''ldap_manager_password'' [] ''string'' LDAP PRIVATE,
      item_of ''ldap_user_search_base'' [] ''string'' LDAP PRIVATE,
      item_of ''ldap_user_search_filter'' ''(uid=%s)'' ''string'' LDAP PRIVATE,
      item_of ''ldap_default_dir'' ''/'' ''string'' LDAP PRIVATE,
      item_of ''ldap_default_permission'' ''0'' ''number'' LDAP PRIVATE,
      item_of ''ldap_login_tips'' ''login with ldap'' ''string'' LDAP PUBLIC]"

definition traffic_settings :: "setting_config \<Rightarrow> SettingItem list" where
  "traffic_settings c =
    [item_of ''upload_task_threads_num'' (show_int (UploadWorkers c)) ''number'' TRAFFIC PRIVATE,
      item_of ''copy_task_threads_num'' (show_int (CopyWorkers c)) ''number'' TRAFFIC PRIVATE,
      item_of ''decompress_download_task_threads_num'' (show_int (DecompressWorkers c)) ''number'' TRAFFIC PRIVATE,
      item_of ''decompress_upload_task_threads_num'' (show_int (DecompressUploadWorkers c)) ''number'' TRAFFIC PRIVATE,
      item_of ''max_client_download_speed'' ''-1'' ''number'' TRAFFIC PRIVATE,
      item_of ''max_client_upload_speed'' ''-1'' ''number'' TRAFFIC PRIVATE,
      item_of ''max_server_download_speed'' ''-1'' ''number'' TRAFFIC PRIVATE,
      item_of ''max_server_upload_speed'' ''-1'' ''number'' TRAFFIC PRIVATE]"

definition dev_settings :: "SettingItem list" where
  "dev_settings =
    [item_of ''test_deprecated'' ''test_value'' ''string'' SINGLE DEPRECATED,
      (item_of ''test_options'' ''a'' ''select'' SINGLE PUBLIC)\<lparr>Options := ''a,b,c''\<rparr>,
      (item_of ''test_help'' [] ''string'' SINGLE PUBLIC)\<lparr>Help := ''this is a help message''\<rparr>]"

text \<open>\<open>tok\<close> is the random token of a server that is not in development.\<close>

definition InitialSettings :: "setting_config \<Rightarrow> string \<Rightarrow> SettingItem list" where
  "InitialSettings c tok =
     site_settings c @ style_settings @ preview_settings @ global_settings @
     single_settings (if Dev c then ''dev_token'' else tok) @ sso_settings @ ldap_settings @ traffic_settings c @
     (if Dev c then dev_settings else [])"

section \<open>Bringing the rows up to date\<close>

definition isActive :: "SettingItem list \<Rightarrow> string \<Rightarrow> bool" where
  "isActive initialSettingItems key = list_ex (\<lambda>item. ItemKey item = key) initialSettingItems"

primrec check_deprecated :: "setting_env \<Rightarrow> SettingItem list \<Rightarrow> SettingItem list \<Rightarrow> (string \<Rightarrow> SettingItem option) \<Rightarrow> setStore
    \<Rightarrow> (string \<Rightarrow> SettingItem option) option \<times> setStore" where
  "check_deprecated env init [] settingMap st = (Some settingMap, st)"
| "check_deprecated env init (v # settings) settingMap st =
     (if ItemKey v = [] \<or> ItemKey v \<in> set removedServiceSettingKeys
      then check_deprecated env init settings settingMap (snd (db_DeleteSettingItemByKey (ItemKey v) st))
      else if \<not> isActive init (ItemKey v) \<and> Flag v \<noteq> DEPRECATED
      then let v = v\<lparr>Flag := DEPRECATED\<rparr>
           in case SaveSettingItem env v st of
                (Some _, st') \<Rightarrow> (None, st')
              | (None, st') \<Rightarrow> check_deprecated env init settings (settingMap(ItemKey v := Some (migrated v st))) st'
      else check_deprecated env init settings (settingMap(ItemKey v := Some v)) st)"

text \<open>The item to write, from the stored one.\<close>

definition settle_item :: "nat \<Rightarrow> SettingItem \<Rightarrow> SettingItem option \<Rightarrow> SettingItem" where
  "settle_item i item old =
     (let migrationValue = MigrationValue item; item = item\<lparr>Index := i, MigrationValue := []\<rparr>
      in case old of
           None \<Rightarrow> item
         | Some s \<Rightarrow>
             if ItemKey item \<noteq> ''version'' \<and> (migrationValue = [] \<or> ItemValue s \<noteq> migrationValue)
             then item\<lparr>ItemValue := ItemValue s\<rparr> else item)"

definition note_migration :: "SettingItem \<Rightarrow> setStore \<Rightarrow> setStore" where
  "note_migration item st =
     (if MigrationValue item \<noteq> []
      then st\<lparr>migrations := AList.update (ItemKey item) (MigrationValue item, ItemValue item) (migrations st)\<rparr>
      else st)"

text \<open>The stored item, if there is one; \<open>None\<close> when the database fails.\<close>

definition stored_item :: "(string \<Rightarrow> SettingItem option) \<Rightarrow> string \<Rightarrow> setStore \<Rightarrow> SettingItem option option \<times> setStore" where
  "stored_item settingMap key st =
     (case settingMap key of
        Some s \<Rightarrow> (Some (Some s), st)
      | None \<Rightarrow>
          (case GetSettingItemByKey key st of
             (Inr s, st) \<Rightarrow> (Some (Some s), st)
           | (Inl e, st) \<Rightarrow> (if e = RecordNotFound then Some None else None, st)))"

primrec merge_items :: "setting_env \<Rightarrow> (string \<Rightarrow> SettingItem option) \<Rightarrow> (nat \<times> SettingItem) list \<Rightarrow> setStore
    \<Rightarrow> SettingItem list option \<times> setStore" where
  "merge_items env settingMap [] st = (Some [], st)"
| "merge_items env settingMap (p # items) st =
     (case stored_item settingMap (ItemKey (snd p)) (note_migration (snd p) st) of
        (None, st) \<Rightarrow> (None, st)
      | (Some old, st) \<Rightarrow>
          let item = settle_item (fst p) (snd p) old
          in case HandleSettingItemHook env item st of
               (Some False, st) \<Rightarrow> merge_items env settingMap items st
             | (_, st) \<Rightarrow>
                 (case merge_items env settingMap items st of
                    (None, st) \<Rightarrow> (None, st)
                  | (Some saveItems, st) \<Rightarrow> (Some (if old = Some item then saveItems else item # saveItems), st)))"

definition write_items :: "SettingItem list \<Rightarrow> setStore \<Rightarrow> bool \<times> setStore" where
  "write_items saveItems st =
     (if saveItems = [] then (True, st)
      else (case db_SaveSettingItems saveItems st of
              (Some _, st) \<Rightarrow> (False, st)
            | (None, st) \<Rightarrow> (True, SettingCacheUpdate st)))"

definition init_from :: "setting_env \<Rightarrow> SettingItem list \<Rightarrow> setStore \<Rightarrow> bool \<times> setStore" where
  "init_from env init st =
     (case GetSettingItems st of
        (Inl _, st) \<Rightarrow> (False, st)
      | (Inr settings, st) \<Rightarrow>
          (case check_deprecated env init settings (\<lambda>_. None) st of
             (None, st) \<Rightarrow> (False, st)
           | (Some settingMap, st) \<Rightarrow>
               (case merge_items env settingMap (enumerate 0 init) (st\<lparr>migrations := []\<rparr>) of
                  (None, st) \<Rightarrow> (False, st)
                | (Some saveItems, st) \<Rightarrow> write_items saveItems st)))"

definition initSettings :: "setting_env \<Rightarrow> setting_config \<Rightarrow> string \<Rightarrow> setStore \<Rightarrow> bool \<times> setStore" where
  "initSettings env c tok = init_from env (InitialSettings c tok)"

section \<open>The handlers\<close>

datatype setting_reply = Failed int | Done | ReplyToken string | ReplyItem SettingItem | ReplyItems "SettingItem list"
  | ReplyMap "(string \<times> string) list"

text \<open>\<open>sign.Reload\<close> reads the token setting.\<close>

definition sign_Reload :: "setStore \<Rightarrow> setStore" where
  "sign_Reload st =
     (let (token, st) = GetStr ''token'' [] st in st\<lparr>signing := Reload ((signing st)\<lparr>token_setting := token\<rparr>)\<rparr>)"

definition ResetToken :: "setting_env \<Rightarrow> string \<Rightarrow> setStore \<Rightarrow> setting_reply \<times> setStore" where
  "ResetToken env token st =
     (case SaveSettingItem env (item_of ''token'' token ''string'' SINGLE PRIVATE) st of
        (Some _, st) \<Rightarrow> (Failed 500, st)
      | (None, st) \<Rightarrow> (ReplyToken token, sign_Reload st))"

definition handle_GetSetting :: "string \<Rightarrow> string \<Rightarrow> setStore \<Rightarrow> setting_reply \<times> setStore" where
  "handle_GetSetting key keys st =
     (if key \<noteq> []
      then (case GetSettingItemByKey key st of
              (Inl _, st) \<Rightarrow> (Failed 400, st)
            | (Inr item, st) \<Rightarrow> (ReplyItem item, st))
      else (case GetSettingItemInKeys (split_on (CHR '','') keys) st of
              (Inl _, st) \<Rightarrow> (Failed 400, st)
            | (Inr items, st) \<Rightarrow> (ReplyItems items, st)))"

text \<open>\<open>None\<close> is a body that does not bind.\<close>

definition SaveSettings :: "setting_env \<Rightarrow> SettingItem list option \<Rightarrow> setStore \<Rightarrow> setting_reply \<times> setStore" where
  "SaveSettings env req st =
     (case req of
        None \<Rightarrow> (Failed 400, st)
      | Some items \<Rightarrow>
          (case SaveSettingItems env items st of
             (Some _, st) \<Rightarrow> (Failed 500, st)
           | (None, st) \<Rightarrow> (Done, st)))"

primrec atoi_all :: "string list \<Rightarrow> int list option" where
  "atoi_all [] = Some []"
| "atoi_all (s # ss) =
     (case ParseInt s of (g, ok) \<Rightarrow> if ok then map_option ((#) g) (atoi_all ss) else None)"

definition group_strings :: "string \<Rightarrow> string \<Rightarrow> string list" where
  "group_strings groupStr groupsStr = (if groupsStr \<noteq> [] then split_on (CHR '','') groupsStr else [groupStr])"

definition ListSettings :: "string \<Rightarrow> string \<Rightarrow> setStore \<Rightarrow> setting_reply \<times> setStore" where
  "ListSettings groupStr groupsStr st =
     (if groupsStr = [] \<and> groupStr = []
      then (case GetSettingItems st of
              (Inl _, st) \<Rightarrow> (Failed 400, st)
            | (Inr settings, st) \<Rightarrow> (ReplyItems settings, st))
      else (case atoi_all (group_strings groupStr groupsStr) of
              None \<Rightarrow> (Failed 400, st)
            | Some groups \<Rightarrow>
                (case GetSettingItemsInGroups groups st of
                   (Inl _, st) \<Rightarrow> (Failed 400, st)
                 | (Inr settings, st) \<Rightarrow> (ReplyItems settings, st))))"

definition DefaultSettings :: "setting_config \<Rightarrow> string \<Rightarrow> string \<Rightarrow> string \<Rightarrow> setting_reply" where
  "DefaultSettings c tok groupStr groupsStr =
     (let settings = map (\<lambda>(i, item). item\<lparr>Index := i\<rparr>) (enumerate 0 (InitialSettings c tok))
      in if groupsStr = [] \<and> groupStr = [] then ReplyItems settings
         else (case atoi_all (group_strings groupStr groupsStr) of
                 None \<Rightarrow> Failed 400
               | Some groups \<Rightarrow> ReplyItems (concat (map (\<lambda>g. filter (\<lambda>item. g = Group item) settings) (sort groups)))))"

definition DeleteSetting :: "string \<Rightarrow> setStore \<Rightarrow> setting_reply \<times> setStore" where
  "DeleteSetting key st =
     (case DeleteSettingItemByKey key st of
        (Some _, st) \<Rightarrow> (Failed 500, st)
      | (None, st) \<Rightarrow> (Done, st))"

definition PublicSettings :: "setStore \<Rightarrow> setting_reply \<times> setStore" where
  "PublicSettings st = (let (m, st) = GetPublicSettingsMap st in (ReplyMap m, st))"

end
