(* ===== verification/SettingProps.thy ===== *)
theory SettingProps
  imports SettingData
begin

text \<open>
  What the settings promise.  In every reachable state each cached value is what a query of the
  rows would give (\<open>settings_ok\<close>), so no reader sees a value that was replaced and no reader without
  an account sees a private one.  The exception is a deprecated setting that a callback reads:
  it is cached again before its row goes.  A start leaves exactly the rows that \<open>settled_row\<close> names.
\<close>

section \<open>Keys of cached lists\<close>

definition digits_value :: "string \<Rightarrow> nat" where
  "digits_value s = foldl (\<lambda>n c. 10 * n + (byte c - 48)) 0 s"

lemma digits_value_snoc: "digits_value (s @ [c]) = 10 * digits_value s + (byte c - 48)"
  by (simp add: digits_value_def)

lemma digits_value_show: "digits_value (show_nat n) = n"
proof (induction n rule: show_nat.induct)
  case (1 n)
  show ?case
  proof (cases "n < 10")
    case True
    then show ?thesis by (simp add: show_nat.simps [of n] digits_value_def)
  next
    case False
    then have "digits_value (show_nat n) = 10 * (n div 10) + n mod 10"
      using 1 by (simp add: show_nat.simps [of n] digits_value_snoc)
    then show ?thesis by simp
  qed
qed

lemma show_int_inj: "show_int a = show_int b \<Longrightarrow> a = b"
proof -
  have minus: "show_nat n \<noteq> CHR ''-'' # s" for n s
    using show_nat_digits [of "CHR ''-''" n] by (auto simp: is_digit_def byte_def)
  have inj: "show_nat m = show_nat n \<Longrightarrow> m = n" for m n
    by (metis digits_value_show)
  show "show_int a = show_int b \<Longrightarrow> a = b"
    using minus minus [symmetric] by (auto simp: show_int_def split: if_splits dest!: inj)
qed

lemma underscore_not_in_show_int: "CHR ''_'' \<notin> set (show_int i)"
  using show_nat_digits [of "CHR ''_''" "nat (abs i)"]
  by (auto simp: show_int_def is_digit_def byte_def dest: show_nat_digits)

lemma join_groups_inj: "join_with ''_'' (map show_int a) = join_with ''_'' (map show_int b) \<Longrightarrow> a = b"
proof -
  have split: "gs \<noteq> [] \<Longrightarrow> split_on (CHR ''_'') (join_with ''_'' (map show_int gs)) = map show_int gs" for gs
    by (rule split_join) (auto simp: underscore_not_in_show_int)
  have empty: "join_with ''_'' (map show_int gs) = [] \<longleftrightarrow> gs = []" for gs
    by (cases gs) (auto simp: join_with_Cons)
  assume eq: "join_with ''_'' (map show_int a) = join_with ''_'' (map show_int b)"
  have "map show_int a = map show_int b"
    using split [of a] split [of b] empty [of a] empty [of b] eq by (cases "a = []") auto
  then show "a = b" by (simp add: inj_map_eq_map inj_def show_int_inj)
qed

datatype query = QAll | QPublic | QGroup int | QGroups "int list"

fun query_key :: "query \<Rightarrow> string" where
  "query_key QAll = ''ALL_SETTING_ITEMS''"
| "query_key QPublic = ''ALL_PUBLIC_SETTING_ITEMS''"
| "query_key (QGroup g) = ''GROUP_'' @ show_int g"
| "query_key (QGroups gs) = groups_key gs"

fun query_rows :: "query \<Rightarrow> SettingItem list \<Rightarrow> SettingItem list" where
  "query_rows QAll rs = rs"
| "query_rows QPublic rs = filter (\<lambda>r. Flag r = PUBLIC \<or> Flag r = READONLY) rs"
| "query_rows (QGroup g) rs = filter (\<lambda>r. Group r = g) rs"
| "query_rows (QGroups gs) rs = sort_key Index (filter (\<lambda>r. Group r \<in> set gs) rs)"

lemma query_key_inj: "query_key q = query_key q' \<Longrightarrow> q = q'"
  by (cases q; cases q') (auto simp: groups_key_def dest: show_int_inj join_groups_inj)

section \<open>Coherence\<close>

definition cached_ok :: "SettingItem list \<Rightarrow> string \<Rightarrow> cached \<Rightarrow> bool" where
  "cached_ok rs k v =
     (case v of
        OneItem item \<Rightarrow> ItemKey item = k \<and> item \<in> set rs
      | Items items \<Rightarrow> (\<exists>q. query_key q = k \<and> items = query_rows q rs))"

abbreviation cached_at :: "setStore \<Rightarrow> string \<Rightarrow> cached option" where
  "cached_at st \<equiv> stored (settingCache st)"

definition settings_ok :: "setStore \<Rightarrow> bool" where
  "settings_ok st \<longleftrightarrow> distinct (map ItemKey (srows st)) \<and>
     (\<forall>k v. cached_at st k = Some v \<longrightarrow> cached_ok (srows st) k v)"

text \<open>The part of the state that coherence speaks of, and the steps that leave it alone.\<close>

definition same_rows :: "setStore \<Rightarrow> setStore \<Rightarrow> bool" where
  "same_rows st st' \<longleftrightarrow> srows st' = srows st \<and> callbacks st' = callbacks st \<and> migrations st' = migrations st \<and>
     SlicesMap st' = SlicesMap st \<and> searcher st' = searcher st \<and> Running st' = Running st \<and>
     (sfail st = [] \<longrightarrow> sfail st' = [])"

lemma same_rows_refl [simp]: "same_rows st st"
  by (simp add: same_rows_def)

lemma same_rows_trans: "same_rows a b \<Longrightarrow> same_rows b c \<Longrightarrow> same_rows a c"
  by (simp add: same_rows_def)

lemma db_call_frame: "db_call st = (ok, st') \<Longrightarrow> st' = st\<lparr>sfail := tl (sfail st)\<rparr> \<and> (sfail st = [] \<longrightarrow> ok)"
  by (auto simp: db_call_def split: list.splits)

lemma Cache_Get_frame: "Cache_Get k st = (r, st') \<Longrightarrow> st' = st\<lparr>settingCache := settingCache st'\<rparr>"
  by (auto simp: Cache_Get_def split: prod.splits)

lemma Cache_Get_value: "Cache_Get k st = (Some v, st') \<Longrightarrow> cached_at st k = Some v"
  using kc.get_view [of "past (snow st)" k "settingCache st" v] by (auto simp: Cache_Get_def split: prod.splits)

lemma Cache_Get_keeps: "Cache_Get k st = (r, st') \<Longrightarrow> cached_at st' j = Some v \<Longrightarrow> cached_at st j = Some v"
  using kc.get_keeps [of "past (snow st)" k "settingCache st" j v]
  by (auto simp: Cache_Get_def split: prod.splits)

lemma Cache_Set_view: "cached_at (Cache_Set k v st) = (cached_at st)(k := Some v)"
  by (simp add: Cache_Set_def SetWithTTL_def kc.view_put)

lemma Cache_Set_frame: "same_rows st (Cache_Set k v st)"
  by (simp add: Cache_Set_def same_rows_def)

lemma settings_ok_set:
  "settings_ok st \<Longrightarrow> cached_ok (srows st) k v \<Longrightarrow> settings_ok (Cache_Set k v st)"
  by (auto simp: settings_ok_def Cache_Set_view) (auto simp: Cache_Set_def)

text \<open>A lookup that keeps the rows and only drops entries.\<close>

definition drops :: "setStore \<Rightarrow> setStore \<Rightarrow> bool" where
  "drops st st' \<longleftrightarrow> same_rows st st' \<and> (\<forall>k v. cached_at st' k = Some v \<longrightarrow> cached_at st k = Some v)"

lemma drops_ok: "drops st st' \<Longrightarrow> settings_ok st \<Longrightarrow> settings_ok st'"
  by (auto simp: drops_def settings_ok_def same_rows_def)

lemma drops_trans: "drops a b \<Longrightarrow> drops b c \<Longrightarrow> drops a c"
  unfolding drops_def using same_rows_trans by blast

lemma Cache_Get_drops: "Cache_Get k st = (r, st') \<Longrightarrow> drops st st'"
proof -
  assume "Cache_Get k st = (r, st')"
  then show "drops st st'"
    unfolding drops_def by (auto dest: Cache_Get_keeps) (auto simp: same_rows_def Cache_Get_def split: prod.splits)
qed

lemma db_call_drops: "db_call st = (ok, st') \<Longrightarrow> drops st st'"
  by (drule db_call_frame) (simp add: drops_def same_rows_def)

section \<open>Readers\<close>

definition row :: "SettingItem list \<Rightarrow> string \<Rightarrow> SettingItem option" where
  "row rs k = find (\<lambda>r. ItemKey r = k) rs"

lemma row_Nil [simp]: "row [] k = None" and
  row_Cons [simp]: "row (r # rs) k = (if ItemKey r = k then Some r else row rs k)"
  by (simp_all add: row_def)

lemma row_SomeD: "row rs k = Some r \<Longrightarrow> r \<in> set rs \<and> ItemKey r = k"
  by (induction rs) (auto split: if_splits)

lemma row_None: "row rs k = None \<longleftrightarrow> k \<notin> ItemKey ` set rs"
  by (induction rs) auto

lemma row_in: "distinct (map ItemKey rs) \<Longrightarrow> r \<in> set rs \<Longrightarrow> row rs (ItemKey r) = Some r"
  by (induction rs) (auto simp: image_iff)

lemma row_filter: "row (filter (\<lambda>r. ItemKey r \<noteq> k) rs) j = (if j = k then None else row rs j)"
  by (induction rs) auto

lemma head_row: "(case filter (\<lambda>r. ItemKey r = k) rs of [] \<Rightarrow> None | r # _ \<Rightarrow> Some r) = row rs k"
  by (induction rs) auto

text \<open>An answer is what the rows say, or an error while the database fails.\<close>

definition right :: "setStore \<Rightarrow> 'a \<Rightarrow> db_error + 'a \<Rightarrow> bool" where
  "right st x r \<longleftrightarrow> (case r of Inr y \<Rightarrow> y = x | Inl _ \<Rightarrow> sfail st \<noteq> [])"

lemma right_drops: "same_rows st st' \<Longrightarrow> right st' x r \<Longrightarrow> right st x r"
  by (auto simp: right_def same_rows_def split: sum.splits)

definition answers :: "query \<Rightarrow> (setStore \<Rightarrow> (db_error + SettingItem list) \<times> setStore) \<Rightarrow> bool" where
  "answers q db \<longleftrightarrow> (\<forall>st r st'. db st = (r, st') \<longrightarrow> drops st st' \<and> right st (query_rows q (srows st)) r)"

lemma db_find_spec: "db_find P st = (r, st') \<Longrightarrow> drops st st' \<and> right st (filter P (srows st)) r"
  by (auto simp: db_find_def right_def split: prod.splits if_splits dest: db_call_drops)
    (auto dest: db_call_frame)

lemma queries_answer:
  "answers QAll db_GetSettingItems" "answers QPublic db_GetPublicSettingItems"
  "answers (QGroup g) (db_GetSettingItemsByGroup g)" "answers (QGroups gs) (db_GetSettingItemsInGroups gs)"
  by (auto simp: answers_def db_GetSettingItems_def db_GetPublicSettingItems_def db_GetSettingItemsByGroup_def
      db_GetSettingItemsInGroups_def right_def split: prod.splits sum.splits dest: db_find_spec)

lemma GetSettingGroup_drops: "GetSettingGroup k st = (r, st') \<Longrightarrow> drops st st'"
  by (auto simp: GetSettingGroup_def split: prod.splits option.splits cached.splits dest: Cache_Get_drops)

lemma GetSettingGroup_value: "GetSettingGroup k st = (Some items, st') \<Longrightarrow> cached_at st k = Some (Items items)"
  by (auto simp: GetSettingGroup_def split: prod.splits option.splits cached.splits dest: Cache_Get_value)

lemma through_cache_ok:
  assumes db: "answers q db" and ok: "settings_ok st" and run: "through_cache (query_key q) db st = (r, st')"
  shows "settings_ok st' \<and> same_rows st st' \<and> right st (query_rows q (srows st)) r"
proof -
  obtain g st1 where get: "GetSettingGroup (query_key q) st = (g, st1)" by fastforce
  then have d1: "drops st st1" by (rule GetSettingGroup_drops)
  then have same1: "same_rows st st1" and ok1: "settings_ok st1" using drops_ok ok by (auto simp: drops_def)
  show ?thesis
  proof (cases g)
    case (Some items)
    then have "cached_ok (srows st) (query_key q) (Items items)"
      using GetSettingGroup_value get ok unfolding settings_ok_def by blast
    then have "items = query_rows q (srows st)" by (auto simp: cached_ok_def dest: query_key_inj)
    then show ?thesis using run get Some same1 ok1 by (auto simp: through_cache_def right_def)
  next
    case None
    obtain r2 st2 where q2: "db st1 = (r2, st2)" by fastforce
    have rows: "srows st1 = srows st" using same1 by (simp add: same_rows_def)
    have d2: "drops st1 st2" and r2: "right st1 (query_rows q (srows st)) r2"
      using db q2 rows unfolding answers_def by metis+
    have ok2: "settings_ok st2" and same2: "same_rows st st2"
      using drops_ok [OF d2 ok1] same_rows_trans [OF same1] d2 by (auto simp: drops_def)
    have r: "right st (query_rows q (srows st)) r2" using right_drops [OF same1 r2] .
    have rows2: "srows st2 = srows st" using same2 by (simp add: same_rows_def)
    show ?thesis
    proof (cases r2)
      case (Inl e)
      then show ?thesis using run get None q2 ok2 same2 r by (simp add: through_cache_def)
    next
      case (Inr items)
      then have "cached_ok (srows st2) (query_key q) (Items items)"
        using r rows2 by (auto simp: cached_ok_def right_def)
      then show ?thesis
        using run get None q2 Inr ok2 same2 r settings_ok_set same_rows_trans [OF same2 Cache_Set_frame]
        by (auto simp: through_cache_def SetSettingGroup_def)
    qed
  qed
qed

lemmas list_readers =
  through_cache_ok [OF queries_answer(1), unfolded query_key.simps query_rows.simps, folded GetSettingItems_def]
  through_cache_ok [OF queries_answer(2), unfolded query_key.simps query_rows.simps, folded GetPublicSettingItems_def]

lemma GetSettingItemsInGroups_ok:
  "settings_ok st \<Longrightarrow> GetSettingItemsInGroups gs st = (r, st') \<Longrightarrow>
   settings_ok st' \<and> same_rows st st' \<and> right st (sort_key Index (filter (\<lambda>r. Group r \<in> set gs) (srows st))) r"
  using through_cache_ok [OF queries_answer(4), of st "sort gs" r st'] by (simp add: GetSettingItemsInGroups_def Let_def)

text \<open>A single row.  \<open>only K\<close> says that nothing but single rows under the keys \<open>K\<close> is cached.\<close>

definition only :: "string set \<Rightarrow> setStore \<Rightarrow> bool" where
  "only K st \<longleftrightarrow> (\<forall>k v. cached_at st k = Some v \<longrightarrow> k \<in> K \<and> (\<exists>item. v = OneItem item))"

definition right_row :: "setStore \<Rightarrow> string \<Rightarrow> db_error + SettingItem \<Rightarrow> bool" where
  "right_row st k r \<longleftrightarrow>
     (case r of
        Inr item \<Rightarrow> row (srows st) k = Some item
      | Inl e \<Rightarrow> e = RecordNotFound \<and> row (srows st) k = None \<or> e = DbFailure \<and> sfail st \<noteq> [])"

lemma drops_only: "drops st st' \<Longrightarrow> only K st \<Longrightarrow> only K st'"
  unfolding drops_def only_def by blast

lemma only_set: "only K st \<Longrightarrow> k \<in> K \<Longrightarrow> only K (Cache_Set k (OneItem item) st)"
  by (simp add: only_def Cache_Set_view)

lemma GetSetting_drops: "GetSetting k st = (r, st') \<Longrightarrow> drops st st'"
  by (auto simp: GetSetting_def split: prod.splits option.splits cached.splits dest: Cache_Get_drops)

lemma GetSetting_value: "GetSetting k st = (Some item, st') \<Longrightarrow> cached_at st k = Some (OneItem item)"
  by (auto simp: GetSetting_def split: prod.splits option.splits cached.splits dest: Cache_Get_value)

lemma db_GetSettingItemByKey_spec:
  "db_GetSettingItemByKey k st = (r, st') \<Longrightarrow> drops st st' \<and> right_row st k r"
proof -
  assume run: "db_GetSettingItemByKey k st = (r, st')"
  obtain r1 st1 where f: "db_find (\<lambda>r. ItemKey r = k) st = (r1, st1)" by fastforce
  have "drops st st1" and "right st (filter (\<lambda>r. ItemKey r = k) (srows st)) r1"
    using db_find_spec [OF f] by auto
  moreover have "r1 = Inl e \<Longrightarrow> e = DbFailure" for e
    using f by (auto simp: db_find_def split: prod.splits if_splits)
  ultimately show ?thesis
    using run f head_row [of k "srows st"]
    by (auto simp: db_GetSettingItemByKey_def right_def right_row_def split: sum.splits list.splits)
qed

lemma GetSettingItemByKey_ok:
  assumes ok: "settings_ok st" and run: "GetSettingItemByKey k st = (r, st')"
  shows "settings_ok st' \<and> same_rows st st' \<and> right_row st k r \<and> (only K st \<longrightarrow> k \<in> K \<longrightarrow> only K st')"
proof -
  obtain g st1 where get: "GetSetting k st = (g, st1)" by fastforce
  then have d1: "drops st st1" by (rule GetSetting_drops)
  then have same1: "same_rows st st1" and ok1: "settings_ok st1" using drops_ok ok by (auto simp: drops_def)
  show ?thesis
  proof (cases g)
    case (Some item)
    then have "cached_ok (srows st) k (OneItem item)"
      using GetSetting_value get ok unfolding settings_ok_def by blast
    then have "row (srows st) k = Some item" using ok by (auto simp: cached_ok_def settings_ok_def row_in)
    then show ?thesis
      using run get Some same1 ok1 drops_only [OF d1] by (auto simp: GetSettingItemByKey_def right_row_def)
  next
    case None
    obtain r2 st2 where q2: "db_GetSettingItemByKey k st1 = (r2, st2)" by fastforce
    have d2: "drops st1 st2" and r2: "right_row st1 k r2" using db_GetSettingItemByKey_spec [OF q2] by auto
    have ok2: "settings_ok st2" and d: "drops st st2" using drops_ok [OF d2 ok1] drops_trans [OF d1 d2] by auto
    have same2: "same_rows st st2" using d by (simp add: drops_def)
    have r: "right_row st k r2" using r2 same1 by (auto simp: right_row_def same_rows_def split: sum.splits)
    show ?thesis
    proof (cases r2)
      case (Inl e)
      then show ?thesis using run get None q2 ok2 same2 r drops_only [OF d] by (simp add: GetSettingItemByKey_def)
    next
      case (Inr item)
      then have item: "row (srows st2) k = Some item" using r same2 by (simp add: right_row_def same_rows_def)
      then have key: "ItemKey item = k" and "cached_ok (srows st2) k (OneItem item)"
        by (auto simp: cached_ok_def dest: row_SomeD)
      then have "settings_ok (SetSetting k item st2)" using settings_ok_set ok2 by (simp add: SetSetting_def)
      moreover have "only K st \<Longrightarrow> k \<in> K \<Longrightarrow> only K (SetSetting k item st2)"
        using only_set drops_only [OF d] unfolding SetSetting_def by blast
      ultimately show ?thesis
        using run get None q2 Inr r key same_rows_trans [OF same2 Cache_Set_frame]
        by (auto simp: GetSettingItemByKey_def SetSetting_def)
    qed
  qed
qed


section \<open>Callbacks and writers\<close>

primrec callback_key :: "callback \<Rightarrow> string" where
  "callback_key (SetWorkers key _) = key"
| "callback_key (SetLimit key) = key"

lemma GetStr_ok:
  "settings_ok st \<Longrightarrow> GetStr k d st = (s, st') \<Longrightarrow>
   settings_ok st' \<and> same_rows st st' \<and> (only K st \<longrightarrow> k \<in> K \<longrightarrow> only K st')"
  by (auto simp: GetStr_def split: prod.splits sum.splits dest: GetSettingItemByKey_ok)

lemma GetInt_ok:
  "settings_ok st \<Longrightarrow> GetInt k d st = (i, st') \<Longrightarrow>
   settings_ok st' \<and> same_rows st st' \<and> (only K st \<longrightarrow> k \<in> K \<longrightarrow> only K st')"
  by (auto simp: GetInt_def split: prod.splits dest: GetStr_ok)

lemma untouched [simp]:
  "settings_ok (st\<lparr>workers := w\<rparr>) = settings_ok st" "settings_ok (st\<lparr>limits := l\<rparr>) = settings_ok st"
  "same_rows st' (st\<lparr>workers := w\<rparr>) = same_rows st' st" "same_rows st' (st\<lparr>limits := l\<rparr>) = same_rows st' st"
  "settings_ok (st\<lparr>signing := g\<rparr>) = settings_ok st" "settings_ok (st\<lparr>callbacks := cb\<rparr>) = settings_ok st"
  "settings_ok (st\<lparr>sfail := fs, snow := t, Running := b\<rparr>) = settings_ok st"
  "only K (st\<lparr>workers := w\<rparr>) = only K st" "only K (st\<lparr>limits := l\<rparr>) = only K st"
  by (simp_all add: settings_ok_def same_rows_def only_def)

lemma run_callback_ok:
  assumes "settings_ok st"
  shows "settings_ok (run_callback cb st) \<and> same_rows st (run_callback cb st) \<and>
    (only K st \<longrightarrow> callback_key cb \<in> K \<longrightarrow> only K (run_callback cb st))"
proof (cases cb)
  case (SetWorkers k d)
  then show ?thesis using GetInt_ok [OF assms, of k d] by (auto split: prod.splits)
next
  case (SetLimit k)
  then show ?thesis using GetInt_ok [OF assms, of k "-1"] by (auto split: prod.splits)
qed

lemma callbacks_ok:
  "settings_ok st \<Longrightarrow> settings_ok (fold run_callback cbs st) \<and> same_rows st (fold run_callback cbs st) \<and>
   (only K st \<longrightarrow> callback_key ` set cbs \<subseteq> K \<longrightarrow> only K (fold run_callback cbs st))"
proof (induction cbs arbitrary: st)
  case (Cons cb cbs)
  then show ?case
    using run_callback_ok [of st cb K] Cons.IH [of "run_callback cb st"] same_rows_trans by fastforce
qed simp

text \<open>After a change nothing is cached but what the callbacks read.\<close>

lemma SettingCacheUpdate_ok:
  assumes "distinct (map ItemKey (srows st))"
  shows "settings_ok (SettingCacheUpdate st)" and "same_rows st (SettingCacheUpdate st)"
    and "only (callback_key ` set (callbacks st)) (SettingCacheUpdate st)"
proof -
  have clear: "settings_ok (ClearSettings st)" "same_rows st (ClearSettings st)" "only K (ClearSettings st)" for K
    using assms by (simp_all add: settings_ok_def same_rows_def only_def ClearSettings_def Clear_def stored_def)
  note run = callbacks_ok [OF clear(1), of "callbacks st" "callback_key ` set (callbacks st)"]
  show "settings_ok (SettingCacheUpdate st)" and "only (callback_key ` set (callbacks st)) (SettingCacheUpdate st)"
    using run clear(3) by (simp_all add: SettingCacheUpdate_def)
  show "same_rows st (SettingCacheUpdate st)"
    using run same_rows_trans [OF clear(2)] by (simp add: SettingCacheUpdate_def)
qed

text \<open>Hooks touch neither rows nor cache.\<close>

definition hook_frame :: "setStore \<Rightarrow> setStore \<Rightarrow> bool" where
  "hook_frame st st' \<longleftrightarrow> srows st' = srows st \<and> settingCache st' = settingCache st \<and> callbacks st' = callbacks st \<and>
     migrations st' = migrations st \<and> sfail st' = sfail st \<and> Running st' = Running st"

lemma hook_frame: "HandleSettingItemHook env item st = (r, st') \<Longrightarrow> hook_frame st st'"
  by (auto simp: HandleSettingItemHook_def Let_def set_slices_def set_privacy_def set_char_map_def search_Init_def
      updateIgnorePaths_def hook_frame_def apfst_def map_prod_def split: if_splits char_entries.splits option.splits)

lemma hook_frame_ok: "hook_frame st st' \<Longrightarrow> settings_ok st \<Longrightarrow> settings_ok st'"
  by (simp add: hook_frame_def settings_ok_def)

lemma run_hooks_frame: "run_hooks env items st = (r, st') \<Longrightarrow> hook_frame st st'"
proof (induction items arbitrary: st r st')
  case (Cons item items)
  obtain h st1 where h: "HandleSettingItemHook env (migrated item st) st = (h, st1)" by fastforce
  obtain r2 st2 where rest: "run_hooks env items st1 = (r2, st2)" by fastforce
  have "st' = st1 \<or> st' = st2"
    using Cons.prems h rest by (auto simp: Let_def split: option.splits bool.splits sum.splits)
  then show ?case using hook_frame [OF h] Cons.IH [OF rest] by (auto simp: hook_frame_def)
qed (simp add: hook_frame_def)

lemma upsert_keys: "distinct (map ItemKey rs) \<Longrightarrow> distinct (map ItemKey (upsert item rs))"
proof -
  have "map ItemKey (map (\<lambda>r. if ItemKey r = ItemKey item then row_of item else r) rs) = map ItemKey rs"
    by (simp add: row_of_def)
  then show "distinct (map ItemKey rs) \<Longrightarrow> distinct (map ItemKey (upsert item rs))"
    by (auto simp: upsert_def row_of_def simp del: map_map)
qed

lemma upserts_keys: "distinct (map ItemKey rs) \<Longrightarrow> distinct (map ItemKey (fold upsert items rs))"
  by (induction items arbitrary: rs) (auto simp: upsert_keys)

lemma SaveSettingItems_ok:
  assumes ok: "settings_ok st" and run: "SaveSettingItems env items st = (e, st')"
  shows "settings_ok st' \<and> callbacks st' = callbacks st"
proof -
  obtain h st1 where h: "run_hooks env items st = (h, st1)" by fastforce
  have f: "hook_frame st st1" using run_hooks_frame [OF h] .
  then have ok1: "settings_ok st1" and cb: "callbacks st1 = callbacks st"
    using hook_frame_ok ok by (auto simp: hook_frame_def)
  show ?thesis
  proof (cases h)
    case (Inl x)
    then show ?thesis using run h ok1 cb by (simp add: SaveSettingItems_def)
  next
    case (Inr its)
    obtain d st2 where d: "db_SaveSettingItems its st1 = (d, st2)" by fastforce
    have frame: "callbacks st2 = callbacks st1" "distinct (map ItemKey (srows st2))"
      using d ok1 upserts_keys
      by (auto simp: db_SaveSettingItems_def settings_ok_def split: if_splits prod.splits dest!: db_call_frame)
    show ?thesis
    proof (cases d)
      case None
      then show ?thesis using run h Inr d frame SettingCacheUpdate_ok [of st2] cb
        by (auto simp: SaveSettingItems_def same_rows_def)
    next
      case (Some x)
      then have "st2 = st1 \<or> drops st1 st2"
        using d by (auto simp: db_SaveSettingItems_def split: if_splits prod.splits dest: db_call_drops)
      then show ?thesis using run h Inr d Some frame cb ok1 drops_ok by (auto simp: SaveSettingItems_def)
    qed
  qed
qed

lemma SaveSettingItem_ok:
  assumes ok: "settings_ok st" and run: "SaveSettingItem env item st = (e, st')"
  shows "settings_ok st' \<and> callbacks st' = callbacks st"
proof -
  obtain h st1 where h: "HandleSettingItemHook env (migrated item st) st = (h, st1)" by fastforce
  have f: "hook_frame st st1" using hook_frame [OF h] .
  then have ok1: "settings_ok st1" and cb: "callbacks st1 = callbacks st"
    using hook_frame_ok ok by (auto simp: hook_frame_def)
  obtain d st2 where d: "db_SaveSettingItem (migrated item st) st1 = (d, st2)" by fastforce
  have frame: "callbacks st2 = callbacks st1" "distinct (map ItemKey (srows st2))"
    using d ok1 upsert_keys
    by (auto simp: db_SaveSettingItem_def settings_ok_def split: if_splits prod.splits dest!: db_call_frame)
  have fails: "d \<noteq> None \<Longrightarrow> settings_ok st2"
    using d ok1 by (auto simp: db_SaveSettingItem_def split: if_splits prod.splits dest!: db_call_drops intro: drops_ok)
  have "st' = st1 \<or> d \<noteq> None \<and> st' = st2 \<or> st' = SettingCacheUpdate st2"
    using run h d by (auto simp: SaveSettingItem_def Let_def split: option.splits bool.splits)
  then show ?thesis
    using ok1 cb frame fails SettingCacheUpdate_ok [OF frame(2)] by (auto simp: same_rows_def)
qed

lemma settings_ok_delete:
  assumes ok: "settings_ok st" and only: "only K st" and k: "k \<notin> K"
  shows "settings_ok (st\<lparr>srows := filter (\<lambda>r. ItemKey r \<noteq> k) (srows st)\<rparr>)"
proof -
  have "cached_ok (filter (\<lambda>r. ItemKey r \<noteq> k) (srows st)) j v" if "cached_at st j = Some v" for j v
  proof -
    obtain item where v: "v = OneItem item" and "j \<in> K" using only \<open>cached_at st j = Some v\<close> by (auto simp: only_def)
    then have "j \<noteq> k" using k by blast
    moreover have "cached_ok (srows st) j (OneItem item)"
      using ok \<open>cached_at st j = Some v\<close> v unfolding settings_ok_def by blast
    ultimately show ?thesis using v by (simp add: cached_ok_def)
  qed
  then show ?thesis using ok by (simp add: settings_ok_def distinct_map_filter)
qed

lemma DeleteSettingItemByKey_ok:
  assumes ok: "settings_ok st" and key: "k \<notin> callback_key ` set (callbacks st)"
    and run: "DeleteSettingItemByKey k st = (e, st')"
  shows "settings_ok st' \<and> callbacks st' = callbacks st"
proof -
  obtain r st1 where g: "GetSettingItemByKey k st = (r, st1)" by fastforce
  have ok1: "settings_ok st1" and cb: "callbacks st1 = callbacks st"
    using GetSettingItemByKey_ok [OF ok g] by (auto simp: same_rows_def)
  have d1: "distinct (map ItemKey (srows st1))" using ok1 by (simp add: settings_ok_def)
  let ?st2 = "SettingCacheUpdate st1"
  note upd = SettingCacheUpdate_ok [OF d1]
  obtain d st3 where d: "db_DeleteSettingItemByKey k ?st2 = (d, st3)" by fastforce
  obtain okc st4 where c: "db_call ?st2 = (okc, st4)" by fastforce
  have ok3: "settings_ok st3" and cb3: "callbacks st3 = callbacks st1"
  proof -
    have st4: "settings_ok st4" "callbacks st4 = callbacks st1" "only (callback_key ` set (callbacks st1)) st4"
      using drops_ok [OF db_call_drops [OF c] upd(1)] drops_only [OF db_call_drops [OF c] upd(3)]
        db_call_drops [OF c] upd(2) by (auto simp: drops_def same_rows_def)
    have st3: "st3 = st4 \<or> st3 = st4\<lparr>srows := filter (\<lambda>r. ItemKey r \<noteq> k) (srows st4)\<rparr>"
      using d c by (auto simp: db_DeleteSettingItemByKey_def split: if_splits)
    have "settings_ok (st4\<lparr>srows := filter (\<lambda>r. ItemKey r \<noteq> k) (srows st4)\<rparr>)"
      using settings_ok_delete [OF st4(1,3)] key cb by simp
    then show "settings_ok st3" "callbacks st3 = callbacks st1" using st3 st4 by auto
  qed
  have "st' = st1 \<or> st' = st3"
    using run g d by (auto simp: DeleteSettingItemByKey_def split: sum.splits if_splits option.splits)
  then show ?thesis using ok1 ok3 cb cb3 by auto
qed

section \<open>Requests\<close>

lemma GetSettingItemInKeys_ok:
  "settings_ok st \<Longrightarrow> GetSettingItemInKeys keys st = (r, st') \<Longrightarrow>
   settings_ok st' \<and> same_rows st st' \<and>
   (case r of
      Inr items \<Rightarrow> those (map (row (srows st)) keys) = Some items
    | Inl _ \<Rightarrow> those (map (row (srows st)) keys) = None \<or> sfail st \<noteq> [])"
proof (induction keys arbitrary: st r st')
  case (Cons key keys)
  obtain r1 st1 where one: "GetSettingItemByKey key st = (r1, st1)" by fastforce
  obtain r2 st2 where rest: "GetSettingItemInKeys keys st1 = (r2, st2)" by fastforce
  note ok1 = GetSettingItemByKey_ok [OF Cons.prems(1) one]
  note ok2 = Cons.IH [OF conjunct1 [OF ok1] rest]
  show ?case
    using Cons.prems(2) one rest ok1 ok2 same_rows_trans [of st st1 st2]
    by (auto simp: right_row_def same_rows_def split: sum.splits option.splits)
qed auto

inductive set_reach :: "setStore \<Rightarrow> bool" where
  fresh: "distinct (map ItemKey (srows st)) \<Longrightarrow> settingCache st = (\<lambda>_. None) \<Longrightarrow> set_reach st"
| world: "set_reach st \<Longrightarrow> set_reach (st\<lparr>sfail := fs, snow := t, Running := b\<rparr>)"
| sweep: "set_reach st \<Longrightarrow> set_reach (st\<lparr>settingCache := GC (past t) (settingCache st)\<rparr>)"
| task_manager: "set_reach st \<Longrightarrow> set_reach (init_workers kd st)"
| limiter: "set_reach st \<Longrightarrow> set_reach (initLimiter s st)"
| read: "set_reach st \<Longrightarrow> set_reach (snd (GetStr k d st))"
| get: "set_reach st \<Longrightarrow> set_reach (snd (handle_GetSetting key keys st))"
| listed: "set_reach st \<Longrightarrow> set_reach (snd (ListSettings g gs st))"
| public: "set_reach st \<Longrightarrow> set_reach (snd (PublicSettings st))"
| save: "set_reach st \<Longrightarrow> set_reach (snd (SaveSettings env req st))"
| reset: "set_reach st \<Longrightarrow> set_reach (snd (ResetToken env tok st))"
| progress: "set_reach st \<Longrightarrow> set_reach (WriteProgress env p st)"
| delete: "set_reach st \<Longrightarrow> key \<notin> callback_key ` set (callbacks st) \<Longrightarrow> set_reach (snd (DeleteSetting key st))"

lemma settings_ok_stored: "settings_ok st \<Longrightarrow> srows st' = srows st \<Longrightarrow>
    (\<And>k v. cached_at st' k = Some v \<Longrightarrow> cached_at st k = Some v) \<Longrightarrow> settings_ok st'"
  by (simp add: settings_ok_def)

lemma GC_view: "stored (GC expired c) k = Some v \<Longrightarrow> stored c k = Some v"
  by (auto simp: GC_def stored_def split: option.splits if_splits)

lemma sign_Reload_ok: "settings_ok st \<Longrightarrow> settings_ok (sign_Reload st)"
  using GetStr_ok [of st "''token''" "[]"] by (auto simp: sign_Reload_def split: prod.splits)

lemma reach_ok: "set_reach st \<Longrightarrow> settings_ok st"
proof (induction rule: set_reach.induct)
  case (fresh st)
  then show ?case by (simp add: settings_ok_def stored_def)
next
  case (world st fs t b)
  then show ?case by simp
next
  case (sweep st t)
  show ?case by (rule settings_ok_stored [OF sweep.IH]) (auto dest: GC_view)
next
  case (task_manager st kd)
  then show ?case
    using GetInt_ok [of st "fst kd" "snd kd"]
    by (auto simp: init_workers_def RegisterSettingChangingCallback_def split: prod.splits)
next
  case (limiter st s)
  then show ?case
    using GetInt_ok [of st s "-1"]
    by (auto simp: initLimiter_def RegisterSettingChangingCallback_def split: prod.splits)
next
  case (read st k d)
  then show ?case by (cases "GetStr k d st") (auto dest: GetStr_ok)
next
  case (get st key keys)
  then show ?case
    by (auto simp: handle_GetSetting_def split: prod.splits sum.splits
        dest: GetSettingItemByKey_ok GetSettingItemInKeys_ok)
next
  case (listed st g gs)
  then show ?case
    by (auto simp: ListSettings_def split: prod.splits sum.splits option.splits
        dest: list_readers(1) GetSettingItemsInGroups_ok)
next
  case (public st)
  then show ?case
    by (auto simp: PublicSettings_def GetPublicSettingsMap_def split: prod.splits dest: list_readers(2))
next
  case (save st env req)
  then show ?case
    by (auto simp: SaveSettings_def split: prod.splits option.splits dest: SaveSettingItems_ok)
next
  case (reset st env tok)
  then show ?case
    using SaveSettingItem_ok [OF reset.IH prod.collapse [symmetric], of env "item_of ''token'' tok ''string'' SINGLE PRIVATE"]
    by (auto simp: ResetToken_def case_prod_beta sign_Reload_ok split: option.splits)
next
  case (progress st env p)
  then show ?case
    unfolding WriteProgress_def using SaveSettingItem_ok [OF _ prod.collapse [symmetric]] by blast
next
  case (delete st key)
  then show ?case
    by (auto simp: DeleteSetting_def split: prod.splits option.splits dest: DeleteSettingItemByKey_ok)
qed

section \<open>What the replies are\<close>

definition public_view :: "SettingItem list \<Rightarrow> (string \<times> string) list" where
  "public_view rs = map (\<lambda>r. (ItemKey r, ItemValue r)) (filter (\<lambda>r. Flag r = PUBLIC \<or> Flag r = READONLY) rs)"

definition item_view :: "SettingItem list \<Rightarrow> string \<Rightarrow> string \<Rightarrow> setting_reply" where
  "item_view rs key keys =
     (if key \<noteq> [] then (case row rs key of None \<Rightarrow> Failed 400 | Some item \<Rightarrow> ReplyItem item)
      else (case those (map (row rs) (split_on (CHR '','') keys)) of None \<Rightarrow> Failed 400 | Some items \<Rightarrow> ReplyItems items))"

definition list_view :: "SettingItem list \<Rightarrow> string \<Rightarrow> string \<Rightarrow> setting_reply" where
  "list_view rs g gs =
     (if gs = [] \<and> g = [] then ReplyItems rs
      else (case atoi_all (group_strings g gs) of
              None \<Rightarrow> Failed 400
            | Some groups \<Rightarrow> ReplyItems (sort_key Index (filter (\<lambda>r. Group r \<in> set groups) rs))))"

lemma update_new: "k \<notin> fst ` set m \<Longrightarrow> AList.update k v m = m @ [(k, v)]"
  by (induction m) auto

lemma settings_map_fold:
  "distinct (map ItemKey items) \<Longrightarrow> fst ` set m \<inter> ItemKey ` set items = {} \<Longrightarrow>
   fold (\<lambda>item. AList.update (ItemKey item) (ItemValue item)) items m =
     m @ map (\<lambda>r. (ItemKey r, ItemValue r)) items"
  by (induction items arbitrary: m) (auto simp: update_new)

lemma settings_map_public:
  "distinct (map ItemKey rs) \<Longrightarrow>
   settings_map (filter (\<lambda>r. Flag r = PUBLIC \<or> Flag r = READONLY) rs) = public_view rs"
  by (simp add: settings_map_def settings_map_fold distinct_map_filter public_view_def)

lemma PublicSettings_reply:
  "settings_ok st \<Longrightarrow> fst (PublicSettings st) = ReplyMap (public_view (srows st)) \<or>
     sfail st \<noteq> [] \<and> fst (PublicSettings st) = ReplyMap []"
proof -
  assume ok: "settings_ok st"
  obtain r st' where get: "GetPublicSettingItems st = (r, st')" by fastforce
  have "right st (filter (\<lambda>r. Flag r = PUBLIC \<or> Flag r = READONLY) (srows st)) r"
    using list_readers(2) [OF ok get] by simp
  then show ?thesis
    using get ok settings_map_public
    by (auto simp: PublicSettings_def GetPublicSettingsMap_def right_def items_or_none_def settings_ok_def
        settings_map_def [of "[]"] split: sum.splits)
qed

lemma handle_GetSetting_reply:
  "settings_ok st \<Longrightarrow> fst (handle_GetSetting key keys st) = item_view (srows st) key keys \<or>
     sfail st \<noteq> [] \<and> fst (handle_GetSetting key keys st) = Failed 400"
proof -
  assume ok: "settings_ok st"
  obtain r st' where one: "GetSettingItemByKey key st = (r, st')" by fastforce
  obtain rs st2 where many: "GetSettingItemInKeys (split_on (CHR '','') keys) st = (rs, st2)" by fastforce
  have "right_row st key r" using GetSettingItemByKey_ok [OF ok one] by simp
  then show ?thesis
    using one many GetSettingItemInKeys_ok [OF ok many]
    by (auto simp: handle_GetSetting_def item_view_def right_row_def split: sum.splits)
qed

lemma ListSettings_reply:
  "settings_ok st \<Longrightarrow> fst (ListSettings g gs st) = list_view (srows st) g gs \<or>
     sfail st \<noteq> [] \<and> fst (ListSettings g gs st) = Failed 400"
proof -
  assume ok: "settings_ok st"
  obtain r st1 where all: "GetSettingItems st = (r, st1)" by fastforce
  have some: "right st (sort_key Index (filter (\<lambda>r. Group r \<in> set groups) (srows st))) (fst (GetSettingItemsInGroups groups st))"
    for groups
    using GetSettingItemsInGroups_ok [OF ok prod.collapse [symmetric]] by blast
  show ?thesis
  proof (cases "gs = [] \<and> g = []")
    case True
    then show ?thesis
      using all list_readers(1) [OF ok all] by (auto simp: ListSettings_def list_view_def right_def split: sum.splits)
  next
    case False
    then show ?thesis
      using some [of "the (atoi_all (group_strings g gs))"]
      by (cases "atoi_all (group_strings g gs)")
        (auto simp: ListSettings_def list_view_def right_def case_prod_beta split: sum.splits)
  qed
qed


definition demo_hooks :: setting_env where
  "demo_hooks = \<lparr>compiles = (\<lambda>s. s \<noteq> ''(''), decode_map = (\<lambda>s. Entries [] True), new_searcher = (\<lambda>m. Some True)\<rparr>"

definition demo_settings :: "SettingItem list \<Rightarrow> setStore" where
  "demo_settings rs =
     \<lparr>srows = rs, sfail = [], snow = 0, settingCache = (\<lambda>_. None), callbacks = [], migrations = [],
      SlicesMap = (\<lambda>_. []), PrivacyReg = [], FilenameCharMap = [], searcher = None, Running = False,
      workers = (\<lambda>_. 0), limits = (\<lambda>_. (None, 0)), signing = \<lparr>signer = None, token_setting = []\<rparr>\<rparr>"

definition demo_title :: SettingItem where
  "demo_title = item_of ''site_title'' ''Files'' ''string'' SITE PUBLIC"

definition demo_token :: SettingItem where
  "demo_token = item_of ''token'' ''secret'' ''string'' SINGLE PRIVATE"

text \<open>A public list that was cached is not shown after the title has become private.\<close>

definition demo_changed :: setStore where
  "demo_changed =
     snd (SaveSettings demo_hooks (Some [demo_title\<lparr>Flag := PRIVATE\<rparr>])
       (snd (PublicSettings (demo_settings [demo_title, demo_token]))))"

lemma demo_reach: "set_reach demo_changed"
  unfolding demo_changed_def
  by (intro set_reach.save set_reach.public set_reach.fresh)
    (simp_all add: demo_settings_def demo_title_def demo_token_def item_of_def)


text \<open>The exception: the callback of the move tasks reads \<open>move_task_threads_num\<close>, which is not among the
  initial settings, so that a start marks its row as deprecated and an administrator may delete it.\<close>

definition demo_threads :: SettingItem where
  "demo_threads = (item_of ''move_task_threads_num'' ''9'' ''number'' TRAFFIC DEPRECATED)"

definition demo_deleted :: setStore where
  "demo_deleted = snd (DeleteSetting ''move_task_threads_num'' (init_workers (''move_task_threads_num'', 5) (demo_settings [demo_threads])))"

text \<open>A deleted setting that a callback reads is still served and still in force: \<open>DeleteSettingItemByKey\<close>
  empties the cache and runs the callbacks before it deletes the row, and the callback puts the row
  into the cache again.\<close>

lemma deleted_setting_served:
  "fst (DeleteSetting ''move_task_threads_num'' (init_workers (''move_task_threads_num'', 5) (demo_settings [demo_threads]))) = Done \<and>
   srows demo_deleted = [] \<and>
   fst (handle_GetSetting ''move_task_threads_num'' [] demo_deleted) = ReplyItem demo_threads \<and>
   workers demo_deleted ''move_task_threads_num'' = 9"
  by code_simp

text \<open>A save that fails has run the hooks of the items before the one that failed.\<close>

lemma failed_save_applies:
  fixes st :: setStore
  assumes st: "st = demo_settings [demo_title]"
    and save: "SaveSettings demo_hooks (Some [item_of ''text_types'' ''exe'' ''text'' PREVIEW PRIVATE,
        item_of ''privacy_regs'' ''('' ''text'' GLOBAL PRIVATE]) st = (r, st')"
  shows "r = Failed 500 \<and> srows st' = srows st \<and> SlicesMap st' ''text_types'' = [''exe'']"
proof -
  have "fst (SaveSettings demo_hooks (Some [item_of ''text_types'' ''exe'' ''text'' PREVIEW PRIVATE,
        item_of ''privacy_regs'' ''('' ''text'' GLOBAL PRIVATE]) (demo_settings [demo_title])) = Failed 500"
    and "srows (snd (SaveSettings demo_hooks (Some [item_of ''text_types'' ''exe'' ''text'' PREVIEW PRIVATE,
        item_of ''privacy_regs'' ''('' ''text'' GLOBAL PRIVATE]) (demo_settings [demo_title]))) = [demo_title]"
    and "SlicesMap (snd (SaveSettings demo_hooks (Some [item_of ''text_types'' ''exe'' ''text'' PREVIEW PRIVATE,
        item_of ''privacy_regs'' ''('' ''text'' GLOBAL PRIVATE]) (demo_settings [demo_title]))) ''text_types'' = [''exe'']"
    by code_simp+
  then show ?thesis using save by (simp add: st demo_settings_def)
qed

end
