(* ===== verification/SettingStart.thy ===== *)
theory SettingStart
  imports SettingProps
begin

text \<open>
  What a start makes of the rows.  \<open>settled_row\<close> says, for each key, which row there is afterwards from
  the row there was before; \<open>initSettings\<close> is a sweep over the old rows and a merge with the initial
  items, and the lemmas follow these two loops.
\<close>

section \<open>The rows after a start\<close>

definition swept :: "SettingItem list \<Rightarrow> SettingItem \<Rightarrow> SettingItem option" where
  "swept init r =
     (if ItemKey r = [] \<or> ItemKey r \<in> set removedServiceSettingKeys then None
      else if isActive init (ItemKey r) then Some r else Some (r\<lparr>Flag := DEPRECATED\<rparr>))"

definition hook_accepts :: "setting_env \<Rightarrow> SettingItem \<Rightarrow> bool" where
  "hook_accepts env item =
     (if ItemKey item = ''privacy_regs'' then list_all (compiles env) (split_on (CHR 0x0A) (ItemValue item))
      else if ItemKey item = ''filename_char_mapping''
      then (case decode_map env (ItemValue item) of Nulled ok \<Rightarrow> ok | Entries _ ok \<Rightarrow> ok)
      else if ItemKey item = ''search_index''
      then ItemValue item = ''none'' \<or> new_searcher env (ItemValue item) = Some True
      else True)"

definition settled_row :: "setting_env \<Rightarrow> SettingItem list \<Rightarrow> SettingItem option \<Rightarrow> string \<Rightarrow> SettingItem option" where
  "settled_row env init old k =
     (let kept = Option.bind old (swept init)
      in case find (\<lambda>p. ItemKey (snd p) = k) (enumerate 0 init) of
           None \<Rightarrow> kept
         | Some (i, item) \<Rightarrow>
             let new = settle_item i item kept in if hook_accepts env new then Some new else kept)"

text \<open>What the loops need of the initial items.\<close>

definition hook_keys :: "string list" where
  "hook_keys = slice_keys @ [''privacy_regs'', ''filename_char_mapping'', ''search_index'', ''ignore_paths'']"

definition good_items :: "SettingItem list \<Rightarrow> bool" where
  "good_items init \<longleftrightarrow> distinct (map ItemKey init) \<and> list_all (isActive init) hook_keys \<and> \<not> isActive init []"

text \<open>A server that starts: nothing is cached or registered, and the database answers.\<close>

definition starting :: "setStore \<Rightarrow> bool" where
  "starting st \<longleftrightarrow> distinct (map ItemKey (srows st)) \<and> (\<forall>r \<in> set (srows st). MigrationValue r = []) \<and>
     settingCache st = (\<lambda>_. None) \<and> callbacks st = [] \<and> migrations st = [] \<and> sfail st = [] \<and>
     searcher st = None \<and> \<not> Running st"

section \<open>The sweep\<close>

text \<open>Between the loops the database answers, no callback is registered, and a single row that is cached is
  the row there is.\<close>

definition calm :: "setStore \<Rightarrow> bool" where
  "calm st \<longleftrightarrow> distinct (map ItemKey (srows st)) \<and> callbacks st = [] \<and> sfail st = [] \<and> \<not> Running st \<and>
     (\<forall>k item. cached_at st k = Some (OneItem item) \<longrightarrow> row (srows st) k = Some item)"

lemma db_call_quiet: "sfail st = [] \<Longrightarrow> db_call st = (True, st)"
  by (simp add: db_call_def)

lemma update_quiet: "callbacks st = [] \<Longrightarrow> SettingCacheUpdate st = ClearSettings st"
  by (simp add: SettingCacheUpdate_def ClearSettings_def)

lemma row_append: "row (xs @ ys) k = (case row xs k of None \<Rightarrow> row ys k | Some r \<Rightarrow> Some r)"
  by (induction xs) auto

lemma row_replace:
  "row (map (\<lambda>r. if ItemKey r = ItemKey item then row_of item else r) rs) k =
     (if k = ItemKey item \<and> k \<in> ItemKey ` set rs then Some (row_of item) else row rs k)"
  by (induction rs) (auto simp: row_of_def)

lemma row_upsert: "row (upsert item rs) k = (if k = ItemKey item then Some (row_of item) else row rs k)"
proof (cases "ItemKey item \<in> ItemKey ` set rs")
  case True
  then show ?thesis by (simp add: upsert_def row_replace)
next
  case False
  then have "row rs (ItemKey item) = None" by (simp add: row_None)
  then show ?thesis using False by (auto simp: upsert_def row_append row_of_def split: option.splits)
qed

lemma no_hook: "k \<notin> set hook_keys \<Longrightarrow> ItemKey item = k \<Longrightarrow> HandleSettingItemHook env item st = (None, st)"
  by (simp add: hook_keys_def HandleSettingItemHook_def)

lemma quiet_save:
  assumes q: "calm st" and m: "migrations st = []" and k: "ItemKey v \<noteq> []" "ItemKey v \<notin> set hook_keys"
  shows "SaveSettingItem env v st = (None, ClearSettings (st\<lparr>srows := upsert v (srows st)\<rparr>))"
proof -
  have "migrated v st = v" by (simp add: migrated_def m)
  then show ?thesis
    using q k(1) no_hook [OF k(2) refl, of env st]
    by (simp add: SaveSettingItem_def db_SaveSettingItem_def db_call_quiet calm_def update_quiet)
qed

lemma quiet_clear: "calm st \<Longrightarrow> distinct (map ItemKey rs) \<Longrightarrow> calm (ClearSettings (st\<lparr>srows := rs\<rparr>))"
  by (simp add: calm_def ClearSettings_def Clear_def stored_def)

text \<open>The sweep removes rows while only lists are cached; a list may then be older than the rows.\<close>

definition lists_only :: "setStore \<Rightarrow> bool" where
  "lists_only st \<longleftrightarrow> (\<forall>k item. cached_at st k \<noteq> Some (OneItem item))"

definition sweeping :: "setStore \<Rightarrow> setStore \<Rightarrow> bool" where
  "sweeping st st' \<longleftrightarrow> calm st' \<and> lists_only st' \<and> migrations st' = [] \<and> searcher st' = searcher st"

lemma sweeping_save:
  assumes "sweeping st0 st" and "ItemKey v \<noteq> []" "ItemKey v \<notin> set hook_keys"
  shows "SaveSettingItem env v st = (None, ClearSettings (st\<lparr>srows := upsert v (srows st)\<rparr>)) \<and>
    sweeping st0 (ClearSettings (st\<lparr>srows := upsert v (srows st)\<rparr>))"
  using assms quiet_save [of st v env] quiet_clear [of st "upsert v (srows st)"] upsert_keys
  by (auto simp: sweeping_def lists_only_def ClearSettings_def Clear_def stored_def calm_def)

lemma sweeping_delete:
  assumes "sweeping st0 st"
  shows "db_DeleteSettingItemByKey k st = (None, st\<lparr>srows := filter (\<lambda>r. ItemKey r \<noteq> k) (srows st)\<rparr>) \<and>
    sweeping st0 (st\<lparr>srows := filter (\<lambda>r. ItemKey r \<noteq> k) (srows st)\<rparr>)"
  using assms
  by (simp add: sweeping_def calm_def lists_only_def db_DeleteSettingItemByKey_def db_call_quiet distinct_map_filter)

text \<open>The sweep over the rows \<open>vs\<close>: each is swept, the others stay, and the map holds what is kept.\<close>

lemma check_deprecated_sweeps:
  assumes init: "list_all (isActive init) hook_keys"
  shows "sweeping st0 st \<Longrightarrow> distinct (map ItemKey vs) \<Longrightarrow> \<forall>v \<in> set vs. MigrationValue v = [] \<Longrightarrow>
    \<forall>v \<in> set vs. row (srows st) (ItemKey v) = Some v \<Longrightarrow>
    \<exists>m' st'. check_deprecated env init vs m st = (Some m', st') \<and> sweeping st0 st' \<and>
      (\<forall>k. row (srows st') k = (case row vs k of None \<Rightarrow> row (srows st) k | Some v \<Rightarrow> swept init v)) \<and>
      (\<forall>k. m' k = (case Option.bind (row vs k) (swept init) of None \<Rightarrow> m k | Some v \<Rightarrow> Some v))"
proof (induction vs arbitrary: m st)
  case Nil
  then show ?case by simp
next
  case (Cons v vs)
  let ?k = "ItemKey v"
  have none: "row vs ?k = None" using Cons.prems(2) by (simp add: row_None)
  have other: "ItemKey w \<noteq> ?k" if "w \<in> set vs" for w using Cons.prems(2) \<open>w \<in> set vs\<close> by (auto simp: image_iff)
  have step: ?case
    if E: "check_deprecated env init (v # vs) m st = check_deprecated env init vs m2 st2" and S: "sweeping st0 st2"
      and R: "\<And>k. row (srows st2) k = (if k = ?k then swept init v else row (srows st) k)"
      and M: "\<And>k. m2 k = (if k = ?k then (case swept init v of None \<Rightarrow> m k | Some w \<Rightarrow> Some w) else m k)" for m2 st2
  proof -
    have "distinct (map ItemKey vs)" "\<forall>v \<in> set vs. MigrationValue v = []"
      "\<forall>w \<in> set vs. row (srows st2) (ItemKey w) = Some w"
      using Cons.prems other by (auto simp: R)
    then obtain m' st' where run: "check_deprecated env init vs m2 st2 = (Some m', st')" "sweeping st0 st'"
      and rows: "\<And>k. row (srows st') k = (case row vs k of None \<Rightarrow> row (srows st2) k | Some v \<Rightarrow> swept init v)"
      and map: "\<And>k. m' k = (case Option.bind (row vs k) (swept init) of None \<Rightarrow> m2 k | Some v \<Rightarrow> Some v)"
      using Cons.IH [OF S, of m2] by blast
    show ?thesis
    proof (intro exI conjI allI)
      show "check_deprecated env init (v # vs) m st = (Some m', st')" and "sweeping st0 st'" using run E by simp_all
      show "row (srows st') k = (case row (v # vs) k of None \<Rightarrow> row (srows st) k | Some v \<Rightarrow> swept init v)" for k
        using none by (cases "k = ?k") (auto simp: rows R split: option.splits)
      show "m' k = (case Option.bind (row (v # vs) k) (swept init) of None \<Rightarrow> m k | Some v \<Rightarrow> Some v)" for k
        using none by (cases "k = ?k") (auto simp: map M split: option.splits)
    qed
  qed
  consider (gone) "?k = [] \<or> ?k \<in> set removedServiceSettingKeys"
    | (mark) "\<not> (?k = [] \<or> ?k \<in> set removedServiceSettingKeys)" "\<not> isActive init ?k" "Flag v \<noteq> DEPRECATED"
    | (keep) "\<not> (?k = [] \<or> ?k \<in> set removedServiceSettingKeys)" "isActive init ?k \<or> Flag v = DEPRECATED"
    by blast
  then show ?case
  proof cases
    case gone
    have "swept init v = None" using gone by (auto simp: swept_def)
    then show ?thesis
      using step [of m "st\<lparr>srows := filter (\<lambda>r. ItemKey r \<noteq> ?k) (srows st)\<rparr>"] sweeping_delete [OF Cons.prems(1), of ?k] gone
      by (simp add: row_filter)
  next
    case mark
    let ?v = "v\<lparr>Flag := DEPRECATED\<rparr>"
    have "?k \<notin> set hook_keys" using init mark(2) by (auto simp: list_all_iff)
    note save = sweeping_save [OF Cons.prems(1), of ?v env, simplified, OF _ this]
    have "migrated ?v st = ?v" using Cons.prems(1) by (simp add: migrated_def sweeping_def)
    moreover have "row_of ?v = ?v" "swept init v = Some ?v" using Cons.prems(3) mark by (auto simp: row_of_def swept_def)
    ultimately show ?thesis
      using step [of "m(?k := Some ?v)" "ClearSettings (st\<lparr>srows := upsert ?v (srows st)\<rparr>)"] mark save
      by (simp add: row_upsert ClearSettings_def Let_def)
  next
    case keep
    have "swept init v = Some v" using keep by (auto simp: swept_def)
    moreover have "row (srows st) ?k = Some v" using Cons.prems(4) by simp
    ultimately show ?thesis using keep Cons.prems(1) by (intro step [of "m(?k := Some v)" st]) auto
  qed
qed

section \<open>The merge\<close>

lemma drops_quiet: "drops st st' \<Longrightarrow> calm st \<Longrightarrow> calm st'"
  by (auto simp: drops_def calm_def same_rows_def)

lemma quiet_get:
  assumes q: "calm st"
  shows "\<exists>st'. GetSettingItemByKey k st =
      ((case row (srows st) k of None \<Rightarrow> Inl RecordNotFound | Some r \<Rightarrow> Inr r), st') \<and> calm st' \<and> same_rows st st'"
proof -
  obtain g st1 where get: "GetSetting k st = (g, st1)" by fastforce
  note d1 = GetSetting_drops [OF get]
  have q1: "calm st1" and same1: "same_rows st st1" using drops_quiet [OF d1 q] d1 by (auto simp: drops_def)
  show ?thesis
  proof (cases g)
    case (Some item)
    then have "row (srows st) k = Some item" using GetSetting_value get q by (auto simp: calm_def)
    then show ?thesis using get Some q1 same1 by (simp add: GetSettingItemByKey_def)
  next
    case None
    obtain r st2 where db: "db_GetSettingItemByKey k st1 = (r, st2)" by fastforce
    have d2: "drops st1 st2" and r: "right_row st1 k r" using db_GetSettingItemByKey_spec [OF db] by auto
    have q2: "calm st2" and same2: "same_rows st st2"
      using drops_quiet [OF d2 q1] same_rows_trans [OF same1] d2 by (auto simp: drops_def)
    have rows: "srows st1 = srows st" "srows st2 = srows st" "sfail st1 = []"
      using same1 same2 q by (auto simp: same_rows_def calm_def)
    show ?thesis
    proof (cases "row (srows st) k")
      case None
      then have "r = Inl RecordNotFound" using r rows by (auto simp: right_row_def split: sum.splits)
      then show ?thesis using get \<open>g = None\<close> db None q2 same2 by (simp add: GetSettingItemByKey_def)
    next
      case (Some item)
      then have inr: "r = Inr item" and key: "ItemKey item = k"
        using r rows by (auto simp: right_row_def split: sum.splits dest: row_SomeD)
      have "calm (SetSetting k item st2)"
        using q2 Some rows Cache_Set_frame [of st2 k "OneItem item"]
        by (auto simp: calm_def SetSetting_def Cache_Set_view same_rows_def)
      then show ?thesis
        using get \<open>g = None\<close> db inr key Some same_rows_trans [OF same2 Cache_Set_frame]
        by (simp add: GetSettingItemByKey_def SetSetting_def)
    qed
  qed
qed

lemma hook_decides:
  assumes "HandleSettingItemHook env item st = (r, st')" "\<not> Running st"
    and "searcher st = None \<or> ItemKey item \<noteq> ''search_index''"
  shows "(r = Some False) = (\<not> hook_accepts env item)" and "searcher st' = searcher st \<or> ItemKey item = ''search_index''"
  using assms
  by (auto simp: HandleSettingItemHook_def Let_def slice_keys_def set_slices_def set_privacy_def set_char_map_def
      search_Init_def updateIgnorePaths_def hook_accepts_def apfst_def map_prod_def
      split: if_splits char_entries.splits option.splits)

lemma hook_quiet: "hook_frame st st' \<Longrightarrow> calm st \<Longrightarrow> calm st'"
  by (simp add: hook_frame_def calm_def)

definition candidates :: "SettingItem list \<Rightarrow> (nat \<times> SettingItem) list \<Rightarrow> SettingItem list" where
  "candidates rs ps = map (\<lambda>p. settle_item (fst p) (snd p) (row rs (ItemKey (snd p)))) ps"

definition to_save :: "setting_env \<Rightarrow> SettingItem list \<Rightarrow> (nat \<times> SettingItem) list \<Rightarrow> SettingItem list" where
  "to_save env rs ps = filter (\<lambda>item. hook_accepts env item \<and> row rs (ItemKey item) \<noteq> Some item) (candidates rs ps)"

lemma settle_key [simp]: "ItemKey (settle_item i item old) = ItemKey item"
  by (simp add: settle_item_def Let_def split: option.splits)

lemma settle_row [simp]: "row_of (settle_item i item old) = settle_item i item old"
  by (simp add: settle_item_def row_of_def Let_def split: option.splits)

lemma note_migration_quiet:
  "calm st \<Longrightarrow> calm (note_migration item st)" "srows (note_migration item st) = srows st"
  "searcher (note_migration item st) = searcher st"
  by (simp_all add: note_migration_def calm_def)

lemma stored_item_quiet:
  assumes "calm st" and "\<And>k s. m k = Some s \<Longrightarrow> row (srows st) k = Some s"
  shows "\<exists>st'. stored_item m k st = (Some (row (srows st) k), st') \<and> calm st' \<and> same_rows st st'"
proof (cases "m k")
  case None
  then show ?thesis
    using quiet_get [OF assms(1), of k] by (auto simp: stored_item_def split: option.splits)
next
  case (Some s)
  then show ?thesis using assms by (simp add: stored_item_def)
qed

lemma merge_items_saves:
  "calm st \<Longrightarrow> distinct (map (ItemKey \<circ> snd) ps) \<Longrightarrow> (\<And>k s. m k = Some s \<Longrightarrow> row (srows st) k = Some s) \<Longrightarrow>
   searcher st = None \<or> ''search_index'' \<notin> (ItemKey \<circ> snd) ` set ps \<Longrightarrow>
   \<exists>st'. merge_items env m ps st = (Some (to_save env (srows st) ps), st') \<and> calm st' \<and> srows st' = srows st"
proof (induction ps arbitrary: st)
  case Nil
  then show ?case by (simp add: to_save_def candidates_def)
next
  case (Cons p ps)
  let ?st0 = "note_migration (snd p) st"
  let ?k = "ItemKey (snd p)"
  note q0 = note_migration_quiet [where item = "snd p" and st = st]
  obtain st1 where stored: "stored_item m ?k ?st0 = (Some (row (srows st) ?k), st1)" and q1: "calm st1"
    and same: "same_rows ?st0 st1"
    using stored_item_quiet [OF q0(1) [OF Cons.prems(1)], of m ?k] Cons.prems(3) q0(2) by auto
  let ?item = "settle_item (fst p) (snd p) (row (srows st) ?k)"
  obtain h st2 where hook: "HandleSettingItemHook env ?item st1 = (h, st2)" by fastforce
  have s1: "searcher st1 = searcher st" "srows st1 = srows st" using same q0 by (simp_all add: same_rows_def)
  have dec: "(h = Some False) = (\<not> hook_accepts env ?item)" and s2: "searcher st2 = searcher st \<or> ?k = ''search_index''"
    using hook_decides [OF hook] Cons.prems(4) q1 s1 by (auto simp: calm_def)
  have q2: "calm st2" and r2: "srows st2 = srows st"
    using hook_quiet [OF hook_frame [OF hook] q1] hook_frame [OF hook] s1 by (simp_all add: hook_frame_def)
  have "searcher st2 = None \<or> ''search_index'' \<notin> (ItemKey \<circ> snd) ` set ps"
  proof (cases "?k = ''search_index''")
    case True
    then show ?thesis using Cons.prems(2) by auto
  next
    case False
    then show ?thesis using s2 Cons.prems(4) by auto
  qed
  then obtain st3 where rest: "merge_items env m ps st2 = (Some (to_save env (srows st) ps), st3)" "calm st3" "srows st3 = srows st"
    using Cons.IH [OF q2] Cons.prems(2,3) r2 by auto
  have "merge_items env m (p # ps) st =
      (Some (if h = Some False \<or> row (srows st) ?k = Some ?item then to_save env (srows st) ps
             else ?item # to_save env (srows st) ps), st3)"
    using stored hook rest by (auto simp: Let_def split: option.splits bool.splits)
  then show ?case using rest dec by (auto simp: to_save_def candidates_def)
qed

section \<open>The whole start\<close>

lemma row_upserts:
  "distinct (map ItemKey items) \<Longrightarrow>
   row (fold upsert items rs) k = (case row items k of None \<Rightarrow> row rs k | Some item \<Rightarrow> Some (row_of item))"
proof (induction items arbitrary: rs)
  case (Cons item items)
  have "row items (ItemKey item) = None" using Cons.prems by (simp add: row_None)
  then show ?case using Cons by (auto simp: row_upsert split: option.splits)
qed simp

lemma row_candidates:
  "row (candidates rs ps) k = map_option (\<lambda>p. settle_item (fst p) (snd p) (row rs k)) (find (\<lambda>p. ItemKey (snd p) = k) ps)"
  by (induction ps) (auto simp: candidates_def)

lemma candidates_keys: "map ItemKey (candidates rs ps) = map (ItemKey \<circ> snd) ps"
  by (simp add: candidates_def)

lemma row_filter_if:
  "distinct (map ItemKey rs) \<Longrightarrow>
   row (filter P rs) k = (case row rs k of None \<Rightarrow> None | Some r \<Rightarrow> if P r then Some r else None)"
proof (induction rs)
  case (Cons r rs)
  have "ItemKey r = k \<Longrightarrow> row rs k = None" using Cons.prems by (auto simp: row_None)
  then show ?case using Cons by (auto split: option.splits)
qed simp

lemma find_holds: "find P xs = Some x \<Longrightarrow> P x"
  by (induction xs) (auto split: if_splits)

lemma saved_row:
  assumes "distinct (map (ItemKey \<circ> snd) ps)"
  shows "row (fold upsert (to_save env rs ps) rs) k =
    (case find (\<lambda>p. ItemKey (snd p) = k) ps of
       None \<Rightarrow> row rs k
     | Some p \<Rightarrow> let new = settle_item (fst p) (snd p) (row rs k) in if hook_accepts env new then Some new else row rs k)"
proof -
  have d: "distinct (map ItemKey (candidates rs ps))" using assms by (simp add: candidates_keys)
  then have "distinct (map ItemKey (to_save env rs ps))" by (simp add: to_save_def distinct_map_filter)
  then show ?thesis
    by (auto simp: row_upserts to_save_def row_filter_if [OF d] row_candidates Let_def
        split: option.splits dest!: find_holds)
qed

lemma write_items_quiet:
  assumes q: "calm st"
  shows "\<exists>st'. write_items items st = (True, st') \<and> srows st' = fold upsert items (srows st)"
  using q by (auto simp: write_items_def db_SaveSettingItems_def db_call_quiet calm_def update_quiet ClearSettings_def)

lemma first_read:
  assumes "starting st"
  shows "\<exists>st1. GetSettingItems st = (Inr (srows st), st1) \<and> sweeping st st1 \<and> srows st1 = srows st"
  using assms
  by (auto simp: starting_def GetSettingItems_def through_cache_def GetSettingGroup_def Cache_Get_def Get_def
      db_GetSettingItems_def db_find_def db_call_quiet SetSettingGroup_def sweeping_def calm_def lists_only_def
      Cache_Set_def SetWithTTL_def SetWithExpirable_def stored_def)

lemma init_from_settles:
  assumes st: "starting st" and init: "good_items init"
  shows "\<exists>st'. init_from env init st = (True, st') \<and> (\<forall>k. row (srows st') k = settled_row env init (row (srows st) k) k)"
proof -
  have d: "distinct (map ItemKey (srows st))" and mig: "\<forall>r \<in> set (srows st). MigrationValue r = []"
    using st by (auto simp: starting_def)
  obtain st1 where read: "GetSettingItems st = (Inr (srows st), st1)" and sw: "sweeping st st1" and r1: "srows st1 = srows st"
    using first_read [OF st] by blast
  have "\<forall>v \<in> set (srows st). row (srows st1) (ItemKey v) = Some v" using d r1 by (simp add: row_in)
  then obtain m st2 where sweep: "check_deprecated env init (srows st) (\<lambda>_. None) st1 = (Some m, st2)"
    and sw2: "sweeping st st2"
    and rows2: "\<And>k. row (srows st2) k = (case row (srows st) k of None \<Rightarrow> row (srows st1) k | Some v \<Rightarrow> swept init v)"
    and m: "\<And>k. m k = (case Option.bind (row (srows st) k) (swept init) of None \<Rightarrow> None | Some v \<Rightarrow> Some v)"
    using check_deprecated_sweeps [OF _ sw d mig, of init env "\<lambda>_. None"] init unfolding good_items_def by blast
  have rows2': "row (srows st2) k = Option.bind (row (srows st) k) (swept init)" for k
    using rows2 r1 by (auto split: option.splits)
  let ?st2 = "st2\<lparr>migrations := []\<rparr>"
  let ?ps = "enumerate 0 init"
  have keys: "map (ItemKey \<circ> snd) ?ps = map ItemKey init" by (metis map_map map_snd_enumerate)
  have q2: "calm ?st2" "searcher ?st2 = None" using sw2 st by (auto simp: sweeping_def calm_def starting_def)
  have stored: "m k = Some s \<Longrightarrow> row (srows ?st2) k = Some s" for k s
    using m rows2' by (auto split: option.splits)
  obtain st3 where merge: "merge_items env m ?ps ?st2 = (Some (to_save env (srows st2) ?ps), st3)"
    and q3: "calm st3" and r3: "srows st3 = srows st2"
    using merge_items_saves [OF q2(1), of ?ps m env] keys init stored q2(2) by (auto simp: good_items_def)
  obtain st4 where wr: "write_items (to_save env (srows st2) ?ps) st3 = (True, st4)"
    and r4: "srows st4 = fold upsert (to_save env (srows st2) ?ps) (srows st2)"
    using write_items_quiet [OF q3, of "to_save env (srows st2) ?ps"] r3 by auto
  have "init_from env init st = (True, st4)" using read sweep merge wr by (simp add: init_from_def)
  moreover have "row (srows st4) k = settled_row env init (row (srows st) k) k" for k
    using saved_row [of ?ps env "srows st2" k] keys init
    by (auto simp: r4 good_items_def settled_row_def rows2' Let_def split: option.splits prod.splits)
  ultimately show ?thesis by blast
qed

section \<open>The initial settings\<close>

text \<open>The keys do not depend on the configuration; \<open>initial_keys\<close> is their list at one.\<close>

definition demo_config :: setting_config where
  "demo_config = \<lparr>Dev = True, Version = ''4.1.9'', GitCommit = ''abc'', WebVersion = ''rolling'', BuiltAt = ''today'',
     UploadWorkers = 5, CopyWorkers = 5, MoveWorkers = 5, DecompressWorkers = 5, DecompressUploadWorkers = 5\<rparr>"

lemma initial_keys:
  "map ItemKey (InitialSettings c tok) =
     map ItemKey (InitialSettings (demo_config\<lparr>Dev := False\<rparr>) []) @ (if Dev c then map ItemKey dev_settings else [])"
  by (simp add: InitialSettings_def site_settings_def single_settings_def traffic_settings_def item_of_def)

lemma initial_keys_checked:
  "distinct (map ItemKey (InitialSettings demo_config []))"
  "list_all (isActive (InitialSettings demo_config [])) (hook_keys @ [''version'', ''token''])"
  "\<not> isActive (InitialSettings demo_config []) []"
  by code_simp+

lemma isActive_keys: "isActive init k \<longleftrightarrow> k \<in> set (map ItemKey init)"
  by (auto simp: isActive_def list_ex_iff)

lemma good_initial: "good_items (InitialSettings c tok)"
proof -
  let ?small = "map ItemKey (InitialSettings (demo_config\<lparr>Dev := False\<rparr>) [])"
  have demo: "map ItemKey (InitialSettings demo_config []) = ?small @ map ItemKey dev_settings"
    using initial_keys [of demo_config "[]"] by (simp add: demo_config_def)
  have "distinct (map ItemKey (InitialSettings c tok))"
    using initial_keys_checked(1) initial_keys [of c tok] unfolding demo by auto
  moreover have "list_all (\<lambda>k. k \<in> set ?small) hook_keys" by code_simp
  then have "list_all (isActive (InitialSettings c tok)) hook_keys"
    unfolding isActive_keys list_all_iff initial_keys [of c tok] by auto
  moreover have "\<not> isActive (InitialSettings c tok) []"
    using initial_keys_checked(3) unfolding isActive_keys demo initial_keys [of c tok] by auto
  ultimately show ?thesis by (simp add: good_items_def)
qed

text \<open>C15: a start brings the rows up to date.  When the database answers, \<open>initSettings\<close> does not end the
  process, and for each key there is afterwards exactly the row \<open>settled_row\<close> names: the initial item at
  its position, with the value the row had unless the value is a replaced default or the version;
  no row for a removed service or an empty key; a row of any other key marked as deprecated; and
  where the hook of an item rejects its value, the row as it was.\<close>

theorem initSettings_exact:
  assumes "starting st"
  shows "\<exists>st'. initSettings env c tok st = (True, st') \<and>
    (\<forall>k. row (srows st') k = settled_row env (InitialSettings c tok) (row (srows st) k) k)"
  unfolding initSettings_def using init_from_settles [OF assms good_initial] .

definition demo_old :: setStore where
  "demo_old = demo_settings
     [item_of ''site_title'' ''OpenList'' ''string'' SITE PUBLIC, item_of ''s3_buckets'' ''[]'' ''string'' SINGLE PRIVATE,
      item_of ''mine'' ''1'' ''string'' SINGLE PUBLIC, item_of ''privacy_regs'' ''('' ''text'' GLOBAL PRIVATE,
      item_of ''main_color'' ''red'' ''string'' STYLE PUBLIC]"

lemma demo_old_settled:
  "map_option ItemValue (settled_row demo_hooks (InitialSettings demo_config []) (row (srows demo_old) ''site_title'') ''site_title'') = Some ''TinyList''"
  "settled_row demo_hooks (InitialSettings demo_config []) (row (srows demo_old) ''s3_buckets'') ''s3_buckets'' = None"
  "map_option Flag (settled_row demo_hooks (InitialSettings demo_config []) (row (srows demo_old) ''mine'') ''mine'') = Some DEPRECATED"
  "map_option ItemValue (settled_row demo_hooks (InitialSettings demo_config []) (row (srows demo_old) ''privacy_regs'') ''privacy_regs'') = Some ''(''"
  "map_option (\<lambda>r. (ItemValue r, Index r)) (settled_row demo_hooks (InitialSettings demo_config []) (row (srows demo_old) ''main_color'') ''main_color'') = Some (''red'', 10)"
  by code_simp+

theorem initSettings_exact_witness:
  "\<exists>st'. initSettings demo_hooks demo_config [] demo_old = (True, st') \<and>
     map_option ItemValue (row (srows st') ''site_title'') = Some ''TinyList'' \<and>
     row (srows st') ''s3_buckets'' = None \<and>
     map_option Flag (row (srows st') ''mine'') = Some DEPRECATED \<and>
     map_option ItemValue (row (srows st') ''privacy_regs'') = Some ''('' \<and>
     map_option (\<lambda>r. (ItemValue r, Index r)) (row (srows st') ''main_color'') = Some (''red'', 10)"
proof -
  have "starting demo_old" by (simp add: starting_def demo_old_def demo_settings_def item_of_def)
  then obtain st' where "initSettings demo_hooks demo_config [] demo_old = (True, st')"
    and "\<And>k. row (srows st') k = settled_row demo_hooks (InitialSettings demo_config []) (row (srows demo_old) k) k"
    using initSettings_exact [of demo_old demo_hooks demo_config "[]"] by blast
  then show ?thesis using demo_old_settled by simp
qed

end
