(* ===== verification/Spec2Isabelle.thy ===== *)
theory Spec2Isabelle
  imports NetServe LockTheorems IfHeader Access SessionTheorems StorageProps FsProps HandlerProps MountProps DavSafety DownloadProps CacheProps SettingStart
begin

text \<open>
  A verification development for the Go server in this repository: a file list program that mounts storages into one
  tree and serves the tree over HTTP, as an API of JSON requests, and over WebDAV.

  A request passes a middleware that finds its user (\<open>server/middlewares\<close>, over \<open>internal/op/user.go\<close> and
  \<open>internal/db\<close>), and a handler (\<open>server/handles\<close>, \<open>server/webdav\<close>) that joins its path to the base path of the user and asks
  the rules of the path (\<open>server/common/check.go\<close>, \<open>internal/op/meta.go\<close>) whether the user may.  It then calls the file
  layer (\<open>internal/fs\<close>), which finds the storage of the path (\<open>internal/op/path.go\<close>, \<open>storage.go\<close>) and runs an operation on it
  (\<open>internal/op/fs.go\<close>) through the caches of listings and links; the drivers do the rest.  Here each of these is a
  state with operations on it, composed as the code composes them: \<open>server\<close> for users and sessions, \<open>registry\<close> for the
  storages, \<open>setStore\<close> for the settings, \<open>fsys\<close> for one storage with its caches, \<open>app\<close> and \<open>xfer\<close> for the file layer and its transfers, \<open>layer\<close> for the
  operations that handlers see, \<open>dav\<close> and \<open>site\<close> for the states of WebDAV and of downloads.

  Vocabulary:
  \<^item> \<open>Prelude\<close>, \<open>GoPath\<close>, \<open>GoStrconv\<close>, \<open>Base64\<close>: Go strings as lists of bytes with the functions of \<open>strings\<close>, \<open>path\<close>,
    \<open>strconv\<close>, \<open>net/textproto\<close> and \<open>encoding/base64\<close> that the sources call; results that may panic (\<open>go\<close>), or may also
    not return (\<open>outcome\<close>, in \<open>Transfers\<close>); wrap-around of \<open>int64\<close>; clean rooted paths as lists of names.

  Paths and serving of content:
  \<^item> \<open>Paths\<close>: \<open>pkg/utils/path.go\<close>, \<open>balance.go\<close>; joining a base path cannot leave it.
  \<^item> \<open>HttpRange\<close>: \<open>pkg/http_range/range.go\<close>; \<open>NetServe\<close>: \<open>internal/net/serve.go\<close>, \<open>util.go\<close>, conditional and range requests.

  Users, sessions and rules:
  \<^item> \<open>Users\<close> (\<open>internal/model/user.go\<close>), \<open>Accounts\<close> (the table and the users in memory, which are a heap of shared records),
    \<open>Sessions\<close> (tokens, the middleware, the login and user handlers), \<open>SessionProps\<close> (invariants), \<open>SessionTheorems\<close>.
  \<^item> \<open>Signing\<close>: \<open>pkg/sign\<close>, \<open>internal/sign\<close>.  \<open>Caches\<close>: \<open>internal/cache\<close>.
  \<^item> \<open>Settings\<close> (\<open>internal/op/setting.go\<close>, \<open>internal/db/settingitem.go\<close>, hooks and callbacks), \<open>SettingData\<close>
    (\<open>internal/bootstrap/data/setting.go\<close> and the handlers), \<open>SettingProps\<close> (the cache is coherent), \<open>SettingStart\<close>
    (the rows after a start).
  \<^item> \<open>Metas\<close> (\<open>internal/op/meta.go\<close>, \<open>internal/db/meta.go\<close>), \<open>Access\<close> (\<open>server/common/check.go\<close>).

  Storages and the file layer:
  \<^item> \<open>Objs\<close> (\<open>internal/model/obj.go\<close>), \<open>Drivers\<close> (storage rows and driver configurations), \<open>Storages\<close> with \<open>StorageProps\<close>
    (\<open>internal/op/storage.go\<close>), \<open>Routes\<close> with \<open>RouteProps\<close> (from a path to a storage), \<open>DirCache\<close> with \<open>DirCacheProps\<close>
    (\<open>internal/op/cache.go\<close>, whose listings share their arrays).
  \<^item> \<open>FsRead\<close>, \<open>FsWrite\<close> (\<open>internal/op/fs.go\<close>), \<open>FsProps\<close> (the cache is transparent), \<open>FsSafety\<close> (masks are respected).
  \<^item> \<open>Mounts\<close> with \<open>MountProps\<close> (\<open>internal/fs/list.go\<close>, \<open>get.go\<close>, \<open>link.go\<close>, \<open>other.go\<close>), \<open>TaskGroups\<close> (\<open>internal/task_group\<close>), \<open>Transfers\<close>
    with \<open>TransferProps\<close> and \<open>TransferSafety\<close> (\<open>internal/fs/copy_move.go\<close>, \<open>put.go\<close>).
  \<^item> \<open>Blocks\<close>, \<open>HybridCache\<close>, \<open>CacheProps\<close>: \<open>internal/hybrid_cache\<close>, \<open>internal/mem\<close> and the caching of a body in
    \<open>internal/stream/stream.go\<close>.

  Requests:
  \<^item> \<open>FsHandlers\<close> (\<open>server/handles/fsmanage.go\<close>, \<open>fsbatch.go\<close>, \<open>fsup.go\<close>), \<open>Confinement\<close>, \<open>HandlerRules\<close>, \<open>HandlerProps\<close>: the handlers
    under a contract of the layer (\<open>layer_contract\<close>), interpreted once on a layer that notes every path it is asked
    for, which gives confinement, and once on the server's layer, which gives respect for masks.
  \<^item> \<open>Downloads\<close> (\<open>down.go\<close> of handles and middlewares, \<open>proxy.go\<close>), \<open>FsViews\<close> (\<open>fsread.go\<close>), \<open>DownloadProps\<close>.
  \<^item> \<open>ExpiryHeap\<close>, \<open>Locks\<close>, \<open>LockInvariant\<close>, \<open>LockSystem\<close>, \<open>LockRefine\<close>, \<open>LockOps\<close>, \<open>LockProps\<close>, \<open>LockTheorems\<close>:
    \<open>server/webdav/lock.go\<close>, refined to a map from tokens to locks.  \<open>IfHeader\<close>: \<open>server/webdav/if.go\<close>.
  \<^item> \<open>DavXml\<close> (\<open>xml.go\<close>, \<open>prop.go\<close>), \<open>WebDav\<close> (\<open>webdav.go\<close>, \<open>file.go\<close>), \<open>DavRules\<close>, \<open>DavLocks\<close>, \<open>DavProps\<close>, \<open>DavSafety\<close>.

  What the lemmas show.  For each state there is an invariant that every operation keeps (\<open>sv_ok\<close> of the sessions,
  \<open>loaded_ok\<close> of the storages, the lock system's reachable states \<open>ls_reach\<close>, \<open>hc_ok\<close> of the hybrid cache, \<open>settings_ok\<close>); refinements
  (the lock system, cached listings, the hybrid cache, transparent caching) say what an operation does to an
  abstract state; safety statements quantify over all sequences of requests, all answers of the drivers, and all
  failures of the database, the files and the memory.  Theorems of the kind \<open>error\<close> run the model on a small state and
  show where the code does not keep what it promises.

  Bounds and fuel.  \<open>Hang\<close> and \<open>None\<close> stand for not returning, and theorems that promise an answer exclude them.
  \<open>n\<close> in \<open>transfer\<close> and in the handlers bounds the depth of directory trees, which the code does not bound; \<open>tries\<close>
  bounds the retries of \<open>Link\<close> while references to cached links are lost; \<open>walk_fuel\<close> bounds the depth of a PROPFIND;
  \<open>CopyFromN\<close> has one unit for each block, and a block is at least one byte.  The lock system counts to \<open>2 ^ 64\<close> tokens;
  \<open>unusedBackupPath\<close> tries ten names, as the code does.  Machine integers wrap where the code computes with them.

  Parameters.  Code outside the repository enters as arguments: drivers (\<open>backend\<close>), the sort, regular expressions,
  \<open>strings.ToLower\<close> beyond ASCII, JWT, Argon2, TOTP, LDAP, the keyed hash, \<open>url.Parse\<close>, decoders of JSON and XML, clocks, and
  the operating system, whose failures are lists of outcomes to come.

  Not modelled:
  \<^item> \<open>server/webdav/internal/xml\<close> but for \<open>escapeText\<close>: a copy of the library's XML package; \<open>writeMultistatus\<close> and the
    decoders of WebDAV bodies over it.
  \<^item> \<open>internal/net/request.go\<close> (the concurrent downloader) and the readers of \<open>internal/stream\<close> beyond \<open>ensureCache\<close>;
    \<open>pkg/buffer/pipe.go\<close>.
  \<^item> \<open>drivers/local\<close> and the registration of drivers by reflection (\<open>internal/op/driver.go\<close>): input and output on a disk.
  \<^item> \<open>internal/search\<close> but for the choice of the index (clients of external indices), \<open>internal/archive\<close>, \<open>internal/fs/archive.go\<close>, \<open>internal/op/archive.go\<close>.
  \<^item> the handlers for tasks, storages, rules, indices, single sign-on and WebAuthn, which pass a request on to an
    operation or to a library; \<open>cmd\<close>, the rest of \<open>internal/bootstrap\<close>, \<open>internal/conf\<close>, \<open>server/static\<close>: start-up and files of the
    user interface; \<open>pkg/generic_sync\<close>, \<open>pkg/singleflight\<close>: copies of Go libraries.
  \<^item> concurrency, except where an interleaving is a sequence of steps (\<open>sv_step\<close>, the lock system's held locks).
\<close>

end
